(* ===== verification/XR_Prelude.thy ===== *)
theory XR_Prelude
  imports Complex_Main
begin

text \<open>
  What the components share: option and list readings of the TypeScript idioms the
  sources use (\<open>??\<close>, \<open>find\<close>, SQL \<open>ORDER BY \<dots> DESC, rowid DESC\<close>), runs of a
  transition table over a list of events, and the locales that state the contracts of
  such tables: a region that only a gate event leaves, a closed region, and a rank that
  every event but the resetting ones lowers.
\<close>

named_theorems table_defs "transition tables and their state sets"
named_theorems store_defs "operations on persisted tables"

section \<open>TypeScript idioms\<close>

text \<open>\<open>x ?? d\<close> on an optional field.\<close>

definition nullish :: "'a option \<Rightarrow> 'a \<Rightarrow> 'a" where
  "nullish x d = (case x of None \<Rightarrow> d | Some v \<Rightarrow> v)"

lemma nullish_simps [simp]:
  "nullish None d = d"
  "nullish (Some v) d = v"
  by (simp_all add: nullish_def)

text \<open>A number is falsy when it is absent or 0, a string when it is absent or empty.\<close>

definition truthy_num :: "int option \<Rightarrow> bool" where
  "truthy_num x = (case x of None \<Rightarrow> False | Some n \<Rightarrow> n \<noteq> 0)"

definition truthy_str :: "string option \<Rightarrow> bool" where
  "truthy_str x = (case x of None \<Rightarrow> False | Some s \<Rightarrow> s \<noteq> [])"

lemma truthy_simps [simp]:
  "\<not> truthy_num None" "truthy_num (Some n) \<longleftrightarrow> n \<noteq> 0"
  "\<not> truthy_str None" "truthy_str (Some s) \<longleftrightarrow> s \<noteq> []"
  by (simp_all add: truthy_num_def truthy_str_def)

text \<open>
  \<open>Math.round(x)\<close>: the nearest integer, halves upwards. Amounts are exact rationals.
\<close>

definition js_round :: "rat \<Rightarrow> int" where
  "js_round x = \<lfloor>x + 1 / 2\<rfloor>"

lemma js_round_of_int [simp]: "js_round (of_int n) = n"
  unfolding js_round_def by (rule floor_unique) auto

lemma js_round_0 [simp]: "js_round 0 = 0"
  using js_round_of_int[of 0] by simp

lemma js_round_gt: "x - 1 / 2 < of_int (js_round x)"
  unfolding js_round_def by linarith

lemma js_round_le: "of_int (js_round x) \<le> x + 1 / 2"
  unfolding js_round_def by linarith

lemma js_round_mono: "x \<le> y \<Longrightarrow> js_round x \<le> js_round y"
  unfolding js_round_def by (rule floor_mono) simp

section \<open>Sums over the rows of a table\<close>

lemma sum_list_if_filter:
  "sum_list (map f (filter P xs)) = sum_list (map (\<lambda>x. if P x then f x else (0::'a::comm_monoid_add)) xs)"
  by (induction xs) auto

text \<open>An update of the one row with a given key moves a sum by the row's change.\<close>

lemma sum_list_bump_notin:
  "key \<notin> k ` set xs \<Longrightarrow>
     sum_list (map (\<lambda>x. if k x = key then f x else g x) xs) = sum_list (map g xs)"
  by (induction xs) auto

lemma sum_list_bump:
  fixes f :: "'a \<Rightarrow> 'b::comm_monoid_add"
  assumes "distinct (map k xs)" and "x \<in> set xs" and "k x = key" and "f x = g x + d"
  shows "sum_list (map (\<lambda>x. if k x = key then f x else g x) xs) = sum_list (map g xs) + d"
  using assms
proof (induction xs)
  case Nil
  then show ?case by simp
next
  case (Cons y ys)
  show ?case
  proof (cases "k y = key")
    case True
    with Cons.prems have "y = x" by (metis distinct.simps(2) image_eqI list.set_map list.simps(9) set_ConsD)
    moreover have "key \<notin> k ` set ys" using Cons.prems(1) True by auto
    ultimately show ?thesis
      using Cons.prems True by (simp add: sum_list_bump_notin add.assoc add.commute add.left_commute)
  next
    case False
    then show ?thesis using Cons by (auto simp: add.assoc)
  qed
qed

lemma sum_list_nonneg_rat: "(\<And>x. x \<in> set xs \<Longrightarrow> 0 \<le> f x) \<Longrightarrow> 0 \<le> sum_list (map f xs)"
  for f :: "'a \<Rightarrow> 'b::ordered_comm_monoid_add"
  by (induction xs) (auto intro: add_nonneg_nonneg)

lemma find_SomeD: "find P xs = Some x \<Longrightarrow> x \<in> set xs \<and> P x"
  by (induction xs) (auto split: if_splits)

lemma find_unique_key:
  assumes "distinct (map k xs)" and "x \<in> set xs" and "k x = key"
  shows "find (\<lambda>y. k y = key) xs = Some x"
  using assms by (induction xs) (auto simp: rev_image_eqI)

lemma find_map_keep: "(\<And>x. P (f x) = P x) \<Longrightarrow> find P (map f xs) = map_option f (find P xs)"
  by (induction xs) auto

section \<open>Tables in row order\<close>

text \<open>
  A database table is the list of its rows in \<open>rowid\<close> order. \<open>latest_first key\<close> is
  \<open>ORDER BY key DESC, rowid DESC\<close>: the sort is stable, so rows with equal keys keep the
  reversed insertion order.
\<close>

definition latest_first :: "('a \<Rightarrow> int) \<Rightarrow> 'a list \<Rightarrow> 'a list" where
  "latest_first key rows = sort_key (\<lambda>r. - key r) (rev rows)"

lemma set_latest_first [simp]: "set (latest_first key rows) = set rows"
  by (simp add: latest_first_def)

lemma length_latest_first [simp]: "length (latest_first key rows) = length rows"
  by (simp add: latest_first_def)

definition first_row :: "'a list \<Rightarrow> 'a option" where
  "first_row xs = (case xs of [] \<Rightarrow> None | x # _ \<Rightarrow> Some x)"

lemma first_row_simps [simp]:
  "first_row [] = None"
  "first_row (x # xs) = Some x"
  by (simp_all add: first_row_def)

lemma first_row_in: "first_row xs = Some x \<Longrightarrow> x \<in> set xs"
  by (cases xs) auto

lemma first_row_None [simp]: "first_row xs = None \<longleftrightarrow> xs = []"
  by (cases xs) auto

lemma insort_key_front:
  "\<forall>y \<in> set xs. f x \<le> f y \<Longrightarrow> insort_key f x xs = x # xs"
  by (cases xs) auto

text \<open>The row inserted last wins among the rows with the greatest key.\<close>

lemma latest_first_append_max:
  assumes "\<forall>y \<in> set rows. key y \<le> key x"
  shows "latest_first key (rows @ [x]) = x # latest_first key rows"
  using assms by (simp add: latest_first_def insort_key_front)

lemma first_latest_is_max:
  assumes "first_row (latest_first key rows) = Some x" and "y \<in> set rows"
  shows "key y \<le> key x"
proof -
  obtain zs where zs: "latest_first key rows = x # zs"
    using assms(1) by (auto simp: first_row_def split: list.splits)
  have "sorted (map (\<lambda>r. - key r) (x # zs))"
    using zs sorted_sort_key[of "\<lambda>r. - key r" "rev rows"] by (simp add: latest_first_def)
  moreover have "y \<in> set (x # zs)"
    using assms(2) zs set_latest_first[of key rows] by simp
  ultimately show ?thesis by auto
qed

lemma sort_key_snoc_least:
  assumes "\<forall>y \<in> set xs. f x < f y"
  shows "sort_key f (xs @ [x]) = x # sort_key f xs"
proof -
  have "foldr (insort_key f) xs (x # ys) = x # foldr (insort_key f) xs ys" if "\<forall>y \<in> set xs. f x < f y" for ys
    using that by (induction xs) auto
  from this[OF assms] show ?thesis by (simp add: sort_key_def)
qed

section \<open>Runs of a transition table\<close>

text \<open>A table gives the next state, or \<open>None\<close> where the code throws.\<close>

fun fsm_run :: "('s \<Rightarrow> 'e \<Rightarrow> 's option) \<Rightarrow> 's \<Rightarrow> 'e list \<Rightarrow> 's option" where
  "fsm_run step s [] = Some s"
| "fsm_run step s (e # es) =
     (case step s e of None \<Rightarrow> None | Some t \<Rightarrow> fsm_run step t es)"

lemma fsm_run_append:
  "fsm_run step s (xs @ ys) =
     (case fsm_run step s xs of None \<Rightarrow> None | Some t \<Rightarrow> fsm_run step t ys)"
  by (induction xs arbitrary: s) (auto split: option.splits)

text \<open>A region of states that the machine leaves through a gate event only.\<close>

locale gated_region =
  fixes step :: "'s \<Rightarrow> 'e \<Rightarrow> 's option"
    and region :: "'s \<Rightarrow> bool"
    and gate :: "'e \<Rightarrow> bool"
  assumes leave_by_gate: "region s \<Longrightarrow> step s e = Some t \<Longrightarrow> \<not> region t \<Longrightarrow> gate e"
begin

lemma run_leaves_by_gate:
  "region s \<Longrightarrow> fsm_run step s es = Some t \<Longrightarrow> \<not> region t \<Longrightarrow> \<exists>e \<in> set es. gate e"
proof (induction es arbitrary: s)
  case Nil
  then show ?case by simp
next
  case (Cons e es)
  then obtain u where u: "step s e = Some u" "fsm_run step u es = Some t"
    by (auto split: option.splits)
  show ?case
  proof (cases "region u")
    case True
    then show ?thesis using Cons.IH u(2) Cons.prems(3) by auto
  next
    case False
    then show ?thesis using leave_by_gate Cons.prems(1) u(1) by auto
  qed
qed

end

text \<open>A closed region: no event leaves it. It is a gated region whose gate never opens.\<close>

locale closed_region =
  fixes step :: "'s \<Rightarrow> 'e \<Rightarrow> 's option"
    and region :: "'s \<Rightarrow> bool"
  assumes step_closed: "region s \<Longrightarrow> step s e = Some t \<Longrightarrow> region t"

sublocale closed_region \<subseteq> gated_region step region "\<lambda>_. False"
  using step_closed by unfold_locales blast

context closed_region
begin

lemma run_closed: "region s \<Longrightarrow> fsm_run step s es = Some t \<Longrightarrow> region t"
  using run_leaves_by_gate by blast

end

text \<open>
  A rank that every event lowers, but for the resetting events, which may raise it by at
  most \<open>gain\<close>: runs are no longer than the rank allows.
\<close>

locale ranked_fsm =
  fixes step :: "'s \<Rightarrow> 'e \<Rightarrow> 's option"
    and rank :: "'s \<Rightarrow> nat"
    and resets :: "'e \<Rightarrow> bool"
    and gain :: nat
  assumes rank_down: "step s e = Some t \<Longrightarrow> \<not> resets e \<Longrightarrow> rank t < rank s"
    and rank_reset: "step s e = Some t \<Longrightarrow> resets e \<Longrightarrow> rank t \<le> rank s + gain"
begin

lemma run_length:
  "fsm_run step s es = Some t \<Longrightarrow>
     length es + rank t \<le> rank s + Suc gain * length (filter resets es)"
proof (induction es arbitrary: s)
  case Nil
  then show ?case by simp
next
  case (Cons e es)
  then obtain u where u: "step s e = Some u" "fsm_run step u es = Some t"
    by (auto split: option.splits)
  show ?case
  proof (cases "resets e")
    case True
    then show ?thesis using Cons.IH[OF u(2)] rank_reset[OF u(1)] by simp
  next
    case False
    then show ?thesis using Cons.IH[OF u(2)] rank_down[OF u(1)] by simp
  qed
qed

end

section \<open>Machines with an invariant\<close>

text \<open>
  A component as a step function over its operations, with an invariant that every
  operation keeps: runs keep it. \<open>guarded_machine\<close> adds a fact about the state that every
  admissible operation keeps under the invariant, \<open>protected_machine\<close> the case where
  admissibility reads the operation only.
\<close>

fun exec_ops :: "('op \<Rightarrow> 's \<Rightarrow> 's) \<Rightarrow> 'op list \<Rightarrow> 's \<Rightarrow> 's" where
  "exec_ops apply_op [] s = s"
| "exec_ops apply_op (x # xs) s = exec_ops apply_op xs (apply_op x s)"

lemma exec_ops_append: "exec_ops f (xs @ ys) s = exec_ops f ys (exec_ops f xs s)"
  by (induction xs arbitrary: s) auto

locale inv_machine =
  fixes apply_op :: "'op \<Rightarrow> 's \<Rightarrow> 's" and inv :: "'s \<Rightarrow> bool"
  assumes step_inv: "inv s \<Longrightarrow> inv (apply_op x s)"
begin

lemma run_inv: "inv s \<Longrightarrow> inv (exec_ops apply_op xs s)"
  by (induction xs arbitrary: s) (auto intro: step_inv)

end

text \<open>A fact that every admissible operation keeps; admissibility may read the state.\<close>

fun guarded_run :: "('op \<Rightarrow> 's \<Rightarrow> 's) \<Rightarrow> ('op \<Rightarrow> 's \<Rightarrow> bool) \<Rightarrow> 'op list \<Rightarrow> 's \<Rightarrow> bool" where
  "guarded_run apply_op admissible [] s = True"
| "guarded_run apply_op admissible (x # xs) s =
     (admissible x s \<and> guarded_run apply_op admissible xs (apply_op x s))"

lemma guarded_run_breaks:
  "\<not> guarded_run f adm xs s \<Longrightarrow>
     \<exists>pre x post. xs = pre @ x # post \<and> \<not> adm x (exec_ops f pre s)"
proof (induction xs arbitrary: s)
  case (Cons y ys)
  show ?case
  proof (cases "adm y s")
    case True
    then have "\<not> guarded_run f adm ys (f y s)" using Cons.prems by simp
    from Cons.IH[OF this] obtain pre x post
      where "ys = pre @ x # post" "\<not> adm x (exec_ops f pre (f y s))" by blast
    then have "y # ys = (y # pre) @ x # post \<and> \<not> adm x (exec_ops f (y # pre) s)" by simp
    then show ?thesis by blast
  next
    case False
    then have "y # ys = [] @ y # ys \<and> \<not> adm y (exec_ops f [] s)" by simp
    then show ?thesis by blast
  qed
qed simp

locale guarded_machine = inv_machine apply_op inv
  for apply_op :: "'op \<Rightarrow> 's \<Rightarrow> 's" and inv :: "'s \<Rightarrow> bool" +
  fixes admissible :: "'op \<Rightarrow> 's \<Rightarrow> bool" and fact :: "'s \<Rightarrow> bool"
  assumes step_guarded: "inv s \<Longrightarrow> fact s \<Longrightarrow> admissible x s \<Longrightarrow> fact (apply_op x s)"
begin

lemma run_guarded:
  "inv s \<Longrightarrow> fact s \<Longrightarrow> guarded_run apply_op admissible xs s \<Longrightarrow> fact (exec_ops apply_op xs s)"
  by (induction xs arbitrary: s) (auto intro: step_inv step_guarded)

end

locale protected_machine = inv_machine apply_op inv
  for apply_op :: "'op \<Rightarrow> 's \<Rightarrow> 's" and inv :: "'s \<Rightarrow> bool" +
  fixes admissible :: "'op \<Rightarrow> bool" and fact :: "'s \<Rightarrow> bool"
  assumes step_fact: "inv s \<Longrightarrow> fact s \<Longrightarrow> admissible x \<Longrightarrow> fact (apply_op x s)"

sublocale protected_machine \<subseteq> guarded_machine apply_op inv "\<lambda>x _. admissible x" fact
  using step_fact by unfold_locales

context protected_machine
begin

lemma run_fact:
  "inv s \<Longrightarrow> fact s \<Longrightarrow> \<forall>x \<in> set xs. admissible x \<Longrightarrow> fact (exec_ops apply_op xs s)"
  by (induction xs arbitrary: s) (auto intro: step_inv step_fact)

end

end
