(* ===== verification/Exec_State_Machine.thy ===== *)
theory Exec_State_Machine
  imports XR_Prelude
begin

text \<open>
  The execution state machine (\<open>src/execution/state-machine.ts\<close>) over the states of
  \<open>src/execution/types.ts\<close>: the transition table row by row, the state sets, and
  \<open>transition\<close> with its error. Then what the table guarantees: only a grant or a retry
  leaves the approval wait towards work, four states are dead ends, and runs are bounded
  by the number of retries.
\<close>

datatype exec_state =
    S_created | S_planned | S_awaiting_policy | S_awaiting_approval | S_authorized
  | S_queued | S_running | S_observing | S_succeeded | S_partially_completed | S_failed
  | S_cancelled | S_timed_out | S_denied | S_budget_blocked | S_unavailable
  | S_reconciliation_required

datatype exec_event =
    E_plan | E_submit_policy | E_require_approval | E_grant_approval | E_deny
  | E_budget_block | E_authorize | E_queue | E_start | E_observe | E_succeed | E_partial
  | E_fail | E_cancel | E_timeout | E_mark_unavailable | E_reconcile | E_retry
  | E_mark_dry_run | E_interrupt | E_mark_recoverable | E_begin_resume
  | E_resume_complete | E_block_recovery | E_mark_paused | E_checkpoint

text \<open>\<open>TRANSITIONS[from]?.[event]\<close>: \<open>None\<close> is \<open>undefined\<close>.\<close>

fun TRANSITIONS :: "exec_state \<Rightarrow> exec_event \<Rightarrow> exec_state option" where
  "TRANSITIONS S_created e = (case e of
       E_plan \<Rightarrow> Some S_planned
     | E_submit_policy \<Rightarrow> Some S_awaiting_policy
     | E_authorize \<Rightarrow> Some S_authorized
     | E_queue \<Rightarrow> Some S_queued
     | E_cancel \<Rightarrow> Some S_cancelled
     | E_mark_unavailable \<Rightarrow> Some S_unavailable
     | _ \<Rightarrow> None)"
| "TRANSITIONS S_planned e = (case e of
       E_submit_policy \<Rightarrow> Some S_awaiting_policy
     | E_authorize \<Rightarrow> Some S_authorized
     | E_queue \<Rightarrow> Some S_queued
     | E_cancel \<Rightarrow> Some S_cancelled
     | E_deny \<Rightarrow> Some S_denied
     | E_budget_block \<Rightarrow> Some S_budget_blocked
     | E_mark_unavailable \<Rightarrow> Some S_unavailable
     | _ \<Rightarrow> None)"
| "TRANSITIONS S_awaiting_policy e = (case e of
       E_require_approval \<Rightarrow> Some S_awaiting_approval
     | E_authorize \<Rightarrow> Some S_authorized
     | E_deny \<Rightarrow> Some S_denied
     | E_budget_block \<Rightarrow> Some S_budget_blocked
     | E_mark_unavailable \<Rightarrow> Some S_unavailable
     | E_cancel \<Rightarrow> Some S_cancelled
     | E_timeout \<Rightarrow> Some S_timed_out
     | _ \<Rightarrow> None)"
| "TRANSITIONS S_awaiting_approval e = (case e of
       E_grant_approval \<Rightarrow> Some S_authorized
     | E_deny \<Rightarrow> Some S_denied
     | E_cancel \<Rightarrow> Some S_cancelled
     | E_timeout \<Rightarrow> Some S_timed_out
     | _ \<Rightarrow> None)"
| "TRANSITIONS S_authorized e = (case e of
       E_queue \<Rightarrow> Some S_queued
     | E_start \<Rightarrow> Some S_running
     | E_deny \<Rightarrow> Some S_denied
     | E_budget_block \<Rightarrow> Some S_budget_blocked
     | E_cancel \<Rightarrow> Some S_cancelled
     | _ \<Rightarrow> None)"
| "TRANSITIONS S_queued e = (case e of
       E_start \<Rightarrow> Some S_running
     | E_cancel \<Rightarrow> Some S_cancelled
     | E_timeout \<Rightarrow> Some S_timed_out
     | E_budget_block \<Rightarrow> Some S_budget_blocked
     | E_deny \<Rightarrow> Some S_denied
     | _ \<Rightarrow> None)"
| "TRANSITIONS S_running e = (case e of
       E_observe \<Rightarrow> Some S_observing
     | E_succeed \<Rightarrow> Some S_succeeded
     | E_partial \<Rightarrow> Some S_partially_completed
     | E_fail \<Rightarrow> Some S_failed
     | E_cancel \<Rightarrow> Some S_cancelled
     | E_timeout \<Rightarrow> Some S_timed_out
     | E_mark_dry_run \<Rightarrow> Some S_succeeded
     | _ \<Rightarrow> None)"
| "TRANSITIONS S_observing e = (case e of
       E_succeed \<Rightarrow> Some S_succeeded
     | E_partial \<Rightarrow> Some S_partially_completed
     | E_fail \<Rightarrow> Some S_failed
     | E_reconcile \<Rightarrow> Some S_reconciliation_required
     | E_cancel \<Rightarrow> Some S_cancelled
     | E_timeout \<Rightarrow> Some S_timed_out
     | _ \<Rightarrow> None)"
| "TRANSITIONS S_succeeded e = (case e of E_reconcile \<Rightarrow> Some S_reconciliation_required | _ \<Rightarrow> None)"
| "TRANSITIONS S_partially_completed e =
     (case e of E_reconcile \<Rightarrow> Some S_reconciliation_required | _ \<Rightarrow> None)"
| "TRANSITIONS S_failed e = (case e of
       E_reconcile \<Rightarrow> Some S_reconciliation_required
     | E_retry \<Rightarrow> Some S_queued
     | _ \<Rightarrow> None)"
| "TRANSITIONS S_cancelled e = (case e of E_reconcile \<Rightarrow> Some S_reconciliation_required | _ \<Rightarrow> None)"
| "TRANSITIONS S_timed_out e = (case e of
       E_reconcile \<Rightarrow> Some S_reconciliation_required
     | E_retry \<Rightarrow> Some S_queued
     | _ \<Rightarrow> None)"
| "TRANSITIONS S_denied e = None"
| "TRANSITIONS S_budget_blocked e = None"
| "TRANSITIONS S_unavailable e = None"
| "TRANSITIONS S_reconciliation_required e = None"

section \<open>State sets\<close>

definition TERMINAL_STATES :: "exec_state list" where
  "TERMINAL_STATES =
     [S_succeeded, S_partially_completed, S_failed, S_cancelled, S_timed_out, S_denied,
      S_budget_blocked, S_unavailable, S_reconciliation_required]"

definition RUNNABLE_STATES :: "exec_state list" where
  "RUNNABLE_STATES = [S_authorized, S_queued, S_running]"

definition IN_FLIGHT_STATES :: "exec_state list" where
  "IN_FLIGHT_STATES = [S_queued, S_running, S_observing, S_awaiting_approval]"

definition SIDE_EFFECT_POSSIBLE_STATES :: "exec_state list" where
  "SIDE_EFFECT_POSSIBLE_STATES = [S_running, S_observing]"

definition isTerminal :: "exec_state \<Rightarrow> bool" where
  "isTerminal s \<longleftrightarrow> s \<in> set TERMINAL_STATES"

definition canRun :: "exec_state \<Rightarrow> bool" where
  "canRun s \<longleftrightarrow> s = S_authorized \<or> s = S_queued"

definition wasInFlight :: "exec_state \<Rightarrow> bool" where
  "wasInFlight s \<longleftrightarrow> s \<in> set IN_FLIGHT_STATES"

definition sideEffectPossible :: "exec_state \<Rightarrow> bool" where
  "sideEffectPossible s \<longleftrightarrow> s \<in> set SIDE_EFFECT_POSSIBLE_STATES"

datatype state_class = C_active | C_waiting | C_terminal

fun STATE_CLASS :: "exec_state \<Rightarrow> state_class" where
  "STATE_CLASS S_created = C_active"
| "STATE_CLASS S_planned = C_active"
| "STATE_CLASS S_awaiting_policy = C_waiting"
| "STATE_CLASS S_awaiting_approval = C_waiting"
| "STATE_CLASS S_authorized = C_active"
| "STATE_CLASS S_queued = C_waiting"
| "STATE_CLASS S_running = C_active"
| "STATE_CLASS S_observing = C_active"
| "STATE_CLASS S_succeeded = C_terminal"
| "STATE_CLASS S_partially_completed = C_terminal"
| "STATE_CLASS S_failed = C_terminal"
| "STATE_CLASS S_cancelled = C_terminal"
| "STATE_CLASS S_timed_out = C_terminal"
| "STATE_CLASS S_denied = C_terminal"
| "STATE_CLASS S_budget_blocked = C_terminal"
| "STATE_CLASS S_unavailable = C_terminal"
| "STATE_CLASS S_reconciliation_required = C_terminal"

declare TERMINAL_STATES_def [table_defs] RUNNABLE_STATES_def [table_defs]
  IN_FLIGHT_STATES_def [table_defs] SIDE_EFFECT_POSSIBLE_STATES_def [table_defs]
  isTerminal_def [table_defs] canRun_def [table_defs] wasInFlight_def [table_defs]
  sideEffectPossible_def [table_defs]

section \<open>The transition operation\<close>

text \<open>
  \<open>InvalidExecutionTransitionError(runId, from, to, detail)\<close>: its third argument is the
  event for \<open>transition\<close> and the offending state for \<open>assertInitialState\<close>.
\<close>

datatype transition_target = ToEvent exec_event | ToState exec_state

datatype exec_error =
  InvalidExecutionTransitionError string "exec_state option" transition_target "string option"

record exec_transition =
  tr_from :: "exec_state option"
  tr_to :: exec_state
  tr_at :: int
  tr_reason :: "string option"

definition transition ::
  "string \<Rightarrow> exec_state option \<Rightarrow> exec_event \<Rightarrow> string option \<Rightarrow> int \<Rightarrow>
   exec_error + (exec_state \<times> exec_transition)" where
  "transition runId current event reason now =
     (let from = nullish current S_created in
      case TRANSITIONS from event of
        None \<Rightarrow> Inl (InvalidExecutionTransitionError runId (Some from) (ToEvent event) reason)
      | Some next \<Rightarrow>
          Inr (next, \<lparr>tr_from = current, tr_to = next, tr_at = now, tr_reason = reason\<rparr>))"

definition assertInitialState :: "exec_state \<Rightarrow> exec_error + unit" where
  "assertInitialState state =
     (if state \<noteq> S_created
      then Inl (InvalidExecutionTransitionError ''<new>'' None (ToState state)
                  (Some (''new execution must start in '' @ [CHR 0x27] @ ''created'' @ [CHR 0x27])))
      else Inr ())"

text \<open>What \<open>transition\<close> accepts is the table, with the entry it records.\<close>

lemma transition_Inr:
  "transition runId current event reason now = Inr (nxt, en) \<longleftrightarrow>
     TRANSITIONS (nullish current S_created) event = Some nxt \<and>
     en = \<lparr>tr_from = current, tr_to = nxt, tr_at = now, tr_reason = reason\<rparr>"
  by (auto simp: transition_def Let_def split: option.splits)

lemma transition_Inl:
  "transition runId current event reason now = Inl err \<longleftrightarrow>
     TRANSITIONS (nullish current S_created) event = None \<and>
     err = InvalidExecutionTransitionError runId (Some (nullish current S_created))
             (ToEvent event) reason"
  by (auto simp: transition_def Let_def split: option.splits)

section \<open>What the table guarantees\<close>

text \<open>The approval wait and the states it may fall to without a decision to run.\<close>

definition no_grant_region :: "exec_state \<Rightarrow> bool" where
  "no_grant_region s \<longleftrightarrow> s \<in> {S_awaiting_approval, S_denied, S_cancelled, S_timed_out,
     S_reconciliation_required}"

definition grants_work :: "exec_event \<Rightarrow> bool" where
  "grants_work e \<longleftrightarrow> e = E_grant_approval \<or> e = E_retry"

text \<open>The states in which an execution is over for good: no retry leads out of them.\<close>

definition settled_region :: "exec_state \<Rightarrow> bool" where
  "settled_region s \<longleftrightarrow> isTerminal s \<and> s \<noteq> S_failed \<and> s \<noteq> S_timed_out"

fun exec_rank :: "exec_state \<Rightarrow> nat" where
  "exec_rank S_created = 9"
| "exec_rank S_planned = 8"
| "exec_rank S_awaiting_policy = 7"
| "exec_rank S_awaiting_approval = 6"
| "exec_rank S_authorized = 5"
| "exec_rank S_queued = 4"
| "exec_rank S_running = 3"
| "exec_rank S_observing = 2"
| "exec_rank S_succeeded = 1"
| "exec_rank S_partially_completed = 1"
| "exec_rank S_failed = 1"
| "exec_rank S_cancelled = 1"
| "exec_rank S_timed_out = 1"
| "exec_rank S_denied = 0"
| "exec_rank S_budget_blocked = 0"
| "exec_rank S_unavailable = 0"
| "exec_rank S_reconciliation_required = 0"

interpretation exec_gate: gated_region TRANSITIONS no_grant_region grants_work
proof unfold_locales
  fix s e t
  show "no_grant_region s \<Longrightarrow> TRANSITIONS s e = Some t \<Longrightarrow> \<not> no_grant_region t \<Longrightarrow> grants_work e"
    by (cases s) (simp_all add: no_grant_region_def grants_work_def split: exec_event.splits)
qed

interpretation exec_settled: closed_region TRANSITIONS settled_region
proof unfold_locales
  fix s e t
  show "settled_region s \<Longrightarrow> TRANSITIONS s e = Some t \<Longrightarrow> settled_region t"
    by (cases s) (simp_all add: settled_region_def table_defs split: exec_event.splits)
qed

interpretation exec_ranked: ranked_fsm TRANSITIONS exec_rank "\<lambda>e. e = E_retry" 3
proof unfold_locales
  fix s e t
  show "TRANSITIONS s e = Some t \<Longrightarrow> e \<noteq> E_retry \<Longrightarrow> exec_rank t < exec_rank s"
    by (cases s) (simp_all split: exec_event.splits)
  show "TRANSITIONS s e = Some t \<Longrightarrow> e = E_retry \<Longrightarrow> exec_rank t \<le> exec_rank s + 3"
    by (cases s) auto
qed

text \<open>An execution that waits for approval reaches a state in which work may be done
  (authorized, queued, running, observing, or a result of running) only through an approval
  grant or through a retry event: a denial, a cancellation and a timeout alone never
  lead to work.\<close>

theorem approval_wait_needs_grant:
  assumes "fsm_run TRANSITIONS S_awaiting_approval es = Some t"
    and "t \<notin> {S_awaiting_approval, S_denied, S_cancelled, S_timed_out, S_reconciliation_required}"
  shows "E_grant_approval \<in> set es \<or> E_retry \<in> set es"
  using exec_gate.run_leaves_by_gate[of S_awaiting_approval es t] assms
  by (auto simp: no_grant_region_def grants_work_def)

theorem approval_wait_needs_grant_witness:
  "E_grant_approval \<in> set [E_grant_approval, E_start] \<or> E_retry \<in> set [E_grant_approval, E_start]"
  by (rule approval_wait_needs_grant[of _ S_running]) simp_all

text \<open>The retry exception is real: the table itself lets a timed-out approval wait be queued
  and started again without a grant. Only the caller of \<open>retry\<close> can rule it out.\<close>

lemma approval_timeout_retry_runs:
  "fsm_run TRANSITIONS S_awaiting_policy
     [E_require_approval, E_timeout, E_retry, E_start] = Some S_running"
  by simp

text \<open>an execution that succeeded, partially completed, was cancelled, denied, budget
  blocked, unavailable or handed to reconciliation never runs again: no sequence of events
  leads from such a state to one that may begin or do work.\<close>

theorem settled_never_runs_again:
  assumes "isTerminal s" and "s \<noteq> S_failed" and "s \<noteq> S_timed_out"
    and "fsm_run TRANSITIONS s es = Some t"
  shows "isTerminal t \<and> \<not> canRun t \<and> \<not> sideEffectPossible t \<and> \<not> wasInFlight t"
proof -
  have "settled_region s"
    using assms(1-3) by (simp add: settled_region_def)
  then have "settled_region t"
    by (rule exec_settled.run_closed[OF _ assms(4)])
  then show ?thesis
    by (cases t) (simp_all add: settled_region_def table_defs)
qed

theorem settled_never_runs_again_witness:
  "isTerminal S_reconciliation_required \<and> \<not> canRun S_reconciliation_required \<and>
   \<not> sideEffectPossible S_reconciliation_required \<and> \<not> wasInFlight S_reconciliation_required"
  by (rule settled_never_runs_again[of S_succeeded "[E_reconcile]"]) (simp_all add: table_defs)

text \<open>C40: no execution runs for ever: from any state, a sequence of accepted events is at most
  9 long plus 4 for every retry event in it.\<close>

theorem run_bounded_by_retries:
  assumes "fsm_run TRANSITIONS s es = Some t"
  shows "length es \<le> 9 + 4 * length (filter (\<lambda>e. e = E_retry) es)"
proof -
  have "exec_rank s \<le> 9" by (cases s) simp_all
  then show ?thesis using exec_ranked.run_length[OF assms] by simp
qed

theorem run_bounded_by_retries_witness:
  "length [E_plan, E_submit_policy, E_require_approval, E_grant_approval, E_queue, E_start,
     E_observe, E_fail, E_retry, E_start] \<le>
   9 + 4 * length (filter (\<lambda>e. e = E_retry) [E_plan, E_submit_policy, E_require_approval,
     E_grant_approval, E_queue, E_start, E_observe, E_fail, E_retry, E_start])"
  by (rule run_bounded_by_retries[of S_created _ S_running]) simp

text \<open>The state sets agree with each other and with the table.\<close>

lemma isTerminal_iff_class: "isTerminal s \<longleftrightarrow> STATE_CLASS s = C_terminal"
  by (cases s) (simp_all add: table_defs)

lemma canRun_iff_start: "canRun s \<longleftrightarrow> TRANSITIONS s E_start = Some S_running"
  by (cases s) (simp_all add: table_defs)

lemma sideEffect_inFlight: "sideEffectPossible s \<Longrightarrow> wasInFlight s \<and> \<not> isTerminal s"
  by (cases s) (simp_all add: table_defs)

text \<open>The recovery events of the \<open>Event\<close> union have no transition from any state.\<close>

lemma recovery_events_rejected:
  "e \<in> {E_interrupt, E_mark_recoverable, E_begin_resume, E_resume_complete,
     E_block_recovery, E_mark_paused, E_checkpoint} \<Longrightarrow> TRANSITIONS s e = None"
  by (cases s) auto

end
