(* ===== verification/Trust_Lattice.thy ===== *)
theory Trust_Lattice
  imports XR_Prelude
begin

text \<open>
  Risk tiers and placements (\<open>src/runtime/trust/types.ts\<close>) and the restrictiveness
  lattice over them (\<open>src/runtime/trust/lattice.ts\<close>): every merge picks the more
  restrictive element, so requirements only escalate.
\<close>

datatype risk_tier = Tier0_in_process | Tier1_restricted | Tier2_isolated

fun RISK_TIER_ORDER :: "risk_tier \<Rightarrow> nat" where
  "RISK_TIER_ORDER Tier0_in_process = 0"
| "RISK_TIER_ORDER Tier1_restricted = 1"
| "RISK_TIER_ORDER Tier2_isolated = 2"

definition tierAtLeast :: "risk_tier \<Rightarrow> risk_tier \<Rightarrow> bool" where
  "tierAtLeast a b \<longleftrightarrow> RISK_TIER_ORDER a \<ge> RISK_TIER_ORDER b"

datatype placement_kind =
    In_process | Restricted_process | Namespace_sandbox | Container | Browser_isolated
  | Gvisor | Firecracker

fun PLACEMENT_RANK :: "placement_kind \<Rightarrow> nat" where
  "PLACEMENT_RANK In_process = 0"
| "PLACEMENT_RANK Restricted_process = 1"
| "PLACEMENT_RANK Namespace_sandbox = 2"
| "PLACEMENT_RANK Container = 3"
| "PLACEMENT_RANK Browser_isolated = 3"
| "PLACEMENT_RANK Gvisor = 4"
| "PLACEMENT_RANK Firecracker = 5"

definition atLeastAsRestrictive :: "placement_kind \<Rightarrow> placement_kind \<Rightarrow> bool" where
  "atLeastAsRestrictive a b \<longleftrightarrow> PLACEMENT_RANK a \<ge> PLACEMENT_RANK b"

definition strictlyMoreRestrictive :: "placement_kind \<Rightarrow> placement_kind \<Rightarrow> bool" where
  "strictlyMoreRestrictive a b \<longleftrightarrow> PLACEMENT_RANK a > PLACEMENT_RANK b"

definition mergePlacements :: "placement_kind \<Rightarrow> placement_kind \<Rightarrow> placement_kind" where
  "mergePlacements a b = (if atLeastAsRestrictive a b then a else b)"

text \<open>The \<open>for\<close> loop over the list, from \<open>in_process\<close>.\<close>

definition mergeAllPlacements :: "placement_kind list \<Rightarrow> placement_kind" where
  "mergeAllPlacements placements = foldl mergePlacements In_process placements"

definition effectiveTier :: "risk_tier \<Rightarrow> risk_tier option \<Rightarrow> risk_tier option \<Rightarrow> risk_tier" where
  "effectiveTier classified declaredMinimum runEscalated =
     (let tiers = [classified, nullish declaredMinimum Tier0_in_process,
                   nullish runEscalated Tier0_in_process]
      in hd (sort_key (\<lambda>t. - int (RISK_TIER_ORDER t)) tiers))"

fun tier_minimum :: "risk_tier \<Rightarrow> placement_kind" where
  "tier_minimum Tier0_in_process = In_process"
| "tier_minimum Tier1_restricted = Restricted_process"
| "tier_minimum Tier2_isolated = Namespace_sandbox"

definition placementSatisfiesTier :: "placement_kind \<Rightarrow> risk_tier \<Rightarrow> bool" where
  "placementSatisfiesTier placement tier = atLeastAsRestrictive placement (tier_minimum tier)"

datatype escalation = Escalated placement_kind | EscalationBlocked placement_kind risk_tier

definition escalateOnly ::
  "placement_kind option \<Rightarrow> placement_kind \<Rightarrow> risk_tier \<Rightarrow> escalation" where
  "escalateOnly current requested requiredTier =
     (if \<not> placementSatisfiesTier requested requiredTier
      then EscalationBlocked requested requiredTier
      else Escalated (case current of
             None \<Rightarrow> requested
           | Some c \<Rightarrow> mergePlacements c requested))"

section \<open>Merging by rank\<close>

text \<open>
  The contract behind both orders of the lattice: a merge that keeps the element of
  greater rank. From it: the merge dominates both sides, a fold over a list dominates its
  start and every element, and a later merge never lowers the rank.
\<close>

locale rank_merge =
  fixes rank :: "'a \<Rightarrow> nat" and merge :: "'a \<Rightarrow> 'a \<Rightarrow> 'a"
  assumes merge_rank: "rank (merge a b) = max (rank a) (rank b)"
    and merge_choice: "merge a b = a \<or> merge a b = b"
begin

lemma fold_rank: "rank (foldl merge a xs) = fold max (map rank xs) (rank a)"
  by (induction xs arbitrary: a) (simp_all add: merge_rank max.commute)

lemma fold_ge_start: "rank a \<le> rank (foldl merge a xs)"
proof (induction xs arbitrary: a)
  case (Cons x xs)
  then show ?case using merge_rank[of a x] by (metis foldl_Cons le_trans max.cobounded1)
qed simp

lemma fold_ge_elem: "x \<in> set xs \<Longrightarrow> rank x \<le> rank (foldl merge a xs)"
proof (induction xs arbitrary: a)
  case (Cons y ys)
  show ?case
  proof (cases "x = y")
    case True
    have "rank y \<le> rank (merge a y)" by (simp add: merge_rank)
    also have "\<dots> \<le> rank (foldl merge (merge a y) ys)" by (rule fold_ge_start)
    finally show ?thesis using True by simp
  next
    case False
    then show ?thesis using Cons by simp
  qed
qed simp

lemma fold_choice: "foldl merge a xs = a \<or> foldl merge a xs \<in> set xs"
proof (induction xs arbitrary: a)
  case (Cons x xs)
  show ?case using merge_choice[of a x] Cons[of "merge a x"] by (cases "merge a x = a") auto
qed simp

end

definition tier_merge :: "risk_tier \<Rightarrow> risk_tier \<Rightarrow> risk_tier" where
  "tier_merge a b = (if RISK_TIER_ORDER a \<ge> RISK_TIER_ORDER b then a else b)"

interpretation pm: rank_merge PLACEMENT_RANK mergePlacements
  by unfold_locales (auto simp: mergePlacements_def atLeastAsRestrictive_def max_def)

interpretation tm: rank_merge RISK_TIER_ORDER tier_merge
  by unfold_locales (auto simp: tier_merge_def max_def)

lemma RISK_TIER_ORDER_inj: "RISK_TIER_ORDER a = RISK_TIER_ORDER b \<longleftrightarrow> a = b"
  by (cases a; cases b) simp_all

lemma effectiveTier_merge:
  "effectiveTier c d r =
     tier_merge c (tier_merge (nullish d Tier0_in_process) (nullish r Tier0_in_process))"
  by (cases c; cases "nullish d Tier0_in_process"; cases "nullish r Tier0_in_process")
     (simp_all add: effectiveTier_def tier_merge_def)

lemma effectiveTier_order:
  "RISK_TIER_ORDER (effectiveTier c d r) =
     max (RISK_TIER_ORDER c)
       (max (RISK_TIER_ORDER (nullish d Tier0_in_process))
            (RISK_TIER_ORDER (nullish r Tier0_in_process)))"
  by (simp add: effectiveTier_merge tm.merge_rank)

text \<open>merging a list of placement requirements yields a placement at least as restrictive
  as every requirement in the list, and one of them (or the in-process start), so a merge
  neither weakens a requirement nor invents a stronger one.\<close>

theorem mergeAllPlacements_least_upper:
  "(\<forall>p \<in> set ps. atLeastAsRestrictive (mergeAllPlacements ps) p) \<and>
   (mergeAllPlacements ps = In_process \<or> mergeAllPlacements ps \<in> set ps)"
  using pm.fold_ge_elem pm.fold_choice
  by (auto simp: mergeAllPlacements_def atLeastAsRestrictive_def)

theorem mergeAllPlacements_least_upper_witness:
  "atLeastAsRestrictive (mergeAllPlacements [Container, Restricted_process]) Restricted_process \<and>
   mergeAllPlacements [Container, Restricted_process] = Container"
  using mergeAllPlacements_least_upper[of "[Container, Restricted_process]"]
  by (simp add: mergeAllPlacements_def mergePlacements_def atLeastAsRestrictive_def)

text \<open>
  A run's escalated tier is carried from action to action: each action's effective tier
  becomes the run's escalated tier for the next one.
\<close>

definition run_tiers :: "risk_tier option \<Rightarrow> (risk_tier \<times> risk_tier option) list \<Rightarrow> risk_tier option" where
  "run_tiers = foldl (\<lambda>esc (c, d). Some (effectiveTier c d esc))"

lemma run_tiers_mono:
  "RISK_TIER_ORDER (nullish esc Tier0_in_process) \<le>
     RISK_TIER_ORDER (nullish (run_tiers esc acts) Tier0_in_process)"
proof (induction acts arbitrary: esc)
  case Nil
  then show ?case by (simp add: run_tiers_def)
next
  case (Cons a acts)
  obtain c d where a: "a = (c, d)" by (cases a)
  have "RISK_TIER_ORDER (nullish esc Tier0_in_process) \<le> RISK_TIER_ORDER (effectiveTier c d esc)"
    by (simp add: effectiveTier_order)
  also have "\<dots> \<le> RISK_TIER_ORDER (nullish (run_tiers (Some (effectiveTier c d esc)) acts) Tier0_in_process)"
    using Cons[of "Some (effectiveTier c d esc)"] by simp
  finally show ?case by (simp add: run_tiers_def a)
qed

text \<open>Within a run the tier only escalates: whatever actions follow, and whatever lower
  tiers they classify to or declare, the run's tier stays at least every tier an earlier
  action was classified at or declared as its minimum.\<close>

theorem run_tier_never_drops:
  assumes "(c, d) \<in> set acts"
  shows "\<exists>t. run_tiers esc acts = Some t \<and> tierAtLeast t c \<and>
             tierAtLeast t (nullish d Tier0_in_process) \<and>
             tierAtLeast t (nullish esc Tier0_in_process)"
proof -
  obtain xs ys where split: "acts = xs @ (c, d) # ys"
    using assms by (meson split_list)
  define e where "e = effectiveTier c d (run_tiers esc xs)"
  have run: "run_tiers esc acts = run_tiers (Some e) ys"
    by (simp add: split run_tiers_def e_def)
  have some: "\<exists>t. run_tiers (Some e) ys = Some t"
    by (induction ys arbitrary: e) (auto simp: run_tiers_def)
  then obtain t where t: "run_tiers (Some e) ys = Some t" by blast
  have "RISK_TIER_ORDER e \<le> RISK_TIER_ORDER t"
    using run_tiers_mono[of "Some e" ys] t by simp
  moreover have "RISK_TIER_ORDER (nullish esc Tier0_in_process) \<le>
      RISK_TIER_ORDER (nullish (run_tiers esc xs) Tier0_in_process)"
    by (rule run_tiers_mono)
  ultimately show ?thesis
    using run t by (simp add: tierAtLeast_def e_def effectiveTier_order)
qed

theorem run_tier_never_drops_witness:
  "\<exists>t. run_tiers None [(Tier2_isolated, None), (Tier0_in_process, None)] = Some t \<and>
       tierAtLeast t Tier2_isolated \<and> tierAtLeast t (nullish None Tier0_in_process) \<and>
       tierAtLeast t (nullish None Tier0_in_process)"
  by (rule run_tier_never_drops) simp

text \<open>\<open>escalateOnly\<close> never hands out a downgrade: an accepted request is strong enough for
  the required tier and at least as restrictive as both the request and the placement the
  run already has; and a request is refused exactly when it is too weak for the tier.\<close>

theorem escalateOnly_never_downgrades:
  "case escalateOnly current requested tier of
     Escalated p \<Rightarrow> placementSatisfiesTier p tier \<and> atLeastAsRestrictive p requested \<and>
       (\<forall>c. current = Some c \<longrightarrow> atLeastAsRestrictive p c)
   | EscalationBlocked r t \<Rightarrow> r = requested \<and> t = tier \<and> \<not> placementSatisfiesTier requested tier"
  by (auto simp: escalateOnly_def placementSatisfiesTier_def atLeastAsRestrictive_def
      mergePlacements_def split: option.splits)

theorem escalateOnly_never_downgrades_witness:
  "case escalateOnly (Some Gvisor) Namespace_sandbox Tier2_isolated of
     Escalated p \<Rightarrow> placementSatisfiesTier p Tier2_isolated \<and>
       atLeastAsRestrictive p Namespace_sandbox \<and>
       (\<forall>c. Some Gvisor = Some c \<longrightarrow> atLeastAsRestrictive p c)
   | EscalationBlocked r t \<Rightarrow> r = Namespace_sandbox \<and> t = Tier2_isolated \<and>
       \<not> placementSatisfiesTier Namespace_sandbox Tier2_isolated"
  by (rule escalateOnly_never_downgrades)

end
