(* ===== verification/Trust_Placement.thy ===== *)
theory Trust_Placement
  imports Trust_Lattice
begin

text \<open>
  The policy-to-placement decision (\<open>src/runtime/trust/policy.ts\<close>): candidates per tier,
  availability on the host, and the decision, which fails closed. The texts of reasons and
  remediations are constructors that carry the interpolated values. \<open>Array.prototype.sort\<close>
  with the preference comparator of \<open>orderedCandidates\<close> is the parameter \<open>prefer\<close>: the
  comparator is not antisymmetric, so the language leaves the resulting order to the engine.
\<close>

record placement_caps =
  cap_inProcess :: bool
  cap_restrictedProcess :: bool
  cap_namespaceSandbox :: bool
  cap_container :: bool
  cap_browserIsolated :: bool
  cap_gvisor :: bool
  cap_firecracker :: bool
  cap_isRoot :: bool

datatype platform = Darwin | Win32 | OtherPlatform

record placement_config =
  allowTier1InProcessFallback :: "bool option"
  preferContainer :: "bool option"
  hardened :: "bool option"
  platform_override :: "platform option"

datatype remediation =
    RunUnprivileged | ReportDefect | InstallSandboxOrHarden | Tier2Macos | Tier2Windows
  | Tier2Linux | InstallSandboxOrAcceptFallback | ReduceScope

datatype decision_reason =
    RefusedAsRoot | LowRiskInProcess | LatticeViolated placement_kind risk_tier
  | Selected placement_kind risk_tier | Tier1Degraded
  | IsolationUnavailable risk_tier bool | ClassifierBlocked "string option"

datatype decision_kind = Admitted | Blocked | InProcessOk | Quarantined

record placement_decision =
  dec_kind :: decision_kind
  dec_requestedTier :: risk_tier
  dec_placement :: placement_kind
  dec_reason :: decision_reason
  dec_remediation :: "remediation option"
  dec_decidedAt :: int

fun tier2Remediation :: "platform \<Rightarrow> remediation" where
  "tier2Remediation Darwin = Tier2Macos"
| "tier2Remediation Win32 = Tier2Windows"
| "tier2Remediation OtherPlatform = Tier2Linux"

fun MIN_PLACEMENT_FOR_TIER :: "risk_tier \<Rightarrow> placement_kind list" where
  "MIN_PLACEMENT_FOR_TIER Tier0_in_process = [In_process]"
| "MIN_PLACEMENT_FOR_TIER Tier1_restricted =
     [Restricted_process, Namespace_sandbox, Container, Gvisor, Firecracker]"
| "MIN_PLACEMENT_FOR_TIER Tier2_isolated =
     [Namespace_sandbox, Container, Browser_isolated, Gvisor, Firecracker]"

definition orderedCandidates ::
  "(placement_kind list \<Rightarrow> placement_kind list) \<Rightarrow> risk_tier \<Rightarrow> placement_config \<Rightarrow>
   placement_kind list" where
  "orderedCandidates prefer tier config =
     (let m = MIN_PLACEMENT_FOR_TIER tier in
      if nullish (preferContainer config) False then prefer m else m)"

fun isAvailable :: "placement_kind \<Rightarrow> placement_caps \<Rightarrow> bool" where
  "isAvailable In_process caps = cap_inProcess caps"
| "isAvailable Restricted_process caps = (cap_restrictedProcess caps \<and> \<not> cap_isRoot caps)"
| "isAvailable Namespace_sandbox caps = (cap_namespaceSandbox caps \<and> \<not> cap_isRoot caps)"
| "isAvailable Container caps = cap_container caps"
| "isAvailable Browser_isolated caps = (cap_browserIsolated caps \<and> \<not> cap_isRoot caps)"
| "isAvailable Gvisor caps = (cap_gvisor caps \<and> \<not> cap_isRoot caps)"
| "isAvailable Firecracker caps = (cap_firecracker caps \<and> \<not> cap_isRoot caps)"

definition decision ::
  "risk_tier \<Rightarrow> int \<Rightarrow> decision_kind \<Rightarrow> placement_kind \<Rightarrow> decision_reason \<Rightarrow>
   remediation option \<Rightarrow> placement_decision" where
  "decision tier now k p why fix_it =
     \<lparr>dec_kind = k, dec_requestedTier = tier, dec_placement = p, dec_reason = why,
      dec_remediation = fix_it, dec_decidedAt = now\<rparr>"

text \<open>The candidate loop: the first available candidate decides; \<open>None\<close> when the loop ends.\<close>

fun try_candidates ::
  "risk_tier \<Rightarrow> int \<Rightarrow> placement_caps \<Rightarrow> placement_kind list \<Rightarrow> placement_decision option" where
  "try_candidates tier now caps [] = None"
| "try_candidates tier now caps (k # ks) =
     (if isAvailable k caps
      then if \<not> placementSatisfiesTier k tier
           then Some (decision tier now Blocked In_process (LatticeViolated k tier) (Some ReportDefect))
           else Some (decision tier now Admitted k (Selected k tier) None)
      else try_candidates tier now caps ks)"

definition decidePlacementForTier ::
  "(placement_kind list \<Rightarrow> placement_kind list) \<Rightarrow> platform \<Rightarrow> int \<Rightarrow> risk_tier \<Rightarrow>
   placement_caps \<Rightarrow> placement_config \<Rightarrow> placement_decision" where
  "decidePlacementForTier prefer host now tier caps config =
     (if tier \<noteq> Tier0_in_process \<and> cap_isRoot caps
      then decision tier now Blocked In_process RefusedAsRoot (Some RunUnprivileged)
      else if tier = Tier0_in_process
      then decision tier now InProcessOk In_process LowRiskInProcess None
      else case try_candidates tier now caps (orderedCandidates prefer tier config) of
        Some d \<Rightarrow> d
      | None \<Rightarrow>
          if tier = Tier1_restricted \<and> nullish (allowTier1InProcessFallback config) False \<and>
             cap_inProcess caps \<and> \<not> nullish (hardened config) False
          then decision tier now Admitted In_process Tier1Degraded (Some InstallSandboxOrHarden)
          else decision tier now Blocked In_process
                 (IsolationUnavailable tier (nullish (hardened config) False))
                 (Some (if tier = Tier2_isolated
                        then tier2Remediation (nullish (platform_override config) host)
                        else InstallSandboxOrAcceptFallback)))"

text \<open>\<open>decidePlacement\<close> reads three fields of the classification.\<close>

definition decidePlacement ::
  "(placement_kind list \<Rightarrow> placement_kind list) \<Rightarrow> platform \<Rightarrow> int \<Rightarrow>
   risk_tier \<Rightarrow> bool \<Rightarrow> string option \<Rightarrow> placement_caps \<Rightarrow> placement_config \<Rightarrow>
   placement_decision" where
  "decidePlacement prefer host now tier is_blocked blockReason caps config =
     (if is_blocked
      then (decidePlacementForTier prefer host now tier caps config)
             \<lparr>dec_kind := Blocked, dec_reason := ClassifierBlocked blockReason,
              dec_remediation := Some ReduceScope\<rparr>
      else decidePlacementForTier prefer host now tier caps config)"

definition minPlacementForTier :: "risk_tier \<Rightarrow> placement_kind list" where
  "minPlacementForTier tier = MIN_PLACEMENT_FOR_TIER tier"

section \<open>Fail-closed placement\<close>

lemma try_candidates_Some:
  "try_candidates tier now caps ks = Some d \<Longrightarrow>
     (\<exists>k \<in> set ks. isAvailable k caps \<and>
        (d = decision tier now Admitted k (Selected k tier) None \<and> placementSatisfiesTier k tier \<or>
         d = decision tier now Blocked In_process (LatticeViolated k tier) (Some ReportDefect)))"
  by (induction ks) (auto split: if_splits)

lemma try_candidates_admits:
  "try_candidates tier now caps ks = Some d \<Longrightarrow> \<forall>k \<in> set ks. placementSatisfiesTier k tier \<Longrightarrow>
     dec_kind d = Admitted"
  by (induction ks) (auto simp: decision_def split: if_splits)

lemma try_candidates_None:
  "try_candidates tier now caps ks = None \<longleftrightarrow> (\<forall>k \<in> set ks. \<not> isAvailable k caps)"
  by (induction ks) auto

lemma min_placements_satisfy:
  "k \<in> set (MIN_PLACEMENT_FOR_TIER tier) \<Longrightarrow> placementSatisfiesTier k tier"
  by (cases tier) (auto simp: placementSatisfiesTier_def atLeastAsRestrictive_def)

text \<open>Placement fails closed. An admitted decision names a placement that is strong enough
  for the tier and available on the host, the only exception being the explicit in-process
  fallback for tier 1 outside hardened mode; isolated (tier 2) work is never admitted
  in-process or in a merely restricted process, whatever the configuration; and a process
  running as root is admitted nothing above tier 0.\<close>

theorem placement_fails_closed:
  assumes "dec_kind (decidePlacementForTier prefer host now tier caps config) = Admitted"
  shows "let p = dec_placement (decidePlacementForTier prefer host now tier caps config) in
     \<not> cap_isRoot caps \<and> tier \<noteq> Tier0_in_process \<and>
     (placementSatisfiesTier p tier \<and> isAvailable p caps \<or>
      p = In_process \<and> tier = Tier1_restricted \<and>
      allowTier1InProcessFallback config = Some True \<and> hardened config \<noteq> Some True)"
proof -
  consider (loop) d where "tier \<noteq> Tier0_in_process" "\<not> cap_isRoot caps"
      "try_candidates tier now caps (orderedCandidates prefer tier config) = Some d"
      "decidePlacementForTier prefer host now tier caps config = d"
    | (fallback) "tier = Tier1_restricted" "\<not> cap_isRoot caps"
      "nullish (allowTier1InProcessFallback config) False" "\<not> nullish (hardened config) False"
      "dec_placement (decidePlacementForTier prefer host now tier caps config) = In_process"
    using assms
    by (auto simp: decidePlacementForTier_def decision_def split: if_splits option.splits)
  then show ?thesis
  proof cases
    case loop
    then show ?thesis
      using assms try_candidates_Some[OF loop(3)] by (auto simp: decision_def Let_def)
  next
    case fallback
    then show ?thesis by (auto simp: Let_def nullish_def split: option.splits)
  qed
qed

definition linux_caps :: placement_caps where
  "linux_caps = \<lparr>cap_inProcess = True, cap_restrictedProcess = True, cap_namespaceSandbox = True,
     cap_container = False, cap_browserIsolated = False, cap_gvisor = False,
     cap_firecracker = False, cap_isRoot = False\<rparr>"

definition empty_config :: placement_config where
  "empty_config = \<lparr>allowTier1InProcessFallback = None, preferContainer = None, hardened = None,
     platform_override = None\<rparr>"

theorem placement_fails_closed_witness:
  "let p = dec_placement (decidePlacementForTier id OtherPlatform 0 Tier2_isolated linux_caps empty_config) in
     \<not> cap_isRoot linux_caps \<and> Tier2_isolated \<noteq> Tier0_in_process \<and>
     (placementSatisfiesTier p Tier2_isolated \<and> isAvailable p linux_caps \<or>
      p = In_process \<and> Tier2_isolated = Tier1_restricted \<and>
      allowTier1InProcessFallback empty_config = Some True \<and> hardened empty_config \<noteq> Some True)"
  by (rule placement_fails_closed)
     (simp add: decidePlacementForTier_def orderedCandidates_def decision_def linux_caps_def
       empty_config_def placementSatisfiesTier_def atLeastAsRestrictive_def)

text \<open>Placement is complete. Provided the sort permutes its input, tier 1 and tier 2 work
  of an unprivileged process is admitted if and only if some placement of the tier's list is
  available on the host, or the explicit tier 1 fallback applies.\<close>

theorem placement_complete:
  assumes "\<And>xs. set (prefer xs) = set xs" and "tier \<noteq> Tier0_in_process" and "\<not> cap_isRoot caps"
  shows "dec_kind (decidePlacementForTier prefer host now tier caps config) = Admitted \<longleftrightarrow>
     (\<exists>k \<in> set (minPlacementForTier tier). isAvailable k caps) \<or>
     tier = Tier1_restricted \<and> allowTier1InProcessFallback config = Some True \<and>
       cap_inProcess caps \<and> hardened config \<noteq> Some True"
proof -
  let ?ks = "orderedCandidates prefer tier config"
  have ks: "set ?ks = set (MIN_PLACEMENT_FOR_TIER tier)"
    using assms(1) by (simp add: orderedCandidates_def Let_def)
  have fb: "nullish x False \<longleftrightarrow> x = Some True" for x by (cases x) auto
  show ?thesis
  proof (cases "try_candidates tier now caps ?ks")
    case None
    then have "\<forall>k \<in> set (minPlacementForTier tier). \<not> isAvailable k caps"
      using ks by (simp add: try_candidates_None minPlacementForTier_def)
    moreover have "dec_kind (decidePlacementForTier prefer host now tier caps config) = Admitted \<longleftrightarrow>
        tier = Tier1_restricted \<and> nullish (allowTier1InProcessFallback config) False \<and>
        cap_inProcess caps \<and> \<not> nullish (hardened config) False"
      using None assms(2,3) by (simp add: decidePlacementForTier_def decision_def)
    ultimately show ?thesis by (auto simp: fb)
  next
    case (Some d)
    from try_candidates_Some[OF Some] obtain k where k:
      "k \<in> set (minPlacementForTier tier)" "isAvailable k caps" "placementSatisfiesTier k tier"
      using ks min_placements_satisfy unfolding minPlacementForTier_def by blast
    have "dec_kind d = Admitted"
      using try_candidates_admits[OF Some] ks min_placements_satisfy by blast
    then have "dec_kind (decidePlacementForTier prefer host now tier caps config) = Admitted"
      using Some assms(2,3) by (simp add: decidePlacementForTier_def)
    then show ?thesis using k by blast
  qed
qed

theorem placement_complete_witness:
  "dec_kind (decidePlacementForTier id OtherPlatform 0 Tier2_isolated linux_caps empty_config) = Admitted \<longleftrightarrow>
     (\<exists>k \<in> set (minPlacementForTier Tier2_isolated). isAvailable k linux_caps) \<or>
     Tier2_isolated = Tier1_restricted \<and>
       allowTier1InProcessFallback empty_config = Some True \<and>
       cap_inProcess linux_caps \<and> hardened empty_config \<noteq> Some True"
  by (rule placement_complete) (simp_all add: linux_caps_def)

text \<open>
  The comment on \<open>hardened\<close> calls hardened mode the default; with the field absent the code
  takes the tier 1 fallback, so absent means not hardened.
\<close>

lemma hardened_absent_admits_fallback:
  "dec_kind (decidePlacementForTier id OtherPlatform 0 Tier1_restricted
     \<lparr>cap_inProcess = True, cap_restrictedProcess = False, cap_namespaceSandbox = False,
      cap_container = False, cap_browserIsolated = False, cap_gvisor = False,
      cap_firecracker = False, cap_isRoot = False\<rparr>
     \<lparr>allowTier1InProcessFallback = Some True, preferContainer = None, hardened = None,
      platform_override = None\<rparr>) = Admitted"
  by (simp add: decidePlacementForTier_def orderedCandidates_def decision_def)

end
