(* ===== verification/Exec_Types.thy ===== *)
theory Exec_Types
  imports Exec_State_Machine Trust_Placement
begin

text \<open>
  The execution contract (\<open>src/execution/types.ts\<close>): identities, actions, outcomes, the
  trust metadata that recovery reads, and the execution record. JSON values are a datatype
  with \<open>undefined\<close>, so that object spread, \<open>JSON.stringify\<close> and field access read as in
  the source; numbers in JSON are the integers the code stores there.
\<close>

section \<open>JSON values\<close>

datatype json =
    JUndef | JNull | JBool bool | JNum int | JStr string
  | JArr "json list" | JObj "(string \<times> json) list"

fun json_truthy :: "json \<Rightarrow> bool" where
  "json_truthy JUndef = False"
| "json_truthy JNull = False"
| "json_truthy (JBool b) = b"
| "json_truthy (JNum n) = (n \<noteq> 0)"
| "json_truthy (JStr s) = (s \<noteq> [])"
| "json_truthy (JArr xs) = True"
| "json_truthy (JObj fs) = True"

definition obj_get :: "(string \<times> json) list \<Rightarrow> string \<Rightarrow> json" where
  "obj_get fs k = nullish (map_of fs k) JUndef"

text \<open>\<open>o.k\<close>: undefined on anything that is not an object with that field.\<close>

fun json_field :: "json \<Rightarrow> string \<Rightarrow> json" where
  "json_field (JObj fs) k = obj_get fs k"
| "json_field _ k = JUndef"

text \<open>Assignment keeps the position of an existing key and appends a new one.\<close>

fun obj_set :: "string \<Rightarrow> json \<Rightarrow> (string \<times> json) list \<Rightarrow> (string \<times> json) list" where
  "obj_set k v [] = [(k, v)]"
| "obj_set k v ((k', v') # fs) = (if k = k' then (k, v) # fs else (k', v') # obj_set k v fs)"

definition obj_spread :: "(string \<times> json) list \<Rightarrow> (string \<times> json) list \<Rightarrow> (string \<times> json) list" where
  "obj_spread base extra = fold (\<lambda>(k, v). obj_set k v) extra base"

lemma map_of_obj_set: "map_of (obj_set k v fs) = (map_of fs)(k \<mapsto> v)"
  by (induction fs) (auto simp: fun_eq_iff)

section \<open>JSON text\<close>

fun digits_of :: "nat \<Rightarrow> nat \<Rightarrow> string" where
  "digits_of 0 n = []"
| "digits_of (Suc fuel) n =
     (if n < 10 then [char_of (48 + n)] else digits_of fuel (n div 10) @ [char_of (48 + n mod 10)])"

text \<open>One unit of fuel per digit: \<open>n + 1\<close> units are enough for \<open>n\<close>.\<close>

definition show_nat :: "nat \<Rightarrow> string" where
  "show_nat n = digits_of (Suc n) n"

definition show_int :: "int \<Rightarrow> string" where
  "show_int i = (if i < 0 then ''-'' @ show_nat (nat (- i)) else show_nat (nat i))"

lemma digits_of_enough:
  "n < fuel \<Longrightarrow> digits_of fuel n = digits_of (Suc n) n"
proof (induction n arbitrary: fuel rule: less_induct)
  case (less n)
  then obtain f where f: "fuel = Suc f" by (cases fuel) auto
  show ?case
  proof (cases "n < 10")
    case False
    then have "n div 10 < n" and "n div 10 < f" using less.prems f by auto
    then show ?thesis
      using False f less.IH[of "n div 10" f] less.IH[of "n div 10" n] by simp
  qed (simp add: f)
qed

lemma show_nat_rec:
  "show_nat n = (if n < 10 then [char_of (48 + n)] else show_nat (n div 10) @ [char_of (48 + n mod 10)])"
  using digits_of_enough[of "n div 10" n] by (auto simp: show_nat_def)

definition hex_digit :: "nat \<Rightarrow> char" where
  "hex_digit n = char_of (if n < 10 then 48 + n else 87 + n)"

text \<open>The escapes of \<open>JSON.stringify\<close>.\<close>

definition json_escape :: "char \<Rightarrow> string" where
  "json_escape c =
     (let n = of_char c :: nat; bs = CHR 0x5C in
      if n = 34 then [bs, CHR 0x22]
      else if n = 92 then [bs, bs]
      else if n = 8 then [bs, CHR ''b'']
      else if n = 9 then [bs, CHR ''t'']
      else if n = 10 then [bs, CHR ''n'']
      else if n = 12 then [bs, CHR ''f'']
      else if n = 13 then [bs, CHR ''r'']
      else if n < 32 then [bs, CHR ''u'', CHR ''0'', CHR ''0'', hex_digit (n div 16), hex_digit (n mod 16)]
      else [c])"

definition json_quote :: "string \<Rightarrow> string" where
  "json_quote s = [CHR 0x22] @ concat (map json_escape s) @ [CHR 0x22]"

definition comma_join :: "string list \<Rightarrow> string" where
  "comma_join xs = (case xs of [] \<Rightarrow> [] | x # ys \<Rightarrow> x @ concat (map (\<lambda>y. '','' @ y) ys))"

fun json_stringify :: "json \<Rightarrow> string" where
  "json_stringify JUndef = ''null''"
| "json_stringify JNull = ''null''"
| "json_stringify (JBool b) = (if b then ''true'' else ''false'')"
| "json_stringify (JNum n) = show_int n"
| "json_stringify (JStr s) = json_quote s"
| "json_stringify (JArr xs) = ''['' @ comma_join (map json_stringify xs) @ '']''"
| "json_stringify (JObj fs) =
     ''{'' @ comma_join (concat (map (\<lambda>(k, v). if v = JUndef then [] else [json_quote k @ '':'' @ json_stringify v]) fs)) @ ''}''"

text \<open>What \<open>JSON.parse\<close> gives back for that text: fields with \<open>undefined\<close> are gone.\<close>

fun json_norm :: "json \<Rightarrow> json" where
  "json_norm (JArr xs) = JArr (map (\<lambda>x. if x = JUndef then JNull else json_norm x) xs)"
| "json_norm (JObj fs) =
     JObj (concat (map (\<lambda>(k, v). if v = JUndef then [] else [(k, json_norm v)]) fs))"
| "json_norm v = v"

section \<open>Execution data\<close>

datatype idempotency_class =
  Naturally_idempotent | Idempotent_with_key | Non_idempotent | Unknown_unsafe

datatype capability_kind =
    CK_model_call | CK_core_tool | CK_control_action | CK_mcp_tool | CK_mcp_resource
  | CK_mcp_prompt | CK_plugin_operation | CK_skill_operation | CK_workflow_task
  | CK_research_operation | CK_business_action

fun capability_kind_str :: "capability_kind \<Rightarrow> string" where
  "capability_kind_str CK_model_call = ''model_call''"
| "capability_kind_str CK_core_tool = ''core_tool''"
| "capability_kind_str CK_control_action = ''control_action''"
| "capability_kind_str CK_mcp_tool = ''mcp_tool''"
| "capability_kind_str CK_mcp_resource = ''mcp_resource''"
| "capability_kind_str CK_mcp_prompt = ''mcp_prompt''"
| "capability_kind_str CK_plugin_operation = ''plugin_operation''"
| "capability_kind_str CK_skill_operation = ''skill_operation''"
| "capability_kind_str CK_workflow_task = ''workflow_task''"
| "capability_kind_str CK_research_operation = ''research_operation''"
| "capability_kind_str CK_business_action = ''business_action''"

record capability_identity =
  cap_kind :: capability_kind
  cap_name :: string
  cap_version :: "string option"
  cap_requiresApproval :: "bool option"
  cap_owner :: "string option"

record exec_action =
  act_capability :: capability_identity
  act_inputSummary :: string
  act_inputBytes :: "int option"
  act_idempotency :: idempotency_class
  act_idempotencyKey :: "string option"
  act_timeoutMs :: "int option"
  act_dryRun :: bool

record execution_id =
  runId :: string
  workspaceId :: string
  sessionId :: "string option"
  workflowId :: "string option"
  taskId :: "string option"
  attempt :: int
  parentRunId :: "string option"
  correlationId :: string

datatype outcome_kind =
    OK_succeeded | OK_failed | OK_partially_completed | OK_cancelled | OK_timed_out
  | OK_denied | OK_budget_stopped | OK_unavailable | OK_awaiting_approval
  | OK_reconciliation_required | OK_dry_run_simulated

fun outcome_str :: "outcome_kind \<Rightarrow> string" where
  "outcome_str OK_succeeded = ''succeeded''"
| "outcome_str OK_failed = ''failed''"
| "outcome_str OK_partially_completed = ''partially_completed''"
| "outcome_str OK_cancelled = ''cancelled''"
| "outcome_str OK_timed_out = ''timed_out''"
| "outcome_str OK_denied = ''denied''"
| "outcome_str OK_budget_stopped = ''budget_stopped''"
| "outcome_str OK_unavailable = ''unavailable''"
| "outcome_str OK_awaiting_approval = ''awaiting_approval''"
| "outcome_str OK_reconciliation_required = ''reconciliation_required''"
| "outcome_str OK_dry_run_simulated = ''dry_run_simulated''"

fun state_str :: "exec_state \<Rightarrow> string" where
  "state_str S_created = ''created''"
| "state_str S_planned = ''planned''"
| "state_str S_awaiting_policy = ''awaiting_policy''"
| "state_str S_awaiting_approval = ''awaiting_approval''"
| "state_str S_authorized = ''authorized''"
| "state_str S_queued = ''queued''"
| "state_str S_running = ''running''"
| "state_str S_observing = ''observing''"
| "state_str S_succeeded = ''succeeded''"
| "state_str S_partially_completed = ''partially_completed''"
| "state_str S_failed = ''failed''"
| "state_str S_cancelled = ''cancelled''"
| "state_str S_timed_out = ''timed_out''"
| "state_str S_denied = ''denied''"
| "state_str S_budget_blocked = ''budget_blocked''"
| "state_str S_unavailable = ''unavailable''"
| "state_str S_reconciliation_required = ''reconciliation_required''"

fun placement_str :: "placement_kind \<Rightarrow> string" where
  "placement_str In_process = ''in_process''"
| "placement_str Restricted_process = ''restricted_process''"
| "placement_str Namespace_sandbox = ''namespace_sandbox''"
| "placement_str Container = ''container''"
| "placement_str Browser_isolated = ''browser_isolated''"
| "placement_str Gvisor = ''gvisor''"
| "placement_str Firecracker = ''firecracker''"

text \<open>The fields of \<open>TrustRecord\<close> that the execution plane reads back.\<close>

record trust_record =
  trust_tier :: risk_tier
  trust_classifierVersion :: string
  trust_placement :: placement_kind
  trust_environmentId :: "string option"
  trust_credentialRefs :: "string list option"
  trust_quarantined :: "bool option"

record execution_record =
  rec_id :: execution_id
  rec_state :: exec_state
  rec_action :: "exec_action option"
  rec_outcome :: "outcome_kind option"
  rec_history :: "exec_transition list"
  rec_createdAt :: int
  rec_updatedAt :: int
  rec_endedAt :: "int option"
  rec_trust :: "trust_record option"

end
