(* ===== verification/Exec_Retry.thy ===== *)
theory Exec_Retry
  imports Exec_Types
begin

text \<open>
  The failure taxonomy and the joint retry decision
  (\<open>src/src/execution/retry-classification.ts\<close>, with the abort contract of
  \<open>src/src/core/provider-abort.ts\<close>). A thrown value is a provider abort, a provider error or
  a bare error with an optional string code and a message. The message patterns are regular
  expressions with a small executable matcher; the cascade of tests is a list of rules, the
  first that applies wins. The audit texts of the verdicts are left out.
\<close>

section \<open>Message patterns\<close>

text \<open>The fragment of regular expressions the file uses, searched without regard to case.\<close>

datatype rx = Lit string | Bound | AnyStar | Opt rx | Cat "rx list" | Alt "rx list"

definition lower_char :: "char \<Rightarrow> char" where
  "lower_char c =
     (let n = (of_char c :: nat) in if 65 \<le> n \<and> n \<le> 90 then char_of (n + 32) else c)"

definition word_char :: "char \<Rightarrow> bool" where
  "word_char c =
     (let n = (of_char c :: nat) in
       (65 \<le> n \<and> n \<le> 90) \<or> (97 \<le> n \<and> n \<le> 122) \<or> (48 \<le> n \<and> n \<le> 57) \<or> n = 95)"

definition word_at :: "string \<Rightarrow> nat \<Rightarrow> bool" where
  "word_at s i = (i < length s \<and> word_char (s ! i))"

definition at_boundary :: "string \<Rightarrow> nat \<Rightarrow> bool" where
  "at_boundary s i = (word_at s i \<noteq> (i > 0 \<and> word_at s (i - 1)))"

definition newline_free :: "string \<Rightarrow> bool" where
  "newline_free s = list_all (\<lambda>c. of_char c \<noteq> (10::nat) \<and> of_char c \<noteq> (13::nat)) s"

text \<open>\<open>rx_ends r s i\<close>: the positions where a match of \<open>r\<close> from \<open>i\<close> can end.\<close>

fun rx_ends :: "rx \<Rightarrow> string \<Rightarrow> nat \<Rightarrow> nat list" where
  "rx_ends (Lit w) s i = (if take (length w) (drop i s) = w then [i + length w] else [])"
| "rx_ends Bound s i = (if at_boundary s i then [i] else [])"
| "rx_ends AnyStar s i =
     filter (\<lambda>j. newline_free (take (j - i) (drop i s))) [i ..< Suc (length s)]"
| "rx_ends (Opt r) s i = i # rx_ends r s i"
| "rx_ends (Cat []) s i = [i]"
| "rx_ends (Cat (r # rs)) s i = concat (map (rx_ends (Cat rs) s) (rx_ends r s i))"
| "rx_ends (Alt []) s i = []"
| "rx_ends (Alt (r # rs)) s i = rx_ends r s i @ rx_ends (Alt rs) s i"

definition rx_test :: "rx \<Rightarrow> string \<Rightarrow> bool" where
  "rx_test r s =
     (let t = map lower_char s in list_ex (\<lambda>i. rx_ends r t i \<noteq> []) [0 ..< Suc (length t)])"

definition lits :: "string list \<Rightarrow> rx" where
  "lits ws = Alt (map Lit ws)"

definition DB_TRANSIENT_MESSAGE :: rx where
  "DB_TRANSIENT_MESSAGE =
     Alt [Cat [Bound, lits [''database'', ''table'', ''disk''], Lit '' is locked'', Bound],
          Cat [Bound, Lit ''sqlite_busy'', Bound]]"

definition DB_CORRUPT_MESSAGE :: rx where
  "DB_CORRUPT_MESSAGE =
     Alt [Cat [Bound, Lit ''database '', Opt (Lit ''disk image ''), Lit ''is '',
               lits [''corrupt'', ''malformed'', ''encrypted''], Bound],
          Cat [Bound, Lit ''disk i/o error'', Bound],
          Cat [Bound, Lit ''database or disk is full'', Bound]]"

definition NETWORK_MESSAGE :: rx where
  "NETWORK_MESSAGE =
     Alt [Cat [Bound, lits [''econnreset'', ''econnrefused'', ''econnaborted'', ''enetunreach'',
                            ''ehostunreach'', ''eai_again'', ''etimedout'', ''epipe''], Bound],
          Cat [Lit ''connection '', lits [''reset'', ''closed'', ''refused'']],
          Cat [Lit ''network '', lits [''error'', ''unreachable'']],
          Lit ''fetch failed'']"

definition TIMEOUT_MESSAGE :: rx where
  "TIMEOUT_MESSAGE =
     Alt [Cat [Bound, lits [''etimedout'', ''esockettimedout''], Bound],
          Cat [Lit ''time'', Opt (Lit ''d''), Opt (Lit '' ''), Lit ''out''],
          Lit ''deadline exceeded'']"

definition AUTH_MESSAGE :: rx where
  "AUTH_MESSAGE =
     Cat [Bound,
          Alt [Lit ''401'', Cat [Lit ''invalid api'', Opt (lits [''-'', '' '']), Lit ''key''],
               Lit ''authentication failed'', Lit ''unauthorized'', Lit ''invalid x-api-key''],
          Bound]"

definition RATE_LIMIT_MESSAGE :: rx where
  "RATE_LIMIT_MESSAGE =
     Alt [Cat [Bound, Lit ''429'', Bound], Cat [Lit ''rate'', Opt (Lit '' ''), Lit ''limit''],
          Lit ''too many requests'']"

definition UNAVAILABLE_MESSAGE :: rx where
  "UNAVAILABLE_MESSAGE =
     Alt [Cat [Bound, Lit ''503'', Bound], Lit ''service unavailable'', Lit ''server overloaded'',
          Cat [Bound, Lit ''502'', Bound], Cat [Bound, Lit ''504'', Bound]]"

definition MODEL_MISSING_MESSAGE :: rx where
  "MODEL_MISSING_MESSAGE =
     Alt [Cat [Bound, Lit ''404'', Bound],
          Cat [Lit ''model '', lits [''not found'', ''does not exist'', ''is not available'']],
          Lit ''no such model'']"

definition SECURITY_MESSAGE :: rx where
  "SECURITY_MESSAGE =
     Alt [Lit ''path escape'', Cat [Lit ''secret '', lits [''leak'', ''detected'']],
          Lit ''policy deni'', Cat [Lit ''trust'', AnyStar, lits [''block'', ''denied'']],
          Lit ''denied by policy'']"

section \<open>Classification\<close>

datatype retry_class = Retryable | Non_retryable

datatype error_category =
    C_network | C_timeout | C_provider_transient | C_provider_rate_limit | C_provider_malformed
  | C_auth | C_model_unavailable | C_invalid_request | C_policy | C_security | C_validation
  | C_tool_transient | C_tool_permanent | C_database_transient | C_database_corrupt
  | C_cancellation | C_unknown

record classification =
  retryClass :: retry_class
  category :: error_category
  cl_code :: string
  cl_retryAfterMs :: "rat option"

datatype provider_kind =
    Authentication_failure | Rate_limit | Timeout | Unavailable | Invalid_request
  | Model_unavailable | Unsupported_capability | Provider_overload | Network_failure
  | Context_length | Content_policy_refusal | Malformed_response | Unknown_provider_failure

datatype abort_kind = Abort_cancelled | Abort_timeout

text \<open>The message of a bare error is its own, or the printed value where it has none.\<close>

datatype thrown =
    Abort_error abort_kind
  | Provider_err provider_kind "rat option"
  | Bare "string option" string

fun isCancellation :: "thrown \<Rightarrow> bool" where
  "isCancellation (Abort_error k) = (k = Abort_cancelled)"
| "isCancellation _ = False"

fun isTimeout :: "thrown \<Rightarrow> bool" where
  "isTimeout (Abort_error k) = (k = Abort_timeout)"
| "isTimeout _ = False"

fun PROVIDER_KIND_CATEGORY :: "provider_kind \<Rightarrow> error_category" where
  "PROVIDER_KIND_CATEGORY Authentication_failure = C_auth"
| "PROVIDER_KIND_CATEGORY Rate_limit = C_provider_rate_limit"
| "PROVIDER_KIND_CATEGORY Timeout = C_timeout"
| "PROVIDER_KIND_CATEGORY Unavailable = C_provider_transient"
| "PROVIDER_KIND_CATEGORY Invalid_request = C_invalid_request"
| "PROVIDER_KIND_CATEGORY Model_unavailable = C_model_unavailable"
| "PROVIDER_KIND_CATEGORY Unsupported_capability = C_model_unavailable"
| "PROVIDER_KIND_CATEGORY Provider_overload = C_provider_transient"
| "PROVIDER_KIND_CATEGORY Network_failure = C_network"
| "PROVIDER_KIND_CATEGORY Context_length = C_invalid_request"
| "PROVIDER_KIND_CATEGORY Content_policy_refusal = C_policy"
| "PROVIDER_KIND_CATEGORY Malformed_response = C_provider_malformed"
| "PROVIDER_KIND_CATEGORY Unknown_provider_failure = C_unknown"

definition RETRYABLE_PROVIDER_KINDS :: "provider_kind list" where
  "RETRYABLE_PROVIDER_KINDS = [Rate_limit, Timeout, Unavailable, Provider_overload, Network_failure]"

fun provider_code :: "provider_kind \<Rightarrow> string" where
  "provider_code Authentication_failure = ''PROVIDER_AUTHENTICATION_FAILURE''"
| "provider_code Rate_limit = ''PROVIDER_RATE_LIMIT''"
| "provider_code Timeout = ''PROVIDER_TIMEOUT''"
| "provider_code Unavailable = ''PROVIDER_UNAVAILABLE''"
| "provider_code Invalid_request = ''PROVIDER_INVALID_REQUEST''"
| "provider_code Model_unavailable = ''PROVIDER_MODEL_UNAVAILABLE''"
| "provider_code Unsupported_capability = ''PROVIDER_UNSUPPORTED_CAPABILITY''"
| "provider_code Provider_overload = ''PROVIDER_PROVIDER_OVERLOAD''"
| "provider_code Network_failure = ''PROVIDER_NETWORK_FAILURE''"
| "provider_code Context_length = ''PROVIDER_CONTEXT_LENGTH''"
| "provider_code Content_policy_refusal = ''PROVIDER_CONTENT_POLICY_REFUSAL''"
| "provider_code Malformed_response = ''PROVIDER_MALFORMED_RESPONSE''"
| "provider_code Unknown_provider_failure = ''PROVIDER_UNKNOWN_PROVIDER_FAILURE''"

definition DB_TRANSIENT_CODES :: "string list" where
  "DB_TRANSIENT_CODES =
     [''SQLITE_BUSY'', ''SQLITE_LOCKED'', ''SQLITE_BUSY_RECOVERY'', ''SQLITE_BUSY_SNAPSHOT'',
      ''SQLITE_LOCKED_SHAREDCACHE'']"

definition DB_CORRUPT_CODES :: "string list" where
  "DB_CORRUPT_CODES =
     [''SQLITE_CORRUPT'', ''SQLITE_CORRUPT_VTAB'', ''SQLITE_NOTADB'', ''SQLITE_DAMAGED'',
      ''SQLITE_IOERR'', ''SQLITE_FULL'', ''SQLITE_READONLY'']"

text \<open>A rule tests the code or the message; a message rule names a code where the error has none.\<close>

datatype rule_test = Code_in "string list" | Message rx string

record rule =
  r_test :: rule_test
  r_class :: retry_class
  r_category :: error_category

definition mk_rule :: "rule_test \<Rightarrow> retry_class \<Rightarrow> error_category \<Rightarrow> rule" where
  "mk_rule t c k = \<lparr> r_test = t, r_class = c, r_category = k \<rparr>"

fun rule_applies :: "string option \<Rightarrow> string \<Rightarrow> rule_test \<Rightarrow> bool" where
  "rule_applies code msg (Code_in cs) = (case code of None \<Rightarrow> False | Some c \<Rightarrow> c \<in> set cs)"
| "rule_applies code msg (Message r dflt) = rx_test r msg"

fun rule_code :: "string option \<Rightarrow> rule_test \<Rightarrow> string" where
  "rule_code code (Code_in cs) = nullish code []"
| "rule_code code (Message r dflt) = nullish code dflt"

definition classify_rules :: "rule list" where
  "classify_rules =
     [mk_rule (Code_in DB_TRANSIENT_CODES) Retryable C_database_transient,
      mk_rule (Code_in DB_CORRUPT_CODES) Non_retryable C_database_corrupt,
      mk_rule (Message DB_CORRUPT_MESSAGE ''DB_CORRUPT'') Non_retryable C_database_corrupt,
      mk_rule (Message DB_TRANSIENT_MESSAGE ''DB_BUSY'') Retryable C_database_transient,
      mk_rule (Code_in [''TIMEOUT'', ''EXECUTION_TIMEOUT'']) Retryable C_timeout,
      mk_rule (Code_in [''CANCELLED'', ''CANCELLATION_UNSUPPORTED'']) Non_retryable C_cancellation,
      mk_rule (Code_in [''RECONCILIATION_REQUIRED'', ''NON_IDEMPOTENT_RETRY_BLOCKED'']) Non_retryable C_tool_permanent,
      mk_rule (Code_in [''PATH_ESCAPE'', ''SECRET_LEAK'', ''TRUST_BLOCKED'']) Non_retryable C_security,
      mk_rule (Code_in [''POLICY_DENIED'']) Non_retryable C_policy,
      mk_rule (Code_in [''ACTION_VALIDATION_FAILED'', ''MALFORMED_TOOL_CALL'']) Non_retryable C_validation,
      mk_rule (Code_in [''BUDGET_EXCEEDED'']) Non_retryable C_policy,
      mk_rule (Code_in [''ECONNRESET'', ''ECONNREFUSED'', ''ECONNABORTED'', ''ENETUNREACH'', ''EHOSTUNREACH'',
                        ''EAI_AGAIN'', ''EPIPE'']) Retryable C_network,
      mk_rule (Code_in [''ETIMEDOUT'', ''ESOCKETTIMEDOUT'']) Retryable C_timeout,
      mk_rule (Message NETWORK_MESSAGE ''NETWORK'') Retryable C_network,
      mk_rule (Message TIMEOUT_MESSAGE ''TIMEOUT'') Retryable C_timeout,
      mk_rule (Message RATE_LIMIT_MESSAGE ''RATE_LIMIT'') Retryable C_provider_rate_limit,
      mk_rule (Message UNAVAILABLE_MESSAGE ''UNAVAILABLE'') Retryable C_provider_transient,
      mk_rule (Message AUTH_MESSAGE ''AUTH'') Non_retryable C_auth,
      mk_rule (Message MODEL_MISSING_MESSAGE ''MODEL_UNAVAILABLE'') Non_retryable C_model_unavailable,
      mk_rule (Message SECURITY_MESSAGE ''SECURITY'') Non_retryable C_security]"

definition mk :: "retry_class \<Rightarrow> error_category \<Rightarrow> string \<Rightarrow> classification" where
  "mk c k code = \<lparr> retryClass = c, category = k, cl_code = code, cl_retryAfterMs = None \<rparr>"

text \<open>An empty code is falsy for the set lookups, which it would fail anyway.\<close>

definition classify_bare :: "string option \<Rightarrow> string \<Rightarrow> classification" where
  "classify_bare code msg =
     (case find (\<lambda>r. rule_applies code msg (r_test r)) classify_rules of
        Some r \<Rightarrow> mk (r_class r) (r_category r) (rule_code code (r_test r))
      | None \<Rightarrow> mk Non_retryable C_unknown (nullish code ''UNKNOWN''))"

fun classifyError :: "thrown \<Rightarrow> classification" where
  "classifyError (Abort_error k) =
     (if isCancellation (Abort_error k) then mk Non_retryable C_cancellation ''CANCELLED''
      else mk Retryable C_timeout ''PROVIDER_TIMEOUT'')"
| "classifyError (Provider_err k after) =
     \<lparr> retryClass = (if k \<in> set RETRYABLE_PROVIDER_KINDS then Retryable else Non_retryable),
       category = PROVIDER_KIND_CATEGORY k, cl_code = provider_code k, cl_retryAfterMs = after \<rparr>"
| "classifyError (Bare code msg) = classify_bare code msg"

definition isRetryable :: "thrown \<Rightarrow> bool" where
  "isRetryable e = (retryClass (classifyError e) = Retryable)"

datatype db_kind = Db_transient | Db_corrupt | Db_unknown

definition classifyDbError :: "thrown \<Rightarrow> db_kind \<times> bool \<times> string" where
  "classifyDbError e =
     (let c = classifyError e in
      if category c = C_database_transient then (Db_transient, True, cl_code c)
      else if category c = C_database_corrupt then (Db_corrupt, False, cl_code c)
      else (Db_unknown, False, cl_code c))"

section \<open>Backoff and budget\<close>

definition DEFAULT_MAX_ATTEMPTS :: int where "DEFAULT_MAX_ATTEMPTS = 3"
definition ABSOLUTE_MAX_ATTEMPTS :: int where "ABSOLUTE_MAX_ATTEMPTS = 5"
definition BASE_DELAY_MS :: rat where "BASE_DELAY_MS = 250"
definition MAX_DELAY_MS :: rat where "MAX_DELAY_MS = 5000"
definition DEFAULT_DEADLINE_MS :: int where "DEFAULT_DEADLINE_MS = 120000"

record RetryBudget =
  maxAttempts :: "int option"
  baseDelayMs :: "rat option"
  maxDelayMs :: "rat option"
  deadlineMs :: "int option"
  retryAfterMs :: "rat option"

definition no_budget :: RetryBudget where
  "no_budget = \<lparr> maxAttempts = None, baseDelayMs = None, maxDelayMs = None, deadlineMs = None,
                 retryAfterMs = None \<rparr>"

definition delay_cap :: "RetryBudget \<Rightarrow> rat" where
  "delay_cap b = nullish (maxDelayMs b) MAX_DELAY_MS"

definition exp_delay :: "int \<Rightarrow> RetryBudget \<Rightarrow> rat" where
  "exp_delay att b =
     min (delay_cap b) (nullish (baseDelayMs b) BASE_DELAY_MS * 2 ^ nat (max 0 (att - 1)))"

text \<open>\<open>r\<close> is what the generator returned.\<close>

definition backoffDelayMs :: "int \<Rightarrow> RetryBudget \<Rightarrow> rat \<Rightarrow> rat" where
  "backoffDelayMs att b r =
     (let jitter = exp_delay att b * (8 / 10 + r * (4 / 10));
          floor = nullish (retryAfterMs b) 0
      in min (delay_cap b) (max floor (of_int (js_round jitter))))"

definition withinRetryBudget :: "int \<Rightarrow> int \<Rightarrow> RetryBudget \<Rightarrow> int \<Rightarrow> bool" where
  "withinRetryBudget att startedAt b now =
     (let most = min (nullish (maxAttempts b) DEFAULT_MAX_ATTEMPTS) ABSOLUTE_MAX_ATTEMPTS in
      if att \<ge> most then False
      else now - startedAt < nullish (deadlineMs b) DEFAULT_DEADLINE_MS)"

section \<open>The joint decision\<close>

datatype retry_verdict = Retry | Do_not_retry | Reconcile

record decision_input =
  di_error :: thrown
  di_idempotency :: idempotency_class
  sideEffectUnknown :: bool
  di_attempt :: int
  di_startedAt :: "int option"
  di_budget :: RetryBudget
  callerAllowsRetry :: "(thrown \<Rightarrow> int \<Rightarrow> bool) option"

record retry_decision =
  verdict :: retry_verdict
  dec_classification :: classification
  delayMs :: rat

definition unsafe_side_effect :: "decision_input \<Rightarrow> bool" where
  "unsafe_side_effect i =
     (sideEffectUnknown i \<and> di_idempotency i \<noteq> Naturally_idempotent \<and>
      di_idempotency i \<noteq> Idempotent_with_key)"

text \<open>\<open>now\<close> is the clock (read twice, once as the default start), \<open>r\<close> the generator's value.\<close>

definition decideRetry :: "decision_input \<Rightarrow> int \<Rightarrow> rat \<Rightarrow> retry_decision" where
  "decideRetry i now r =
     (let c = classifyError (di_error i);
          stop = (\<lambda>v. \<lparr> verdict = v, dec_classification = c, delayMs = 0 \<rparr>)
      in if category c = C_cancellation then stop Do_not_retry
         else if unsafe_side_effect i then stop Reconcile
         else if retryClass c = Non_retryable then stop Do_not_retry
         else if \<not> withinRetryBudget (di_attempt i) (nullish (di_startedAt i) now) (di_budget i) now
         then stop Do_not_retry
         else if (case callerAllowsRetry i of None \<Rightarrow> False
                  | Some allows \<Rightarrow> \<not> allows (di_error i) (di_attempt i))
         then stop Do_not_retry
         else \<lparr> verdict = Retry, dec_classification = c,
                delayMs = backoffDelayMs (di_attempt i)
                  ((di_budget i)\<lparr>retryAfterMs := cl_retryAfterMs c\<rparr>) r \<rparr>)"

section \<open>Properties\<close>

definition transient_categories :: "error_category set" where
  "transient_categories =
     {C_network, C_timeout, C_provider_transient, C_provider_rate_limit, C_database_transient}"

lemma rules_transient:
  "r \<in> set classify_rules \<Longrightarrow> r_class r = Retryable \<longleftrightarrow> r_category r \<in> transient_categories"
  by (auto simp: classify_rules_def mk_rule_def transient_categories_def)

text \<open>An error is retryable exactly when its category is one of the five transient ones: authentication, policy, security, validation, cancellation, corruption and unknown failures are never retryable, and no transient category is refused a retry.\<close>

theorem retryable_iff_transient_category:
  "retryClass (classifyError e) = Retryable \<longleftrightarrow> category (classifyError e) \<in> transient_categories"
proof (cases e)
  case (Abort_error k)
  then show ?thesis by (simp add: mk_def transient_categories_def)
next
  case (Provider_err k after)
  then show ?thesis by (cases k) (simp_all add: RETRYABLE_PROVIDER_KINDS_def transient_categories_def)
next
  case (Bare code msg)
  show ?thesis
  proof (cases "find (\<lambda>r. rule_applies code msg (r_test r)) classify_rules")
    case None
    then show ?thesis using Bare by (simp add: classify_bare_def mk_def transient_categories_def)
  next
    case (Some r)
    then show ?thesis
      using Bare rules_transient[of r] find_SomeD[OF Some] by (simp add: classify_bare_def mk_def)
  qed
qed

text \<open>C25: A retry is decided only for a retryable error of an operation that is safe to repeat, below five attempts and before the deadline, with the caller's consent, and after a delay that is at most the cap and at least the wait that the error asks for (zero when it asks for none) or the cap, whichever is smaller; so between zero and the cap unless one of the two is negative.\<close>

theorem retry_only_when_safe:
  assumes "verdict (decideRetry i now r) = Retry"
  shows "retryClass (classifyError (di_error i)) = Retryable \<and>
    category (classifyError (di_error i)) \<noteq> C_cancellation \<and>
    (\<not> sideEffectUnknown i \<or> di_idempotency i \<in> {Naturally_idempotent, Idempotent_with_key}) \<and>
    di_attempt i < ABSOLUTE_MAX_ATTEMPTS \<and>
    now - nullish (di_startedAt i) now < nullish (deadlineMs (di_budget i)) DEFAULT_DEADLINE_MS \<and>
    (\<forall>allows. callerAllowsRetry i = Some allows \<longrightarrow> allows (di_error i) (di_attempt i)) \<and>
    delayMs (decideRetry i now r) \<le> delay_cap (di_budget i) \<and>
    min (delay_cap (di_budget i)) (nullish (cl_retryAfterMs (classifyError (di_error i))) 0)
      \<le> delayMs (decideRetry i now r)"
proof -
  have g: "category (classifyError (di_error i)) \<noteq> C_cancellation" "\<not> unsafe_side_effect i"
    "retryClass (classifyError (di_error i)) \<noteq> Non_retryable"
    "withinRetryBudget (di_attempt i) (nullish (di_startedAt i) now) (di_budget i) now"
    "\<not> (case callerAllowsRetry i of None \<Rightarrow> False | Some allows \<Rightarrow> \<not> allows (di_error i) (di_attempt i))"
    using assms by (auto simp: decideRetry_def Let_def split: if_splits)
  then have d: "delayMs (decideRetry i now r) = backoffDelayMs (di_attempt i)
      ((di_budget i)\<lparr>retryAfterMs := cl_retryAfterMs (classifyError (di_error i))\<rparr>) r"
    by (simp add: decideRetry_def Let_def)
  have "delayMs (decideRetry i now r) \<le> delay_cap (di_budget i) \<and>
    min (delay_cap (di_budget i)) (nullish (cl_retryAfterMs (classifyError (di_error i))) 0)
      \<le> delayMs (decideRetry i now r)"
    unfolding d by (auto simp: backoffDelayMs_def Let_def delay_cap_def min_le_iff_disj le_max_iff_disj)
  moreover have "retryClass (classifyError (di_error i)) = Retryable"
    using g(3) by (cases "retryClass (classifyError (di_error i))") auto
  moreover have "di_attempt i < ABSOLUTE_MAX_ATTEMPTS \<and>
      now - nullish (di_startedAt i) now < nullish (deadlineMs (di_budget i)) DEFAULT_DEADLINE_MS"
    using g(4) by (auto simp: withinRetryBudget_def Let_def split: if_splits)
  moreover have "\<not> sideEffectUnknown i \<or> di_idempotency i \<in> {Naturally_idempotent, Idempotent_with_key}"
    using g(2) by (auto simp: unsafe_side_effect_def)
  ultimately show ?thesis using g(1,5) by auto
qed

definition demo_input :: "thrown \<Rightarrow> bool \<Rightarrow> decision_input" where
  "demo_input e unknown =
     \<lparr> di_error = e, di_idempotency = Non_idempotent, sideEffectUnknown = unknown, di_attempt = 1,
       di_startedAt = Some 1000, di_budget = no_budget, callerAllowsRetry = None \<rparr>"

theorem retry_only_when_safe_witness:
  "retryClass (classifyError (Bare (Some ''SQLITE_BUSY'') ''x'')) = Retryable \<and>
   delayMs (decideRetry (demo_input (Bare (Some ''SQLITE_BUSY'') ''x'') False) 2000 0) \<le> 5000 \<and>
   0 \<le> delayMs (decideRetry (demo_input (Bare (Some ''SQLITE_BUSY'') ''x'') False) 2000 0)"
proof -
  let ?i = "demo_input (Bare (Some ''SQLITE_BUSY'') ''x'') False"
  have v: "verdict (decideRetry ?i 2000 0) = Retry" by code_simp
  have "di_error ?i = Bare (Some ''SQLITE_BUSY'') ''x''" "delay_cap (di_budget ?i) = 5000"
    by (simp_all add: demo_input_def delay_cap_def no_budget_def MAX_DELAY_MS_def)
  moreover have "cl_retryAfterMs (classifyError (Bare (Some ''SQLITE_BUSY'') ''x'')) = None" by code_simp
  ultimately show ?thesis using retry_only_when_safe[OF v] by simp
qed

text \<open>When a side effect may have happened and the operation cannot be repeated safely, the verdict is reconciliation whatever the error, the budget and the caller say, unless the error is a cancellation, which ends the operation.\<close>

theorem unknown_side_effect_reconciles:
  assumes "sideEffectUnknown i" and "di_idempotency i \<notin> {Naturally_idempotent, Idempotent_with_key}"
  shows "verdict (decideRetry i now r) =
    (if category (classifyError (di_error i)) = C_cancellation then Do_not_retry else Reconcile)"
  using assms by (simp add: decideRetry_def Let_def unsafe_side_effect_def)

theorem unknown_side_effect_reconciles_witness:
  "verdict (decideRetry (demo_input (Provider_err Timeout None) True) 2000 0) = Reconcile"
proof -
  let ?i = "demo_input (Provider_err Timeout None) True"
  have "sideEffectUnknown ?i" "di_idempotency ?i \<notin> {Naturally_idempotent, Idempotent_with_key}"
    "category (classifyError (di_error ?i)) \<noteq> C_cancellation"
    by (simp_all add: demo_input_def)
  from unknown_side_effect_reconciles[OF this(1,2)] this(3) show ?thesis by simp
qed

text \<open>The delay is bounded: without a provider hint it lies within a fifth (rounded) of the exponential delay and never above the cap, and a hint raises it as far as the cap allows.\<close>

theorem backoff_bounds:
  assumes "0 \<le> r" and "r \<le> 1" and "0 \<le> exp_delay att b"
  shows "backoffDelayMs att b r \<le> delay_cap b \<and>
    min (delay_cap b) (nullish (retryAfterMs b) 0) \<le> backoffDelayMs att b r \<and>
    (retryAfterMs b = None \<longrightarrow>
      min (delay_cap b) (of_int (js_round (8 / 10 * exp_delay att b))) \<le> backoffDelayMs att b r \<and>
      backoffDelayMs att b r \<le> max 0 (of_int (js_round (12 / 10 * exp_delay att b))))"
proof -
  let ?e = "exp_delay att b" and ?j = "exp_delay att b * (8 / 10 + r * (4 / 10))"
  have lo: "8 / 10 * ?e \<le> ?j"
    using mult_nonneg_nonneg[OF assms(3,1)] by (simp add: algebra_simps)
  have hi: "?j \<le> 12 / 10 * ?e"
    using mult_left_mono[OF assms(2,3)] by (simp add: algebra_simps)
  have r1: "of_int (js_round (8 / 10 * ?e)) \<le> (of_int (js_round ?j) :: rat)"
    and r2: "of_int (js_round ?j) \<le> (of_int (js_round (12 / 10 * ?e)) :: rat)"
    using js_round_mono[OF lo] js_round_mono[OF hi] by simp_all
  show ?thesis using r1 r2 unfolding backoffDelayMs_def Let_def
    by (auto simp: min_le_iff_disj le_max_iff_disj)
qed

theorem backoff_bounds_witness:
  "backoffDelayMs 3 no_budget (1 / 2) \<le> 5000 \<and> 800 \<le> backoffDelayMs 3 no_budget (1 / 2)"
proof -
  have e: "exp_delay 3 no_budget = 1000" "delay_cap no_budget = 5000" "retryAfterMs no_budget = None"
    "js_round (8 / 10 * exp_delay 3 no_budget) = 800"
    by code_simp+
  have "(0::rat) \<le> 1 / 2" "(1 / 2 :: rat) \<le> 1" "0 \<le> exp_delay 3 no_budget" using e by simp_all
  from backoff_bounds[OF this] e show ?thesis by simp
qed

subsection \<open>Where the code departs from its comments\<close>

text \<open>
  The file classifies codes before messages, but two message tests stand between the code
  tests: a cancellation or a policy denial whose text mentions a locked table is retried.
\<close>

lemma code_loses_to_database_message:
  "classifyError (Bare (Some ''POLICY_DENIED'') ''Policy: table is locked for agents'') =
     mk Retryable C_database_transient ''POLICY_DENIED''"
  "verdict (decideRetry (demo_input (Bare (Some ''CANCELLED'') ''user cancelled: database is locked'') False) 2000 0) = Retry"
  by code_simp+

text \<open>A provider's Retry-After is cut at the backoff cap, and a caller's is dropped by the decision.\<close>

lemma retry_after_is_cut:
  "backoffDelayMs 1 (no_budget\<lparr>retryAfterMs := Some 60000\<rparr>) 0 = 5000"
  by code_simp

lemma caller_retry_after_is_dropped:
  "delayMs (decideRetry ((demo_input (Bare (Some ''SQLITE_BUSY'') ''x'') False)
     \<lparr>di_budget := no_budget\<lparr>retryAfterMs := Some 3000\<rparr>\<rparr>) 2000 0) = 200"
  by code_simp

end
