(* ===== verification/Approval_Gate.thy ===== *)
theory Approval_Gate
  imports Exec_Retry "HOL-Library.Sublist"
begin

text \<open>
  The typed confirmation of headless surfaces (\<open>src/src/control/typed-confirm.ts\<close>): a Tier-2
  action that no human watches needs a phrase that the operator stored for this tool on this
  surface. The table of phrases is \<open>None\<close> while it does not exist. The hash function is a
  parameter; \<open>trim\<close> and \<open>toLowerCase\<close> are written out for ASCII texts.
\<close>

section \<open>Surfaces and risks\<close>

definition HEADLESS_SURFACES :: "string list" where
  "HEADLESS_SURFACES =
     [''daemon'', ''schedule'', ''scheduler'', ''cron'', ''webhook'', ''api'', ''headless'']"

definition TIER2_TOOLS :: "string list" where
  "TIER2_TOOLS = [''shell'', ''delete'', ''exec'']"

definition js_space :: "char \<Rightarrow> bool" where
  "js_space c = (let n = (of_char c :: nat) in (9 \<le> n \<and> n \<le> 13) \<or> n = 32)"

definition js_trim :: "string \<Rightarrow> string" where
  "js_trim s = rev (dropWhile js_space (rev (dropWhile js_space s)))"

definition js_includes :: "string \<Rightarrow> string \<Rightarrow> bool" where
  "js_includes w s = list_ex (\<lambda>i. take (length w) (drop i s) = w) [0 ..< Suc (length s)]"

definition isHeadlessSurface :: "string option \<Rightarrow> bool" where
  "isHeadlessSurface surface =
     (truthy_str surface \<and> map lower_char (js_trim (the surface)) \<in> set HEADLESS_SURFACES)"

definition isTier2Risk :: "string \<Rightarrow> string option \<Rightarrow> bool" where
  "isTier2Risk tool riskTier =
     (let t = map lower_char (nullish riskTier []); name = map lower_char tool in
      t = ''tier2'' \<or> t = ''high'' \<or> t = ''destructive'' \<or> t = ''blocked'' \<or>
      name \<in> set TIER2_TOOLS \<or>
      name = ''shell'' \<or> suffix ''.shell'' name \<or> js_includes '':shell'' name)"

section \<open>The stored phrases\<close>

record TypedConfirmRow =
  tc_capability :: string
  tc_surface :: string
  tc_hash :: string
  tc_created :: int
  tc_by :: "string option"

type_synonym typed_table = "TypedConfirmRow list option"

definition phraseHash :: "(string \<Rightarrow> string) \<Rightarrow> string \<Rightarrow> string" where
  "phraseHash sha phrase = sha (map lower_char (js_trim phrase))"

definition tc_key :: "string \<Rightarrow> string \<Rightarrow> TypedConfirmRow \<Rightarrow> bool" where
  "tc_key capability surface r \<longleftrightarrow> tc_capability r = capability \<and> tc_surface r = surface"

text \<open>A read that fails is a phrase that is not there.\<close>

definition getTypedConfirm :: "typed_table \<Rightarrow> string \<Rightarrow> string \<Rightarrow> bool \<Rightarrow> TypedConfirmRow option" where
  "getTypedConfirm tbl capability surface fails =
     (if fails then None
      else case tbl of None \<Rightarrow> None | Some rows \<Rightarrow> find (tc_key capability surface) rows)"

definition setTypedConfirm ::
  "(string \<Rightarrow> string) \<Rightarrow> string \<Rightarrow> string \<Rightarrow> string \<Rightarrow> string option \<Rightarrow> int \<Rightarrow> typed_table \<Rightarrow> typed_table" where
  "setTypedConfirm sha capability surface phrase createdBy now tbl =
     (let rows = nullish tbl [];
          row = \<lparr> tc_capability = capability, tc_surface = surface, tc_hash = phraseHash sha phrase,
                  tc_created = now, tc_by = Some (nullish createdBy ''operator'') \<rparr>
      in Some (if list_ex (tc_key capability surface) rows
               then map (\<lambda>r. if tc_key capability surface r then row else r) rows
               else rows @ [row]))"

definition clearTypedConfirm :: "string \<Rightarrow> string \<Rightarrow> bool \<Rightarrow> typed_table \<Rightarrow> typed_table" where
  "clearTypedConfirm capability surface fails tbl =
     (if fails then tbl else map_option (filter (\<lambda>r. \<not> tc_key capability surface r)) tbl)"

section \<open>The gate\<close>

datatype gate_refusal = No_stored_phrase string string | Phrase_mismatch string

datatype TypedConfirmGate = Gate_open bool | Gate_closed gate_refusal

definition gateHeadlessTier2 ::
  "(string \<Rightarrow> string) \<Rightarrow> typed_table \<Rightarrow> bool \<Rightarrow> string \<Rightarrow> string \<Rightarrow> string option \<Rightarrow> string option \<Rightarrow>
     TypedConfirmGate" where
  "gateHeadlessTier2 sha tbl fails surface tool riskTier phrase =
     (if \<not> isHeadlessSurface (Some surface) \<or> \<not> isTier2Risk tool riskTier then Gate_open False
      else case getTypedConfirm tbl tool surface fails of
        None \<Rightarrow> Gate_closed (No_stored_phrase tool surface)
      | Some row \<Rightarrow>
          (if truthy_str phrase \<and> js_trim (the phrase) \<noteq> []
           then if phraseHash sha (the phrase) \<noteq> tc_hash row then Gate_closed (Phrase_mismatch tool)
                else Gate_open False
           else Gate_open True))"

lemma set_then_get:
  "getTypedConfirm (setTypedConfirm sha c s p by now tbl) c s False =
     Some \<lparr> tc_capability = c, tc_surface = s, tc_hash = phraseHash sha p, tc_created = now,
            tc_by = Some (nullish by ''operator'') \<rparr>"
proof -
  let ?row = "\<lparr> tc_capability = c, tc_surface = s, tc_hash = phraseHash sha p, tc_created = now,
                tc_by = Some (nullish by ''operator'') \<rparr>"
  have key: "tc_key c s ?row" by (simp add: tc_key_def)
  have hit: "list_ex (tc_key c s) rows \<Longrightarrow>
      find (tc_key c s) (map (\<lambda>r. if tc_key c s r then ?row else r) rows) = Some ?row" for rows
    using key by (induction rows) auto
  have miss: "\<not> list_ex (tc_key c s) rows \<Longrightarrow> find (tc_key c s) (rows @ [?row]) = Some ?row" for rows
    using key by (induction rows) auto
  show ?thesis using hit miss by (simp add: getTypedConfirm_def setTypedConfirm_def Let_def)
qed

lemma cleared_is_gone:
  "getTypedConfirm (clearTypedConfirm c s False tbl) c s fails = None"
proof -
  have "find (tc_key c s) (filter (\<lambda>r. \<not> tc_key c s r) rows) = None" for rows
    by (auto simp: find_None_iff)
  then show ?thesis by (simp add: getTypedConfirm_def clearTypedConfirm_def split: option.splits)
qed

text \<open>What an open gate says about an action that no human watches.\<close>

lemma open_gate:
  assumes "gateHeadlessTier2 sha tbl fails surface tool risk phrase = Gate_open b"
    and "isHeadlessSurface (Some surface)" and "isTier2Risk tool risk"
  obtains rows r where "tbl = Some rows" "r \<in> set rows" "tc_capability r = tool" "tc_surface r = surface"
    "\<forall>p. phrase = Some p \<longrightarrow> js_trim p \<noteq> [] \<longrightarrow> phraseHash sha p = tc_hash r"
proof -
  obtain r where r: "getTypedConfirm tbl tool surface fails = Some r"
    using assms by (auto simp: gateHeadlessTier2_def split: option.splits)
  then obtain rows where rows: "tbl = Some rows" "find (tc_key tool surface) rows = Some r"
    by (auto simp: getTypedConfirm_def split: if_splits option.splits)
  then have "r \<in> set rows" "tc_key tool surface r"
    by (auto simp: find_Some_iff dest: nth_mem)
  moreover have "\<forall>p. phrase = Some p \<longrightarrow> js_trim p \<noteq> [] \<longrightarrow> phraseHash sha p = tc_hash r"
    using assms r by (auto simp: gateHeadlessTier2_def js_trim_def truthy_str_def split: if_splits)
  ultimately show ?thesis using that rows by (auto simp: tc_key_def)
qed

text \<open>
  The phrase is looked up under the surface as it was given, while the surface is recognised
  after \<open>trim\<close> and \<open>toLowerCase\<close>: another spelling is refused, never let through.
\<close>

lemma other_spelling_is_refused:
  "gateHeadlessTier2 sha (setTypedConfirm sha ''shell'' ''cron'' p None 0 None) False '' Cron'' ''shell'' None None =
     Gate_closed (No_stored_phrase ''shell'' '' Cron'')"
  by code_simp

end
