(* ===== verification/Approval_Rows.thy ===== *)
theory Approval_Rows
  imports Approval_Gate Exec_Types "HOL-Library.List_Lexorder" "HOL-Library.Char_ord"
begin

text \<open>
  The table of approvals (\<open>approvalInsert\<close> to \<open>approvalPurge\<close> of
  \<open>src/src/state/workspace-store.ts\<close>) and the record that the approval store makes of a row
  (\<open>src/src/control/approval-store.ts\<close>). The table is the list of its rows in the order of
  insertion, in which rows of one time stamp are listed too. The preview column holds the
  JSON value that was written, which is what parsing gives back.
\<close>

section \<open>Rows\<close>

datatype ApprovalDecisionValue = Approved | Denied | Timed_out

record ApprovalRow =
  ap_id :: string
  ap_task :: "string option"
  ap_run :: "string option"
  ap_session :: "string option"
  ap_tool :: string
  ap_argsHash :: string
  ap_reason :: string
  ap_preview :: json
  ap_riskTier :: string
  ap_surface :: string
  ap_requestedAt :: int
  ap_ttlMs :: int
  ap_decision :: "ApprovalDecisionValue option"
  ap_channel :: "string option"
  ap_user :: "string option"
  ap_decidedAt :: "int option"
  ap_latency :: "int option"

type_synonym approvals = "ApprovalRow list"

definition pending_row :: "ApprovalRow \<Rightarrow> bool" where
  "pending_row r \<longleftrightarrow> ap_decision r = None"

definition overdue :: "int \<Rightarrow> ApprovalRow \<Rightarrow> bool" where
  "overdue now r \<longleftrightarrow> pending_row r \<and> ap_requestedAt r + ap_ttlMs r \<le> now"

text \<open>The identifier is the primary key: inserting a second row with it throws.\<close>

definition approvalInsert :: "ApprovalRow \<Rightarrow> approvals \<Rightarrow> approvals option" where
  "approvalInsert row rows =
     (if list_ex (\<lambda>r. ap_id r = ap_id row) rows then None else Some (rows @ [row]))"

definition approvalGet :: "string \<Rightarrow> approvals \<Rightarrow> ApprovalRow option" where
  "approvalGet k rows = find (\<lambda>r. ap_id r = k) rows"

definition approvalListPending :: "approvals \<Rightarrow> approvals" where
  "approvalListPending rows = sort_key ap_requestedAt (filter pending_row rows)"

definition approvalListBySession :: "string \<Rightarrow> approvals \<Rightarrow> approvals" where
  "approvalListBySession session rows =
     sort_key (\<lambda>r. - ap_requestedAt r) (filter (\<lambda>r. ap_session r = Some session) rows)"

definition decided_row ::
  "ApprovalDecisionValue \<Rightarrow> string \<Rightarrow> string option \<Rightarrow> int \<Rightarrow> ApprovalRow \<Rightarrow> ApprovalRow" where
  "decided_row d channel user now r =
     r\<lparr>ap_decision := Some d, ap_channel := Some channel, ap_user := user,
        ap_decidedAt := Some now, ap_latency := Some (now - ap_requestedAt r)\<rparr>"

text \<open>\<open>None\<close> when no row of that identifier is pending.\<close>

definition approvalDecide ::
  "string \<Rightarrow> ApprovalDecisionValue \<Rightarrow> string \<Rightarrow> string option \<Rightarrow> int \<Rightarrow> approvals \<Rightarrow> approvals option" where
  "approvalDecide k d channel user now rows =
     (if list_ex (\<lambda>r. ap_id r = k \<and> pending_row r) rows
      then Some (map (\<lambda>r. if ap_id r = k \<and> pending_row r then decided_row d channel user now r else r) rows)
      else None)"

text \<open>The expiry leaves the column of the user as it is, which is \<open>NULL\<close> in a pending row.\<close>

definition expired_row :: "int \<Rightarrow> ApprovalRow \<Rightarrow> ApprovalRow" where
  "expired_row now r = decided_row Timed_out ''ttl'' (ap_user r) now r"

definition approvalExpirePending :: "int \<Rightarrow> approvals \<Rightarrow> nat \<times> approvals" where
  "approvalExpirePending now rows =
     (length (filter (overdue now) rows), map (\<lambda>r. if overdue now r then expired_row now r else r) rows)"

definition approvalPurge :: "string \<Rightarrow> approvals \<Rightarrow> nat \<times> approvals" where
  "approvalPurge session rows =
     (length (filter (\<lambda>r. ap_session r = Some session) rows),
      filter (\<lambda>r. ap_session r \<noteq> Some session) rows)"

section \<open>Arguments and records\<close>

text \<open>
  \<open>argsHashOf\<close> passes the sorted top-level keys as the second argument of \<open>JSON.stringify\<close>,
  which keeps only those keys in every object at every depth. \<open>sha\<close> is the digest in hex.
\<close>

datatype approval_args = No_args | Args json | Unserializable_args

fun keep_keys :: "string list \<Rightarrow> json \<Rightarrow> json" where
  "keep_keys ks (JObj fs) =
     (let gs = map (\<lambda>(k, v). (k, keep_keys ks v)) fs
      in JObj (concat (map (\<lambda>k. case map_of gs k of None \<Rightarrow> [] | Some v \<Rightarrow> [(k, v)]) ks)))"
| "keep_keys ks (JArr xs) = JArr (map (keep_keys ks) xs)"
| "keep_keys ks v = v"

fun object_keys :: "json \<Rightarrow> string list" where
  "object_keys (JObj fs) = map fst fs"
| "object_keys _ = []"

definition argsHashOf :: "(string \<Rightarrow> string) \<Rightarrow> approval_args \<Rightarrow> string" where
  "argsHashOf sha args =
     (case args of
        No_args \<Rightarrow> ''sha256:none''
      | Args v \<Rightarrow> ''sha256:'' @ take 16 (sha (json_stringify (keep_keys (sort (object_keys v)) v)))
      | Unserializable_args \<Rightarrow> ''sha256:unserializable'')"

text \<open>Two calls that differ below the top level have one hash.\<close>

lemma args_hash_ignores_nested_values:
  "argsHashOf sha (Args (JObj [(''file'', JObj [(''path'', JStr ''notes'')])])) =
   argsHashOf sha (Args (JObj [(''file'', JObj [(''path'', JStr ''secrets'')])]))"
  by (simp add: argsHashOf_def)

record ApprovalRecord =
  rec_id :: string
  rec_task :: "string option"
  rec_run :: "string option"
  rec_session :: "string option"
  rec_tool :: string
  rec_argsHash :: string
  rec_reason :: string
  rec_preview :: json
  rec_riskTier :: string
  rec_surface :: string
  rec_requestedAt :: int
  rec_ttlMs :: int
  rec_decision :: "ApprovalDecisionValue option"
  rec_decidedBy :: "(string \<times> string option) option"
  rec_decidedAt :: "int option"
  rec_latency :: "int option"

definition rowToRecord :: "ApprovalRow \<Rightarrow> ApprovalRecord" where
  "rowToRecord r =
     \<lparr> rec_id = ap_id r, rec_task = ap_task r, rec_run = ap_run r, rec_session = ap_session r,
       rec_tool = ap_tool r, rec_argsHash = ap_argsHash r, rec_reason = ap_reason r,
       rec_preview = ap_preview r, rec_riskTier = ap_riskTier r, rec_surface = ap_surface r,
       rec_requestedAt = ap_requestedAt r, rec_ttlMs = ap_ttlMs r, rec_decision = ap_decision r,
       rec_decidedBy = (case (ap_decision r, ap_channel r) of
                          (Some _, Some c) \<Rightarrow> Some (c, ap_user r) | _ \<Rightarrow> None),
       rec_decidedAt = ap_decidedAt r, rec_latency = ap_latency r \<rparr>"

record ApprovalOutcome =
  ao_approved :: bool
  ao_timedOut :: bool
  ao_decision :: "ApprovalDecisionValue option"
  ao_by :: "(string \<times> string option) option"
  ao_latency :: "int option"

definition outcomeOf :: "ApprovalRow \<Rightarrow> ApprovalOutcome" where
  "outcomeOf r =
     \<lparr> ao_approved = (ap_decision r = Some Approved), ao_timedOut = (ap_decision r = Some Timed_out),
       ao_decision = ap_decision r, ao_by = map_option (\<lambda>c. (c, ap_user r)) (ap_channel r),
       ao_latency = ap_latency r \<rparr>"

section \<open>What the statements keep\<close>

lemma decided_row_simps [simp]:
  "ap_id (decided_row d c u now r) = ap_id r" "ap_session (decided_row d c u now r) = ap_session r"
  "ap_decision (decided_row d c u now r) = Some d"
  by (simp_all add: decided_row_def)

lemma expired_row_simps [simp]:
  "ap_id (expired_row now r) = ap_id r" "ap_session (expired_row now r) = ap_session r"
  "ap_decision (expired_row now r) = Some Timed_out"
  by (simp_all add: expired_row_def)

lemma find_map_keyed:
  assumes "\<And>r. ap_id (f r) = ap_id r"
  shows "approvalGet k (map f rows) = map_option f (approvalGet k rows)"
  using assms by (induction rows) (auto simp: approvalGet_def)

lemma get_append: "approvalGet k (rows @ [r]) =
    (case approvalGet k rows of None \<Rightarrow> if ap_id r = k then Some r else None | Some x \<Rightarrow> Some x)"
  by (induction rows) (auto simp: approvalGet_def)

lemma get_filter:
  "approvalGet k rows = Some r \<Longrightarrow> P r \<Longrightarrow> (\<And>x. x \<in> set rows \<Longrightarrow> ap_id x = k \<Longrightarrow> x = r) \<Longrightarrow>
     approvalGet k (filter P rows) = Some r"
  by (induction rows) (auto simp: approvalGet_def split: if_splits)

lemma get_mem: "approvalGet k rows = Some r \<Longrightarrow> r \<in> set rows \<and> ap_id r = k"
  by (auto simp: approvalGet_def find_Some_iff dest: nth_mem)

lemma mem_get:
  "distinct (map ap_id rows) \<Longrightarrow> r \<in> set rows \<Longrightarrow> approvalGet (ap_id r) rows = Some r"
  by (induction rows) (auto simp: approvalGet_def rev_image_eqI)

lemma get_insert:
  assumes "approvalInsert row rows = Some rows'"
  shows "approvalGet k rows' = (if k = ap_id row then Some row else approvalGet k rows)"
proof -
  have none: "approvalGet (ap_id row) rows = None"
    using assms by (auto simp: approvalInsert_def approvalGet_def find_None_iff list_ex_iff split: if_splits)
  show ?thesis
    using assms none by (auto simp: approvalInsert_def get_append split: if_splits option.splits)
qed

lemma get_decide:
  assumes "approvalDecide k d c u now rows = Some rows'"
  shows "approvalGet j rows' =
    map_option (\<lambda>r. if ap_id r = k \<and> pending_row r then decided_row d c u now r else r) (approvalGet j rows)"
  using assms by (auto simp: approvalDecide_def find_map_keyed split: if_splits)

lemma get_expire:
  "approvalGet j (snd (approvalExpirePending now rows)) =
     map_option (\<lambda>r. if overdue now r then expired_row now r else r) (approvalGet j rows)"
  by (simp add: approvalExpirePending_def find_map_keyed)

lemmas row_statement_defs = approvalInsert_def approvalDecide_def approvalExpirePending_def approvalPurge_def

lemma insert_ids:
  "approvalInsert row rows = Some rows' \<Longrightarrow> distinct (map ap_id rows) \<Longrightarrow> distinct (map ap_id rows')"
  by (force simp: approvalInsert_def list_ex_iff split: if_splits)

lemma decide_ids:
  "approvalDecide k d c u now rows = Some rows' \<Longrightarrow> map ap_id rows' = map ap_id rows"
  unfolding approvalDecide_def by (auto simp: if_distrib cong: if_cong split: if_splits)

lemma expire_ids: "map ap_id (snd (approvalExpirePending now rows)) = map ap_id rows"
  unfolding approvalExpirePending_def by auto

lemma purge_ids:
  "distinct (map ap_id rows) \<Longrightarrow> distinct (map ap_id (snd (approvalPurge s rows)))"
  by (simp add: approvalPurge_def distinct_map_filter)

text \<open>Nothing pending is left past its deadline.\<close>

lemma expire_leaves_nothing_overdue:
  "r \<in> set (snd (approvalExpirePending now rows)) \<Longrightarrow> \<not> overdue now r"
  by (auto simp: approvalExpirePending_def overdue_def pending_row_def split: if_splits)

end
