(* ===== verification/Approval_Store.thy ===== *)
theory Approval_Store
  imports Approval_Rows "HOL-Library.AList"
begin

text \<open>
  The durable approval store (\<open>src/src/control/approval-store.ts\<close>). One database file is shared
  by the workspace stores of several processes; an approval store belongs to a workspace
  store and keeps, per approval, the function that settles its promise, a timer and a poller.
  The promises that \<open>request\<close> and \<open>waitFor\<close> return are objects: they live in a list and are
  named by their positions, with the timer and the poller that belong to them. A step is a
  call, a timer that fires or a poller that ticks, in any order and at any time. A call reads
  the clock once; \<open>db_faults\<close> says which statements throw during it, and on a closed workspace
  store all of them do. The \<open>catch\<close> around a timer's body is never reached, since \<open>expire\<close> and
  \<open>safeGet\<close> catch their own errors. Surfaces are not names that every object inherits.
\<close>

section \<open>State\<close>

definition DEFAULT_APPROVAL_TTL_MS :: int where
  "DEFAULT_APPROVAL_TTL_MS = 300000"

record ApprovalStoreConfig =
  cfg_default :: "int option"
  cfg_surface :: "(string \<times> int) list option"

record approval_store =
  as_backing :: nat
  as_default :: int
  as_surface :: "(string \<times> int) list"
  as_waiters :: "(string \<times> nat) list"
  as_timers :: "(string \<times> nat) list"
  as_pollers :: "(string \<times> nat) list"

text \<open>\<open>aw_ttl\<close> is the captured \<open>ttlMs\<close> of a request, and \<open>None\<close> for \<open>waitFor\<close>.\<close>

record approval_wait =
  aw_store :: nat
  aw_id :: string
  aw_ttl :: "int option"
  aw_timer :: bool
  aw_poller :: bool
  aw_outcome :: "ApprovalOutcome option"

datatype approval_audit =
    Approval_requested string string string string int
  | Approval_decided string ApprovalDecisionValue string "string option"
  | Approval_timed_out string int
  | Approval_typed_confirm string string "string option" TypedConfirmGate

text \<open>An approver call is refused by the gate, threw, waits for its prompt or for its outcome.\<close>

datatype call_state = Call_refused | Call_threw | Call_prompting nat | Call_waits nat

record approver_call =
  ac_store :: nat
  ac_surface :: string
  ac_state :: call_state

record approval_world =
  aworld_rows :: approvals
  aworld_typed :: typed_table
  aworld_audit :: "approval_audit list"
  aworld_closed :: "bool list"
  aworld_instances :: "(nat \<times> nat) list"
  aworld_stores :: "approval_store list"
  aworld_waits :: "approval_wait list"
  aworld_calls :: "approver_call list"

definition no_approvals :: approval_world where
  "no_approvals =
     \<lparr> aworld_rows = [], aworld_typed = None, aworld_audit = [], aworld_closed = [],
       aworld_instances = [], aworld_stores = [], aworld_waits = [], aworld_calls = [] \<rparr>"

record db_faults =
  f_read :: bool
  f_write :: bool
  f_audit :: bool

definition no_faults :: db_faults where
  "no_faults = \<lparr> f_read = False, f_write = False, f_audit = False \<rparr>"

definition upd_store :: "nat \<Rightarrow> (approval_store \<Rightarrow> approval_store) \<Rightarrow> approval_world \<Rightarrow> approval_world" where
  "upd_store s f W = W\<lparr>aworld_stores := (aworld_stores W)[s := f (aworld_stores W ! s)]\<rparr>"

definition upd_wait :: "nat \<Rightarrow> (approval_wait \<Rightarrow> approval_wait) \<Rightarrow> approval_world \<Rightarrow> approval_world" where
  "upd_wait w f W = W\<lparr>aworld_waits := (aworld_waits W)[w := f (aworld_waits W ! w)]\<rparr>"

definition storeAlive :: "nat \<Rightarrow> approval_world \<Rightarrow> bool" where
  "storeAlive s W = (\<not> aworld_closed W ! as_backing (aworld_stores W ! s))"

definition audit :: "approval_audit \<Rightarrow> db_faults \<Rightarrow> approval_world \<Rightarrow> approval_world" where
  "audit e fl W = (if f_audit fl then W else W\<lparr>aworld_audit := aworld_audit W @ [e]\<rparr>)"

section \<open>Instances\<close>

definition new_approval_store :: "nat \<Rightarrow> ApprovalStoreConfig option \<Rightarrow> approval_store" where
  "new_approval_store ws config =
     \<lparr> as_backing = ws,
       as_default = nullish (Option.bind config cfg_default) DEFAULT_APPROVAL_TTL_MS,
       as_surface = nullish (Option.bind config cfg_surface) [],
       as_waiters = [], as_timers = [], as_pollers = [] \<rparr>"

definition reconfigure :: "ApprovalStoreConfig \<Rightarrow> approval_store \<Rightarrow> approval_store" where
  "reconfigure config st =
     st\<lparr>as_default := nullish (cfg_default config) (as_default st),
        as_surface := fold (\<lambda>(k, v). AList.update k v) (nullish (cfg_surface config) []) (as_surface st)\<rparr>"

definition getApprovalStore ::
  "nat \<Rightarrow> ApprovalStoreConfig option \<Rightarrow> approval_world \<Rightarrow> nat \<times> approval_world" where
  "getApprovalStore ws config W =
     (case map_of (aworld_instances W) ws of
        Some s \<Rightarrow> (s, case config of None \<Rightarrow> W | Some c \<Rightarrow> upd_store s (reconfigure c) W)
      | None \<Rightarrow>
          (length (aworld_stores W),
           W\<lparr>aworld_stores := aworld_stores W @ [new_approval_store ws config],
             aworld_instances := AList.update ws (length (aworld_stores W)) (aworld_instances W)\<rparr>))"

definition resetApprovalStores :: "approval_world \<Rightarrow> approval_world" where
  "resetApprovalStores W = W\<lparr>aworld_instances := []\<rparr>"

definition ttlFor :: "string \<Rightarrow> int option \<Rightarrow> approval_store \<Rightarrow> int" where
  "ttlFor surface override st =
     max 1 (nullish override (nullish (map_of (as_surface st) surface) (as_default st)))"

section \<open>Settling a promise\<close>

definition safeGet :: "nat \<Rightarrow> string \<Rightarrow> db_faults \<Rightarrow> approval_world \<Rightarrow> ApprovalRow option" where
  "safeGet s k fl W =
     (if \<not> storeAlive s W \<or> f_read fl then None else approvalGet k (aworld_rows W))"

definition clear_timer :: "nat \<Rightarrow> string \<Rightarrow> approval_world \<Rightarrow> approval_world" where
  "clear_timer s k W =
     (case map_of (as_timers (aworld_stores W ! s)) k of
        None \<Rightarrow> W | Some t \<Rightarrow> upd_wait t (\<lambda>x. x\<lparr>aw_timer := False\<rparr>) W)"

definition clear_poller :: "nat \<Rightarrow> string \<Rightarrow> approval_world \<Rightarrow> approval_world" where
  "clear_poller s k W =
     (case map_of (as_pollers (aworld_stores W ! s)) k of
        None \<Rightarrow> W | Some t \<Rightarrow> upd_wait t (\<lambda>x. x\<lparr>aw_poller := False\<rparr>) W)"

definition forget :: "string \<Rightarrow> approval_store \<Rightarrow> approval_store" where
  "forget k st =
     st\<lparr>as_waiters := AList.delete k (as_waiters st), as_timers := AList.delete k (as_timers st),
        as_pollers := AList.delete k (as_pollers st)\<rparr>"

definition cleanup :: "nat \<Rightarrow> string \<Rightarrow> approval_world \<Rightarrow> approval_world" where
  "cleanup s k W = upd_store s (forget k) (clear_poller s k (clear_timer s k W))"

definition settle :: "nat \<Rightarrow> ApprovalOutcome \<Rightarrow> approval_world \<Rightarrow> approval_world" where
  "settle w out W =
     (let x = aworld_waits W ! w in
      if aw_outcome x \<noteq> None then W
      else cleanup (aw_store x) (aw_id x) (upd_wait w (\<lambda>x. x\<lparr>aw_outcome := Some out\<rparr>) W))"

definition recordDecision :: "nat \<Rightarrow> string \<Rightarrow> db_faults \<Rightarrow> approval_world \<Rightarrow> approval_world" where
  "recordDecision s k fl W =
     (case map_of (as_waiters (aworld_stores W ! s)) k of
        None \<Rightarrow> W
      | Some w \<Rightarrow>
          (case safeGet s k fl W of
             None \<Rightarrow> W
           | Some row \<Rightarrow>
               if pending_row row then W else settle w (outcomeOf row) (cleanup s k W)))"

definition timed_out :: "(string \<times> string option) option \<Rightarrow> int option \<Rightarrow> ApprovalOutcome" where
  "timed_out by latency =
     \<lparr> ao_approved = False, ao_timedOut = True, ao_decision = Some Timed_out, ao_by = by,
       ao_latency = latency \<rparr>"

text \<open>The waiter, the timer and the poller of a promise replace those of an older one.\<close>

definition attach :: "nat \<Rightarrow> string \<Rightarrow> int option \<Rightarrow> approval_world \<Rightarrow> approval_world" where
  "attach s k ttl W =
     (let w = length (aworld_waits W) in
      upd_store s (\<lambda>st. st\<lparr>as_waiters := AList.update k w (as_waiters st),
                           as_timers := AList.update k w (as_timers st),
                           as_pollers := AList.update k w (as_pollers st)\<rparr>)
        (W\<lparr>aworld_waits := aworld_waits W @
             [\<lparr> aw_store = s, aw_id = k, aw_ttl = ttl, aw_timer = True, aw_poller = True,
                aw_outcome = None \<rparr>]\<rparr>))"

definition resolved :: "nat \<Rightarrow> string \<Rightarrow> ApprovalOutcome \<Rightarrow> approval_world \<Rightarrow> approval_world" where
  "resolved s k out W =
     W\<lparr>aworld_waits := aworld_waits W @
         [\<lparr> aw_store = s, aw_id = k, aw_ttl = None, aw_timer = False, aw_poller = False,
            aw_outcome = Some out \<rparr>]\<rparr>"

section \<open>Requests and decisions\<close>

record ApprovalRequestInput =
  ri_task :: "string option"
  ri_run :: "string option"
  ri_session :: "string option"
  ri_tool :: string
  ri_reason :: string
  ri_args :: approval_args
  ri_preview :: "json option"
  ri_riskTier :: "string option"
  ri_surface :: string
  ri_ttlMs :: "int option"

definition requested_row ::
  "(string \<Rightarrow> string) \<Rightarrow> approval_store \<Rightarrow> ApprovalRequestInput \<Rightarrow> string \<Rightarrow> int \<Rightarrow> ApprovalRow" where
  "requested_row sha st inp k now =
     \<lparr> ap_id = k, ap_task = ri_task inp, ap_run = ri_run inp, ap_session = ri_session inp,
       ap_tool = ri_tool inp, ap_argsHash = argsHashOf sha (ri_args inp), ap_reason = ri_reason inp,
       ap_preview = json_norm (nullish (ri_preview inp) JNull),
       ap_riskTier = nullish (ri_riskTier inp) ''unknown'', ap_surface = ri_surface inp,
       ap_requestedAt = now, ap_ttlMs = ttlFor (ri_surface inp) (ri_ttlMs inp) st,
       ap_decision = None, ap_channel = None, ap_user = None, ap_decidedAt = None, ap_latency = None \<rparr>"

text \<open>
  The promise, or \<open>None\<close> when the call throws. When only the audit throws, the row stays.
\<close>

definition request ::
  "(string \<Rightarrow> string) \<Rightarrow> nat \<Rightarrow> ApprovalRequestInput \<Rightarrow> string \<Rightarrow> int \<Rightarrow> db_faults \<Rightarrow> approval_world \<Rightarrow>
     nat option \<times> approval_world" where
  "request sha s inp k now fl W =
     (let row = requested_row sha (aworld_stores W ! s) inp k now in
      if \<not> storeAlive s W \<or> f_write fl then (None, W)
      else case approvalInsert row (aworld_rows W) of
        None \<Rightarrow> (None, W)
      | Some rows \<Rightarrow>
          (let W1 = W\<lparr>aworld_rows := rows\<rparr> in
           if f_audit fl then (None, W1)
           else (Some (length (aworld_waits W)),
                 attach s k (Some (ap_ttlMs row))
                   (audit (Approval_requested k (ap_tool row) (ap_surface row) (ap_riskTier row)
                             (ap_ttlMs row)) fl W1))))"

definition decision_of :: "bool \<Rightarrow> ApprovalDecisionValue" where
  "decision_of approved = (if approved then Approved else Denied)"

definition decide ::
  "nat \<Rightarrow> string \<Rightarrow> bool \<Rightarrow> string \<Rightarrow> string option \<Rightarrow> int \<Rightarrow> db_faults \<Rightarrow> approval_world \<Rightarrow>
     bool \<times> approval_world" where
  "decide s k approved channel user now fl W =
     (if \<not> storeAlive s W \<or> f_write fl then (False, W)
      else case approvalDecide k (decision_of approved) channel user now (aworld_rows W) of
        None \<Rightarrow> (False, W)
      | Some rows \<Rightarrow>
          (let W1 = audit (Approval_decided k (decision_of approved) channel user) fl
                      (W\<lparr>aworld_rows := rows\<rparr>)
           in case map_of (as_waiters (aworld_stores W1 ! s)) k of
                None \<Rightarrow> (True, W1)
              | Some w \<Rightarrow>
                  (case safeGet s k fl W1 of
                     Some row \<Rightarrow> (True, settle w (outcomeOf row) (recordDecision s k fl W1))
                   | None \<Rightarrow>
                       (True, settle w \<lparr> ao_approved = approved, ao_timedOut = False,
                          ao_decision = Some (decision_of approved), ao_by = Some (channel, user),
                          ao_latency = None \<rparr> W1))))"

definition expire ::
  "nat \<Rightarrow> string \<Rightarrow> int option \<Rightarrow> int \<Rightarrow> db_faults \<Rightarrow> approval_world \<Rightarrow> bool \<times> approval_world" where
  "expire s k ttl now fl W =
     (case safeGet s k fl W of
        None \<Rightarrow> (False, W)
      | Some row \<Rightarrow>
          if \<not> pending_row row \<or> ap_requestedAt row + ap_ttlMs row > now \<or> f_write fl then (False, W)
          else (let (n, rows) = approvalExpirePending now (aworld_rows W) in
                if n > 0
                then (True, audit (Approval_timed_out k (nullish ttl (ap_ttlMs row))) fl
                              (W\<lparr>aworld_rows := rows\<rparr>))
                else (False, W\<lparr>aworld_rows := rows\<rparr>)))"

definition sweepExpired :: "nat \<Rightarrow> int \<Rightarrow> db_faults \<Rightarrow> approval_world \<Rightarrow> nat \<times> approval_world" where
  "sweepExpired s now fl W =
     (if \<not> storeAlive s W \<or> f_read fl then (0, W)
      else (let expired = filter (\<lambda>r. ap_requestedAt r + ap_ttlMs r \<le> now) (approvalListPending (aworld_rows W));
                W1 = fold (\<lambda>r. audit (Approval_timed_out (ap_id r) (ap_ttlMs r)) fl) expired W
            in if f_write fl then (0, W1)
               else (let (n, rows) = approvalExpirePending now (aworld_rows W1) in (n, W1\<lparr>aworld_rows := rows\<rparr>))))"

definition listPending :: "nat \<Rightarrow> db_faults \<Rightarrow> approval_world \<Rightarrow> ApprovalRecord list" where
  "listPending s fl W =
     (if \<not> storeAlive s W \<or> f_read fl then []
      else map rowToRecord (approvalListPending (aworld_rows W)))"

definition get_approval :: "nat \<Rightarrow> string \<Rightarrow> db_faults \<Rightarrow> approval_world \<Rightarrow> ApprovalRecord option" where
  "get_approval s k fl W = map_option rowToRecord (safeGet s k fl W)"

text \<open>The three calls without a \<open>try\<close>: \<open>None\<close> when they throw.\<close>

definition listBySession :: "nat \<Rightarrow> string \<Rightarrow> db_faults \<Rightarrow> approval_world \<Rightarrow> ApprovalRecord list option" where
  "listBySession s session fl W =
     (if \<not> storeAlive s W \<or> f_read fl then None
      else Some (map rowToRecord (approvalListBySession session (aworld_rows W))))"

definition pendingCount :: "nat \<Rightarrow> db_faults \<Rightarrow> approval_world \<Rightarrow> nat option" where
  "pendingCount s fl W =
     (if \<not> storeAlive s W \<or> f_read fl then None
      else Some (length (approvalListPending (aworld_rows W))))"

definition purgeSession :: "nat \<Rightarrow> string \<Rightarrow> db_faults \<Rightarrow> approval_world \<Rightarrow> nat option \<times> approval_world" where
  "purgeSession s session fl W =
     (if \<not> storeAlive s W \<or> f_write fl then (None, W)
      else (let (n, rows) = approvalPurge session (aworld_rows W) in (Some n, W\<lparr>aworld_rows := rows\<rparr>)))"

section \<open>Timers, pollers and late waiters\<close>

text \<open>
  The body of the timer: after the attempt to expire the row, \<open>request\<close> reports a denial
  whatever the row says, \<open>waitFor\<close> reports what the row says.
\<close>

definition ttl_outcome :: "int option \<Rightarrow> ApprovalRow option \<Rightarrow> ApprovalOutcome" where
  "ttl_outcome ttl row =
     (case ttl of
        Some t \<Rightarrow>
          timed_out (if truthy_str (Option.bind row ap_channel)
                     then map_option (\<lambda>c. (c, None)) (Option.bind row ap_channel) else None)
            (Some (nullish (Option.bind row ap_latency) t))
      | None \<Rightarrow>
          (case row of
             Some r \<Rightarrow> if pending_row r then timed_out (Some (''ttl'', None)) None else outcomeOf r
           | None \<Rightarrow> timed_out (Some (''ttl'', None)) None))"

definition on_ttl :: "nat \<Rightarrow> int \<Rightarrow> db_faults \<Rightarrow> approval_world \<Rightarrow> approval_world" where
  "on_ttl w now fl W =
     (let x = aworld_waits W ! w;
          W1 = snd (expire (aw_store x) (aw_id x) (aw_ttl x) now fl W)
      in settle w (ttl_outcome (aw_ttl x) (safeGet (aw_store x) (aw_id x) fl W1)) W1)"

definition on_poll :: "nat \<Rightarrow> db_faults \<Rightarrow> approval_world \<Rightarrow> approval_world" where
  "on_poll w fl W =
     (let x = aworld_waits W ! w in
      case safeGet (aw_store x) (aw_id x) fl W of
        None \<Rightarrow> W
      | Some row \<Rightarrow>
          if pending_row row then W
          else settle w (outcomeOf row) (recordDecision (aw_store x) (aw_id x) fl W))"

definition waitFor :: "nat \<Rightarrow> string \<Rightarrow> db_faults \<Rightarrow> approval_world \<Rightarrow> approval_world" where
  "waitFor s k fl W =
     (if \<not> storeAlive s W \<or> f_read fl then resolved s k (timed_out (Some (''closed'', None)) None) W
      else case approvalGet k (aworld_rows W) of
        None \<Rightarrow> resolved s k (timed_out (Some (''missing'', None)) None) W
      | Some row \<Rightarrow>
          if pending_row row then attach s k None W else resolved s k (outcomeOf row) W)"

definition dispose :: "nat \<Rightarrow> approval_world \<Rightarrow> approval_world" where
  "dispose s W =
     (let W1 = fold (cleanup s) (map fst (as_timers (aworld_stores W ! s))) W
      in W1\<lparr>aworld_instances :=
             filter (\<lambda>(ws, _). ws \<noteq> as_backing (aworld_stores W ! s)) (aworld_instances W1)\<rparr>)"

section \<open>Approvers\<close>

record approval_request =
  rq_tool :: string
  rq_reason :: string
  rq_args :: approval_args
  rq_preview :: "json option"
  rq_riskTier :: "string option"
  rq_phrase :: "string option"
  rq_task :: "string option"
  rq_run :: "string option"
  rq_session :: "string option"

record ApproverSurfaceOptions =
  opt_surface :: string
  opt_prompt :: bool
  opt_task :: "string option"
  opt_run :: "string option"
  opt_session :: "string option"

definition approver_input :: "ApproverSurfaceOptions \<Rightarrow> approval_request \<Rightarrow> ApprovalRequestInput" where
  "approver_input opts req =
     \<lparr> ri_task = (case rq_task req of None \<Rightarrow> opt_task opts | t \<Rightarrow> t),
       ri_run = (case rq_run req of None \<Rightarrow> opt_run opts | t \<Rightarrow> t),
       ri_session = (case rq_session req of None \<Rightarrow> opt_session opts | t \<Rightarrow> t),
       ri_tool = rq_tool req, ri_reason = rq_reason req, ri_args = rq_args req,
       ri_preview = rq_preview req, ri_riskTier = rq_riskTier req, ri_surface = opt_surface opts,
       ri_ttlMs = None \<rparr>"

text \<open>When the audit of the gate throws, a headless Tier-2 action is refused.\<close>

definition approver_gate ::
  "(string \<Rightarrow> string) \<Rightarrow> nat \<Rightarrow> ApproverSurfaceOptions \<Rightarrow> approval_request \<Rightarrow> db_faults \<Rightarrow> approval_world \<Rightarrow>
     bool \<times> approval_world" where
  "approver_gate sha s opts req fl W =
     (let gate = gateHeadlessTier2 sha (aworld_typed W) (\<not> storeAlive s W \<or> f_read fl)
                   (opt_surface opts) (rq_tool req) (rq_riskTier req) (rq_phrase req)
      in if \<not> storeAlive s W \<or> f_audit fl
         then (\<not> (isHeadlessSurface (Some (opt_surface opts)) \<and> isTier2Risk (rq_tool req) (rq_riskTier req)), W)
         else ((case gate of Gate_open _ \<Rightarrow> True | Gate_closed _ \<Rightarrow> False),
               audit (Approval_typed_confirm (rq_tool req) (opt_surface opts) (rq_riskTier req) gate) fl W))"

definition approver_call ::
  "(string \<Rightarrow> string) \<Rightarrow> nat \<Rightarrow> ApproverSurfaceOptions \<Rightarrow> approval_request \<Rightarrow> string \<Rightarrow> int \<Rightarrow> db_faults \<Rightarrow>
     approval_world \<Rightarrow> approval_world" where
  "approver_call sha s opts req k now fl W =
     (let (open, W1) = approver_gate sha s opts req fl W;
          (st, W2) = (if \<not> open then (Call_refused, W1)
                      else case request sha s (approver_input opts req) k now fl W1 of
                        (None, W2) \<Rightarrow> (Call_threw, W2)
                      | (Some w, W2) \<Rightarrow> ((if opt_prompt opts then Call_prompting w else Call_waits w), W2))
      in W2\<lparr>aworld_calls := aworld_calls W2 @
              [\<lparr> ac_store = s, ac_surface = opt_surface opts, ac_state = st \<rparr>]\<rparr>)"

definition prompt_done :: "nat \<Rightarrow> approval_world \<Rightarrow> approval_world" where
  "prompt_done c W =
     (case ac_state (aworld_calls W ! c) of
        Call_prompting w \<Rightarrow>
          W\<lparr>aworld_calls := (aworld_calls W)[c := (aworld_calls W ! c)\<lparr>ac_state := Call_waits w\<rparr>]\<rparr>
      | _ \<Rightarrow> W)"

definition prompt_throws :: "nat \<Rightarrow> int \<Rightarrow> db_faults \<Rightarrow> approval_world \<Rightarrow> approval_world" where
  "prompt_throws c now fl W =
     (case ac_state (aworld_calls W ! c) of
        Call_prompting w \<Rightarrow>
          prompt_done c (snd (decide (ac_store (aworld_calls W ! c)) (aw_id (aworld_waits W ! w)) False
                                ''surface_error'' None now fl W))
      | _ \<Rightarrow> W)"

text \<open>What the approver's promise holds; it is also empty when the call threw.\<close>

definition call_result :: "approver_call \<Rightarrow> approval_world \<Rightarrow> bool option" where
  "call_result c W =
     (case ac_state c of
        Call_refused \<Rightarrow> Some False
      | Call_waits w \<Rightarrow> map_option ao_approved (aw_outcome (aworld_waits W ! w))
      | _ \<Rightarrow> None)"

section \<open>Steps\<close>

datatype approval_op =
    Open_workspace
  | Close_workspace nat
  | Get_store nat "ApprovalStoreConfig option"
  | Reset_stores
  | Dispose nat
  | Request nat ApprovalRequestInput string int db_faults
  | Decide nat string bool string "string option" int db_faults
  | Expire nat string "int option" int db_faults
  | Sweep nat int db_faults
  | Purge nat string db_faults
  | Wait_for nat string db_faults
  | Ttl_fires nat int db_faults
  | Poller_ticks nat db_faults
  | Approver_call nat ApproverSurfaceOptions approval_request string int db_faults
  | Prompt_returns nat
  | Prompt_throws nat int db_faults
  | Set_phrase string string string "string option" int
  | Clear_phrase string string bool

definition has_store :: "nat \<Rightarrow> approval_world \<Rightarrow> bool" where
  "has_store s W \<longleftrightarrow> s < length (aworld_stores W)"

definition armed_timer :: "nat \<Rightarrow> approval_world \<Rightarrow> bool" where
  "armed_timer w W \<longleftrightarrow> w < length (aworld_waits W) \<and> aw_timer (aworld_waits W ! w)"

definition armed_poller :: "nat \<Rightarrow> approval_world \<Rightarrow> bool" where
  "armed_poller w W \<longleftrightarrow> w < length (aworld_waits W) \<and> aw_poller (aworld_waits W ! w)"

fun apply_approval_op :: "(string \<Rightarrow> string) \<Rightarrow> approval_op \<Rightarrow> approval_world \<Rightarrow> approval_world" where
  "apply_approval_op sha Open_workspace W = W\<lparr>aworld_closed := aworld_closed W @ [False]\<rparr>"
| "apply_approval_op sha (Close_workspace ws) W = W\<lparr>aworld_closed := (aworld_closed W)[ws := True]\<rparr>"
| "apply_approval_op sha (Get_store ws config) W =
     (if ws < length (aworld_closed W) then snd (getApprovalStore ws config W) else W)"
| "apply_approval_op sha Reset_stores W = resetApprovalStores W"
| "apply_approval_op sha (Dispose s) W = (if has_store s W then dispose s W else W)"
| "apply_approval_op sha (Request s inp k now fl) W =
     (if has_store s W then snd (request sha s inp k now fl W) else W)"
| "apply_approval_op sha (Decide s k approved channel user now fl) W =
     (if has_store s W then snd (decide s k approved channel user now fl W) else W)"
| "apply_approval_op sha (Expire s k ttl now fl) W =
     (if has_store s W then snd (expire s k ttl now fl W) else W)"
| "apply_approval_op sha (Sweep s now fl) W = (if has_store s W then snd (sweepExpired s now fl W) else W)"
| "apply_approval_op sha (Purge s session fl) W =
     (if has_store s W then snd (purgeSession s session fl W) else W)"
| "apply_approval_op sha (Wait_for s k fl) W = (if has_store s W then waitFor s k fl W else W)"
| "apply_approval_op sha (Ttl_fires w now fl) W =
     (if armed_timer w W then on_ttl w now fl (upd_wait w (\<lambda>x. x\<lparr>aw_timer := False\<rparr>) W) else W)"
| "apply_approval_op sha (Poller_ticks w fl) W = (if armed_poller w W then on_poll w fl W else W)"
| "apply_approval_op sha (Approver_call s opts req k now fl) W =
     (if has_store s W then approver_call sha s opts req k now fl W else W)"
| "apply_approval_op sha (Prompt_returns c) W =
     (if c < length (aworld_calls W) then prompt_done c W else W)"
| "apply_approval_op sha (Prompt_throws c now fl) W =
     (if c < length (aworld_calls W) then prompt_throws c now fl W else W)"
| "apply_approval_op sha (Set_phrase c surface phrase by now) W =
     W\<lparr>aworld_typed := setTypedConfirm sha c surface phrase by now (aworld_typed W)\<rparr>"
| "apply_approval_op sha (Clear_phrase c surface fails) W =
     W\<lparr>aworld_typed := clearTypedConfirm c surface fails (aworld_typed W)\<rparr>"

end
