(* ===== verification/Approval_Frames.thy ===== *)
theory Approval_Frames
  imports Approval_Store
begin

text \<open>
  What the operations of the approval store leave alone, and the well-formedness of a world:
  the maps of a store name promises of this store and of their own approval, an approver
  call names a promise, and no two rows have one identifier.
\<close>

section \<open>Frames\<close>

lemma upd_store_simps [simp]:
  "aworld_rows (upd_store s f W) = aworld_rows W" "aworld_typed (upd_store s f W) = aworld_typed W"
  "aworld_closed (upd_store s f W) = aworld_closed W" "aworld_waits (upd_store s f W) = aworld_waits W"
  "aworld_calls (upd_store s f W) = aworld_calls W"
  "length (aworld_stores (upd_store s f W)) = length (aworld_stores W)"
  by (simp_all add: upd_store_def)

lemma upd_wait_simps [simp]:
  "aworld_rows (upd_wait w g W) = aworld_rows W" "aworld_typed (upd_wait w g W) = aworld_typed W"
  "aworld_closed (upd_wait w g W) = aworld_closed W" "aworld_stores (upd_wait w g W) = aworld_stores W"
  "aworld_calls (upd_wait w g W) = aworld_calls W"
  "length (aworld_waits (upd_wait w g W)) = length (aworld_waits W)"
  by (simp_all add: upd_wait_def)

lemma audit_simps [simp]:
  "aworld_rows (audit e fl W) = aworld_rows W" "aworld_typed (audit e fl W) = aworld_typed W"
  "aworld_closed (audit e fl W) = aworld_closed W" "aworld_stores (audit e fl W) = aworld_stores W"
  "aworld_waits (audit e fl W) = aworld_waits W" "aworld_calls (audit e fl W) = aworld_calls W"
  by (simp_all add: audit_def)

lemma nth_upd_field:
  "(\<And>x. h (f x) = h x) \<Longrightarrow> h (xs[i := f (xs ! i)] ! j) = h (xs ! j)"
  by (cases "i = j"; cases "i < length xs") (auto simp: not_less list_update_beyond)

lemma upd_wait_field: "(\<And>x. h (f x) = h x) \<Longrightarrow> h (aworld_waits (upd_wait w f W) ! v) = h (aworld_waits W ! v)"
  unfolding upd_wait_def by (simp add: nth_upd_field[where h = h])

lemma upd_store_field: "(\<And>x. h (f x) = h x) \<Longrightarrow> h (aworld_stores (upd_store s f W) ! t) = h (aworld_stores W ! t)"
  unfolding upd_store_def by (simp add: nth_upd_field[where h = h])

lemma clear_simps [simp]:
  "aworld_rows (clear_timer s k W) = aworld_rows W" "aworld_rows (clear_poller s k W) = aworld_rows W"
  "aworld_closed (clear_timer s k W) = aworld_closed W" "aworld_closed (clear_poller s k W) = aworld_closed W"
  "aworld_stores (clear_timer s k W) = aworld_stores W" "aworld_stores (clear_poller s k W) = aworld_stores W"
  "aworld_calls (clear_timer s k W) = aworld_calls W" "aworld_calls (clear_poller s k W) = aworld_calls W"
  "length (aworld_waits (clear_timer s k W)) = length (aworld_waits W)"
  "length (aworld_waits (clear_poller s k W)) = length (aworld_waits W)"
  by (simp_all add: clear_timer_def clear_poller_def split: option.split)

lemma clear_fields:
  "(\<And>x. h (x\<lparr>aw_timer := False\<rparr>) = h x) \<Longrightarrow> h (aworld_waits (clear_timer s k W) ! v) = h (aworld_waits W ! v)"
  "(\<And>x. h (x\<lparr>aw_poller := False\<rparr>) = h x) \<Longrightarrow> h (aworld_waits (clear_poller s k W) ! v) = h (aworld_waits W ! v)"
  by (simp_all add: clear_timer_def clear_poller_def upd_wait_field[where h = h] split: option.split)

lemma cleanup_simps [simp]:
  "aworld_rows (cleanup s k W) = aworld_rows W" "aworld_closed (cleanup s k W) = aworld_closed W"
  "aworld_calls (cleanup s k W) = aworld_calls W"
  "length (aworld_waits (cleanup s k W)) = length (aworld_waits W)"
  "length (aworld_stores (cleanup s k W)) = length (aworld_stores W)"
  "aw_outcome (aworld_waits (cleanup s k W) ! v) = aw_outcome (aworld_waits W ! v)"
  "aw_id (aworld_waits (cleanup s k W) ! v) = aw_id (aworld_waits W ! v)"
  "aw_ttl (aworld_waits (cleanup s k W) ! v) = aw_ttl (aworld_waits W ! v)"
  "aw_store (aworld_waits (cleanup s k W) ! v) = aw_store (aworld_waits W ! v)"
  "as_backing (aworld_stores (cleanup s k W) ! t) = as_backing (aworld_stores W ! t)"
  by (simp_all add: cleanup_def clear_fields[where h = aw_outcome] clear_fields[where h = aw_id]
      clear_fields[where h = aw_ttl] clear_fields[where h = aw_store] upd_store_field forget_def)

lemma settle_simps [simp]:
  "aworld_rows (settle w out W) = aworld_rows W" "aworld_closed (settle w out W) = aworld_closed W"
  "aworld_calls (settle w out W) = aworld_calls W"
  "length (aworld_waits (settle w out W)) = length (aworld_waits W)"
  "length (aworld_stores (settle w out W)) = length (aworld_stores W)"
  "aw_id (aworld_waits (settle w out W) ! v) = aw_id (aworld_waits W ! v)"
  "aw_ttl (aworld_waits (settle w out W) ! v) = aw_ttl (aworld_waits W ! v)"
  "aw_store (aworld_waits (settle w out W) ! v) = aw_store (aworld_waits W ! v)"
  "as_backing (aworld_stores (settle w out W) ! t) = as_backing (aworld_stores W ! t)"
  by (simp_all add: settle_def Let_def upd_wait_field[where h = aw_id]
      upd_wait_field[where h = aw_ttl] upd_wait_field[where h = aw_store])

lemma settle_outcome:
  "w < length (aworld_waits W) \<Longrightarrow>
     aw_outcome (aworld_waits (settle w out W) ! v) =
       (if v = w \<and> aw_outcome (aworld_waits W ! w) = None then Some out else aw_outcome (aworld_waits W ! v))"
  by (auto simp: settle_def Let_def upd_wait_def)

lemma safeGet_same:
  "aworld_rows W' = aworld_rows W \<Longrightarrow> storeAlive s W' = storeAlive s W \<Longrightarrow>
     safeGet s k fl W' = safeGet s k fl W"
  by (simp add: safeGet_def)

lemma alive_simps [simp]:
  "storeAlive s (cleanup t k W) = storeAlive s W" "storeAlive s (settle w out W) = storeAlive s W"
  "storeAlive s (audit e fl W) = storeAlive s W" "storeAlive s (W\<lparr>aworld_rows := rows\<rparr>) = storeAlive s W"
  "storeAlive s (upd_wait w g W) = storeAlive s W"
  by (simp_all add: storeAlive_def)

lemma recordDecision_simps [simp]:
  "aworld_rows (recordDecision s k fl W) = aworld_rows W"
  "aworld_closed (recordDecision s k fl W) = aworld_closed W"
  "aworld_calls (recordDecision s k fl W) = aworld_calls W"
  "length (aworld_waits (recordDecision s k fl W)) = length (aworld_waits W)"
  "length (aworld_stores (recordDecision s k fl W)) = length (aworld_stores W)"
  "aw_id (aworld_waits (recordDecision s k fl W) ! v) = aw_id (aworld_waits W ! v)"
  "aw_store (aworld_waits (recordDecision s k fl W) ! v) = aw_store (aworld_waits W ! v)"
  "storeAlive t (recordDecision s k fl W) = storeAlive t W"
  "as_backing (aworld_stores (recordDecision s k fl W) ! t) = as_backing (aworld_stores W ! t)"
  by (simp_all add: recordDecision_def split: option.split)

lemma attach_simps [simp]:
  "aworld_rows (attach s k ttl W) = aworld_rows W" "aworld_closed (attach s k ttl W) = aworld_closed W"
  "aworld_calls (attach s k ttl W) = aworld_calls W"
  "length (aworld_stores (attach s k ttl W)) = length (aworld_stores W)"
  "aworld_waits (attach s k ttl W) = aworld_waits W @
     [\<lparr> aw_store = s, aw_id = k, aw_ttl = ttl, aw_timer = True, aw_poller = True, aw_outcome = None \<rparr>]"
  by (simp_all add: attach_def Let_def)

lemma resolved_simps [simp]:
  "aworld_rows (resolved s k out W) = aworld_rows W" "aworld_closed (resolved s k out W) = aworld_closed W"
  "aworld_calls (resolved s k out W) = aworld_calls W" "aworld_stores (resolved s k out W) = aworld_stores W"
  "aworld_waits (resolved s k out W) = aworld_waits W @
     [\<lparr> aw_store = s, aw_id = k, aw_ttl = None, aw_timer = False, aw_poller = False, aw_outcome = Some out \<rparr>]"
  by (simp_all add: resolved_def)

section \<open>Well-formed worlds\<close>

definition named :: "approval_store \<Rightarrow> string \<Rightarrow> nat \<Rightarrow> bool" where
  "named st k w \<longleftrightarrow>
     map_of (as_waiters st) k = Some w \<or> map_of (as_timers st) k = Some w \<or> map_of (as_pollers st) k = Some w"

definition maps_ok :: "approval_world \<Rightarrow> bool" where
  "maps_ok W \<longleftrightarrow>
     (\<forall>s k w. s < length (aworld_stores W) \<longrightarrow> named (aworld_stores W ! s) k w \<longrightarrow>
        w < length (aworld_waits W) \<and> aw_store (aworld_waits W ! w) = s \<and> aw_id (aworld_waits W ! w) = k)"

definition call_wait :: "approver_call \<Rightarrow> nat option" where
  "call_wait c = (case ac_state c of Call_prompting w \<Rightarrow> Some w | Call_waits w \<Rightarrow> Some w | _ \<Rightarrow> None)"

definition world_ok :: "approval_world \<Rightarrow> bool" where
  "world_ok W \<longleftrightarrow>
     maps_ok W \<and>
     (\<forall>v < length (aworld_waits W). aw_store (aworld_waits W ! v) < length (aworld_stores W)) \<and>
     (\<forall>c \<in> set (aworld_calls W). ac_store c < length (aworld_stores W) \<and>
        (\<forall>w. call_wait c = Some w \<longrightarrow> w < length (aworld_waits W))) \<and>
     distinct (map ap_id (aworld_rows W))"

text \<open>A step that attaches nothing.\<close>

definition keeps :: "approval_world \<Rightarrow> approval_world \<Rightarrow> bool" where
  "keeps W W' \<longleftrightarrow>
     aworld_calls W' = aworld_calls W \<and>
     length (aworld_stores W') = length (aworld_stores W) \<and>
     length (aworld_waits W') = length (aworld_waits W) \<and>
     (\<forall>v. aw_id (aworld_waits W' ! v) = aw_id (aworld_waits W ! v) \<and>
          aw_store (aworld_waits W' ! v) = aw_store (aworld_waits W ! v)) \<and>
     (\<forall>t k w. t < length (aworld_stores W) \<longrightarrow> named (aworld_stores W' ! t) k w \<longrightarrow>
          named (aworld_stores W ! t) k w)"

lemma keeps_refl [simp]: "keeps W W"
  by (simp add: keeps_def)

lemma keeps_trans: "keeps W V \<Longrightarrow> keeps V U \<Longrightarrow> keeps W U"
  by (simp add: keeps_def)

lemma keeps_ok:
  assumes "keeps W W'" and "distinct (map ap_id (aworld_rows W'))" and "world_ok W"
  shows "world_ok W'"
proof -
  note k = assms(1)[unfolded keeps_def] and ok = assms(3)[unfolded world_ok_def maps_ok_def]
  have "maps_ok W'" using k ok unfolding maps_ok_def by (simp, blast)
  then show ?thesis using k ok assms(2) by (simp add: world_ok_def)
qed

lemma keeps_rows [simp]:
  "keeps W (W\<lparr>aworld_rows := rows\<rparr>)" "keeps W (audit e fl W)"
  by (simp_all add: keeps_def)

lemma named_forget: "named (forget k st) j w \<longleftrightarrow> j \<noteq> k \<and> named st j w"
  by (auto simp: named_def forget_def delete_conv')

lemma stores_cleanup:
  "aworld_stores (cleanup s k W) ! t =
     (if t = s \<and> s < length (aworld_stores W) then forget k (aworld_stores W ! s) else aworld_stores W ! t)"
  by (auto simp: cleanup_def upd_store_def not_less list_update_beyond)

lemma keeps_cleanup [simp]: "keeps W (cleanup s k W)"
  by (simp add: keeps_def stores_cleanup named_forget)

lemma keeps_outcome [simp]: "keeps W (upd_wait w (\<lambda>x. x\<lparr>aw_outcome := out\<rparr>) W)"
  by (simp add: keeps_def upd_wait_field[where h = aw_id] upd_wait_field[where h = aw_store])

lemma keeps_timer [simp]: "keeps W (upd_wait w (\<lambda>x. x\<lparr>aw_timer := b\<rparr>) W)"
  by (simp add: keeps_def upd_wait_field[where h = aw_id] upd_wait_field[where h = aw_store])

lemma keeps_settle [simp]: "keeps W (settle w out W)"
  unfolding settle_def Let_def by (auto intro: keeps_trans[OF keeps_outcome keeps_cleanup])

lemma keeps_record [simp]: "keeps W (recordDecision s k fl W)"
  unfolding recordDecision_def by (auto split: option.split intro: keeps_trans[OF keeps_cleanup keeps_settle])

lemma decide_keeps: "keeps W (snd (decide s k a ch u now fl W))"
proof (cases "\<not> storeAlive s W \<or> f_write fl \<or>
    approvalDecide k (decision_of a) ch u now (aworld_rows W) = None")
  case False
  then obtain rows where rows: "approvalDecide k (decision_of a) ch u now (aworld_rows W) = Some rows"
    and ok: "storeAlive s W" "\<not> f_write fl" by auto
  let ?V = "audit (Approval_decided k (decision_of a) ch u) fl (W\<lparr>aworld_rows := rows\<rparr>)"
  have V: "keeps W ?V" by (rule keeps_trans[OF keeps_rows(1) keeps_rows(2)])
  have "keeps ?V (settle w o1 ?V)" "keeps ?V (settle w o2 (recordDecision s k fl ?V))" for w o1 o2
    using keeps_trans[OF keeps_record keeps_settle] by auto
  then show ?thesis using rows ok V
    by (auto simp: decide_def Let_def split: option.split intro: keeps_trans[OF V])
qed (auto simp: decide_def split: option.split)

lemma expire_keeps: "keeps W (snd (expire s k ttl now fl W))"
  using keeps_trans[OF keeps_rows(1) keeps_rows(2)]
  by (auto simp: expire_def Let_def split: option.split prod.split)

lemma fold_keeps: "(\<And>x W. keeps W (f x W)) \<Longrightarrow> keeps W (fold f xs W)"
  by (induction xs arbitrary: W) (auto intro: keeps_trans)

lemma sweep_keeps: "keeps W (snd (sweepExpired s now fl W))"
proof -
  have "keeps W (fold (\<lambda>r. audit (Approval_timed_out (ap_id r) (ap_ttlMs r)) fl) rs W)" for rs
    by (rule fold_keeps) simp
  then show ?thesis
    by (auto simp: sweepExpired_def Let_def split: prod.split intro: keeps_trans[OF _ keeps_rows(1)])
qed

lemma purge_keeps: "keeps W (snd (purgeSession s session fl W))"
  by (simp add: purgeSession_def split: prod.split)

lemma dispose_keeps: "keeps W (dispose s W)"
proof -
  have "keeps W (fold (cleanup s) ks W)" for ks by (rule fold_keeps) simp
  moreover have "keeps V (V\<lparr>aworld_instances := i\<rparr>)" for V i by (simp add: keeps_def)
  ultimately show ?thesis unfolding dispose_def Let_def by (blast intro: keeps_trans)
qed

lemma on_ttl_keeps: "keeps W (on_ttl w now fl W)"
  unfolding on_ttl_def Let_def by (rule keeps_trans[OF expire_keeps keeps_settle])

lemma on_poll_keeps: "keeps W (on_poll w fl W)"
  unfolding on_poll_def Let_def by (auto split: option.split intro: keeps_trans[OF keeps_record keeps_settle])

lemma ids_simps:
  assumes "distinct (map ap_id (aworld_rows W))"
  shows "distinct (map ap_id (aworld_rows (snd (decide s k a ch u now fl W))))"
    and "distinct (map ap_id (aworld_rows (snd (expire s k ttl now fl W))))"
    and "distinct (map ap_id (aworld_rows (snd (purgeSession s session fl W))))"
proof -
  show "distinct (map ap_id (aworld_rows (snd (decide s k a ch u now fl W))))"
    using assms by (auto simp: decide_def Let_def decide_ids split: option.split)
  have "distinct (map ap_id (snd (approvalExpirePending now (aworld_rows W))))"
    using assms by (simp only: expire_ids)
  then show "distinct (map ap_id (aworld_rows (snd (expire s k ttl now fl W))))"
    using assms by (auto simp: expire_def Let_def split: option.split prod.split)
  have "distinct (map ap_id (snd (approvalPurge session (aworld_rows W))))"
    using assms by (rule purge_ids)
  then show "distinct (map ap_id (aworld_rows (snd (purgeSession s session fl W))))"
    using assms by (auto simp: purgeSession_def split: prod.split)
qed

lemma audits_rows [simp]:
  "aworld_rows (fold (\<lambda>r. audit (g r) fl) rs W) = aworld_rows W"
  by (induction rs arbitrary: W) simp_all

lemma sweep_rows:
  "aworld_rows (snd (sweepExpired s now fl W)) =
     (if \<not> storeAlive s W \<or> f_read fl \<or> f_write fl then aworld_rows W
      else snd (approvalExpirePending now (aworld_rows W)))"
  by (auto simp: sweepExpired_def Let_def split: prod.split)

lemma world_ok_attach:
  assumes "world_ok W" and "s < length (aworld_stores W)"
  shows "world_ok (attach s k ttl W)"
proof -
  have "named (aworld_stores (attach s k ttl W) ! t) j w \<longleftrightarrow>
      (if t = s \<and> j = k then w = length (aworld_waits W) else named (aworld_stores W ! t) j w)" for t j w
    using assms(2) by (cases "t = s") (auto simp: attach_def Let_def upd_store_def named_def update_conv')
  then show ?thesis using assms
    by (auto simp: world_ok_def maps_ok_def nth_append less_Suc_eq split: if_splits)
qed

lemma world_ok_resolved:
  "world_ok W \<Longrightarrow> s < length (aworld_stores W) \<Longrightarrow> world_ok (resolved s k out W)"
  by (auto simp: world_ok_def maps_ok_def nth_append less_Suc_eq)

lemma world_ok_rows:
  "world_ok W \<Longrightarrow> distinct (map ap_id rows) \<Longrightarrow> world_ok (W\<lparr>aworld_rows := rows\<rparr>)"
  by (simp add: world_ok_def maps_ok_def)

lemma world_ok_audit [simp]: "world_ok (audit e fl W) = world_ok W"
  by (simp add: world_ok_def maps_ok_def)

lemma request_cases:
  assumes "request sha s inp k now fl W = (res, W')"
  obtains (nothing) "res = None" "W' = W"
  | (row_only) rows where "res = None" "W' = W\<lparr>aworld_rows := rows\<rparr>"
      "approvalInsert (requested_row sha (aworld_stores W ! s) inp k now) (aworld_rows W) = Some rows"
  | (attached) rows e ttl where "res = Some (length (aworld_waits W))"
      "W' = attach s k (Some ttl) (audit e fl (W\<lparr>aworld_rows := rows\<rparr>))"
      "approvalInsert (requested_row sha (aworld_stores W ! s) inp k now) (aworld_rows W) = Some rows"
proof (cases "\<not> storeAlive s W \<or> f_write fl \<or>
    approvalInsert (requested_row sha (aworld_stores W ! s) inp k now) (aworld_rows W) = None")
  case True
  then have "request sha s inp k now fl W = (None, W)" by (auto simp: request_def Let_def)
  then show ?thesis using assms by (intro that(1)) simp_all
next
  case False
  then obtain rows
    where ins: "approvalInsert (requested_row sha (aworld_stores W ! s) inp k now) (aworld_rows W) = Some rows"
    by auto
  show ?thesis
  proof (cases "f_audit fl")
    case True
    then have "request sha s inp k now fl W = (None, W\<lparr>aworld_rows := rows\<rparr>)"
      using False ins by (simp add: request_def Let_def)
    then show ?thesis using assms by (intro that(2)[OF _ _ ins]) simp_all
  next
    case audited: False
    let ?row = "requested_row sha (aworld_stores W ! s) inp k now"
    have "request sha s inp k now fl W =
        (Some (length (aworld_waits W)),
         attach s k (Some (ap_ttlMs ?row))
           (audit (Approval_requested k (ap_tool ?row) (ap_surface ?row) (ap_riskTier ?row) (ap_ttlMs ?row))
              fl (W\<lparr>aworld_rows := rows\<rparr>)))"
      using False audited ins by (simp add: request_def Let_def)
    then have "res = Some (length (aworld_waits W))"
      "W' = attach s k (Some (ap_ttlMs ?row))
         (audit (Approval_requested k (ap_tool ?row) (ap_surface ?row) (ap_riskTier ?row) (ap_ttlMs ?row))
            fl (W\<lparr>aworld_rows := rows\<rparr>))"
      using assms by simp_all
    then show ?thesis using ins by (rule that(3))
  qed
qed

lemma world_ok_request:
  assumes "world_ok W" and "s < length (aworld_stores W)"
    and "request sha s inp k now fl W = (res, W')"
  shows "world_ok W' \<and> aworld_calls W' = aworld_calls W \<and>
    length (aworld_stores W') = length (aworld_stores W) \<and> length (aworld_waits W) \<le> length (aworld_waits W') \<and>
    (\<forall>w. res = Some w \<longrightarrow> w < length (aworld_waits W'))"
  using assms(3)
proof (cases rule: request_cases)
  case nothing
  then show ?thesis using assms by simp
next
  case (row_only rows)
  have "distinct (map ap_id rows)"
    using row_only(3) assms(1) insert_ids by (auto simp: world_ok_def)
  then show ?thesis using row_only assms by (simp add: world_ok_rows)
next
  case (attached rows e ttl)
  have "distinct (map ap_id rows)"
    using attached(3) assms(1) insert_ids by (auto simp: world_ok_def)
  then have "world_ok (audit e fl (W\<lparr>aworld_rows := rows\<rparr>))" using assms by (simp add: world_ok_rows)
  then show ?thesis using attached assms by (simp add: world_ok_attach)
qed

lemma gate_simps [simp]:
  "aworld_rows (snd (approver_gate sha s opts req fl W)) = aworld_rows W"
  "aworld_stores (snd (approver_gate sha s opts req fl W)) = aworld_stores W"
  "aworld_waits (snd (approver_gate sha s opts req fl W)) = aworld_waits W"
  "aworld_closed (snd (approver_gate sha s opts req fl W)) = aworld_closed W"
  "aworld_calls (snd (approver_gate sha s opts req fl W)) = aworld_calls W"
  "world_ok (snd (approver_gate sha s opts req fl W)) = world_ok W"
  by (simp_all add: approver_gate_def Let_def)

lemma approver_cases:
  assumes "approver_call sha s opts req k now fl W = W'"
  obtains (refused) "\<not> fst (approver_gate sha s opts req fl W)"
      "W' = (snd (approver_gate sha s opts req fl W))\<lparr>aworld_calls := aworld_calls W @
              [\<lparr> ac_store = s, ac_surface = opt_surface opts, ac_state = Call_refused \<rparr>]\<rparr>"
  | (asked) res V st where "fst (approver_gate sha s opts req fl W)"
      "request sha s (approver_input opts req) k now fl (snd (approver_gate sha s opts req fl W)) = (res, V)"
      "W' = V\<lparr>aworld_calls := aworld_calls V @
              [\<lparr> ac_store = s, ac_surface = opt_surface opts, ac_state = st \<rparr>]\<rparr>"
      "st = (case res of None \<Rightarrow> Call_threw
             | Some w \<Rightarrow> if opt_prompt opts then Call_prompting w else Call_waits w)"
proof (cases "approver_gate sha s opts req fl W")
  case (Pair go W1)
  show ?thesis
  proof (cases go)
    case False
    then show ?thesis using assms Pair gate_simps(5)[of sha s opts req fl W]
      by (intro that(1)) (auto simp: approver_call_def)
  next
    case True
    obtain res V where r: "request sha s (approver_input opts req) k now fl W1 = (res, V)"
      by (cases "request sha s (approver_input opts req) k now fl W1")
    then show ?thesis using assms Pair True
      by (intro that(2)[of res V]) (auto simp: approver_call_def split: option.splits)
  qed
qed

end
