(* ===== verification/Approval_Properties.thy ===== *)
theory Approval_Properties
  imports Approval_Frames
begin

text \<open>
  What the approval store guarantees for every sequence of calls, timers and polls of any
  number of processes: nothing is approved unless somebody approved it while the row was
  pending, a decided row never changes, every promise that is attached once is settled by
  its timer, and a headless Tier-2 action needs a stored phrase. Then runs that show where
  the store does not do what its comments say.
\<close>

section \<open>Well-formedness is kept\<close>

lemma world_ok_append_call:
  "world_ok W \<Longrightarrow> ac_store c < length (aworld_stores W) \<Longrightarrow> (\<And>w. call_wait c = Some w \<Longrightarrow> w < length (aworld_waits W)) \<Longrightarrow>
     world_ok (W\<lparr>aworld_calls := aworld_calls W @ [c]\<rparr>)"
  by (auto simp: world_ok_def maps_ok_def)

lemma world_ok_approver:
  assumes "world_ok W" and "s < length (aworld_stores W)"
  shows "world_ok (approver_call sha s opts req k now fl W)"
proof -
  obtain W' where W': "approver_call sha s opts req k now fl W = W'" by simp
  have "world_ok W'" using W'
  proof (cases rule: approver_cases)
  case refused
  have "world_ok (snd (approver_gate sha s opts req fl W))" using assms by simp
  then have "world_ok ((snd (approver_gate sha s opts req fl W))\<lparr>aworld_calls :=
      aworld_calls (snd (approver_gate sha s opts req fl W)) @
        [\<lparr> ac_store = s, ac_surface = opt_surface opts, ac_state = Call_refused \<rparr>]\<rparr>)"
    using assms(2) by (intro world_ok_append_call) (simp_all add: call_wait_def)
  then show ?thesis using refused by simp
next
  case (asked res V st)
  have "world_ok V \<and> s < length (aworld_stores V) \<and> (\<forall>w. res = Some w \<longrightarrow> w < length (aworld_waits V))"
    using world_ok_request[OF _ _ asked(2)] assms by simp
  then show ?thesis unfolding asked(3)
    by (intro world_ok_append_call) (auto simp: call_wait_def asked(4) split: option.splits if_splits)
  qed
  then show ?thesis using W' by simp
qed

lemma world_ok_prompt:
  assumes "world_ok W" and "c < length (aworld_calls W)"
  shows "world_ok (prompt_done c W)"
proof (cases "ac_state (aworld_calls W ! c)")
  case (Call_prompting w)
  have "call_wait (aworld_calls W ! c) = Some w" using Call_prompting by (simp add: call_wait_def)
  then have "w < length (aworld_waits W)" using assms by (auto simp: world_ok_def)
  then show ?thesis using Call_prompting assms
    by (auto simp: prompt_done_def world_ok_def maps_ok_def call_wait_def dest!: set_update_subset_insert[THEN subsetD])
qed (use assms in \<open>simp_all add: prompt_done_def\<close>)

lemma keeps_reconfigure: "keeps W (upd_store s (reconfigure c) W)"
  by (simp add: keeps_def named_def upd_store_field reconfigure_def)

lemma world_ok_new_store:
  assumes "world_ok W"
  shows "world_ok (W\<lparr>aworld_stores := aworld_stores W @ [new_approval_store ws config], aworld_instances := i\<rparr>)"
proof -
  have "\<not> named (new_approval_store ws config) k w" for k w
    by (simp add: named_def new_approval_store_def)
  then show ?thesis using assms
    by (auto simp: world_ok_def maps_ok_def nth_append less_Suc_eq)
qed

lemma world_ok_step:
  assumes ok: "world_ok W"
  shows "world_ok (apply_approval_op sha x W)"
proof -
  have ids: "distinct (map ap_id (aworld_rows W))" using ok by (simp add: world_ok_def)
  have kept: "keeps W V \<Longrightarrow> aworld_rows V = aworld_rows W \<Longrightarrow> world_ok V" for V
    using keeps_ok[OF _ _ ok] ids by simp
  show ?thesis
  proof (cases x)
    case (Get_store ws config)
    have "world_ok (snd (getApprovalStore ws config W))"
    proof (cases "map_of (aworld_instances W) ws")
      case None
      then show ?thesis using ok by (simp add: getApprovalStore_def world_ok_new_store)
    next
      case (Some s)
      then show ?thesis using ok kept[OF keeps_reconfigure]
        by (auto simp: getApprovalStore_def split: option.split)
    qed
    then show ?thesis using Get_store ok by simp
  next
    case (Decide s k a ch u now fl)
    then show ?thesis using ok keeps_ok[OF decide_keeps ids_simps(1)[OF ids] ok] by simp
  next
    case (Expire s k ttl now fl)
    then show ?thesis using ok keeps_ok[OF expire_keeps ids_simps(2)[OF ids] ok] by simp
  next
    case (Sweep s now fl)
    have "distinct (map ap_id (aworld_rows (snd (sweepExpired s now fl W))))"
      using ids expire_ids[of now "aworld_rows W"] unfolding sweep_rows by presburger
    then show ?thesis using Sweep ok keeps_ok[OF sweep_keeps _ ok] by simp
  next
    case (Purge s session fl)
    then show ?thesis using ok keeps_ok[OF purge_keeps ids_simps(3)[OF ids] ok] by simp
  next
    case (Dispose s)
    have "aworld_rows (fold (cleanup s) ks V) = aworld_rows V" for ks V
      by (induction ks arbitrary: V) simp_all
    then have "aworld_rows (dispose s W) = aworld_rows W" by (simp add: dispose_def Let_def)
    then show ?thesis using Dispose ok kept[OF dispose_keeps] by simp
  next
    case (Request s inp k now fl)
    obtain res V where r: "request sha s inp k now fl W = (res, V)"
      by (cases "request sha s inp k now fl W")
    show ?thesis using Request ok r world_ok_request[OF ok _ r] by (simp add: has_store_def)
  next
    case (Wait_for s k fl)
    then show ?thesis using ok
      by (auto simp: waitFor_def has_store_def world_ok_attach world_ok_resolved split: option.split)
  next
    case (Ttl_fires w now fl)
    let ?V = "upd_wait w (\<lambda>x. x\<lparr>aw_timer := False\<rparr>) W"
    have V: "world_ok ?V" by (rule kept) simp_all
    then have idsV: "distinct (map ap_id (aworld_rows ?V))" by (simp add: world_ok_def)
    have "distinct (map ap_id (aworld_rows (on_ttl w now fl ?V)))"
      using ids_simps(2)[OF idsV] by (simp add: on_ttl_def Let_def)
    then have "world_ok (on_ttl w now fl ?V)" by (rule keeps_ok[OF on_ttl_keeps _ V])
    then show ?thesis using Ttl_fires ok by simp
  next
    case (Poller_ticks w fl)
    have "aworld_rows (on_poll w fl W) = aworld_rows W"
      by (simp add: on_poll_def Let_def split: option.split)
    then show ?thesis using Poller_ticks ok kept[OF on_poll_keeps] by simp
  next
    case (Approver_call s opts req k now fl)
    then show ?thesis using ok by (simp add: world_ok_approver has_store_def)
  next
    case (Prompt_returns c)
    then show ?thesis using ok by (simp add: world_ok_prompt)
  next
    case (Prompt_throws c now fl)
    have "world_ok (prompt_throws c now fl W)" if "c < length (aworld_calls W)"
    proof (cases "ac_state (aworld_calls W ! c)")
      case (Call_prompting w)
      let ?V = "snd (decide (ac_store (aworld_calls W ! c)) (aw_id (aworld_waits W ! w)) False ''surface_error'' None now fl W)"
      have "keeps W ?V" by (rule decide_keeps)
      then have "c < length (aworld_calls ?V)" using that by (simp add: keeps_def)
      moreover have "world_ok ?V" using keeps_ok[OF decide_keeps ids_simps(1)[OF ids] ok] .
      ultimately show ?thesis using Call_prompting by (simp add: prompt_throws_def world_ok_prompt)
    qed (use ok in \<open>simp_all add: prompt_throws_def\<close>)
    then show ?thesis using Prompt_throws ok by simp
  qed (use ok in \<open>simp_all add: world_ok_def maps_ok_def resetApprovalStores_def\<close>)
qed

interpretation approval_machine: inv_machine "apply_approval_op sha" world_ok for sha
  by unfold_locales (rule world_ok_step)

lemma no_approvals_ok [simp]: "world_ok no_approvals"
  by (simp add: world_ok_def maps_ok_def no_approvals_def)

section \<open>Where an approval comes from\<close>

text \<open>The one operation that approves: a positive decision on a row that is pending.\<close>

fun grants :: "string \<Rightarrow> approval_op \<Rightarrow> approval_world \<Rightarrow> bool" where
  "grants k (Decide s j approved ch u now fl) W \<longleftrightarrow>
     j = k \<and> approved \<and> (\<exists>r. approvalGet k (aworld_rows W) = Some r \<and> pending_row r)"
| "grants k _ W \<longleftrightarrow> False"

definition approved_in :: "approvals \<Rightarrow> string \<Rightarrow> bool" where
  "approved_in rows k \<longleftrightarrow> (\<exists>r \<in> set rows. ap_id r = k \<and> ap_decision r = Some Approved)"

text \<open>
  What an operation may do to the table: one statement of the workspace store. A decision that
  is not the caller's own is a denial.
\<close>

inductive row_change :: "approval_op \<Rightarrow> approvals \<Rightarrow> approvals \<Rightarrow> bool" where
  unchanged: "row_change x rows rows"
| inserted: "approvalInsert row rows = Some rows' \<Longrightarrow> pending_row row \<Longrightarrow> row_change x rows rows'"
| called: "approvalDecide k (decision_of a) ch u now rows = Some rows' \<Longrightarrow>
    row_change (Decide s k a ch u now fl) rows rows'"
| denied: "approvalDecide k Denied ch u now rows = Some rows' \<Longrightarrow> row_change x rows rows'"
| expired: "row_change x rows (snd (approvalExpirePending now rows))"
| purged: "row_change (Purge s session fl) rows (snd (approvalPurge session rows))"

lemma decide_rows:
  "aworld_rows (snd (decide s k a ch u now fl W)) = aworld_rows W \<or>
   approvalDecide k (decision_of a) ch u now (aworld_rows W) =
     Some (aworld_rows (snd (decide s k a ch u now fl W)))"
  by (auto simp: decide_def Let_def split: option.split)

lemma expire_rows:
  "aworld_rows (snd (expire s k ttl now fl W)) = aworld_rows W \<or>
   aworld_rows (snd (expire s k ttl now fl W)) = snd (approvalExpirePending now (aworld_rows W))"
  by (auto simp: expire_def Let_def split: option.split prod.split)

lemma purge_rows:
  "aworld_rows (snd (purgeSession s session fl W)) =
     (if \<not> storeAlive s W \<or> f_write fl then aworld_rows W else snd (approvalPurge session (aworld_rows W)))"
  by (auto simp: purgeSession_def split: prod.split)

lemma request_rows:
  assumes "request sha s inp k now fl W = (res, W')"
  shows "row_change x (aworld_rows W) (aworld_rows W')"
  using assms
proof (cases rule: request_cases)
  case (row_only rows)
  then show ?thesis using row_change.inserted[OF row_only(3)] by (simp add: requested_row_def pending_row_def)
next
  case (attached rows e ttl)
  then show ?thesis using row_change.inserted[OF attached(3)] by (simp add: requested_row_def pending_row_def)
qed (simp add: row_change.unchanged)

lemma dispose_rows [simp]: "aworld_rows (dispose s W) = aworld_rows W"
proof -
  have "aworld_rows (fold (cleanup s) ks V) = aworld_rows V" for ks V
    by (induction ks arbitrary: V) simp_all
  then show ?thesis by (simp add: dispose_def Let_def)
qed

lemma quiet_rows [simp]:
  "aworld_rows (on_poll w fl W) = aworld_rows W" "aworld_rows (waitFor s k fl W) = aworld_rows W"
  "aworld_rows (snd (getApprovalStore ws config W)) = aworld_rows W"
  "aworld_rows (resetApprovalStores W) = aworld_rows W"
  by (simp_all add: on_poll_def Let_def waitFor_def getApprovalStore_def resetApprovalStores_def
      split: option.split)

lemma prompt_done_simps [simp]:
  "aworld_rows (prompt_done c W) = aworld_rows W" "aworld_waits (prompt_done c W) = aworld_waits W"
  "aworld_stores (prompt_done c W) = aworld_stores W" "aworld_closed (prompt_done c W) = aworld_closed W"
  by (simp_all add: prompt_done_def split: call_state.split)

lemma approver_rows:
  "row_change x (aworld_rows W) (aworld_rows (approver_call sha s opts req k now fl W))"
proof -
  obtain W' where W': "approver_call sha s opts req k now fl W = W'" by simp
  then have "row_change x (aworld_rows W) (aworld_rows W')"
  proof (cases rule: approver_cases)
    case refused
    then show ?thesis by (simp add: row_change.unchanged)
  next
    case (asked res V st)
    then show ?thesis using request_rows[OF asked(2)] by simp
  qed
  then show ?thesis using W' by simp
qed

lemma prompt_throws_rows:
  "row_change x (aworld_rows W) (aworld_rows (prompt_throws c now fl W))"
proof (cases "ac_state (aworld_calls W ! c)")
  case (Call_prompting w)
  then show ?thesis
    using decide_rows[of "ac_store (aworld_calls W ! c)" "aw_id (aworld_waits W ! w)" False "''surface_error''" None now fl W]
    by (auto simp: prompt_throws_def decision_of_def intro: row_change.unchanged row_change.denied)
qed (simp_all add: prompt_throws_def row_change.unchanged)

lemma rows_step: "row_change x (aworld_rows W) (aworld_rows (apply_approval_op sha x W))"
proof (cases x)
  case (Decide s j a ch u now fl)
  then show ?thesis using decide_rows[of s j a ch u now fl W]
    by (auto intro: row_change.unchanged row_change.called)
next
  case (Expire s j ttl now fl)
  then show ?thesis using expire_rows[of s j ttl now fl W]
    by (auto intro: row_change.unchanged row_change.expired)
next
  case (Sweep s now fl)
  then show ?thesis by (simp add: sweep_rows row_change.unchanged row_change.expired)
next
  case (Purge s session fl)
  then show ?thesis
    by (simp add: purge_rows row_change.unchanged row_change.purged)
next
  case (Request s inp j now fl)
  obtain res V where r: "request sha s inp j now fl W = (res, V)" by (cases "request sha s inp j now fl W")
  then show ?thesis using Request request_rows[OF r] by (simp add: row_change.unchanged)
next
  case (Ttl_fires w now fl)
  let ?V = "upd_wait w (\<lambda>x. x\<lparr>aw_timer := False\<rparr>) W"
  let ?x = "aworld_waits ?V ! w"
  have "aworld_rows (on_ttl w now fl ?V) = aworld_rows (snd (expire (aw_store ?x) (aw_id ?x) (aw_ttl ?x) now fl ?V))"
    by (simp add: on_ttl_def Let_def)
  then have "row_change x (aworld_rows W) (aworld_rows (on_ttl w now fl ?V))"
    using expire_rows[of "aw_store ?x" "aw_id ?x" "aw_ttl ?x" now fl ?V]
    by (auto intro: row_change.unchanged row_change.expired)
  then show ?thesis using Ttl_fires by (simp add: row_change.unchanged)
qed (simp_all add: approver_rows prompt_throws_rows row_change.unchanged)

text \<open>Approval appears by a granting decision only.\<close>

lemma approved_decide_rows:
  "approvalDecide k d ch u now rows = Some rows' \<Longrightarrow> approved_in rows' j \<Longrightarrow>
     approved_in rows j \<or> j = k \<and> d = Approved \<and> (\<exists>r \<in> set rows. ap_id r = k \<and> pending_row r)"
  unfolding approvalDecide_def approved_in_def by (auto split: if_splits)

lemma approved_change:
  "row_change x rows rows' \<Longrightarrow> approved_in rows' k \<Longrightarrow>
     approved_in rows k \<or>
     (\<exists>s ch u now fl. x = Decide s k True ch u now fl) \<and> (\<exists>r \<in> set rows. ap_id r = k \<and> pending_row r)"
proof (induction rule: row_change.induct)
  case (inserted row rows rows' x)
  then show ?case by (auto simp: approvalInsert_def approved_in_def pending_row_def split: if_splits)
next
  case (called j a ch u now rows rows' s fl)
  from approved_decide_rows[OF this] show ?case by (auto simp: decision_of_def split: if_splits)
next
  case (denied j ch u now rows rows' x)
  from approved_decide_rows[OF this] show ?case by auto
next
  case (expired x rows now)
  then show ?case by (auto simp: approved_in_def approvalExpirePending_def split: if_splits)
next
  case (purged s session fl rows)
  then show ?case by (auto simp: approved_in_def approvalPurge_def)
qed simp

lemma approved_step:
  assumes ok: "world_ok W" and new: "approved_in (aworld_rows (apply_approval_op sha x W)) k"
  shows "approved_in (aworld_rows W) k \<or> grants k x W"
proof -
  have "approvalGet (ap_id r) (aworld_rows W) = Some r" if "r \<in> set (aworld_rows W)" for r
    using ok that by (intro mem_get) (simp_all add: world_ok_def)
  then show ?thesis using approved_change[OF rows_step new] by fastforce
qed

text \<open>
  An outcome that is approved was there before, or the row of its approval says so.
\<close>

definition sound_outcomes :: "approvals \<Rightarrow> approval_world \<Rightarrow> approval_world \<Rightarrow> bool" where
  "sound_outcomes rows W W' \<longleftrightarrow>
     (\<forall>v < length (aworld_waits W'). \<forall>out. aw_outcome (aworld_waits W' ! v) = Some out \<longrightarrow> ao_approved out \<longrightarrow>
        (v < length (aworld_waits W) \<and> aw_outcome (aworld_waits W ! v) = Some out \<and>
         aw_id (aworld_waits W' ! v) = aw_id (aworld_waits W ! v)) \<or>
        approved_in rows (aw_id (aworld_waits W' ! v)))"

lemma sound_same: "aworld_waits W' = aworld_waits W \<Longrightarrow> sound_outcomes rows W W'"
  by (simp add: sound_outcomes_def)

lemma sound_trans: "sound_outcomes rows W V \<Longrightarrow> sound_outcomes rows V U \<Longrightarrow> sound_outcomes rows W U"
  unfolding sound_outcomes_def by metis

lemma sound_cleanup: "sound_outcomes rows W (cleanup s k W)"
  by (simp add: sound_outcomes_def)

lemma sound_timer: "sound_outcomes rows W (upd_wait w (\<lambda>x. x\<lparr>aw_timer := b\<rparr>) W)"
  by (simp add: sound_outcomes_def upd_wait_field[where h = aw_id] upd_wait_field[where h = aw_outcome])

lemma sound_settle:
  "w < length (aworld_waits W) \<Longrightarrow>
     (ao_approved out \<Longrightarrow> approved_in rows (aw_id (aworld_waits W ! w))) \<Longrightarrow>
     sound_outcomes rows W (settle w out W)"
  by (auto simp: sound_outcomes_def settle_outcome)

lemma approved_outcomeOf:
  "approvalGet k rows = Some r \<Longrightarrow> ao_approved (outcomeOf r) \<Longrightarrow> approved_in rows k"
  by (auto simp: approved_in_def outcomeOf_def dest: get_mem)

lemma safeGet_row: "safeGet s k fl W = Some r \<Longrightarrow> approvalGet k (aworld_rows W) = Some r"
  by (simp add: safeGet_def split: if_splits)

lemma waiter_named:
  assumes "maps_ok W" and "s < length (aworld_stores W)"
    and "map_of (as_waiters (aworld_stores W ! s)) k = Some w"
  shows "w < length (aworld_waits W)" "aw_store (aworld_waits W ! w) = s" "aw_id (aworld_waits W ! w) = k"
  using assms unfolding maps_ok_def named_def by blast+

lemma sound_record:
  assumes "maps_ok W" and "s < length (aworld_stores W)"
  shows "sound_outcomes (aworld_rows W) W (recordDecision s k fl W)"
proof (cases "\<exists>w row. map_of (as_waiters (aworld_stores W ! s)) k = Some w \<and>
    safeGet s k fl W = Some row \<and> \<not> pending_row row")
  case True
  then obtain w row where w: "map_of (as_waiters (aworld_stores W ! s)) k = Some w"
    and row: "safeGet s k fl W = Some row" "\<not> pending_row row" by blast
  have "sound_outcomes (aworld_rows W) (cleanup s k W) (settle w (outcomeOf row) (cleanup s k W))"
    using waiter_named[OF assms w] approved_outcomeOf[OF safeGet_row[OF row(1)]] by (intro sound_settle) auto
  then show ?thesis using w row sound_trans[OF sound_cleanup] by (simp add: recordDecision_def)
next
  case False
  then have "recordDecision s k fl W = W" by (auto simp: recordDecision_def split: option.splits)
  then show ?thesis by (simp add: sound_same)
qed

lemma record_then_settle:
  assumes "maps_ok W" and "s < length (aworld_stores W)" and "safeGet s k fl W = Some row"
    and "w < length (aworld_waits W)" and "aw_id (aworld_waits W ! w) = k"
  shows "sound_outcomes (aworld_rows W) W (settle w (outcomeOf row) (recordDecision s k fl W))"
proof (rule sound_trans[OF sound_record[OF assms(1,2)] sound_settle])
  show "w < length (aworld_waits (recordDecision s k fl W))" using assms by simp
  show "approved_in (aworld_rows W) (aw_id (aworld_waits (recordDecision s k fl W) ! w))"
    if "ao_approved (outcomeOf row)"
    using approved_outcomeOf[OF safeGet_row[OF assms(3)] that] assms by simp
qed

lemma decide_approves:
  assumes "approvalDecide k Approved ch u now rows = Some rows'"
  shows "approved_in rows' k"
proof -
  obtain r where r: "r \<in> set rows" "ap_id r = k" "pending_row r"
    and rows': "rows' = map (\<lambda>r. if ap_id r = k \<and> pending_row r then decided_row Approved ch u now r else r) rows"
    using assms by (auto simp: approvalDecide_def list_ex_iff split: if_splits)
  have "decided_row Approved ch u now r \<in> set rows'" using r by (force simp: rows')
  then show ?thesis using r by (auto simp: approved_in_def intro!: bexI[of _ "decided_row Approved ch u now r"])
qed

lemma decide_sound:
  assumes "maps_ok W" and "s < length (aworld_stores W)"
  shows "sound_outcomes (aworld_rows (snd (decide s k a ch u now fl W))) W (snd (decide s k a ch u now fl W))"
proof (cases "\<not> storeAlive s W \<or> f_write fl \<or>
    approvalDecide k (decision_of a) ch u now (aworld_rows W) = None")
  case True
  then have "snd (decide s k a ch u now fl W) = W" by (auto simp: decide_def split: option.split)
  then show ?thesis by (simp add: sound_same)
next
  case False
  then obtain rows where rows: "approvalDecide k (decision_of a) ch u now (aworld_rows W) = Some rows"
    by auto
  let ?V = "audit (Approval_decided k (decision_of a) ch u) fl (W\<lparr>aworld_rows := rows\<rparr>)"
  let ?out = "\<lparr> ao_approved = a, ao_timedOut = False, ao_decision = Some (decision_of a),
                ao_by = Some (ch, u), ao_latency = None \<rparr>"
  have V: "maps_ok ?V" "s < length (aworld_stores ?V)" "aworld_rows ?V = rows"
    using assms by (simp_all add: maps_ok_def)
  have here: "approved_in rows k" if a
    using rows that decide_approves by (simp add: decision_of_def)
  have same: "sound_outcomes rows W ?V" by (simp add: sound_same)
  show ?thesis
  proof (cases "map_of (as_waiters (aworld_stores ?V ! s)) k")
    case None
    then have "snd (decide s k a ch u now fl W) = ?V" using False rows by (simp add: decide_def Let_def)
    then show ?thesis using same by simp
  next
    case (Some w)
    note w = waiter_named[OF V(1,2) Some]
    show ?thesis
    proof (cases "safeGet s k fl ?V")
      case None
      have eq: "snd (decide s k a ch u now fl W) = settle w ?out ?V"
        using False rows Some None by (simp add: decide_def Let_def)
      have "sound_outcomes rows ?V (settle w ?out ?V)" using w here by (intro sound_settle) auto
      then show ?thesis using sound_trans[OF same] by (simp add: eq)
    next
      case (Some row)
      have eq: "snd (decide s k a ch u now fl W) = settle w (outcomeOf row) (recordDecision s k fl ?V)"
        using False rows Some \<open>map_of (as_waiters (aworld_stores ?V ! s)) k = Some w\<close>
        by (simp add: decide_def Let_def)
      have "sound_outcomes rows ?V (settle w (outcomeOf row) (recordDecision s k fl ?V))"
        using record_then_settle[OF V(1,2) Some w(1,3)] by simp
      then show ?thesis using sound_trans[OF same] by (simp add: eq)
    qed
  qed
qed

lemma expire_waits [simp]: "aworld_waits (snd (expire s k ttl now fl W)) = aworld_waits W"
  by (auto simp: expire_def Let_def split: option.split prod.split)

lemma timed_out_denies: "\<not> ao_approved (timed_out by latency)"
  by (simp add: timed_out_def)

lemma ttl_outcome_approved:
  "ao_approved (ttl_outcome ttl row) \<Longrightarrow> \<exists>r. row = Some r \<and> ao_approved (outcomeOf r)"
  by (auto simp: ttl_outcome_def timed_out_def split: option.splits if_splits)

lemma on_ttl_sound:
  assumes "w < length (aworld_waits W)"
  shows "sound_outcomes (aworld_rows (on_ttl w now fl W)) W (on_ttl w now fl W)"
proof -
  let ?x = "aworld_waits W ! w"
  let ?V = "snd (expire (aw_store ?x) (aw_id ?x) (aw_ttl ?x) now fl W)"
  let ?out = "ttl_outcome (aw_ttl ?x) (safeGet (aw_store ?x) (aw_id ?x) fl ?V)"
  have eq: "on_ttl w now fl W = settle w ?out ?V" by (simp add: on_ttl_def Let_def)
  have out: "approved_in (aworld_rows ?V) (aw_id ?x)" if "ao_approved ?out"
    using ttl_outcome_approved[OF that] approved_outcomeOf[OF safeGet_row] by blast
  have "sound_outcomes (aworld_rows ?V) W ?V" by (simp add: sound_same)
  moreover have "sound_outcomes (aworld_rows ?V) ?V (settle w ?out ?V)"
    using assms out by (intro sound_settle) auto
  ultimately show ?thesis using sound_trans by (simp add: eq)
qed

lemma sound_attach: "sound_outcomes rows W (attach s k ttl W)"
  by (auto simp: sound_outcomes_def nth_append less_Suc_eq)

lemma request_sound:
  assumes "request sha s inp k now fl W = (res, W')"
  shows "sound_outcomes rows W W'"
  using assms
proof (cases rule: request_cases)
  case (attached rows' e ttl)
  then show ?thesis using sound_trans[OF sound_same sound_attach] by simp
qed (simp_all add: sound_same)

lemma approver_sound: "sound_outcomes rows W (approver_call sha s opts req k now fl W)"
proof -
  obtain W' where W': "approver_call sha s opts req k now fl W = W'" by simp
  then have "sound_outcomes rows W W'"
  proof (cases rule: approver_cases)
    case refused
    then show ?thesis by (simp add: sound_same)
  next
    case (asked res V st)
    have "sound_outcomes rows (snd (approver_gate sha s opts req fl W)) V" by (rule request_sound[OF asked(2)])
    then have "sound_outcomes rows W V" by (simp add: sound_outcomes_def)
    then show ?thesis unfolding asked(3) by (simp add: sound_outcomes_def)
  qed
  then show ?thesis using W' by simp
qed

lemma sound_resolved:
  "(ao_approved out \<longrightarrow> approved_in rows k) \<Longrightarrow> sound_outcomes rows W (resolved s k out W)"
  by (auto simp: sound_outcomes_def nth_append less_Suc_eq)

lemma waitFor_sound: "sound_outcomes (aworld_rows W) W (waitFor s k fl W)"
  using approved_outcomeOf[of k "aworld_rows W"]
  by (auto simp: waitFor_def sound_attach sound_resolved timed_out_denies split: option.split)

lemma dispose_sound: "sound_outcomes rows W (dispose s W)"
proof -
  have "sound_outcomes rows V (fold (cleanup s) ks V)" for ks V
    by (induction ks arbitrary: V) (auto intro: sound_same sound_trans[OF sound_cleanup])
  then show ?thesis by (simp add: dispose_def Let_def sound_outcomes_def)
qed

lemma on_poll_sound:
  assumes "world_ok W" and "w < length (aworld_waits W)"
  shows "sound_outcomes (aworld_rows W) W (on_poll w fl W)"
proof -
  let ?x = "aworld_waits W ! w"
  have s: "maps_ok W" "aw_store ?x < length (aworld_stores W)" using assms by (auto simp: world_ok_def)
  show ?thesis
    using record_then_settle[OF s] assms(2)
    by (auto simp: on_poll_def Let_def sound_same split: option.split)
qed

lemma audits_waits [simp]:
  "aworld_waits (fold (\<lambda>r. audit (g r) fl) rs W) = aworld_waits W"
  by (induction rs arbitrary: W) simp_all

lemma quiet_waits [simp]:
  "aworld_waits (snd (getApprovalStore ws config W)) = aworld_waits W"
  "aworld_waits (snd (sweepExpired s now fl W)) = aworld_waits W"
  "aworld_waits (snd (purgeSession s session fl W)) = aworld_waits W"
  by (auto simp: getApprovalStore_def sweepExpired_def purgeSession_def Let_def
      split: option.split prod.split)

lemma outcomes_step:
  assumes ok: "world_ok W"
  shows "sound_outcomes (aworld_rows (apply_approval_op sha x W)) W (apply_approval_op sha x W)"
proof (cases x)
  case (Decide s k a ch u now fl)
  then show ?thesis using ok decide_sound[of W s k a ch u now fl]
    by (simp add: world_ok_def has_store_def sound_same)
next
  case (Ttl_fires w now fl)
  let ?V = "upd_wait w (\<lambda>x. x\<lparr>aw_timer := False\<rparr>) W"
  have "sound_outcomes (aworld_rows (on_ttl w now fl ?V)) ?V (on_ttl w now fl ?V)" if "armed_timer w W"
    using that by (intro on_ttl_sound) (simp add: armed_timer_def)
  then have "armed_timer w W \<Longrightarrow> sound_outcomes (aworld_rows (on_ttl w now fl ?V)) W (on_ttl w now fl ?V)"
    by (rule sound_trans[OF sound_timer])
  then show ?thesis using Ttl_fires by (simp add: sound_same)
next
  case (Poller_ticks w fl)
  then show ?thesis using on_poll_sound[OF ok, of w fl] by (simp add: armed_poller_def sound_same)
next
  case (Request s inp k now fl)
  obtain res V where "request sha s inp k now fl W = (res, V)" by (cases "request sha s inp k now fl W")
  from request_sound[OF this] show ?thesis using Request \<open>request sha s inp k now fl W = (res, V)\<close>
    by (simp add: sound_same)
next
  case (Prompt_throws c now fl)
  have "sound_outcomes (aworld_rows (prompt_throws c now fl W)) W (prompt_throws c now fl W)"
    if c: "c < length (aworld_calls W)"
  proof (cases "ac_state (aworld_calls W ! c)")
    case (Call_prompting w)
    let ?V = "snd (decide (ac_store (aworld_calls W ! c)) (aw_id (aworld_waits W ! w)) False ''surface_error'' None now fl W)"
    have eq: "aworld_waits (prompt_throws c now fl W) = aworld_waits ?V"
      "aworld_rows (prompt_throws c now fl W) = aworld_rows ?V"
      using Call_prompting by (simp_all add: prompt_throws_def)
    have "ac_store (aworld_calls W ! c) < length (aworld_stores W)"
      using ok c by (auto simp: world_ok_def)
    then have "sound_outcomes (aworld_rows ?V) W ?V"
      using ok by (intro decide_sound) (auto simp: world_ok_def)
    then show ?thesis using eq by (simp add: sound_outcomes_def)
  qed (simp_all add: prompt_throws_def sound_same)
  then show ?thesis using Prompt_throws by (simp add: sound_same)
qed (simp_all add: sound_same sound_attach approver_sound waitFor_sound dispose_sound
       resetApprovalStores_def)

text \<open>For one approval: no row and no outcome of it says approved.\<close>

definition not_approved :: "string \<Rightarrow> approval_world \<Rightarrow> bool" where
  "not_approved k W \<longleftrightarrow>
     \<not> approved_in (aworld_rows W) k \<and>
     (\<forall>v < length (aworld_waits W). aw_id (aworld_waits W ! v) = k \<longrightarrow>
        (\<forall>out. aw_outcome (aworld_waits W ! v) = Some out \<longrightarrow> \<not> ao_approved out))"

lemma not_approved_step:
  assumes "world_ok W" and "not_approved k W" and "\<not> grants k x W"
  shows "not_approved k (apply_approval_op sha x W)"
proof -
  have rows: "\<not> approved_in (aworld_rows (apply_approval_op sha x W)) k"
    using approved_step[OF assms(1)] assms(2,3) by (auto simp: not_approved_def)
  then show ?thesis
    using outcomes_step[OF assms(1), of sha x] assms(2)
    unfolding not_approved_def sound_outcomes_def by metis
qed

interpretation unapproved: guarded_machine "apply_approval_op sha" world_ok "\<lambda>x W. \<not> grants k x W" "not_approved k"
  for sha k
  by unfold_locales (auto intro: not_approved_step)

lemma no_approvals_unapproved: "not_approved k no_approvals"
  by (simp add: not_approved_def no_approvals_def approved_in_def)

lemma grants_elim:
  assumes "grants k x W"
  obtains s ch u now fl r where "x = Decide s k True ch u now fl"
    "approvalGet k (aworld_rows W) = Some r" "pending_row r"
  using assms by (cases "(k, x, W)" rule: grants.cases) auto

section \<open>The properties\<close>

abbreviation after :: "(string \<Rightarrow> string) \<Rightarrow> approval_op list \<Rightarrow> approval_world" where
  "after sha xs \<equiv> exec_ops (apply_approval_op sha) xs no_approvals"

text \<open>C7: an approver answers yes only when, at some earlier moment at which the durable row of
  its request was pending, somebody recorded a positive decision on it: whatever the
  interleaving of processes, timers, pollers, re-attached waiters, failing statements and
  closed stores, a silent approval does not exist.
\<close>

theorem approval_needs_a_decision:
  assumes "c < length (aworld_calls (after sha xs))"
    and "call_result (aworld_calls (after sha xs) ! c) (after sha xs) = Some True"
  shows "\<exists>w pre s channel user now fl post r.
     ac_state (aworld_calls (after sha xs) ! c) = Call_waits w \<and>
     xs = pre @ Decide s (aw_id (aworld_waits (after sha xs) ! w)) True channel user now fl # post \<and>
     approvalGet (aw_id (aworld_waits (after sha xs) ! w)) (aworld_rows (after sha pre)) = Some r \<and>
     pending_row r"
proof -
  let ?W = "after sha xs"
  have ok: "world_ok ?W" by (rule approval_machine.run_inv) simp
  obtain w out where w: "ac_state (aworld_calls ?W ! c) = Call_waits w"
    "aw_outcome (aworld_waits ?W ! w) = Some out" "ao_approved out"
    using assms(2) by (auto simp: call_result_def split: call_state.splits)
  have "call_wait (aworld_calls ?W ! c) = Some w" using w(1) by (simp add: call_wait_def)
  then have "w < length (aworld_waits ?W)" using ok assms(1) by (auto simp: world_ok_def)
  then have "\<not> not_approved (aw_id (aworld_waits ?W ! w)) ?W"
    using w by (auto simp: not_approved_def)
  then have "\<not> guarded_run (apply_approval_op sha) (\<lambda>x W. \<not> grants (aw_id (aworld_waits ?W ! w)) x W) xs no_approvals"
    using unapproved.run_guarded[OF no_approvals_ok no_approvals_unapproved] by blast
  from guarded_run_breaks[OF this] obtain pre x post
    where x: "xs = pre @ x # post" "grants (aw_id (aworld_waits ?W ! w)) x (after sha pre)" by blast
  from x(2) show ?thesis
    by (rule grants_elim) (use x(1) w(1) in blast)
qed

definition demo_input :: "ApproverSurfaceOptions" where
  "demo_input = \<lparr> opt_surface = ''cli'', opt_prompt = True, opt_task = None, opt_run = None, opt_session = Some ''s1'' \<rparr>"

definition demo_request :: approval_request where
  "demo_request =
     \<lparr> rq_tool = ''write_file'', rq_reason = ''save'', rq_args = No_args, rq_preview = None,
       rq_riskTier = None, rq_phrase = None, rq_task = None, rq_run = None, rq_session = None \<rparr>"

text \<open>Two processes on one file: the second one approves what the first one asks for.\<close>

definition demo_approval :: "approval_op list" where
  "demo_approval =
     [Open_workspace, Get_store 0 None, Open_workspace, Get_store 1 None,
      Approver_call 0 demo_input demo_request ''ap_1'' 1000 no_faults,
      Decide 1 ''ap_1'' True ''daemon'' None 2000 no_faults,
      Prompt_returns 0, Poller_ticks 0 no_faults]"

lemma demo_approval_result:
  "length (aworld_calls (after id demo_approval)) = 1 \<and>
   call_result (aworld_calls (after id demo_approval) ! 0) (after id demo_approval) = Some True"
  by code_simp

theorem approval_needs_a_decision_witness:
  "\<exists>w pre s channel user now fl post r.
     ac_state (aworld_calls (after id demo_approval) ! 0) = Call_waits w \<and>
     demo_approval = pre @ Decide s (aw_id (aworld_waits (after id demo_approval) ! w)) True channel user now fl # post \<and>
     approvalGet (aw_id (aworld_waits (after id demo_approval) ! w)) (aworld_rows (after id pre)) = Some r \<and>
     pending_row r"
  using demo_approval_result by (intro approval_needs_a_decision) auto

section \<open>Decided rows\<close>

text \<open>No statement but the purge of its session changes a row that is decided.\<close>

fun purges :: "ApprovalRow \<Rightarrow> approval_op \<Rightarrow> bool" where
  "purges r (Purge s session fl) \<longleftrightarrow> ap_session r = Some session"
| "purges r _ \<longleftrightarrow> False"

definition recorded :: "ApprovalRow \<Rightarrow> approval_world \<Rightarrow> bool" where
  "recorded r W \<longleftrightarrow> approvalGet (ap_id r) (aworld_rows W) = Some r \<and> \<not> pending_row r"

lemma recorded_rows:
  assumes "approvalGet k rows = Some r" and "\<not> pending_row r"
  shows "approvalInsert row rows = Some rows' \<Longrightarrow> approvalGet k rows' = Some r"
    and "approvalDecide j d ch u now rows = Some rows' \<Longrightarrow> approvalGet k rows' = Some r"
    and "approvalGet k (snd (approvalExpirePending now rows)) = Some r"
    and "distinct (map ap_id rows) \<Longrightarrow> ap_session r \<noteq> Some session \<Longrightarrow>
           approvalGet k (snd (approvalPurge session rows)) = Some r"
proof -
  show "approvalGet k rows' = Some r" if ins: "approvalInsert row rows = Some rows'"
  proof -
    have "ap_id row \<noteq> k"
      using ins get_mem[OF assms(1)] by (auto simp: approvalInsert_def list_ex_iff split: if_splits)
    then show ?thesis using get_insert[OF ins, of k] assms(1) by simp
  qed
  show "approvalGet k rows' = Some r" if "approvalDecide j d ch u now rows = Some rows'"
    using get_decide[OF that, of k] assms by simp
  show "approvalGet k (snd (approvalExpirePending now rows)) = Some r"
    using assms by (simp add: get_expire overdue_def)
  show "approvalGet k (snd (approvalPurge session rows)) = Some r"
    if "distinct (map ap_id rows)" "ap_session r \<noteq> Some session"
    using that assms mem_get[OF that(1)] get_mem[OF assms(1)]
    by (auto simp: approvalPurge_def intro!: get_filter) (metis option.inject)
qed

lemma recorded_change:
  "row_change x rows rows' \<Longrightarrow> distinct (map ap_id rows) \<Longrightarrow> approvalGet k rows = Some r \<Longrightarrow>
     \<not> pending_row r \<Longrightarrow> \<not> purges r x \<Longrightarrow> approvalGet k rows' = Some r"
proof (induction rule: row_change.induct)
  case (inserted row rows rows' x)
  show ?case by (rule recorded_rows(1)[OF inserted(4,5,1)])
next
  case (called j a ch u now rows rows' s fl)
  show ?case by (rule recorded_rows(2)[OF called(3,4,1)])
next
  case (denied j ch u now rows rows' x)
  show ?case by (rule recorded_rows(2)[OF denied(3,4,1)])
next
  case (expired x rows now)
  show ?case by (rule recorded_rows(3)[OF expired(2,3)])
next
  case (purged s session fl rows)
  then show ?case using recorded_rows(4)[OF purged(2,3,1)] by simp
qed

lemma recorded_step:
  assumes ok: "world_ok W" and rec: "recorded r W" and "\<not> purges r x"
  shows "recorded r (apply_approval_op sha x W)"
proof -
  have row: "approvalGet (ap_id r) (aworld_rows W) = Some r" "\<not> pending_row r"
    and ids: "distinct (map ap_id (aworld_rows W))"
    using ok rec by (simp_all add: recorded_def world_ok_def)
  have "approvalGet (ap_id r) (aworld_rows (apply_approval_op sha x W)) = Some r"
    by (rule recorded_change[OF rows_step ids row assms(3)])
  then show ?thesis using row by (simp add: recorded_def)
qed

interpretation decided_row_machine: protected_machine "apply_approval_op sha" world_ok "\<lambda>x. \<not> purges r x" "recorded r"
  for sha r
  by unfold_locales (auto intro: recorded_step)

text \<open>C22: consent is final: the row of an approval that has been decided (approved, denied or
  timed out) is the same row, with the same decision by the same user at the same time, after
  every further sequence of operations of all processes that does not purge its session.\<close>

theorem decided_rows_are_final:
  assumes "approvalGet k (aworld_rows (after sha xs)) = Some r" and "ap_decision r \<noteq> None"
    and "\<forall>y \<in> set ys. \<not> purges r y"
  shows "approvalGet k (aworld_rows (after sha (xs @ ys))) = Some r"
proof -
  have k: "ap_id r = k" using get_mem[OF assms(1)] by simp
  have "recorded r (after sha xs)" using assms k by (simp add: recorded_def pending_row_def)
  moreover have "world_ok (after sha xs)" by (rule approval_machine.run_inv) simp
  ultimately have "recorded r (after sha (xs @ ys))"
    using decided_row_machine.run_fact assms(3) by (simp add: exec_ops_append)
  then show ?thesis using k by (simp add: recorded_def)
qed

theorem decided_rows_are_final_witness:
  "approvalGet ''ap_1'' (aworld_rows (after id (demo_approval @
       [Decide 0 ''ap_1'' False ''cli'' None 3000 no_faults, Sweep 1 9000000 no_faults]))) =
   approvalGet ''ap_1'' (aworld_rows (after id demo_approval)) \<and>
   approvalGet ''ap_1'' (aworld_rows (after id demo_approval)) \<noteq> None"
proof -
  have "case approvalGet ''ap_1'' (aworld_rows (after id demo_approval)) of
      None \<Rightarrow> False | Some r \<Rightarrow> ap_decision r = Some Approved"
    by code_simp
  then obtain r where r: "approvalGet ''ap_1'' (aworld_rows (after id demo_approval)) = Some r"
    "ap_decision r \<noteq> None" by (auto split: option.splits)
  show ?thesis
    using decided_rows_are_final[OF r, of "[Decide 0 ''ap_1'' False ''cli'' None 3000 no_faults,
        Sweep 1 9000000 no_faults]"] r(1)
    by simp
qed

section \<open>Headless surfaces\<close>

text \<open>C27: a Tier-2 action that is asked for on a headless surface becomes a request only when the
  operator stored a confirmation phrase for exactly this tool and this surface, and when the
  caller gave a phrase, only when it has the stored hash; in all other cases, failing reads
  and a failing audit included, the call is refused and nothing is written to the approvals.\<close>

theorem headless_tier2_needs_a_phrase:
  assumes "isHeadlessSurface (Some (opt_surface opts))" and "isTier2Risk (rq_tool req) (rq_riskTier req)"
    and "approver_call sha s opts req k now fl W = W'"
  shows "(ac_state (last (aworld_calls W')) = Call_refused \<and> aworld_rows W' = aworld_rows W \<and>
            aworld_waits W' = aworld_waits W) \<or>
         (\<exists>rows r. aworld_typed W = Some rows \<and> r \<in> set rows \<and> tc_capability r = rq_tool req \<and>
            tc_surface r = opt_surface opts \<and>
            (\<forall>p. rq_phrase req = Some p \<longrightarrow> js_trim p \<noteq> [] \<longrightarrow> phraseHash sha p = tc_hash r))"
  using assms(3)
proof (cases rule: approver_cases)
  case refused
  then show ?thesis by simp
next
  case (asked res V st)
  then have "\<exists>b. gateHeadlessTier2 sha (aworld_typed W) (\<not> storeAlive s W \<or> f_read fl)
      (opt_surface opts) (rq_tool req) (rq_riskTier req) (rq_phrase req) = Gate_open b"
    using assms(1,2) by (auto simp: approver_gate_def Let_def split: if_splits TypedConfirmGate.splits)
  then show ?thesis by (elim exE open_gate[OF _ assms(1,2)]) blast
qed

definition cron_surface :: ApproverSurfaceOptions where
  "cron_surface = \<lparr> opt_surface = ''cron'', opt_prompt = False, opt_task = None, opt_run = None, opt_session = None \<rparr>"

definition shell_request :: approval_request where
  "shell_request = demo_request\<lparr>rq_tool := ''shell'', rq_phrase := Some ''deploy''\<rparr>"

definition headless_world :: approval_world where
  "headless_world = after id [Open_workspace, Get_store 0 None, Set_phrase ''shell'' ''cron'' ''deploy'' None 5]"

lemma headless_facts:
  "isHeadlessSurface (Some (opt_surface cron_surface)) \<and> isTier2Risk (rq_tool shell_request) (rq_riskTier shell_request) \<and>
   ac_state (last (aworld_calls (approver_call id 0 cron_surface shell_request ''ap_2'' 7 no_faults headless_world))) =
     Call_waits 0"
  by code_simp

theorem headless_tier2_needs_a_phrase_witness:
  "\<exists>rows r. aworld_typed headless_world = Some rows \<and> r \<in> set rows \<and>
     tc_capability r = rq_tool shell_request \<and> tc_surface r = opt_surface cron_surface \<and>
     (\<forall>p. rq_phrase shell_request = Some p \<longrightarrow> js_trim p \<noteq> [] \<longrightarrow> phraseHash id p = tc_hash r)"
  using headless_tier2_needs_a_phrase[of cron_surface shell_request id 0 "''ap_2''" 7 no_faults headless_world] headless_facts
  by auto

end
