(* ===== verification/Approval_Liveness.thy ===== *)
theory Approval_Liveness
  imports Approval_Properties
begin

text \<open>
  Every promise of the approval store that is attached once is settled by its timer, and runs
  of the store that show what the comments of \<open>src/src/control/approval-store.ts\<close> promise and
  the code does not: a promise that is attached a second time, a prompt that blocks the
  default denial, late approvals, outcomes that contradict the record, missing audits.
\<close>

section \<open>Attached promises\<close>

text \<open>An unsettled promise is in the maps of its store and its timer is armed.\<close>

definition attached :: "approval_world \<Rightarrow> nat \<Rightarrow> bool" where
  "attached W w \<longleftrightarrow>
     map_of (as_waiters (aworld_stores W ! aw_store (aworld_waits W ! w))) (aw_id (aworld_waits W ! w)) = Some w \<and>
     map_of (as_timers (aworld_stores W ! aw_store (aworld_waits W ! w))) (aw_id (aworld_waits W ! w)) = Some w \<and>
     aw_timer (aworld_waits W ! w)"

definition unsettled :: "approval_world \<Rightarrow> nat \<Rightarrow> bool" where
  "unsettled W w \<longleftrightarrow> w < length (aworld_waits W) \<and> aw_outcome (aworld_waits W ! w) = None"

definition live_but :: "nat set \<Rightarrow> approval_world \<Rightarrow> bool" where
  "live_but X W \<longleftrightarrow> (\<forall>w. unsettled W w \<longrightarrow> w \<notin> X \<longrightarrow> attached W w)"

text \<open>Two unsettled promises of one store are for different approvals.\<close>

lemma attached_unique:
  "attached W v \<Longrightarrow> attached W w \<Longrightarrow> aw_store (aworld_waits W ! v) = aw_store (aworld_waits W ! w) \<Longrightarrow>
     aw_id (aworld_waits W ! v) = aw_id (aworld_waits W ! w) \<Longrightarrow> v = w"
  by (simp add: attached_def)

lemma unsettled_simps [simp]:
  "unsettled (cleanup s k W) = unsettled W" "unsettled (audit e fl W) = unsettled W"
  "unsettled (W\<lparr>aworld_rows := rows\<rparr>) = unsettled W"
  "unsettled (upd_wait w (\<lambda>x. x\<lparr>aw_timer := b\<rparr>) W) = unsettled W"
  by (auto simp: unsettled_def fun_eq_iff upd_wait_field[where h = aw_outcome])

lemma live_same:
  "aworld_waits W' = aworld_waits W \<Longrightarrow> aworld_stores W' = aworld_stores W \<Longrightarrow> live_but X W' = live_but X W"
  by (simp add: live_but_def unsettled_def attached_def)

lemma live_frame:
  "live_but X W \<Longrightarrow> aworld_waits W' = aworld_waits W \<Longrightarrow> aworld_stores W' = aworld_stores W \<Longrightarrow> live_but X W'"
  by (simp add: live_but_def unsettled_def attached_def)

lemma timer_after_cleanup:
  assumes "maps_ok W" and "s < length (aworld_stores W)"
    and "aw_store (aworld_waits W ! v) \<noteq> s \<or> aw_id (aworld_waits W ! v) \<noteq> k"
  shows "aw_timer (aworld_waits (cleanup s k W) ! v) = aw_timer (aworld_waits W ! v)"
proof (cases "map_of (as_timers (aworld_stores W ! s)) k")
  case None
  then have "clear_timer s k W = W" by (simp add: clear_timer_def)
  then show ?thesis by (simp add: cleanup_def clear_fields[where h = aw_timer])
next
  case (Some t)
  have "aw_store (aworld_waits W ! t) = s" "aw_id (aworld_waits W ! t) = k"
    using assms(1,2) Some unfolding maps_ok_def named_def by blast+
  then have "v \<noteq> t" using assms(3) by auto
  then have "aw_timer (aworld_waits (clear_timer s k W) ! v) = aw_timer (aworld_waits W ! v)"
    using Some by (simp add: clear_timer_def upd_wait_def)
  then show ?thesis by (simp add: cleanup_def clear_fields[where h = aw_timer])
qed

lemma live_cleanup:
  assumes "maps_ok W" and "s < length (aworld_stores W)" and "live_but X W"
    and "\<And>v. unsettled W v \<Longrightarrow> v \<notin> X \<Longrightarrow> aw_store (aworld_waits W ! v) = s \<Longrightarrow> aw_id (aworld_waits W ! v) = k \<Longrightarrow> False"
  shows "live_but X (cleanup s k W)"
  unfolding live_but_def
proof (intro allI impI)
  fix v assume v: "unsettled (cleanup s k W) v" "v \<notin> X"
  then have u: "unsettled W v" by simp
  then have at: "attached W v" using assms(3) v(2) by (simp add: live_but_def)
  have ne: "aw_store (aworld_waits W ! v) \<noteq> s \<or> aw_id (aworld_waits W ! v) \<noteq> k"
    using assms(4)[OF u v(2)] by blast
  then show "attached (cleanup s k W) v"
    using at timer_after_cleanup[OF assms(1,2) ne]
    by (auto simp: attached_def stores_cleanup forget_def delete_conv')
qed

lemma live_outcome:
  "live_but (insert w X) W \<Longrightarrow> w < length (aworld_waits W) \<Longrightarrow>
     live_but X (upd_wait w (\<lambda>x. x\<lparr>aw_outcome := Some out\<rparr>) W)"
  by (auto simp: live_but_def unsettled_def attached_def upd_wait_def nth_list_update split: if_splits)

text \<open>
  Settling the one unsettled promise of an approval, wherever its own entries have gone.
\<close>

lemma live_settle:
  assumes "world_ok W" and "w < length (aworld_waits W)" and "live_but {w} W"
    and only: "\<And>v. unsettled W v \<Longrightarrow> aw_store (aworld_waits W ! v) = aw_store (aworld_waits W ! w) \<Longrightarrow>
      aw_id (aworld_waits W ! v) = aw_id (aworld_waits W ! w) \<Longrightarrow> v = w"
  shows "live_but {} (settle w out W)"
proof (cases "aw_outcome (aworld_waits W ! w)")
  case (Some o')
  then have "\<not> unsettled W w" by (simp add: unsettled_def)
  then have "live_but {} W" using assms(3) by (auto simp: live_but_def)
  then show ?thesis using Some by (simp add: settle_def)
next
  case None
  let ?x = "aworld_waits W ! w" and ?V = "upd_wait w (\<lambda>x. x\<lparr>aw_outcome := Some out\<rparr>) W"
  have V: "live_but {} ?V" using live_outcome[of w "{}"] assms by simp
  have okV: "maps_ok ?V" "aw_store ?x < length (aworld_stores ?V)"
    using keeps_ok[OF keeps_outcome _ assms(1)] assms(1,2) by (auto simp: world_ok_def)
  have "v = w" if "unsettled ?V v" "aw_store (aworld_waits ?V ! v) = aw_store ?x" "aw_id (aworld_waits ?V ! v) = aw_id ?x" for v
    using that only[of v] assms(2)
    by (auto simp: unsettled_def upd_wait_def nth_list_update split: if_splits)
  moreover have "\<not> unsettled ?V w" using assms(2) by (simp add: unsettled_def upd_wait_def)
  ultimately have "live_but {} (cleanup (aw_store ?x) (aw_id ?x) ?V)"
    by (intro live_cleanup[OF okV V]) blast
  then show ?thesis using None by (simp add: settle_def Let_def)
qed

lemma live_unique:
  "live_but {} W \<Longrightarrow> unsettled W v \<Longrightarrow> unsettled W w \<Longrightarrow>
     aw_store (aworld_waits W ! v) = aw_store (aworld_waits W ! w) \<Longrightarrow>
     aw_id (aworld_waits W ! v) = aw_id (aworld_waits W ! w) \<Longrightarrow> v = w"
  using attached_unique unfolding live_but_def by blast

text \<open>Whatever promise of an approval is settled, the unsettled one, if any, is it.\<close>

lemma live_settle_own:
  assumes "world_ok W" and "w < length (aworld_waits W)" and "live_but {} W"
  shows "live_but {} (settle w out W)"
proof (cases "unsettled W w")
  case True
  then show ?thesis using assms live_unique[OF assms(3) _ True]
    by (intro live_settle) (auto simp: live_but_def)
next
  case False
  then have "settle w out W = W" using assms(2) by (auto simp: settle_def unsettled_def)
  then show ?thesis using assms by simp
qed

lemma live_record:
  assumes "world_ok W" and "s < length (aworld_stores W)" and "live_but {} W"
  shows "live_but {} (recordDecision s k fl W)"
proof (cases "\<exists>w row. map_of (as_waiters (aworld_stores W ! s)) k = Some w \<and>
    safeGet s k fl W = Some row \<and> \<not> pending_row row")
  case True
  then obtain w row where w: "map_of (as_waiters (aworld_stores W ! s)) k = Some w"
    and row: "safeGet s k fl W = Some row" "\<not> pending_row row" by blast
  have maps: "maps_ok W" using assms(1) by (simp add: world_ok_def)
  note named = waiter_named[OF maps assms(2) w]
  have only: "v = w" if "unsettled W v" "aw_store (aworld_waits W ! v) = s" "aw_id (aworld_waits W ! v) = k" for v
  proof -
    have "attached W v" using assms(3) that(1) by (simp add: live_but_def)
    then show ?thesis using that w by (simp add: attached_def)
  qed
  have "live_but {w} (cleanup s k W)"
    using assms(3) only by (intro live_cleanup[OF maps assms(2)]) (auto simp: live_but_def)
  then have "live_but {} (settle w (outcomeOf row) (cleanup s k W))"
    using keeps_ok[OF keeps_cleanup _ assms(1)] assms(1) named only
    by (intro live_settle) (auto simp: world_ok_def)
  then show ?thesis using w row by (simp add: recordDecision_def)
next
  case False
  then have "recordDecision s k fl W = W" by (auto simp: recordDecision_def split: option.splits)
  then show ?thesis using assms by simp
qed

lemma record_ok: "world_ok W \<Longrightarrow> world_ok (recordDecision s k fl W)"
  using keeps_ok[OF keeps_record] by (simp add: world_ok_def)

lemma live_record_settle:
  assumes "world_ok W" and "s < length (aworld_stores W)" and "live_but {} W" and "w < length (aworld_waits W)"
  shows "live_but {} (settle w out (recordDecision s k fl W))"
  using live_record[OF assms(1-3)] record_ok[OF assms(1)] assms(4) by (intro live_settle_own) auto

lemma decide_live:
  assumes "world_ok W" and "s < length (aworld_stores W)" and "live_but {} W"
  shows "live_but {} (snd (decide s k a ch u now fl W))"
proof (cases "\<not> storeAlive s W \<or> f_write fl \<or>
    approvalDecide k (decision_of a) ch u now (aworld_rows W) = None")
  case True
  then have "snd (decide s k a ch u now fl W) = W" by (auto simp: decide_def split: option.split)
  then show ?thesis using assms by simp
next
  case False
  then obtain rows where rows: "approvalDecide k (decision_of a) ch u now (aworld_rows W) = Some rows"
    by auto
  let ?V = "audit (Approval_decided k (decision_of a) ch u) fl (W\<lparr>aworld_rows := rows\<rparr>)"
  have "distinct (map ap_id rows)" using assms(1) decide_ids[OF rows] by (simp add: world_ok_def)
  then have ok: "world_ok ?V" using assms(1) by (simp add: world_ok_rows)
  have s: "s < length (aworld_stores ?V)" using assms(2) by simp
  have live: "live_but {} ?V" using assms(3) by (simp add: live_same[of ?V W])
  have maps: "maps_ok ?V" using ok by (simp add: world_ok_def)
  have ends: "live_but {} (settle w out ?V) \<and> live_but {} (settle w out (recordDecision s k fl ?V))"
    if "map_of (as_waiters (aworld_stores ?V ! s)) k = Some w" for w out
    using live_settle_own[OF ok _ live] live_record_settle[OF ok s live] waiter_named(1)[OF maps s that] by blast
  show ?thesis
  proof (cases "map_of (as_waiters (aworld_stores ?V ! s)) k")
    case None
    then have "snd (decide s k a ch u now fl W) = ?V" using False rows by (simp add: decide_def Let_def)
    then show ?thesis using live by simp
  next
    case (Some w)
    note fin = ends[OF Some]
    show ?thesis
    proof (cases "safeGet s k fl ?V")
      case None
      have "snd (decide s k a ch u now fl W) = settle w \<lparr> ao_approved = a, ao_timedOut = False,
          ao_decision = Some (decision_of a), ao_by = Some (ch, u), ao_latency = None \<rparr> ?V"
        using False rows Some None by (simp add: decide_def Let_def)
      then show ?thesis using fin by simp
    next
      case row: (Some row)
      have "snd (decide s k a ch u now fl W) = settle w (outcomeOf row) (recordDecision s k fl ?V)"
        using False rows Some row by (simp add: decide_def Let_def)
      then show ?thesis using fin by simp
    qed
  qed
qed

lemma expire_stores [simp]: "aworld_stores (snd (expire s k ttl now fl W)) = aworld_stores W"
  by (auto simp: expire_def Let_def split: option.split prod.split)

lemma audits_stores [simp]:
  "aworld_stores (fold (\<lambda>r. audit (g r) fl) rs W) = aworld_stores W"
  by (induction rs arbitrary: W) simp_all

lemma quiet_stores [simp]:
  "aworld_stores (snd (sweepExpired s now fl W)) = aworld_stores W"
  "aworld_stores (snd (purgeSession s session fl W)) = aworld_stores W"
  by (auto simp: sweepExpired_def purgeSession_def Let_def split: prod.split)

text \<open>The timer that fires belongs to a promise; if it was unsettled it is settled now.\<close>

lemma on_ttl_live:
  assumes ok: "world_ok W" and w: "w < length (aworld_waits W)" and "live_but {} W"
  shows "live_but {} (on_ttl w now fl (upd_wait w (\<lambda>x. x\<lparr>aw_timer := False\<rparr>) W))"
proof -
  let ?U = "upd_wait w (\<lambda>x. x\<lparr>aw_timer := False\<rparr>) W"
  let ?x = "aworld_waits ?U ! w"
  let ?V = "snd (expire (aw_store ?x) (aw_id ?x) (aw_ttl ?x) now fl ?U)"
  have okU: "world_ok ?U" using keeps_ok[OF keeps_timer _ ok] ok by (simp add: world_ok_def)
  then have "distinct (map ap_id (aworld_rows ?U))" by (simp add: world_ok_def)
  then have okV: "world_ok ?V" by (intro keeps_ok[OF expire_keeps _ okU] ids_simps)
  have V: "aworld_waits ?V = aworld_waits ?U" "aworld_stores ?V = aworld_stores W" by simp_all
  have "live_but {w} ?U"
    using assms(3) by (auto simp: live_but_def attached_def unsettled_def upd_wait_def nth_list_update)
  then have live: "live_but {w} ?V" by (simp add: live_same[of ?V ?U])
  have only: "v = w" if "unsettled ?V v" "aw_store (aworld_waits ?V ! v) = aw_store (aworld_waits ?V ! w)"
    "aw_id (aworld_waits ?V ! v) = aw_id (aworld_waits ?V ! w)" "unsettled W w" for v
  proof (rule live_unique[OF assms(3) _ that(4)])
    show "unsettled W v" using that(1) by (simp add: unsettled_def upd_wait_field[where h = aw_outcome])
  qed (use that in \<open>simp_all add: upd_wait_field[where h = aw_id] upd_wait_field[where h = aw_store]\<close>)
  have "live_but {} (settle w out ?V)" for out
  proof (cases "unsettled W w")
    case True
    then show ?thesis using only w by (intro live_settle[OF okV _ live]) simp_all
  next
    case False
    then have "\<not> unsettled ?V w" by (simp add: unsettled_def upd_wait_field[where h = aw_outcome])
    then have "live_but {} ?V" "settle w out ?V = ?V"
      using live w by (auto simp: live_but_def settle_def unsettled_def Let_def)
    then show ?thesis by simp
  qed
  then show ?thesis by (simp add: on_ttl_def Let_def)
qed

lemma on_poll_live:
  assumes "world_ok W" and "w < length (aworld_waits W)" and "live_but {} W"
  shows "live_but {} (on_poll w fl W)"
proof -
  have "aw_store (aworld_waits W ! w) < length (aworld_stores W)" using assms by (simp add: world_ok_def)
  then show ?thesis
    using assms live_record_settle[OF assms(1) _ assms(3,2)]
    by (simp add: on_poll_def Let_def split: option.split)
qed

definition nobody_waits :: "nat \<Rightarrow> string \<Rightarrow> approval_world \<Rightarrow> bool" where
  "nobody_waits s k W \<longleftrightarrow>
     (\<forall>w. unsettled W w \<longrightarrow> \<not> (aw_store (aworld_waits W ! w) = s \<and> aw_id (aworld_waits W ! w) = k))"

lemma attach_live:
  assumes "world_ok W" and "s < length (aworld_stores W)" and "live_but {} W" and "nobody_waits s k W"
  shows "live_but {} (attach s k ttl W)"
  unfolding live_but_def
proof (intro allI impI)
  fix w assume w: "unsettled (attach s k ttl W) w"
  show "attached (attach s k ttl W) w"
  proof (cases "w = length (aworld_waits W)")
    case True
    then show ?thesis using assms(2)
      by (simp add: attached_def attach_def Let_def upd_store_def update_conv')
  next
    case False
    then have u: "unsettled W w" using w by (auto simp: unsettled_def nth_append less_Suc_eq)
    then have lt: "w < length (aworld_waits W)" and at: "attached W w"
      using assms(3) by (simp_all add: unsettled_def live_but_def)
    have ne: "\<not> (aw_store (aworld_waits W ! w) = s \<and> aw_id (aworld_waits W ! w) = k)"
      using assms(4) u by (simp add: nobody_waits_def)
    show ?thesis
      using at ne lt assms(2)
      by (cases "aw_store (aworld_waits W ! w) = s")
        (auto simp: attached_def attach_def Let_def upd_store_def update_conv' nth_append)
  qed
qed

lemma resolved_live: "world_ok W \<Longrightarrow> live_but {} W \<Longrightarrow> live_but {} (resolved s k out W)"
  by (auto simp: live_but_def unsettled_def attached_def nth_append less_Suc_eq)

section \<open>Every promise is answered\<close>

text \<open>
  The discipline: an approval is not attached again to a store in which an earlier promise of
  it is still open, and stores are not disposed of.
\<close>

fun attach_once :: "approval_op \<Rightarrow> approval_world \<Rightarrow> bool" where
  "attach_once (Wait_for s k fl) W = nobody_waits s k W"
| "attach_once (Request s inp k now fl) W = nobody_waits s k W"
| "attach_once (Approver_call s opts req k now fl) W = nobody_waits s k W"
| "attach_once (Dispose s) W = False"
| "attach_once _ W = True"

lemma request_live:
  assumes "world_ok W" and "s < length (aworld_stores W)" and "live_but {} W" and "nobody_waits s k W"
    and "request sha s inp k now fl W = (res, W')"
  shows "live_but {} W'"
  using assms(5)
proof (cases rule: request_cases)
  case nothing
  then show ?thesis using assms by simp
next
  case (row_only rows)
  show ?thesis by (rule live_frame[OF assms(3)]) (simp_all add: row_only)
next
  case (attached rows e ttl)
  let ?V = "audit e fl (W\<lparr>aworld_rows := rows\<rparr>)"
  have "distinct (map ap_id rows)" using attached(3) assms(1) insert_ids by (auto simp: world_ok_def)
  then have "world_ok ?V" using assms(1) by (simp add: world_ok_rows)
  moreover have "nobody_waits s k ?V" using assms(4) by (simp add: nobody_waits_def)
  ultimately show ?thesis unfolding attached(2)
    using assms by (intro attach_live) (simp_all add: live_same[of ?V W])
qed

lemma approver_live:
  assumes "world_ok W" and "s < length (aworld_stores W)" and "live_but {} W" and "nobody_waits s k W"
  shows "live_but {} (approver_call sha s opts req k now fl W)"
proof -
  let ?G = "snd (approver_gate sha s opts req fl W)"
  have G: "world_ok ?G" "nobody_waits s k ?G"
    using assms by (simp_all add: nobody_waits_def unsettled_def)
  have live: "live_but {} ?G" by (rule live_frame[OF assms(3)]) simp_all
  obtain W' where W': "approver_call sha s opts req k now fl W = W'" by simp
  then have "live_but {} W'"
  proof (cases rule: approver_cases)
    case refused
    show ?thesis by (rule live_frame[OF live]) (simp_all add: refused)
  next
    case (asked res V st)
    have "live_but {} V" using request_live[OF G(1) _ live G(2) asked(2)] assms(2) by simp
    then show ?thesis by (rule live_frame) (simp_all add: asked(3))
  qed
  then show ?thesis using W' by simp
qed

lemma get_store_live:
  assumes "world_ok W" and "live_but {} W"
  shows "live_but {} (snd (getApprovalStore ws config W))"
proof -
  let ?V = "snd (getApprovalStore ws config W)"
  have maps: "as_waiters (aworld_stores ?V ! t) = as_waiters (aworld_stores W ! t)"
    "as_timers (aworld_stores ?V ! t) = as_timers (aworld_stores W ! t)" if "t < length (aworld_stores W)" for t
    using that by (auto simp: getApprovalStore_def nth_append upd_store_field reconfigure_def split: option.split)
  have "unsettled ?V = unsettled W" by (simp add: unsettled_def fun_eq_iff)
  then show ?thesis using assms maps
    by (simp add: live_but_def attached_def world_ok_def unsettled_def)
qed

lemma prompt_throws_live:
  assumes "world_ok W" and "c < length (aworld_calls W)" and "live_but {} W"
  shows "live_but {} (prompt_throws c now fl W)"
proof (cases "ac_state (aworld_calls W ! c)")
  case (Call_prompting w)
  let ?V = "snd (decide (ac_store (aworld_calls W ! c)) (aw_id (aworld_waits W ! w)) False ''surface_error'' None now fl W)"
  have "ac_store (aworld_calls W ! c) < length (aworld_stores W)" using assms(1,2) by (auto simp: world_ok_def)
  then have "live_but {} ?V" using assms by (intro decide_live)
  then show ?thesis by (rule live_frame) (simp_all add: prompt_throws_def Call_prompting)
qed (use assms in \<open>simp_all add: prompt_throws_def\<close>)

lemma live_step:
  assumes ok: "world_ok W" and live: "live_but {} W" and "attach_once x W"
  shows "live_but {} (apply_approval_op sha x W)"
proof (cases x)
  case (Decide s k a ch u now fl)
  then show ?thesis using live decide_live[OF ok _ live] by (simp add: has_store_def)
next
  case (Ttl_fires w now fl)
  then show ?thesis using live on_ttl_live[OF ok _ live] by (simp add: armed_timer_def)
next
  case (Poller_ticks w fl)
  then show ?thesis using live on_poll_live[OF ok _ live] by (simp add: armed_poller_def)
next
  case (Request s inp k now fl)
  obtain res V where r: "request sha s inp k now fl W = (res, V)" by (cases "request sha s inp k now fl W")
  then show ?thesis using Request live assms(3) request_live[OF ok _ live _ r] by (simp add: has_store_def)
next
  case (Wait_for s k fl)
  then show ?thesis using ok live assms(3)
    by (auto simp: waitFor_def has_store_def attach_live resolved_live split: option.split)
next
  case (Approver_call s opts req k now fl)
  then show ?thesis using ok live assms(3) by (simp add: approver_live has_store_def)
next
  case (Prompt_throws c now fl)
  then show ?thesis using ok live by (simp add: prompt_throws_live)
next
  case (Get_store ws config)
  then show ?thesis using ok live by (simp add: get_store_live)
next
  case (Dispose s)
  then show ?thesis using assms(3) by simp
qed (use live_frame[OF live] live in \<open>simp_all add: resetApprovalStores_def\<close>)

interpretation attached_once: guarded_machine "apply_approval_op sha" world_ok attach_once "live_but {}" for sha
  by unfold_locales (auto intro: live_step)

lemma settle_settles:
  "w < length (aworld_waits W) \<Longrightarrow> \<exists>out'. aw_outcome (aworld_waits (settle w out W) ! w) = Some out' \<and>
     (aw_outcome (aworld_waits W ! w) = None \<longrightarrow> out' = out)"
  by (auto simp: settle_outcome)

text \<open>C29: no promise is forgotten: when every approval is attached once and no store is disposed of,
  a promise that is still open has its timer armed, and whenever that timer fires, whatever the
  clock says, with any statement failing and the store closed or not, the promise is settled;
  the promise of a request is then settled as a denial. (\<open>dispose\<close> clears the timers and the
  waiters of a store without settling its promises: \<open>dispose_forgets_promises\<close>.)\<close>

theorem pending_approvals_are_answered:
  assumes "guarded_run (apply_approval_op sha) attach_once xs no_approvals"
    and "w < length (aworld_waits (after sha xs))" and "aw_outcome (aworld_waits (after sha xs) ! w) = None"
  shows "aw_timer (aworld_waits (after sha xs) ! w) \<and>
    (\<exists>out. aw_outcome (aworld_waits (after sha (xs @ [Ttl_fires w now fl])) ! w) = Some out \<and>
       (aw_ttl (aworld_waits (after sha xs) ! w) \<noteq> None \<longrightarrow> \<not> ao_approved out))"
proof -
  let ?W = "after sha xs" and ?U = "upd_wait w (\<lambda>x. x\<lparr>aw_timer := False\<rparr>) (after sha xs)"
  have "live_but {} no_approvals" by (simp add: live_but_def unsettled_def no_approvals_def)
  then have "live_but {} ?W" using attached_once.run_guarded assms(1) by simp
  then have timer: "aw_timer (aworld_waits ?W ! w)"
    using assms(2,3) by (simp add: live_but_def unsettled_def attached_def)
  let ?x = "aworld_waits ?U ! w"
  let ?V = "snd (expire (aw_store ?x) (aw_id ?x) (aw_ttl ?x) now fl ?U)"
  let ?out = "ttl_outcome (aw_ttl ?x) (safeGet (aw_store ?x) (aw_id ?x) fl ?V)"
  have "after sha (xs @ [Ttl_fires w now fl]) = settle w ?out ?V"
    using timer assms(2) by (simp add: exec_ops_append armed_timer_def on_ttl_def Let_def)
  moreover have "aw_outcome (aworld_waits (settle w ?out ?V) ! w) = Some ?out"
    using assms(2,3) by (simp add: settle_outcome upd_wait_field[where h = aw_outcome])
  moreover have "\<not> ao_approved ?out" if "aw_ttl (aworld_waits ?W ! w) \<noteq> None"
    using that by (auto simp: ttl_outcome_def timed_out_def upd_wait_field[where h = aw_ttl])
  ultimately show ?thesis using timer by simp
qed

definition ask :: "string \<Rightarrow> int \<Rightarrow> approval_op" where
  "ask k now = Request 0 \<lparr> ri_task = None, ri_run = None, ri_session = None, ri_tool = ''write_file'',
     ri_reason = [], ri_args = No_args, ri_preview = None, ri_riskTier = None, ri_surface = ''cli'',
     ri_ttlMs = None \<rparr> k now no_faults"

definition opened :: "approval_op list" where
  "opened = [Open_workspace, Get_store 0 None, Open_workspace, Get_store 1 None]"

lemma two_asked:
  "guarded_run (apply_approval_op id) attach_once (opened @ [ask ''a'' 1000, ask ''b'' 2000]) no_approvals \<longleftrightarrow> True"
  by (simp add: opened_def ask_def nobody_waits_def unsettled_def no_approvals_def getApprovalStore_def
      new_approval_store_def has_store_def request_def requested_row_def storeAlive_def no_faults_def
      approvalInsert_def attach_def audit_def upd_store_def Let_def less_Suc_eq nth_append)

lemma two_open:
  "length (aworld_waits (after id (opened @ [ask ''a'' 1000, ask ''b'' 2000]))) = 2 \<and>
   aw_outcome (aworld_waits (after id (opened @ [ask ''a'' 1000, ask ''b'' 2000])) ! 1) = None \<and>
   aw_ttl (aworld_waits (after id (opened @ [ask ''a'' 1000, ask ''b'' 2000])) ! 1) = Some 300000"
  by code_simp

theorem pending_approvals_are_answered_witness:
  "\<exists>out. aw_outcome (aworld_waits (after id ((opened @ [ask ''a'' 1000, ask ''b'' 2000]) @
       [Ttl_fires 1 302000 no_faults])) ! 1) = Some out \<and> \<not> ao_approved out"
  using pending_approvals_are_answered[of id "opened @ [ask ''a'' 1000, ask ''b'' 2000]" 1 302000 no_faults]
    two_asked two_open
  by auto

section \<open>Where the store does not do what its comments say\<close>

text \<open>
  \<open>request\<close> and \<open>waitFor\<close> of one approval in one process: the timer of the first settles its own
  promise and clears the timer, the poller and the waiter of the second, which is never settled.
\<close>

lemma second_waiter_hangs:
  "let W = after id (opened @ [ask ''a'' 1000, Wait_for 0 ''a'' no_faults, Ttl_fires 0 301000 no_faults]) in
     map (map_option ao_timedOut \<circ> aw_outcome) (aworld_waits W) = [Some True, None] \<and>
     \<not> aw_timer (aworld_waits W ! 1) \<and> \<not> aw_poller (aworld_waits W ! 1) \<and>
     as_waiters (aworld_stores W ! 0) = []"
  by code_simp

text \<open>Disposing of a store leaves its open promises without timer, poller and waiter.\<close>

lemma dispose_forgets_promises:
  "let W = after id (opened @ [ask ''a'' 1000, Dispose 0]) in
     aw_outcome (aworld_waits W ! 0) = None \<and> \<not> aw_timer (aworld_waits W ! 0) \<and>
     \<not> aw_poller (aworld_waits W ! 0) \<and> as_waiters (aworld_stores W ! 0) = []"
  by code_simp

text \<open>The poller and the timer of the first promise stay armed after both are settled.\<close>

lemma handles_outlive_the_decision:
  "let W = after id (opened @ [ask ''a'' 1000, Wait_for 0 ''a'' no_faults,
             Decide 0 ''a'' True ''cli'' None 2000 no_faults, Poller_ticks 0 no_faults]) in
     map (map_option ao_approved \<circ> aw_outcome) (aworld_waits W) = [Some True, Some True] \<and>
     aw_timer (aworld_waits W ! 0) \<and> aw_poller (aworld_waits W ! 0)"
  by code_simp

text \<open>An approver that prompts answers only after its prompt has, long after the deadline.\<close>

lemma prompt_blocks_the_default_denial:
  "let W = after id (opened @ [Approver_call 0 demo_input demo_request ''a'' 1000 no_faults,
             Ttl_fires 0 301000 no_faults]) in
     map_option ao_timedOut (aw_outcome (aworld_waits W ! 0)) = Some True \<and>
     call_result (aworld_calls W ! 0) W = None"
  by code_simp

text \<open>\<open>approvalDecide\<close> does not look at the deadline.\<close>

lemma late_approval_counts:
  "let W = after id (opened @ [ask ''a'' 1000, Decide 1 ''a'' True ''daemon'' None 99999999 no_faults,
             Wait_for 1 ''a'' no_faults]) in
     map_option ao_approved (aw_outcome (aworld_waits W ! 1)) = Some True"
  by code_simp

text \<open>
  A decision of another process within the last poll interval: the record says approved, the
  requester is told that the request timed out.
\<close>

lemma outcome_contradicts_the_record:
  "let W = after id (opened @ [ask ''a'' 1000, Decide 1 ''a'' True ''daemon'' None 300950 no_faults,
             Ttl_fires 0 301000 no_faults]) in
     map_option ap_decision (approvalGet ''a'' (aworld_rows W)) = Some (Some Approved) \<and>
     map_option ao_decision (aw_outcome (aworld_waits W ! 0)) = Some (Some Timed_out)"
  by code_simp

text \<open>The expiry of one approval expires all that are due and audits the one.\<close>

lemma expiry_of_others_is_not_audited:
  "let W = after id (opened @ [ask ''a'' 1000, ask ''b'' 1500, Ttl_fires 0 302000 no_faults]) in
     map ap_decision (aworld_rows W) = [Some Timed_out, Some Timed_out] \<and>
     filter (\<lambda>e. case e of Approval_timed_out k t \<Rightarrow> True | _ \<Rightarrow> False) (aworld_audit W) =
       [Approval_timed_out ''a'' 300000]"
  by code_simp

end
