(* ===== verification/Exec_Checkpoint.thy ===== *)
theory Exec_Checkpoint
  imports Exec_Types
begin

text \<open>
  Checkpoints (\<open>src/execution/checkpoint.ts\<close>): kinds and their side-effect safety,
  structural validation, creation with a bounded payload, the latest checkpoint of a run,
  and pruning. A table is the list of its rows in rowid order; a JSON column holds the
  parsed value or \<open>Unparsable\<close> text. A \<open>bool\<close> argument named \<open>fails\<close> says that the
  statement throws, which the code catches.
\<close>

section \<open>Kinds and side-effect safety\<close>

datatype checkpoint_kind =
    CP_task_accepted | CP_plan_recorded | CP_policy_admitted | CP_env_admitted
  | CP_step_started | CP_step_completed | CP_model_turn_completed | CP_tool_call_completed
  | CP_cancellation_requested | CP_review_checkpoint_reached | CP_cleanup_completed
  | CP_recovery_decided | CP_unknown string

definition CHECKPOINT_KINDS :: "checkpoint_kind list" where
  "CHECKPOINT_KINDS =
     [CP_task_accepted, CP_plan_recorded, CP_policy_admitted, CP_env_admitted, CP_step_started,
      CP_step_completed, CP_model_turn_completed, CP_tool_call_completed,
      CP_cancellation_requested, CP_review_checkpoint_reached, CP_cleanup_completed,
      CP_recovery_decided]"

definition ALWAYS_SAFE_KINDS :: "checkpoint_kind list" where
  "ALWAYS_SAFE_KINDS =
     [CP_task_accepted, CP_plan_recorded, CP_policy_admitted, CP_env_admitted,
      CP_review_checkpoint_reached, CP_cleanup_completed, CP_recovery_decided]"

definition IDEMPOTENCY_DEPENDENT_KINDS :: "checkpoint_kind list" where
  "IDEMPOTENCY_DEPENDENT_KINDS =
     [CP_step_started, CP_step_completed, CP_model_turn_completed, CP_tool_call_completed]"

definition isSideEffectSafe :: "checkpoint_kind \<Rightarrow> idempotency_class option \<Rightarrow> bool" where
  "isSideEffectSafe kind idem =
     (if kind \<in> set ALWAYS_SAFE_KINDS then True
      else if kind \<in> set IDEMPOTENCY_DEPENDENT_KINDS
      then idem = Some Naturally_idempotent \<or> idem = Some Idempotent_with_key
      else False)"

fun kind_str :: "checkpoint_kind \<Rightarrow> string" where
  "kind_str CP_task_accepted = ''task_accepted''"
| "kind_str CP_plan_recorded = ''plan_recorded''"
| "kind_str CP_policy_admitted = ''policy_admitted''"
| "kind_str CP_env_admitted = ''env_admitted''"
| "kind_str CP_step_started = ''step_started''"
| "kind_str CP_step_completed = ''step_completed''"
| "kind_str CP_model_turn_completed = ''model_turn_completed''"
| "kind_str CP_tool_call_completed = ''tool_call_completed''"
| "kind_str CP_cancellation_requested = ''cancellation_requested''"
| "kind_str CP_review_checkpoint_reached = ''review_checkpoint_reached''"
| "kind_str CP_cleanup_completed = ''cleanup_completed''"
| "kind_str CP_recovery_decided = ''recovery_decided''"
| "kind_str (CP_unknown s) = s"

section \<open>Checkpoints and their validation\<close>

record execution_checkpoint =
  cp_checkpointId :: string
  cp_runId :: string
  cp_workflowId :: "string option"
  cp_taskId :: "string option"
  cp_kind :: checkpoint_kind
  cp_sideEffectSafe :: bool
  cp_authoritySnapshot :: "json option"
  cp_environmentRef :: "string option"
  cp_executionState :: exec_state
  cp_progressSummary :: string
  cp_payload :: json
  cp_attempt :: int
  cp_createdAt :: int

datatype checkpoint_defect =
    NoCheckpoint | UnknownKind checkpoint_kind | MissingRunId | InvalidCreatedAt
  | PayloadNotObject | AuthorityMalformed | CredentialRefsMalformed

datatype checkpoint_validation = CpValid | CpInvalid checkpoint_defect

fun is_JStr :: "json \<Rightarrow> bool" where "is_JStr (JStr s) = True" | "is_JStr _ = False"
fun is_JNum :: "json \<Rightarrow> bool" where "is_JNum (JNum n) = True" | "is_JNum _ = False"
fun is_JArr :: "json \<Rightarrow> bool" where "is_JArr (JArr xs) = True" | "is_JArr _ = False"

text \<open>\<open>typeof v === "object"\<close> and not null: objects and arrays.\<close>

fun is_object :: "json \<Rightarrow> bool" where
  "is_object (JObj fs) = True" | "is_object (JArr xs) = True" | "is_object _ = False"

definition verifyCheckpoint :: "execution_checkpoint option \<Rightarrow> checkpoint_validation" where
  "verifyCheckpoint cpo =
     (case cpo of
        None \<Rightarrow> CpInvalid NoCheckpoint
      | Some cp \<Rightarrow>
          if cp_kind cp \<notin> set CHECKPOINT_KINDS then CpInvalid (UnknownKind (cp_kind cp))
          else if cp_runId cp = [] then CpInvalid MissingRunId
          else if cp_createdAt cp \<le> 0 then CpInvalid InvalidCreatedAt
          else if \<not> is_object (cp_payload cp) then CpInvalid PayloadNotObject
          else case cp_authoritySnapshot cp of
              None \<Rightarrow> CpValid
            | Some a \<Rightarrow>
                if \<not> json_truthy a then CpValid
                else if \<not> is_JStr (json_field a ''policyVersion'') \<or>
                        \<not> is_JStr (json_field a ''placement'') \<or>
                        \<not> is_JNum (json_field a ''checkedAt'')
                then CpInvalid AuthorityMalformed
                else if \<not> is_JArr (json_field a ''credentialRefs'')
                then CpInvalid CredentialRefsMalformed
                else CpValid)"

section \<open>The table\<close>

datatype json_column = Column json | Unparsable

record checkpoint_row =
  row_checkpoint_id :: string
  row_run_id :: string
  row_workflow_id :: "string option"
  row_task_id :: "string option"
  row_kind :: checkpoint_kind
  row_side_effect_safe :: int
  row_authority_snapshot :: "json_column option"
  row_environment_ref :: "string option"
  row_execution_state :: exec_state
  row_progress_summary :: string
  row_payload_json :: json_column
  row_attempt :: int
  row_created_at :: int

definition MAX_CHECKPOINT_PAYLOAD_CHARS :: nat where "MAX_CHECKPOINT_PAYLOAD_CHARS = 8000"
definition CHECKPOINT_RETENTION_MS :: int where "CHECKPOINT_RETENTION_MS = 7 * 24 * 60 * 60 * 1000"

text \<open>
  \<open>boundPayload\<close> as the value whose text is stored. Payloads are acyclic data here, so
  \<open>JSON.stringify\<close> does not throw.
\<close>

definition boundPayload :: "(string \<times> json) list \<Rightarrow> json" where
  "boundPayload payload =
     (let text = json_stringify (JObj payload) in
      if length text \<le> MAX_CHECKPOINT_PAYLOAD_CHARS then JObj payload
      else JObj [(''__truncated'', JBool True),
                 (''reason'', JStr ''payload exceeded MAX_CHECKPOINT_PAYLOAD_CHARS''),
                 (''originalChars'', JNum (int (length text))),
                 (''state'', obj_get payload ''state''),
                 (''outcome'', obj_get payload ''outcome''),
                 (''attempt'', obj_get payload ''attempt'')])"

definition checkpoint_payload :: "execution_record \<Rightarrow> (string \<times> json) list option \<Rightarrow> (string \<times> json) list" where
  "checkpoint_payload record extra =
     obj_spread
       [(''state'', JStr (state_str (rec_state record))),
        (''outcome'', case rec_outcome record of None \<Rightarrow> JUndef | Some k \<Rightarrow> JStr (outcome_str k)),
        (''attempt'', JNum (attempt (rec_id record))),
        (''stepCount'', JNum (attempt (rec_id record)))]
       (nullish extra [])"

definition authority_of :: "execution_record \<Rightarrow> int \<Rightarrow> json option" where
  "authority_of record now =
     (case rec_trust record of
        None \<Rightarrow> None
      | Some t \<Rightarrow> Some (JObj
          [(''policyVersion'', JStr (trust_classifierVersion t)),
           (''placement'', JStr (placement_str (trust_placement t))),
           (''credentialRefs'', JArr (map JStr (nullish (trust_credentialRefs t) []))),
           (''checkedAt'', JNum now)]))"

definition default_summary :: "execution_record \<Rightarrow> checkpoint_kind \<Rightarrow> string" where
  "default_summary record kind =
     kind_str kind @ [CHR '' '', char_of (226 :: nat), char_of (128 :: nat), char_of (148 :: nat), CHR '' ''] @
     (case rec_action record of
        None \<Rightarrow> ''unknown:unknown''
      | Some a \<Rightarrow> capability_kind_str (cap_kind (act_capability a)) @ '':'' @ cap_name (act_capability a))"

definition build_checkpoint ::
  "string \<Rightarrow> int \<Rightarrow> execution_record \<Rightarrow> checkpoint_kind \<Rightarrow> string option \<Rightarrow>
   (string \<times> json) list option \<Rightarrow> execution_checkpoint" where
  "build_checkpoint cid now record kind progress extra =
     \<lparr>cp_checkpointId = cid,
      cp_runId = runId (rec_id record),
      cp_workflowId = workflowId (rec_id record),
      cp_taskId = taskId (rec_id record),
      cp_kind = kind,
      cp_sideEffectSafe = isSideEffectSafe kind (map_option act_idempotency (rec_action record)),
      cp_authoritySnapshot = authority_of record now,
      cp_environmentRef = Option.bind (rec_trust record) trust_environmentId,
      cp_executionState = rec_state record,
      cp_progressSummary = nullish progress (default_summary record kind),
      cp_payload = JObj (checkpoint_payload record extra),
      cp_attempt = attempt (rec_id record),
      cp_createdAt = now\<rparr>"

definition persist_row :: "execution_checkpoint \<Rightarrow> checkpoint_row" where
  "persist_row cp =
     \<lparr>row_checkpoint_id = cp_checkpointId cp,
      row_run_id = cp_runId cp,
      row_workflow_id = cp_workflowId cp,
      row_task_id = cp_taskId cp,
      row_kind = cp_kind cp,
      row_side_effect_safe = (if cp_sideEffectSafe cp then 1 else 0),
      row_authority_snapshot = map_option (\<lambda>a. Column (json_norm a)) (cp_authoritySnapshot cp),
      row_environment_ref = cp_environmentRef cp,
      row_execution_state = cp_executionState cp,
      row_progress_summary = take 2000 (cp_progressSummary cp),
      row_payload_json = Column (json_norm
        (boundPayload (case cp_payload cp of JObj fs \<Rightarrow> fs | _ \<Rightarrow> []))),
      row_attempt = cp_attempt cp,
      row_created_at = cp_createdAt cp\<rparr>"

text \<open>\<open>createCheckpoint\<close>: \<open>None\<close> for an unknown kind or a failed insert (also a duplicate id).\<close>

definition createCheckpoint ::
  "bool \<Rightarrow> string \<Rightarrow> int \<Rightarrow> execution_record \<Rightarrow> checkpoint_kind \<Rightarrow> string option \<Rightarrow>
   (string \<times> json) list option \<Rightarrow> checkpoint_row list \<Rightarrow>
   execution_checkpoint option \<times> checkpoint_row list" where
  "createCheckpoint fails cid now record kind progress extra tbl =
     (if kind \<notin> set CHECKPOINT_KINDS then (None, tbl)
      else
        let cp = build_checkpoint cid now record kind progress extra in
        if fails \<or> (\<exists>r \<in> set tbl. row_checkpoint_id r = cid) then (None, tbl)
        else (Some cp, tbl @ [persist_row cp]))"

definition rowToCheckpoint :: "checkpoint_row \<Rightarrow> execution_checkpoint" where
  "rowToCheckpoint row =
     \<lparr>cp_checkpointId = row_checkpoint_id row,
      cp_runId = row_run_id row,
      cp_workflowId = row_workflow_id row,
      cp_taskId = row_task_id row,
      cp_kind = row_kind row,
      cp_sideEffectSafe = (row_side_effect_safe row = 1),
      cp_authoritySnapshot =
        (case row_authority_snapshot row of
           None \<Rightarrow> None
         | Some Unparsable \<Rightarrow> None
         | Some (Column a) \<Rightarrow> Some a),
      cp_environmentRef = row_environment_ref row,
      cp_executionState = row_execution_state row,
      cp_progressSummary = row_progress_summary row,
      cp_payload =
        (case row_payload_json row of
           Column (JObj fs) \<Rightarrow> JObj fs
         | _ \<Rightarrow> JObj [(''__invalid_payload'', JBool True)]),
      cp_attempt = row_attempt row,
      cp_createdAt = row_created_at row\<rparr>"

definition getCheckpoints :: "bool \<Rightarrow> string \<Rightarrow> nat \<Rightarrow> checkpoint_row list \<Rightarrow> execution_checkpoint list" where
  "getCheckpoints fails run limit tbl =
     (if fails then []
      else map rowToCheckpoint
             (take limit (latest_first row_created_at (filter (\<lambda>r. row_run_id r = run) tbl))))"

definition getLatestCheckpoint :: "bool \<Rightarrow> string \<Rightarrow> checkpoint_row list \<Rightarrow> execution_checkpoint option" where
  "getLatestCheckpoint fails run tbl =
     (if fails then None
      else map_option rowToCheckpoint
             (first_row (take 1 (latest_first row_created_at (filter (\<lambda>r. row_run_id r = run) tbl)))))"

definition getLatestWorkflowCheckpoints ::
  "bool \<Rightarrow> string \<Rightarrow> checkpoint_row list \<Rightarrow> execution_checkpoint list" where
  "getLatestWorkflowCheckpoints fails wid tbl =
     (if fails then []
      else map rowToCheckpoint
             (take 100 (latest_first row_created_at (filter (\<lambda>r. row_workflow_id r = Some wid) tbl))))"

section \<open>Pruning and maintenance\<close>

definition PRUNABLE_STATES :: "exec_state list" where
  "PRUNABLE_STATES =
     [S_succeeded, S_failed, S_cancelled, S_timed_out, S_denied, S_budget_blocked,
      S_reconciliation_required]"

text \<open>
  The \<open>DELETE\<close> of \<open>pruneDetailed\<close>. \<open>states\<close> gives the state of a run's execution record,
  \<open>unacked run\<close> says that an unacknowledged cancellation of the run exists. The statement
  has no \<open>ORDER BY\<close>; the model takes the first 1000 eligible rows in rowid order. Checkpoint
  ids are the table's primary key.
\<close>

definition prunable ::
  "(string \<Rightarrow> exec_state option) \<Rightarrow> (string \<Rightarrow> bool) \<Rightarrow> int \<Rightarrow> checkpoint_row \<Rightarrow> bool" where
  "prunable states unacked cutoff r \<longleftrightarrow>
     (case states (row_run_id r) of None \<Rightarrow> False | Some s \<Rightarrow> s \<in> set PRUNABLE_STATES) \<and>
     row_created_at r < cutoff \<and> \<not> unacked (row_run_id r)"

definition pruneDetailed ::
  "bool \<Rightarrow> (string \<Rightarrow> exec_state option) \<Rightarrow> (string \<Rightarrow> bool) \<Rightarrow> int \<Rightarrow> checkpoint_row list \<Rightarrow>
   nat \<times> checkpoint_row list" where
  "pruneDetailed fails states unacked now tbl =
     (let cutoff = now - CHECKPOINT_RETENTION_MS;
          doomed = map row_checkpoint_id (take 1000 (filter (prunable states unacked cutoff) tbl))
      in if fails then (0, tbl)
         else (length (filter (\<lambda>r. row_checkpoint_id r \<in> set doomed) tbl),
               filter (\<lambda>r. row_checkpoint_id r \<notin> set doomed) tbl))"

definition pruneCheckpoints ::
  "bool \<Rightarrow> (string \<Rightarrow> exec_state option) \<Rightarrow> (string \<Rightarrow> bool) \<Rightarrow> int \<Rightarrow> checkpoint_row list \<Rightarrow> nat" where
  "pruneCheckpoints fails states unacked now tbl = fst (pruneDetailed fails states unacked now tbl)"

definition getMaintenanceMeta :: "bool \<Rightarrow> string \<Rightarrow> (string \<rightharpoonup> string) \<Rightarrow> string option" where
  "getMaintenanceMeta fails key meta = (if fails then None else meta key)"

definition setMaintenanceMeta ::
  "bool \<Rightarrow> string \<Rightarrow> string \<Rightarrow> (string \<rightharpoonup> string) \<Rightarrow> (string \<rightharpoonup> string)" where
  "setMaintenanceMeta fails key v meta = (if fails then meta else meta(key \<mapsto> v))"

section \<open>The interface recovery relies on\<close>

text \<open>What two checkpoints share when one is read back from the other's row.\<close>

definition same_boundary :: "execution_checkpoint \<Rightarrow> execution_checkpoint \<Rightarrow> bool" where
  "same_boundary a b \<longleftrightarrow> cp_kind a = cp_kind b \<and> cp_sideEffectSafe a = cp_sideEffectSafe b \<and>
     cp_runId a = cp_runId b \<and> cp_executionState a = cp_executionState b \<and>
     cp_attempt a = cp_attempt b \<and> cp_createdAt a = cp_createdAt b \<and>
     (cp_authoritySnapshot a = None \<longleftrightarrow> cp_authoritySnapshot b = None)"

locale checkpoint_source =
  fixes latest :: "string \<Rightarrow> 'db \<Rightarrow> execution_checkpoint option"
    and put :: "execution_checkpoint \<Rightarrow> 'db \<Rightarrow> 'db"
    and no_later :: "'db \<Rightarrow> int \<Rightarrow> bool"
  assumes latest_run: "latest run db = Some c \<Longrightarrow> cp_runId c = run"
    and latest_put: "no_later db (cp_createdAt c) \<Longrightarrow>
       \<exists>c'. latest (cp_runId c) (put c db) = Some c' \<and> same_boundary c c'"
    and latest_put_other: "run \<noteq> cp_runId c \<Longrightarrow> latest run (put c db) = latest run db"
    and no_later_put: "no_later db (cp_createdAt c) \<Longrightarrow> no_later (put c db) (cp_createdAt c)"
begin

text \<open>The last of a sequence of boundaries in time order is the one found.\<close>

lemma latest_after_history:
  assumes "no_later db t" and "cp_createdAt c = t" and "cp_createdAt d = t"
  shows "\<exists>c'. latest (cp_runId d) (put d (put c db)) = Some c' \<and> same_boundary d c'"
  using assms latest_put[of "put c db" d] no_later_put[of db c] by simp

end

definition put_row :: "execution_checkpoint \<Rightarrow> checkpoint_row list \<Rightarrow> checkpoint_row list" where
  "put_row cp tbl = tbl @ [persist_row cp]"

definition rows_until :: "checkpoint_row list \<Rightarrow> int \<Rightarrow> bool" where
  "rows_until tbl t \<longleftrightarrow> (\<forall>r \<in> set tbl. row_created_at r \<le> t)"

lemma take1_first_row: "first_row (take 1 xs) = first_row xs"
  by (cases xs) auto

lemma getLatest_unfold:
  "getLatestCheckpoint False run tbl =
     map_option rowToCheckpoint (first_row (latest_first row_created_at (filter (\<lambda>r. row_run_id r = run) tbl)))"
  by (simp add: getLatestCheckpoint_def take1_first_row del: One_nat_def)

lemma getLatest_put:
  assumes "rows_until tbl (cp_createdAt cp)"
  shows "getLatestCheckpoint False (cp_runId cp) (put_row cp tbl) = Some (rowToCheckpoint (persist_row cp))"
proof -
  have "latest_first row_created_at (filter (\<lambda>r. row_run_id r = cp_runId cp) tbl @ [persist_row cp]) =
      persist_row cp # latest_first row_created_at (filter (\<lambda>r. row_run_id r = cp_runId cp) tbl)"
    using assms by (intro latest_first_append_max) (auto simp: rows_until_def persist_row_def)
  then show ?thesis by (simp add: getLatest_unfold put_row_def) (simp add: persist_row_def)
qed

lemma rowToCheckpoint_persist: "same_boundary cp (rowToCheckpoint (persist_row cp))"
  by (auto simp: same_boundary_def rowToCheckpoint_def persist_row_def split: option.splits)

interpretation cps: checkpoint_source "getLatestCheckpoint False" put_row rows_until
proof unfold_locales
  fix run db c
  show "getLatestCheckpoint False run db = Some c \<Longrightarrow> cp_runId c = run"
    by (auto simp: getLatest_unfold rowToCheckpoint_def dest!: first_row_in)
next
  fix db c
  show "rows_until db (cp_createdAt c) \<Longrightarrow>
      \<exists>c'. getLatestCheckpoint False (cp_runId c) (put_row c db) = Some c' \<and> same_boundary c c'"
    using getLatest_put rowToCheckpoint_persist by blast
next
  fix run db c
  show "run \<noteq> cp_runId c \<Longrightarrow> getLatestCheckpoint False run (put_row c db) = getLatestCheckpoint False run db"
    by (simp add: getLatest_unfold put_row_def persist_row_def)
next
  fix db c
  show "rows_until db (cp_createdAt c) \<Longrightarrow> rows_until (put_row c db) (cp_createdAt c)"
    by (auto simp: rows_until_def put_row_def persist_row_def)
qed

section \<open>What is stored can be resumed from\<close>

lemma createCheckpoint_Some:
  "createCheckpoint fails cid now record kind progress extra tbl = (Some cp, tbl') \<longleftrightarrow>
     kind \<in> set CHECKPOINT_KINDS \<and> \<not> fails \<and> (\<forall>r \<in> set tbl. row_checkpoint_id r \<noteq> cid) \<and>
     cp = build_checkpoint cid now record kind progress extra \<and> tbl' = put_row cp tbl"
  by (auto simp: createCheckpoint_def Let_def put_row_def)

lemma boundPayload_object: "\<exists>fs. json_norm (boundPayload p) = JObj fs"
  by (simp add: boundPayload_def Let_def)

lemma authority_wellformed:
  "authority_of record now = Some a \<Longrightarrow>
     is_JStr (json_field (json_norm a) ''policyVersion'') \<and> is_JStr (json_field (json_norm a) ''placement'') \<and>
     is_JNum (json_field (json_norm a) ''checkedAt'') \<and> is_JArr (json_field (json_norm a) ''credentialRefs'')"
  by (auto simp: authority_of_def obj_get_def split: option.splits)

text \<open>C35: a checkpoint that was created is the resume basis. When \<open>createCheckpoint\<close> returns a
  checkpoint (and the clock has not gone back behind the rows of the table), the latest
  checkpoint of the run read back from the table has its kind, side-effect safety, state and
  attempt, and passes \<open>verifyCheckpoint\<close>; the checkpoints of other runs are untouched.\<close>

theorem created_checkpoint_is_resume_basis:
  assumes "createCheckpoint fails cid now record kind progress extra tbl = (Some cp, tbl')"
    and "rows_until tbl now" and "0 < now" and "runId (rec_id record) \<noteq> []"
  shows "(\<exists>c'. getLatestCheckpoint False (runId (rec_id record)) tbl' = Some c' \<and>
            cp_kind c' = kind \<and> cp_executionState c' = rec_state record \<and>
            cp_attempt c' = attempt (rec_id record) \<and>
            cp_sideEffectSafe c' = isSideEffectSafe kind (map_option act_idempotency (rec_action record)) \<and>
            verifyCheckpoint (Some c') = CpValid) \<and>
         (\<forall>run. run \<noteq> runId (rec_id record) \<longrightarrow>
            getLatestCheckpoint False run tbl' = getLatestCheckpoint False run tbl)"
proof -
  have cp: "cp = build_checkpoint cid now record kind progress extra" and tbl': "tbl' = put_row cp tbl"
    and known: "kind \<in> set CHECKPOINT_KINDS"
    using assms(1) by (auto simp: createCheckpoint_Some)
  let ?c = "rowToCheckpoint (persist_row cp)"
  have fields: "cp_runId cp = runId (rec_id record)" "cp_createdAt cp = now" "cp_kind cp = kind"
    "cp_authoritySnapshot cp = authority_of record now"
    by (simp_all add: cp build_checkpoint_def)
  have latest: "getLatestCheckpoint False (runId (rec_id record)) tbl' = Some ?c"
    using getLatest_put[of tbl cp] assms(2) fields tbl' by simp
  have payload: "is_object (cp_payload ?c)"
    by (simp add: rowToCheckpoint_def split: json_column.split json.split)
  have snapshot: "cp_authoritySnapshot ?c = map_option json_norm (authority_of record now)"
    by (simp add: rowToCheckpoint_def persist_row_def fields option.map_comp comp_def split: option.split)
  have "verifyCheckpoint (Some ?c) = CpValid"
    using known assms(3,4) payload snapshot authority_wellformed[of "record" now]
    by (auto simp: verifyCheckpoint_def fields rowToCheckpoint_def persist_row_def split: option.splits)
  moreover have "cp_kind ?c = kind" "cp_executionState ?c = rec_state record"
    "cp_attempt ?c = attempt (rec_id record)"
    "cp_sideEffectSafe ?c = isSideEffectSafe kind (map_option act_idempotency (rec_action record))"
    by (simp_all add: rowToCheckpoint_def persist_row_def cp build_checkpoint_def)
  ultimately show ?thesis
    using latest cps.latest_put_other[of _ cp tbl] tbl' fields by auto
qed

definition demo_id :: execution_id where
  "demo_id = \<lparr>runId = ''ex_1'', workspaceId = ''ws'', sessionId = None, workflowId = None,
     taskId = None, attempt = 1, parentRunId = None, correlationId = ''ex_1''\<rparr>"

definition demo_action :: "idempotency_class \<Rightarrow> string option \<Rightarrow> exec_action" where
  "demo_action idem key = \<lparr>act_capability = \<lparr>cap_kind = CK_core_tool, cap_name = ''send'',
       cap_version = None, cap_requiresApproval = None, cap_owner = None\<rparr>,
     act_inputSummary = [], act_inputBytes = None, act_idempotency = idem,
     act_idempotencyKey = key, act_timeoutMs = None, act_dryRun = False\<rparr>"

definition demo_record :: "exec_state \<Rightarrow> idempotency_class \<Rightarrow> string option \<Rightarrow> execution_record" where
  "demo_record st idem key = \<lparr>rec_id = demo_id, rec_state = st,
     rec_action = Some (demo_action idem key), rec_outcome = None, rec_history = [],
     rec_createdAt = 1, rec_updatedAt = 1, rec_endedAt = None, rec_trust = None\<rparr>"

theorem created_checkpoint_is_resume_basis_witness:
  "\<exists>c'. getLatestCheckpoint False ''ex_1''
        (snd (createCheckpoint False ''cp_1'' 5 (demo_record S_running Non_idempotent None) CP_step_started None None [])) = Some c' \<and>
      cp_kind c' = CP_step_started \<and> cp_executionState c' = S_running \<and>
      \<not> cp_sideEffectSafe c' \<and> verifyCheckpoint (Some c') = CpValid"
proof -
  let ?r = "demo_record S_running Non_idempotent None"
  have "createCheckpoint False ''cp_1'' 5 ?r CP_step_started None None [] =
      (Some (build_checkpoint ''cp_1'' 5 ?r CP_step_started None None),
       snd (createCheckpoint False ''cp_1'' 5 ?r CP_step_started None None []))"
    by (simp add: createCheckpoint_def CHECKPOINT_KINDS_def Let_def)
  from created_checkpoint_is_resume_basis[OF this] show ?thesis
    by (auto simp: rows_until_def demo_record_def demo_id_def demo_action_def isSideEffectSafe_def
        ALWAYS_SAFE_KINDS_def IDEMPOTENCY_DEPENDENT_KINDS_def)
qed

section \<open>Pruning keeps the evidence\<close>

text \<open>The table's primary key.\<close>

definition checkpoint_ids_distinct :: "checkpoint_row list \<Rightarrow> bool" where
  "checkpoint_ids_distinct tbl \<longleftrightarrow> distinct (map row_checkpoint_id tbl)"

lemma filter_same_ids:
  assumes "distinct (map f xs)" and "set ys \<subseteq> set xs"
  shows "filter (\<lambda>r. f r \<in> f ` set ys) xs = filter (\<lambda>r. r \<in> set ys) xs"
proof (rule filter_cong[OF refl])
  fix r assume "r \<in> set xs"
  then show "f r \<in> f ` set ys \<longleftrightarrow> r \<in> set ys"
    using assms by (auto simp: distinct_map dest: inj_onD)
qed

text \<open>Pruning deletes checkpoints of finished runs only. A row whose run has no execution
  record, is not in a prunable state, has an unacknowledged cancellation, or is younger than
  the retention period survives; the reported count is the number of rows that disappeared
  and is at most 1000; and a failing statement deletes nothing.\<close>

theorem prune_keeps_evidence:
  assumes "checkpoint_ids_distinct tbl"
  shows "(\<forall>r \<in> set tbl. \<not> prunable states unacked (now - CHECKPOINT_RETENTION_MS) r \<longrightarrow>
            r \<in> set (snd (pruneDetailed fails states unacked now tbl))) \<and>
         set (snd (pruneDetailed fails states unacked now tbl)) \<subseteq> set tbl \<and>
         fst (pruneDetailed fails states unacked now tbl) \<le> 1000 \<and>
         fst (pruneDetailed fails states unacked now tbl) +
           length (snd (pruneDetailed fails states unacked now tbl)) = length tbl \<and>
         snd (pruneDetailed True states unacked now tbl) = tbl"
proof -
  let ?P = "prunable states unacked (now - CHECKPOINT_RETENTION_MS)"
  let ?dead = "take 1000 (filter ?P tbl)"
  have dist: "distinct (map row_checkpoint_id tbl)"
    using assms by (simp add: checkpoint_ids_distinct_def)
  have sub: "set ?dead \<subseteq> set tbl" "\<forall>r \<in> set ?dead. ?P r"
    using set_take_subset[of 1000 "filter ?P tbl"] by auto
  have ids: "row_checkpoint_id r \<in> row_checkpoint_id ` set ?dead \<longleftrightarrow> r \<in> set ?dead" if "r \<in> set tbl" for r
    using dist sub(1) that by (auto simp: distinct_map dest: inj_onD)
  have count: "length (filter (\<lambda>r. row_checkpoint_id r \<in> row_checkpoint_id ` set ?dead) tbl) \<le> 1000"
  proof -
    have "distinct tbl" using dist by (simp add: distinct_map)
    then have "length (filter (\<lambda>r. r \<in> set ?dead) tbl) = card (set (filter (\<lambda>r. r \<in> set ?dead) tbl))"
      by (metis distinct_card distinct_filter)
    also have "\<dots> \<le> card (set ?dead)" by (intro card_mono) auto
    also have "\<dots> \<le> 1000" using card_length[of ?dead] by simp
    finally show ?thesis using filter_same_ids[OF dist sub(1)] by simp
  qed
  have total: "length (filter Q tbl) + length (filter (\<lambda>r. \<not> Q r) tbl) = length tbl" for Q
    by (rule sum_length_filter_compl)
  define D where "D = row_checkpoint_id ` set ?dead"
  have eq: "pruneDetailed fails states unacked now tbl =
      (if fails then (0, tbl)
       else (length (filter (\<lambda>r. row_checkpoint_id r \<in> D) tbl),
             filter (\<lambda>r. row_checkpoint_id r \<notin> D) tbl))"
    by (simp only: pruneDetailed_def Let_def D_def set_map)
  have keep: "r \<in> set (filter (\<lambda>r. row_checkpoint_id r \<notin> D) tbl)" if "r \<in> set tbl" "\<not> ?P r" for r
  proof -
    have "r \<notin> set ?dead" using sub(2) that(2) by blast
    then have "row_checkpoint_id r \<notin> D" unfolding D_def using ids[OF that(1)] by blast
    then show ?thesis using that(1) by simp
  qed
  have failed: "pruneDetailed True states unacked now tbl = (0, tbl)"
    by (simp add: pruneDetailed_def Let_def)
  show ?thesis
  proof (cases fails)
    case True
    then show ?thesis by (simp add: failed)
  next
    case False
    let ?kept = "filter (\<lambda>r. row_checkpoint_id r \<notin> D) tbl"
    have pd: "pruneDetailed fails states unacked now tbl =
        (length (filter (\<lambda>r. row_checkpoint_id r \<in> D) tbl), ?kept)"
      using eq False by (simp only: if_False)
    have "\<forall>r \<in> set tbl. \<not> ?P r \<longrightarrow> r \<in> set ?kept" using keep by blast
    moreover have "length (filter (\<lambda>r. row_checkpoint_id r \<in> D) tbl) \<le> 1000"
      using count by (simp only: D_def)
    ultimately show ?thesis
      unfolding pd failed fst_conv snd_conv using total by (intro conjI filter_is_subset) blast+
  qed
qed

definition demo_row :: checkpoint_row where
  "demo_row = persist_row (build_checkpoint ''cp_1'' 1 (demo_record S_succeeded Non_idempotent None)
     CP_step_completed None None)"

theorem prune_keeps_evidence_witness:
  "demo_row \<in> set (snd (pruneDetailed False (\<lambda>_. Some S_succeeded) (\<lambda>_. True) (10 ^ 12) [demo_row])) \<and>
   fst (pruneDetailed False (\<lambda>_. Some S_succeeded) (\<lambda>_. True) (10 ^ 12) [demo_row]) = 0"
proof -
  have d: "checkpoint_ids_distinct [demo_row]" by (simp add: checkpoint_ids_distinct_def)
  have n: "\<not> prunable (\<lambda>_. Some S_succeeded) (\<lambda>_. True) (10 ^ 12 - CHECKPOINT_RETENTION_MS) demo_row"
    by (simp add: prunable_def)
  note p = prune_keeps_evidence[OF d, where fails = False and now = "10 ^ 12"
      and states = "\<lambda>_. Some S_succeeded" and unacked = "\<lambda>_. True"]
  let ?t = "snd (pruneDetailed False (\<lambda>_. Some S_succeeded) (\<lambda>_. True) (10 ^ 12) [demo_row])"
  have m: "demo_row \<in> set ?t" using p n by simp
  then obtain y ys where "?t = y # ys" by (cases ?t) simp_all
  with p m show ?thesis by simp
qed

text \<open>Two terminal states are missing from the statement's list: their checkpoints stay for ever.\<close>

lemma never_pruned_terminal_states:
  "isTerminal s \<and> s \<notin> set PRUNABLE_STATES \<longleftrightarrow> s = S_partially_completed \<or> s = S_unavailable"
  by (cases s) (simp_all add: PRUNABLE_STATES_def table_defs)

end
