(* ===== verification/Audit_Chain.thy ===== *)
theory Audit_Chain
  imports Exec_Checkpoint
begin

text \<open>
  The audit log (\<open>src/src/state/workspace-store.ts\<close>, the methods from \<open>detectKeyedChain\<close> to
  \<open>upsertHeadInTxn\<close> and from \<open>redact\<close> to \<open>auditCount\<close>, with \<open>src/src/security/audit-signer.ts\<close>):
  a hash chain of entries, signed at checkpoints and at its head. The database is one record
  that all processes share, a process is what a \<open>WorkspaceStore\<close> object remembers. SHA-256
  and Ed25519 are a parameter, the clock, the keys that the secret store returns and fresh
  key pairs are arguments. A detail column holds the JSON value that its text parses to;
  the public key in a detail is a text.
\<close>

section \<open>Data\<close>

record crypto =
  c_sha :: "string \<Rightarrow> string"
  c_sign :: "string \<Rightarrow> string \<Rightarrow> string"
  c_verify :: "string \<Rightarrow> string \<Rightarrow> string \<Rightarrow> bool"

record AuditIdentity =
  privateKeyB64 :: string
  publicKeyB64 :: string
  keyFingerprint :: string

record audit_row =
  au_id :: int
  au_session :: "string option"
  au_event :: string
  au_detail :: json_column
  au_prev :: string
  au_hash :: string
  au_created :: int
  au_counter :: "int option"
  au_sig :: "string option"

record head_row =
  hd_counter :: int
  hd_entry_hash :: string
  hd_entry_id :: int
  hd_sig :: "string option"
  hd_pubkey :: string
  hd_updated :: int

record anchor_row =
  an_counter :: int
  an_entry_hash :: string
  an_entry_id :: int
  an_sig :: string
  an_pubkey :: string
  an_sink :: string
  an_at :: int

record audit_db =
  db_log :: "audit_row list"
  db_next :: int
  db_head :: "head_row option"
  db_anchors :: "anchor_row list"

record audit_process =
  chainBrokenAt :: "int option"
  auditKeyedOnDisk :: bool
  auditIdentity :: "AuditIdentity option"
  auditKeyUnavailable :: bool
  currentSigningPubkey :: "string option"
  signEvery :: int
  signedSchema :: bool

definition GENESIS :: string where
  "GENESIS = ''xr-genesis''"

definition DEFAULT_SIGN_EVERY :: int where
  "DEFAULT_SIGN_EVERY = 256"

definition empty_audit_db :: audit_db where
  "empty_audit_db = \<lparr> db_log = [], db_next = 1, db_head = None, db_anchors = [] \<rparr>"

section \<open>Redaction\<close>

text \<open>
  The pattern: \<open>sk-\<close> and at least eight letters or digits, or \<open>Bearer\<close>, white space, and at
  least eight letters, digits, dots, underscores or hyphens. A match holds no quote and no
  backslash, so replacing in the JSON text is replacing in every string of the value; of keys that
  become equal the last value is kept.
\<close>

definition alnum :: "char \<Rightarrow> bool" where
  "alnum c = (let n = (of_char c :: nat) in
     (65 \<le> n \<and> n \<le> 90) \<or> (97 \<le> n \<and> n \<le> 122) \<or> (48 \<le> n \<and> n \<le> 57))"

definition token_char :: "char \<Rightarrow> bool" where
  "token_char c = (alnum c \<or> c \<in> set ''._-'')"

text \<open>White space that a JSON text may hold inside a string: the space and the no-break space.\<close>

definition blank_char :: "char \<Rightarrow> bool" where
  "blank_char c = (let n = (of_char c :: nat) in n = 32 \<or> n = 160)"

definition secret_at :: "string \<Rightarrow> nat option" where
  "secret_at s =
     (let key = takeWhile alnum (drop 3 s);
          rest = drop 6 s; gap = takeWhile blank_char rest;
          tok = takeWhile token_char (drop (length gap) rest)
      in if take 3 s = ''sk-'' \<and> 8 \<le> length key then Some (3 + length key)
         else if take 6 s = ''Bearer'' \<and> gap \<noteq> [] \<and> 8 \<le> length tok
         then Some (6 + length gap + length tok)
         else None)"

definition redacted_mark :: string where
  "redacted_mark = [char_of (171 :: nat)] @ ''redacted'' @ [char_of (187 :: nat)]"

function redact_string :: "string \<Rightarrow> string" where
  "redact_string [] = []"
| "redact_string (c # cs) =
     (case secret_at (c # cs) of
        Some n \<Rightarrow> redacted_mark @ redact_string (drop (n - 1) cs)
      | None \<Rightarrow> c # redact_string cs)"
  by pat_completeness auto
termination by (relation "measure length") auto

fun redact_json :: "json \<Rightarrow> json" where
  "redact_json (JStr s) = JStr (redact_string s)"
| "redact_json (JArr xs) = JArr (map redact_json xs)"
| "redact_json (JObj fs) = JObj (obj_spread [] (map (\<lambda>(k, v). (redact_string k, redact_json v)) fs))"
| "redact_json v = v"

definition redact :: "json \<Rightarrow> json" where
  "redact detail = redact_json (json_norm detail)"

section \<open>Hashes and signatures\<close>

definition payload :: "string \<Rightarrow> json \<Rightarrow> string \<Rightarrow> int \<Rightarrow> string" where
  "payload event detail prev ts =
     json_stringify (JObj [(''event'', JStr event), (''detail'', detail), (''prev'', JStr prev), (''ts'', JNum ts)])"

datatype message_kind = Checkpoint | Head

definition checkpointMessage :: "string \<Rightarrow> int \<Rightarrow> string \<Rightarrow> message_kind \<Rightarrow> string" where
  "checkpointMessage entryHash counter pub kind =
     json_stringify (JObj [(''xr'', JStr ''xr-audit-v1''),
       (''kind'', JStr (case kind of Checkpoint \<Rightarrow> ''checkpoint'' | Head \<Rightarrow> ''head'')),
       (''entry'', JStr entryHash), (''counter'', JNum counter), (''pub'', JStr pub)])"

definition is_keying :: "audit_row \<Rightarrow> bool" where
  "is_keying r \<longleftrightarrow> au_event r = ''audit.keyed'' \<or> au_event r = ''audit.rekey''"

definition detailPubkey :: "json_column \<Rightarrow> string option" where
  "detailPubkey d =
     (case d of Column j \<Rightarrow> (case json_field j ''pubkey'' of JStr s \<Rightarrow> Some s | _ \<Rightarrow> None) | Unparsable \<Rightarrow> None)"

section \<open>Appending\<close>

definition lastHashInTxn :: "audit_db \<Rightarrow> string" where
  "lastHashInTxn db = (if db_log db = [] then GENESIS else au_hash (last (db_log db)))"

definition counters :: "audit_db \<Rightarrow> int list" where
  "counters db = concat (map (\<lambda>r. case au_counter r of None \<Rightarrow> [] | Some n \<Rightarrow> [n]) (db_log db))"

definition nextCounterInTxn :: "audit_db \<Rightarrow> int" where
  "nextCounterInTxn db = (case counters db of [] \<Rightarrow> 0 | x # xs \<Rightarrow> fold max xs x + 1)"

definition insert_entry ::
  "string option \<Rightarrow> string \<Rightarrow> json \<Rightarrow> string \<Rightarrow> string \<Rightarrow> int \<Rightarrow> int option \<Rightarrow> string option \<Rightarrow> audit_db \<Rightarrow> audit_db" where
  "insert_entry session event detail prev hash ts counter sig db =
     db\<lparr>db_log := db_log db @
          [\<lparr> au_id = db_next db, au_session = session, au_event = event, au_detail = Column (json_norm detail),
             au_prev = prev, au_hash = hash, au_created = ts, au_counter = counter, au_sig = sig \<rparr>],
        db_next := db_next db + 1\<rparr>"

definition upsertHeadInTxn ::
  "crypto \<Rightarrow> int \<Rightarrow> string \<Rightarrow> string option \<Rightarrow> string \<Rightarrow> int \<Rightarrow> string option \<Rightarrow> audit_process \<Rightarrow> audit_db \<Rightarrow> audit_db" where
  "upsertHeadInTxn c counter entryHash checkpointSig pub ts signingKey p db =
     (let key = (case signingKey of Some k \<Rightarrow> Some k | None \<Rightarrow> map_option privateKeyB64 (auditIdentity p));
          headSig = (case key of
                       Some k \<Rightarrow> Some (c_sign c k (checkpointMessage entryHash counter pub Head))
                     | None \<Rightarrow> checkpointSig)
      in db\<lparr>db_head := Some \<lparr> hd_counter = counter, hd_entry_hash = entryHash,
             hd_entry_id = (if db_log db = [] then 0 else au_id (last (db_log db))),
             hd_sig = headSig, hd_pubkey = pub, hd_updated = ts \<rparr>\<rparr>)"

definition is_boundary :: "string \<Rightarrow> bool" where
  "is_boundary event = (event = ''audit.keyed'' \<or> event = ''audit.rekey'' \<or> event = ''audit.repair'')"

text \<open>\<open>audit\<close>: \<open>None\<close> is the \<open>AuditChainCorruptedError\<close>.\<close>

definition audit_entry ::
  "crypto \<Rightarrow> string \<Rightarrow> (string \<times> json) list \<Rightarrow> string option \<Rightarrow> int \<Rightarrow> audit_process \<Rightarrow> audit_db \<Rightarrow> (string \<times> audit_db) option" where
  "audit_entry c event detail session ts p db =
     (if chainBrokenAt p \<noteq> None then None
      else
       (let safe = redact (JObj detail);
            prev = lastHashInTxn db;
            hash = c_sha c (payload event safe prev ts);
            counter = (if auditKeyedOnDisk p then Some (nextCounterInTxn db) else None);
            sig = (case (counter, auditIdentity p) of
                     (Some n, Some i) \<Rightarrow>
                       if is_boundary event \<or> n mod signEvery p = signEvery p - 1
                       then Some (c_sign c (privateKeyB64 i) (checkpointMessage hash n (publicKeyB64 i) Checkpoint))
                       else None
                   | _ \<Rightarrow> None);
            db1 = (if signedSchema p then insert_entry session event safe prev hash ts counter sig db
                   else insert_entry session event safe prev hash ts None None db)
        in Some (hash,
             case (counter, auditIdentity p) of
               (Some n, Some i) \<Rightarrow> upsertHeadInTxn c n hash sig (publicKeyB64 i) ts (Some (privateKeyB64 i)) p db1
             | _ \<Rightarrow> db1)))"

section \<open>Verifying and repairing the chain\<close>

text \<open>\<open>verifyChain\<close> throws when a detail does not parse, and then leaves the flag as it was.\<close>

datatype chain_verdict = Chain_valid | Broken_at int | Chain_threw

fun chain_from :: "crypto \<Rightarrow> string \<Rightarrow> audit_row list \<Rightarrow> chain_verdict" where
  "chain_from c prev [] = Chain_valid"
| "chain_from c prev (r # rs) =
     (case au_detail r of
        Unparsable \<Rightarrow> Chain_threw
      | Column j \<Rightarrow>
          if c_sha c (payload (au_event r) j prev (au_created r)) \<noteq> au_hash r \<or> au_prev r \<noteq> prev
          then Broken_at (au_id r) else chain_from c (au_hash r) rs)"

definition chain_verdict_of :: "crypto \<Rightarrow> audit_db \<Rightarrow> chain_verdict" where
  "chain_verdict_of c db = chain_from c GENESIS (db_log db)"

definition verifyChain :: "crypto \<Rightarrow> audit_db \<Rightarrow> audit_process \<Rightarrow> chain_verdict \<times> audit_process" where
  "verifyChain c db p =
     (case chain_verdict_of c db of
        Chain_valid \<Rightarrow> (Chain_valid, p\<lparr>chainBrokenAt := None\<rparr>)
      | Broken_at i \<Rightarrow> (Broken_at i, p\<lparr>chainBrokenAt := Some i\<rparr>)
      | Chain_threw \<Rightarrow> (Chain_threw, p))"

datatype repair_result = Nothing_to_repair | Repaired int nat string | Repair_threw

definition repairChain ::
  "crypto \<Rightarrow> string \<Rightarrow> int \<Rightarrow> audit_process \<Rightarrow> audit_db \<Rightarrow> repair_result \<times> audit_process \<times> audit_db" where
  "repairChain c actor ts p db =
     (case verifyChain c db p of
        (Chain_valid, p1) \<Rightarrow> (Nothing_to_repair, p1, db)
      | (Chain_threw, p1) \<Rightarrow> (Repair_threw, p1, db)
      | (Broken_at b, p1) \<Rightarrow>
          (let removed = length (filter (\<lambda>r. b \<le> au_id r) (db_log db));
               db1 = db\<lparr>db_log := filter (\<lambda>r. au_id r < b) (db_log db), db_head := None\<rparr>
           in case verifyChain c db1 p1 of
                (Chain_threw, p2) \<Rightarrow> (Repair_threw, p2, db1)
              | (_, p2) \<Rightarrow>
                  (case audit_entry c ''audit.repair''
                          [(''brokenAt'', JNum b), (''removed'', JNum (int removed)), (''actor'', JStr actor)]
                          None ts p2 db1 of
                     None \<Rightarrow> (Repair_threw, p2, db1)
                   | Some (h, db2) \<Rightarrow> (Repaired b removed h, p2, db2))))"

section \<open>Keying\<close>

definition last_keying :: "audit_db \<Rightarrow> audit_row option" where
  "last_keying db = find is_keying (rev (db_log db))"

text \<open>\<open>loaded\<close>: the stored private key with the public one derived from it, if there is one.\<close>

definition detectKeyedChain :: "AuditIdentity option \<Rightarrow> audit_db \<Rightarrow> audit_process \<Rightarrow> audit_process" where
  "detectKeyedChain loaded db p =
     (case last_keying db of
        None \<Rightarrow> p\<lparr>auditKeyedOnDisk := False\<rparr>
      | Some r \<Rightarrow>
          p\<lparr>auditKeyedOnDisk := True, currentSigningPubkey := detailPubkey (au_detail r),
             auditIdentity := loaded, auditKeyUnavailable := (loaded = None)\<rparr>)"

definition refreshAuditKeyingState ::
  "bool \<Rightarrow> AuditIdentity option \<Rightarrow> audit_db \<Rightarrow> audit_process \<Rightarrow> audit_process" where
  "refreshAuditKeyingState has_schema loaded db p =
     (if \<not> has_schema
      then p\<lparr>signedSchema := False, auditKeyedOnDisk := False, auditKeyUnavailable := False,
              auditIdentity := None, currentSigningPubkey := None\<rparr>
      else detectKeyedChain loaded db (p\<lparr>signedSchema := True\<rparr>))"

text \<open>The keying entry of an identity, signed by it, and the head over it.\<close>

definition keying_entry ::
  "crypto \<Rightarrow> string \<Rightarrow> json \<Rightarrow> AuditIdentity \<Rightarrow> int \<Rightarrow> audit_process \<Rightarrow> audit_db \<Rightarrow> audit_db" where
  "keying_entry c event detail i ts p db =
     (let prev = lastHashInTxn db;
          counter = nextCounterInTxn db;
          safe = redact detail;
          hash = c_sha c (payload event safe prev ts);
          sig = c_sign c (privateKeyB64 i) (checkpointMessage hash counter (publicKeyB64 i) Checkpoint)
      in upsertHeadInTxn c counter hash (Some sig) (publicKeyB64 i) ts (Some (privateKeyB64 i)) p
           (insert_entry None event safe prev hash ts (Some counter) (Some sig) db))"

definition keyed_detail :: "AuditIdentity \<Rightarrow> string \<Rightarrow> json" where
  "keyed_detail i actor = JObj [(''pubkey'', JStr (publicKeyB64 i)), (''fingerprint'', JStr (keyFingerprint i)),
     (''actor'', JStr actor), (''note'', JStr ''Per-install Ed25519 audit signing key established. Evidence before this entry is chain-only; evidence from this entry is signed.'')]"

definition rekeyed_detail :: "AuditIdentity \<Rightarrow> string option \<Rightarrow> string \<Rightarrow> json" where
  "rekeyed_detail i old actor = JObj [(''pubkey'', JStr (publicKeyB64 i)), (''fingerprint'', JStr (keyFingerprint i)),
     (''previousPubkey'', case old of None \<Rightarrow> JNull | Some k \<Rightarrow> JStr k), (''actor'', JStr actor),
     (''note'', JStr ''Audit signing key rotated. Prior segment remains verifiable to this point under the previous key.'')]"

text \<open>
  \<open>ensureAuditKeying\<close>: whether the chain is keyed, and the key. \<open>created\<close> is what
  \<open>loadOrCreateAuditIdentity\<close> returns.
\<close>

definition ensureAuditKeying ::
  "crypto \<Rightarrow> string \<Rightarrow> AuditIdentity option \<Rightarrow> int \<Rightarrow> audit_process \<Rightarrow> audit_db \<Rightarrow>
     string option \<times> audit_process \<times> audit_db" where
  "ensureAuditKeying c actor created ts p db =
     (if chainBrokenAt p \<noteq> None then (None, p, db)
      else case (auditKeyedOnDisk p, auditIdentity p) of
        (True, Some i) \<Rightarrow> (Some (nullish (currentSigningPubkey p) (publicKeyB64 i)), p, db)
      | _ \<Rightarrow>
        if auditKeyedOnDisk p \<and> auditKeyUnavailable p then (None, p, db)
        else case created of
          None \<Rightarrow> (None, p\<lparr>auditKeyUnavailable := True\<rparr>, db)
        | Some i \<Rightarrow>
            (Some (publicKeyB64 i),
             p\<lparr>auditIdentity := Some i, auditKeyedOnDisk := True, auditKeyUnavailable := False,
                currentSigningPubkey := Some (publicKeyB64 i)\<rparr>,
             if last_keying db \<noteq> None then db
             else keying_entry c ''audit.keyed'' (keyed_detail i actor) i ts p db))"

definition provisionAuditKeying ::
  "crypto \<Rightarrow> string \<Rightarrow> AuditIdentity option \<Rightarrow> int \<Rightarrow> audit_process \<Rightarrow> audit_db \<Rightarrow>
     string option \<times> audit_process \<times> audit_db" where
  "provisionAuditKeying c actor created ts p db =
     (if auditKeyedOnDisk p \<and> auditKeyUnavailable p then (None, p, db)
      else ensureAuditKeying c actor created ts p db)"

text \<open>\<open>fresh\<close> is the new key pair, \<open>stored\<close> says whether the secret store took it.\<close>

definition rekeyAudit ::
  "crypto \<Rightarrow> string \<Rightarrow> AuditIdentity \<Rightarrow> bool \<Rightarrow> int \<Rightarrow> audit_process \<Rightarrow> audit_db \<Rightarrow> bool \<times> audit_process \<times> audit_db" where
  "rekeyAudit c actor fresh stored ts p db =
     (if chainBrokenAt p \<noteq> None \<or> \<not> stored then (False, p, db)
      else (True,
            p\<lparr>auditIdentity := Some fresh, auditKeyedOnDisk := True, auditKeyUnavailable := False,
               currentSigningPubkey := Some (publicKeyB64 fresh)\<rparr>,
            keying_entry c ''audit.rekey'' (rekeyed_detail fresh (currentSigningPubkey p) actor) fresh ts p db))"

text \<open>The constructor: \<open>every\<close> is the parsed \<open>XR_AUDIT_SIGN_EVERY\<close>; \<open>None\<close> when it throws.\<close>

definition open_audit ::
  "crypto \<Rightarrow> int option \<Rightarrow> AuditIdentity option \<Rightarrow> audit_db \<Rightarrow> audit_process option" where
  "open_audit c every loaded db =
     (let p = \<lparr> chainBrokenAt = None, auditKeyedOnDisk = False, auditIdentity = None,
                auditKeyUnavailable = False, currentSigningPubkey = None,
                signEvery = (case every of Some n \<Rightarrow> if 1 \<le> n then n else DEFAULT_SIGN_EVERY
                             | None \<Rightarrow> DEFAULT_SIGN_EVERY),
                signedSchema = True \<rparr>
      in case verifyChain c db p of
           (Chain_threw, _) \<Rightarrow> None
         | (_, p1) \<Rightarrow> Some (detectKeyedChain loaded db p1))"

definition headForAnchor :: "audit_process \<Rightarrow> audit_db \<Rightarrow> head_row option" where
  "headForAnchor p db = (if signedSchema p then db_head db else None)"

definition recordAnchor :: "anchor_row \<Rightarrow> audit_db \<Rightarrow> audit_db" where
  "recordAnchor a db = db\<lparr>db_anchors := db_anchors db @ [a]\<rparr>"

definition auditCount :: "audit_db \<Rightarrow> nat" where
  "auditCount db = length (db_log db)"

definition anchorCount :: "audit_process \<Rightarrow> audit_db \<Rightarrow> nat" where
  "anchorCount p db = (if signedSchema p then length (db_anchors db) else 0)"

record chain_status =
  cs_valid :: bool
  cs_count :: nat
  cs_brokenAt :: "int option"
  cs_headHash :: string
  cs_genesis :: string

definition chainStatus :: "crypto \<Rightarrow> audit_db \<Rightarrow> audit_process \<Rightarrow> chain_status option \<times> audit_process" where
  "chainStatus c db p =
     (let (v, p') = verifyChain c db p;
          status = (\<lambda>ok first_bad. \<lparr> cs_valid = ok, cs_count = auditCount db, cs_brokenAt = first_bad,
                               cs_headHash = lastHashInTxn db, cs_genesis = GENESIS \<rparr>)
      in (case v of Chain_valid \<Rightarrow> Some (status True None) | Broken_at i \<Rightarrow> Some (status False (Some i))
          | Chain_threw \<Rightarrow> None, p'))"

end
