(* ===== verification/Audit_Verify.thy ===== *)
theory Audit_Verify
  imports Audit_Chain
begin

text \<open>
  The verification of a signed audit log (\<open>src/src/security/audit-verify.ts\<close>): segments,
  counters, checkpoint signatures, the signed head, and the anchor records. A failure is the
  entry it is reported at with a reason; the first one is kept.
\<close>

section \<open>The walk over the entries\<close>

datatype verify_reason =
    No_public_key string
  | No_counter
  | Wrong_counter int int
  | Bad_signature
  | Head_missing
  | Head_bad_signature
  | Head_stale

record CryptoVerifySegment =
  seg_start :: int
  seg_pubkey :: string
  seg_legacy :: bool

record walk_state =
  wk_segments :: "CryptoVerifySegment list"
  wk_pubkey :: "string option"
  wk_start :: int
  wk_expected :: int
  wk_valid :: bool
  wk_error :: "(int \<times> verify_reason) option"

definition fail_at :: "int \<Rightarrow> verify_reason \<Rightarrow> walk_state \<Rightarrow> walk_state" where
  "fail_at i reason s =
     s\<lparr>wk_valid := False, wk_error := (case wk_error s of None \<Rightarrow> Some (i, reason) | e \<Rightarrow> e)\<rparr>"

definition this_segment :: "walk_state \<Rightarrow> CryptoVerifySegment" where
  "this_segment s =
     \<lparr> seg_start = wk_start s, seg_pubkey = nullish (wk_pubkey s) [], seg_legacy = (wk_pubkey s = None) \<rparr>"

definition walk_keying :: "audit_row \<Rightarrow> walk_state \<Rightarrow> walk_state" where
  "walk_keying r s =
     (if \<not> is_keying r then s
      else if \<not> truthy_str (detailPubkey (au_detail r)) then fail_at (au_id r) (No_public_key (au_event r)) s
      else s\<lparr>wk_segments := wk_segments s @ [this_segment s], wk_pubkey := detailPubkey (au_detail r),
              wk_start := au_id r, wk_expected := nullish (au_counter r) 0\<rparr>)"

definition walk_counter :: "audit_row \<Rightarrow> walk_state \<Rightarrow> walk_state" where
  "walk_counter r s =
     (case au_counter r of
        None \<Rightarrow> fail_at (au_id r) No_counter s
      | Some n \<Rightarrow>
          if n \<noteq> wk_expected s then fail_at (au_id r) (Wrong_counter n (wk_expected s)) s
          else s\<lparr>wk_expected := wk_expected s + 1\<rparr>)"

definition checkpoint_ok :: "crypto \<Rightarrow> audit_row \<Rightarrow> string option \<Rightarrow> string \<Rightarrow> bool" where
  "checkpoint_ok c r key sig =
     (case (key, au_counter r) of
        (Some k, Some n) \<Rightarrow> c_verify c k (checkpointMessage (au_hash r) n k Checkpoint) sig
      | _ \<Rightarrow> False)"

definition walk_signature :: "crypto \<Rightarrow> audit_row \<Rightarrow> walk_state \<Rightarrow> walk_state" where
  "walk_signature c r s =
     (case au_sig r of
        None \<Rightarrow> s
      | Some sig \<Rightarrow>
          if checkpoint_ok c r (if is_keying r then detailPubkey (au_detail r) else wk_pubkey s) sig then s
          else fail_at (au_id r) Bad_signature s)"

definition walk_row :: "crypto \<Rightarrow> audit_row \<Rightarrow> walk_state \<Rightarrow> walk_state" where
  "walk_row c r s =
     (let s1 = walk_keying r s in
      if wk_pubkey s1 = None then s1 else walk_signature c r (walk_counter r s1))"

definition walk_log :: "crypto \<Rightarrow> audit_row list \<Rightarrow> walk_state" where
  "walk_log c rows =
     fold (walk_row c) rows
       \<lparr> wk_segments = [], wk_pubkey = None, wk_start = (if rows = [] then 0 else au_id (hd rows)),
         wk_expected = 0, wk_valid = True, wk_error = None \<rparr>"

section \<open>The head and the verdict\<close>

record head_verdict =
  hv_present :: bool
  hv_matches :: bool
  hv_counter :: "int option"
  hv_stale :: bool
  hv_entry :: "int option"

record CryptoVerifyResult =
  cv_chainValid :: bool
  cv_keyed :: bool
  cv_keyAvailable :: bool
  cv_signaturesValid :: bool
  cv_error :: "(int \<times> verify_reason) option"
  cv_segments :: "CryptoVerifySegment list"
  cv_head :: head_verdict

definition head_matches :: "crypto \<Rightarrow> head_row \<Rightarrow> bool" where
  "head_matches c h =
     (case hd_sig h of
        None \<Rightarrow> False
      | Some sig \<Rightarrow>
          c_verify c (hd_pubkey h) (checkpointMessage (hd_entry_hash h) (hd_counter h) (hd_pubkey h) Head) sig)"

definition head_stale :: "head_row \<Rightarrow> audit_row list \<Rightarrow> bool" where
  "head_stale h rows =
     (rows \<noteq> [] \<and> (hd_entry_id h \<noteq> au_id (last rows) \<or> hd_entry_hash h \<noteq> au_hash (last rows)))"

definition verify_head :: "crypto \<Rightarrow> bool \<Rightarrow> bool \<Rightarrow> audit_db \<Rightarrow> walk_state \<Rightarrow> head_verdict \<times> walk_state" where
  "verify_head c keyed keyAvailable db s =
     (case db_head db of
        None \<Rightarrow>
          (\<lparr> hv_present = False, hv_matches = False, hv_counter = None, hv_stale = False, hv_entry = None \<rparr>,
           if keyed then fail_at 0 Head_missing s else s)
      | Some h \<Rightarrow>
          (let ok = head_matches c h; stale = head_stale h (db_log db) in
           (\<lparr> hv_present = True, hv_matches = ok, hv_counter = Some (hd_counter h), hv_stale = stale,
              hv_entry = Some (hd_entry_id h) \<rparr>,
            if \<not> ok then fail_at (hd_entry_id h) Head_bad_signature s
            else if stale \<and> keyAvailable then fail_at (hd_entry_id h) Head_stale s else s)))"

definition verifySignedChain :: "crypto \<Rightarrow> audit_db \<Rightarrow> bool \<Rightarrow> bool \<Rightarrow> CryptoVerifyResult" where
  "verifySignedChain c db chainValid keyAvailable =
     (let s = walk_log c (db_log db);
          keyed = list_ex is_keying (db_log db);
          (hv, s') = verify_head c keyed keyAvailable db s
      in \<lparr> cv_chainValid = chainValid, cv_keyed = keyed, cv_keyAvailable = keyAvailable,
           cv_signaturesValid = (chainValid \<and> wk_valid s'), cv_error = wk_error s',
           cv_segments = wk_segments s @ [this_segment s], cv_head = hv \<rparr>)"

text \<open>
  The result of \<open>verifyCrypto\<close> of a workspace store, \<open>None\<close> when the replay of the chain throws;
  the process is left as \<open>verifyChain\<close> leaves it.
\<close>

definition verifyCrypto :: "crypto \<Rightarrow> audit_process \<Rightarrow> audit_db \<Rightarrow> CryptoVerifyResult option" where
  "verifyCrypto c p db =
     (case chain_verdict_of c db of
        Chain_threw \<Rightarrow> None
      | v \<Rightarrow> Some (verifySignedChain c db (v = Chain_valid) (auditIdentity p \<noteq> None)))"

text \<open>The exit code of \<open>xr audit verify --crypto\<close>.\<close>

definition exit_code :: "CryptoVerifyResult \<Rightarrow> int" where
  "exit_code r =
     (if \<not> cv_chainValid r \<or> \<not> cv_signaturesValid r then 1
      else if cv_keyed r \<and> \<not> cv_keyAvailable r then 2 else 0)"

section \<open>Anchors\<close>

datatype anchor_failure = Anchor_bad_signature | Anchor_no_entry

record AnchorVerifyResult =
  av_verified :: nat
  av_failed :: "(int \<times> anchor_failure) list"
  av_highest :: "int option"
  av_lag :: bool

text \<open>The map from counters to hashes keeps the last entry of a counter.\<close>

definition counter_hash :: "audit_row list \<Rightarrow> int \<Rightarrow> string option" where
  "counter_hash rows n = map_option au_hash (find (\<lambda>r. au_counter r = Some n) (rev rows))"

definition anchor_signed :: "crypto \<Rightarrow> anchor_row \<Rightarrow> bool" where
  "anchor_signed c a =
     c_verify c (an_pubkey a) (checkpointMessage (an_entry_hash a) (an_counter a) (an_pubkey a) Head) (an_sig a)"

definition check_anchor :: "crypto \<Rightarrow> audit_row list \<Rightarrow> anchor_row \<Rightarrow> anchor_failure option" where
  "check_anchor c rows a =
     (if \<not> anchor_signed c a then Some Anchor_bad_signature
      else if counter_hash rows (an_counter a) \<noteq> Some (an_entry_hash a) then Some Anchor_no_entry else None)"

definition verifyAnchorRecords :: "crypto \<Rightarrow> audit_db \<Rightarrow> AnchorVerifyResult" where
  "verifyAnchorRecords c db =
     (let good = filter (\<lambda>a. check_anchor c (db_log db) a = None) (db_anchors db);
          highest = (case map an_counter good of [] \<Rightarrow> None | x # xs \<Rightarrow> Some (fold max xs x));
          local_rows = filter (\<lambda>r. au_counter r \<noteq> None) (db_log db);
          maxLocal = (if local_rows = [] then None else au_counter (last local_rows))
      in \<lparr> av_verified = length good,
           av_failed = concat (map (\<lambda>a. case check_anchor c (db_log db) a of
                                         None \<Rightarrow> [] | Some e \<Rightarrow> [(an_counter a, e)]) (db_anchors db)),
           av_highest = highest,
           av_lag = (case (highest, maxLocal) of (Some h, Some m) \<Rightarrow> h < m | _ \<Rightarrow> False) \<rparr>)"

definition verifyAnchors :: "crypto \<Rightarrow> audit_process \<Rightarrow> audit_db \<Rightarrow> AnchorVerifyResult" where
  "verifyAnchors c p db =
     (if \<not> signedSchema p
      then \<lparr> av_verified = 0, av_failed = [], av_highest = None, av_lag = False \<rparr>
      else verifyAnchorRecords c db)"

text \<open>
  The record of a push: \<open>buildAnchorPayload\<close> of \<open>src/src/security/audit-anchor.ts\<close> with the sink
  it went to.
\<close>

definition anchor_of_head :: "string \<Rightarrow> int \<Rightarrow> head_row \<Rightarrow> anchor_row" where
  "anchor_of_head sink ts h =
     \<lparr> an_counter = hd_counter h, an_entry_hash = hd_entry_hash h, an_entry_id = hd_entry_id h,
       an_sig = nullish (hd_sig h) [], an_pubkey = hd_pubkey h, an_sink = sink, an_at = ts \<rparr>"

end
