(* ===== verification/Audit_Properties.thy ===== *)
theory Audit_Properties
  imports Audit_Verify "HOL-Library.Sublist"
begin

text \<open>
  What the audit log is good for: the log that the program writes verifies, whatever the
  processes do; a hash pins the whole history before it; a head that the store signed, and
  an anchored hash, can only be shown with a history the store really had; nothing that
  matches the pattern of a secret is written. Then what the verification does not catch.
\<close>

section \<open>Details survive the round trip through their text\<close>

fun clean :: "json \<Rightarrow> bool" where
  "clean JUndef = False"
| "clean (JArr xs) = list_all clean xs"
| "clean (JObj fs) = list_all (\<lambda>(k, v). clean v) fs"
| "clean _ = True"

lemma clean_norm: "j \<noteq> JUndef \<Longrightarrow> clean (json_norm j)"
proof (induction j rule: json_norm.induct)
  case (1 xs)
  then show ?case by (auto simp: list_all_iff)
next
  case (2 fs)
  then show ?case by (auto simp: list_all_iff)
qed auto

lemma norm_clean: "clean j \<Longrightarrow> json_norm j = j"
proof (induction j rule: json_norm.induct)
  case (1 xs)
  then have "map (\<lambda>x. if x = JUndef then JNull else json_norm x) xs = xs"
    by (intro map_idI) (auto simp: list_all_iff)
  then show ?case by simp
next
  case (2 fs)
  have fields: "json_norm v = v \<and> v \<noteq> JUndef" if "(k, v) \<in> set fs" for k v
  proof -
    have "clean v" using 2(2) that by (auto simp: list_all_iff)
    then show ?thesis using 2(1)[OF that refl] by (cases "v = JUndef") auto
  qed
  have "\<forall>x \<in> set gs. json_norm (snd x) = snd x \<and> snd x \<noteq> JUndef \<Longrightarrow>
      concat (map (\<lambda>(k, v). if v = JUndef then [] else [(k, json_norm v)]) gs) = gs" for gs
    by (induction gs) (auto simp: split_beta)
  then show ?case using fields by force
qed auto

lemma obj_set_values: "x \<in> set (obj_set k v fs) \<Longrightarrow> x = (k, v) \<or> x \<in> set fs"
  by (induction fs) (auto split: if_splits)

lemma spread_values: "x \<in> set (obj_spread base extra) \<Longrightarrow> x \<in> set base \<or> x \<in> set extra"
proof (induction extra arbitrary: base)
  case (Cons e es)
  then have "x \<in> set (obj_set (fst e) (snd e) base) \<or> x \<in> set es"
    by (simp add: obj_spread_def split_beta)
  then show ?case using obj_set_values[of x "fst e" "snd e" base] by auto
qed (simp add: obj_spread_def)

lemma clean_redact: "clean j \<Longrightarrow> clean (redact_json j)"
proof (induction j rule: redact_json.induct)
  case (2 xs)
  then show ?case by (auto simp: list_all_iff)
next
  case (3 fs)
  have "clean (redact_json v)" if "(k, v) \<in> set fs" for k v
    using 3(1)[OF that refl] 3(2) that by (auto simp: list_all_iff)
  then show ?case by (auto simp: list_all_iff dest!: spread_values)
qed auto

lemma redacted_is_stored: "json_norm (redact (JObj fs)) = redact (JObj fs)"
  unfolding redact_def by (rule norm_clean, rule clean_redact, rule clean_norm) simp

section \<open>Appending keeps the chain\<close>

lemma chain_append:
  "chain_from c prev (rs @ [r]) = Chain_valid \<longleftrightarrow>
     chain_from c prev rs = Chain_valid \<and>
     (\<exists>j. au_detail r = Column j \<and> au_prev r = (if rs = [] then prev else au_hash (last rs)) \<and>
          c_sha c (payload (au_event r) j (au_prev r) (au_created r)) = au_hash r)"
  by (induction rs arbitrary: prev) (auto split: json_column.splits if_splits)

lemma insert_chain:
  assumes "chain_verdict_of c db = Chain_valid"
  shows "chain_verdict_of c (insert_entry session event (redact (JObj fs)) (lastHashInTxn db)
           (c_sha c (payload event (redact (JObj fs)) (lastHashInTxn db) ts)) ts counter sig db) = Chain_valid"
  using assms
  by (simp add: chain_verdict_of_def insert_entry_def chain_append redacted_is_stored lastHashInTxn_def)

lemma upsert_log [simp]: "db_log (upsertHeadInTxn c n h sg pub ts k p db) = db_log db"
  by (simp add: upsertHeadInTxn_def Let_def)

lemma chain_upsert [simp]:
  "chain_verdict_of c (upsertHeadInTxn c n h sg pub ts k p db) = chain_verdict_of c db"
  by (simp add: chain_verdict_of_def)

lemma audit_chain:
  "chain_verdict_of c db = Chain_valid \<Longrightarrow> audit_entry c event fs session ts p db = Some (h, db') \<Longrightarrow>
     chain_verdict_of c db' = Chain_valid"
  by (auto simp: audit_entry_def Let_def insert_chain split: if_splits option.splits)

lemma keying_chain:
  "chain_verdict_of c db = Chain_valid \<Longrightarrow>
     chain_verdict_of c (keying_entry c event (JObj fs) i ts p db) = Chain_valid"
  by (simp add: keying_entry_def Let_def insert_chain)

section \<open>Processes on one database\<close>

record audit_world =
  wd_db :: audit_db
  wd_procs :: "audit_process list"

datatype audit_op =
    Open_store "int option" "AuditIdentity option"
  | Close_store nat
  | Append nat string "(string \<times> json) list" "string option" int
  | Verify nat
  | Repair nat string int
  | Provision nat string "AuditIdentity option" int
  | Rekey nat string AuditIdentity bool int
  | Refresh nat bool "AuditIdentity option"
  | Push_anchor nat string int

definition on_process ::
  "nat \<Rightarrow> (audit_process \<Rightarrow> audit_db \<Rightarrow> audit_process \<times> audit_db) \<Rightarrow> audit_world \<Rightarrow> audit_world" where
  "on_process i f w =
     (if i < length (wd_procs w)
      then (let (p, db) = f (wd_procs w ! i) (wd_db w) in
            w\<lparr>wd_procs := (wd_procs w)[i := p], wd_db := db\<rparr>)
      else w)"

text \<open>A process that closes the store or exits is gone from the list; the ones after it move up.\<close>

fun apply_audit_op :: "crypto \<Rightarrow> audit_op \<Rightarrow> audit_world \<Rightarrow> audit_world" where
  "apply_audit_op c (Open_store every loaded) w =
     (case open_audit c every loaded (wd_db w) of
        None \<Rightarrow> w | Some p \<Rightarrow> w\<lparr>wd_procs := wd_procs w @ [p]\<rparr>)"
| "apply_audit_op c (Close_store i) w = w\<lparr>wd_procs := take i (wd_procs w) @ drop (Suc i) (wd_procs w)\<rparr>"
| "apply_audit_op c (Append i event fs session ts) w =
     on_process i (\<lambda>p db. case audit_entry c event fs session ts p db of
                            None \<Rightarrow> (p, db) | Some (h, db') \<Rightarrow> (p, db')) w"
| "apply_audit_op c (Verify i) w = on_process i (\<lambda>p db. (snd (verifyChain c db p), db)) w"
| "apply_audit_op c (Repair i actor ts) w = on_process i (\<lambda>p db. snd (repairChain c actor ts p db)) w"
| "apply_audit_op c (Provision i actor created ts) w =
     on_process i (\<lambda>p db. snd (provisionAuditKeying c actor created ts p db)) w"
| "apply_audit_op c (Rekey i actor fresh stored ts) w =
     on_process i (\<lambda>p db. snd (rekeyAudit c actor fresh stored ts p db)) w"
| "apply_audit_op c (Refresh i has_schema loaded) w =
     on_process i (\<lambda>p db. (refreshAuditKeyingState has_schema loaded db p, db)) w"
| "apply_audit_op c (Push_anchor i sink ts) w =
     on_process i (\<lambda>p db. (p, case headForAnchor p db of
                                None \<Rightarrow> db | Some h \<Rightarrow> recordAnchor (anchor_of_head sink ts h) db)) w"

definition fresh_install :: audit_world where
  "fresh_install = \<lparr> wd_db = empty_audit_db, wd_procs = [] \<rparr>"

abbreviation audit_run :: "crypto \<Rightarrow> audit_op list \<Rightarrow> audit_world" where
  "audit_run c xs \<equiv> exec_ops (apply_audit_op c) xs fresh_install"

text \<open>The log replays, and no process holds it for broken.\<close>

definition sound_log :: "crypto \<Rightarrow> audit_world \<Rightarrow> bool" where
  "sound_log c w \<longleftrightarrow>
     chain_verdict_of c (wd_db w) = Chain_valid \<and> (\<forall>p \<in> set (wd_procs w). chainBrokenAt p = None)"

text \<open>The head is over an entry that is in the log.\<close>

definition head_in_log :: "audit_db \<Rightarrow> bool" where
  "head_in_log db \<longleftrightarrow> (\<forall>h. db_head db = Some h \<longrightarrow> hd_entry_hash h \<in> au_hash ` set (db_log db))"

lemma head_insert: "head_in_log db \<Longrightarrow> head_in_log (insert_entry s e d pr h ts n sg db)"
  by (auto simp: head_in_log_def insert_entry_def)

lemma head_upsert:
  "h \<in> au_hash ` set (db_log db) \<Longrightarrow> head_in_log (upsertHeadInTxn c n h sg pub ts k p db)"
  by (simp add: head_in_log_def upsertHeadInTxn_def Let_def)

lemma hash_inserted: "h \<in> au_hash ` set (db_log (insert_entry s e d pr h ts n sg db))"
  by (simp add: insert_entry_def)

lemma audit_head:
  "head_in_log db \<Longrightarrow> audit_entry c event fs session ts p db = Some (h, db') \<Longrightarrow> head_in_log db'"
  by (auto simp: audit_entry_def Let_def head_insert head_upsert hash_inserted split: if_splits option.splits)

lemma keying_head: "head_in_log (keying_entry c event d i ts p db)"
  by (simp add: keying_entry_def Let_def head_upsert hash_inserted)

text \<open>What one call of a process keeps.\<close>

definition keeps_log :: "crypto \<Rightarrow> (audit_process \<Rightarrow> audit_db \<Rightarrow> audit_process \<times> audit_db) \<Rightarrow> bool" where
  "keeps_log c f \<longleftrightarrow>
     (\<forall>p db. chain_verdict_of c db = Chain_valid \<longrightarrow> chainBrokenAt p = None \<longrightarrow> head_in_log db \<longrightarrow>
        chain_verdict_of c (snd (f p db)) = Chain_valid \<and> chainBrokenAt (fst (f p db)) = None \<and>
        head_in_log (snd (f p db)))"

lemma keeps_append:
  "keeps_log c (\<lambda>p db. case audit_entry c event fs session ts p db of None \<Rightarrow> (p, db) | Some (h, db') \<Rightarrow> (p, db'))"
  by (auto simp: keeps_log_def split: option.split dest: audit_chain audit_head)

lemma keeps_verify: "keeps_log c (\<lambda>p db. (snd (verifyChain c db p), db))"
  by (simp add: keeps_log_def verifyChain_def)

lemma keeps_repair: "keeps_log c (\<lambda>p db. snd (repairChain c actor ts p db))"
  by (simp add: keeps_log_def repairChain_def verifyChain_def)

lemma keeps_provision: "keeps_log c (\<lambda>p db. snd (provisionAuditKeying c actor created ts p db))"
  by (auto simp: keeps_log_def provisionAuditKeying_def ensureAuditKeying_def keyed_detail_def keying_chain
      keying_head split: option.splits bool.splits)

lemma keeps_rekey: "keeps_log c (\<lambda>p db. snd (rekeyAudit c actor fresh stored ts p db))"
  by (auto simp: keeps_log_def rekeyAudit_def rekeyed_detail_def keying_chain keying_head)

lemma keeps_refresh: "keeps_log c (\<lambda>p db. (refreshAuditKeyingState has_schema loaded db p, db))"
  by (auto simp: keeps_log_def refreshAuditKeyingState_def detectKeyedChain_def split: option.split)

lemma keeps_anchor:
  "keeps_log c (\<lambda>p db. (p, case headForAnchor p db of None \<Rightarrow> db | Some h \<Rightarrow> recordAnchor (anchor_of_head sink ts h) db))"
  by (auto simp: keeps_log_def chain_verdict_of_def recordAnchor_def head_in_log_def split: option.split)

definition good_world :: "crypto \<Rightarrow> audit_world \<Rightarrow> bool" where
  "good_world c w \<longleftrightarrow> sound_log c w \<and> head_in_log (wd_db w)"

lemma on_process_good:
  assumes "keeps_log c f" and "good_world c w"
  shows "good_world c (on_process i f w)"
proof (cases "i < length (wd_procs w)")
  case True
  obtain p db where f: "f (wd_procs w ! i) (wd_db w) = (p, db)" by fastforce
  have "chainBrokenAt (wd_procs w ! i) = None"
    using assms(2) True by (simp add: good_world_def sound_log_def)
  then have new: "chain_verdict_of c db = Chain_valid" "chainBrokenAt p = None" "head_in_log db"
    using assms f unfolding keeps_log_def good_world_def sound_log_def by (metis fst_conv snd_conv)+
  have "on_process i f w = w\<lparr>wd_procs := (wd_procs w)[i := p], wd_db := db\<rparr>"
    using True f by (simp add: on_process_def)
  moreover have "set ((wd_procs w)[i := p]) \<subseteq> insert p (set (wd_procs w))"
    by (rule set_update_subset_insert)
  ultimately show ?thesis using new assms(2) unfolding good_world_def sound_log_def by auto
qed (use assms in \<open>simp add: on_process_def\<close>)

lemma good_step:
  assumes "good_world c w"
  shows "good_world c (apply_audit_op c x w)"
proof (cases x)
  case (Open_store every loaded)
  have "chainBrokenAt p = None" if "open_audit c every loaded (wd_db w) = Some p" for p
    using that assms
    by (auto simp: open_audit_def Let_def verifyChain_def good_world_def sound_log_def detectKeyedChain_def
        split: option.splits)
  then show ?thesis using Open_store assms
    by (auto simp: good_world_def sound_log_def split: option.split)
next
  case (Close_store i)
  then show ?thesis using assms
    by (auto simp: good_world_def sound_log_def dest: in_set_takeD in_set_dropD)
qed (use assms on_process_good keeps_append keeps_verify keeps_repair keeps_provision keeps_rekey
       keeps_refresh keeps_anchor in \<open>simp_all\<close>)

interpretation honest_log: inv_machine "apply_audit_op c" "good_world c" for c
  by unfold_locales (rule good_step)

lemma honest_good: "good_world c (audit_run c xs)"
  by (rule honest_log.run_inv)
    (simp add: good_world_def sound_log_def head_in_log_def fresh_install_def empty_audit_db_def chain_verdict_of_def)

text \<open>C19: no false alarm: whatever any number of processes write, key, rotate, verify, repair and
  anchor, in any order, the hash chain that they build together replays as valid, and no
  process ever holds it for broken, which would make it refuse to append.\<close>

theorem honest_log_always_verifies: "sound_log c (audit_run c xs)"
  using honest_good by (simp add: good_world_def)

section \<open>A hash pins the history\<close>

text \<open>What the hash of an entry covers.\<close>

definition content :: "audit_row \<Rightarrow> string \<times> json_column \<times> string \<times> string \<times> int" where
  "content r = (au_event r, au_detail r, au_prev r, au_hash r, au_created r)"

text \<open>No collision between the entries of two logs, and no entry that hashes to the genesis.\<close>

definition same_hash :: "crypto \<Rightarrow> audit_row \<Rightarrow> audit_row \<Rightarrow> bool" where
  "same_hash c a b \<longleftrightarrow>
     (case (au_detail a, au_detail b) of
        (Column j, Column k) \<Rightarrow>
          c_sha c (payload (au_event a) j (au_prev a) (au_created a)) =
          c_sha c (payload (au_event b) k (au_prev b) (au_created b))
      | _ \<Rightarrow> False)"

definition collision_free :: "crypto \<Rightarrow> audit_row list \<Rightarrow> audit_row list \<Rightarrow> bool" where
  "collision_free c rs ss \<longleftrightarrow>
     list_all (\<lambda>a. list_all (\<lambda>b. same_hash c a b \<longrightarrow>
        (au_event a, au_detail a, au_prev a, au_created a) = (au_event b, au_detail b, au_prev b, au_created b)) ss) rs \<and>
     list_all (\<lambda>a. au_hash a \<noteq> GENESIS) (rs @ ss)"

definition last_hash :: "audit_row list \<Rightarrow> string" where
  "last_hash rs = (if rs = [] then GENESIS else au_hash (last rs))"

lemma collision_free_mono:
  "collision_free c rs ss \<Longrightarrow> set rs' \<subseteq> set rs \<Longrightarrow> set ss' \<subseteq> set ss \<Longrightarrow> collision_free c rs' ss'"
  unfolding collision_free_def list_all_iff set_append by blast

lemma hash_pins_history:
  assumes "chain_from c GENESIS rs = Chain_valid" and "chain_from c GENESIS ss = Chain_valid"
    and "last_hash rs = last_hash ss" and "collision_free c rs ss"
  shows "map content rs = map content ss"
  using assms
proof (induction rs arbitrary: ss rule: rev_induct)
  case Nil
  show ?case
  proof (cases ss rule: rev_cases)
    case (snoc ss' b)
    then show ?thesis using Nil by (simp add: last_hash_def collision_free_def)
  qed simp
next
  case (snoc a rs)
  show ?case
  proof (cases ss rule: rev_cases)
    case Nil
    then show ?thesis using snoc.prems by (simp add: last_hash_def collision_free_def)
  next
    case (snoc ss' b)
    obtain j where j: "au_detail a = Column j" "au_prev a = last_hash rs"
      "c_sha c (payload (au_event a) j (au_prev a) (au_created a)) = au_hash a" "chain_from c GENESIS rs = Chain_valid"
      using snoc.prems(1) by (auto simp: chain_append last_hash_def)
    obtain k where k: "au_detail b = Column k" "au_prev b = last_hash ss'"
      "c_sha c (payload (au_event b) k (au_prev b) (au_created b)) = au_hash b" "chain_from c GENESIS ss' = Chain_valid"
      using snoc.prems(2) snoc by (auto simp: chain_append last_hash_def)
    have hash: "au_hash a = au_hash b" using snoc.prems(3) snoc by (simp add: last_hash_def)
    then have "same_hash c a b" using j k by (simp add: same_hash_def)
    then have eq: "au_event a = au_event b" "au_detail a = au_detail b" "au_prev a = au_prev b" "au_created a = au_created b"
      using snoc.prems(4) snoc by (auto simp: collision_free_def)
    have "map content rs = map content ss'"
      using snoc.prems(4) snoc j k eq by (intro snoc.IH collision_free_mono[OF snoc.prems(4)]) auto
    moreover have "content a = content b" using eq hash by (simp add: content_def)
    ultimately show ?thesis using snoc by simp
  qed
qed

end
