(* ===== verification/Audit_Signing.thy ===== *)
theory Audit_Signing
  imports Audit_Properties
begin

text \<open>
  The signed log passes the crypto verification at every moment, through keying, rotation and
  every append, as long as no process is left behind by a change of the key.
\<close>

section \<open>Counters and keys\<close>

definition good_id :: "crypto \<Rightarrow> AuditIdentity \<Rightarrow> bool" where
  "good_id c i \<longleftrightarrow>
     (\<forall>m. c_verify c (publicKeyB64 i) m (c_sign c (privateKeyB64 i) m)) \<and>
     publicKeyB64 i \<noteq> [] \<and> redact_string (publicKeyB64 i) = publicKeyB64 i"

lemma counters_insert:
  "counters (insert_entry s e d pr h ts n sg db) = counters db @ (case n of None \<Rightarrow> [] | Some k \<Rightarrow> [k])"
  by (simp add: counters_def insert_entry_def)

lemma next_insert:
  "nextCounterInTxn (insert_entry s e d pr h ts (Some (nextCounterInTxn db)) sg db) = nextCounterInTxn db + 1"
  by (cases "counters db") (simp_all add: nextCounterInTxn_def counters_insert)

lemma counters_upsert [simp]: "counters (upsertHeadInTxn c n h sg pub ts k p db) = counters db"
  by (simp add: counters_def)

lemma next_upsert [simp]: "nextCounterInTxn (upsertHeadInTxn c n h sg pub ts k p db) = nextCounterInTxn db"
  by (simp add: nextCounterInTxn_def)

lemma map_of_spread:
  "map_of (obj_spread base extra) k = (case map_of (rev extra) k of None \<Rightarrow> map_of base k | Some v \<Rightarrow> Some v)"
proof (induction extra arbitrary: base)
  case (Cons e es)
  have "obj_spread base (e # es) = obj_spread (obj_set (fst e) (snd e) base) es"
    by (simp add: obj_spread_def split_beta)
  then show ?case using Cons
    by (auto simp: map_of_obj_set map_add_def split: option.splits)
qed (simp add: obj_spread_def)

declare redact_string.simps [simp del]

lemma literal_keys:
  "redact_string ''pubkey'' = ''pubkey''" "redact_string ''fingerprint'' = ''fingerprint''"
  "redact_string ''actor'' = ''actor''" "redact_string ''note'' = ''note''"
  "redact_string ''previousPubkey'' = ''previousPubkey''"
  by code_simp+

text \<open>A redacted detail keeps a key and a text that redaction leaves alone.\<close>

lemma redacted_field:
  assumes "map_of (rev (map (\<lambda>(k, v). (redact_string k, redact_json v)) fs)) k = Some v"
    and "list_all (\<lambda>(k, v). clean v) fs"
  shows "json_field (redact (JObj fs)) k = v"
proof -
  have "json_norm (JObj fs) = JObj fs" using assms(2) by (intro norm_clean) simp
  then show ?thesis using assms(1) by (simp add: redact_def obj_get_def map_of_spread)
qed

lemma keyed_pubkey:
  assumes "good_id c i"
  shows "detailPubkey (Column (json_norm (redact (keyed_detail i actor)))) = Some (publicKeyB64 i)"
    and "detailPubkey (Column (json_norm (redact (rekeyed_detail i old actor)))) = Some (publicKeyB64 i)"
proof -
  have pub: "redact_string (publicKeyB64 i) = publicKeyB64 i" using assms by (simp add: good_id_def)
  have "json_field (redact (keyed_detail i actor)) ''pubkey'' = JStr (publicKeyB64 i)"
    unfolding keyed_detail_def by (rule redacted_field) (simp_all add: literal_keys pub)
  then show "detailPubkey (Column (json_norm (redact (keyed_detail i actor)))) = Some (publicKeyB64 i)"
    unfolding keyed_detail_def redacted_is_stored by (simp add: detailPubkey_def)
  have "json_field (redact (rekeyed_detail i old actor)) ''pubkey'' = JStr (publicKeyB64 i)"
    unfolding rekeyed_detail_def
    by (rule redacted_field) (simp_all add: literal_keys pub split: option.split)
  then show "detailPubkey (Column (json_norm (redact (rekeyed_detail i old actor)))) = Some (publicKeyB64 i)"
    unfolding rekeyed_detail_def redacted_is_stored by (simp add: detailPubkey_def)
qed

section \<open>The walk, one entry at a time\<close>

definition core :: "walk_state \<Rightarrow> string option \<times> int \<times> bool" where
  "core s = (wk_pubkey s, wk_expected s, wk_valid s)"

lemma core_fail [simp]: "core (fail_at i e s) = (wk_pubkey s, wk_expected s, False)"
  by (simp add: core_def fail_at_def)

lemma core_walk: "core s = core s' \<Longrightarrow> core (walk_row c r s) = core (walk_row c r s')"
  by (auto simp: core_def walk_row_def walk_keying_def walk_counter_def walk_signature_def fail_at_def Let_def
      split: option.split)

lemma core_fold: "core s = core s' \<Longrightarrow> core (fold (walk_row c) rows s) = core (fold (walk_row c) rows s')"
proof (induction rows arbitrary: s s')
  case (Cons r rows)
  show ?case using Cons.IH[OF core_walk[OF Cons.prems, of c r]] by simp
qed simp

lemma core_snoc: "core (walk_log c (rows @ [r])) = core (walk_row c r (walk_log c rows))"
proof -
  let ?s = "\<lambda>n. \<lparr> wk_segments = [], wk_pubkey = None, wk_start = n, wk_expected = 0, wk_valid = True, wk_error = None \<rparr>"
  have "core (fold (walk_row c) rows (?s n)) = core (fold (walk_row c) rows (?s m))" for n m
    by (rule core_fold) (simp add: core_def)
  then have "core (walk_row c r (fold (walk_row c) rows (?s n))) = core (walk_row c r (fold (walk_row c) rows (?s m)))" for n m
    by (rule core_walk)
  then show ?thesis by (simp add: walk_log_def)
qed

text \<open>The key of the last keying entry.\<close>

definition signing_key :: "audit_db \<Rightarrow> string option" where
  "signing_key db = (case last_keying db of None \<Rightarrow> None | Some r \<Rightarrow> detailPubkey (au_detail r))"

lemma last_keying_snoc:
  "db_log db' = db_log db @ [r] \<Longrightarrow> last_keying db' = (if is_keying r then Some r else last_keying db)"
  by (simp add: last_keying_def)

text \<open>A state of the database in which the crypto verification finds nothing.\<close>

definition signed_state :: "crypto \<Rightarrow> audit_db \<Rightarrow> bool" where
  "signed_state c db \<longleftrightarrow>
     (let s = walk_log c (db_log db) in
      wk_valid s \<and>
      (if list_ex is_keying (db_log db)
       then wk_pubkey s \<noteq> None \<and> wk_pubkey s = signing_key db \<and> wk_expected s = nextCounterInTxn db \<and>
            (\<exists>h. db_head db = Some h \<and> head_matches c h \<and> \<not> head_stale h (db_log db))
       else wk_pubkey s = None \<and> counters db = [] \<and> db_head db = None))"

lemma signed_state_verifies:
  assumes "signed_state c db" and "chain_verdict_of c db = Chain_valid"
    and "auditIdentity p \<noteq> None \<or> \<not> list_ex is_keying (db_log db)"
  shows "\<exists>res. verifyCrypto c p db = Some res \<and> exit_code res = 0"
  using assms
  by (auto simp: verifyCrypto_def signed_state_def verifySignedChain_def verify_head_def exit_code_def Let_def
      split: if_splits)

text \<open>A head that a key signed over the entry that was just inserted.\<close>

lemma fresh_head:
  assumes "good_id c i"
  shows "\<exists>h. db_head (upsertHeadInTxn c n hash sg (publicKeyB64 i) ts (Some (privateKeyB64 i)) p
              (insert_entry s e d pr hash ts k sg' db)) = Some h \<and> head_matches c h \<and>
           \<not> head_stale h (db_log (insert_entry s e d pr hash ts k sg' db))"
  using assms by (simp add: upsertHeadInTxn_def Let_def head_matches_def head_stale_def insert_entry_def good_id_def)

lemma walk_plain:
  assumes "au_event r \<noteq> ''audit.keyed''" "au_event r \<noteq> ''audit.rekey''" "wk_pubkey s = Some k"
    and "au_counter r = Some (wk_expected s)"
    and "\<And>sig. au_sig r = Some sig \<Longrightarrow> c_verify c k (checkpointMessage (au_hash r) (wk_expected s) k Checkpoint) sig"
  shows "core (walk_row c r s) = (Some k, wk_expected s + 1, wk_valid s)"
  using assms
  by (auto simp: core_def walk_row_def walk_keying_def is_keying_def walk_counter_def walk_signature_def
      checkpoint_ok_def split: option.split)

lemma walk_unkeyed:
  "\<not> is_keying r \<Longrightarrow> wk_pubkey s = None \<Longrightarrow> walk_row c r s = s"
  by (simp add: walk_row_def walk_keying_def)

lemma walk_key:
  assumes "is_keying r" and "detailPubkey (au_detail r) = Some k" "k \<noteq> []" "au_counter r = Some n"
    and "\<And>sig. au_sig r = Some sig \<Longrightarrow> c_verify c k (checkpointMessage (au_hash r) n k Checkpoint) sig"
  shows "core (walk_row c r s) = (Some k, n + 1, wk_valid s)"
  using assms
  by (auto simp: core_def walk_row_def walk_keying_def walk_counter_def walk_signature_def checkpoint_ok_def
      split: option.split)

section \<open>Appending and keying\<close>

lemma entry_signed:
  assumes db: "signed_state c db" and keyed: "list_ex is_keying (db_log db)"
    and p: "auditKeyedOnDisk p" "auditIdentity p = Some i" "signedSchema p" "good_id c i"
    and pub: "signing_key db = Some k"
    and event: "event \<noteq> ''audit.keyed''" "event \<noteq> ''audit.rekey''"
    and same_key: "k \<noteq> publicKeyB64 i \<Longrightarrow> \<not> is_boundary event \<and> nextCounterInTxn db mod signEvery p \<noteq> signEvery p - 1"
    and res: "audit_entry c event fs session ts p db = Some (h, db')"
  shows "signed_state c db' \<and> list_ex is_keying (db_log db') \<and> signing_key db' = Some k"
proof -
  let ?safe = "redact (JObj fs)" and ?prev = "lastHashInTxn db" and ?n = "nextCounterInTxn db"
  let ?hash = "c_sha c (payload event ?safe ?prev ts)"
  let ?sig = "if is_boundary event \<or> ?n mod signEvery p = signEvery p - 1
    then Some (c_sign c (privateKeyB64 i) (checkpointMessage ?hash ?n (publicKeyB64 i) Checkpoint)) else None"
  let ?db1 = "insert_entry session event ?safe ?prev ?hash ts (Some ?n) ?sig db"
  have db': "db' = upsertHeadInTxn c ?n ?hash ?sig (publicKeyB64 i) ts (Some (privateKeyB64 i)) p ?db1"
    using res p by (auto simp: audit_entry_def Let_def split: if_splits)
  let ?r = "last (db_log ?db1)"
  have log: "db_log db' = db_log db @ [?r]" by (simp add: db' insert_entry_def)
  have r: "au_event ?r = event" "au_counter ?r = Some ?n" "au_hash ?r = ?hash" "au_sig ?r = ?sig"
    by (simp_all add: insert_entry_def)
  have s: "wk_expected (walk_log c (db_log db)) = ?n" "wk_valid (walk_log c (db_log db))"
    "wk_pubkey (walk_log c (db_log db)) = Some k"
    using db keyed pub by (auto simp: signed_state_def Let_def)
  have "core (walk_row c ?r (walk_log c (db_log db))) = (Some k, wk_expected (walk_log c (db_log db)) + 1,
      wk_valid (walk_log c (db_log db)))"
  proof (rule walk_plain)
    fix sig assume sig: "au_sig ?r = Some sig"
    then have "?sig = Some sig" by (simp only: r)
    then have "k = publicKeyB64 i \<and> sig = c_sign c (privateKeyB64 i) (checkpointMessage ?hash ?n (publicKeyB64 i) Checkpoint)"
      using same_key by (auto split: if_splits)
    then show "c_verify c k (checkpointMessage (au_hash ?r) (wk_expected (walk_log c (db_log db))) k Checkpoint) sig"
      using p(4) unfolding r s good_id_def by simp
  qed (use event s in \<open>simp_all add: r\<close>)
  then have core: "wk_pubkey (walk_log c (db_log db')) = Some k" "wk_expected (walk_log c (db_log db')) = ?n + 1"
    "wk_valid (walk_log c (db_log db'))"
    using core_snoc[of c "db_log db" ?r] s unfolding log by (simp_all add: core_def)
  have "nextCounterInTxn db' = ?n + 1" unfolding db' by (simp only: next_upsert next_insert)
  moreover have "\<exists>h. db_head db' = Some h \<and> head_matches c h \<and> \<not> head_stale h (db_log db')"
    using fresh_head[OF p(4)] unfolding db' upsert_log by blast
  moreover have "signing_key db' = Some k"
    using last_keying_snoc[OF log] pub event by (simp add: signing_key_def is_keying_def r)
  ultimately show ?thesis using core keyed log by (simp add: signed_state_def Let_def)
qed

lemma plain_entry_signed:
  assumes db: "signed_state c db" and unkeyed: "\<not> list_ex is_keying (db_log db)"
    and p: "\<not> auditKeyedOnDisk p" and event: "event \<noteq> ''audit.keyed''" "event \<noteq> ''audit.rekey''"
    and res: "audit_entry c event fs session ts p db = Some (h, db')"
  shows "signed_state c db' \<and> \<not> list_ex is_keying (db_log db')"
proof -
  obtain r where log: "db_log db' = db_log db @ [r]" "au_event r = event" "au_counter r = None"
    and head: "db_head db' = db_head db"
    using res p by (auto simp: audit_entry_def Let_def insert_entry_def split: if_splits)
  have key: "\<not> is_keying r" using log(2) event by (simp add: is_keying_def)
  have s: "wk_pubkey (walk_log c (db_log db)) = None" "wk_valid (walk_log c (db_log db))" "counters db = []" "db_head db = None"
    using db unkeyed by (auto simp: signed_state_def Let_def)
  have "core (walk_log c (db_log db')) = core (walk_log c (db_log db))"
    unfolding log(1) core_snoc using walk_unkeyed[OF key s(1)] by simp
  then show ?thesis
    using s key unkeyed log head by (simp add: signed_state_def Let_def core_def counters_def)
qed

lemma keying_signed:
  assumes db: "signed_state c db" and i: "good_id c i"
    and event: "event = ''audit.keyed'' \<or> event = ''audit.rekey''"
    and detail: "detailPubkey (Column (json_norm (redact detail))) = Some (publicKeyB64 i)"
  shows "signed_state c (keying_entry c event detail i ts p db) \<and>
    signing_key (keying_entry c event detail i ts p db) = Some (publicKeyB64 i) \<and>
    list_ex is_keying (db_log (keying_entry c event detail i ts p db))"
proof -
  let ?db' = "keying_entry c event detail i ts p db" and ?n = "nextCounterInTxn db"
  let ?hash = "c_sha c (payload event (redact detail) (lastHashInTxn db) ts)"
  let ?sig = "c_sign c (privateKeyB64 i) (checkpointMessage ?hash ?n (publicKeyB64 i) Checkpoint)"
  let ?db1 = "insert_entry None event (redact detail) (lastHashInTxn db) ?hash ts (Some ?n) (Some ?sig) db"
  have db': "?db' = upsertHeadInTxn c ?n ?hash (Some ?sig) (publicKeyB64 i) ts (Some (privateKeyB64 i)) p ?db1"
    by (simp add: keying_entry_def Let_def)
  let ?r = "last (db_log ?db1)"
  have log: "db_log ?db' = db_log db @ [?r]" unfolding db' upsert_log by (simp add: insert_entry_def)
  have r: "au_event ?r = event" "au_counter ?r = Some ?n" "au_hash ?r = ?hash" "au_sig ?r = Some ?sig"
    "au_detail ?r = Column (json_norm (redact detail))"
    by (simp_all add: insert_entry_def)
  have keying: "is_keying ?r" using event by (simp add: is_keying_def r)
  have valid: "wk_valid (walk_log c (db_log db))" using db by (auto simp: signed_state_def Let_def)
  have "core (walk_row c ?r (walk_log c (db_log db))) = (Some (publicKeyB64 i), ?n + 1, wk_valid (walk_log c (db_log db)))"
    by (rule walk_key[OF keying]) (use i detail in \<open>auto simp only: r good_id_def option.inject\<close>)
  then have core: "wk_pubkey (walk_log c (db_log ?db')) = Some (publicKeyB64 i)"
    "wk_expected (walk_log c (db_log ?db')) = ?n + 1" "wk_valid (walk_log c (db_log ?db'))"
    using core_snoc[of c "db_log db" ?r] valid unfolding log by (simp_all add: core_def)
  have "nextCounterInTxn ?db' = ?n + 1" unfolding db' by (simp only: next_upsert next_insert)
  moreover have "\<exists>h. db_head ?db' = Some h \<and> head_matches c h \<and> \<not> head_stale h (db_log ?db')"
    using fresh_head[OF i] unfolding db' upsert_log by blast
  moreover have "signing_key ?db' = Some (publicKeyB64 i)"
    using last_keying_snoc[OF log] keying detail by (simp only: signing_key_def if_True option.case r)
  moreover have "list_ex is_keying (db_log ?db')" unfolding log using keying by simp
  ultimately show ?thesis using core by (simp add: signed_state_def Let_def)
qed

section \<open>Processes in step\<close>

text \<open>What a process remembers agrees with the log, and it has the key that signs.\<close>

definition has_key :: "crypto \<Rightarrow> AuditIdentity option \<Rightarrow> audit_db \<Rightarrow> bool" where
  "has_key c loaded db \<longleftrightarrow> (\<exists>i. loaded = Some i \<and> good_id c i \<and> signing_key db = Some (publicKeyB64 i))"

definition in_step :: "crypto \<Rightarrow> audit_db \<Rightarrow> audit_process \<Rightarrow> bool" where
  "in_step c db p \<longleftrightarrow>
     signedSchema p \<and> auditKeyedOnDisk p = list_ex is_keying (db_log db) \<and>
     (auditKeyedOnDisk p \<longrightarrow> has_key c (auditIdentity p) db)"

lemma in_step_cong:
  "list_ex is_keying (db_log db') = list_ex is_keying (db_log db) \<Longrightarrow> signing_key db' = signing_key db \<Longrightarrow>
     in_step c db' p = in_step c db p"
  by (simp add: in_step_def has_key_def)

definition orderly_state :: "crypto \<Rightarrow> audit_world \<Rightarrow> bool" where
  "orderly_state c w \<longleftrightarrow> signed_state c (wd_db w) \<and> (\<forall>p \<in> set (wd_procs w). in_step c (wd_db w) p)"

text \<open>
  The order of use: the first keying and every rotation happen while exactly one process has the
  store open (others may have closed it before, and open it afterwards), a process that opens
  or refreshes a keyed log finds the current key, and the keying events are written by the
  keying operations only.
\<close>

fun orderly :: "crypto \<Rightarrow> audit_op \<Rightarrow> audit_world \<Rightarrow> bool" where
  "orderly c (Open_store every loaded) w = (list_ex is_keying (db_log (wd_db w)) \<longrightarrow> has_key c loaded (wd_db w))"
| "orderly c (Append i event fs session ts) w = (event \<noteq> ''audit.keyed'' \<and> event \<noteq> ''audit.rekey'')"
| "orderly c (Refresh i has_schema loaded) w =
     (has_schema \<and> (list_ex is_keying (db_log (wd_db w)) \<longrightarrow> has_key c loaded (wd_db w)))"
| "orderly c (Provision i actor created ts) w =
     (list_ex is_keying (db_log (wd_db w)) \<or> length (wd_procs w) = 1 \<and> (\<forall>k. created = Some k \<longrightarrow> good_id c k))"
| "orderly c (Rekey i actor new stored ts) w = (length (wd_procs w) = 1 \<and> good_id c new)"
| "orderly c _ w = True"

lemma last_keying_None: "last_keying db = None \<longleftrightarrow> \<not> list_ex is_keying (db_log db)"
  by (auto simp: last_keying_def find_None_iff list_ex_iff)

text \<open>An operation of one process that keeps its view and the view of all others.\<close>

lemma orderly_on_process:
  assumes w: "orderly_state c w"
    and f: "\<And>p. p \<in> set (wd_procs w) \<Longrightarrow> in_step c (wd_db w) p \<Longrightarrow>
      signed_state c (snd (f p (wd_db w))) \<and> in_step c (snd (f p (wd_db w))) (fst (f p (wd_db w))) \<and>
      (length (wd_procs w) = 1 \<or> (\<forall>q. in_step c (wd_db w) q \<longrightarrow> in_step c (snd (f p (wd_db w))) q))"
  shows "orderly_state c (on_process i f w)"
proof (cases "i < length (wd_procs w)")
  case True
  obtain p db where fp: "f (wd_procs w ! i) (wd_db w) = (p, db)" by fastforce
  have run: "on_process i f w = w\<lparr>wd_procs := (wd_procs w)[i := p], wd_db := db\<rparr>"
    using True fp by (simp add: on_process_def)
  have step: "signed_state c db" "in_step c db p"
    "length (wd_procs w) = 1 \<or> (\<forall>q. in_step c (wd_db w) q \<longrightarrow> in_step c db q)"
    using f[of "wd_procs w ! i"] w True fp by (auto simp: orderly_state_def)
  have "in_step c db q" if q: "q \<in> set ((wd_procs w)[i := p])" for q
  proof (cases "length (wd_procs w) = 1")
    case True
    then show ?thesis using q \<open>i < length (wd_procs w)\<close> step(2) by (cases "wd_procs w") auto
  next
    case False
    then show ?thesis using q set_update_subset_insert[of "wd_procs w" i p] step w
      by (auto simp: orderly_state_def)
  qed
  then show ?thesis using run step by (simp add: orderly_state_def)
qed (use w in \<open>simp add: on_process_def\<close>)

lemma audit_keeps_step:
  assumes db: "signed_state c db" and p: "in_step c db p"
    and event: "event \<noteq> ''audit.keyed''" "event \<noteq> ''audit.rekey''"
    and res: "audit_entry c event fs session ts p db = Some (h, db')"
  shows "signed_state c db' \<and> (\<forall>q. in_step c db' q = in_step c db q)"
proof (cases "list_ex is_keying (db_log db)")
  case True
  then obtain i where i: "auditIdentity p = Some i" "good_id c i" "signing_key db = Some (publicKeyB64 i)"
    using p by (auto simp: in_step_def has_key_def)
  have "signed_state c db' \<and> list_ex is_keying (db_log db') \<and> signing_key db' = Some (publicKeyB64 i)"
    by (rule entry_signed[OF db True _ i(1) _ i(2,3) event _ res]) (use p True in \<open>simp_all add: in_step_def\<close>)
  then show ?thesis using True i by (simp add: in_step_cong[of db' db])
next
  case False
  then have "signed_state c db' \<and> \<not> list_ex is_keying (db_log db')"
    by (intro plain_entry_signed[OF db False _ event res]) (use p in \<open>simp add: in_step_def\<close>)
  then show ?thesis using False by (auto simp: in_step_def)
qed

lemma fresh_identity_step:
  assumes "signing_key db = Some (publicKeyB64 i)" and "list_ex is_keying (db_log db)" and "good_id c i"
    and "signedSchema p" "auditKeyedOnDisk p" "auditIdentity p = Some i"
  shows "in_step c db p"
  using assms by (simp add: in_step_def has_key_def)

lemma detect_step:
  assumes "list_ex is_keying (db_log db) \<Longrightarrow> has_key c loaded db" and "signedSchema p"
  shows "in_step c db (detectKeyedChain loaded db p)"
  using assms last_keying_None[of db]
  by (auto simp: in_step_def detectKeyedChain_def split: option.split)

lemma orderly_provision:
  assumes db: "signed_state c db" and p: "in_step c db p" "chainBrokenAt p = None"
    and created: "list_ex is_keying (db_log db) \<or> (\<forall>k. created = Some k \<longrightarrow> good_id c k)"
    and f: "snd (provisionAuditKeying c actor created ts p db) = (p', db')"
  shows "signed_state c db' \<and> in_step c db' p' \<and> (list_ex is_keying (db_log db) \<longrightarrow> db' = db)"
proof (cases "list_ex is_keying (db_log db)")
  case True
  then obtain i where "auditKeyedOnDisk p" "auditIdentity p = Some i"
    using p by (auto simp: in_step_def has_key_def)
  then have "p' = p \<and> db' = db"
    using f p(2) by (auto simp: provisionAuditKeying_def ensureAuditKeying_def split: if_splits)
  then show ?thesis using db p by simp
next
  case False
  then have unkeyed: "\<not> auditKeyedOnDisk p" "last_keying db = None"
    using p by (simp_all add: in_step_def last_keying_None)
  show ?thesis
  proof (cases created)
    case None
    then show ?thesis
      using f p unkeyed db by (auto simp: provisionAuditKeying_def ensureAuditKeying_def in_step_def)
  next
    case (Some i)
    have i: "good_id c i" using created False Some by simp
    have eq: "p' = p\<lparr>auditIdentity := Some i, auditKeyedOnDisk := True, auditKeyUnavailable := False,
        currentSigningPubkey := Some (publicKeyB64 i)\<rparr>"
      "db' = keying_entry c ''audit.keyed'' (keyed_detail i actor) i ts p db"
      using f p unkeyed Some by (simp_all add: provisionAuditKeying_def ensureAuditKeying_def)
    note keyed = keying_signed[OF db i disjI1[OF refl] keyed_pubkey(1)[OF i], of actor ts p]
    have "in_step c db' p'"
      by (rule fresh_identity_step[of db' i]) (use keyed i p in \<open>simp_all add: eq in_step_def\<close>)
    then show ?thesis using keyed False eq(2) by simp
  qed
qed

lemma orderly_rekey:
  assumes db: "signed_state c db" and p: "in_step c db p" and i: "good_id c i"
    and f: "snd (rekeyAudit c actor i stored ts p db) = (p', db')"
  shows "signed_state c db' \<and> in_step c db' p'"
proof (cases "chainBrokenAt p \<noteq> None \<or> \<not> stored")
  case False
  have eq: "p' = p\<lparr>auditIdentity := Some i, auditKeyedOnDisk := True, auditKeyUnavailable := False,
      currentSigningPubkey := Some (publicKeyB64 i)\<rparr>"
    "db' = keying_entry c ''audit.rekey'' (rekeyed_detail i (currentSigningPubkey p) actor) i ts p db"
    using f False by (auto simp: rekeyAudit_def)
  note keyed = keying_signed[OF db i disjI2[OF refl] keyed_pubkey(2)[OF i], of "currentSigningPubkey p" actor ts p]
  have "in_step c db' p'"
    by (rule fresh_identity_step[of db' i]) (use keyed i p in \<open>simp_all add: eq in_step_def\<close>)
  then show ?thesis using keyed eq(2) by simp
qed (use f db p in \<open>auto simp: rekeyAudit_def\<close>)

lemma signed_state_anchor [simp]: "signed_state c (recordAnchor a db) = signed_state c db"
  by (simp add: signed_state_def recordAnchor_def signing_key_def last_keying_def nextCounterInTxn_def counters_def
      Let_def)

lemma in_step_anchor [simp]: "in_step c (recordAnchor a db) p = in_step c db p"
  by (rule in_step_cong) (simp_all add: recordAnchor_def signing_key_def last_keying_def)

lemma in_step_flag [simp]: "in_step c db (p\<lparr>chainBrokenAt := v\<rparr>) = in_step c db p"
  by (simp add: in_step_def)

lemma orderly_step:
  assumes good: "good_world c w" and w: "orderly_state c w" and x: "orderly c x w"
  shows "orderly_state c (apply_audit_op c x w)"
proof -
  have chain: "chain_verdict_of c (wd_db w) = Chain_valid" "\<And>p. p \<in> set (wd_procs w) \<Longrightarrow> chainBrokenAt p = None"
    and db: "signed_state c (wd_db w)"
    using good w by (auto simp: good_world_def sound_log_def orderly_state_def)
  show ?thesis
  proof (cases x)
    case (Open_store every loaded)
    have "in_step c (wd_db w) p" if "open_audit c every loaded (wd_db w) = Some p" for p
      using that chain x Open_store
      by (auto simp: open_audit_def verifyChain_def Let_def intro!: detect_step)
    then show ?thesis using Open_store w by (auto simp: orderly_state_def split: option.split)
  next
    case (Close_store i)
    then show ?thesis using w by (auto simp: orderly_state_def dest: in_set_takeD in_set_dropD)
  next
    case (Append i event fs session ts)
    let ?f = "\<lambda>p db. case audit_entry c event fs session ts p db of None \<Rightarrow> (p, db) | Some (h, db') \<Rightarrow> (p, db')"
    show ?thesis unfolding Append apply_audit_op.simps
    proof (rule orderly_on_process[OF w])
      fix p assume p: "in_step c (wd_db w) p"
      show "signed_state c (snd (?f p (wd_db w))) \<and> in_step c (snd (?f p (wd_db w))) (fst (?f p (wd_db w))) \<and>
          (length (wd_procs w) = 1 \<or> (\<forall>q. in_step c (wd_db w) q \<longrightarrow> in_step c (snd (?f p (wd_db w))) q))"
        using audit_keeps_step[OF db p] x Append db p by (auto split: option.split)
    qed
  next
    case (Provision i actor created ts)
    let ?f = "\<lambda>p db. snd (provisionAuditKeying c actor created ts p db)"
    show ?thesis unfolding Provision apply_audit_op.simps
    proof (rule orderly_on_process[OF w])
      fix p assume p: "p \<in> set (wd_procs w)" "in_step c (wd_db w) p"
      obtain p' db' where f: "?f p (wd_db w) = (p', db')" by fastforce
      show "signed_state c (snd (?f p (wd_db w))) \<and> in_step c (snd (?f p (wd_db w))) (fst (?f p (wd_db w))) \<and>
          (length (wd_procs w) = 1 \<or> (\<forall>q. in_step c (wd_db w) q \<longrightarrow> in_step c (snd (?f p (wd_db w))) q))"
        using orderly_provision[OF db p(2) chain(2)[OF p(1)] _ f] x Provision by (auto simp: f)
    qed
  next
    case (Rekey i actor new stored ts)
    let ?f = "\<lambda>p db. snd (rekeyAudit c actor new stored ts p db)"
    show ?thesis unfolding Rekey apply_audit_op.simps
    proof (rule orderly_on_process[OF w])
      fix p assume p: "in_step c (wd_db w) p"
      obtain p' db' where f: "?f p (wd_db w) = (p', db')" by fastforce
      show "signed_state c (snd (?f p (wd_db w))) \<and> in_step c (snd (?f p (wd_db w))) (fst (?f p (wd_db w))) \<and>
          (length (wd_procs w) = 1 \<or> (\<forall>q. in_step c (wd_db w) q \<longrightarrow> in_step c (snd (?f p (wd_db w))) q))"
        using orderly_rekey[OF db p _ f] x Rekey by (auto simp: f)
    qed
  next
    case (Refresh i has_schema loaded)
    show ?thesis unfolding Refresh apply_audit_op.simps
      by (rule orderly_on_process[OF w])
        (use x Refresh db in \<open>auto simp: refreshAuditKeyingState_def intro!: detect_step\<close>)
  next
    case (Verify i)
    show ?thesis unfolding Verify apply_audit_op.simps
      by (rule orderly_on_process[OF w]) (use db chain in \<open>auto simp: verifyChain_def\<close>)
  next
    case (Repair i actor ts)
    show ?thesis unfolding Repair apply_audit_op.simps
      by (rule orderly_on_process[OF w]) (use db chain in \<open>auto simp: repairChain_def verifyChain_def\<close>)
  next
    case (Push_anchor i sink ts)
    show ?thesis unfolding Push_anchor apply_audit_op.simps
      by (rule orderly_on_process[OF w]) (use db in \<open>auto split: option.split\<close>)
  qed
qed

interpretation signed_log: guarded_machine "apply_audit_op c" "good_world c" "orderly c" "orderly_state c" for c
  by unfold_locales (rule orderly_step)

lemma orderly_run:
  assumes "guarded_run (apply_audit_op c) (orderly c) xs fresh_install"
  shows "orderly_state c (audit_run c xs)"
proof -
  have "good_world c fresh_install"
    by (simp add: good_world_def sound_log_def head_in_log_def fresh_install_def empty_audit_db_def chain_verdict_of_def)
  moreover have "orderly_state c fresh_install"
    by (simp add: orderly_state_def signed_state_def fresh_install_def empty_audit_db_def walk_log_def counters_def Let_def)
  ultimately show ?thesis using signed_log.run_guarded[OF _ _ assms] by blast
qed

lemma orderly_verifies:
  assumes "guarded_run (apply_audit_op c) (orderly c) xs fresh_install"
    and "auditIdentity p \<noteq> None \<or> in_step c (wd_db (audit_run c xs)) p"
  shows "\<exists>res. verifyCrypto c p (wd_db (audit_run c xs)) = Some res \<and> exit_code res = 0"
proof (rule signed_state_verifies)
  show "signed_state c (wd_db (audit_run c xs))" using orderly_run[OF assms(1)] by (simp add: orderly_state_def)
  show "chain_verdict_of c (wd_db (audit_run c xs)) = Chain_valid"
    using honest_good[of c xs] by (simp add: good_world_def sound_log_def)
  show "auditIdentity p \<noteq> None \<or> \<not> list_ex is_keying (db_log (wd_db (audit_run c xs)))"
    using assms(2) by (auto simp: in_step_def has_key_def)
qed

text \<open>C10: no false accusation. Processes open and close the store in any number and order (a
  process that exits closes it, a restart opens it again). The first keying and every rotation
  happen while exactly one process has the store open, the keys generated are sound (their
  signatures verify, and redaction leaves their public parts alone), every process that opens
  a keyed log or refreshes its view of it finds the current key and the signed schema, and
  nobody appends a keying event by hand. Then after any such sequence, with any appends, verifications, repairs and anchors of
  any open process in between, the crypto verification of each process that has the store open
  exits with code 0: counters, checkpoint signatures and the signed head are all in place.\<close>

theorem orderly_log_passes_crypto:
  assumes "guarded_run (apply_audit_op c) (orderly c) xs fresh_install"
    and "p \<in> set (wd_procs (audit_run c xs))"
  shows "\<exists>res. verifyCrypto c p (wd_db (audit_run c xs)) = Some res \<and> exit_code res = 0"
proof (rule orderly_verifies[OF assms(1)])
  show "auditIdentity p \<noteq> None \<or> in_step c (wd_db (audit_run c xs)) p"
    using orderly_run[OF assms(1)] assms(2) by (simp add: orderly_state_def)
qed

text \<open>A toy signature scheme in which a signature is the key followed by the message.\<close>

definition toy_crypto :: crypto where
  "toy_crypto = \<lparr> c_sha = (\<lambda>s. CHR ''h'' # s), c_sign = (\<lambda>k m. k @ m), c_verify = (\<lambda>k m s. s = k @ m) \<rparr>"

definition demo_key :: AuditIdentity where
  "demo_key = \<lparr> privateKeyB64 = ''k1'', publicKeyB64 = ''k1'', keyFingerprint = ''f1'' \<rparr>"

definition demo_key2 :: AuditIdentity where
  "demo_key2 = \<lparr> privateKeyB64 = ''k2'', publicKeyB64 = ''k2'', keyFingerprint = ''f2'' \<rparr>"

lemma demo_keys_good: "good_id toy_crypto demo_key" "good_id toy_crypto demo_key2"
proof -
  have "redact_string ''k1'' = ''k1''" "redact_string ''k2'' = ''k2''" by code_simp+
  then show "good_id toy_crypto demo_key" "good_id toy_crypto demo_key2"
    by (simp_all add: good_id_def toy_crypto_def demo_key_def demo_key2_def)
qed

text \<open>The daemon keys the log and exits; the rotation is a process of its own.\<close>

definition demo_keyed :: "audit_op list" where
  "demo_keyed = [Open_store None None, Provision 0 ''boot'' (Some demo_key) 1]"

definition demo_audit :: "audit_op list" where
  "demo_audit = demo_keyed @
     [Close_store 0, Open_store None (Some demo_key), Append 0 ''task.start'' [(''id'', JNum 7)] None 2,
      Rekey 0 ''operator'' demo_key2 True 3, Append 0 ''audit.repair'' [] None 4, Push_anchor 0 ''file'' 5]"

lemma on_process_count [simp]: "length (wd_procs (on_process i f w)) = length (wd_procs w)"
  by (simp add: on_process_def split: prod.split)

lemma opened_on_fresh [simp]: "length (wd_procs (apply_audit_op c (Open_store every loaded) fresh_install)) = 1"
  by (simp add: fresh_install_def open_audit_def verifyChain_def chain_verdict_of_def empty_audit_db_def Let_def)

lemma demo_keyed_orderly: "guarded_run (apply_audit_op toy_crypto) (orderly toy_crypto) demo_keyed fresh_install"
  using demo_keys_good opened_on_fresh[of toy_crypto None None]
  by (simp add: demo_keyed_def fresh_install_def empty_audit_db_def del: apply_audit_op.simps(1))

lemma demo_keyed_world:
  "length (wd_procs (audit_run toy_crypto demo_keyed)) = 1"
  "has_key toy_crypto (Some demo_key) (wd_db (audit_run toy_crypto demo_keyed))"
proof -
  have one: "length (wd_procs (audit_run toy_crypto demo_keyed)) = 1"
    using opened_on_fresh[of toy_crypto None None] by (simp add: demo_keyed_def del: apply_audit_op.simps(1))
  have "map auditIdentity (wd_procs (audit_run toy_crypto demo_keyed)) = [Some demo_key]"
    "map auditKeyedOnDisk (wd_procs (audit_run toy_crypto demo_keyed)) = [True]"
    by (simp_all add: demo_keyed_def fresh_install_def empty_audit_db_def open_audit_def verifyChain_def
        chain_verdict_of_def detectKeyedChain_def last_keying_def on_process_def provisionAuditKeying_def
        ensureAuditKeying_def Let_def)
  then obtain p where "wd_procs (audit_run toy_crypto demo_keyed) = [p]" "auditIdentity p = Some demo_key" "auditKeyedOnDisk p"
    by (auto simp: map_eq_Cons_conv)
  then show "has_key toy_crypto (Some demo_key) (wd_db (audit_run toy_crypto demo_keyed))"
    using orderly_run[OF demo_keyed_orderly] by (auto simp: orderly_state_def in_step_def)
  show "length (wd_procs (audit_run toy_crypto demo_keyed)) = 1" by (rule one)
qed

lemma opened_on_valid:
  "chain_verdict_of c (wd_db w) = Chain_valid \<Longrightarrow>
     length (wd_procs (apply_audit_op c (Open_store every loaded) w)) = Suc (length (wd_procs w))"
  by (simp add: open_audit_def verifyChain_def Let_def)

lemma opened_db: "wd_db (apply_audit_op c (Open_store every loaded) w) = wd_db w"
  by (simp split: option.split)

lemma demo_reopened:
  "length (wd_procs (apply_audit_op toy_crypto (Open_store None (Some demo_key))
     (apply_audit_op toy_crypto (Close_store 0) (audit_run toy_crypto demo_keyed)))) = 1"
  using honest_good[of toy_crypto demo_keyed] demo_keyed_world(1)
  by (subst opened_on_valid) (simp_all add: good_world_def sound_log_def)

lemma guarded_run_append:
  "guarded_run f adm (xs @ ys) s \<longleftrightarrow> guarded_run f adm xs s \<and> guarded_run f adm ys (exec_ops f xs s)"
  by (induction xs arbitrary: s) auto

lemma demo_audit_orderly: "guarded_run (apply_audit_op toy_crypto) (orderly toy_crypto) demo_audit fresh_install"
  using demo_keyed_orderly demo_keyed_world(2) demo_reopened demo_keys_good
  by (simp add: demo_audit_def guarded_run_append del: apply_audit_op.simps(1))

lemma demo_audit_open: "length (wd_procs (audit_run toy_crypto demo_audit)) = 1"
  using demo_reopened by (simp add: demo_audit_def exec_ops_append del: apply_audit_op.simps(1))

theorem orderly_log_passes_crypto_witness:
  "\<exists>res. verifyCrypto toy_crypto (wd_procs (audit_run toy_crypto demo_audit) ! 0)
     (wd_db (audit_run toy_crypto demo_audit)) = Some res \<and> exit_code res = 0"
proof (rule orderly_log_passes_crypto[OF demo_audit_orderly])
  show "wd_procs (audit_run toy_crypto demo_audit) ! 0 \<in> set (wd_procs (audit_run toy_crypto demo_audit))"
    using demo_audit_open by simp
qed

end
