(* ===== verification/Audit_Evidence.thy ===== *)
theory Audit_Evidence
  imports Audit_Signing
begin

text \<open>
  What an accepted log proves, and what it does not: the two theorems that pin a history, with the
  key of the head compared to the installed one or with an anchor; then logs that no installed
  key signed and that are accepted, and honest logs that are refused.
\<close>

section \<open>Signed heads and anchors\<close>

lemma log_up_to:
  assumes "h \<in> au_hash ` set rows"
  obtains rs r ts where "rows = rs @ r # ts" "au_hash r = h"
  using assms by (metis imageE split_list)

lemma chain_prefix: "chain_from c prev (rs @ ts) = Chain_valid \<Longrightarrow> chain_from c prev rs = Chain_valid"
  by (induction rs arbitrary: prev) (auto split: json_column.splits if_splits)

lemma crypto_ok:
  assumes "verifyCrypto c p db = Some res" and "exit_code res = 0"
  shows "chain_from c GENESIS (db_log db) = Chain_valid" and "wk_valid (snd (verify_head c
    (list_ex is_keying (db_log db)) (auditIdentity p \<noteq> None) db (walk_log c (db_log db))))"
  using assms
  by (auto simp: verifyCrypto_def exit_code_def verifySignedChain_def Let_def chain_verdict_of_def
      split: chain_verdict.splits if_splits prod.splits)

lemma head_accepted:
  assumes "wk_valid (snd (verify_head c keyed True db s))" and "db_head db = Some h"
  shows "head_matches c h" "\<not> head_stale h (db_log db)"
  using assms by (auto simp: verify_head_def fail_at_def Let_def split: if_splits)

text \<open>C9: evidence under the installed key: let a database, however it came about, be accepted by
  the crypto verification in a process that has the signing key, with a head under the
  installed public key. If a signature that verifies under that key was made by the store
  at some point of its run, and no two entries collide, then the log agrees, entry by entry
  (event, detail, time and hashes), with a log that the store really had: entries cannot be
  edited, inserted, reordered or dropped from the middle, only the latest be rolled back.\<close>

theorem signed_head_admits_only_real_histories:
  assumes verified: "verifyCrypto c p db = Some res" "exit_code res = 0"
    and key: "auditIdentity p = Some i" and head: "db_head db = Some h" and nonempty: "db_log db \<noteq> []"
    and installed: "hd_pubkey h = publicKeyB64 i"
    and signed: "head_matches c h \<Longrightarrow> hd_pubkey h = publicKeyB64 i \<Longrightarrow> \<exists>ys h'. prefix ys xs \<and>
       db_head (wd_db (audit_run c ys)) = Some h' \<and> hd_entry_hash h' = hd_entry_hash h"
    and no_collision: "\<And>ys. prefix ys xs \<Longrightarrow> collision_free c (db_log db) (db_log (wd_db (audit_run c ys)))"
  shows "\<exists>ys rs ts. prefix ys xs \<and> db_log (wd_db (audit_run c ys)) = rs @ ts \<and>
    map content (db_log db) = map content rs"
proof -
  have chain: "chain_from c GENESIS (db_log db) = Chain_valid" by (rule crypto_ok[OF verified])
  have walk: "wk_valid (snd (verify_head c (list_ex is_keying (db_log db)) True db (walk_log c (db_log db))))"
    using crypto_ok(2)[OF verified] key by simp
  have last: "last_hash (db_log db) = hd_entry_hash h"
    using head_accepted(2)[OF walk head] nonempty by (simp add: head_stale_def last_hash_def)
  obtain ys h' where ys: "prefix ys xs" "db_head (wd_db (audit_run c ys)) = Some h'"
    "hd_entry_hash h' = hd_entry_hash h"
    using signed[OF head_accepted(1)[OF walk head] installed] by blast
  let ?log = "db_log (wd_db (audit_run c ys))"
  have good: "good_world c (audit_run c ys)" by (rule honest_good)
  then have "hd_entry_hash h \<in> au_hash ` set ?log"
    using ys(2,3) unfolding good_world_def head_in_log_def by metis
  then obtain rs r ts where split: "?log = rs @ r # ts" "au_hash r = hd_entry_hash h" by (rule log_up_to)
  have "chain_from c GENESIS ?log = Chain_valid"
    using good by (simp add: good_world_def sound_log_def chain_verdict_of_def)
  then have "chain_from c GENESIS (rs @ [r]) = Chain_valid"
    using chain_prefix[of c GENESIS "rs @ [r]" ts] split(1) by simp
  moreover have "last_hash (db_log db) = last_hash (rs @ [r])" using last split by (simp add: last_hash_def)
  moreover have "collision_free c (db_log db) (rs @ [r])"
    using no_collision[OF ys(1)] by (rule collision_free_mono) (auto simp: split)
  ultimately have "map content (db_log db) = map content (rs @ [r])" using chain by (intro hash_pins_history)
  then show ?thesis using ys(1) split(1) by (intro exI[of _ ys] exI[of _ "rs @ [r]"] exI[of _ ts]) simp
qed

lemma find_mem: "find P xs = Some x \<Longrightarrow> x \<in> set xs"
  by (induction xs) (auto split: if_splits)

lemma counter_hash_mem: "counter_hash rows n = Some h \<Longrightarrow> h \<in> au_hash ` set rows"
  using find_mem[of "\<lambda>r. au_counter r = Some n" "rev rows"] by (auto simp: counter_hash_def)

text \<open>C20: an anchor pins the history: when an anchor record that was pushed from the head of a run
  of the store is verified against a log that replays, that log agrees with the log of the
  store, entry by entry, up to the anchored entry, whoever else has the signing key.\<close>

theorem anchored_history_is_pinned:
  assumes "db_head (wd_db (audit_run c xs)) = Some h"
    and "check_anchor c rows (anchor_of_head sink ts h) = None" and "chain_from c GENESIS rows = Chain_valid"
    and "collision_free c rows (db_log (wd_db (audit_run c xs)))"
  shows "\<exists>rs rest real rest'. rows = rs @ rest \<and> db_log (wd_db (audit_run c xs)) = real @ rest' \<and>
    real \<noteq> [] \<and> au_hash (last real) = hd_entry_hash h \<and> map content rs = map content real"
proof -
  let ?log = "db_log (wd_db (audit_run c xs))"
  have good: "good_world c (audit_run c xs)" by (rule honest_good)
  then have "hd_entry_hash h \<in> au_hash ` set ?log"
    using assms(1) by (auto simp: good_world_def head_in_log_def)
  then obtain us u vs where real: "?log = us @ u # vs" "au_hash u = hd_entry_hash h" by (rule log_up_to)
  have "hd_entry_hash h \<in> au_hash ` set rows"
    using assms(2) counter_hash_mem[of rows "hd_counter h" "hd_entry_hash h"]
    by (auto simp: check_anchor_def anchor_of_head_def split: if_splits)
  then obtain rs r ts' where local_split: "rows = rs @ r # ts'" "au_hash r = hd_entry_hash h" by (rule log_up_to)
  have "chain_from c GENESIS ?log = Chain_valid"
    using good by (simp add: good_world_def sound_log_def chain_verdict_of_def)
  then have chains: "chain_from c GENESIS (us @ [u]) = Chain_valid" "chain_from c GENESIS (rs @ [r]) = Chain_valid"
    using chain_prefix[of c GENESIS "us @ [u]" vs] chain_prefix[of c GENESIS "rs @ [r]" ts'] assms(3) real local_split
    by simp_all
  have "collision_free c (rs @ [r]) (us @ [u])"
    using assms(4) by (rule collision_free_mono) (auto simp: real local_split)
  then have "map content (rs @ [r]) = map content (us @ [u])"
    using chains real local_split by (intro hash_pins_history) (simp_all add: last_hash_def)
  then show ?thesis using real local_split
    by (intro exI[of _ "rs @ [r]"] exI[of _ ts'] exI[of _ "us @ [u]"] exI[of _ vs]) simp
qed


section \<open>The log of a fresh install\<close>

definition keyed_install :: "audit_op list" where
  "keyed_install = [Open_store None None, Provision 0 ''boot'' (Some demo_key) 1]"

abbreviation keyed_world :: audit_world where
  "keyed_world \<equiv> audit_run toy_crypto keyed_install"

lemma keyed_world_entry:
  obtains p r where "wd_procs keyed_world = [p]" "auditIdentity p = Some demo_key"
    "db_log (wd_db keyed_world) = [r]" "au_counter r = Some 0" "au_hash r \<noteq> GENESIS"
    "db_head (wd_db keyed_world) = Some \<lparr> hd_counter = 0, hd_entry_hash = au_hash r, hd_entry_id = 1,
       hd_sig = Some (c_sign toy_crypto ''k1'' (checkpointMessage (au_hash r) 0 ''k1'' Head)), hd_pubkey = ''k1'',
       hd_updated = 1 \<rparr>"
proof -
  have "wd_procs keyed_world = [wd_procs keyed_world ! 0]" "auditIdentity (wd_procs keyed_world ! 0) = Some demo_key"
    "db_log (wd_db keyed_world) = [db_log (wd_db keyed_world) ! 0]"
    "au_counter (db_log (wd_db keyed_world) ! 0) = Some 0" "au_hash (db_log (wd_db keyed_world) ! 0) \<noteq> GENESIS"
    "db_head (wd_db keyed_world) = Some \<lparr> hd_counter = 0, hd_entry_hash = au_hash (db_log (wd_db keyed_world) ! 0),
       hd_entry_id = 1, hd_sig = Some (c_sign toy_crypto ''k1'' (checkpointMessage
         (au_hash (db_log (wd_db keyed_world) ! 0)) 0 ''k1'' Head)), hd_pubkey = ''k1'', hd_updated = 1 \<rparr>"
    by (simp_all add: keyed_install_def fresh_install_def empty_audit_db_def open_audit_def verifyChain_def
        chain_verdict_of_def detectKeyedChain_def last_keying_def on_process_def provisionAuditKeying_def
        ensureAuditKeying_def keying_entry_def insert_entry_def upsertHeadInTxn_def nextCounterInTxn_def counters_def
        demo_key_def toy_crypto_def GENESIS_def Let_def)
  then show ?thesis by (rule that)
qed

lemma keyed_world_verifies:
  assumes "auditIdentity p \<noteq> None"
  shows "\<exists>res. verifyCrypto toy_crypto p (wd_db keyed_world) = Some res \<and> exit_code res = 0"
proof (rule orderly_verifies)
  show "guarded_run (apply_audit_op toy_crypto) (orderly toy_crypto) keyed_install fresh_install"
    using demo_keys_good opened_on_fresh[of toy_crypto None None]
    by (simp add: keyed_install_def fresh_install_def empty_audit_db_def del: apply_audit_op.simps(1))
qed (use assms in simp)

lemma install_logs:
  assumes "prefix ys keyed_install"
  shows "db_log (wd_db (audit_run toy_crypto ys)) = [] \<or> ys = keyed_install"
  using assms
  by (auto simp: keyed_install_def prefix_Cons fresh_install_def empty_audit_db_def open_audit_def verifyChain_def
      chain_verdict_of_def Let_def)

lemma one_entry_collision_free:
  "au_hash r \<noteq> GENESIS \<Longrightarrow> ss = [] \<or> ss = [r] \<Longrightarrow> collision_free c [r] ss"
  by (auto simp: collision_free_def)

theorem signed_head_admits_only_real_histories_witness:
  "\<exists>ys rs ts. prefix ys keyed_install \<and> db_log (wd_db (audit_run toy_crypto ys)) = rs @ ts \<and>
     map content (db_log (wd_db keyed_world)) = map content rs"
proof -
  obtain p r where "wd_procs keyed_world = [p]" and w: "auditIdentity p = Some demo_key"
    "db_log (wd_db keyed_world) = [r]" and "au_counter r = Some 0" and genesis: "au_hash r \<noteq> GENESIS"
    and head: "db_head (wd_db keyed_world) = Some \<lparr> hd_counter = 0, hd_entry_hash = au_hash r, hd_entry_id = 1,
       hd_sig = Some (c_sign toy_crypto ''k1'' (checkpointMessage (au_hash r) 0 ''k1'' Head)), hd_pubkey = ''k1'',
       hd_updated = 1 \<rparr>"
    by (rule keyed_world_entry)
  obtain res where verified: "verifyCrypto toy_crypto p (wd_db keyed_world) = Some res" "exit_code res = 0"
    using keyed_world_verifies[of p] w(1) by auto
  show ?thesis
  proof (rule signed_head_admits_only_real_histories[OF verified w(1) head])
    show "db_log (wd_db keyed_world) \<noteq> []" using w(2) by simp
    show "\<exists>ys h'. prefix ys keyed_install \<and> db_head (wd_db (audit_run toy_crypto ys)) = Some h' \<and>
        hd_entry_hash h' = hd_entry_hash \<lparr> hd_counter = 0, hd_entry_hash = au_hash r, hd_entry_id = 1,
          hd_sig = Some (c_sign toy_crypto ''k1'' (checkpointMessage (au_hash r) 0 ''k1'' Head)), hd_pubkey = ''k1'',
          hd_updated = 1 \<rparr>"
      using head by (intro exI[of _ keyed_install]) simp
    show "collision_free toy_crypto (db_log (wd_db keyed_world)) (db_log (wd_db (audit_run toy_crypto ys)))"
      if "prefix ys keyed_install" for ys
      using install_logs[OF that] w genesis one_entry_collision_free by auto
  qed (simp add: demo_key_def)
qed

theorem anchored_history_is_pinned_witness:
  "\<exists>rs rest real rest'. db_log (wd_db keyed_world) = rs @ rest \<and> db_log (wd_db keyed_world) = real @ rest' \<and>
     real \<noteq> [] \<and> au_hash (last real) = hd_entry_hash (the (db_head (wd_db keyed_world))) \<and>
     map content rs = map content real"
proof -
  obtain p r where "wd_procs keyed_world = [p]" "auditIdentity p = Some demo_key"
    and w: "db_log (wd_db keyed_world) = [r]" "au_counter r = Some 0" "au_hash r \<noteq> GENESIS"
    and head: "db_head (wd_db keyed_world) = Some \<lparr> hd_counter = 0, hd_entry_hash = au_hash r, hd_entry_id = 1,
       hd_sig = Some (c_sign toy_crypto ''k1'' (checkpointMessage (au_hash r) 0 ''k1'' Head)), hd_pubkey = ''k1'',
       hd_updated = 1 \<rparr>"
    by (rule keyed_world_entry)
  show ?thesis
  proof (rule anchored_history_is_pinned)
    show "db_head (wd_db keyed_world) = Some (the (db_head (wd_db keyed_world)))" using head by simp
    show "check_anchor toy_crypto (db_log (wd_db keyed_world))
        (anchor_of_head ''file'' 2 (the (db_head (wd_db keyed_world)))) = None"
      unfolding head w(1)
      by (simp add: check_anchor_def anchor_signed_def anchor_of_head_def counter_hash_def w(2) toy_crypto_def)
    show "chain_from toy_crypto GENESIS (db_log (wd_db keyed_world)) = Chain_valid"
      using honest_good[of toy_crypto keyed_install]
      by (simp add: good_world_def sound_log_def chain_verdict_of_def)
    show "collision_free toy_crypto (db_log (wd_db keyed_world)) (db_log (wd_db keyed_world))"
      using w one_entry_collision_free by simp
  qed
qed

section \<open>Accepted without the installed key\<close>

text \<open>
  A log that is rebuilt from nothing with any key pair, its head included, is accepted by a process
  that holds the installed key: nothing compares the keys in the log with the installed one.
\<close>

lemma rebuilt_log_is_accepted:
  assumes "good_id c forger" and "auditIdentity p = Some installed"
  shows "\<exists>res. verifyCrypto c p (wd_db (audit_run c ([Open_store None None, Provision 0 ''boot'' (Some forger) t] @
      map (\<lambda>(event, fs, ts). Append 0 (''task.'' @ event) fs None ts) entries))) = Some res \<and> exit_code res = 0"
proof (rule orderly_verifies)
  have appends: "guarded_run (apply_audit_op c) (orderly c)
      (map (\<lambda>(event, fs, ts). Append 0 (''task.'' @ event) fs None ts) es) w" for es w
    by (induction es arbitrary: w) auto
  show "guarded_run (apply_audit_op c) (orderly c) ([Open_store None None, Provision 0 ''boot'' (Some forger) t] @
      map (\<lambda>(event, fs, ts). Append 0 (''task.'' @ event) fs None ts) entries) fresh_install"
    using assms opened_on_fresh[of c None None] appends
    by (simp add: fresh_install_def empty_audit_db_def del: apply_audit_op.simps)
qed (use assms in simp)

text \<open>Entries that a foreign key put under the head after the honest ones are accepted too.\<close>

lemma foreign_tail_is_accepted:
  assumes "signed_state c db" "list_ex is_keying (db_log db)" "signing_key db = Some k" "chain_verdict_of c db = Chain_valid"
    and "good_id c forger" "auditIdentity p = Some installed"
    and "auditKeyedOnDisk q" "auditIdentity q = Some forger" "signedSchema q"
    and "\<not> is_boundary event" "nextCounterInTxn db mod signEvery q \<noteq> signEvery q - 1"
    and "audit_entry c event fs session ts q db = Some (h, db')"
  shows "\<exists>res. verifyCrypto c p db' = Some res \<and> exit_code res = 0"
proof (rule signed_state_verifies)
  have "event \<noteq> ''audit.keyed''" "event \<noteq> ''audit.rekey''" using assms(10) by (auto simp: is_boundary_def)
  then show "signed_state c db'"
    using entry_signed[OF assms(1,2,7,8,9,5,3) _ _ _ assms(12)] assms(10,11) by blast
  show "chain_verdict_of c db' = Chain_valid" by (rule audit_chain[OF assms(4,12)])
qed (use assms in simp)

text \<open>The session that an entry belongs to can be changed: the hash does not cover it.\<close>

lemma session_is_not_covered:
  "chain_from c prev (map (\<lambda>r. r\<lparr>au_session := f r\<rparr>) rs) = chain_from c prev rs"
  by (induction rs arbitrary: prev) (auto split: json_column.split)

lemma anchor_ignores_session:
  "counter_hash (map (\<lambda>r. r\<lparr>au_session := f r\<rparr>) rs) n = counter_hash rs n"
  by (simp add: counter_hash_def rev_map find_map_keep option.map_comp o_def)

section \<open>Honest logs that are refused\<close>

lemma invalid_walk_fails:
  assumes "\<not> wk_valid (walk_log c (db_log db))" and "chain_verdict_of c db = Chain_valid"
  shows "\<exists>res. verifyCrypto c p db = Some res \<and> exit_code res = 1"
  using assms
  by (auto simp: verifyCrypto_def verifySignedChain_def verify_head_def exit_code_def fail_at_def Let_def
      split: option.split)

text \<open>
  A process that opened the store before another one keyed the log appends without a counter:
  from then on the verification fails for good.
\<close>

lemma late_process_breaks_the_evidence:
  assumes db: "signed_state c db" "list_ex is_keying (db_log db)" "chain_verdict_of c db = Chain_valid"
    and q: "\<not> auditKeyedOnDisk q" and event: "\<not> is_boundary event"
    and res: "audit_entry c event fs session ts q db = Some (h, db')"
  shows "\<exists>res. verifyCrypto c p db' = Some res \<and> exit_code res = 1"
proof (rule invalid_walk_fails)
  obtain r where log: "db_log db' = db_log db @ [r]" and r: "au_event r = event" "au_counter r = None"
    using res q by (auto simp: audit_entry_def Let_def insert_entry_def split: if_splits)
  have "wk_pubkey (walk_log c (db_log db)) \<noteq> None" using db(1,2) unfolding signed_state_def Let_def by argo
  then have "\<not> wk_valid (walk_row c r (walk_log c (db_log db)))"
    using event r
    by (auto simp: walk_row_def walk_keying_def is_keying_def is_boundary_def walk_counter_def walk_signature_def
        fail_at_def Let_def split: option.splits if_splits)
  then show "\<not> wk_valid (walk_log c (db_log db'))"
    using core_snoc[of c "db_log db" r] by (simp add: log core_def)
  show "chain_verdict_of c db' = Chain_valid" by (rule audit_chain[OF db(3) res])
qed

text \<open>
  A process that still holds the key from before a rotation signs its next checkpoint with it:
  the verification fails for good.
\<close>

lemma old_key_breaks_the_evidence:
  assumes db: "signed_state c db" "list_ex is_keying (db_log db)" "chain_verdict_of c db = Chain_valid"
    and q: "auditKeyedOnDisk q" "auditIdentity q = Some old" "signedSchema q"
    and rotated: "signing_key db = Some k"
      "\<And>h n. \<not> c_verify c k (checkpointMessage h n k Checkpoint)
         (c_sign c (privateKeyB64 old) (checkpointMessage h n (publicKeyB64 old) Checkpoint))"
    and checkpoint: "nextCounterInTxn db mod signEvery q = signEvery q - 1" and event: "\<not> is_boundary event"
    and res: "audit_entry c event fs session ts q db = Some (h, db')"
  shows "\<exists>res. verifyCrypto c p db' = Some res \<and> exit_code res = 1"
proof (rule invalid_walk_fails)
  let ?n = "nextCounterInTxn db"
  obtain r where log: "db_log db' = db_log db @ [r]" and r: "au_event r = event" "au_counter r = Some ?n"
    "au_sig r = Some (c_sign c (privateKeyB64 old) (checkpointMessage (au_hash r) ?n (publicKeyB64 old) Checkpoint))"
    using res q checkpoint by (auto simp: audit_entry_def Let_def insert_entry_def split: if_splits)
  have s: "wk_pubkey (walk_log c (db_log db)) = Some k" "wk_expected (walk_log c (db_log db)) = ?n"
    using db(1,2) rotated(1) unfolding signed_state_def Let_def by auto
  have key: "\<not> is_keying r" using event r by (auto simp: is_keying_def is_boundary_def)
  have "\<not> wk_valid (walk_row c r (walk_log c (db_log db)))"
    using s key rotated(2)
    by (simp add: walk_row_def walk_keying_def walk_counter_def walk_signature_def checkpoint_ok_def fail_at_def Let_def r)
  then show "\<not> wk_valid (walk_log c (db_log db'))"
    using core_snoc[of c "db_log db" r] by (simp add: log core_def)
  show "chain_verdict_of c db' = Chain_valid" by (rule audit_chain[OF db(3) res])
qed

section \<open>What the redaction leaves\<close>

text \<open>A key with a hyphen within its first eight characters does not match the pattern.\<close>

lemma hyphenated_keys_are_kept:
  "redact_string ''sk-abcdefgh'' = redacted_mark"
  "redact_string ''sk-ant-REDACTED'' = ''sk-ant-REDACTED''"
  by code_simp+

end
