(* ===== verification/Idempotency_Store.thy ===== *)
theory Idempotency_Store
  imports Exec_Types
begin

text \<open>
  The slots of claim-first idempotency (\<open>src/src/state/idempotency.ts\<close>): a caller claims a slot
  before it performs an external effect and completes it afterwards. The table is the list of
  its rows, the key is its primary key. Every call is one write transaction of one process or
  of several; a statement that throws leaves the table as it was and is not a step.
\<close>

section \<open>Slots\<close>

datatype IdempotencySlotState = Slot_pending | Slot_completed | Slot_failed | Slot_reconcile

record IdempotencySlot =
  slotKey :: string
  slotKind :: string
  slotState :: IdempotencySlotState
  effectRef :: "string option"
  resultJson :: "string option"
  slotRun :: "string option"
  slotCreated :: int
  slotUpdated :: int

record ClaimResult =
  proceed :: bool
  cachedResult :: "string option"
  crashedPending :: bool
  requiresReconciliation :: bool

type_synonym slots = "IdempotencySlot list"

definition get_slot :: "string \<Rightarrow> slots \<Rightarrow> IdempotencySlot option" where
  "get_slot k t = find (\<lambda>s. slotKey s = k) t"

definition update_slot :: "string \<Rightarrow> (IdempotencySlot \<Rightarrow> IdempotencySlot) \<Rightarrow> slots \<Rightarrow> slots" where
  "update_slot k f t = map (\<lambda>s. if slotKey s = k then f s else s) t"

definition no_claim :: ClaimResult where
  "no_claim = \<lparr> proceed = False, cachedResult = None, crashedPending = False, requiresReconciliation = False \<rparr>"

definition claim ::
  "string \<Rightarrow> string \<Rightarrow> string option \<Rightarrow> int \<Rightarrow> int \<Rightarrow> int \<Rightarrow> slots \<Rightarrow> ClaimResult \<times> slots" where
  "claim k kind run created updated now t =
     (case get_slot k t of
        None \<Rightarrow>
          (no_claim\<lparr>proceed := True\<rparr>,
           t @ [\<lparr> slotKey = k, slotKind = kind, slotState = Slot_pending, effectRef = None,
                  resultJson = None, slotRun = run, slotCreated = created, slotUpdated = updated \<rparr>])
      | Some s \<Rightarrow>
          (case slotState s of
             Slot_completed \<Rightarrow> (no_claim\<lparr>cachedResult := resultJson s\<rparr>, t)
           | Slot_pending \<Rightarrow> (no_claim\<lparr>crashedPending := True\<rparr>, t)
           | Slot_reconcile \<Rightarrow> (no_claim\<lparr>requiresReconciliation := True\<rparr>, t)
           | Slot_failed \<Rightarrow>
               (no_claim\<lparr>proceed := True\<rparr>,
                update_slot k (\<lambda>s. s\<lparr>slotRun := run, slotUpdated := now\<rparr>) t)))"

definition complete_slot :: "string \<Rightarrow> string option \<Rightarrow> string option \<Rightarrow> int \<Rightarrow> slots \<Rightarrow> slots" where
  "complete_slot k res eff now t =
     update_slot k (\<lambda>s. s\<lparr>slotState := Slot_completed, resultJson := res, effectRef := eff, slotUpdated := now\<rparr>) t"

definition fail_slot :: "string \<Rightarrow> string option \<Rightarrow> int \<Rightarrow> slots \<Rightarrow> slots" where
  "fail_slot k err now t =
     update_slot k (\<lambda>s. s\<lparr>slotState := Slot_failed,
        resultJson := (if truthy_str err then Some (json_stringify (JObj [(''error'', JStr (the err))])) else None),
        slotUpdated := now\<rparr>) t"

definition requireReconciliation :: "string \<Rightarrow> string \<Rightarrow> int \<Rightarrow> slots \<Rightarrow> slots" where
  "requireReconciliation k reason now t =
     update_slot k (\<lambda>s. s\<lparr>slotState := Slot_reconcile,
        resultJson := Some (json_stringify (JObj [(''reason'', JStr reason)])), slotUpdated := now\<rparr>) t"

definition count_slots :: "IdempotencySlotState option \<Rightarrow> slots \<Rightarrow> nat" where
  "count_slots st t =
     (case st of Some x \<Rightarrow> length (filter (\<lambda>s. slotState s = x) t) | None \<Rightarrow> length t)"

text \<open>SQLite reads a negative limit as no limit; rows of one time are listed in the order of insertion.\<close>

definition list_slots :: "int \<Rightarrow> slots \<Rightarrow> slots" where
  "list_slots limit t =
     (let rows = sort_key (\<lambda>s. - slotUpdated s) t in if limit < 0 then rows else take (nat limit) rows)"

section \<open>Runs\<close>

datatype slot_op =
    Claim string string "string option" int int int
  | Complete string "string option" "string option" int
  | Fail string "string option" int
  | Reconcile string string int

fun apply_slot_op :: "slot_op \<Rightarrow> slots \<Rightarrow> slots" where
  "apply_slot_op (Claim k kind run c u now) t = snd (claim k kind run c u now t)"
| "apply_slot_op (Complete k res eff now) t = complete_slot k res eff now t"
| "apply_slot_op (Fail k err now) t = fail_slot k err now t"
| "apply_slot_op (Reconcile k reason now) t = requireReconciliation k reason now t"

text \<open>Whether an operation authorises its caller to perform the effect of a key.\<close>

fun authorises :: "string \<Rightarrow> slot_op \<Rightarrow> slots \<Rightarrow> bool" where
  "authorises k (Claim j kind run c u now) t = (j = k \<and> proceed (fst (claim j kind run c u now t)))"
| "authorises k _ t = False"

fun authorisations :: "string \<Rightarrow> slot_op list \<Rightarrow> slots \<Rightarrow> nat" where
  "authorisations k [] t = 0"
| "authorisations k (x # xs) t =
     (if authorises k x t then 1 else 0) + authorisations k xs (apply_slot_op x t)"

fun fails_key :: "string \<Rightarrow> slot_op \<Rightarrow> bool" where
  "fails_key k (Fail j err now) = (j = k)"
| "fails_key k _ = False"

fun claims_key :: "string \<Rightarrow> slot_op \<Rightarrow> bool" where
  "claims_key k (Claim j kind run c u now) = (j = k)"
| "claims_key k _ = False"

fun resolves_key :: "string \<Rightarrow> slot_op \<Rightarrow> bool" where
  "resolves_key k (Claim j kind run c u now) = False"
| "resolves_key k (Complete j res eff now) = (j = k)"
| "resolves_key k (Fail j err now) = (j = k)"
| "resolves_key k (Reconcile j reason now) = (j = k)"

lemma get_update:
  assumes "\<And>s. slotKey (f s) = slotKey s"
  shows "get_slot k (update_slot j f t) = (if k = j then map_option f (get_slot k t) else get_slot k t)"
  using assms by (induction t) (auto simp: get_slot_def update_slot_def)

lemma get_append_slot:
  "get_slot k (t @ [s]) = (case get_slot k t of None \<Rightarrow> if slotKey s = k then Some s else None | Some x \<Rightarrow> Some x)"
  by (induction t) (auto simp: get_slot_def)

lemma get_key: "get_slot k t = Some s \<Longrightarrow> slotKey s = k"
  by (auto simp: get_slot_def find_Some_iff)

lemma keys_update:
  "(\<And>s. slotKey (f s) = slotKey s) \<Longrightarrow> map slotKey (update_slot k f t) = map slotKey t"
  by (simp add: update_slot_def)

lemma get_none_iff: "get_slot k t = None \<longleftrightarrow> k \<notin> set (map slotKey t)"
  by (auto simp: get_slot_def find_None_iff)

text \<open>The primary key: no operation makes a second row of one key.\<close>

lemma keys_distinct_step: "distinct (map slotKey t) \<Longrightarrow> distinct (map slotKey (apply_slot_op x t))"
  by (cases x)
    (auto simp: claim_def complete_slot_def fail_slot_def requireReconciliation_def keys_update get_none_iff
      split: option.split IdempotencySlotState.split)

interpretation slot_keys: inv_machine apply_slot_op "\<lambda>t. distinct (map slotKey t)"
  by unfold_locales (rule keys_distinct_step)

text \<open>How one operation moves the state of a slot.\<close>

definition state_of :: "string \<Rightarrow> slots \<Rightarrow> IdempotencySlotState option" where
  "state_of k t = map_option slotState (get_slot k t)"

fun next_state :: "string \<Rightarrow> slot_op \<Rightarrow> IdempotencySlotState option \<Rightarrow> IdempotencySlotState option" where
  "next_state k (Claim j kind run c u now) st = (if j = k \<and> st = None then Some Slot_pending else st)"
| "next_state k (Complete j res eff now) st = (if j = k \<and> st \<noteq> None then Some Slot_completed else st)"
| "next_state k (Fail j err now) st = (if j = k \<and> st \<noteq> None then Some Slot_failed else st)"
| "next_state k (Reconcile j reason now) st = (if j = k \<and> st \<noteq> None then Some Slot_reconcile else st)"

lemma state_step: "state_of k (apply_slot_op x t) = next_state k x (state_of k t)"
proof (cases x)
  case (Claim j kind run c u now)
  show ?thesis
  proof (cases "get_slot j t")
    case None
    then show ?thesis using Claim by (auto simp: claim_def state_of_def get_append_slot split: option.split)
  next
    case (Some s)
    then show ?thesis using Claim
      by (cases "slotState s") (auto simp: claim_def state_of_def get_update)
  qed
qed (auto simp: complete_slot_def fail_slot_def requireReconciliation_def state_of_def get_update)

lemma authorises_iff:
  "authorises k x t \<longleftrightarrow> claims_key k x \<and> (state_of k t = None \<or> state_of k t = Some Slot_failed)"
proof (cases x)
  case (Claim j kind run c u now)
  show ?thesis
  proof (cases "get_slot j t")
    case None
    then show ?thesis using Claim by (auto simp: claim_def state_of_def)
  next
    case (Some s)
    then show ?thesis using Claim
      by (cases "slotState s") (auto simp: claim_def state_of_def no_claim_def)
  qed
qed simp_all

section \<open>The properties\<close>

lemma taken_slot_never_authorises:
  "state_of k t \<noteq> None \<Longrightarrow> state_of k t \<noteq> Some Slot_failed \<Longrightarrow> \<not> list_ex (fails_key k) xs \<Longrightarrow>
     authorisations k xs t = 0"
proof (induction xs arbitrary: t)
  case (Cons x xs)
  have "state_of k (apply_slot_op x t) \<noteq> None \<and> state_of k (apply_slot_op x t) \<noteq> Some Slot_failed"
    unfolding state_step using Cons.prems by (cases x) auto
  then show ?case using Cons by (simp add: authorises_iff)
qed simp

text \<open>C16: claim-first: of all the callers, in all processes and restarts, that ever claim a slot,
  exactly one is authorised to perform the effect, as long as nobody reports that it failed,
  however the claims interleave with completions and reconciliations.\<close>

theorem exactly_one_caller_proceeds:
  assumes "\<not> list_ex (fails_key k) xs"
  shows "authorisations k xs [] = (if list_ex (claims_key k) xs then 1 else 0)"
proof -
  have "authorisations k xs t = (if list_ex (claims_key k) xs then 1 else 0)" if "state_of k t = None" for t
    using assms that
  proof (induction xs arbitrary: t)
    case (Cons x xs)
    show ?case
    proof (cases "claims_key k x")
      case True
      then have "state_of k (apply_slot_op x t) = Some Slot_pending"
        unfolding state_step using Cons.prems(2) by (cases x) auto
      then have "authorisations k xs (apply_slot_op x t) = 0"
        using Cons.prems(1) by (intro taken_slot_never_authorises) auto
      then show ?thesis using True Cons.prems(2) by (simp add: authorises_iff)
    next
      case False
      then have "state_of k (apply_slot_op x t) = None"
        unfolding state_step using Cons.prems(2) by (cases x) auto
      then show ?thesis using False Cons by (simp add: authorises_iff)
    qed
  qed simp
  then show ?thesis by (simp add: state_of_def get_slot_def)
qed

theorem exactly_one_caller_proceeds_witness:
  "authorisations ''pay'' [Claim ''pay'' ''http'' None 1 1 1, Claim ''pay'' ''http'' None 2 2 2,
     Complete ''pay'' (Some ''ok'') None 3, Claim ''pay'' ''http'' None 4 4 4] [] = 1"
  using exactly_one_caller_proceeds[of "''pay''" "[Claim ''pay'' ''http'' None 1 1 1, Claim ''pay'' ''http'' None 2 2 2,
     Complete ''pay'' (Some ''ok'') None 3, Claim ''pay'' ''http'' None 4 4 4]"]
  by simp

lemma untouched_slot:
  "get_slot k t = Some s \<Longrightarrow> slotState s \<noteq> Slot_failed \<Longrightarrow> \<not> list_ex (resolves_key k) xs \<Longrightarrow>
     get_slot k (exec_ops apply_slot_op xs t) = Some s"
proof (induction xs arbitrary: t)
  case (Cons x xs)
  have "get_slot k (apply_slot_op x t) = Some s"
  proof (cases x)
    case (Claim j kind run c u now)
    then show ?thesis using Cons.prems(1,2)
      by (cases "get_slot j t"; cases "slotState (the (get_slot j t))")
        (auto simp: claim_def get_append_slot get_update)
  qed (use Cons.prems in \<open>auto simp: complete_slot_def fail_slot_def requireReconciliation_def get_update\<close>)
  then show ?case using Cons by simp
qed simp

text \<open>Replay: once the caller has completed its slot, every later claim of it, after any
  operations on other slots and any further claims, is refused the effect and is given the
  result that was stored.\<close>

theorem completed_slot_replays_its_result:
  assumes "get_slot k t \<noteq> None" and "\<not> list_ex (resolves_key k) xs"
  shows "claim k kind run c u now (exec_ops apply_slot_op (Complete k res eff now' # xs) t) =
    (\<lparr> proceed = False, cachedResult = res, crashedPending = False, requiresReconciliation = False \<rparr>,
     exec_ops apply_slot_op (Complete k res eff now' # xs) t)"
proof -
  obtain s where s: "get_slot k (complete_slot k res eff now' t) = Some s"
    "slotState s = Slot_completed" "resultJson s = res"
    using assms(1) by (auto simp: complete_slot_def get_update)
  then have "get_slot k (exec_ops apply_slot_op xs (complete_slot k res eff now' t)) = Some s"
    using assms(2) by (intro untouched_slot) auto
  then show ?thesis using s by (simp add: claim_def no_claim_def)
qed

theorem completed_slot_replays_its_result_witness:
  "fst (claim ''pay'' ''http'' None 9 9 9 (exec_ops apply_slot_op
      [Complete ''pay'' (Some ''ok'') None 3, Claim ''mail'' ''smtp'' None 4 4 4, Claim ''pay'' ''http'' None 5 5 5]
      (apply_slot_op (Claim ''pay'' ''http'' None 1 1 1) []))) =
   \<lparr> proceed = False, cachedResult = Some ''ok'', crashedPending = False, requiresReconciliation = False \<rparr>"
proof -
  have "get_slot ''pay'' (apply_slot_op (Claim ''pay'' ''http'' None 1 1 1) []) \<noteq> None" by code_simp
  from completed_slot_replays_its_result[OF this, of "[Claim ''mail'' ''smtp'' None 4 4 4, Claim ''pay'' ''http'' None 5 5 5]"]
  show ?thesis by simp
qed

section \<open>Where the store does not do what its comments say\<close>

text \<open>A failed slot stays failed when it is claimed again: every caller may proceed.\<close>

lemma failed_slot_lets_everybody_proceed:
  "authorisations ''pay'' [Claim ''pay'' ''http'' None 1 1 1, Fail ''pay'' None 2,
     Claim ''pay'' ''http'' None 3 3 3, Claim ''pay'' ''http'' None 4 4 4] [] = 3"
  by code_simp

text \<open>A late report of failure undoes a completion, and the effect is performed again.\<close>

lemma late_failure_undoes_completion:
  "authorisations ''pay'' [Claim ''pay'' ''http'' None 1 1 1, Complete ''pay'' (Some ''ok'') None 2,
     Fail ''pay'' None 3, Claim ''pay'' ''http'' None 4 4 4] [] = 2"
  by code_simp

text \<open>A completion without a result leaves later callers with neither a permission nor a result.\<close>

lemma completed_without_result_says_nothing:
  "fst (claim ''pay'' ''http'' None 3 3 3 (exec_ops apply_slot_op
     [Claim ''pay'' ''http'' None 1 1 1, Complete ''pay'' None None 2] [])) = no_claim"
  by code_simp

end
