(* ===== verification/Workflow_State_Machine.thy ===== *)
theory Workflow_State_Machine
  imports XR_Prelude
begin

text \<open>
  The workflow state machines (\<open>execution/workflow/state-machine.ts\<close> and the run states,
  the table of valid transitions and the state predicates of \<open>execution/workflow/types.ts\<close>):
  runs and nodes, their events, the two event maps and the functions that apply an event
  or throw. A thrown \<open>WorkflowStateError\<close> is a value of \<open>workflow_error\<close>.
\<close>

section \<open>States and events\<close>

datatype run_state =
    W_draft | W_published | W_queued | W_running | W_waiting | W_awaiting_approval
  | W_awaiting_review | W_paused | W_cancelling | W_cancelled | W_partially_completed
  | W_failed | W_completed | W_compensation_required | W_blocked | W_expired

datatype node_state =
    N_pending | N_ready | N_running | N_waiting_approval | N_waiting_review | N_waiting_timer
  | N_waiting_event | N_completed | N_failed | N_cancelled | N_skipped | N_compensating
  | N_compensated | N_blocked | N_timed_out | N_expired

datatype run_event =
    RE_publish | RE_queue | RE_start | RE_enter_waiting | RE_enter_approval | RE_enter_review
  | RE_resume | RE_request_cancel | RE_cancel | RE_complete | RE_partial_complete | RE_fail
  | RE_block | RE_pause | RE_expire | RE_require_compensation | RE_compensation_complete

datatype node_event =
    NE_mark_ready | NE_start | NE_wait_approval | NE_wait_review | NE_wait_timer | NE_wait_event
  | NE_complete | NE_fail | NE_cancel | NE_skip | NE_timeout | NE_block | NE_expire
  | NE_begin_compensate | NE_compensated

datatype workflow_error =
    InvalidRunTransition run_state run_event
  | DisallowedRunTransition run_state run_state run_event
  | InvalidNodeTransition node_state node_event string

section \<open>Runs\<close>

text \<open>
  \<open>compensation_required\<close> lists the value \<open>"compensating"\<close>, which is cast into the type and is
  no run state: no state equals it.
\<close>

fun VALID_RUN_STATE_TRANSITIONS :: "run_state \<Rightarrow> run_state list" where
  "VALID_RUN_STATE_TRANSITIONS W_draft = [W_published]"
| "VALID_RUN_STATE_TRANSITIONS W_published = [W_queued]"
| "VALID_RUN_STATE_TRANSITIONS W_queued = [W_running, W_cancelling, W_cancelled, W_expired]"
| "VALID_RUN_STATE_TRANSITIONS W_running =
     [W_waiting, W_awaiting_approval, W_awaiting_review, W_paused, W_cancelling, W_completed,
      W_partially_completed, W_failed, W_blocked]"
| "VALID_RUN_STATE_TRANSITIONS W_waiting = [W_running, W_cancelling, W_expired]"
| "VALID_RUN_STATE_TRANSITIONS W_awaiting_approval = [W_running, W_cancelling, W_failed, W_expired]"
| "VALID_RUN_STATE_TRANSITIONS W_awaiting_review = [W_running, W_cancelling, W_failed, W_expired]"
| "VALID_RUN_STATE_TRANSITIONS W_paused = [W_running, W_cancelling, W_expired]"
| "VALID_RUN_STATE_TRANSITIONS W_cancelling = [W_cancelled, W_failed]"
| "VALID_RUN_STATE_TRANSITIONS W_cancelled = []"
| "VALID_RUN_STATE_TRANSITIONS W_partially_completed = [W_compensation_required, W_completed, W_failed]"
| "VALID_RUN_STATE_TRANSITIONS W_failed = [W_compensation_required]"
| "VALID_RUN_STATE_TRANSITIONS W_completed = []"
| "VALID_RUN_STATE_TRANSITIONS W_compensation_required = []"
| "VALID_RUN_STATE_TRANSITIONS W_blocked = [W_running, W_cancelled, W_expired]"
| "VALID_RUN_STATE_TRANSITIONS W_expired = []"

definition isValidWorkflowTransition :: "run_state \<Rightarrow> run_state \<Rightarrow> bool" where
  "isValidWorkflowTransition from to \<longleftrightarrow> to \<in> set (VALID_RUN_STATE_TRANSITIONS from)"

fun RUN_EVENT_MAP :: "run_state \<Rightarrow> run_event \<Rightarrow> run_state option" where
  "RUN_EVENT_MAP W_draft e = (case e of RE_publish \<Rightarrow> Some W_published | _ \<Rightarrow> None)"
| "RUN_EVENT_MAP W_published e = (case e of RE_queue \<Rightarrow> Some W_queued | _ \<Rightarrow> None)"
| "RUN_EVENT_MAP W_queued e = (case e of
       RE_start \<Rightarrow> Some W_running
     | RE_cancel \<Rightarrow> Some W_cancelled
     | RE_request_cancel \<Rightarrow> Some W_cancelling
     | RE_expire \<Rightarrow> Some W_expired
     | _ \<Rightarrow> None)"
| "RUN_EVENT_MAP W_running e = (case e of
       RE_enter_waiting \<Rightarrow> Some W_waiting
     | RE_enter_approval \<Rightarrow> Some W_awaiting_approval
     | RE_enter_review \<Rightarrow> Some W_awaiting_review
     | RE_pause \<Rightarrow> Some W_paused
     | RE_request_cancel \<Rightarrow> Some W_cancelling
     | RE_complete \<Rightarrow> Some W_completed
     | RE_partial_complete \<Rightarrow> Some W_partially_completed
     | RE_fail \<Rightarrow> Some W_failed
     | RE_block \<Rightarrow> Some W_blocked
     | _ \<Rightarrow> None)"
| "RUN_EVENT_MAP W_waiting e = (case e of
       RE_resume \<Rightarrow> Some W_running
     | RE_request_cancel \<Rightarrow> Some W_cancelling
     | RE_expire \<Rightarrow> Some W_expired
     | _ \<Rightarrow> None)"
| "RUN_EVENT_MAP W_awaiting_approval e = (case e of
       RE_resume \<Rightarrow> Some W_running
     | RE_request_cancel \<Rightarrow> Some W_cancelling
     | RE_fail \<Rightarrow> Some W_failed
     | RE_expire \<Rightarrow> Some W_expired
     | _ \<Rightarrow> None)"
| "RUN_EVENT_MAP W_awaiting_review e = (case e of
       RE_resume \<Rightarrow> Some W_running
     | RE_request_cancel \<Rightarrow> Some W_cancelling
     | RE_fail \<Rightarrow> Some W_failed
     | RE_expire \<Rightarrow> Some W_expired
     | _ \<Rightarrow> None)"
| "RUN_EVENT_MAP W_paused e = (case e of
       RE_resume \<Rightarrow> Some W_running
     | RE_request_cancel \<Rightarrow> Some W_cancelling
     | RE_expire \<Rightarrow> Some W_expired
     | _ \<Rightarrow> None)"
| "RUN_EVENT_MAP W_cancelling e = (case e of
       RE_cancel \<Rightarrow> Some W_cancelled | RE_fail \<Rightarrow> Some W_failed | _ \<Rightarrow> None)"
| "RUN_EVENT_MAP W_cancelled e = None"
| "RUN_EVENT_MAP W_partially_completed e = (case e of
       RE_require_compensation \<Rightarrow> Some W_compensation_required
     | RE_complete \<Rightarrow> Some W_completed
     | RE_fail \<Rightarrow> Some W_failed
     | _ \<Rightarrow> None)"
| "RUN_EVENT_MAP W_failed e = (case e of
       RE_require_compensation \<Rightarrow> Some W_compensation_required | _ \<Rightarrow> None)"
| "RUN_EVENT_MAP W_completed e = None"
| "RUN_EVENT_MAP W_compensation_required e = None"
| "RUN_EVENT_MAP W_blocked e = (case e of
       RE_resume \<Rightarrow> Some W_running
     | RE_cancel \<Rightarrow> Some W_cancelled
     | RE_expire \<Rightarrow> Some W_expired
     | _ \<Rightarrow> None)"
| "RUN_EVENT_MAP W_expired e = None"

definition applyRunEvent :: "run_state \<Rightarrow> run_event \<Rightarrow> workflow_error + run_state" where
  "applyRunEvent current event =
     (case RUN_EVENT_MAP current event of
        None \<Rightarrow> Inl (InvalidRunTransition current event)
      | Some target \<Rightarrow>
          if isValidWorkflowTransition current target then Inr target
          else Inl (DisallowedRunTransition current target event))"

section \<open>Nodes\<close>

fun NODE_EVENT_MAP :: "node_state \<Rightarrow> node_event \<Rightarrow> node_state option" where
  "NODE_EVENT_MAP N_pending e = (case e of
       NE_mark_ready \<Rightarrow> Some N_ready
     | NE_block \<Rightarrow> Some N_blocked
     | NE_skip \<Rightarrow> Some N_skipped
     | NE_cancel \<Rightarrow> Some N_cancelled
     | NE_expire \<Rightarrow> Some N_expired
     | _ \<Rightarrow> None)"
| "NODE_EVENT_MAP N_ready e = (case e of
       NE_start \<Rightarrow> Some N_running
     | NE_skip \<Rightarrow> Some N_skipped
     | NE_cancel \<Rightarrow> Some N_cancelled
     | NE_expire \<Rightarrow> Some N_expired
     | _ \<Rightarrow> None)"
| "NODE_EVENT_MAP N_running e = (case e of
       NE_wait_approval \<Rightarrow> Some N_waiting_approval
     | NE_wait_review \<Rightarrow> Some N_waiting_review
     | NE_wait_timer \<Rightarrow> Some N_waiting_timer
     | NE_wait_event \<Rightarrow> Some N_waiting_event
     | NE_complete \<Rightarrow> Some N_completed
     | NE_fail \<Rightarrow> Some N_failed
     | NE_timeout \<Rightarrow> Some N_timed_out
     | NE_cancel \<Rightarrow> Some N_cancelled
     | _ \<Rightarrow> None)"
| "NODE_EVENT_MAP N_waiting_approval e = (case e of
       NE_start \<Rightarrow> Some N_running
     | NE_fail \<Rightarrow> Some N_failed
     | NE_cancel \<Rightarrow> Some N_cancelled
     | NE_timeout \<Rightarrow> Some N_timed_out
     | NE_expire \<Rightarrow> Some N_expired
     | _ \<Rightarrow> None)"
| "NODE_EVENT_MAP N_waiting_review e = (case e of
       NE_start \<Rightarrow> Some N_running
     | NE_fail \<Rightarrow> Some N_failed
     | NE_cancel \<Rightarrow> Some N_cancelled
     | NE_timeout \<Rightarrow> Some N_timed_out
     | NE_expire \<Rightarrow> Some N_expired
     | _ \<Rightarrow> None)"
| "NODE_EVENT_MAP N_waiting_timer e = (case e of
       NE_start \<Rightarrow> Some N_running
     | NE_timeout \<Rightarrow> Some N_timed_out
     | NE_cancel \<Rightarrow> Some N_cancelled
     | _ \<Rightarrow> None)"
| "NODE_EVENT_MAP N_waiting_event e = (case e of
       NE_start \<Rightarrow> Some N_running
     | NE_timeout \<Rightarrow> Some N_timed_out
     | NE_cancel \<Rightarrow> Some N_cancelled
     | _ \<Rightarrow> None)"
| "NODE_EVENT_MAP N_completed e = None"
| "NODE_EVENT_MAP N_failed e = (case e of
       NE_mark_ready \<Rightarrow> Some N_ready
     | NE_skip \<Rightarrow> Some N_skipped
     | NE_begin_compensate \<Rightarrow> Some N_compensating
     | _ \<Rightarrow> None)"
| "NODE_EVENT_MAP N_cancelled e = None"
| "NODE_EVENT_MAP N_skipped e = None"
| "NODE_EVENT_MAP N_compensating e = (case e of
       NE_compensated \<Rightarrow> Some N_compensated | NE_fail \<Rightarrow> Some N_failed | _ \<Rightarrow> None)"
| "NODE_EVENT_MAP N_compensated e = None"
| "NODE_EVENT_MAP N_blocked e = (case e of
       NE_mark_ready \<Rightarrow> Some N_ready
     | NE_skip \<Rightarrow> Some N_skipped
     | NE_expire \<Rightarrow> Some N_expired
     | _ \<Rightarrow> None)"
| "NODE_EVENT_MAP N_timed_out e = (case e of
       NE_mark_ready \<Rightarrow> Some N_ready | NE_skip \<Rightarrow> Some N_skipped | _ \<Rightarrow> None)"
| "NODE_EVENT_MAP N_expired e = None"

definition TERMINAL_NODE_STATES :: "node_state list" where
  "TERMINAL_NODE_STATES = [N_completed, N_cancelled, N_skipped, N_compensated, N_expired]"

definition isNodeTerminal :: "node_state \<Rightarrow> bool" where
  "isNodeTerminal s \<longleftrightarrow> s \<in> set TERMINAL_NODE_STATES"

definition isNodeActive :: "node_state \<Rightarrow> bool" where
  "isNodeActive s \<longleftrightarrow> \<not> isNodeTerminal s \<and> s \<noteq> N_failed \<and> s \<noteq> N_blocked \<and> s \<noteq> N_timed_out"

definition applyNodeEvent :: "node_state \<Rightarrow> node_event \<Rightarrow> string \<Rightarrow> workflow_error + node_state" where
  "applyNodeEvent current event nodeId =
     (case NODE_EVENT_MAP current event of
        None \<Rightarrow> Inl (InvalidNodeTransition current event nodeId)
      | Some target \<Rightarrow> Inr target)"

section \<open>Predicates on run states\<close>

definition canAdvanceNodes :: "run_state \<Rightarrow> bool" where
  "canAdvanceNodes s \<longleftrightarrow> s = W_running"

definition canAcceptHumanInput :: "run_state \<Rightarrow> bool" where
  "canAcceptHumanInput s \<longleftrightarrow> s = W_awaiting_approval \<or> s = W_awaiting_review"

definition canPause :: "run_state \<Rightarrow> bool" where
  "canPause s \<longleftrightarrow> s = W_running \<or> s = W_waiting"

definition canCancel :: "run_state \<Rightarrow> bool" where
  "canCancel s \<longleftrightarrow>
     s = W_queued \<or> s = W_running \<or> s = W_waiting \<or> s = W_awaiting_approval \<or>
     s = W_awaiting_review \<or> s = W_paused \<or> s = W_blocked"

definition TERMINAL_RUN_STATES :: "run_state list" where
  "TERMINAL_RUN_STATES = [W_completed, W_cancelled, W_failed, W_expired]"

definition ACTIVE_RUN_STATES :: "run_state list" where
  "ACTIVE_RUN_STATES =
     [W_queued, W_running, W_waiting, W_awaiting_approval, W_awaiting_review, W_paused,
      W_cancelling, W_blocked, W_compensation_required]"

definition HUMAN_WAITING_STATES :: "run_state list" where
  "HUMAN_WAITING_STATES = [W_awaiting_approval, W_awaiting_review]"

definition isTerminalRun :: "run_state \<Rightarrow> bool" where
  "isTerminalRun s \<longleftrightarrow> s \<in> set TERMINAL_RUN_STATES"

definition isActiveRun :: "run_state \<Rightarrow> bool" where
  "isActiveRun s \<longleftrightarrow> s \<in> set ACTIVE_RUN_STATES"

definition isAwaitingHuman :: "run_state \<Rightarrow> bool" where
  "isAwaitingHuman s \<longleftrightarrow> s \<in> set HUMAN_WAITING_STATES"

lemmas workflow_tables [table_defs] =
  TERMINAL_NODE_STATES_def isNodeTerminal_def isNodeActive_def canAdvanceNodes_def
  canAcceptHumanInput_def canPause_def canCancel_def TERMINAL_RUN_STATES_def
  ACTIVE_RUN_STATES_def HUMAN_WAITING_STATES_def isTerminalRun_def isActiveRun_def
  isAwaitingHuman_def isValidWorkflowTransition_def

section \<open>Properties\<close>

lemma mapped_is_valid: "RUN_EVENT_MAP s e = Some t \<Longrightarrow> isValidWorkflowTransition s t"
  by (cases s; cases e) (auto simp: isValidWorkflowTransition_def)

lemma applyRunEvent_map:
  "applyRunEvent s e = (case RUN_EVENT_MAP s e of
     None \<Rightarrow> Inl (InvalidRunTransition s e) | Some t \<Rightarrow> Inr t)"
  by (auto simp: applyRunEvent_def mapped_is_valid split: option.split)

lemma applyRunEvent_Inr [simp]: "applyRunEvent s e = Inr t \<longleftrightarrow> RUN_EVENT_MAP s e = Some t"
  by (simp add: applyRunEvent_map split: option.splits)

text \<open>The event that drives a valid transition.\<close>

definition driving_event :: "run_state \<Rightarrow> run_state \<Rightarrow> run_event" where
  "driving_event from to = (case to of
       W_published \<Rightarrow> RE_publish | W_queued \<Rightarrow> RE_queue
     | W_running \<Rightarrow> (if from = W_queued then RE_start else RE_resume)
     | W_waiting \<Rightarrow> RE_enter_waiting | W_awaiting_approval \<Rightarrow> RE_enter_approval
     | W_awaiting_review \<Rightarrow> RE_enter_review | W_paused \<Rightarrow> RE_pause
     | W_cancelling \<Rightarrow> RE_request_cancel | W_cancelled \<Rightarrow> RE_cancel
     | W_partially_completed \<Rightarrow> RE_partial_complete | W_failed \<Rightarrow> RE_fail
     | W_completed \<Rightarrow> RE_complete | W_compensation_required \<Rightarrow> RE_require_compensation
     | W_blocked \<Rightarrow> RE_block | W_expired \<Rightarrow> RE_expire | W_draft \<Rightarrow> RE_publish)"

lemma valid_is_driven:
  "isValidWorkflowTransition s t \<Longrightarrow> RUN_EVENT_MAP s (driving_event s t) = Some t"
  by (cases s) (auto simp: isValidWorkflowTransition_def driving_event_def)

text \<open>The event map and the table of valid transitions of a run say the same: an event leads from one state to another exactly where the table allows the step, so the second check of \<open>applyRunEvent\<close> never fires and no allowed step lacks an event.\<close>

theorem run_events_match_valid_transitions:
  "isValidWorkflowTransition s t = (\<exists>e. applyRunEvent s e = Inr t) \<and>
   applyRunEvent s e \<noteq> Inl (DisallowedRunTransition s t e)"
proof
  show "isValidWorkflowTransition s t = (\<exists>e. applyRunEvent s e = Inr t)"
    using valid_is_driven[of s t] mapped_is_valid by auto
  show "applyRunEvent s e \<noteq> Inl (DisallowedRunTransition s t e)"
    by (simp add: applyRunEvent_map split: option.splits)
qed

text \<open>Final node states and the finished region of runs are closed under events.\<close>

interpretation final_nodes: closed_region NODE_EVENT_MAP isNodeTerminal
proof unfold_locales
  fix s e t assume "isNodeTerminal s" "NODE_EVENT_MAP s e = Some t"
  then show "isNodeTerminal t" by (cases s) (auto simp: table_defs)
qed

definition finished_run :: "run_state \<Rightarrow> bool" where
  "finished_run s \<longleftrightarrow> isTerminalRun s \<or> s = W_compensation_required"

interpretation finished_runs: closed_region RUN_EVENT_MAP finished_run
proof unfold_locales
  fix s e t assume "finished_run s" "RUN_EVENT_MAP s e = Some t"
  then show "finished_run t"
    by (cases s; cases e) (auto simp: finished_run_def table_defs)
qed

lemma node_run_final: "isNodeTerminal s \<Longrightarrow> fsm_run NODE_EVENT_MAP s es = Some t \<Longrightarrow> t = s \<and> es = []"
  by (cases es) (auto simp: table_defs)

text \<open>
  Only \<open>resume\<close> takes a run out of a human wait back to work.
\<close>

interpretation human_wait: gated_region RUN_EVENT_MAP
  "\<lambda>s. isAwaitingHuman s \<or> s = W_cancelling \<or> finished_run s" "\<lambda>e. e = RE_resume"
proof unfold_locales
  fix s e t
  assume "isAwaitingHuman s \<or> s = W_cancelling \<or> finished_run s" "RUN_EVENT_MAP s e = Some t"
    "\<not> (isAwaitingHuman t \<or> t = W_cancelling \<or> finished_run t)"
  then show "e = RE_resume" by (cases s; cases e) (auto simp: finished_run_def table_defs)
qed

subsection \<open>Where predicates and maps differ\<close>

lemma pause_accepted_when:
  "(\<exists>t. applyRunEvent s RE_pause = Inr t) \<longleftrightarrow> canPause s \<and> s \<noteq> W_waiting"
  by (cases s) (simp_all add: applyRunEvent_map table_defs)

lemma cancel_accepted_when:
  "(\<exists>t. applyRunEvent s RE_request_cancel = Inr t) \<longleftrightarrow> canCancel s \<and> s \<noteq> W_blocked"
  by (cases s) (simp_all add: applyRunEvent_map table_defs)

text \<open>No event leaves \<open>compensation_required\<close>, and \<open>compensation_complete\<close> is accepted nowhere.\<close>

lemma compensation_is_a_dead_end:
  "applyRunEvent W_compensation_required e = Inl (InvalidRunTransition W_compensation_required e)"
  "applyRunEvent s RE_compensation_complete = Inl (InvalidRunTransition s RE_compensation_complete)"
  by (cases s; simp add: applyRunEvent_map)+

end
