(* ===== verification/Workflow_Graph.thy ===== *)
theory Workflow_Graph
  imports XR_Prelude
begin

text \<open>
  Workflow graphs (\<open>execution/workflow/types.ts\<close> and the graph utilities of
  \<open>execution/workflow/nodes.ts\<close>): the nodes of a definition as the fields that the engine,
  the validator and the event loop read, the entry nodes, the transitive closure
  \<open>downstreamNodes\<close> and the depth first search of \<open>validateGraph\<close>. A message is a
  constructor with the interpolated identifiers. The prompts, scopes and labels that the
  engine only hands to its collaborators are left out.
\<close>

section \<open>Nodes\<close>

datatype timer_spec =
    Delay int
  | Deadline int
  | Event_timer string

datatype join_strategy = Join_all | Join_any | Join_n_of_m

datatype completion_outcome = Success | Partial_success | No_op

datatype denial_action = Deny_stop_workflow | Deny_escalate | Deny_skip

text \<open>
  The value of a comparison: absent, a scalar that is no string (its text), or a string (for
  an array or object, the string it converts to).
\<close>

datatype condition_value = CV_undefined | CV_scalar string | CV_text string

datatype compare_op = Op_eq | Op_neq | Op_gt | Op_lt | Op_gte | Op_lte | Op_contains | Op_in

datatype branch_condition =
    Field_compare string compare_op condition_value
  | Field_exists string
  | Field_is_empty string
  | Review_approved string
  | Review_changes_requested string
  | Approval_granted string
  | Approval_denied string
  | Expression string

datatype node_kind =
    K_trigger
  | K_deterministic
  | K_agentic
  | K_human_approval "denial_action option"
  | K_human_review
  | K_tool_action string string
  | K_wait_timer timer_spec
  | K_branch branch_condition "string list" "string list"
  | K_join join_strategy "int option"
  | K_artifact_output string
  | K_business_record
  | K_notification
  | K_completion completion_outcome
  | K_compensation "string list"

datatype failure_action = On_stop_workflow | On_skip | On_escalate | On_compensate | On_continue

record workflow_node =
  wn_id :: string
  wn_kind :: node_kind
  wn_deps :: "string list"
  wn_maxRetries :: int
  wn_expiresInMs :: "int option"
  wn_onFailure :: failure_action
  wn_compensateNodeId :: "string option"

definition find_node :: "string \<Rightarrow> workflow_node list \<Rightarrow> workflow_node option" where
  "find_node i ns = find (\<lambda>n. wn_id n = i) ns"

lemma find_node_id: "find_node i ns = Some n \<Longrightarrow> n \<in> set ns \<and> wn_id n = i"
  unfolding find_node_def by (drule find_SomeD) simp

definition entryNodes :: "workflow_node list \<Rightarrow> workflow_node list" where
  "entryNodes ns = filter (\<lambda>n. wn_deps n = []) ns"

section \<open>Downstream nodes\<close>

text \<open>
  \<open>Map.set\<close> overwrites a value and keeps the position of the key: \<open>graph_keys\<close> are the
  identifiers in the order of their first node, \<open>graph_deps\<close> reads the dependencies of the
  last node of an identifier. The reverse adjacency list of an identifier holds, in the order
  of the map, the nodes that depend on it, each once.
\<close>

definition graph_keys :: "workflow_node list \<Rightarrow> string list" where
  "graph_keys ns = rev (remdups (rev (map wn_id ns)))"

definition graph_deps :: "workflow_node list \<Rightarrow> string \<Rightarrow> string list option" where
  "graph_deps ns i = map_option wn_deps (find_node i (rev ns))"

definition dependents :: "workflow_node list \<Rightarrow> string \<Rightarrow> string list" where
  "dependents ns d = filter (\<lambda>i. d \<in> set (nullish (graph_deps ns i) [])) (graph_keys ns)"

lemma set_graph_keys [simp]: "set (graph_keys ns) = wn_id ` set ns"
  by (simp add: graph_keys_def)

lemma dependents_in: "set (dependents ns d) \<subseteq> wn_id ` set ns"
  by (auto simp: dependents_def)

lemma visit_measure:
  assumes "i \<notin> set visited"
  shows "card (set (queue @ filter (\<lambda>j. j \<notin> set (visited @ [i])) (dependents ns i)) \<union> wn_id ` set ns
                 - set (visited @ [i]))
       < card (set (i # queue) \<union> wn_id ` set ns - set visited)"
  by (rule psubset_card_mono) (use assms dependents_in[of ns i] in auto)

text \<open>The loop of \<open>downstreamNodes\<close> over its queue.\<close>

function visit_downstream ::
  "workflow_node list \<Rightarrow> string list \<Rightarrow> string list \<Rightarrow> string list" where
  "visit_downstream ns visited [] = visited"
| "visit_downstream ns visited (i # queue) =
     (if i \<in> set visited then visit_downstream ns visited queue
      else visit_downstream ns (visited @ [i])
             (queue @ filter (\<lambda>j. j \<notin> set (visited @ [i])) (dependents ns i)))"
  by pat_completeness auto

termination
  by (relation "measures [\<lambda>(ns, visited, queue). card (set queue \<union> wn_id ` set ns - set visited),
                          \<lambda>(ns, visited, queue). length queue]")
     (auto simp: insert_absorb intro: disjI1 visit_measure[simplified] intro!: arg_cong[where f = card])

definition downstreamNodes :: "workflow_node list \<Rightarrow> string list \<Rightarrow> string list" where
  "downstreamNodes ns starts =
     filter (\<lambda>i. i \<notin> set starts) (visit_downstream ns [] starts)"

text \<open>The edges from a dependency to the node that needs it.\<close>

definition feeds :: "workflow_node list \<Rightarrow> (string \<times> string) set" where
  "feeds ns = {(d, i). i \<in> set (dependents ns d)}"

lemma feeds_iff: "(d, i) \<in> feeds ns \<longleftrightarrow> i \<in> set (dependents ns d)"
  by (simp add: feeds_def)

lemma rtrancl_image_successors:
  assumes "i \<in> Y" and "S \<subseteq> R `` {i}"
  shows "R\<^sup>* `` (Y \<union> S) = R\<^sup>* `` Y"
proof -
  have "R\<^sup>* `` S \<subseteq> R\<^sup>* `` Y"
    using assms by (blast intro: converse_rtrancl_into_rtrancl)
  then show ?thesis by (simp add: Image_Un Un_absorb2)
qed

lemma visit_downstream_set:
  "(\<And>v. v \<in> set visited \<Longrightarrow> feeds ns `` {v} \<subseteq> set visited \<union> set queue) \<Longrightarrow>
   set (visit_downstream ns visited queue) = (feeds ns)\<^sup>* `` (set visited \<union> set queue)"
proof (induction ns visited queue rule: visit_downstream.induct)
  case (1 ns visited)
  then have "feeds ns `` set visited \<subseteq> set visited" by fastforce
  then show ?case by (simp add: Image_closed_trancl)
next
  case (2 ns visited i queue)
  show ?case
  proof (cases "i \<in> set visited")
    case True
    then have "set visited \<union> set (i # queue) = set visited \<union> set queue" by auto
    with True 2 show ?thesis by (auto simp: insert_absorb)
  next
    case False
    let ?new = "filter (\<lambda>j. j \<notin> set (visited @ [i])) (dependents ns i)"
    have step: "feeds ns `` {v} \<subseteq> set (visited @ [i]) \<union> set (queue @ ?new)" if "v \<in> set (visited @ [i])" for v
      using that 2(3)[of v] by (cases "v \<in> set visited") (auto simp: feeds_iff)
    have "(feeds ns)\<^sup>* `` (set (visited @ [i]) \<union> set (queue @ ?new))
        = (feeds ns)\<^sup>* `` ((set visited \<union> set (i # queue)) \<union> set ?new)"
      by (rule arg_cong[where f = "\<lambda>X. (feeds ns)\<^sup>* `` X"]) auto
    also have "\<dots> = (feeds ns)\<^sup>* `` (set visited \<union> set (i # queue))"
      by (rule rtrancl_image_successors[of i]) (auto simp: feeds_iff)
    finally show ?thesis using 2(2)[OF False step] False by simp
  qed
qed

text \<open>\<open>downstreamNodes\<close> is the transitive closure its comment promises: the nodes that depend on a start node through one dependency or more, without the start nodes themselves.\<close>

lemma downstreamNodes_is_closure:
  "set (downstreamNodes ns starts) = (feeds ns)\<^sup>+ `` set starts - set starts"
proof -
  have "set (visit_downstream ns [] starts) = (feeds ns)\<^sup>* `` set starts"
    using visit_downstream_set[of "[]" ns starts] by simp
  then show ?thesis by (auto simp: downstreamNodes_def rtrancl_eq_or_trancl)
qed

section \<open>Validation\<close>

datatype color = White | Gray | Black

datatype graph_error =
    DuplicateIds
  | MissingDependency string string
  | CycleDetected string string
  | TriggerWithDependencies string

type_synonym dfs_state = "(string \<Rightarrow> color option) \<times> graph_error list"

text \<open>
  The recursive function \<open>dfs\<close> and its loop over the dependencies of a node. The first
  argument bounds the depth of the recursion; \<open>None\<close> says that the bound was reached.
\<close>

fun dfs :: "nat \<Rightarrow> (string \<Rightarrow> string list option) \<Rightarrow> string \<Rightarrow> dfs_state \<Rightarrow> (bool \<times> dfs_state) option"
  and dfs_deps :: "nat \<Rightarrow> (string \<Rightarrow> string list option) \<Rightarrow> string \<Rightarrow> string list \<Rightarrow> dfs_state \<Rightarrow>
    (bool \<times> dfs_state) option" where
  "dfs 0 adj i st = None"
| "dfs (Suc k) adj i (c, es) = dfs_deps k adj i (nullish (adj i) []) (c(i \<mapsto> Gray), es)"
| "dfs_deps k adj i [] (c, es) = Some (True, c(i \<mapsto> Black), es)"
| "dfs_deps k adj i (d # ds) (c, es) =
     (if c d = Some Gray then Some (False, c, es @ [CycleDetected i d])
      else if c d = Some White then
        (case dfs k adj d (c, es) of
           None \<Rightarrow> None
         | Some (False, st) \<Rightarrow> Some (False, st)
         | Some (True, st) \<Rightarrow> dfs_deps k adj i ds st)
      else dfs_deps k adj i ds (c, es))"

fun search_cycles :: "nat \<Rightarrow> (string \<Rightarrow> string list option) \<Rightarrow> string list \<Rightarrow> dfs_state \<Rightarrow> dfs_state option" where
  "search_cycles k adj [] st = Some st"
| "search_cycles k adj (i # is) (c, es) =
     (if c i = Some White then
        (case dfs k adj i (c, es) of None \<Rightarrow> None | Some (_, st) \<Rightarrow> search_cycles k adj is st)
      else search_cycles k adj is (c, es))"

definition all_white :: "workflow_node list \<Rightarrow> string \<Rightarrow> color option" where
  "all_white ns i = (if i \<in> wn_id ` set ns then Some White else None)"

definition validateGraph :: "workflow_node list \<Rightarrow> graph_error list option" where
  "validateGraph ns =
     (let ids = wn_id ` set ns;
          dup = (if card ids \<noteq> length ns then [DuplicateIds] else []);
          missing = concat (map (\<lambda>n. map (MissingDependency (wn_id n))
                      (filter (\<lambda>d. d \<notin> ids) (wn_deps n))) ns);
          triggers = map (\<lambda>n. TriggerWithDependencies (wn_id n))
                       (filter (\<lambda>n. wn_kind n = K_trigger \<and> wn_deps n \<noteq> []) ns)
      in case search_cycles (Suc (length ns)) (graph_deps ns) (map wn_id ns) (all_white ns, dup @ missing) of
           None \<Rightarrow> None
         | Some (_, es) \<Rightarrow> Some (es @ triggers))"

subsection \<open>The search finds exactly the cycles\<close>

definition needs :: "(string \<Rightarrow> string list option) \<Rightarrow> (string \<Rightarrow> color option) \<Rightarrow> (string \<times> string) set" where
  "needs adj c = {(i, d). d \<in> set (nullish (adj i) []) \<and> c d \<noteq> None}"

definition colored :: "(string \<Rightarrow> color option) \<Rightarrow> color \<Rightarrow> string set" where
  "colored c x = {v. c v = Some x}"

text \<open>Finished nodes have finished dependencies and are on no cycle.\<close>

definition settled_part :: "(string \<times> string) set \<Rightarrow> (string \<Rightarrow> color option) \<Rightarrow> bool" where
  "settled_part E c \<longleftrightarrow>
     E `` colored c Black \<subseteq> colored c Black \<and> (\<forall>v \<in> colored c Black. (v, v) \<notin> E\<^sup>+)"

lemma needs_upd: "c i \<noteq> None \<Longrightarrow> needs adj (c(i \<mapsto> x)) = needs adj c"
  by (auto simp: needs_def)

lemma closed_no_return:
  assumes "E `` B \<subseteq> B" and "E `` {i} \<subseteq> B" and "i \<notin> B"
  shows "(i, i) \<notin> E\<^sup>+"
proof
  assume "(i, i) \<in> E\<^sup>+"
  then obtain j where "(i, j) \<in> E" "(j, i) \<in> E\<^sup>*" by (blast dest: tranclD)
  then have "i \<in> E\<^sup>* `` B" using assms(2) by blast
  with assms(1,3) show False by (simp add: Image_closed_trancl)
qed

text \<open>A search that returns true: it blackened its node, left the gray nodes alone, reported nothing.\<close>

definition searched :: "(string \<times> string) set \<Rightarrow> string \<Rightarrow> dfs_state \<Rightarrow> dfs_state \<Rightarrow> bool" where
  "searched E i st st' \<longleftrightarrow>
     snd st' = snd st \<and> colored (fst st') Gray = colored (fst st) Gray - {i} \<and>
     insert i (colored (fst st) Black) \<subseteq> colored (fst st') Black \<and>
     settled_part E (fst st') \<and> dom (fst st') = dom (fst st)"

lemma dfs_success:
  shows "dfs k adj i st = Some (True, st') \<Longrightarrow> fst st i = Some White \<Longrightarrow> settled_part (needs adj (fst st)) (fst st) \<Longrightarrow>
           searched (needs adj (fst st)) i st st'"
    and "dfs_deps k adj i ds st = Some (True, st') \<Longrightarrow> fst st i = Some Gray \<Longrightarrow> settled_part (needs adj (fst st)) (fst st) \<Longrightarrow>
           set ds \<subseteq> set (nullish (adj i) []) \<Longrightarrow>
           (\<forall>d \<in> set (nullish (adj i) []) - set ds. fst st d = None \<or> fst st d = Some Black) \<Longrightarrow>
           searched (needs adj (fst st)) i st st'"
proof (induction k adj i st and k adj i ds st arbitrary: st' and st' rule: dfs_dfs_deps.induct)
  case (1 adj i st)
  then show ?case by simp
next
  case (2 k adj i c es)
  have *: "colored (c(i \<mapsto> Gray)) Black = colored c Black" using 2(3) by (auto simp: colored_def)
  have E: "needs adj (c(i \<mapsto> Gray)) = needs adj c" using 2(3) by (intro needs_upd) simp
  have "settled_part (needs adj (c(i \<mapsto> Gray))) (c(i \<mapsto> Gray))"
    using 2(4) unfolding E settled_part_def * by simp
  then have "searched (needs adj (c(i \<mapsto> Gray))) i (c(i \<mapsto> Gray), es) st'"
    using 2(1)[of st'] 2(2) by (simp del: fun_upd_apply add: fun_upd_same)
  moreover have "colored (c(i \<mapsto> Gray)) Gray - {i} = colored c Gray - {i}" by (auto simp: colored_def)
  ultimately show ?case using 2(3) * unfolding E by (auto simp: searched_def)
next
  case (3 k adj i c es)
  let ?E = "needs adj c" and ?B = "colored c Black"
  have B: "colored (c(i \<mapsto> Black)) Black = insert i ?B" by (auto simp: colored_def)
  have i: "?E `` {i} \<subseteq> ?B" using 3(5) by (auto simp: needs_def colored_def)
  moreover have "?E `` ?B \<subseteq> ?B" using 3(3) by (simp add: settled_part_def)
  moreover have "i \<notin> ?B" using 3(2) by (simp add: colored_def)
  ultimately have "(i, i) \<notin> ?E\<^sup>+" by (blast dest: closed_no_return)
  with i 3(3) have "settled_part ?E (c(i \<mapsto> Black))" unfolding settled_part_def B fst_conv by blast
  moreover have "colored (c(i \<mapsto> Black)) Gray = colored c Gray - {i}" by (auto simp: colored_def)
  moreover have "needs adj (c(i \<mapsto> Black)) = ?E" using 3(2) by (intro needs_upd) simp
  ultimately show ?case using 3(1,2) B by (auto simp: searched_def split: if_splits)
next
  case (4 k adj i d ds c es)
  have gray: "c d \<noteq> Some Gray" using 4(4) by auto
  show ?case
  proof (cases "c d = Some White")
    case True
    with 4(4) gray obtain st1 where st1: "dfs k adj d (c, es) = Some (True, st1)" "dfs_deps k adj i ds st1 = Some (True, st')"
      by (auto split: option.splits bool.splits)
    obtain c1 es1 where c1: "st1 = (c1, es1)" by (cases st1)
    have s1: "searched (needs adj c) d (c, es) (c1, es1)"
      using 4(1)[OF gray True st1(1)[unfolded c1]] True 4(6) by simp
    have black: "c x = Some Black \<Longrightarrow> c1 x = Some Black" "c1 d = Some Black" for x
      using s1 by (auto simp: searched_def colored_def)
    have none: "c1 x = None \<longleftrightarrow> c x = None" for x
    proof -
      have "dom c1 = dom c" using s1 by (simp add: searched_def)
      then show ?thesis by (metis domIff)
    qed
    have E: "needs adj c1 = needs adj c" by (simp add: needs_def none)
    have "c1 i = Some Gray" using s1 True 4(5) by (auto simp: searched_def colored_def)
    moreover have "\<forall>x \<in> set (nullish (adj i) []) - set ds. c1 x = None \<or> c1 x = Some Black"
    proof
      fix x assume x: "x \<in> set (nullish (adj i) []) - set ds"
      then show "c1 x = None \<or> c1 x = Some Black"
        using 4(8) black none by (cases "x = d") auto
    qed
    moreover have "settled_part (needs adj c1) c1" unfolding E using s1 by (simp add: searched_def)
    ultimately have "searched (needs adj c) i (c1, es1) st'"
      using 4(2)[OF gray True, of "(True, st1)" True st1 st'] st1 4(7) E by (simp add: c1)
    with s1 True show ?thesis by (auto simp: searched_def colored_def)
  next
    case False
    with gray have "c d = None \<or> c d = Some Black" by (cases "c d") (auto intro: color.exhaust)
    with 4 gray False show ?thesis by auto
  qed
qed

lemma searched_needs:
  assumes "searched E i (c, es) (c', es')"
  shows "needs adj c' = needs adj c"
proof -
  have "c' x = None \<longleftrightarrow> c x = None" for x
    using assms by (metis domIff fst_conv searched_def)
  then show ?thesis by (simp add: needs_def)
qed

text \<open>A search that fails has run into a gray node: it reports one edge of a real cycle.\<close>

definition cycle_found :: "(string \<times> string) set \<Rightarrow> dfs_state \<Rightarrow> dfs_state \<Rightarrow> bool" where
  "cycle_found E st st' \<longleftrightarrow> (\<exists>v d. snd st' = snd st @ [CycleDetected v d] \<and> (v, v) \<in> E\<^sup>+)"

lemma dfs_failure:
  shows "dfs k adj i st = Some (False, st') \<Longrightarrow> fst st i = Some White \<Longrightarrow> settled_part (needs adj (fst st)) (fst st) \<Longrightarrow>
           (\<forall>g \<in> colored (fst st) Gray. (g, i) \<in> (needs adj (fst st))\<^sup>*) \<Longrightarrow>
           cycle_found (needs adj (fst st)) st st'"
    and "dfs_deps k adj i ds st = Some (False, st') \<Longrightarrow> fst st i = Some Gray \<Longrightarrow> settled_part (needs adj (fst st)) (fst st) \<Longrightarrow>
           set ds \<subseteq> set (nullish (adj i) []) \<Longrightarrow>
           (\<forall>g \<in> colored (fst st) Gray. (g, i) \<in> (needs adj (fst st))\<^sup>*) \<Longrightarrow>
           cycle_found (needs adj (fst st)) st st'"
proof (induction k adj i st and k adj i ds st arbitrary: st' and st' rule: dfs_dfs_deps.induct)
  case (1 adj i st)
  then show ?case by simp
next
  case (2 k adj i c es)
  let ?c = "c(i \<mapsto> Gray)"
  have E: "needs adj ?c = needs adj c" using 2(3) by (intro needs_upd) simp
  have "colored ?c Black = colored c Black" using 2(3) by (auto simp: colored_def)
  then have "settled_part (needs adj ?c) ?c"
    using 2(4) unfolding E settled_part_def by simp
  moreover have "\<forall>g \<in> colored ?c Gray. (g, i) \<in> (needs adj ?c)\<^sup>*"
    using 2(5) unfolding E by (auto simp: colored_def split: if_splits)
  ultimately have "cycle_found (needs adj ?c) (?c, es) st'"
    using 2(1)[of st'] 2(2) by (simp del: fun_upd_apply add: fun_upd_same)
  then show ?case unfolding E by (simp add: cycle_found_def)
next
  case (3 k adj i c es)
  then show ?case by simp
next
  case (4 k adj i d ds c es)
  have edge: "c d \<noteq> None \<Longrightarrow> (i, d) \<in> needs adj c" using 4(7) by (simp add: needs_def)
  show ?case
  proof (cases "c d = Some Gray")
    case True
    then have "(d, i) \<in> (needs adj c)\<^sup>*" using 4(8) by (simp add: colored_def)
    with edge True have "(i, i) \<in> (needs adj c)\<^sup>+" by (simp add: rtrancl_into_trancl2)
    with True 4(4) show ?thesis by (auto simp: cycle_found_def)
  next
    case gray: False
    show ?thesis
    proof (cases "c d = Some White")
      case True
      have reach: "\<forall>g \<in> colored c Gray. (g, d) \<in> (needs adj c)\<^sup>*"
        using 4(8) edge True by (auto intro: rtrancl_into_rtrancl)
      from 4(4) gray True consider
          "dfs k adj d (c, es) = Some (False, st')"
        | st1 where "dfs k adj d (c, es) = Some (True, st1)" "dfs_deps k adj i ds st1 = Some (False, st')"
        by (auto split: option.splits bool.splits)
      then show ?thesis
      proof cases
        case 1
        then show ?thesis using 4(1)[OF gray True 1] True 4(6) reach by simp
      next
        case (2 st1)
        obtain c1 es1 where c1: "st1 = (c1, es1)" by (cases st1)
        have s1: "searched (needs adj c) d (c, es) (c1, es1)"
          using dfs_success(1)[OF 2(1)[unfolded c1]] True 4(6) by simp
        note E = searched_needs[OF s1, of adj]
        have g: "colored c1 Gray = colored c Gray" using s1 True by (auto simp: searched_def colored_def)
        then have "c1 i = Some Gray" using 4(5) by (auto simp: colored_def)
        moreover have "settled_part (needs adj c1) c1" unfolding E using s1 by (simp add: searched_def)
        moreover have "\<forall>x \<in> colored c1 Gray. (x, i) \<in> (needs adj c1)\<^sup>*" unfolding E g using 4(8) by simp
        ultimately have "cycle_found (needs adj c) (c1, es1) st'"
          using 4(2)[OF gray True, of "(True, st1)" True st1 st'] 2 4(7) E by (simp add: c1)
        moreover have "es1 = es" using s1 by (simp add: searched_def)
        ultimately show ?thesis by (simp add: cycle_found_def)
      qed
    next
      case False
      then show ?thesis using 4 gray by simp
    qed
  qed
qed

text \<open>The white nodes bound the depth of the recursion.\<close>

lemma dfs_white:
  shows "dfs k adj i st = Some (b, st') \<Longrightarrow> colored (fst st') White \<subseteq> colored (fst st) White"
    and "dfs_deps k adj i ds st = Some (b, st') \<Longrightarrow> colored (fst st') White \<subseteq> colored (fst st) White"
proof (induction k adj i st and k adj i ds st arbitrary: b st' and b st' rule: dfs_dfs_deps.induct)
  case (2 k adj i c es)
  have "colored (c(i \<mapsto> Gray)) White \<subseteq> colored c White" by (auto simp: colored_def)
  with 2 show ?case by (metis dfs.simps(2) fst_conv subset_trans)
next
  case (4 k adj i d ds c es)
  show ?case
  proof (cases "c d = Some Gray \<or> c d \<noteq> Some White")
    case True
    with 4 show ?thesis by (auto split: if_splits)
  next
    case False
    then have white: "c d \<noteq> Some Gray" "c d = Some White" by auto
    from 4(4) white consider
        "dfs k adj d (c, es) = Some (False, st')"
      | st1 where "dfs k adj d (c, es) = Some (True, st1)" "dfs_deps k adj i ds st1 = Some (b, st')"
      by (auto split: option.splits bool.splits)
    then show ?thesis
    proof cases
      case 1
      then show ?thesis using 4(1)[OF white 1] by simp
    next
      case (2 st1)
      then show ?thesis using 4(1)[OF white 2(1)] 4(2)[OF white, of "(True, st1)" True st1 b st'] by auto
    qed
  qed
qed (auto simp: colored_def)

lemma dfs_enough_fuel:
  shows "finite (colored (fst st) White) \<Longrightarrow> fst st i = Some White \<Longrightarrow> card (colored (fst st) White) \<le> k \<Longrightarrow>
           dfs k adj i st \<noteq> None"
    and "finite (colored (fst st) White) \<Longrightarrow> card (colored (fst st) White) \<le> k \<Longrightarrow> dfs_deps k adj i ds st \<noteq> None"
proof (induction k adj i st and k adj i ds st rule: dfs_dfs_deps.induct)
  case (1 adj i st)
  then have "colored (fst st) White = {}" by simp
  with 1 show ?case by (simp add: colored_def)
next
  case (2 k adj i c es)
  have W: "colored (c(i \<mapsto> Gray)) White = colored c White - {i}" by (auto simp: colored_def)
  moreover have "i \<in> colored c White" using 2(3) by (simp add: colored_def)
  ultimately have "card (colored (c(i \<mapsto> Gray)) White) \<le> k" using 2(2,4) by simp
  with 2(1,2) W show ?case by (simp del: fun_upd_apply)
next
  case (3 k adj i c es)
  then show ?case by simp
next
  case (4 k adj i d ds c es)
  show ?case
  proof (cases "c d = Some White")
    case True
    then obtain b st1 where d: "dfs k adj d (c, es) = Some (b, st1)"
      using 4(1) 4(4,5) by fastforce
    have sub: "colored (fst st1) White \<subseteq> colored c White" using dfs_white(1)[OF d] by simp
    have "finite (colored (fst st1) White)" "card (colored (fst st1) White) \<le> k"
      using sub 4(4,5) by (auto intro: finite_subset dest: card_mono)
    then show ?thesis using 4(2)[OF _ True, of "(b, st1)" b st1] d True by (cases b) auto
  next
    case False
    with 4 show ?thesis by auto
  qed
qed

lemma dfs_errors_grow:
  shows "dfs k adj i st = Some (b, st') \<Longrightarrow> \<exists>x. snd st' = snd st @ x"
    and "dfs_deps k adj i ds st = Some (b, st') \<Longrightarrow> \<exists>x. snd st' = snd st @ x"
proof (induction k adj i st and k adj i ds st arbitrary: b st' and b st' rule: dfs_dfs_deps.induct)
  case (4 k adj i d ds c es)
  show ?case
  proof (cases "c d = Some Gray \<or> c d \<noteq> Some White")
    case True
    with 4 show ?thesis by (auto split: if_splits)
  next
    case False
    then have white: "c d \<noteq> Some Gray" "c d = Some White" by auto
    from 4(4) white consider
        "dfs k adj d (c, es) = Some (False, st')"
      | st1 where "dfs k adj d (c, es) = Some (True, st1)" "dfs_deps k adj i ds st1 = Some (b, st')"
      by (auto split: option.splits bool.splits)
    then show ?thesis
    proof cases
      case 1
      then show ?thesis using 4(1)[OF white 1] by simp
    next
      case (2 st1)
      from 4(1)[OF white 2(1)] 4(2)[OF white, of "(True, st1)" True st1 b st'] 2
      obtain x y where "snd st1 = es @ x" "snd st' = snd st1 @ y" by auto
      then show ?thesis by simp
    qed
  qed
qed auto

lemma search_errors_grow: "search_cycles k adj is st = Some st' \<Longrightarrow> \<exists>x. snd st' = snd st @ x"
proof (induction k adj "is" st arbitrary: st' rule: search_cycles.induct)
  case (2 k adj i "is" c es)
  show ?case
  proof (cases "c i = Some White")
    case True
    with 2(3) obtain b st1 where d: "dfs k adj i (c, es) = Some (b, st1)" "search_cycles k adj is st1 = Some st'"
      by (auto split: option.splits)
    from dfs_errors_grow(1)[OF d(1)] 2(1)[OF True d(1) refl d(2)]
    obtain x y where "snd st1 = es @ x" "snd st' = snd st1 @ y" by auto
    then show ?thesis by simp
  qed (use 2 in auto)
qed auto

lemma search_enough_fuel:
  "finite (colored (fst st) White) \<Longrightarrow> card (colored (fst st) White) \<le> k \<Longrightarrow> search_cycles k adj is st \<noteq> None"
proof (induction k adj "is" st rule: search_cycles.induct)
  case (2 k adj i "is" c es)
  show ?case
  proof (cases "c i = Some White")
    case True
    then obtain b st1 where d: "dfs k adj i (c, es) = Some (b, st1)"
      using dfs_enough_fuel(1)[of "(c, es)" i k adj] 2(3,4) by fastforce
    have sub: "colored (fst st1) White \<subseteq> colored c White" using dfs_white(1)[OF d] by simp
    have "finite (colored (fst st1) White)" "card (colored (fst st1) White) \<le> k"
      using sub 2(3,4) by (auto intro: finite_subset dest: card_mono)
    then show ?thesis using 2(1)[OF True d refl] d True by simp
  qed (use 2 in auto)
qed simp

text \<open>From a state without gray nodes the search either settles all nodes or reports a cycle.\<close>

lemma search_outcome:
  "search_cycles k adj is (c, es) = Some (c', es') \<Longrightarrow> settled_part (needs adj c) c \<Longrightarrow> colored c Gray = {} \<Longrightarrow>
   (es' = es \<and> settled_part (needs adj c) c' \<and> dom c' = dom c \<and> (\<forall>i \<in> set is. c' i \<in> {None, Some Black}) \<and>
      colored c Black \<subseteq> colored c' Black) \<or>
   (es' \<noteq> es \<and> (\<exists>v. (v, v) \<in> (needs adj c)\<^sup>+))"
proof (induction "is" arbitrary: c es)
  case Nil
  then show ?case by auto
next
  case (Cons i "is")
  show ?case
  proof (cases "c i = Some White")
    case True
    with Cons(2) obtain b c1 es1 where d: "dfs k adj i (c, es) = Some (b, c1, es1)"
        "search_cycles k adj is (c1, es1) = Some (c', es')"
      by (auto split: option.splits)
    show ?thesis
    proof (cases b)
      case True
      have s1: "searched (needs adj c) i (c, es) (c1, es1)"
        using dfs_success(1)[of k adj i "(c, es)" "(c1, es1)"] d(1) True \<open>c i = Some White\<close> Cons(3) by simp
      note E = searched_needs[OF s1, of adj]
      have g: "colored c1 Gray = {}" "es1 = es" "i \<in> colored c1 Black" "dom c1 = dom c"
          "colored c Black \<subseteq> colored c1 Black" "settled_part (needs adj c1) c1"
        unfolding E using s1 Cons(4) by (auto simp: searched_def)
      from Cons(1)[OF d(2) g(6,1)] g(2-5) show ?thesis unfolding E by (auto simp: colored_def)
    next
      case False
      then have "cycle_found (needs adj c) (c, es) (c1, es1)"
        using dfs_failure(1)[of k adj i "(c, es)" "(c1, es1)"] d(1) \<open>c i = Some White\<close> Cons(3,4) by simp
      with search_errors_grow[OF d(2)] show ?thesis by (auto simp: cycle_found_def)
    qed
  next
    case False
    then have "c i = None \<or> c i = Some Black"
      using Cons(4) by (cases "c i") (auto simp: colored_def intro: color.exhaust)
    moreover have "search_cycles k adj is (c, es) = Some (c', es')" using Cons(2) False by simp
    from Cons(1)[OF this Cons(3,4)] consider
        "es' = es" "settled_part (needs adj c) c'" "dom c' = dom c"
          "\<forall>i \<in> set is. c' i \<in> {None, Some Black}" "colored c Black \<subseteq> colored c' Black"
      | "es' \<noteq> es \<and> (\<exists>v. (v, v) \<in> (needs adj c)\<^sup>+)" by blast
    then show ?thesis
    proof cases
      case 1
      moreover have "c' i = None" if "c i = None" using 1(3) that by (metis domIff)
      moreover have "c' i = Some Black" if "c i = Some Black" using 1(5) that by (auto simp: colored_def)
      ultimately show ?thesis using \<open>c i = None \<or> c i = Some Black\<close> by auto
    qed simp
  qed
qed

text \<open>
  What a graph has to satisfy: distinct identifiers, no dangling dependency, no cycle, and
  triggers at the root.
\<close>

definition graph_ok :: "workflow_node list \<Rightarrow> bool" where
  "graph_ok ns \<longleftrightarrow>
     distinct (map wn_id ns) \<and> (\<forall>n \<in> set ns. set (wn_deps n) \<subseteq> wn_id ` set ns) \<and>
     acyclic (feeds ns) \<and> (\<forall>n \<in> set ns. wn_kind n = K_trigger \<longrightarrow> wn_deps n = [])"

lemma needs_feeds:
  assumes "\<forall>n \<in> set ns. set (wn_deps n) \<subseteq> wn_id ` set ns"
  shows "needs (graph_deps ns) (all_white ns) = (feeds ns)\<inverse>"
proof -
  have "i \<in> wn_id ` set ns \<and> d \<in> wn_id ` set ns" if "d \<in> set (nullish (graph_deps ns i) [])" for i d
  proof (cases "find_node i (rev ns)")
    case None
    with that show ?thesis by (simp add: graph_deps_def)
  next
    case (Some n)
    then have "n \<in> set ns" "wn_id n = i" by (auto dest: find_node_id)
    with that assms Some show ?thesis by (auto simp: graph_deps_def)
  qed
  then show ?thesis
    by (auto simp: needs_def all_white_def feeds_def dependents_def)
qed

lemma validateGraph_total: "validateGraph ns \<noteq> None"
proof -
  have "colored (all_white ns) White = wn_id ` set ns" by (auto simp: colored_def all_white_def)
  moreover have "card (wn_id ` set ns) \<le> Suc (length ns)"
    by (metis card_image_le card_length finite_set le_SucI le_trans)
  ultimately have f: "search_cycles (Suc (length ns)) (graph_deps ns) (map wn_id ns) (all_white ns, es) \<noteq> None" for es
    by (intro search_enough_fuel) simp_all
  let ?es = "(if card (wn_id ` set ns) \<noteq> length ns then [DuplicateIds] else []) @
    concat (map (\<lambda>n. map (MissingDependency (wn_id n)) (filter (\<lambda>d. d \<notin> wn_id ` set ns) (wn_deps n))) ns)"
  from f[of ?es] obtain c e where s: "search_cycles (Suc (length ns)) (graph_deps ns) (map wn_id ns) (all_white ns, ?es) = Some (c, e)"
    by (cases "search_cycles (Suc (length ns)) (graph_deps ns) (map wn_id ns) (all_white ns, ?es)") auto
  show ?thesis unfolding validateGraph_def Let_def s by simp
qed

lemma validateGraph_iff: "validateGraph ns = Some [] \<longleftrightarrow> graph_ok ns"
proof -
  let ?missing = "concat (map (\<lambda>n. map (MissingDependency (wn_id n))
                      (filter (\<lambda>d. d \<notin> wn_id ` set ns) (wn_deps n))) ns)"
  let ?dup = "if card (wn_id ` set ns) \<noteq> length ns then [DuplicateIds] else []"
  let ?trig = "map (\<lambda>n. TriggerWithDependencies (wn_id n)) (filter (\<lambda>n. wn_kind n = K_trigger \<and> wn_deps n \<noteq> []) ns)"
  obtain c es where s: "search_cycles (Suc (length ns)) (graph_deps ns) (map wn_id ns) (all_white ns, ?dup @ ?missing) = Some (c, es)"
    using validateGraph_total[of ns] by (fastforce simp: validateGraph_def Let_def split: option.splits)
  have v: "validateGraph ns = Some (es @ ?trig)"
    unfolding validateGraph_def Let_def s by simp
  have dup: "?dup = [] \<longleftrightarrow> distinct (map wn_id ns)"
    by (metis card_distinct distinct_card length_map list.distinct(1) set_map)
  have missing: "?missing = [] \<longleftrightarrow> (\<forall>n \<in> set ns. set (wn_deps n) \<subseteq> wn_id ` set ns)"
    by (auto simp: filter_empty_conv)
  have trig: "?trig = [] \<longleftrightarrow> (\<forall>n \<in> set ns. wn_kind n = K_trigger \<longrightarrow> wn_deps n = [])"
    by (auto simp: filter_empty_conv)
  have start: "settled_part (needs (graph_deps ns) (all_white ns)) (all_white ns)" "colored (all_white ns) Gray = {}"
    by (auto simp: settled_part_def colored_def all_white_def)
  from search_errors_grow[OF s] obtain x where x: "es = (?dup @ ?missing) @ x" by auto
  show ?thesis
  proof (cases "?dup @ ?missing = []")
    case False
    with x dup missing show ?thesis unfolding v graph_ok_def by auto
  next
    case True
    let ?E = "needs (graph_deps ns) (all_white ns)"
    have E: "?E = (feeds ns)\<inverse>" using True missing by (intro needs_feeds) auto
    from search_outcome[OF s start] True
    have "es = [] \<longleftrightarrow> acyclic ?E"
    proof (elim disjE conjE)
      assume a: "es = ?dup @ ?missing" "settled_part ?E c" "dom c = dom (all_white ns)"
        "\<forall>i \<in> set (map wn_id ns). c i \<in> {None, Some Black}"
      have "(v, v) \<notin> ?E\<^sup>+" for v
      proof
        assume l: "(v, v) \<in> ?E\<^sup>+"
        then obtain w where "(w, v) \<in> ?E" by (blast dest: tranclD2)
        then have "all_white ns v \<noteq> None" by (simp add: needs_def)
        then have "c v \<noteq> None" "v \<in> wn_id ` set ns"
          using a(3) by (auto simp: all_white_def split: if_splits)
        then have "v \<in> colored c Black" using a(4) by (auto simp: colored_def)
        with a(2) l show False by (simp add: settled_part_def)
      qed
      with a(1) True show ?thesis by (simp add: acyclic_def)
    qed (auto simp: acyclic_def)
    then show ?thesis
      using True dup missing trig unfolding v graph_ok_def E acyclic_converse by auto
  qed
qed

text \<open>C34: \<open>validateGraph\<close> always returns a list of errors, and the list is empty exactly for the graphs with distinct identifiers, existing dependencies, no cycle and triggers at the root.\<close>

theorem validateGraph_correct:
  "\<exists>errors. validateGraph ns = Some errors \<and>
     (errors = [] \<longleftrightarrow>
        distinct (map wn_id ns) \<and> (\<Union>n \<in> set ns. set (wn_deps n)) \<subseteq> wn_id ` set ns \<and> acyclic (feeds ns) \<and>
        filter (\<lambda>n. wn_kind n = K_trigger \<and> wn_deps n \<noteq> []) ns = [])"
proof -
  obtain errors where "validateGraph ns = Some errors" using validateGraph_total[of ns] by blast
  then show ?thesis using validateGraph_iff[of ns] by (auto simp: graph_ok_def filter_empty_conv)
qed

text \<open>
  A single error need not name an edge of a cycle: the nodes of a cycle stay gray after it has been
  reported, so every node that depends on one of them is reported too.
\<close>

definition graph_node :: "string \<Rightarrow> string list \<Rightarrow> workflow_node" where
  "graph_node i deps =
     \<lparr>wn_id = i, wn_kind = K_deterministic, wn_deps = deps, wn_maxRetries = 0, wn_expiresInMs = None,
      wn_onFailure = On_stop_workflow, wn_compensateNodeId = None\<rparr>"

lemma node_off_the_cycle_is_reported:
  "validateGraph [graph_node ''a'' [''b''], graph_node ''b'' [''a''], graph_node ''c'' [''a'']] =
     Some [CycleDetected ''b'' ''a'', CycleDetected ''c'' ''a'']"
  by code_simp

end
