(* ===== verification/Workflow_Engine.thy ===== *)
theory Workflow_Engine
  imports Workflow_State_Machine Workflow_Graph "HOL-Library.List_Lexorder" "HOL-Library.Char_ord"
    "HOL-Library.Sublist"
begin

text \<open>
  The workflow engine (\<open>execution/workflow/engine.ts\<close>). An \<open>async\<close> method is cut at its
  \<open>await\<close>s: a segment runs without interruption and ends normally, with a thrown error, or
  waiting for a collaborator, which is a value of type \<open>segment\<close>. The answers of the
  collaborators (agent runner, tool executor, timer scheduler, execution recorder) are the
  arguments of the continuations, so a run of the engine is a sequence of segments in any
  order. Run objects live in a list and are shared by reference: the engine's \<open>live\<close> map,
  the ticks in flight and the control verbs may hold the same object or different ones.

  Times are the readings of the clock; error texts and outputs are constructors with the
  interpolated values. Prompts and event reporting (\<open>emitChanges\<close>) do not influence a run and
  are left out, and so are the identifiers of artifacts and the content hash of a run. The
  field of a condition is taken not to be a name that every object inherits.
\<close>

section \<open>Data\<close>

datatype engine_exn = State_error workflow_error | Rejection string

datatype node_note =
    Thrown engine_exn
  | Denied "string option"
  | Changes_requested string
  | Review_rejected string
  | Cancelled_note
  | No_executor string
  | Unsupported_capability string string
  | Tool_failed "string option" string string
  | Timer_parked int
  | Event_parked string
  | Join_not_satisfied nat nat
  | Node_missing string

datatype node_outputs =
    O_triggered
  | O_function
  | O_agent string
  | O_tool
  | O_approved string
  | O_review_approved
  | O_waited int int
  | O_event string
  | O_branch bool
  | O_skipped string bool
  | O_joined nat nat
  | O_artifact "node_outputs option"
  | O_recorded
  | O_notified
  | O_completion completion_outcome
  | O_compensated "string list"

record node_detail =
  nd_id :: string
  nd_state :: node_state
  nd_outputs :: "node_outputs option"
  nd_error :: "node_note option"
  nd_attempt :: nat
  nd_startedAt :: "int option"
  nd_endedAt :: "int option"
  nd_decisionRef :: "string option"
  nd_retryHistory :: "(nat \<times> engine_exn) list"

datatype decision =
    D_approve
  | D_deny "string option"
  | D_review_approve
  | D_changes string
  | D_reject string
  | D_expired

record human_decision =
  hd_decisionId :: string
  hd_nodeId :: string
  hd_isApproval :: bool
  hd_decidedBy :: string
  hd_decision :: decision
  hd_requestedAt :: int
  hd_decidedAt :: int
  hd_expiresAt :: int
  hd_resulting :: run_state

record node_cost =
  co_usd :: rat
  co_tokensIn :: int
  co_tokensOut :: int

record workflow_run =
  wr_state :: run_state
  wr_nodes :: "workflow_node list"
  wr_details :: "node_detail list"
  wr_decisions :: "human_decision list"
  wr_artifacts :: "string list"
  wr_cost :: node_cost
  wr_breakdown :: "(string \<times> node_cost) list"
  wr_errorChain :: "(string \<times> node_note) list"
  wr_startedAt :: "int option"
  wr_updatedAt :: int
  wr_endedAt :: "int option"

text \<open>The collaborators as far as the engine asks them before it waits.\<close>

record engine_config =
  cf_supports :: "(string \<Rightarrow> string \<Rightarrow> bool) option"
  cf_timer :: bool
  cf_waitForEvent :: bool
  cf_evaluate :: "string \<Rightarrow> (string \<times> node_outputs) list \<Rightarrow> bool"

definition detail :: "string \<Rightarrow> workflow_run \<Rightarrow> node_detail option" where
  "detail i r = find (\<lambda>d. nd_id d = i) (wr_details r)"

definition node_state_of :: "string \<Rightarrow> workflow_run \<Rightarrow> node_state option" where
  "node_state_of i r = map_option nd_state (detail i r)"

definition upd_detail :: "string \<Rightarrow> (node_detail \<Rightarrow> node_detail) \<Rightarrow> workflow_run \<Rightarrow> workflow_run" where
  "upd_detail i f r =
     r\<lparr>wr_details := map (\<lambda>d. if nd_id d = i then f d else d) (wr_details r)\<rparr>"

lemma upd_detail_fields [simp]:
  "wr_details (upd_detail i f r) = map (\<lambda>d. if nd_id d = i then f d else d) (wr_details r)"
  "wr_state (upd_detail i f r) = wr_state r"
  "wr_nodes (upd_detail i f r) = wr_nodes r"
  "wr_decisions (upd_detail i f r) = wr_decisions r"
  "wr_cost (upd_detail i f r) = wr_cost r"
  "wr_breakdown (upd_detail i f r) = wr_breakdown r"
  "wr_endedAt (upd_detail i f r) = wr_endedAt r"
  by (simp_all add: upd_detail_def)

definition set_node_state :: "string \<Rightarrow> node_state \<Rightarrow> workflow_run \<Rightarrow> workflow_run" where
  "set_node_state i s = upd_detail i (\<lambda>d. d\<lparr>nd_state := s\<rparr>)"

definition set_outputs :: "string \<Rightarrow> node_outputs \<Rightarrow> workflow_run \<Rightarrow> workflow_run" where
  "set_outputs i x = upd_detail i (\<lambda>d. d\<lparr>nd_outputs := Some x\<rparr>)"

definition set_error :: "string \<Rightarrow> node_note \<Rightarrow> workflow_run \<Rightarrow> workflow_run" where
  "set_error i x = upd_detail i (\<lambda>d. d\<lparr>nd_error := Some x\<rparr>)"

definition push_error :: "string \<Rightarrow> node_note \<Rightarrow> workflow_run \<Rightarrow> workflow_run" where
  "push_error i x r = r\<lparr>wr_errorChain := wr_errorChain r @ [(i, x)]\<rparr>"

section \<open>Segments\<close>

text \<open>
  What a node in flight waits for: a collaborator, or the microtask in which \<open>executeNode\<close>
  takes up the result of an \<open>async\<close> executor that has returned or thrown.
\<close>

datatype awaited =
    A_det_record
  | A_agent
  | A_agent_record
  | A_agent_fail_record
  | A_tool
  | A_tool_record
  | A_swallowed_record
  | A_timer int int
  | A_event string
  | A_returned
  | A_thrown engine_exn

datatype segment =
    Finished workflow_run
  | Threw engine_exn workflow_run
  | Waits awaited workflow_run

fun and_then :: "segment \<Rightarrow> (workflow_run \<Rightarrow> segment) \<Rightarrow> segment" where
  "and_then (Finished r) f = f r"
| "and_then (Threw e r) f = Threw e r"
| "and_then (Waits a r) f = Waits a r"

fun catching :: "segment \<Rightarrow> (engine_exn \<Rightarrow> workflow_run \<Rightarrow> segment) \<Rightarrow> segment" where
  "catching (Threw e r) h = h e r"
| "catching (Finished r) h = Finished r"
| "catching (Waits a r) h = Waits a r"

text \<open>An awaited \<open>async\<close> executor hands its result over in a microtask of its own.\<close>

fun async_result :: "segment \<Rightarrow> segment" where
  "async_result (Threw e r) = Waits (A_thrown e) r"
| "async_result (Finished r) = Waits A_returned r"
| "async_result (Waits a r) = Waits a r"

fun result_run :: "segment \<Rightarrow> workflow_run" where
  "result_run (Finished r) = r"
| "result_run (Threw e r) = r"
| "result_run (Waits a r) = r"

text \<open>\<open>ns.state = applyNodeEvent(ns.state, event, id)\<close> and \<open>run.state = applyRunEvent(run.state, event)\<close>.\<close>

definition fire :: "string \<Rightarrow> node_event \<Rightarrow> workflow_run \<Rightarrow> segment" where
  "fire i e r =
     (case node_state_of i r of
        None \<Rightarrow> Finished r
      | Some s \<Rightarrow>
          (case applyNodeEvent s e i of
             Inl x \<Rightarrow> Threw (State_error x) r
           | Inr s' \<Rightarrow> Finished (set_node_state i s' r)))"

definition fire_run :: "run_event \<Rightarrow> workflow_run \<Rightarrow> segment" where
  "fire_run e r =
     (case applyRunEvent (wr_state r) e of
        Inl x \<Rightarrow> Threw (State_error x) r
      | Inr s \<Rightarrow> Finished (r\<lparr>wr_state := s\<rparr>))"

text \<open>\<open>try { ns.state = applyNodeEvent(...) } catch {}\<close>\<close>

definition try_fire :: "string \<Rightarrow> node_event \<Rightarrow> workflow_run \<Rightarrow> workflow_run" where
  "try_fire i e r = result_run (fire i e r)"

definition fail_node :: "string \<Rightarrow> node_note \<Rightarrow> workflow_run \<Rightarrow> segment" where
  "fail_node i note r = and_then (fire i NE_fail r) (\<lambda>r. Finished (set_error i note r))"

subsection \<open>Deterministic, agentic and tool nodes\<close>

definition executeDeterministicNode :: "string \<Rightarrow> workflow_run \<Rightarrow> segment" where
  "executeDeterministicNode i r =
     catching (and_then (fire i NE_complete r) (\<lambda>r. Waits A_det_record (set_outputs i O_function r)))
       (\<lambda>e. fail_node i (Thrown e))"

definition addCost :: "string \<Rightarrow> node_cost \<Rightarrow> workflow_run \<Rightarrow> workflow_run" where
  "addCost i c r =
     (let plus = (\<lambda>a. \<lparr>co_usd = co_usd a + co_usd c, co_tokensIn = co_tokensIn a + co_tokensIn c,
                        co_tokensOut = co_tokensOut a + co_tokensOut c\<rparr>);
          prev = nullish (map_of (wr_breakdown r) i) \<lparr>co_usd = 0, co_tokensIn = 0, co_tokensOut = 0\<rparr>
      in r\<lparr>wr_cost := plus (wr_cost r),
           wr_breakdown := (if map_of (wr_breakdown r) i = None
                            then wr_breakdown r @ [(i, plus prev)]
                            else map (\<lambda>(j, v). (j, if j = i then plus prev else v)) (wr_breakdown r))\<rparr>)"

definition agent_failed :: "string \<Rightarrow> engine_exn \<Rightarrow> workflow_run \<Rightarrow> segment" where
  "agent_failed i e r = and_then (fail_node i (Thrown e) r) (Waits A_agent_fail_record)"

definition agent_answered :: "string \<Rightarrow> string \<Rightarrow> node_cost option \<Rightarrow> workflow_run \<Rightarrow> segment" where
  "agent_answered i summary cost r =
     catching
       (and_then (fire i NE_complete (case cost of None \<Rightarrow> r | Some c \<Rightarrow> addCost i c r))
          (\<lambda>r. Waits A_agent_record (set_outputs i (O_agent summary) r)))
       (agent_failed i)"

definition tool_fail :: "string \<Rightarrow> node_note \<Rightarrow> workflow_run \<Rightarrow> segment" where
  "tool_fail i note r =
     and_then (fail_node i note r) (\<lambda>r. Waits A_swallowed_record (push_error i note r))"

definition executeToolActionNode ::
  "engine_config \<Rightarrow> string \<Rightarrow> string \<Rightarrow> string \<Rightarrow> workflow_run \<Rightarrow> segment" where
  "executeToolActionNode cfg i family name r =
     (case cf_supports cfg of
        None \<Rightarrow> tool_fail i (No_executor i) r
      | Some supports \<Rightarrow>
          if \<not> supports family name then tool_fail i (Unsupported_capability family name) r
          else Waits A_tool r)"

definition tool_answered ::
  "string \<Rightarrow> string \<Rightarrow> string \<Rightarrow> bool \<Rightarrow> string option \<Rightarrow> workflow_run \<Rightarrow> segment" where
  "tool_answered i family name ok err r =
     catching
       (if \<not> ok then tool_fail i (Tool_failed err family name) r
        else and_then (fire i NE_complete r) (\<lambda>r. Waits A_tool_record (set_outputs i O_tool r)))
       (\<lambda>e. tool_fail i (Thrown e))"

subsection \<open>Human nodes and timers\<close>

definition enterHumanWait :: "string \<Rightarrow> bool \<Rightarrow> workflow_run \<Rightarrow> segment" where
  "enterHumanWait i isApproval r =
     and_then (fire i (if isApproval then NE_wait_approval else NE_wait_review) r)
       (fire_run (if isApproval then RE_enter_approval else RE_enter_review))"

definition executeWaitTimerNode ::
  "engine_config \<Rightarrow> int \<Rightarrow> string \<Rightarrow> timer_spec \<Rightarrow> workflow_run \<Rightarrow> segment" where
  "executeWaitTimerNode cfg now i timer r =
     (let wait = (\<lambda>ms. and_then (fire i NE_wait_timer r) (\<lambda>r. and_then (fire_run RE_enter_waiting r)
                   (\<lambda>r. if \<not> cf_timer cfg then Finished (set_error i (Timer_parked ms) r)
                         else Waits (A_timer ms now) r)))
      in case timer of
           Delay ms \<Rightarrow> wait ms
         | Deadline ts \<Rightarrow> wait (max 0 (ts - now))
         | Event_timer name \<Rightarrow>
             and_then (fire i NE_wait_event r) (\<lambda>r. and_then (fire_run RE_enter_waiting r)
               (\<lambda>r. if \<not> (cf_timer cfg \<and> cf_waitForEvent cfg) then Finished (set_error i (Event_parked name) r)
                     else Waits (A_event name) r)))"

definition timer_failed :: "string \<Rightarrow> bool \<Rightarrow> engine_exn \<Rightarrow> workflow_run \<Rightarrow> segment" where
  "timer_failed i aborted e r =
     (if aborted then and_then (fire i NE_cancel r) (\<lambda>r. Finished (set_error i Cancelled_note r))
      else case node_state_of i r of
        None \<Rightarrow> Finished r
      | Some s \<Rightarrow>
          (case applyNodeEvent s NE_start i of
             Inl x \<Rightarrow> Threw (State_error x) r
           | Inr s1 \<Rightarrow>
               (case applyNodeEvent s1 NE_fail i of
                  Inl x \<Rightarrow> Threw (State_error x) r
                | Inr s2 \<Rightarrow> Finished (set_error i (Thrown e) (set_node_state i s2 r)))))"

definition timer_fired :: "string \<Rightarrow> bool \<Rightarrow> int \<Rightarrow> int \<Rightarrow> int \<Rightarrow> workflow_run \<Rightarrow> segment" where
  "timer_fired i aborted ms startedAt now r =
     (case fire i NE_start r of
        Threw e r \<Rightarrow> timer_failed i aborted e r
      | s \<Rightarrow> and_then s (\<lambda>r. and_then (fire i NE_complete r)
                (\<lambda>r. Finished (set_outputs i (O_waited (now - startedAt) ms) r))))"

definition event_fired :: "string \<Rightarrow> string \<Rightarrow> workflow_run \<Rightarrow> segment" where
  "event_fired i name r =
     catching (and_then (fire i NE_complete r) (\<lambda>r. Finished (set_outputs i (O_event name) r)))
       (\<lambda>e. fail_node i (Thrown e))"

subsection \<open>Branches\<close>

text \<open>
  The outputs of the dependencies by identifier. A field holds an object, so a comparison is
  one with an object: never identical to a stored value, not a number, and the string
  \<open>"[object Object]"\<close> where a string is asked for.
\<close>

definition availableOutputs :: "string list \<Rightarrow> workflow_run \<Rightarrow> (string \<times> node_outputs) list" where
  "availableOutputs deps r =
     List.map_filter (\<lambda>d. map_option (Pair d) (Option.bind (detail d r) nd_outputs)) (remdups deps)"

definition object_text :: string where
  "object_text = ''[object Object]''"

definition value_text :: "condition_value \<Rightarrow> string" where
  "value_text v = (case v of CV_undefined \<Rightarrow> ''undefined'' | CV_scalar s \<Rightarrow> s | CV_text s \<Rightarrow> s)"

definition field_compare :: "compare_op \<Rightarrow> node_outputs option \<Rightarrow> condition_value \<Rightarrow> bool" where
  "field_compare op val v =
     (case op of
        Op_eq \<Rightarrow> val = None \<and> v = CV_undefined
      | Op_neq \<Rightarrow> \<not> (val = None \<and> v = CV_undefined)
      | Op_gt \<Rightarrow> (case v of CV_text s \<Rightarrow> val \<noteq> None \<and> s < object_text | _ \<Rightarrow> False)
      | Op_lt \<Rightarrow> (case v of CV_text s \<Rightarrow> val \<noteq> None \<and> object_text < s | _ \<Rightarrow> False)
      | Op_contains \<Rightarrow> sublist (value_text v) (if val = None then ''undefined'' else object_text)
      | _ \<Rightarrow> False)"

definition branch_result :: "engine_config \<Rightarrow> branch_condition \<Rightarrow> string list \<Rightarrow> workflow_run \<Rightarrow> bool" where
  "branch_result cfg c deps r =
     (let outs = availableOutputs deps r
      in case c of
           Field_exists f \<Rightarrow> map_of outs f \<noteq> None
         | Field_is_empty f \<Rightarrow> map_of outs f = None
         | Field_compare f op v \<Rightarrow> field_compare op (map_of outs f) v
         | Expression x \<Rightarrow> cf_evaluate cfg x outs
         | Review_approved j \<Rightarrow> node_state_of j r = Some N_completed
         | Approval_granted j \<Rightarrow> node_state_of j r = Some N_completed
         | Review_changes_requested j \<Rightarrow> node_state_of j r = Some N_failed
         | Approval_denied j \<Rightarrow> node_state_of j r = Some N_failed)"

definition activate :: "string \<Rightarrow> workflow_run \<Rightarrow> workflow_run" where
  "activate j r = (if node_state_of j r = Some N_pending then set_node_state j N_ready r else r)"

definition skip_node :: "string \<Rightarrow> bool \<Rightarrow> string \<Rightarrow> workflow_run \<Rightarrow> workflow_run" where
  "skip_node i taken j r =
     (if node_state_of j r = Some N_pending
      then set_outputs j (O_skipped i taken) (set_node_state j N_skipped r)
      else r)"

text \<open>One pass of the propagation over the nodes of the definition, in order.\<close>

definition skip_pass :: "string \<Rightarrow> bool \<Rightarrow> workflow_run \<Rightarrow> workflow_run" where
  "skip_pass i taken r =
     fold (\<lambda>n r. if node_state_of (wn_id n) r = Some N_pending \<and> wn_deps n \<noteq> [] \<and>
                     (\<forall>d \<in> set (wn_deps n). node_state_of d r = Some N_skipped)
                  then skip_node i taken (wn_id n) r else r) (wr_nodes r) r"

definition pending_details :: "workflow_run \<Rightarrow> nat" where
  "pending_details r = length (filter (\<lambda>d. nd_state d = N_pending) (wr_details r))"

lemma detail_id: "detail i r = Some d \<Longrightarrow> nd_id d = i \<and> d \<in> set (wr_details r)"
  unfolding detail_def by (drule find_SomeD) simp

lemma filter_if_map_le:
  "(\<And>d. \<not> P (f d)) \<Longrightarrow> length (filter P (map (\<lambda>d. if Q d then f d else d) xs)) \<le> length (filter P xs)"
  by (induction xs) auto

lemma filter_if_map_less:
  "(\<And>d. \<not> P (f d)) \<Longrightarrow> d \<in> set xs \<Longrightarrow> Q d \<Longrightarrow> P d \<Longrightarrow>
     length (filter P (map (\<lambda>d. if Q d then f d else d) xs)) < length (filter P xs)"
proof (induction xs)
  case (Cons x xs)
  have le: "length (filter P (map (\<lambda>d. if Q d then f d else d) xs)) \<le> length (filter P xs)"
    using filter_if_map_le Cons.prems(1) by blast
  show ?case
  proof (cases "d = x")
    case True
    with Cons.prems le show ?thesis by simp
  next
    case False
    with Cons show ?thesis by (auto simp: less_Suc_eq)
  qed
qed simp

lemma skip_node_alt:
  "node_state_of j r = Some N_pending \<Longrightarrow> skip_node i taken j r =
     upd_detail j (\<lambda>d. d\<lparr>nd_state := N_skipped, nd_outputs := Some (O_skipped i taken)\<rparr>) r"
  by (simp add: skip_node_def set_outputs_def set_node_state_def upd_detail_def)

lemma skip_node_pending: "skip_node i taken j r = r \<or> pending_details (skip_node i taken j r) < pending_details r"
proof (cases "node_state_of j r = Some N_pending")
  case True
  then obtain d where d: "detail j r = Some d" "nd_state d = N_pending" by (auto simp: node_state_of_def)
  have "pending_details (skip_node i taken j r) < pending_details r"
    unfolding skip_node_alt[OF True] pending_details_def upd_detail_fields
    by (rule filter_if_map_less[where d = d]) (use detail_id[OF d(1)] d(2) in auto)
  then show ?thesis ..
qed (simp add: skip_node_def)

lemma fold_pending:
  assumes "\<And>x r. f x r = r \<or> pending_details (f x r) < pending_details r"
  shows "fold f xs r = r \<or> pending_details (fold f xs r) < pending_details r"
proof (induction xs arbitrary: r)
  case (Cons x xs)
  from Cons[of "f x r"] assms[of x r] show ?case by force
qed simp

lemma skip_pass_pending: "skip_pass i taken r = r \<or> pending_details (skip_pass i taken r) < pending_details r"
  unfolding skip_pass_def by (rule fold_pending) (use skip_node_pending in auto)

text \<open>\<open>while (changed)\<close>: a pass changed something exactly when the run differs after it.\<close>

function propagate_skips :: "string \<Rightarrow> bool \<Rightarrow> workflow_run \<Rightarrow> workflow_run" where
  "propagate_skips i taken r =
     (let r' = skip_pass i taken r in if r' = r then r else propagate_skips i taken r')"
  by pat_completeness auto

termination
  by (relation "measure (\<lambda>(i, taken, r). pending_details r)") (use skip_pass_pending in auto)

declare propagate_skips.simps [simp del]

definition executeBranchNode ::
  "engine_config \<Rightarrow> string \<Rightarrow> string list \<Rightarrow> branch_condition \<Rightarrow> string list \<Rightarrow> string list \<Rightarrow>
   workflow_run \<Rightarrow> segment" where
  "executeBranchNode cfg i deps c trueNodes falseNodes r =
     (let taken = branch_result cfg c deps r;
          targets = (if taken then trueNodes else falseNodes);
          untaken = filter (\<lambda>j. j \<notin> set targets) (if taken then falseNodes else trueNodes)
      in and_then (fire i NE_complete r) (\<lambda>r.
           let r1 = fold activate targets (set_outputs i (O_branch taken) r);
               r2 = fold (skip_node i taken) untaken r1
           in Finished (if r2 = r1 then r2 else propagate_skips i taken r2)))"

subsection \<open>The other kinds\<close>

definition executeJoinNode ::
  "string \<Rightarrow> string list \<Rightarrow> join_strategy \<Rightarrow> int option \<Rightarrow> workflow_run \<Rightarrow> segment" where
  "executeJoinNode i deps strategy n r =
     (let states = List.map_filter (\<lambda>d. node_state_of d r) deps;
          done = length (filter (\<lambda>s. s = N_completed \<or> s = N_skipped) states);
          proceed = (case strategy of
              Join_all \<Rightarrow> done = length states
            | Join_any \<Rightarrow> done > 0
            | Join_n_of_m \<Rightarrow> int done \<ge> nullish n 1)
      in if proceed
         then and_then (fire i NE_complete r) (\<lambda>r. Finished (set_outputs i (O_joined done (length states)) r))
         else fail_node i (Join_not_satisfied done (length states)) r)"

definition executeArtifactOutputNode :: "string \<Rightarrow> string \<Rightarrow> workflow_run \<Rightarrow> segment" where
  "executeArtifactOutputNode i source r =
     (let outs = Option.bind (detail source r) nd_outputs
      in and_then (fire i NE_complete (r\<lparr>wr_artifacts := wr_artifacts r @ [i]\<rparr>))
           (\<lambda>r. Finished (set_outputs i (O_artifact outs) r)))"

definition complete_with :: "string \<Rightarrow> node_outputs \<Rightarrow> workflow_run \<Rightarrow> segment" where
  "complete_with i x r = and_then (fire i NE_complete r) (\<lambda>r. Finished (set_outputs i x r))"

definition executeCompletionNode :: "int \<Rightarrow> string \<Rightarrow> completion_outcome \<Rightarrow> workflow_run \<Rightarrow> segment" where
  "executeCompletionNode now i outcome r =
     and_then (complete_with i (O_completion outcome) r) (\<lambda>r.
       and_then (fire_run (if outcome = Success then RE_complete else RE_partial_complete) r) (\<lambda>r.
         Finished (if wr_state r = W_completed \<or> wr_state r = W_partially_completed
                   then r\<lparr>wr_endedAt := Some (nullish (wr_endedAt r) now)\<rparr> else r)))"

definition executeCompensationNode :: "string \<Rightarrow> string list \<Rightarrow> workflow_run \<Rightarrow> segment" where
  "executeCompensationNode i targets r =
     and_then (fire i NE_begin_compensate r) (\<lambda>r.
       let r1 = fold (\<lambda>t r. if node_state_of t r = Some N_completed
                             then try_fire t NE_begin_compensate r else r) targets r
       in and_then (fire i NE_compensated r1) (\<lambda>r. Finished (set_outputs i (O_compensated targets) r)))"

section \<open>Executing a node\<close>

text \<open>The synchronous part of \<open>executeNode\<close>'s switch.\<close>

definition run_kind :: "engine_config \<Rightarrow> int \<Rightarrow> workflow_node \<Rightarrow> workflow_run \<Rightarrow> segment" where
  "run_kind cfg now n r =
     (let i = wn_id n in
      case wn_kind n of
        K_trigger \<Rightarrow> complete_with i O_triggered r
      | K_deterministic \<Rightarrow> async_result (executeDeterministicNode i r)
      | K_agentic \<Rightarrow> Waits A_agent r
      | K_human_approval _ \<Rightarrow> async_result (enterHumanWait i True r)
      | K_human_review \<Rightarrow> async_result (enterHumanWait i False r)
      | K_tool_action family name \<Rightarrow> async_result (executeToolActionNode cfg i family name r)
      | K_wait_timer timer \<Rightarrow> async_result (executeWaitTimerNode cfg now i timer r)
      | K_branch c trueNodes falseNodes \<Rightarrow> executeBranchNode cfg i (wn_deps n) c trueNodes falseNodes r
      | K_join strategy k \<Rightarrow> executeJoinNode i (wn_deps n) strategy k r
      | K_artifact_output source \<Rightarrow> executeArtifactOutputNode i source r
      | K_business_record \<Rightarrow> async_result (complete_with i O_recorded r)
      | K_notification \<Rightarrow> async_result (complete_with i O_notified r)
      | K_completion outcome \<Rightarrow> executeCompletionNode now i outcome r
      | K_compensation targets \<Rightarrow> async_result (executeCompensationNode i targets r))"

text \<open>What a collaborator answers: a rejection, a plain return, or a result.\<close>

datatype reply =
    Rejects string
  | Resolves
  | Agent_result string "node_cost option"
  | Tool_result bool "string option"

text \<open>
  The continuation of a node in flight. \<open>aborted\<close> is the abort signal of its tick. A reply
  of another collaborator does not occur; it leaves the run alone.
\<close>

definition continue_executor ::
  "workflow_node \<Rightarrow> bool \<Rightarrow> int \<Rightarrow> awaited \<Rightarrow> reply \<Rightarrow> workflow_run \<Rightarrow> segment" where
  "continue_executor n aborted now a reply r =
     (let i = wn_id n in
      case a of
        A_det_record \<Rightarrow> (case reply of Rejects e \<Rightarrow> fail_node i (Thrown (Rejection e)) r | _ \<Rightarrow> Finished r)
      | A_agent \<Rightarrow>
          (case reply of
             Agent_result summary cost \<Rightarrow> agent_answered i summary cost r
           | Rejects e \<Rightarrow> agent_failed i (Rejection e) r
           | _ \<Rightarrow> Waits a r)
      | A_agent_record \<Rightarrow> (case reply of Rejects e \<Rightarrow> agent_failed i (Rejection e) r | _ \<Rightarrow> Finished r)
      | A_agent_fail_record \<Rightarrow> (case reply of Rejects e \<Rightarrow> Threw (Rejection e) r | _ \<Rightarrow> Finished r)
      | A_tool \<Rightarrow>
          (case (reply, wn_kind n) of
             (Tool_result ok err, K_tool_action family name) \<Rightarrow> tool_answered i family name ok err r
           | (Rejects e, _) \<Rightarrow> tool_fail i (Thrown (Rejection e)) r
           | _ \<Rightarrow> Waits a r)
      | A_tool_record \<Rightarrow> (case reply of Rejects e \<Rightarrow> tool_fail i (Thrown (Rejection e)) r | _ \<Rightarrow> Finished r)
      | A_swallowed_record \<Rightarrow> Finished r
      | A_timer ms startedAt \<Rightarrow>
          (case reply of
             Rejects e \<Rightarrow> timer_failed i aborted (Rejection e) r
           | _ \<Rightarrow> timer_fired i aborted ms startedAt now r)
      | A_event name \<Rightarrow>
          (case reply of Rejects e \<Rightarrow> fail_node i (Thrown (Rejection e)) r | _ \<Rightarrow> event_fired i name r)
      | A_returned \<Rightarrow> Finished r
      | A_thrown e \<Rightarrow> Threw e r)"

definition continue_node ::
  "workflow_node \<Rightarrow> bool \<Rightarrow> int \<Rightarrow> awaited \<Rightarrow> reply \<Rightarrow> workflow_run \<Rightarrow> segment" where
  "continue_node n aborted now a reply r =
     (let s = continue_executor n aborted now a reply r
      in case a of A_returned \<Rightarrow> s | A_thrown _ \<Rightarrow> s | _ \<Rightarrow> async_result s)"

text \<open>A node in flight waits, or its promise is settled (with an error when it is rejected).\<close>

datatype flight = In_flight awaited | Settled "engine_exn option"

definition stamp_end :: "string \<Rightarrow> int \<Rightarrow> workflow_run \<Rightarrow> workflow_run" where
  "stamp_end i now r = (upd_detail i (\<lambda>d. d\<lparr>nd_endedAt := Some now\<rparr>) r)\<lparr>wr_updatedAt := now\<rparr>"

text \<open>The \<open>catch\<close> block of \<open>executeNode\<close>, and what follows it.\<close>

definition catch_node ::
  "workflow_node \<Rightarrow> bool \<Rightarrow> int \<Rightarrow> engine_exn \<Rightarrow> workflow_run \<Rightarrow> workflow_run \<times> flight" where
  "catch_node n aborted now e r =
     (let i = wn_id n;
          attempt = (case detail i r of None \<Rightarrow> 0 | Some d \<Rightarrow> nd_attempt d)
      in if aborted \<or> node_state_of i r = Some N_cancelled
         then (stamp_end i now (try_fire i NE_cancel r), Settled None)
         else if wn_maxRetries n > 0 \<and> int attempt \<le> wn_maxRetries n
         then (stamp_end i now (upd_detail i (\<lambda>d. d\<lparr>nd_retryHistory := nd_retryHistory d @ [(attempt, e)],
                                                    nd_state := N_ready\<rparr>) r), Settled None)
         else case fire i NE_fail r of
           Threw e' r' \<Rightarrow> (r', Settled (Some e'))
         | s \<Rightarrow> (stamp_end i now (push_error i (Thrown e) (set_error i (Thrown e) (result_run s))), Settled None))"

definition settle_segment ::
  "workflow_node \<Rightarrow> bool \<Rightarrow> int \<Rightarrow> segment \<Rightarrow> workflow_run \<times> flight" where
  "settle_segment n aborted now s =
     (case s of
        Finished r \<Rightarrow> (stamp_end (wn_id n) now r, Settled None)
      | Threw e r \<Rightarrow> catch_node n aborted now e r
      | Waits a r \<Rightarrow> (r, In_flight a))"

definition executeNode ::
  "engine_config \<Rightarrow> int \<Rightarrow> bool \<Rightarrow> string \<Rightarrow> workflow_run \<Rightarrow> workflow_run \<times> flight" where
  "executeNode cfg now aborted i r =
     (case find_node i (wr_nodes r) of
        None \<Rightarrow> (set_error i (Node_missing i) (set_node_state i N_failed r), Settled None)
      | Some n \<Rightarrow>
          (let r1 = (upd_detail i (\<lambda>d. d\<lparr>nd_state := N_running, nd_attempt := Suc (nd_attempt d),
                                         nd_startedAt := Some now\<rparr>) r)\<lparr>wr_updatedAt := now\<rparr>
           in if aborted
              then (case fire i NE_cancel r1 of
                      Threw e r2 \<Rightarrow> (r2, Settled (Some e))
                    | s \<Rightarrow> (result_run s, Settled None))
              else settle_segment n aborted now (run_kind cfg now n r1)))"

end
