(* ===== verification/Workflow_Control.thy ===== *)
theory Workflow_Control
  imports Workflow_Engine
begin

text \<open>
  The loop and the control verbs of the workflow engine (\<open>execution/workflow/engine.ts\<close>):
  readiness, the state of a run recomputed from its nodes, \<open>advanceRun\<close> with its ticks,
  starting a run, human decisions, pause, resume, cancellation, and a restart of the process.
\<close>

section \<open>Readiness and the state of a run\<close>

definition dep_satisfied :: "workflow_run \<Rightarrow> string \<Rightarrow> bool" where
  "dep_satisfied r d \<longleftrightarrow>
     node_state_of d r \<in> {Some N_completed, Some N_skipped, Some N_compensated}"

definition deps_satisfied :: "workflow_run \<Rightarrow> string \<Rightarrow> bool" where
  "deps_satisfied r i \<longleftrightarrow>
     (case find_node i (wr_nodes r) of None \<Rightarrow> False | Some n \<Rightarrow> \<forall>d \<in> set (wn_deps n). dep_satisfied r d)"

text \<open>
  The loop reads the states while it makes nodes ready; a node that becomes ready satisfies
  no dependency, so the order does not matter and the states before the loop decide.
\<close>

definition refreshNodeReadiness :: "workflow_run \<Rightarrow> workflow_run" where
  "refreshNodeReadiness r =
     r\<lparr>wr_details := map (\<lambda>d. if nd_state d = N_pending \<and> deps_satisfied r (nd_id d)
                              then d\<lparr>nd_state := N_ready\<rparr> else d) (wr_details r)\<rparr>"

definition getReadyNodes :: "workflow_run \<Rightarrow> string list" where
  "getReadyNodes r =
     map nd_id (filter (\<lambda>d. nd_state d = N_ready \<and> deps_satisfied r (nd_id d)) (wr_details r))"

definition some_node :: "node_state list \<Rightarrow> workflow_run \<Rightarrow> bool" where
  "some_node ss r \<longleftrightarrow> (\<exists>d \<in> set (wr_details r). nd_state d \<in> set ss)"

definition compensating_failure :: "workflow_run \<Rightarrow> bool" where
  "compensating_failure r \<longleftrightarrow>
     (\<exists>d \<in> set (wr_details r). nd_state d = N_failed \<and>
        (case find_node (nd_id d) (wr_nodes r) of None \<Rightarrow> False
         | Some n \<Rightarrow> wn_onFailure n = On_compensate \<and> truthy_str (wn_compensateNodeId n)))"

definition CANCEL_ON_RECOMPUTE :: "node_state list" where
  "CANCEL_ON_RECOMPUTE = [N_pending, N_ready, N_running, N_waiting_timer, N_waiting_event]"

definition cancel_details :: "(node_state \<Rightarrow> bool) \<Rightarrow> workflow_run \<Rightarrow> workflow_run" where
  "cancel_details affected r =
     r\<lparr>wr_details := map (\<lambda>d. if affected (nd_state d)
                              then (case applyNodeEvent (nd_state d) NE_cancel (nd_id d) of
                                      Inl _ \<Rightarrow> d | Inr s \<Rightarrow> d\<lparr>nd_state := s\<rparr>)
                              else d) (wr_details r)\<rparr>"

definition recomputeRunState :: "int \<Rightarrow> workflow_run \<Rightarrow> workflow_run" where
  "recomputeRunState now r =
     (if wr_state r = W_cancelled \<or> wr_state r = W_cancelling
      then (cancel_details (\<lambda>s. s \<in> set CANCEL_ON_RECOMPUTE) r)
             \<lparr>wr_state := W_cancelled, wr_endedAt := Some (nullish (wr_endedAt r) now)\<rparr>
      else if some_node [N_waiting_approval] r then r\<lparr>wr_state := W_awaiting_approval\<rparr>
      else if some_node [N_waiting_review] r then r\<lparr>wr_state := W_awaiting_review\<rparr>
      else if some_node [N_waiting_timer, N_waiting_event] r then r\<lparr>wr_state := W_waiting\<rparr>
      else if some_node [N_failed] r
      then r\<lparr>wr_state := (if compensating_failure r then W_compensation_required else W_failed)\<rparr>
      else if some_node [N_blocked] r then r\<lparr>wr_state := W_blocked\<rparr>
      else let terminal = filter (\<lambda>d. nd_state d \<in> {N_completed, N_skipped, N_compensated, N_cancelled}) (wr_details r);
               pending = filter (\<lambda>d. nd_state d \<in> {N_pending, N_ready, N_running}) (wr_details r)
           in if length terminal = length (wr_details r) \<and> pending = []
              then r\<lparr>wr_state := W_completed, wr_endedAt := Some now\<rparr>
              else if pending = [] \<and> terminal \<noteq> [] then r\<lparr>wr_state := W_partially_completed\<rparr>
              else r\<lparr>wr_state := W_running\<rparr>)"

section \<open>The engine\<close>

text \<open>
  A tick: the object it works on, the nodes of its \<open>Promise.allSettled\<close>, the signal of its
  controller, the iterations that the loop may still begin, and whether it is over.
\<close>

record tick =
  tk_obj :: nat
  tk_flights :: "(string \<times> flight) list"
  tk_aborted :: bool
  tk_left :: nat
  tk_over :: bool

text \<open>
  One run of the engine: its objects, the entry of the \<open>live\<close> map, the stored row, the ticks,
  and the tick whose controller is in the \<open>running\<close> map.
\<close>

record engine =
  en_objs :: "workflow_run list"
  en_live :: "nat option"
  en_saved :: "workflow_run option"
  en_ticks :: "tick list"
  en_running :: "nat option"

datatype api_error =
    Run_not_found
  | Not_awaiting_human run_state
  | Node_not_found string
  | Node_not_waiting string node_state
  | Node_not_in_definition string
  | Cannot_pause run_state
  | Cannot_resume run_state
  | Cannot_cancel run_state
  | Uncaught engine_exn
  | Definition_not_found
  | Definition_not_active
  | Definition_not_intact

type_synonym 'a call = "(api_error + 'a) \<times> engine"

definition MAX_TICKS :: nat where
  "MAX_TICKS = 1000"

definition put_obj :: "nat \<Rightarrow> workflow_run \<Rightarrow> engine \<Rightarrow> engine" where
  "put_obj o1 r en = en\<lparr>en_objs := (en_objs en)[o1 := r]\<rparr>"

definition save_obj :: "nat \<Rightarrow> engine \<Rightarrow> engine" where
  "save_obj o1 en = en\<lparr>en_saved := Some (en_objs en ! o1)\<rparr>"

definition FORGOTTEN_STATES :: "run_state list" where
  "FORGOTTEN_STATES = [W_completed, W_failed, W_cancelled, W_expired]"

definition forgetIfTerminal :: "nat \<Rightarrow> engine \<Rightarrow> engine" where
  "forgetIfTerminal o1 en =
     en\<lparr>en_live := (if wr_state (en_objs en ! o1) \<in> set FORGOTTEN_STATES then None else Some o1)\<rparr>"

text \<open>\<open>requireRun\<close>: the live object, or a fresh one read from the stored row.\<close>

definition requireRun :: "engine \<Rightarrow> (nat \<times> engine) option" where
  "requireRun en =
     (case en_live en of
        Some o1 \<Rightarrow> Some (o1, en)
      | None \<Rightarrow>
          (case en_saved en of
             None \<Rightarrow> None
           | Some r \<Rightarrow> Some (length (en_objs en), en\<lparr>en_objs := en_objs en @ [r]\<rparr>)))"

text \<open>The nodes of a batch start one after the other.\<close>

fun start_nodes ::
  "engine_config \<Rightarrow> int \<Rightarrow> string list \<Rightarrow> workflow_run \<Rightarrow> workflow_run \<times> (string \<times> flight) list" where
  "start_nodes cfg now [] r = (r, [])"
| "start_nodes cfg now (i # is) r =
     (let (r1, f) = executeNode cfg now False i r; (r2, fs) = start_nodes cfg now is r1
      in (r2, (i, f) # fs))"

text \<open>The end of \<open>advanceRun\<close>.\<close>

definition finish_advance :: "int \<Rightarrow> nat \<Rightarrow> engine \<Rightarrow> engine" where
  "finish_advance now o1 en =
     forgetIfTerminal o1 (save_obj o1 (put_obj o1 ((en_objs en ! o1)\<lparr>wr_updatedAt := now\<rparr>) en))"

text \<open>
  An iteration of the loop of \<open>advanceRun\<close>, up to the \<open>await\<close> of the batch or to the end.
  \<open>left\<close> counts the iterations that may still begin.
\<close>

definition advance :: "engine_config \<Rightarrow> int \<Rightarrow> nat \<Rightarrow> nat \<Rightarrow> engine \<Rightarrow> engine" where
  "advance cfg now o1 left en =
     (let r = en_objs en ! o1 in
      if left = 0 \<or> \<not> canAdvanceNodes (wr_state r) then finish_advance now o1 en
      else let r1 = refreshNodeReadiness r; ready = getReadyNodes r1
           in if ready = [] then finish_advance now o1 (put_obj o1 (recomputeRunState now r1) en)
              else let (r2, fs) = start_nodes cfg now ready r1
                   in (put_obj o1 r2 en)
                        \<lparr>en_ticks := en_ticks en @ [\<lparr>tk_obj = o1, tk_flights = fs, tk_aborted = False,
                                                     tk_left = left - 1, tk_over = False\<rparr>],
                         en_running := Some (length (en_ticks en))\<rparr>)"

definition advanceRun :: "engine_config \<Rightarrow> int \<Rightarrow> nat \<Rightarrow> engine \<Rightarrow> engine" where
  "advanceRun cfg now o1 = advance cfg now o1 MAX_TICKS"

text \<open>A collaborator answers for node \<open>i\<close> of tick \<open>k\<close>.\<close>

definition answer_node :: "int \<Rightarrow> nat \<Rightarrow> string \<Rightarrow> reply \<Rightarrow> engine \<Rightarrow> engine" where
  "answer_node now k i reply en =
     (if k < length (en_ticks en) then
        (let tk = en_ticks en ! k; r = en_objs en ! tk_obj tk in
         case (map_of (tk_flights tk) i, find_node i (wr_nodes r)) of
           (Some (In_flight a), Some n) \<Rightarrow>
             (case settle_segment n (tk_aborted tk) now (continue_node n (tk_aborted tk) now a reply r) of
                (r', f) \<Rightarrow>
                  (put_obj (tk_obj tk) r' en)
                    \<lparr>en_ticks := (en_ticks en)[k := tk\<lparr>tk_flights :=
                        map (\<lambda>(j, g). (j, if j = i then f else g)) (tk_flights tk)\<rparr>]\<rparr>)
         | _ \<Rightarrow> en)
      else en)"

definition tick_settled :: "tick \<Rightarrow> bool" where
  "tick_settled tk \<longleftrightarrow>
     \<not> tk_over tk \<and> (\<forall>(i, f) \<in> set (tk_flights tk). case f of In_flight _ \<Rightarrow> False | Settled _ \<Rightarrow> True)"

definition rejections :: "tick \<Rightarrow> engine_exn list" where
  "rejections tk =
     List.map_filter (\<lambda>(i, f). case f of Settled (Some e) \<Rightarrow> Some e | _ \<Rightarrow> None) (tk_flights tk)"

text \<open>All promises of tick \<open>k\<close> are settled: the rest of the iteration, and the next one.\<close>

definition end_tick :: "engine_config \<Rightarrow> int \<Rightarrow> nat \<Rightarrow> engine \<Rightarrow> engine" where
  "end_tick cfg now k en =
     (if k < length (en_ticks en) \<and> tick_settled (en_ticks en ! k) then
        (let tk = en_ticks en ! k; o1 = tk_obj tk;
             r = fold (\<lambda>e. push_error ''engine'' (Thrown e)) (rejections tk) (en_objs en ! o1);
             r1 = recomputeRunState now r;
             en1 = (put_obj o1 r1 en)
                     \<lparr>en_ticks := (en_ticks en)[k := tk\<lparr>tk_over := True\<rparr>], en_running := None\<rparr>
         in if canAcceptHumanInput (wr_state r1) then finish_advance now o1 (save_obj o1 en1)
            else advance cfg now o1 (tk_left tk) en1)
      else en)"

section \<open>Control verbs\<close>

definition initial_detail :: "string list \<Rightarrow> workflow_node \<Rightarrow> node_detail" where
  "initial_detail entries n =
     \<lparr>nd_id = wn_id n, nd_state = (if wn_id n \<in> set entries \<or> wn_deps n = [] then N_ready else N_pending),
      nd_outputs = None, nd_error = None, nd_attempt = 0, nd_startedAt = None, nd_endedAt = None,
      nd_decisionRef = None, nd_retryHistory = []\<rparr>"

text \<open>\<open>Map.set\<close> on the map of node states.\<close>

definition set_detail :: "node_detail \<Rightarrow> node_detail list \<Rightarrow> node_detail list" where
  "set_detail d ds =
     (if nd_id d \<in> nd_id ` set ds then map (\<lambda>x. if nd_id x = nd_id d then d else x) ds else ds @ [d])"

definition new_run :: "int \<Rightarrow> workflow_node list \<Rightarrow> string list \<Rightarrow> workflow_run" where
  "new_run now ns entries =
     \<lparr>wr_state = W_queued, wr_nodes = ns,
      wr_details = fold (\<lambda>n. set_detail (initial_detail entries n)) ns [],
      wr_decisions = [], wr_artifacts = [],
      wr_cost = \<lparr>co_usd = 0, co_tokensIn = 0, co_tokensOut = 0\<rparr>, wr_breakdown = [], wr_errorChain = [],
      wr_startedAt = None, wr_updatedAt = now, wr_endedAt = None\<rparr>"

definition queued_engine :: "int \<Rightarrow> workflow_node list \<Rightarrow> string list \<Rightarrow> engine" where
  "queued_engine now ns entries =
     \<lparr>en_objs = [new_run now ns entries], en_live = Some 0, en_saved = Some (new_run now ns entries),
      en_ticks = [], en_running = None\<rparr>"

text \<open>
  \<open>startRun\<close>: the definition that the store has, with the answer of \<open>verifyIntegrity\<close>. The
  snapshot of the definition is a copy that nothing else refers to.
\<close>

record workflow_definition =
  df_nodes :: "workflow_node list"
  df_entries :: "string list"
  df_active :: bool
  df_intact :: bool

definition startRun :: "int \<Rightarrow> workflow_definition option \<Rightarrow> api_error + engine" where
  "startRun now def =
     (case def of
        None \<Rightarrow> Inl Definition_not_found
      | Some d \<Rightarrow>
          if \<not> df_active d then Inl Definition_not_active
          else if \<not> df_intact d then Inl Definition_not_intact
          else Inr (queued_engine now (df_nodes d) (df_entries d)))"

text \<open>\<open>applyRunTransition\<close>: the event, then the save.\<close>

definition applyRunTransition :: "int \<Rightarrow> run_event \<Rightarrow> nat \<Rightarrow> engine \<Rightarrow> unit call" where
  "applyRunTransition now e o1 en =
     (case fire_run e (en_objs en ! o1) of
        Threw x _ \<Rightarrow> (Inl (Uncaught x), en)
      | s \<Rightarrow> (Inr (), save_obj o1 (put_obj o1 ((result_run s)\<lparr>wr_updatedAt := now\<rparr>) en)))"

definition with_run :: "engine \<Rightarrow> (nat \<Rightarrow> engine \<Rightarrow> unit call) \<Rightarrow> unit call" where
  "with_run en f =
     (case requireRun en of None \<Rightarrow> (Inl Run_not_found, en) | Some (o1, en') \<Rightarrow> f o1 en')"

definition executeRun :: "engine_config \<Rightarrow> int \<Rightarrow> engine \<Rightarrow> unit call" where
  "executeRun cfg now en = with_run en (\<lambda>o1 en.
     let r = en_objs en ! o1 in
     if wr_state r = W_queued then
       (case applyRunTransition now RE_start o1
               (put_obj o1 (r\<lparr>wr_startedAt := Some (nullish (wr_startedAt r) now)\<rparr>) en) of
          (Inl x, en) \<Rightarrow> (Inl x, en)
        | (Inr _, en) \<Rightarrow> (Inr (), advanceRun cfg now o1 en))
     else (Inr (), advanceRun cfg now o1 en))"

text \<open>The outcome of a decision on a node: the node's events, then the run's.\<close>

definition apply_decision :: "workflow_node \<Rightarrow> decision \<Rightarrow> string \<Rightarrow> workflow_run \<Rightarrow> segment" where
  "apply_decision n d who r =
     (let i = wn_id n in
      case d of
        D_approve \<Rightarrow>
          and_then (fire i NE_start r) (\<lambda>r. and_then (fire i NE_complete r)
            (\<lambda>r. fire_run RE_resume (set_outputs i (O_approved who) r)))
      | D_deny why \<Rightarrow>
          and_then (fail_node i (Denied why) r)
            (fire_run (case wn_kind n of K_human_approval (Some Deny_stop_workflow) \<Rightarrow> RE_fail | _ \<Rightarrow> RE_resume))
      | D_review_approve \<Rightarrow>
          and_then (complete_with i O_review_approved r) (fire_run RE_resume)
      | D_changes what \<Rightarrow> and_then (fail_node i (Changes_requested what) r) (fire_run RE_resume)
      | D_reject why \<Rightarrow> and_then (fail_node i (Review_rejected why) r) (fire_run RE_fail)
      | D_expired \<Rightarrow> and_then (fire i NE_expire r) (fire_run RE_expire))"

definition is_approval :: "workflow_node \<Rightarrow> bool" where
  "is_approval n \<longleftrightarrow> (case wn_kind n of K_human_approval _ \<Rightarrow> True | _ \<Rightarrow> False)"

definition make_decision ::
  "int \<Rightarrow> string \<Rightarrow> workflow_node \<Rightarrow> node_detail \<Rightarrow> decision \<Rightarrow> string \<Rightarrow> run_state \<Rightarrow> human_decision" where
  "make_decision now hid n nd d who st =
     \<lparr>hd_decisionId = hid, hd_nodeId = nd_id nd, hd_isApproval = is_approval n, hd_decidedBy = who,
      hd_decision = d, hd_requestedAt = nullish (nd_startedAt nd) now, hd_decidedAt = now,
      hd_expiresAt = nullish (nd_startedAt nd) now + nullish (wn_expiresInMs n) 86400000,
      hd_resulting = st\<rparr>"

definition submitHumanDecision ::
  "engine_config \<Rightarrow> int \<Rightarrow> string \<Rightarrow> string \<Rightarrow> decision \<Rightarrow> string \<Rightarrow> engine \<Rightarrow> unit call" where
  "submitHumanDecision cfg now hid i d who en = with_run en (\<lambda>o1 en.
     let r = en_objs en ! o1 in
     if \<not> canAcceptHumanInput (wr_state r) then (Inl (Not_awaiting_human (wr_state r)), en)
     else case detail i r of
       None \<Rightarrow> (Inl (Node_not_found i), en)
     | Some nd \<Rightarrow>
         if nd_state nd \<noteq> N_waiting_approval \<and> nd_state nd \<noteq> N_waiting_review
         then (Inl (Node_not_waiting i (nd_state nd)), en)
         else case find_node i (wr_nodes r) of
           None \<Rightarrow> (Inl (Node_not_in_definition i), en)
         | Some n \<Rightarrow>
             (let h = make_decision now hid n nd d who (wr_state r);
                  r1 = r\<lparr>wr_decisions := wr_decisions r @ [h]\<rparr>
              in case apply_decision n d who r1 of
                   Threw x r2 \<Rightarrow> (Inl (Uncaught x), put_obj o1 r2 en)
                 | s \<Rightarrow>
                     (let r2 = result_run s;
                          r3 = (upd_detail i (\<lambda>x. x\<lparr>nd_decisionRef := Some hid\<rparr>) r2)
                                 \<lparr>wr_decisions := wr_decisions r @ [h\<lparr>hd_resulting := wr_state r2\<rparr>],
                                  wr_updatedAt := now\<rparr>;
                          en1 = save_obj o1 (put_obj o1 r3 en)
                      in (Inr (), if canAdvanceNodes (wr_state r3) then advanceRun cfg now o1 en1
                                  else forgetIfTerminal o1 en1))))"

definition pauseRun :: "int \<Rightarrow> engine \<Rightarrow> unit call" where
  "pauseRun now en = with_run en (\<lambda>o1 en.
     let st = wr_state (en_objs en ! o1) in
     if \<not> canPause st then (Inl (Cannot_pause st), en) else applyRunTransition now RE_pause o1 en)"

definition resumeRun :: "engine_config \<Rightarrow> int \<Rightarrow> engine \<Rightarrow> unit call" where
  "resumeRun cfg now en = with_run en (\<lambda>o1 en.
     let st = wr_state (en_objs en ! o1) in
     if st \<noteq> W_paused then (Inl (Cannot_resume st), en)
     else case applyRunTransition now RE_resume o1 en of
       (Inl x, en) \<Rightarrow> (Inl x, en)
     | (Inr _, en) \<Rightarrow> (Inr (), advanceRun cfg now o1 en))"

definition KEPT_ON_CANCEL :: "node_state list" where
  "KEPT_ON_CANCEL = [N_completed, N_cancelled, N_skipped, N_failed]"

definition cancelRun :: "int \<Rightarrow> engine \<Rightarrow> unit call" where
  "cancelRun now en = with_run en (\<lambda>o1 en.
     let st = wr_state (en_objs en ! o1) in
     if \<not> canCancel st then (Inl (Cannot_cancel st), en)
     else case applyRunTransition now RE_request_cancel o1 en of
       (Inl x, en) \<Rightarrow> (Inl x, en)
     | (Inr _, en) \<Rightarrow>
         (let r1 = cancel_details (\<lambda>s. s \<notin> set KEPT_ON_CANCEL) (en_objs en ! o1);
              r2 = result_run (fire_run RE_cancel r1);
              r3 = (if wr_state r2 = W_cancelled then r2\<lparr>wr_endedAt := Some now\<rparr> else r2)\<lparr>wr_updatedAt := now\<rparr>;
              en1 = save_obj o1 (put_obj o1 r3 en)
          in (Inr (), case en_running en1 of
                        Some k \<Rightarrow> en1\<lparr>en_ticks := (en_ticks en1)[k := (en_ticks en1 ! k)\<lparr>tk_aborted := True\<rparr>]\<rparr>
                      | None \<Rightarrow> forgetIfTerminal o1 en1)))"

text \<open>The process ends and starts again: only the stored row is left.\<close>

definition restart :: "engine \<Rightarrow> engine" where
  "restart en = en\<lparr>en_objs := [], en_live := None, en_ticks := [], en_running := None\<rparr>"

section \<open>Runs of the engine\<close>

datatype engine_op =
    Op_execute int
  | Op_decide int string string decision string
  | Op_pause int
  | Op_resume int
  | Op_cancel int
  | Op_answer int nat string reply
  | Op_end_tick int nat
  | Op_restart

fun apply_engine_op :: "engine_config \<Rightarrow> engine_op \<Rightarrow> engine \<Rightarrow> engine" where
  "apply_engine_op cfg (Op_execute t) en = snd (executeRun cfg t en)"
| "apply_engine_op cfg (Op_decide t hid i d who) en = snd (submitHumanDecision cfg t hid i d who en)"
| "apply_engine_op cfg (Op_pause t) en = snd (pauseRun t en)"
| "apply_engine_op cfg (Op_resume t) en = snd (resumeRun cfg t en)"
| "apply_engine_op cfg (Op_cancel t) en = snd (cancelRun t en)"
| "apply_engine_op cfg (Op_answer t k i reply) en = answer_node t k i reply en"
| "apply_engine_op cfg (Op_end_tick t k) en = end_tick cfg t k en"
| "apply_engine_op cfg Op_restart en = restart en"

end
