(* ===== verification/Workflow_Spec.thy ===== *)
theory Workflow_Spec
  imports Workflow_Control
begin

text \<open>
  What a run may do, whatever the engine does inside: an abstract run has the state of the
  run, the definition, the state and the number of attempts of every node, and the human
  decisions. The step relation says when a node may become ready, start, move on, be retried
  or cancelled and when a decision may be recorded. The invariants are proved here once; the
  engine is shown to be an implementation in \<open>Workflow_Refinement\<close>.
\<close>

section \<open>Abstract runs\<close>

record abs_run =
  a_state :: run_state
  a_nodes :: "workflow_node list"
  a_node :: "string \<Rightarrow> (node_state \<times> nat) option"
  a_decisions :: "(string \<times> decision) list"

definition abs_of :: "workflow_run \<Rightarrow> abs_run" where
  "abs_of r =
     \<lparr>a_state = wr_state r, a_nodes = wr_nodes r,
      a_node = (\<lambda>i. map_option (\<lambda>d. (nd_state d, nd_attempt d)) (detail i r)),
      a_decisions = map (\<lambda>h. (hd_nodeId h, hd_decision h)) (wr_decisions r)\<rparr>"

definition a_put :: "string \<Rightarrow> node_state \<Rightarrow> nat \<Rightarrow> abs_run \<Rightarrow> abs_run" where
  "a_put i s k a = a\<lparr>a_node := (a_node a)(i \<mapsto> (s, k))\<rparr>"

lemma a_put_fields [simp]:
  "a_state (a_put i s k a) = a_state a" "a_nodes (a_put i s k a) = a_nodes a"
  "a_decisions (a_put i s k a) = a_decisions a"
  "a_node (a_put i s k a) = (a_node a)(i \<mapsto> (s, k))"
  by (simp_all add: a_put_def)

text \<open>A node that has been started and may move by its own doing.\<close>

definition busy_state :: "node_state \<Rightarrow> bool" where
  "busy_state s \<longleftrightarrow> s \<noteq> N_pending \<and> s \<noteq> N_ready \<and> s \<noteq> N_skipped"

definition abs_satisfied :: "abs_run \<Rightarrow> string \<Rightarrow> bool" where
  "abs_satisfied a d \<longleftrightarrow> map_option fst (a_node a d) \<in> {Some N_completed, Some N_skipped, Some N_compensated}"

text \<open>
  The kinds that may throw when the node has completed already: their executor calls
  something afterwards, or (human nodes) a decision completes the node while the error of
  its executor is on its way.
\<close>

fun fails_after_completion :: "node_kind \<Rightarrow> bool" where
  "fails_after_completion K_deterministic = True"
| "fails_after_completion K_agentic = True"
| "fails_after_completion (K_tool_action _ _) = True"
| "fails_after_completion (K_completion _) = True"
| "fails_after_completion (K_human_approval _) = True"
| "fails_after_completion K_human_review = True"
| "fails_after_completion _ = False"

definition event_allowed :: "abs_run \<Rightarrow> workflow_node \<Rightarrow> node_event \<Rightarrow> bool" where
  "event_allowed a n e \<longleftrightarrow>
     e \<notin> {NE_mark_ready, NE_skip, NE_block} \<and>
     (e \<in> {NE_begin_compensate, NE_compensated} \<longrightarrow> (\<exists>ts. wn_kind n = K_compensation ts)) \<and>
     (e = NE_complete \<and> is_approval n \<longrightarrow> (wn_id n, D_approve) \<in> set (a_decisions a))"

inductive run_step :: "abs_run \<Rightarrow> abs_run \<Rightarrow> bool" where
  S_ready: "a_node a i = Some (N_pending, k) \<Longrightarrow> run_step a (a_put i N_ready k a)"
| S_skip: "a_node a i = Some (N_pending, k) \<Longrightarrow> run_step a (a_put i N_skipped k a)"
| S_start: "a_state a \<noteq> W_cancelled \<Longrightarrow> find_node i (a_nodes a) = Some n \<Longrightarrow>
    a_node a i = Some (N_ready, k) \<Longrightarrow> \<forall>d \<in> set (wn_deps n). abs_satisfied a d \<Longrightarrow>
    run_step a (a_put i N_running (Suc k) a)"
| S_event: "find_node i (a_nodes a) = Some n \<Longrightarrow> a_node a i = Some (s, k) \<Longrightarrow> busy_state s \<Longrightarrow>
    event_allowed a n e \<Longrightarrow> NODE_EVENT_MAP s e = Some s' \<Longrightarrow> run_step a (a_put i s' k a)"
| S_retry: "find_node i (a_nodes a) = Some n \<Longrightarrow> a_node a i = Some (s, k) \<Longrightarrow> busy_state s \<Longrightarrow>
    s = N_completed \<longrightarrow> fails_after_completion (wn_kind n) \<Longrightarrow>
    0 < wn_maxRetries n \<Longrightarrow> int k \<le> wn_maxRetries n \<Longrightarrow> run_step a (a_put i N_ready k a)"
| S_run: "a_state a \<noteq> W_cancelled \<Longrightarrow> s = W_cancelled \<longrightarrow> a_state a = W_cancelling \<Longrightarrow>
    run_step a (a\<lparr>a_state := s\<rparr>)"
| S_decide: "canAcceptHumanInput (a_state a) \<Longrightarrow> a_node a i = Some (s, k) \<Longrightarrow>
    s = N_waiting_approval \<or> s = N_waiting_review \<Longrightarrow>
    run_step a (a\<lparr>a_decisions := a_decisions a @ [(i, d)]\<rparr>)"
| S_cancel: "a_state a = W_cancelling \<or> a_state a = W_cancelled \<Longrightarrow> a_node a i = Some (s, k) \<Longrightarrow>
    NODE_EVENT_MAP s NE_cancel = Some s' \<Longrightarrow> run_step a (a_put i s' k a)"

section \<open>What every run keeps\<close>

lemma run_step_nodes: "run_step a b \<Longrightarrow> a_nodes b = a_nodes a"
  by (induction rule: run_step.induct) simp_all

lemma run_step_decisions: "run_step a b \<Longrightarrow> set (a_decisions a) \<subseteq> set (a_decisions b)"
  by (induction rule: run_step.induct) auto

lemma run_steps_nodes: "run_step\<^sup>*\<^sup>* a b \<Longrightarrow> a_nodes b = a_nodes a"
  by (induction rule: rtranclp_induct) (auto dest: run_step_nodes)

lemma run_steps_decisions: "run_step\<^sup>*\<^sup>* a b \<Longrightarrow> set (a_decisions a) \<subseteq> set (a_decisions b)"
  by (induction rule: rtranclp_induct) (auto dest: run_step_decisions)

lemma cancel_event_target: "NODE_EVENT_MAP s NE_cancel = Some s' \<Longrightarrow> s' = N_cancelled"
  by (cases s) auto

subsection \<open>Attempts\<close>

definition attempt_ok :: "workflow_node option \<Rightarrow> node_state \<Rightarrow> nat \<Rightarrow> bool" where
  "attempt_ok f s k \<longleftrightarrow>
     (case f of
        None \<Rightarrow> k = 0
      | Some n \<Rightarrow> k \<le> Suc (nat (wn_maxRetries n)) \<and> (s = N_pending \<longrightarrow> k = 0) \<and>
                  (s = N_ready \<longrightarrow> k \<le> nat (wn_maxRetries n)))"

definition attempts_ok :: "abs_run \<Rightarrow> bool" where
  "attempts_ok a \<longleftrightarrow> (\<forall>i s k. a_node a i = Some (s, k) \<longrightarrow> attempt_ok (find_node i (a_nodes a)) s k)"

lemma attempts_put:
  "attempts_ok a \<Longrightarrow> attempt_ok (find_node i (a_nodes a)) s k \<Longrightarrow> attempts_ok (a_put i s k a)"
  by (auto simp: attempts_ok_def)

lemma attempts_get: "attempts_ok a \<Longrightarrow> a_node a i = Some (s, k) \<Longrightarrow> attempt_ok (find_node i (a_nodes a)) s k"
  by (simp add: attempts_ok_def)

lemma event_target: "NODE_EVENT_MAP s e = Some s' \<Longrightarrow> e \<noteq> NE_mark_ready \<Longrightarrow> e \<noteq> NE_skip \<Longrightarrow> busy_state s'"
  by (cases s; cases e) (auto simp: busy_state_def)

lemma attempts_step: "run_step a b \<Longrightarrow> attempts_ok a \<Longrightarrow> attempts_ok b"
proof (induction rule: run_step.induct)
  case (S_event i a n s k e s')
  have "busy_state s'" using event_target[OF S_event(5)] S_event(4) by (auto simp: event_allowed_def)
  then show ?case
    using attempts_get[OF S_event(6,2)] S_event(1,6) by (intro attempts_put) (auto simp: attempt_ok_def busy_state_def)
next
  case (S_cancel a i s k s')
  show ?case using attempts_get[OF S_cancel(4,2)] cancel_event_target[OF S_cancel(3)] S_cancel(4)
    by (intro attempts_put) (auto simp: attempt_ok_def split: option.splits)
qed (auto intro!: attempts_put dest: attempts_get simp: attempt_ok_def le_nat_iff split: option.splits;
     simp add: attempts_ok_def)+

text \<open>The number of attempts of a node, which no step lowers.\<close>

definition attempt_in :: "string \<Rightarrow> abs_run \<Rightarrow> nat" where
  "attempt_in i a = (case a_node a i of None \<Rightarrow> 0 | Some (s, k) \<Rightarrow> k)"

lemma attempt_in_step: "run_step a b \<Longrightarrow> attempt_in i a \<le> attempt_in i b"
  by (induction rule: run_step.induct) (auto simp: attempt_in_def)

lemma attempt_in_steps: "run_step\<^sup>*\<^sup>* a b \<Longrightarrow> attempt_in i a \<le> attempt_in i b"
  by (induction rule: rtranclp_induct) (auto dest: attempt_in_step[where i = i])

text \<open>
  Approvals: a human approval that has completed was approved, and whatever has been started
  below a human approval was started after it was approved or skipped.
\<close>

definition approved_in :: "abs_run \<Rightarrow> string \<Rightarrow> bool" where
  "approved_in a i \<longleftrightarrow> (i, D_approve) \<in> set (a_decisions a)"

definition gate_open :: "abs_run \<Rightarrow> string \<Rightarrow> bool" where
  "gate_open a d \<longleftrightarrow>
     (case find_node d (a_nodes a) of
        None \<Rightarrow> True
      | Some m \<Rightarrow> is_approval m \<longrightarrow> map_option fst (a_node a d) = Some N_skipped \<or> approved_in a d)"

definition approval_ok :: "abs_run \<Rightarrow> workflow_node \<Rightarrow> node_state \<Rightarrow> nat \<Rightarrow> bool" where
  "approval_ok a n s k \<longleftrightarrow>
     (is_approval n \<longrightarrow> (s = N_completed \<longrightarrow> approved_in a (wn_id n)) \<and> s \<noteq> N_compensating \<and> s \<noteq> N_compensated) \<and>
     (0 < k \<longrightarrow> (\<forall>d \<in> set (wn_deps n). gate_open a d))"

definition approvals_ok :: "abs_run \<Rightarrow> bool" where
  "approvals_ok a \<longleftrightarrow>
     (\<forall>i n s k. find_node i (a_nodes a) = Some n \<longrightarrow> a_node a i = Some (s, k) \<longrightarrow> approval_ok a n s k)"

lemma gate_open_put:
  "gate_open a d \<Longrightarrow> a_node a i = Some (s, k) \<Longrightarrow> s \<noteq> N_skipped \<Longrightarrow> gate_open (a_put i s' k' a) d"
  by (auto simp: gate_open_def approved_in_def split: option.splits)

lemma approvals_put:
  assumes "approvals_ok a" and "a_node a i = Some (s, k)" and "s \<noteq> N_skipped"
    and "\<And>n. find_node i (a_nodes a) = Some n \<Longrightarrow> approval_ok a n s' k'"
  shows "approvals_ok (a_put i s' k' a)"
  unfolding approvals_ok_def
proof (intro allI impI)
  fix j n t l
  assume j: "find_node j (a_nodes (a_put i s' k' a)) = Some n" "a_node (a_put i s' k' a) j = Some (t, l)"
  have "approval_ok a n t l"
    using assms(1,4) j by (cases "j = i") (auto simp: approvals_ok_def)
  then show "approval_ok (a_put i s' k' a) n t l"
    using gate_open_put[OF _ assms(2,3)] by (auto simp: approval_ok_def approved_in_def)
qed

lemma approvals_get:
  "approvals_ok a \<Longrightarrow> find_node i (a_nodes a) = Some n \<Longrightarrow> a_node a i = Some (s, k) \<Longrightarrow> approval_ok a n s k"
  by (simp add: approvals_ok_def)

lemma satisfied_gate_open:
  assumes "approvals_ok a" and "abs_satisfied a d"
  shows "gate_open a d"
proof (cases "find_node d (a_nodes a)")
  case (Some m)
  obtain s k where s: "a_node a d = Some (s, k)" "s \<in> {N_completed, N_skipped, N_compensated}"
    using assms(2) by (cases "a_node a d") (auto simp: abs_satisfied_def)
  with approvals_get[OF assms(1) Some s(1)] find_node_id[OF Some] Some show ?thesis
    by (auto simp: gate_open_def approval_ok_def)
qed (simp add: gate_open_def)

lemma event_into_completed: "NODE_EVENT_MAP s e = Some N_completed \<Longrightarrow> e = NE_complete"
  by (cases s; cases e) auto

lemma event_into_compensation:
  "NODE_EVENT_MAP s e = Some s' \<Longrightarrow> s' = N_compensating \<or> s' = N_compensated \<Longrightarrow> e \<in> {NE_begin_compensate, NE_compensated}"
  by (cases s; cases e) auto

lemma approval_ok_mono:
  "approval_ok a n s k \<Longrightarrow> a_nodes b = a_nodes a \<Longrightarrow> a_node b = a_node a \<Longrightarrow>
     set (a_decisions a) \<subseteq> set (a_decisions b) \<Longrightarrow> approval_ok b n s k"
  by (fastforce simp: approval_ok_def gate_open_def approved_in_def split: option.splits)

lemma approvals_mono:
  "approvals_ok a \<Longrightarrow> a_nodes b = a_nodes a \<Longrightarrow> a_node b = a_node a \<Longrightarrow>
     set (a_decisions a) \<subseteq> set (a_decisions b) \<Longrightarrow> approvals_ok b"
  unfolding approvals_ok_def by (metis approval_ok_mono)

lemma approvals_step: "run_step a b \<Longrightarrow> approvals_ok a \<Longrightarrow> approvals_ok b"
proof (induction rule: run_step.induct)
  case (S_ready a i k)
  show ?case by (rule approvals_put[OF S_ready(2,1)]) (use approvals_get[OF S_ready(2) _ S_ready(1)] in \<open>auto simp: approval_ok_def\<close>)
next
  case (S_skip a i k)
  show ?case by (rule approvals_put[OF S_skip(2,1)]) (use approvals_get[OF S_skip(2) _ S_skip(1)] in \<open>auto simp: approval_ok_def\<close>)
next
  case (S_start a i n k)
  show ?case
    by (rule approvals_put[OF S_start(5,3)])
       (use S_start(2,4) satisfied_gate_open[OF S_start(5)] in \<open>auto simp: approval_ok_def\<close>)
next
  case (S_event i a n s k e s')
  note ok = approvals_get[OF S_event(6,1,2)]
  have "approval_ok a n s' k"
    using ok S_event(4) event_into_completed[of s e] event_into_compensation[OF S_event(5)] S_event(5)
    by (auto simp: approval_ok_def event_allowed_def approved_in_def is_approval_def)
  then show ?case
    by (intro approvals_put[OF S_event(6,2)]) (use S_event(1,3) in \<open>auto simp: busy_state_def\<close>)
next
  case (S_retry i a n s k)
  note ok = approvals_get[OF S_retry(7,1,2)]
  show ?case
    by (rule approvals_put[OF S_retry(7,2)]) (use ok S_retry(1,3) in \<open>auto simp: approval_ok_def busy_state_def\<close>)
next
  case (S_run a s)
  then show ?case by (auto intro: approvals_mono[of a])
next
  case (S_decide a i s k d)
  then show ?case by (auto intro: approvals_mono[of a])
next
  case (S_cancel a i s k s')
  show ?case
    by (rule approvals_put[OF S_cancel(4,2)])
       (use approvals_get[OF S_cancel(4) _ S_cancel(2)] cancel_event_target[OF S_cancel(3)] S_cancel(3) in
         \<open>auto simp: approval_ok_def\<close>)
qed

subsection \<open>Final states\<close>

text \<open>Cancellation: a cancelled run stays cancelled and starts nothing.\<close>

lemma cancelled_step: "run_step a b \<Longrightarrow> a_state a = W_cancelled \<Longrightarrow>
    a_state b = W_cancelled \<and> (\<forall>i. map_option snd (a_node b i) = map_option snd (a_node a i))"
  by (induction rule: run_step.induct) auto

lemma cancelled_steps: "run_step\<^sup>*\<^sup>* a b \<Longrightarrow> a_state a = W_cancelled \<Longrightarrow>
    a_state b = W_cancelled \<and> (\<forall>i. map_option snd (a_node b i) = map_option snd (a_node a i))"
  by (induction rule: rtranclp_induct) (auto dest: cancelled_step)

text \<open>Completion: only a retry takes a node out of it.\<close>

definition completed_for_good :: "abs_run \<Rightarrow> string \<Rightarrow> bool" where
  "completed_for_good a i \<longleftrightarrow>
     (\<exists>n k. find_node i (a_nodes a) = Some n \<and> a_node a i = Some (N_completed, k) \<and>
        (wn_maxRetries n \<le> 0 \<or> \<not> fails_after_completion (wn_kind n)))"

lemma completed_step: "run_step a b \<Longrightarrow> completed_for_good a i \<Longrightarrow> completed_for_good b i \<and> a_node b i = a_node a i"
  by (induction rule: run_step.induct) (auto simp: completed_for_good_def)

lemma completed_steps: "run_step\<^sup>*\<^sup>* a b \<Longrightarrow> completed_for_good a i \<Longrightarrow> completed_for_good b i \<and> a_node b i = a_node a i"
  by (induction rule: rtranclp_induct) (auto dest: completed_step)

text \<open>All invariants of a run at once.\<close>

definition run_inv :: "abs_run \<Rightarrow> bool" where
  "run_inv a \<longleftrightarrow> attempts_ok a \<and> approvals_ok a"

lemma run_inv_steps: "run_step\<^sup>*\<^sup>* a b \<Longrightarrow> run_inv a \<Longrightarrow> run_inv b"
  by (induction rule: rtranclp_induct) (auto simp: run_inv_def dest: attempts_step approvals_step)

end
