(* ===== verification/Workflow_Refinement.thy ===== *)
theory Workflow_Refinement
  imports Workflow_Spec
begin

text \<open>
  The engine implements the abstract runs of \<open>Workflow_Spec\<close>: every segment of a node, every
  iteration of the loop and every control verb is, on the object that it works on, a
  sequence of abstract steps. What a node in flight waits for fits its kind and its state.
\<close>

section \<open>Abstraction of updates\<close>

definition detail_ids :: "workflow_run \<Rightarrow> string list" where
  "detail_ids r = map nd_id (wr_details r)"

lemma detail_map:
  "(\<And>d. nd_id (g d) = nd_id d) \<Longrightarrow>
     detail j (r\<lparr>wr_details := map g (wr_details r)\<rparr>) = map_option g (detail j r)"
  by (simp add: detail_def find_map_keep)

lemma detail_upd:
  assumes "\<And>d. nd_id (f d) = nd_id d"
  shows "detail j (upd_detail i f r) = (if j = i then map_option f (detail j r) else detail j r)"
proof -
  have "detail j (upd_detail i f r) = map_option (\<lambda>d. if nd_id d = i then f d else d) (detail j r)"
    unfolding upd_detail_def by (rule detail_map) (simp add: assms)
  then show ?thesis by (cases "detail j r") (auto dest: detail_id)
qed

lemma detail_fields [simp]:
  "detail j (r\<lparr>wr_state := s\<rparr>) = detail j r"
  "detail j (r\<lparr>wr_decisions := ds\<rparr>) = detail j r"
  "detail j (r\<lparr>wr_artifacts := as\<rparr>) = detail j r"
  "detail j (r\<lparr>wr_cost := c\<rparr>) = detail j r"
  "detail j (r\<lparr>wr_breakdown := b\<rparr>) = detail j r"
  "detail j (r\<lparr>wr_errorChain := es\<rparr>) = detail j r"
  "detail j (r\<lparr>wr_startedAt := t\<rparr>) = detail j r"
  "detail j (r\<lparr>wr_updatedAt := u\<rparr>) = detail j r"
  "detail j (r\<lparr>wr_endedAt := e\<rparr>) = detail j r"
  by (simp_all add: detail_def)

lemma ids_fields [simp]:
  "detail_ids (r\<lparr>wr_state := s\<rparr>) = detail_ids r"
  "detail_ids (r\<lparr>wr_decisions := ds\<rparr>) = detail_ids r"
  "detail_ids (r\<lparr>wr_artifacts := as\<rparr>) = detail_ids r"
  "detail_ids (r\<lparr>wr_cost := c\<rparr>) = detail_ids r"
  "detail_ids (r\<lparr>wr_breakdown := b\<rparr>) = detail_ids r"
  "detail_ids (r\<lparr>wr_errorChain := es\<rparr>) = detail_ids r"
  "detail_ids (r\<lparr>wr_startedAt := t\<rparr>) = detail_ids r"
  "detail_ids (r\<lparr>wr_updatedAt := u\<rparr>) = detail_ids r"
  "detail_ids (r\<lparr>wr_endedAt := e\<rparr>) = detail_ids r"
  by (simp_all add: detail_ids_def)

lemma ids_upd [simp]: "(\<And>d. nd_id (f d) = nd_id d) \<Longrightarrow> detail_ids (upd_detail i f r) = detail_ids r"
  by (simp add: detail_ids_def upd_detail_def comp_def if_distrib cong: if_cong)

lemma abs_fields [simp]:
  "abs_of (r\<lparr>wr_artifacts := as\<rparr>) = abs_of r"
  "abs_of (r\<lparr>wr_cost := c\<rparr>) = abs_of r"
  "abs_of (r\<lparr>wr_breakdown := b\<rparr>) = abs_of r"
  "abs_of (r\<lparr>wr_errorChain := es\<rparr>) = abs_of r"
  "abs_of (r\<lparr>wr_startedAt := t\<rparr>) = abs_of r"
  "abs_of (r\<lparr>wr_updatedAt := u\<rparr>) = abs_of r"
  "abs_of (r\<lparr>wr_endedAt := e\<rparr>) = abs_of r"
  "abs_of (r\<lparr>wr_state := s\<rparr>) = (abs_of r)\<lparr>a_state := s\<rparr>"
  by (simp_all add: abs_of_def)

lemma abs_sel [simp]:
  "a_state (abs_of r) = wr_state r" "a_nodes (abs_of r) = wr_nodes r"
  "a_node (abs_of r) i = map_option (\<lambda>d. (nd_state d, nd_attempt d)) (detail i r)"
  "a_decisions (abs_of r) = map (\<lambda>h. (hd_nodeId h, hd_decision h)) (wr_decisions r)"
  by (simp_all add: abs_of_def)

lemma abs_quiet:
  assumes "\<And>d. nd_id (f d) = nd_id d" and "\<And>d. nd_state (f d) = nd_state d" and "\<And>d. nd_attempt (f d) = nd_attempt d"
  shows "abs_of (upd_detail i f r) = abs_of r"
proof -
  have "map_option (\<lambda>d. (nd_state d, nd_attempt d)) (detail j (upd_detail i f r)) =
        map_option (\<lambda>d. (nd_state d, nd_attempt d)) (detail j r)" for j
    by (cases "j = i"; cases "detail j r") (auto simp: detail_upd assms)
  then show ?thesis by (simp add: abs_of_def)
qed

lemma abs_move:
  assumes "\<And>d. nd_id (f d) = nd_id d" and "detail i r = Some d"
  shows "abs_of (upd_detail i f r) = a_put i (nd_state (f d)) (nd_attempt (f d)) (abs_of r)"
proof -
  have "map_option (\<lambda>d. (nd_state d, nd_attempt d)) (detail j (upd_detail i f r)) =
        ((\<lambda>j. map_option (\<lambda>d. (nd_state d, nd_attempt d)) (detail j r))(i \<mapsto> (nd_state (f d), nd_attempt (f d)))) j" for j
    by (simp add: detail_upd assms)
  then show ?thesis by (simp add: abs_of_def a_put_def fun_eq_iff)
qed

lemma quiet_updates [simp]:
  "abs_of (set_outputs i x r) = abs_of r" "detail_ids (set_outputs i x r) = detail_ids r"
  "abs_of (set_error i y r) = abs_of r" "detail_ids (set_error i y r) = detail_ids r"
  "abs_of (push_error i y r) = abs_of r" "detail_ids (push_error i y r) = detail_ids r"
  "abs_of (stamp_end i t r) = abs_of r" "detail_ids (stamp_end i t r) = detail_ids r"
  "abs_of (addCost i c r) = abs_of r" "detail_ids (addCost i c r) = detail_ids r"
  "detail_ids (set_node_state i s r) = detail_ids r"
  by (simp_all add: set_outputs_def set_error_def push_error_def stamp_end_def addCost_def set_node_state_def
      abs_quiet Let_def)

lemma abs_node_state: "node_state_of i r = map_option fst (a_node (abs_of r) i)"
  by (cases "detail i r") (simp_all add: node_state_of_def)

lemma node_state_upd:
  "(\<And>d. nd_id (f d) = nd_id d) \<Longrightarrow> node_state_of j (upd_detail i f r) =
     (if j = i then map_option (\<lambda>d. nd_state (f d)) (detail j r) else node_state_of j r)"
  by (simp add: node_state_of_def detail_upd option.map_comp comp_def)

lemma node_state_set [simp]:
  "node_state_of j (set_node_state i s r) =
     (if j = i then map_option (\<lambda>_. s) (node_state_of j r) else node_state_of j r)"
  by (simp add: set_node_state_def node_state_upd) (simp add: node_state_of_def option.map_comp comp_def)

lemma nodes_set [simp]:
  "wr_nodes (set_node_state i s r) = wr_nodes r" "wr_state (set_node_state i s r) = wr_state r"
  "wr_decisions (set_node_state i s r) = wr_decisions r"
  by (simp_all add: set_node_state_def)

section \<open>Evolution of an object\<close>

text \<open>
  \<open>evolves i r r'\<close>: abstract steps lead from the one run to the other, no other node than
  \<open>i\<close> changes its state unless it is still pending, no decision is added, and the run is not
  on its way to be cancelled if it was not before.
\<close>

definition stopping :: "run_state \<Rightarrow> bool" where
  "stopping s \<longleftrightarrow> s = W_cancelling \<or> s = W_cancelled"

definition evolves :: "string \<Rightarrow> workflow_run \<Rightarrow> workflow_run \<Rightarrow> bool" where
  "evolves i r r' \<longleftrightarrow>
     run_step\<^sup>*\<^sup>* (abs_of r) (abs_of r') \<and> detail_ids r' = detail_ids r \<and>
     (\<forall>j. j \<noteq> i \<longrightarrow> node_state_of j r' = node_state_of j r \<or> node_state_of j r = Some N_pending) \<and>
     a_decisions (abs_of r') = a_decisions (abs_of r) \<and> (stopping (wr_state r') \<longrightarrow> stopping (wr_state r))"

lemma evolves_same:
  assumes "abs_of r' = abs_of r" and "detail_ids r' = detail_ids r"
  shows "evolves i r r'"
proof -
  have "wr_state r' = wr_state r" using arg_cong[OF assms(1), of a_state] by simp
  with assms show ?thesis by (simp add: evolves_def abs_node_state del: abs_sel)
qed

lemma evolves_refl [simp]: "evolves i r r"
  by (simp add: evolves_same)

lemma evolves_trans:
  assumes "evolves i r r'" and "evolves i r' r''"
  shows "evolves i r r''"
  unfolding evolves_def
proof (intro conjI allI impI)
  show "run_step\<^sup>*\<^sup>* (abs_of r) (abs_of r'')"
    using assms unfolding evolves_def by (blast intro: rtranclp_trans)
  show "detail_ids r'' = detail_ids r" using assms by (simp add: evolves_def)
  show "node_state_of j r'' = node_state_of j r \<or> node_state_of j r = Some N_pending" if "j \<noteq> i" for j
    using assms that unfolding evolves_def by metis
  show "a_decisions (abs_of r'') = a_decisions (abs_of r)" using assms by (simp add: evolves_def)
  show "stopping (wr_state r)" if "stopping (wr_state r'')" using assms that by (simp add: evolves_def)
qed

lemma evolves_nodes: "evolves i r r' \<Longrightarrow> wr_nodes r' = wr_nodes r"
  by (auto simp: evolves_def dest: run_steps_nodes)

definition owned :: "workflow_node \<Rightarrow> workflow_run \<Rightarrow> bool" where
  "owned n r \<longleftrightarrow> find_node (wn_id n) (wr_nodes r) = Some n \<and>
     (\<forall>s. node_state_of (wn_id n) r = Some s \<longrightarrow> busy_state s)"

text \<open>What a segment of node \<open>n\<close> does to a run that node \<open>n\<close> owns.\<close>

definition ev :: "workflow_node \<Rightarrow> workflow_run \<Rightarrow> workflow_run \<Rightarrow> bool" where
  "ev n r r' \<longleftrightarrow> (owned n r \<longrightarrow> evolves (wn_id n) r r' \<and> owned n r')"

abbreviation seg_ev :: "workflow_node \<Rightarrow> workflow_run \<Rightarrow> segment \<Rightarrow> bool" where
  "seg_ev n r s \<equiv> ev n r (result_run s)"

lemma ev_refl [simp]: "ev n r r"
  by (simp add: ev_def)

lemma ev_trans: "ev n r r' \<Longrightarrow> ev n r' r'' \<Longrightarrow> ev n r r''"
  unfolding ev_def by (blast intro: evolves_trans)

lemma owned_cong:
  assumes "abs_of r' = abs_of r"
  shows "owned n r' = owned n r"
proof -
  have "wr_nodes r' = wr_nodes r" using arg_cong[OF assms, of a_nodes] by simp
  moreover have "node_state_of j r' = node_state_of j r" for j
    unfolding abs_node_state assms by (rule refl)
  ultimately show ?thesis by (simp add: owned_def)
qed

lemma ev_same:
  assumes "ev n r r'" and "abs_of r'' = abs_of r'" and "detail_ids r'' = detail_ids r'"
  shows "ev n r r''"
proof (rule ev_trans[OF assms(1)])
  show "ev n r' r''"
    unfolding ev_def using evolves_same[OF assms(2,3)] owned_cong[OF assms(2)] by blast
qed

lemma seg_and_then:
  "seg_ev n r s \<Longrightarrow> (\<And>r'. s = Finished r' \<Longrightarrow> ev n r r' \<Longrightarrow> seg_ev n r (f r')) \<Longrightarrow> seg_ev n r (and_then s f)"
  by (cases s) simp_all

lemma seg_catching:
  "seg_ev n r s \<Longrightarrow> (\<And>e r'. s = Threw e r' \<Longrightarrow> ev n r r' \<Longrightarrow> seg_ev n r (h e r')) \<Longrightarrow> seg_ev n r (catching s h)"
  by (cases s) simp_all

lemma result_async [simp]: "result_run (async_result s) = result_run s"
  by (cases s) simp_all

lemma event_allowed_simps [simp]:
  "event_allowed a n NE_fail" "event_allowed a n NE_cancel" "event_allowed a n NE_start"
  "event_allowed a n NE_wait_approval" "event_allowed a n NE_wait_review" "event_allowed a n NE_wait_timer"
  "event_allowed a n NE_wait_event" "event_allowed a n NE_expire"
  "\<not> is_approval n \<Longrightarrow> event_allowed a n NE_complete"
  by (simp_all add: event_allowed_def)

lemma fire_step:
  assumes "owned n r" and "event_allowed (abs_of r) n e" and "fire (wn_id n) e r = Finished r'"
  shows "evolves (wn_id n) r r' \<and> owned n r'"
proof (cases "detail (wn_id n) r")
  case None
  with assms(1,3) show ?thesis by (auto simp: fire_def node_state_of_def)
next
  case (Some d)
  with assms(3) obtain s' where s': "NODE_EVENT_MAP (nd_state d) e = Some s'" "r' = set_node_state (wn_id n) s' r"
    by (auto simp: fire_def node_state_of_def applyNodeEvent_def split: option.splits)
  have a: "abs_of r' = a_put (wn_id n) s' (nd_attempt d) (abs_of r)"
    unfolding s'(2) set_node_state_def by (subst abs_move[OF _ Some]) simp_all
  have "busy_state (nd_state d)" using assms(1) Some by (simp add: owned_def node_state_of_def)
  then have "run_step (abs_of r) (abs_of r')"
    unfolding a using assms(1,2) Some s'(1) by (intro S_event) (auto simp: owned_def)
  moreover have "busy_state s'"
    using event_target[OF s'(1)] assms(2) by (auto simp: event_allowed_def)
  ultimately show ?thesis
    using assms(1) unfolding s'(2) evolves_def owned_def by auto
qed

lemma seg_fire:
  assumes "ev n r0 r" and "event_allowed (abs_of r) n e"
  shows "seg_ev n r0 (fire (wn_id n) e r)"
proof (cases "fire (wn_id n) e r")
  case (Finished r')
  then have "ev n r r'" using fire_step[OF _ assms(2) Finished] by (simp add: ev_def)
  with assms(1) show ?thesis unfolding Finished by (auto intro: ev_trans)
next
  case (Threw x r')
  then have "r' = r" by (auto simp: fire_def split: option.splits sum.splits)
  with assms(1) Threw show ?thesis by simp
next
  case (Waits x r')
  then show ?thesis by (auto simp: fire_def split: option.splits sum.splits)
qed

lemma run_event_step:
  assumes "applyRunEvent (wr_state r) e = Inr s" and "e \<notin> {RE_cancel, RE_request_cancel}"
  shows "run_step (abs_of r) (abs_of (r\<lparr>wr_state := s\<rparr>))" and "\<not> stopping s"
proof -
  have "wr_state r \<noteq> W_cancelled" and s: "\<not> stopping s"
    using assms by (cases "wr_state r"; cases e; auto simp: stopping_def)+
  then show "run_step (abs_of r) (abs_of (r\<lparr>wr_state := s\<rparr>))" by simp (rule S_run, auto simp: stopping_def)
  show "\<not> stopping s" by (rule s)
qed

lemma seg_fire_run:
  assumes "ev n r0 r" and "e \<notin> {RE_cancel, RE_request_cancel}"
  shows "seg_ev n r0 (fire_run e r)"
proof (cases "applyRunEvent (wr_state r) e")
  case (Inl x)
  with assms show ?thesis by (simp add: fire_run_def)
next
  case (Inr s)
  have "evolves (wn_id n) r (r\<lparr>wr_state := s\<rparr>)"
    using run_event_step[OF Inr assms(2)] by (auto simp: evolves_def node_state_of_def)
  moreover have "owned n (r\<lparr>wr_state := s\<rparr>) = owned n r" by (simp add: owned_def node_state_of_def)
  ultimately have "ev n r (r\<lparr>wr_state := s\<rparr>)" by (simp add: ev_def)
  with assms(1) show ?thesis unfolding fire_run_def Inr by (auto intro: ev_trans)
qed

section \<open>Executors\<close>

lemma seg_results [simp]:
  "seg_ev n r0 (Finished r) = ev n r0 r" "seg_ev n r0 (Threw e r) = ev n r0 r" "seg_ev n r0 (Waits a r) = ev n r0 r"
  by simp_all

lemma seg_if: "(P \<Longrightarrow> seg_ev n r0 s) \<Longrightarrow> (\<not> P \<Longrightarrow> seg_ev n r0 t) \<Longrightarrow> seg_ev n r0 (if P then s else t)"
  by simp

lemma ev_quiet:
  assumes "ev n r0 r"
  shows "ev n r0 (set_outputs i x r)" "ev n r0 (set_error i y r)" "ev n r0 (push_error i y r)"
    "ev n r0 (addCost i c r)" "ev n r0 (stamp_end i t r)" "ev n r0 (r\<lparr>wr_artifacts := as\<rparr>)" "ev n r0 (r\<lparr>wr_endedAt := u\<rparr>)"
  by (rule ev_same[OF assms]; simp)+

lemma seg_fail_node: "ev n r0 r \<Longrightarrow> seg_ev n r0 (fail_node (wn_id n) y r)"
  unfolding fail_node_def by (rule seg_and_then) (auto intro: seg_fire ev_quiet)

lemmas seg_intros = seg_and_then seg_catching seg_fire seg_fire_run seg_fail_node ev_quiet

lemma seg_complete_with:
  "ev n r0 r \<Longrightarrow> \<not> is_approval n \<Longrightarrow> seg_ev n r0 (complete_with (wn_id n) x r)"
  unfolding complete_with_def by (rule seg_and_then) (auto intro: seg_intros)

lemma seg_deterministic:
  "ev n r0 r \<Longrightarrow> \<not> is_approval n \<Longrightarrow> seg_ev n r0 (executeDeterministicNode (wn_id n) r)"
  unfolding executeDeterministicNode_def by (intro seg_catching seg_and_then) (auto intro: seg_intros)

lemma seg_agent_failed: "ev n r0 r \<Longrightarrow> seg_ev n r0 (agent_failed (wn_id n) e r)"
  unfolding agent_failed_def by (rule seg_and_then) (auto intro: seg_intros)

lemma seg_agent_answered:
  "ev n r0 r \<Longrightarrow> \<not> is_approval n \<Longrightarrow> seg_ev n r0 (agent_answered (wn_id n) x c r)"
  unfolding agent_answered_def
  by (intro seg_catching seg_and_then) (auto intro: seg_intros seg_agent_failed split: option.splits)

lemma seg_tool_fail: "ev n r0 r \<Longrightarrow> seg_ev n r0 (tool_fail (wn_id n) y r)"
  unfolding tool_fail_def by (rule seg_and_then) (auto intro: seg_intros)

lemma seg_tool: "ev n r0 r \<Longrightarrow> seg_ev n r0 (executeToolActionNode cfg (wn_id n) f x r)"
  by (auto simp: executeToolActionNode_def intro: seg_tool_fail split: option.splits)

lemma seg_tool_answered:
  "ev n r0 r \<Longrightarrow> \<not> is_approval n \<Longrightarrow> seg_ev n r0 (tool_answered (wn_id n) f x ok y r)"
  unfolding tool_answered_def
  by (intro seg_catching seg_if seg_and_then) (auto intro: seg_intros seg_tool_fail)

lemma seg_human: "ev n r0 r \<Longrightarrow> seg_ev n r0 (enterHumanWait (wn_id n) b r)"
  unfolding enterHumanWait_def by (intro seg_and_then) (auto intro: seg_intros)

lemma seg_timer: "ev n r0 r \<Longrightarrow> seg_ev n r0 (executeWaitTimerNode cfg now (wn_id n) t r)"
  unfolding executeWaitTimerNode_def Let_def
  by (cases t; simp only: timer_spec.case; intro seg_and_then) (auto intro: seg_intros)

lemma seg_event_fired: "ev n r0 r \<Longrightarrow> \<not> is_approval n \<Longrightarrow> seg_ev n r0 (event_fired (wn_id n) x r)"
  unfolding event_fired_def by (intro seg_catching seg_and_then) (auto intro: seg_intros)

lemma seg_join: "ev n r0 r \<Longrightarrow> \<not> is_approval n \<Longrightarrow> seg_ev n r0 (executeJoinNode (wn_id n) ds j k r)"
  unfolding executeJoinNode_def Let_def by (intro seg_if seg_and_then) (auto intro: seg_intros)

lemma seg_artifact: "ev n r0 r \<Longrightarrow> \<not> is_approval n \<Longrightarrow> seg_ev n r0 (executeArtifactOutputNode (wn_id n) x r)"
  unfolding executeArtifactOutputNode_def Let_def by (rule seg_and_then) (auto intro: seg_intros)

lemma seg_completion: "ev n r0 r \<Longrightarrow> \<not> is_approval n \<Longrightarrow> seg_ev n r0 (executeCompletionNode now (wn_id n) x r)"
  unfolding executeCompletionNode_def by (intro seg_and_then) (auto intro: seg_complete_with seg_intros)

lemma compensation_throws:
  "node_state_of i r = Some N_running \<Longrightarrow> executeCompensationNode i ts r =
     Threw (State_error (InvalidNodeTransition N_running NE_begin_compensate i)) r"
  by (simp add: executeCompensationNode_def fire_def applyNodeEvent_def)

lemma untouched_compensation: "try_fire t NE_begin_compensate r = r" if "node_state_of t r = Some N_completed"
  using that by (simp add: try_fire_def fire_def applyNodeEvent_def)

lemma seg_compensation:
  assumes "ev n r0 r" and "wn_kind n = K_compensation ts"
  shows "seg_ev n r0 (executeCompensationNode (wn_id n) ts' r)"
proof -
  have "fold (\<lambda>t r. if node_state_of t r = Some N_completed then try_fire t NE_begin_compensate r else r) xs r' = r'"
    for xs r' by (induction xs) (auto simp: untouched_compensation)
  then show ?thesis
    unfolding executeCompensationNode_def Let_def
    by (intro seg_and_then) (use assms in \<open>auto intro!: seg_intros simp: event_allowed_def is_approval_def\<close>)
qed

subsection \<open>Branches\<close>

lemma pending_move:
  assumes "node_state_of j r = Some N_pending" and "s = N_ready \<or> s = N_skipped"
  shows "ev n r (set_node_state j s r)"
  unfolding ev_def
proof
  assume o: "owned n r"
  with assms(1) have j: "j \<noteq> wn_id n" by (auto simp: owned_def busy_state_def)
  from assms(1) obtain d where d: "detail j r = Some d" "nd_state d = N_pending" by (auto simp: node_state_of_def)
  have a: "abs_of (set_node_state j s r) = a_put j s (nd_attempt d) (abs_of r)"
    unfolding set_node_state_def by (subst abs_move[OF _ d(1)]) simp_all
  have "run_step (abs_of r) (abs_of (set_node_state j s r))"
    unfolding a using assms(2) d by (auto intro: S_ready S_skip)
  then show "evolves (wn_id n) r (set_node_state j s r) \<and> owned n (set_node_state j s r)"
    using o j assms(1) by (auto simp: evolves_def owned_def)
qed

lemma ev_activate: "ev n r0 r \<Longrightarrow> ev n r0 (activate j r)"
  unfolding activate_def by (auto intro: ev_trans pending_move)

lemma ev_skip_node: "ev n r0 r \<Longrightarrow> ev n r0 (skip_node i taken j r)"
  unfolding skip_node_def by (auto intro: ev_quiet ev_trans pending_move)

lemma ev_fold: "(\<And>x r. ev n r0 r \<Longrightarrow> ev n r0 (f x r)) \<Longrightarrow> ev n r0 r \<Longrightarrow> ev n r0 (fold f xs r)"
  by (induction xs arbitrary: r) auto

lemma ev_skip_pass: "ev n r0 r \<Longrightarrow> ev n r0 (skip_pass i taken r)"
  unfolding skip_pass_def by (rule ev_fold) (auto intro: ev_skip_node)

lemma ev_propagate: "ev n r0 r \<Longrightarrow> ev n r0 (propagate_skips i taken r)"
proof (induction i taken r rule: propagate_skips.induct)
  case (1 i taken r)
  then show ?case
    using ev_skip_pass[OF 1(2)] by (subst propagate_skips.simps) (auto simp: Let_def)
qed

lemma seg_branch:
  assumes "ev n r0 r" and "\<not> is_approval n"
  shows "seg_ev n r0 (executeBranchNode cfg (wn_id n) ds c ts fs r)"
  unfolding executeBranchNode_def Let_def
proof (intro seg_and_then seg_fire assms event_allowed_simps)
  fix r' assume "ev n r0 r'"
  then have "ev n r0 (fold (skip_node (wn_id n) x) us (fold activate as (set_outputs (wn_id n) y r')))" for x us as y
    by (intro ev_fold ev_skip_node ev_activate ev_quiet)
  then show "seg_ev n r0 (Finished (if fold (skip_node (wn_id n) x) us (fold activate as (set_outputs (wn_id n) y r')) = z
      then fold (skip_node (wn_id n) x) us (fold activate as (set_outputs (wn_id n) y r'))
      else propagate_skips (wn_id n) x (fold (skip_node (wn_id n) x) us (fold activate as (set_outputs (wn_id n) y r')))))"
    for x us as y z by (auto intro: ev_propagate)
qed

subsection \<open>All kinds\<close>

lemma seg_run_kind: "ev n r0 r \<Longrightarrow> seg_ev n r0 (run_kind cfg now n r)"
  unfolding run_kind_def Let_def
  by (cases "wn_kind n"; simp only: node_kind.case)
     (auto intro: seg_complete_with seg_deterministic seg_human seg_tool seg_timer seg_branch seg_join
        seg_artifact seg_completion seg_compensation simp: is_approval_def)

lemma node_state_quiet [simp]:
  "node_state_of j (set_outputs i x r) = node_state_of j r"
  "node_state_of j (set_error i y r) = node_state_of j r"
  "node_state_of j (push_error i y r) = node_state_of j r"
  "node_state_of j (addCost i c r) = node_state_of j r"
  "node_state_of j (stamp_end i t r) = node_state_of j r"
  "node_state_of j (r\<lparr>wr_state := s\<rparr>) = node_state_of j r"
  "node_state_of j (r\<lparr>wr_artifacts := as\<rparr>) = node_state_of j r"
  "node_state_of j (r\<lparr>wr_endedAt := u\<rparr>) = node_state_of j r"
  "node_state_of j (r\<lparr>wr_updatedAt := v\<rparr>) = node_state_of j r"
  "node_state_of j (r\<lparr>wr_decisions := ds\<rparr>) = node_state_of j r"
  by (simp_all add: abs_node_state)

section \<open>What a node in flight waits for\<close>

fun wait_fits :: "node_kind \<Rightarrow> awaited \<Rightarrow> node_state \<Rightarrow> bool" where
  "wait_fits k A_det_record s \<longleftrightarrow> k = K_deterministic \<and> s = N_completed"
| "wait_fits k A_agent s \<longleftrightarrow> k = K_agentic \<and> (s = N_running \<or> s = N_cancelled)"
| "wait_fits k A_agent_record s \<longleftrightarrow> k = K_agentic \<and> s = N_completed"
| "wait_fits k A_agent_fail_record s \<longleftrightarrow> k = K_agentic \<and> s = N_failed"
| "wait_fits k A_tool s \<longleftrightarrow> (\<exists>f x. k = K_tool_action f x) \<and> (s = N_running \<or> s = N_cancelled)"
| "wait_fits k A_tool_record s \<longleftrightarrow> (\<exists>f x. k = K_tool_action f x) \<and> s = N_completed"
| "wait_fits k A_swallowed_record s \<longleftrightarrow> (\<exists>f x. k = K_tool_action f x) \<and> s = N_failed"
| "wait_fits k (A_timer _ _) s \<longleftrightarrow> (\<exists>t. k = K_wait_timer t) \<and> (s = N_waiting_timer \<or> s = N_cancelled)"
| "wait_fits k (A_event _) s \<longleftrightarrow> (\<exists>t. k = K_wait_timer t) \<and> (s = N_waiting_event \<or> s = N_cancelled)"
| "wait_fits k A_returned s \<longleftrightarrow> busy_state s"
| "wait_fits k (A_thrown _) s \<longleftrightarrow> busy_state s \<and>
     (s \<in> {N_completed, N_waiting_approval, N_waiting_review} \<longrightarrow> fails_after_completion k)"

definition fits :: "workflow_node \<Rightarrow> awaited \<Rightarrow> workflow_run \<Rightarrow> bool" where
  "fits n a r \<longleftrightarrow> (\<exists>s. node_state_of (wn_id n) r = Some s \<and> wait_fits (wn_kind n) a s)"

fun seg_fits :: "workflow_node \<Rightarrow> segment \<Rightarrow> bool" where
  "seg_fits n (Finished r) \<longleftrightarrow> (\<exists>s. node_state_of (wn_id n) r = Some s \<and> busy_state s)"
| "seg_fits n (Threw e r) \<longleftrightarrow> fits n (A_thrown e) r"
| "seg_fits n (Waits a r) \<longleftrightarrow> fits n a r"

lemma fits_busy: "fits n a r \<Longrightarrow> node_state_of (wn_id n) r = Some s \<Longrightarrow> busy_state s"
  by (cases a) (auto simp: fits_def busy_state_def)

lemma seg_fits_async: "seg_fits n s \<Longrightarrow> seg_fits n (async_result s)"
  by (cases s) (auto simp: fits_def)

lemma fire_at:
  "node_state_of i r = Some s \<Longrightarrow> fire i e r =
     (case NODE_EVENT_MAP s e of
        None \<Rightarrow> Threw (State_error (InvalidNodeTransition s e i)) r
      | Some s' \<Rightarrow> Finished (set_node_state i s' r))"
  by (simp add: fire_def applyNodeEvent_def split: option.splits)

lemma fire_run_cases:
  "(\<And>s. P (Finished (r\<lparr>wr_state := s\<rparr>))) \<Longrightarrow> (\<And>x. P (Threw x r)) \<Longrightarrow> P (fire_run e r)"
  by (simp add: fire_run_def split: sum.splits)

lemma busy_simps [simp]:
  "busy_state N_running" "busy_state N_completed" "busy_state N_failed" "busy_state N_cancelled"
  "busy_state N_waiting_approval" "busy_state N_waiting_review" "busy_state N_waiting_timer" "busy_state N_waiting_event"
  "busy_state N_expired" "busy_state N_timed_out" "busy_state N_compensating" "busy_state N_compensated" "busy_state N_blocked"
  "\<not> busy_state N_pending" "\<not> busy_state N_ready" "\<not> busy_state N_skipped"
  by (simp_all add: busy_state_def)

lemma human_fits:
  assumes "node_state_of (wn_id n) r = Some N_running" and "fails_after_completion (wn_kind n)"
  shows "seg_fits n (enterHumanWait (wn_id n) b r)"
  unfolding enterHumanWait_def
  by (cases b; simp add: fire_at[OF assms(1)]; rule fire_run_cases; simp add: fits_def assms)

lemma timer_fits:
  assumes "node_state_of (wn_id n) r = Some N_running" and "wn_kind n = K_wait_timer t"
  shows "seg_fits n (executeWaitTimerNode cfg now (wn_id n) t r)"
  unfolding executeWaitTimerNode_def Let_def
  by (cases t; simp add: fire_at[OF assms(1)]; rule fire_run_cases; simp add: fits_def assms)

lemma tool_fits:
  assumes "node_state_of (wn_id n) r = Some N_running" and "wn_kind n = K_tool_action f x"
  shows "seg_fits n (executeToolActionNode cfg (wn_id n) f x r)"
  by (auto simp: executeToolActionNode_def tool_fail_def fail_node_def fire_at[OF assms(1)] fits_def assms split: option.splits)

lemma has_state_iff: "(\<exists>s. node_state_of i r = Some s) \<longleftrightarrow> i \<in> set (detail_ids r)"
proof -
  have "node_state_of i r = None \<longleftrightarrow> i \<notin> set (detail_ids r)"
    by (auto simp: node_state_of_def detail_def detail_ids_def find_None_iff)
  then show ?thesis by auto
qed

lemma same_ids: "detail_ids r' = detail_ids r \<Longrightarrow> node_state_of i r = Some s \<Longrightarrow> \<exists>s'. node_state_of i r' = Some s'"
  using has_state_iff[of i r] has_state_iff[of i r'] by simp

lemma run_kind_fits:
  assumes st: "node_state_of (wn_id n) r = Some N_running"
    and own: "find_node (wn_id n) (wr_nodes r) = Some n"
  shows "seg_fits n (run_kind cfg now n r)"
proof (cases "wn_kind n")
  case (K_completion x)
  then show ?thesis
    unfolding run_kind_def executeCompletionNode_def complete_with_def Let_def
    by (simp add: fire_at[OF st] fire_run_def fits_def st split: sum.splits)
next
  case (K_branch c ts fs)
  obtain r' where r': "run_kind cfg now n r = Finished r'"
    using K_branch by (simp add: run_kind_def executeBranchNode_def fire_at[OF st] Let_def)
  with seg_run_kind[OF ev_refl, of n r cfg now] st own have "owned n r'" "detail_ids r' = detail_ids r"
    by (auto simp: ev_def owned_def evolves_def)
  with r' st show ?thesis by (auto simp: owned_def dest: same_ids)
next
  case (K_human_approval x)
  then show ?thesis using human_fits[OF st] by (simp add: run_kind_def seg_fits_async)
next
  case K_human_review
  then show ?thesis using human_fits[OF st] by (simp add: run_kind_def seg_fits_async)
next
  case (K_wait_timer t)
  then show ?thesis using timer_fits[OF st] by (simp add: run_kind_def seg_fits_async)
next
  case (K_tool_action f x)
  then show ?thesis using tool_fits[OF st] by (simp add: run_kind_def seg_fits_async)
next
  case (K_compensation ts)
  then show ?thesis by (simp add: run_kind_def compensation_throws[OF st] fits_def st)
qed (auto simp: run_kind_def complete_with_def executeDeterministicNode_def executeJoinNode_def
      executeArtifactOutputNode_def fail_node_def fire_at st fits_def Let_def)

lemma continue_fits:
  assumes "owned n r" and "fits n a r" and "node_state_of (wn_id n) r = Some s"
  shows "seg_fits n (continue_executor n aborted now a reply r)"
proof -
  have w: "wait_fits (wn_kind n) a s" using assms(2,3) by (simp add: fits_def)
  note at = fire_at[OF assms(3)] assms(3)
  note defs = continue_executor_def Let_def fits_def fail_node_def
  show ?thesis
  proof (cases a)
    case A_det_record
    with w at show ?thesis by (cases reply) (auto simp: defs)
  next
    case A_agent
    with w at show ?thesis
      by (cases reply) (auto simp: defs agent_answered_def agent_failed_def fire_at split: option.splits)
  next
    case A_agent_record
    with w at show ?thesis by (cases reply) (auto simp: defs agent_failed_def)
  next
    case A_agent_fail_record
    with w at show ?thesis by (cases reply) (auto simp: defs)
  next
    case A_tool
    with w at show ?thesis
      by (cases reply) (auto simp: defs tool_answered_def tool_fail_def)
  next
    case A_tool_record
    with w at show ?thesis by (cases reply) (auto simp: defs tool_fail_def)
  next
    case A_swallowed_record
    with w at show ?thesis by (simp add: defs)
  next
    case (A_timer ms t)
    with w at show ?thesis
      by (cases reply) (auto simp: defs timer_fired_def timer_failed_def applyNodeEvent_def fire_at)
  next
    case (A_event x)
    with w at show ?thesis by (cases reply) (auto simp: defs event_fired_def)
  next
    case A_returned
    with w at show ?thesis by (simp add: defs)
  next
    case (A_thrown e)
    with w at show ?thesis by (simp add: defs)
  qed
qed

lemma set_state_twice: "set_node_state i s (set_node_state i s' r) = set_node_state i s r"
  by (simp add: set_node_state_def upd_detail_def)

lemma timer_failed_fires:
  "timer_failed i False e r =
     (case node_state_of i r of None \<Rightarrow> Finished r
      | Some s \<Rightarrow> (case fire i NE_start r of Finished r1 \<Rightarrow> fail_node i (Thrown e) r1 | z \<Rightarrow> z))"
proof (cases "node_state_of i r")
  case (Some s)
  then show ?thesis
    by (cases s) (simp_all add: timer_failed_def fire_def applyNodeEvent_def fail_node_def set_state_twice)
qed (simp add: timer_failed_def)

lemma seg_timer_failed:
  assumes "ev n r0 r"
  shows "seg_ev n r0 (timer_failed (wn_id n) aborted e r)"
proof (cases aborted)
  case True
  with assms show ?thesis by (simp add: timer_failed_def) (intro seg_and_then, auto intro: seg_intros)
next
  case False
  have s: "seg_ev n r0 (fire (wn_id n) NE_start r)" using assms by (rule seg_fire) simp
  then show ?thesis
    using assms False
    by (cases "fire (wn_id n) NE_start r") (auto simp: timer_failed_fires intro: seg_fail_node split: option.splits)
qed

lemma seg_timer_fired:
  assumes "ev n r0 r" and "\<not> is_approval n"
  shows "seg_ev n r0 (timer_fired (wn_id n) aborted ms t now r)"
proof -
  have s: "seg_ev n r0 (fire (wn_id n) NE_start r)" using assms(1) by (rule seg_fire) simp
  show ?thesis
  proof (cases "fire (wn_id n) NE_start r")
    case (Finished r1)
    with s assms(2) show ?thesis
      by (simp add: timer_fired_def) (intro seg_and_then, auto intro: seg_intros)
  next
    case (Threw e r1)
    with s show ?thesis by (simp add: timer_fired_def seg_timer_failed)
  next
    case (Waits a r1)
    with s show ?thesis by (simp add: timer_fired_def)
  qed
qed

lemma seg_continue:
  assumes "ev n r0 r" and "\<not> is_approval n \<or> a = A_returned \<or> (\<exists>e. a = A_thrown e)"
  shows "seg_ev n r0 (continue_executor n aborted now a reply r)"
proof (cases "is_approval n")
  case True
  with assms show ?thesis by (auto simp: continue_executor_def)
next
  case False
  with assms(1) show ?thesis
    unfolding continue_executor_def Let_def
    by (cases a; cases reply; simp only: awaited.case reply.case prod.case)
       (auto intro: seg_fail_node seg_agent_answered seg_agent_failed seg_tool_fail seg_tool_answered
          seg_timer_failed seg_timer_fired seg_event_fired split: node_kind.split)
qed

lemma fits_not_approval:
  "fits n a r \<Longrightarrow> node_state_of (wn_id n) r = Some s \<Longrightarrow>
     \<not> is_approval n \<or> a = A_returned \<or> (\<exists>e. a = A_thrown e)"
  by (cases a) (auto simp: fits_def is_approval_def)

section \<open>Executing a node\<close>

definition flight_fits :: "workflow_run \<Rightarrow> string \<Rightarrow> flight \<Rightarrow> bool" where
  "flight_fits r i f \<longleftrightarrow> (\<forall>a. f = In_flight a \<longrightarrow>
     (\<exists>n. find_node i (wr_nodes r) = Some n \<and> wn_id n = i \<and> fits n a r))"

lemma flight_fits_Settled [simp]: "flight_fits r i (Settled x)"
  by (simp add: flight_fits_def)

lemma flight_owned: "flight_fits r i (In_flight a) \<Longrightarrow> find_node i (wr_nodes r) = Some n \<Longrightarrow> owned n r"
  by (auto simp: flight_fits_def owned_def intro: fits_busy)

lemma seg_catch:
  assumes own: "owned n r" and fit: "fits n (A_thrown e) r" and c: "catch_node n aborted now e r = (r', f)"
  shows "evolves (wn_id n) r r' \<and> flight_fits r' (wn_id n) f"
proof -
  have cancel: "evolves (wn_id n) r (try_fire (wn_id n) NE_cancel r)"
    using seg_fire[OF ev_refl, of r n NE_cancel] own by (simp add: try_fire_def ev_def)
  have fail: "evolves (wn_id n) r (result_run (fire (wn_id n) NE_fail r))"
    using seg_fire[OF ev_refl, of r n NE_fail] own by (simp add: ev_def)
  note quiet = evolves_trans[OF _ evolves_same]
  show ?thesis
  proof (cases "aborted \<or> node_state_of (wn_id n) r = Some N_cancelled")
    case True
    with c show ?thesis by (auto simp: catch_node_def Let_def intro: quiet[OF cancel])
  next
    case not_cancelled: False
    show ?thesis
    proof (cases "0 < wn_maxRetries n \<and>
        int (case detail (wn_id n) r of None \<Rightarrow> 0 | Some d \<Rightarrow> nd_attempt d) \<le> wn_maxRetries n")
      case False
      with not_cancelled c show ?thesis
        by (cases "fire (wn_id n) NE_fail r") (use fail in \<open>auto simp: catch_node_def Let_def intro: quiet\<close>)
    next
      case True
      define r1 where "r1 = upd_detail (wn_id n) (\<lambda>d. d\<lparr>nd_retryHistory := nd_retryHistory d @
          [(case detail (wn_id n) r of None \<Rightarrow> 0 | Some d \<Rightarrow> nd_attempt d, e)], nd_state := N_ready\<rparr>) r"
      have "evolves (wn_id n) r r1"
      proof (cases "detail (wn_id n) r")
        case None
        then have "r1 = r" by (simp add: r1_def upd_detail_def detail_def find_None_iff map_idI)
        then show ?thesis by simp
      next
        case (Some d)
        have "abs_of r1 = a_put (wn_id n) N_ready (nd_attempt d) (abs_of r)"
          unfolding r1_def by (subst abs_move[OF _ Some]) simp_all
        moreover have "run_step (abs_of r) (a_put (wn_id n) N_ready (nd_attempt d) (abs_of r))"
          using own fit True Some by (intro S_retry) (auto simp: owned_def fits_def node_state_of_def)
        ultimately show ?thesis by (auto simp: evolves_def r1_def node_state_upd)
      qed
      with not_cancelled True c show ?thesis
        by (auto simp: catch_node_def r1_def Let_def intro: quiet)
    qed
  qed
qed

lemma owned_id: "owned n r \<Longrightarrow> find_node (wn_id n) (wr_nodes r) = Some n"
  by (simp add: owned_def)

lemma seg_settle:
  assumes own: "owned n r0" and e: "seg_ev n r0 s" and fit: "seg_fits n s"
    and c: "settle_segment n aborted now s = (r', f)"
  shows "evolves (wn_id n) r0 r' \<and> flight_fits r' (wn_id n) f"
proof (cases s)
  case (Finished r)
  have "ev n r0 (stamp_end (wn_id n) now r)" using e Finished by (simp add: ev_quiet)
  with own c Finished show ?thesis by (auto simp: settle_segment_def ev_def)
next
  case (Threw x r)
  with own e have o: "evolves (wn_id n) r0 r" "owned n r" by (auto simp: ev_def)
  with seg_catch[OF o(2), of x aborted now r' f] fit c Threw show ?thesis
    by (auto simp: settle_segment_def intro: evolves_trans)
next
  case (Waits a r)
  with own e have "evolves (wn_id n) r0 r" "owned n r" by (auto simp: ev_def)
  with fit c Waits show ?thesis
    by (auto simp: settle_segment_def flight_fits_def dest: owned_id)
qed

lemma satisfied_abs: "abs_satisfied (abs_of r) d = dep_satisfied r d"
  by (simp add: abs_satisfied_def dep_satisfied_def abs_node_state)

text \<open>The start of a ready node, up to its first \<open>await\<close> or its end.\<close>

lemma execute_step:
  assumes n: "find_node i (wr_nodes r) = Some n" and d: "node_state_of i r = Some N_ready"
    and deps: "\<forall>d \<in> set (wn_deps n). dep_satisfied r d" and st: "\<not> stopping (wr_state r)"
    and c: "executeNode cfg now False i r = (r', f)"
  shows "evolves i r r' \<and> flight_fits r' i f \<and> attempt_in i (abs_of r) < attempt_in i (abs_of r')"
proof -
  define r1 where "r1 = (upd_detail i (\<lambda>d. d\<lparr>nd_state := N_running, nd_attempt := Suc (nd_attempt d),
      nd_startedAt := Some now\<rparr>) r)\<lparr>wr_updatedAt := now\<rparr>"
  have i: "wn_id n = i" using find_node_id[OF n] by simp
  from d obtain nd where nd: "detail i r = Some nd" "nd_state nd = N_ready" by (auto simp: node_state_of_def)
  have a1: "abs_of r1 = a_put i N_running (Suc (nd_attempt nd)) (abs_of r)"
    unfolding r1_def by (simp, subst abs_move[OF _ nd(1)]) simp_all
  then have more: "attempt_in i (abs_of r) < attempt_in i (abs_of r1)"
    using nd(1) by (simp add: attempt_in_def)
  note a1
  moreover have "run_step (abs_of r) (a_put i N_running (Suc (nd_attempt nd)) (abs_of r))"
    using n deps st nd by (intro S_start) (auto simp: satisfied_abs stopping_def)
  moreover have s1: "node_state_of j r1 = (if j = i then Some N_running else node_state_of j r)" for j
    using nd by (auto simp: r1_def node_state_upd)
  ultimately have e1: "evolves i r r1" by (auto simp: evolves_def r1_def)
  have own: "owned n r1" using n i s1 by (simp add: owned_def r1_def)
  have "settle_segment n False now (run_kind cfg now n r1) = (r', f)"
    using c n by (simp add: executeNode_def r1_def Let_def)
  from seg_settle[OF own seg_run_kind[OF ev_refl] run_kind_fits this] s1 i owned_id[OF own]
  have "evolves i r1 r' \<and> flight_fits r' i f" by simp
  moreover from this have "attempt_in i (abs_of r1) \<le> attempt_in i (abs_of r')"
    by (intro attempt_in_steps) (simp add: evolves_def)
  ultimately show ?thesis using e1 more by (auto intro: evolves_trans)
qed

text \<open>The end of an \<open>await\<close>.\<close>

lemma answer_step:
  assumes "flight_fits r i (In_flight a)" and n: "find_node i (wr_nodes r) = Some n"
    and c: "settle_segment n aborted now (continue_node n aborted now a reply r) = (r', f)"
  shows "evolves i r r' \<and> flight_fits r' i f"
proof -
  have own: "owned n r" and i: "wn_id n = i" using assms(1) n flight_owned by (auto simp: flight_fits_def)
  obtain s where fit: "fits n a r" and s: "node_state_of (wn_id n) r = Some s"
    using assms(1) n by (auto simp: flight_fits_def fits_def)
  let ?x = "continue_executor n aborted now a reply r"
  have e: "seg_ev n r ?x" using fits_not_approval[OF fit s] by (rule seg_continue[OF ev_refl])
  have f: "seg_fits n ?x" using continue_fits[OF own fit s] .
  have "seg_ev n r (continue_node n aborted now a reply r) \<and> seg_fits n (continue_node n aborted now a reply r)"
    using e f by (cases a) (simp_all add: continue_node_def Let_def seg_fits_async)
  from seg_settle[OF own _ _ c] this i show ?thesis by simp
qed

end
