(* ===== verification/Workflow_Runs.thy ===== *)
theory Workflow_Runs
  imports Workflow_Refinement
begin

text \<open>
  The engine as a whole: the well-formedness of an engine state, and the refinement of the
  operations. Every operation takes every run object along abstract steps, and every object
  and the stored row come from an object or the row of before.
\<close>

section \<open>Updates of all nodes\<close>

text \<open>
  What another node in flight survives: the run takes abstract steps, keeps its nodes, and
  what a node waits for still fits.
\<close>

definition calm :: "workflow_run \<Rightarrow> workflow_run \<Rightarrow> bool" where
  "calm r r' \<longleftrightarrow>
     run_step\<^sup>*\<^sup>* (abs_of r) (abs_of r') \<and> detail_ids r' = detail_ids r \<and>
     (\<forall>i f. flight_fits r i f \<longrightarrow> flight_fits r' i f)"

lemma flight_cong:
  assumes "flight_fits r i f" and "node_state_of i r' = node_state_of i r" and "wr_nodes r' = wr_nodes r"
  shows "flight_fits r' i f"
  using assms by (auto simp: flight_fits_def fits_def)

lemma calm_nodes: "calm r r' \<Longrightarrow> wr_nodes r' = wr_nodes r"
  by (auto simp: calm_def dest: run_steps_nodes)

lemma calm_refl [simp]: "calm r r"
  by (simp add: calm_def)

lemma calm_trans: "calm r r' \<Longrightarrow> calm r' r'' \<Longrightarrow> calm r r''"
  unfolding calm_def by (metis rtranclp_trans)

lemma calm_same:
  assumes "abs_of r' = abs_of r" and "detail_ids r' = detail_ids r"
  shows "calm r r'"
proof -
  have "wr_nodes r' = wr_nodes r" using arg_cong[OF assms(1), of a_nodes] by simp
  moreover have "node_state_of j r' = node_state_of j r" for j
    unfolding abs_node_state assms by (rule refl)
  ultimately show ?thesis using assms by (auto simp: calm_def intro: flight_cong)
qed

lemma calm_state:
  assumes "run_step\<^sup>*\<^sup>* (abs_of r) (abs_of (r\<lparr>wr_state := s\<rparr>))"
  shows "calm r (r\<lparr>wr_state := s\<rparr>)"
  using assms by (auto simp: calm_def intro: flight_cong)

lemma fold_upd:
  assumes "distinct xs" and "\<And>d. nd_id (g d) = nd_id d"
  shows "fold (\<lambda>i. upd_detail i g) xs r =
    r\<lparr>wr_details := map (\<lambda>d. if nd_id d \<in> set xs then g d else d) (wr_details r)\<rparr>"
  using assms(1)
proof (induction xs arbitrary: r)
  case (Cons x xs)
  have "(\<lambda>d. if nd_id d \<in> set xs then g d else d) \<circ> (\<lambda>d. if nd_id d = x then g d else d) =
        (\<lambda>d. if nd_id d \<in> set (x # xs) then g d else d)"
    using Cons.prems by (intro ext) (simp add: assms(2))
  then show ?case using Cons.IH[of "upd_detail x g r"] Cons.prems by (simp add: upd_detail_def)
qed (simp add: map_idI)

lemma map_details_fold:
  assumes "distinct (detail_ids r)" and "\<And>d. nd_id (g d) = nd_id d"
  shows "r\<lparr>wr_details := map g (wr_details r)\<rparr> = fold (\<lambda>i. upd_detail i g) (detail_ids r) r"
  unfolding fold_upd[OF assms] by (rule arg_cong[where f = "\<lambda>x. r\<lparr>wr_details := x\<rparr>"]) (simp add: detail_ids_def)

lemma fold_upd_calm:
  assumes "\<And>d. nd_id (g d) = nd_id d"
    and "\<And>i r'. wr_state r' = wr_state r \<Longrightarrow> wr_nodes r' = wr_nodes r \<Longrightarrow> calm (r' :: workflow_run) (upd_detail i g r')"
  shows "calm r (fold (\<lambda>i. upd_detail i g) xs r)"
proof -
  have "calm r' (fold (\<lambda>i. upd_detail i g) xs r')" if "wr_state r' = wr_state r" "wr_nodes r' = wr_nodes r" for r' :: workflow_run
    using that
  proof (induction xs arbitrary: r')
    case (Cons x xs)
    show ?case using Cons.IH[of "upd_detail x g r'"] assms(2)[OF Cons.prems, of x] Cons.prems
      by (auto intro: calm_trans)
  qed simp
  then show ?thesis by simp
qed

lemma map_details_calm:
  assumes "distinct (detail_ids r)" and "\<And>d. nd_id (g d) = nd_id d"
    and "\<And>i d r'. wr_state r' = wr_state r \<Longrightarrow> wr_nodes r' = wr_nodes r \<Longrightarrow> detail i r' = Some d \<Longrightarrow> g d \<noteq> d \<Longrightarrow>
       calm r' (upd_detail i g r')"
  shows "calm r (r\<lparr>wr_details := map g (wr_details r)\<rparr>)"
  unfolding map_details_fold[OF assms(1,2)]
proof (rule fold_upd_calm[OF assms(2)])
  fix i and r' :: workflow_run assume r': "wr_state r' = wr_state r" "wr_nodes r' = wr_nodes r"
  show "calm r' (upd_detail i g r')"
  proof (cases "\<exists>d. detail i r' = Some d \<and> g d \<noteq> d")
    case True
    then show ?thesis using assms(3)[OF r'] by blast
  next
    case False
    show ?thesis
    proof (rule calm_same)
      have "map_option g (detail i r') = detail i r'" using False by (cases "detail i r'") auto
      then have "map_option (\<lambda>d. (nd_state d, nd_attempt d)) (detail j (upd_detail i g r')) =
          map_option (\<lambda>d. (nd_state d, nd_attempt d)) (detail j r')" for j
        by (simp add: detail_upd assms(2))
      then show "abs_of (upd_detail i g r') = abs_of r'" by (simp add: abs_of_def)
    qed (simp add: assms(2))
  qed
qed

text \<open>One node moves to a state that fits whatever the old one did.\<close>

lemma calm_move:
  assumes g: "\<And>d. nd_id (g d) = nd_id d" and d: "detail i r = Some d"
    and step: "run_step\<^sup>*\<^sup>* (abs_of r) (a_put i (nd_state (g d)) (nd_attempt (g d)) (abs_of r))"
    and fit: "\<And>n a. find_node i (wr_nodes r) = Some n \<Longrightarrow> wait_fits (wn_kind n) a (nd_state d) \<Longrightarrow>
       wait_fits (wn_kind n) a (nd_state (g d))"
  shows "calm r (upd_detail i g r)"
  unfolding calm_def
proof (intro conjI allI impI)
  show "run_step\<^sup>*\<^sup>* (abs_of r) (abs_of (upd_detail i g r))" using step by (simp add: abs_move[OF g d])
  show "detail_ids (upd_detail i g r) = detail_ids r" by (simp add: g)
  have s: "node_state_of i r = Some (nd_state d)" "node_state_of i (upd_detail i g r) = Some (nd_state (g d))"
    using d by (simp_all add: node_state_upd[OF g]) (simp add: node_state_of_def)
  fix j f assume j: "flight_fits r j f"
  show "flight_fits (upd_detail i g r) j f"
  proof (cases "j = i")
    case True
    show ?thesis
      unfolding flight_fits_def True
    proof (intro allI impI)
      fix a assume a: "f = In_flight a"
      with j True s obtain n where n: "find_node i (wr_nodes r) = Some n" "wn_id n = i" "wait_fits (wn_kind n) a (nd_state d)"
        by (auto simp: flight_fits_def fits_def)
      with fit[OF n(1,3)] s show "\<exists>n. find_node i (wr_nodes (upd_detail i g r)) = Some n \<and> wn_id n = i \<and> fits n a (upd_detail i g r)"
        by (auto simp: fits_def)
    qed
  next
    case False
    then show ?thesis by (intro flight_cong[OF j]) (simp_all add: node_state_upd[OF g])
  qed
qed

lemma cancel_fits: "wait_fits k a s \<Longrightarrow> NODE_EVENT_MAP s NE_cancel = Some s' \<Longrightarrow> wait_fits k a s'"
  by (cases a; cases s) auto

lemma cancel_details_calm:
  assumes "distinct (detail_ids r)" and "stopping (wr_state r)"
  shows "calm r (cancel_details P r)"
  unfolding cancel_details_def
proof (rule map_details_calm[OF assms(1)])
  let ?g = "\<lambda>d. if P (nd_state d)
      then (case applyNodeEvent (nd_state d) NE_cancel (nd_id d) of Inl _ \<Rightarrow> d | Inr s \<Rightarrow> d\<lparr>nd_state := s\<rparr>) else d"
  show id: "nd_id (?g d) = nd_id d" for d by (auto split: sum.splits)
  fix i d r' assume r': "wr_state r' = wr_state r" "wr_nodes r' = wr_nodes r"
    and d: "detail i r' = Some d" and c: "?g d \<noteq> d"
  from c obtain s' where s': "NODE_EVENT_MAP (nd_state d) NE_cancel = Some s'" "?g d = d\<lparr>nd_state := s'\<rparr>"
    by (auto simp: applyNodeEvent_def split: if_splits option.splits)
  show "calm r' (upd_detail i ?g r')"
  proof (rule calm_move[OF id d])
    have "run_step (abs_of r') (a_put i s' (nd_attempt d) (abs_of r'))"
      using assms(2) r' d s'(1) by (intro S_cancel) (auto simp: stopping_def)
    then show "run_step\<^sup>*\<^sup>* (abs_of r') (a_put i (nd_state (?g d)) (nd_attempt (?g d)) (abs_of r'))"
      unfolding s'(2) by (simp add: r_into_rtranclp)
    show "wait_fits (wn_kind n) a (nd_state (?g d))" if "wait_fits (wn_kind n) a (nd_state d)" for n a
      unfolding s'(2) using cancel_fits[OF that s'(1)] by simp
  qed
qed

lemma refresh_calm:
  assumes "distinct (detail_ids r)"
  shows "calm r (refreshNodeReadiness r)"
  unfolding refreshNodeReadiness_def
proof (rule map_details_calm[OF assms(1)])
  let ?g = "\<lambda>d. if nd_state d = N_pending \<and> deps_satisfied r (nd_id d) then d\<lparr>nd_state := N_ready\<rparr> else d"
  show id: "nd_id (?g d) = nd_id d" for d by simp
  fix i d r' assume d: "detail i r' = Some d" and c: "?g d \<noteq> d"
  have s: "nd_state d = N_pending" "nd_state (?g d) = N_ready" "nd_attempt (?g d) = nd_attempt d"
    using c by (auto split: if_splits)
  show "calm r' (upd_detail i ?g r')"
  proof (rule calm_move[OF id d])
    have "run_step (abs_of r') (a_put i N_ready (nd_attempt d) (abs_of r'))"
      using d s by (intro S_ready) auto
    then show "run_step\<^sup>*\<^sup>* (abs_of r') (a_put i (nd_state (?g d)) (nd_attempt (?g d)) (abs_of r'))"
      unfolding s(2,3) by (rule r_into_rtranclp)
    show "wait_fits (wn_kind n) a (nd_state (?g d))" if "wait_fits (wn_kind n) a (nd_state d)" for n a
      using that unfolding s(2) by (cases a) (auto simp: s(1))
  qed
qed

lemma recompute_calm:
  assumes "distinct (detail_ids r)"
  shows "calm r (recomputeRunState now r)"
proof (cases "stopping (wr_state r)")
  case True
  let ?c = "cancel_details (\<lambda>s. s \<in> set CANCEL_ON_RECOMPUTE) r"
  have st: "wr_state ?c = wr_state r" by (simp add: cancel_details_def)
  have "run_step\<^sup>*\<^sup>* (abs_of ?c) (abs_of (?c\<lparr>wr_state := W_cancelled\<rparr>))"
  proof (cases "wr_state r = W_cancelled")
    case False
    with True st have "run_step (abs_of ?c) ((abs_of ?c)\<lparr>a_state := W_cancelled\<rparr>)"
      by (intro S_run) (auto simp: stopping_def)
    then show ?thesis by simp
  next
    case True
    with st have "(abs_of ?c)\<lparr>a_state := W_cancelled\<rparr> = abs_of ?c" by (simp add: abs_of_def)
    then show ?thesis by simp
  qed
  then have "calm ?c (?c\<lparr>wr_state := W_cancelled\<rparr>)" by (rule calm_state)
  with cancel_details_calm[OF assms True] have "calm r (?c\<lparr>wr_state := W_cancelled\<rparr>)" by (rule calm_trans)
  moreover have "calm (?c\<lparr>wr_state := W_cancelled\<rparr>) (?c\<lparr>wr_state := W_cancelled, wr_endedAt := e\<rparr>)" for e
    by (rule calm_same) simp_all
  ultimately have "calm r (?c\<lparr>wr_state := W_cancelled, wr_endedAt := e\<rparr>)" for e by (rule calm_trans)
  moreover have "recomputeRunState now r = ?c\<lparr>wr_state := W_cancelled, wr_endedAt := Some (nullish (wr_endedAt r) now)\<rparr>"
    using True by (auto simp: recomputeRunState_def stopping_def)
  ultimately show ?thesis by simp
next
  case False
  have s: "calm r (r\<lparr>wr_state := s\<rparr>)" if "s \<noteq> W_cancelled" for s
    using False that by (intro calm_state r_into_rtranclp) (auto intro: S_run simp: stopping_def)
  have "calm r (r\<lparr>wr_state := W_completed, wr_endedAt := e\<rparr>)" for e
    by (rule calm_trans[OF s calm_same]) simp_all
  with False s show ?thesis by (simp add: recomputeRunState_def stopping_def Let_def)
qed

section \<open>Starting a batch\<close>

lemma start_nodes_step:
  assumes "distinct is" and "\<forall>i \<in> set is. node_state_of i r = Some N_ready \<and> deps_satisfied r i"
    and "\<not> stopping (wr_state r)" and "start_nodes cfg now is r = (r2, fs)"
  shows "run_step\<^sup>*\<^sup>* (abs_of r) (abs_of r2) \<and> detail_ids r2 = detail_ids r \<and> map fst fs = is \<and>
    (\<forall>j. j \<notin> set is \<longrightarrow> node_state_of j r2 = node_state_of j r \<or> node_state_of j r = Some N_pending) \<and>
    (\<forall>(i, f) \<in> set fs. flight_fits r2 i f) \<and>
    (\<forall>j \<in> set is. attempt_in j (abs_of r) < attempt_in j (abs_of r2))"
  using assms
proof (induction "is" arbitrary: r r2 fs)
  case (Cons i "is")
  obtain r1 f where e: "executeNode cfg now False i r = (r1, f)" by fastforce
  obtain fs' where fs: "start_nodes cfg now is r1 = (r2, fs')" "fs = (i, f) # fs'"
    using Cons.prems(4) e by (auto split: prod.splits)
  have "node_state_of i r = Some N_ready" "deps_satisfied r i" using Cons.prems(2) by simp_all
  then obtain n where n: "find_node i (wr_nodes r) = Some n" "\<forall>d \<in> set (wn_deps n). dep_satisfied r d"
    by (auto simp: deps_satisfied_def split: option.splits)
  from execute_step[OF n(1) \<open>node_state_of i r = Some N_ready\<close> n(2) Cons.prems(3) e]
  have ev: "evolves i r r1" and f: "flight_fits r1 i f" and more: "attempt_in i (abs_of r) < attempt_in i (abs_of r1)"
    by simp_all
  have same: "node_state_of j r1 = node_state_of j r" if "j \<noteq> i" "node_state_of j r \<noteq> Some N_pending" for j
    using ev that by (auto simp: evolves_def)
  have sat: "dep_satisfied r1 d" if "dep_satisfied r d" for d
  proof -
    have "d \<noteq> i" "node_state_of d r \<noteq> Some N_pending"
      using that \<open>node_state_of i r = Some N_ready\<close> by (auto simp: dep_satisfied_def)
    with same that show ?thesis by (simp add: dep_satisfied_def)
  qed
  have nodes: "wr_nodes r1 = wr_nodes r" using ev by (rule evolves_nodes)
  have "node_state_of j r1 = Some N_ready \<and> deps_satisfied r1 j" if "j \<in> set is" for j
  proof -
    have "j \<noteq> i" "node_state_of j r = Some N_ready" "deps_satisfied r j" using that Cons.prems(1,2) by auto
    then show ?thesis using same[of j] sat by (auto simp: deps_satisfied_def nodes split: option.splits)
  qed
  moreover have "\<not> stopping (wr_state r1)" using ev Cons.prems(3) by (auto simp: evolves_def)
  ultimately have ih: "run_step\<^sup>*\<^sup>* (abs_of r1) (abs_of r2)" "detail_ids r2 = detail_ids r1" "map fst fs' = is"
    "\<And>j. j \<notin> set is \<Longrightarrow> node_state_of j r2 = node_state_of j r1 \<or> node_state_of j r1 = Some N_pending"
    "\<forall>(i, f) \<in> set fs'. flight_fits r2 i f" "\<forall>j \<in> set is. attempt_in j (abs_of r1) < attempt_in j (abs_of r2)"
    using Cons.IH[OF _ _ _ fs(1)] Cons.prems(1) by auto
  have nodes2: "wr_nodes r2 = wr_nodes r1" using run_steps_nodes[OF ih(1)] by simp
  have "flight_fits r2 i f"
  proof (cases f)
    case (In_flight a)
    then obtain n' where "fits n' a r1" "wn_id n' = i" using f by (auto simp: flight_fits_def)
    then obtain s where "node_state_of i r1 = Some s" "busy_state s" using fits_busy by (auto simp: fits_def)
    then have "node_state_of i r2 = node_state_of i r1" using ih(4)[of i] Cons.prems(1) by auto
    then show ?thesis by (rule flight_cong[OF f _ nodes2])
  qed simp
  moreover have "attempt_in j (abs_of r) < attempt_in j (abs_of r2)" if "j \<in> set (i # is)" for j
  proof -
    have "attempt_in j (abs_of r) \<le> attempt_in j (abs_of r1)" "attempt_in j (abs_of r1) \<le> attempt_in j (abs_of r2)"
      using ev ih(1) by (auto simp: evolves_def intro: attempt_in_steps)
    then show ?thesis using that more ih(6) by fastforce
  qed
  moreover have "node_state_of j r2 = node_state_of j r \<or> node_state_of j r = Some N_pending" if "j \<notin> set (i # is)" for j
    using that same[of j] ih(4)[of j] by auto
  ultimately show ?case
    using ev ih(1-3,5) fs(2) by (auto simp: evolves_def)
qed simp

lemma start_nodes_calm:
  assumes "\<forall>i \<in> set is. node_state_of i r = Some N_ready"
    and "run_step\<^sup>*\<^sup>* (abs_of r) (abs_of r2)" "detail_ids r2 = detail_ids r"
    and same: "\<And>j. j \<notin> set is \<Longrightarrow> node_state_of j r2 = node_state_of j r \<or> node_state_of j r = Some N_pending"
  shows "calm r r2"
  unfolding calm_def
proof (intro conjI allI impI assms(2,3))
  fix i f assume f: "flight_fits r i f"
  show "flight_fits r2 i f"
  proof (cases f)
    case (In_flight a)
    then obtain n' where "fits n' a r" "wn_id n' = i" using f by (auto simp: flight_fits_def)
    then obtain s where s: "node_state_of i r = Some s" "busy_state s" using fits_busy by (auto simp: fits_def)
    then have "i \<notin> set is" using assms(1) by auto
    then have "node_state_of i r2 = node_state_of i r" using same[of i] s by auto
    moreover have "wr_nodes r2 = wr_nodes r" using run_steps_nodes[OF assms(2)] by simp
    ultimately show ?thesis by (rule flight_cong[OF f])
  qed simp
qed

lemma ready_nodes:
  assumes "distinct (detail_ids r)"
  shows "distinct (getReadyNodes r)"
    and "i \<in> set (getReadyNodes r) \<Longrightarrow> node_state_of i r = Some N_ready \<and> deps_satisfied r i"
proof -
  show "distinct (getReadyNodes r)"
    using assms by (simp add: getReadyNodes_def detail_ids_def distinct_map_filter)
  assume "i \<in> set (getReadyNodes r)"
  then obtain d where "d \<in> set (wr_details r)" "nd_id d = i" "nd_state d = N_ready" "deps_satisfied r i"
    by (auto simp: getReadyNodes_def)
  moreover from this have "detail i r = Some d"
    using assms unfolding detail_def detail_ids_def by (intro find_unique_key)
  ultimately show "node_state_of i r = Some N_ready \<and> deps_satisfied r i" by (simp add: node_state_of_def)
qed

section \<open>Well-formed engine states\<close>

definition flights_ok :: "tick \<Rightarrow> workflow_run \<Rightarrow> bool" where
  "flights_ok tk r \<longleftrightarrow>
     distinct (map fst (tk_flights tk)) \<and> (\<forall>(i, f) \<in> set (tk_flights tk). flight_fits r i f)"

definition flying :: "tick \<Rightarrow> string set" where
  "flying tk = {i. \<exists>a. (i, In_flight a) \<in> set (tk_flights tk)}"

definition runs_of :: "engine \<Rightarrow> workflow_run set" where
  "runs_of en = set (en_objs en) \<union> set_option (en_saved en)"

definition ticks_ok :: "tick list \<Rightarrow> workflow_run list \<Rightarrow> bool" where
  "ticks_ok tks objs \<longleftrightarrow>
     (\<forall>tk \<in> set tks. tk_obj tk < length objs \<and> flights_ok tk (objs ! tk_obj tk)) \<and>
     (\<forall>k k'. k < k' \<longrightarrow> k' < length tks \<longrightarrow> tk_obj (tks ! k) = tk_obj (tks ! k') \<longrightarrow>
        flying (tks ! k) \<inter> flying (tks ! k') = {})"

definition engine_ok :: "engine \<Rightarrow> bool" where
  "engine_ok en \<longleftrightarrow>
     (\<forall>r \<in> runs_of en. distinct (detail_ids r)) \<and>
     (\<forall>o1. en_live en = Some o1 \<longrightarrow> o1 < length (en_objs en)) \<and>
     ticks_ok (en_ticks en) (en_objs en)"

text \<open>
  How often an object has executed a node: the calls of \<open>executeNode\<close> in its ticks. Every one
  of them is counted by the attempts of the node.
\<close>

definition started_by :: "nat \<Rightarrow> tick \<Rightarrow> string list" where
  "started_by o1 tk = (if tk_obj tk = o1 then map fst (tk_flights tk) else [])"

definition executions :: "nat \<Rightarrow> string \<Rightarrow> engine \<Rightarrow> nat" where
  "executions o1 i en = count_list (concat (map (started_by o1) (en_ticks en))) i"

definition tallied :: "engine \<Rightarrow> bool" where
  "tallied en \<longleftrightarrow>
     (\<forall>o1 < length (en_objs en). \<forall>i. executions o1 i en \<le> attempt_in i (abs_of (en_objs en ! o1)))"

lemma same_executions:
  "map (started_by o1) (en_ticks en') = map (started_by o1) (en_ticks en) \<Longrightarrow> executions o1 i en' = executions o1 i en"
  by (simp add: executions_def)

lemma no_executions:
  assumes "ticks_ok (en_ticks en) objs" and "length objs \<le> o1"
  shows "executions o1 i en = 0"
proof -
  have "concat (map (started_by o1) (en_ticks en)) = []"
    using assms by (fastforce simp: ticks_ok_def started_by_def)
  then show ?thesis unfolding executions_def by simp
qed

text \<open>The one engine state comes from the other by abstract steps of its runs.\<close>

definition leads :: "engine \<Rightarrow> engine \<Rightarrow> bool" where
  "leads en en' \<longleftrightarrow>
     engine_ok en' \<and> length (en_objs en) \<le> length (en_objs en') \<and>
     (\<forall>o1 < length (en_objs en). run_step\<^sup>*\<^sup>* (abs_of (en_objs en ! o1)) (abs_of (en_objs en' ! o1))) \<and>
     (\<forall>r' \<in> runs_of en'. \<exists>r \<in> runs_of en. run_step\<^sup>*\<^sup>* (abs_of r) (abs_of r')) \<and>
     (tallied en \<longrightarrow> tallied en')"

lemma leads_ok: "leads en en' \<Longrightarrow> engine_ok en'"
  by (simp add: leads_def)

lemma leads_length: "leads en en' \<Longrightarrow> o1 < length (en_objs en) \<Longrightarrow> o1 < length (en_objs en')"
  by (simp add: leads_def)

lemma leads_refl: "engine_ok en \<Longrightarrow> leads en en"
  by (auto simp: leads_def)

lemma leads_trans:
  assumes "leads en en'" and "leads en' en''"
  shows "leads en en''"
  unfolding leads_def
proof (intro conjI allI impI ballI)
  show "engine_ok en''" "length (en_objs en) \<le> length (en_objs en'')" using assms by (auto simp: leads_def)
  show "run_step\<^sup>*\<^sup>* (abs_of (en_objs en ! o1)) (abs_of (en_objs en'' ! o1))" if "o1 < length (en_objs en)" for o1
    using assms that unfolding leads_def by (meson order_less_le_trans rtranclp_trans)
  show "\<exists>r \<in> runs_of en. run_step\<^sup>*\<^sup>* (abs_of r) (abs_of r')" if "r' \<in> runs_of en''" for r'
    using assms that unfolding leads_def by (meson rtranclp_trans)
  show "tallied en''" if "tallied en" using assms that by (simp add: leads_def)
qed

lemma obj_in_runs: "o1 < length (en_objs en) \<Longrightarrow> en_objs en ! o1 \<in> runs_of en"
  by (simp add: runs_of_def)

lemma flights_calm: "flights_ok tk r \<Longrightarrow> calm r r' \<Longrightarrow> flights_ok tk r'"
  by (auto simp: flights_ok_def calm_def)

lemma leads_update:
  assumes en: "engine_ok en" and o1: "o1 < length (en_objs en)"
    and r': "run_step\<^sup>*\<^sup>* (abs_of (en_objs en ! o1)) (abs_of r')" "detail_ids r' = detail_ids (en_objs en ! o1)"
    and en': "en_objs en' = (en_objs en)[o1 := r']" "en_saved en' = en_saved en" "en_live en' = en_live en"
    and ticks: "ticks_ok (en_ticks en') (en_objs en')"
    and starts: "\<And>o2 i. executions o2 i en' = executions o2 i en \<or>
      o2 = o1 \<and> executions o2 i en' = Suc (executions o2 i en) \<and>
      attempt_in i (abs_of (en_objs en ! o1)) < attempt_in i (abs_of r')"
  shows "leads en en'"
  unfolding leads_def
proof (intro conjI allI impI ballI)
  have sub: "runs_of en' \<subseteq> insert r' (runs_of en)"
    using en' by (auto simp: runs_of_def dest: set_update_subset_insert[THEN subsetD])
  have "distinct (detail_ids r')" using en o1 r'(2) obj_in_runs by (auto simp: engine_ok_def)
  then show "engine_ok en'" using en sub ticks en' by (auto simp: engine_ok_def)
  show "length (en_objs en) \<le> length (en_objs en')" by (simp add: en')
  show "run_step\<^sup>*\<^sup>* (abs_of (en_objs en ! o2)) (abs_of (en_objs en' ! o2))" if "o2 < length (en_objs en)" for o2
    using r' that by (cases "o2 = o1") (auto simp: en')
  show "tallied en'" if t: "tallied en"
    unfolding tallied_def
  proof (intro allI impI)
    fix o2 i assume o2: "o2 < length (en_objs en')"
    then have le: "executions o2 i en \<le> attempt_in i (abs_of (en_objs en ! o2))"
      using t by (simp add: tallied_def en')
    show "executions o2 i en' \<le> attempt_in i (abs_of (en_objs en' ! o2))"
    proof (cases "o2 = o1")
      case True
      then show ?thesis using le starts[of o1 i] attempt_in_steps[OF r'(1), of i] o1 by (auto simp: en')
    next
      case False
      then show ?thesis using le starts[of o2 i] by (simp add: en')
    qed
  qed
  show "\<exists>r \<in> runs_of en. run_step\<^sup>*\<^sup>* (abs_of r) (abs_of x)" if "x \<in> runs_of en'" for x
  proof (cases "x = r'")
    case True
    with r' obj_in_runs[OF o1] show ?thesis by auto
  next
    case False
    with that sub show ?thesis by auto
  qed
qed

lemma ticks_calm:
  assumes "ticks_ok tks objs" and "calm (objs ! o1) r'"
  shows "ticks_ok tks (objs[o1 := r'])"
proof -
  have "flights_ok tk (objs[o1 := r'] ! tk_obj tk)" if "tk \<in> set tks" for tk
  proof (cases "tk_obj tk = o1")
    case True
    with assms that have "flights_ok tk r'" "o1 < length objs" by (auto simp: ticks_ok_def intro: flights_calm)
    with True show ?thesis by simp
  next
    case False
    with assms(1) that show ?thesis by (simp add: ticks_ok_def)
  qed
  with assms(1) show ?thesis by (simp add: ticks_ok_def)
qed

lemma leads_put:
  "engine_ok en \<Longrightarrow> o1 < length (en_objs en) \<Longrightarrow> calm (en_objs en ! o1) r' \<Longrightarrow> leads en (put_obj o1 r' en)"
  by (rule leads_update[where r' = r'])
     (auto simp: put_obj_def calm_def engine_ok_def executions_def intro: ticks_calm)

text \<open>Changes of the other fields.\<close>

lemma leads_fields:
  assumes "engine_ok en" and "en_objs en' = en_objs en" and "ticks_ok (en_ticks en') (en_objs en)"
    and "en_saved en' = en_saved en \<or> (\<exists>r \<in> runs_of en. en_saved en' = Some r)"
    and "\<And>o1. en_live en' = Some o1 \<Longrightarrow> o1 < length (en_objs en)"
    and starts: "\<And>o1. map (started_by o1) (en_ticks en') = map (started_by o1) (en_ticks en)"
  shows "leads en en'"
proof -
  have "runs_of en' \<subseteq> runs_of en" using assms(2,4) by (auto simp: runs_of_def)
  moreover have "executions o1 i en' = executions o1 i en" for o1 i by (rule same_executions[OF starts])
  ultimately show ?thesis using assms(1-5) by (auto simp: leads_def engine_ok_def tallied_def)
qed

lemma leads_save: "engine_ok en \<Longrightarrow> o1 < length (en_objs en) \<Longrightarrow> leads en (save_obj o1 en)"
  by (rule leads_fields) (auto simp: save_obj_def engine_ok_def runs_of_def)

lemma leads_forget: "engine_ok en \<Longrightarrow> o1 < length (en_objs en) \<Longrightarrow> leads en (forgetIfTerminal o1 en)"
  by (rule leads_fields) (auto simp: forgetIfTerminal_def engine_ok_def split: if_splits)

lemma leads_require:
  assumes "engine_ok en" and "requireRun en = Some (o1, en')"
  shows "leads en en' \<and> o1 < length (en_objs en')"
proof (cases "en_live en")
  case None
  with assms(2) obtain r where r: "en_saved en = Some r" "o1 = length (en_objs en)"
    "en' = en\<lparr>en_objs := en_objs en @ [r]\<rparr>"
    by (auto simp: requireRun_def split: option.splits)
  then have "runs_of en' = runs_of en" by (auto simp: runs_of_def)
  moreover have "engine_ok en'"
    unfolding engine_ok_def \<open>runs_of en' = runs_of en\<close>
    using assms(1) r None by (auto simp: engine_ok_def ticks_ok_def nth_append)
  moreover have "tallied en'" if "tallied en"
  proof -
    have "executions o2 i en' = executions o2 i en" for o2 i by (rule same_executions) (simp add: r(3))
    moreover have "executions (length (en_objs en)) i en = 0" for i
      using assms(1) by (intro no_executions[of en "en_objs en"]) (simp_all add: engine_ok_def)
    ultimately show ?thesis using that by (simp add: tallied_def r(3) nth_append less_Suc_eq)
  qed
  ultimately show ?thesis using r by (auto simp: leads_def nth_append)
next
  case (Some o2)
  with assms show ?thesis by (auto simp: requireRun_def engine_ok_def intro: leads_refl)
qed

text \<open>Changes of a tick.\<close>

lemma ticks_replace:
  assumes tks: "ticks_ok tks objs" and k: "k < length tks" and tk: "tk_obj tk = tk_obj (tks ! k)"
    and len: "length objs' = length objs"
    and others: "\<And>l. l < length tks \<Longrightarrow> l \<noteq> k \<Longrightarrow> flights_ok (tks ! l) (objs' ! tk_obj (tks ! l))"
    and own: "flights_ok tk (objs' ! tk_obj tk)" and fly: "flying tk \<subseteq> flying (tks ! k)"
  shows "ticks_ok (tks[k := tk]) objs'"
  unfolding ticks_ok_def
proof (intro conjI allI impI ballI)
  fix x assume "x \<in> set (tks[k := tk])"
  then obtain l where l: "l < length tks" "x = tks[k := tk] ! l" by (auto simp: in_set_conv_nth)
  have "tk_obj (tks ! l) < length objs" using tks l(1) by (simp add: ticks_ok_def)
  then show "tk_obj x < length objs'" using l tk len by (cases "l = k") auto
  show "flights_ok x (objs' ! tk_obj x)" using l others own by (cases "l = k") auto
next
  fix k1 k2 assume l: "k1 < k2" "k2 < length (tks[k := tk])"
    and o: "tk_obj (tks[k := tk] ! k1) = tk_obj (tks[k := tk] ! k2)"
  have "tk_obj (tks[k := tk] ! j) = tk_obj (tks ! j)" "flying (tks[k := tk] ! j) \<subseteq> flying (tks ! j)" for j
    using k tk fly by (auto simp: nth_list_update)
  moreover have "flying (tks ! k1) \<inter> flying (tks ! k2) = {}"
    using tks l o calculation(1) by (auto simp: ticks_ok_def)
  ultimately show "flying (tks[k := tk] ! k1) \<inter> flying (tks[k := tk] ! k2) = {}" by blast
qed

lemma ticks_append:
  assumes "ticks_ok tks objs" and "tk_obj tk < length objs" and "flights_ok tk (objs ! tk_obj tk)"
    and "\<And>x. x \<in> set tks \<Longrightarrow> tk_obj x = tk_obj tk \<Longrightarrow> flying x \<inter> flying tk = {}"
  shows "ticks_ok (tks @ [tk]) objs"
  using assms unfolding ticks_ok_def by (auto simp: nth_append less_Suc_eq)

section \<open>The operations\<close>

text \<open>A tick that is replaced by one for the same object and nodes.\<close>

lemma same_starts:
  assumes "tk_obj tk = tk_obj (tks ! k)" and "map fst (tk_flights tk) = map fst (tk_flights (tks ! k))"
  shows "map (started_by o1) (tks[k := tk]) = map (started_by o1) tks"
proof (cases "k < length tks")
  case True
  then show ?thesis using assms by (simp add: map_update started_by_def list_update_same_conv)
qed (simp add: list_update_beyond)

lemma count_distinct: "distinct xs \<Longrightarrow> count_list xs x = (if x \<in> set xs then 1 else 0)"
  by (induction xs) auto

lemma leads_step:
  "leads en0 en \<Longrightarrow> (engine_ok en \<Longrightarrow> leads en en') \<Longrightarrow> leads en0 en'"
  by (blast intro: leads_trans leads_ok)

lemma objs_length [simp]:
  "length (en_objs (put_obj o1 r en)) = length (en_objs en)"
  "en_objs (save_obj o1 en) = en_objs en" "en_objs (forgetIfTerminal o1 en) = en_objs en"
  by (simp_all add: put_obj_def save_obj_def forgetIfTerminal_def)

lemma put_same [simp]: "o1 < length (en_objs en) \<Longrightarrow> en_objs (put_obj o1 r en) ! o1 = r"
  by (simp add: put_obj_def)

lemma finish_leads:
  assumes "engine_ok en" and "o1 < length (en_objs en)"
  shows "leads en (finish_advance now o1 en)"
  unfolding finish_advance_def
  by (rule leads_step[OF leads_step[OF leads_put[OF assms calm_same] leads_save] leads_forget])
     (use assms in simp_all)

lemma advance_leads:
  assumes en: "engine_ok en" and o1: "o1 < length (en_objs en)"
  shows "leads en (advance cfg now o1 left en)"
proof -
  define r where "r = en_objs en ! o1"
  define r1 where "r1 = refreshNodeReadiness r"
  have dist: "distinct (detail_ids r)" using en obj_in_runs[OF o1] by (simp add: engine_ok_def r_def)
  have c1: "calm r r1" unfolding r1_def by (rule refresh_calm[OF dist])
  have dist1: "distinct (detail_ids r1)" using c1 dist by (simp add: calm_def)
  consider "left = 0 \<or> \<not> canAdvanceNodes (wr_state r)"
    | "\<not> (left = 0 \<or> \<not> canAdvanceNodes (wr_state r))" "getReadyNodes r1 = []"
    | "\<not> (left = 0 \<or> \<not> canAdvanceNodes (wr_state r))" "getReadyNodes r1 \<noteq> []" by blast
  then show ?thesis
  proof cases
    case 1
    then show ?thesis using finish_leads[OF en o1] by (simp add: advance_def r_def)
  next
    case 2
    then have "advance cfg now o1 left en = finish_advance now o1 (put_obj o1 (recomputeRunState now r1) en)"
      by (simp add: advance_def r_def r1_def Let_def)
    moreover have "calm r (recomputeRunState now r1)" using c1 recompute_calm[OF dist1] by (rule calm_trans)
    ultimately show ?thesis
      using leads_step[OF leads_put[OF en o1, folded r_def] finish_leads] o1 by simp
  next
    case 3
    obtain r2 fs where s: "start_nodes cfg now (getReadyNodes r1) r1 = (r2, fs)" by fastforce
    let ?tk = "\<lparr>tk_obj = o1, tk_flights = fs, tk_aborted = False, tk_left = left - 1, tk_over = False\<rparr>"
    have a: "advance cfg now o1 left en =
        (put_obj o1 r2 en)\<lparr>en_ticks := en_ticks en @ [?tk], en_running := Some (length (en_ticks en))\<rparr>"
      using 3 s by (simp add: advance_def r_def r1_def Let_def)
    have st: "\<not> stopping (wr_state r1)"
      using 3(1) by (cases "wr_state r") (auto simp: r1_def refreshNodeReadiness_def stopping_def canAdvanceNodes_def)
    note ready = ready_nodes[OF dist1]
    from start_nodes_step[OF ready(1) _ st s] ready(2)
    have steps: "run_step\<^sup>*\<^sup>* (abs_of r1) (abs_of r2)" "detail_ids r2 = detail_ids r1" "map fst fs = getReadyNodes r1"
      "\<And>j. j \<notin> set (getReadyNodes r1) \<Longrightarrow> node_state_of j r2 = node_state_of j r1 \<or> node_state_of j r1 = Some N_pending"
      "\<forall>(i, f) \<in> set fs. flight_fits r2 i f"
      "\<forall>i \<in> set (getReadyNodes r1). attempt_in i (abs_of r1) < attempt_in i (abs_of r2)" by auto
    have "calm r1 r2" by (rule start_nodes_calm[OF _ steps(1,2,4)]) (use ready(2) in auto)
    with c1 have c2: "calm r r2" by (rule calm_trans)
    have tks: "ticks_ok (en_ticks en) ((en_objs en)[o1 := x])" if "calm r x" for x
      using en that by (auto simp: engine_ok_def r_def intro: ticks_calm)
    have "ticks_ok (en_ticks en @ [?tk]) ((en_objs en)[o1 := r2])"
    proof (rule ticks_append[OF tks[OF c2]])
      show "tk_obj ?tk < length ((en_objs en)[o1 := r2])" using o1 by simp
      show "flights_ok ?tk ((en_objs en)[o1 := r2] ! tk_obj ?tk)"
        using steps(3,5) ready(1) o1 by (simp add: flights_ok_def)
      fix x assume x: "x \<in> set (en_ticks en)" "tk_obj x = tk_obj ?tk"
      show "flying x \<inter> flying ?tk = {}"
      proof (rule ccontr)
        assume "flying x \<inter> flying ?tk \<noteq> {}"
        then obtain i a where i: "(i, In_flight a) \<in> set (tk_flights x)" "i \<in> set (map fst fs)"
          by (force simp: flying_def)
        have "flights_ok x r1" using tks[OF c1] x o1 by (auto simp: ticks_ok_def)
        with i(1) obtain n where "fits n a r1" "wn_id n = i" by (force simp: flights_ok_def flight_fits_def)
        then show False using i(2) ready(2)[of i] fits_busy[of n a r1] steps(3) by auto
      qed
    qed
    moreover have "count_list (map fst fs) i = (if i \<in> set (getReadyNodes r1) then 1 else 0)" for i
      unfolding steps(3) using ready(1) by (rule count_distinct)
    moreover have "attempt_in i (abs_of r) \<le> attempt_in i (abs_of r1)" for i
      using c1 by (intro attempt_in_steps) (simp add: calm_def)
    ultimately show ?thesis
      unfolding a using c2 steps(6)
      by (intro leads_update[OF en o1, of r2])
         (auto simp: put_obj_def calm_def r_def executions_def started_by_def intro: le_less_trans)
  qed
qed

lemma answer_cases:
  obtains a n where "k < length (en_ticks en)" "map_of (tk_flights (en_ticks en ! k)) i = Some (In_flight a)"
      "find_node i (wr_nodes (en_objs en ! tk_obj (en_ticks en ! k))) = Some n"
    | "answer_node now k i reply en = en"
proof (cases "k < length (en_ticks en)")
  case k: True
  show thesis
  proof (cases "map_of (tk_flights (en_ticks en ! k)) i")
    case None
    with that(2) show thesis by (simp add: answer_node_def Let_def)
  next
    case (Some f)
    show thesis
      by (cases f; cases "find_node i (wr_nodes (en_objs en ! tk_obj (en_ticks en ! k)))")
         (use that k Some in \<open>simp_all add: answer_node_def Let_def\<close>)
  qed
qed (use that(2) in \<open>simp add: answer_node_def\<close>)

lemma answer_leads:
  assumes en: "engine_ok en"
  shows "leads en (answer_node now k i reply en)"
proof -
  let ?tk = "en_ticks en ! k" and ?r = "en_objs en ! tk_obj (en_ticks en ! k)"
  show ?thesis
  proof (cases rule: answer_cases[where k = k and en = en and i = i and now = now and reply = reply])
    case (1 a n)
    obtain r' f where c: "settle_segment n (tk_aborted ?tk) now (continue_node n (tk_aborted ?tk) now a reply ?r) = (r', f)"
      by fastforce
    let ?new = "?tk\<lparr>tk_flights := map (\<lambda>(j, g). (j, if j = i then f else g)) (tk_flights ?tk)\<rparr>"
    have ans: "answer_node now k i reply en = (put_obj (tk_obj ?tk) r' en)\<lparr>en_ticks := (en_ticks en)[k := ?new]\<rparr>"
      using 1 c by (simp add: answer_node_def Let_def)
    have tk: "ticks_ok (en_ticks en) (en_objs en)" "tk_obj ?tk < length (en_objs en)" "flights_ok ?tk ?r"
      using en 1(1) by (auto simp: engine_ok_def ticks_ok_def)
    have mine: "(i, In_flight a) \<in> set (tk_flights ?tk)" using 1(2) by (rule map_of_SomeD)
    then have "flight_fits ?r i (In_flight a)" using tk(3) by (auto simp: flights_ok_def)
    from answer_step[OF this 1(3) c] have ev: "evolves i ?r r'" and f: "flight_fits r' i f" by simp_all
    have other: "flight_fits r' j g" if j: "flight_fits ?r j g" "j \<noteq> i" for j g
    proof (cases g)
      case (In_flight b)
      then obtain m where m: "fits m b ?r" "wn_id m = j" using j(1) by (auto simp: flight_fits_def)
      then obtain s where "node_state_of j ?r = Some s" "busy_state s" using fits_busy by (auto simp: fits_def)
      then have "node_state_of j r' = node_state_of j ?r" using ev j(2) by (auto simp: evolves_def)
      then show ?thesis by (rule flight_cong[OF j(1) _ evolves_nodes[OF ev]])
    qed simp
    have new: "flights_ok ?new r'"
      using tk(3) f other by (auto simp: flights_ok_def comp_def case_prod_unfold)
    have fly: "flying ?new \<subseteq> flying ?tk" using mine by (auto simp: flying_def split: if_splits)
    have rest: "flights_ok (en_ticks en ! l) ((en_objs en)[tk_obj ?tk := r'] ! tk_obj (en_ticks en ! l))"
      if l: "l < length (en_ticks en)" "l \<noteq> k" for l
    proof (cases "tk_obj (en_ticks en ! l) = tk_obj ?tk")
      case True
      have "flying ?tk \<inter> flying (en_ticks en ! l) = {}"
        using tk(1) l 1(1) True unfolding ticks_ok_def by (metis Int_commute linorder_neqE_nat)
      with mine have "i \<notin> flying (en_ticks en ! l)" by (auto simp: flying_def)
      moreover have ok: "flights_ok (en_ticks en ! l) ?r" using tk(1) l(1) True unfolding ticks_ok_def by (metis nth_mem)
      ultimately have "flight_fits r' j g" if "(j, g) \<in> set (tk_flights (en_ticks en ! l))" for j g
        using that other[of j g] by (cases g) (auto simp: flights_ok_def flying_def)
      with ok True tk(2) show ?thesis by (auto simp: flights_ok_def)
    next
      case False
      with tk(1) l(1) show ?thesis by (simp add: ticks_ok_def)
    qed
    have "ticks_ok ((en_ticks en)[k := ?new]) ((en_objs en)[tk_obj ?tk := r'])"
      by (rule ticks_replace[OF tk(1) 1(1) _ _ rest _ fly]) (use new tk(2) in simp_all)
    moreover have "map (started_by o2) ((en_ticks en)[k := ?new]) = map (started_by o2) (en_ticks en)" for o2
      by (rule same_starts) (simp_all add: comp_def case_prod_unfold)
    ultimately show ?thesis
      unfolding ans using ev
      by (intro leads_update[OF en tk(2), of r']) (simp_all add: put_obj_def evolves_def executions_def)
  qed (use leads_refl[OF en] in simp)
qed

lemma quiet_fold: "abs_of (fold (\<lambda>e. push_error i (f e)) es r) = abs_of r"
    "detail_ids (fold (\<lambda>e. push_error i (f e)) es r) = detail_ids r"
  by (induction es arbitrary: r) simp_all

lemma end_tick_leads:
  assumes en: "engine_ok en"
  shows "leads en (end_tick cfg now k en)"
proof (cases "k < length (en_ticks en) \<and> tick_settled (en_ticks en ! k)")
  case True
  define tk where "tk = en_ticks en ! k"
  define r1 where "r1 = recomputeRunState now
      (fold (\<lambda>e. push_error ''engine'' (Thrown e)) (rejections tk) (en_objs en ! tk_obj tk))"
  define en0 where "en0 = put_obj (tk_obj tk) r1 en"
  define en1 where "en1 = en0\<lparr>en_ticks := (en_ticks en)[k := tk\<lparr>tk_over := True\<rparr>], en_running := None\<rparr>"
  have ok: "ticks_ok (en_ticks en) (en_objs en)" and o1: "tk_obj tk < length (en_objs en)"
    using en True by (auto simp: engine_ok_def ticks_ok_def tk_def)
  have "distinct (detail_ids (en_objs en ! tk_obj tk))" using en obj_in_runs[OF o1] by (simp add: engine_ok_def)
  then have "calm (en_objs en ! tk_obj tk) r1"
    unfolding r1_def by (intro calm_trans[OF calm_same recompute_calm]) (simp_all add: quiet_fold)
  then have l0: "leads en en0" unfolding en0_def by (rule leads_put[OF en o1])
  have ok0: "ticks_ok (en_ticks en) (en_objs en0)"
    using leads_ok[OF l0] by (simp add: engine_ok_def en0_def put_obj_def)
  have "ticks_ok ((en_ticks en)[k := tk\<lparr>tk_over := True\<rparr>]) (en_objs en0)"
    by (rule ticks_replace[OF ok0])
       (use ok0 True in \<open>auto simp: tk_def ticks_ok_def flights_ok_def flying_def\<close>)
  moreover have "map (started_by o2) ((en_ticks en)[k := tk\<lparr>tk_over := True\<rparr>]) = map (started_by o2) (en_ticks en0)" for o2
    unfolding en0_def put_obj_def by (simp add: same_starts tk_def)
  ultimately have l1: "leads en en1"
    using l0 leads_ok[OF l0]
    by (elim leads_step, intro leads_fields) (auto simp: en1_def engine_ok_def)
  have o2: "tk_obj tk < length (en_objs en1)" using leads_length[OF l1 o1] .
  have "end_tick cfg now k en = (if canAcceptHumanInput (wr_state r1)
      then finish_advance now (tk_obj tk) (save_obj (tk_obj tk) en1) else advance cfg now (tk_obj tk) (tk_left tk) en1)"
    using True by (simp add: end_tick_def Let_def tk_def r1_def en1_def en0_def)
  then show ?thesis
    using leads_step[OF leads_step[OF l1 leads_save] finish_leads] leads_step[OF l1 advance_leads] o2 by simp
next
  case False
  then have "end_tick cfg now k en = en" unfolding end_tick_def by (rule if_not_P)
  with leads_refl[OF en] show ?thesis by simp
qed

subsection \<open>Control verbs\<close>

lemma run_event_calm:
  assumes "fire_run e r = Finished r'" and "e \<noteq> RE_cancel \<or> wr_state r = W_cancelling"
  shows "calm r r'"
proof -
  obtain s where s: "applyRunEvent (wr_state r) e = Inr s" "r' = r\<lparr>wr_state := s\<rparr>"
    using assms(1) by (auto simp: fire_run_def split: sum.splits)
  have "run_step (abs_of r) (abs_of (r\<lparr>wr_state := s\<rparr>))"
    unfolding abs_fields
  proof (rule S_run)
    show "a_state (abs_of r) \<noteq> W_cancelled" using s(1) by (cases e) auto
    show "s = W_cancelled \<longrightarrow> a_state (abs_of r) = W_cancelling"
      using s(1) assms(2) by (cases "wr_state r"; cases e) auto
  qed
  then show ?thesis unfolding s(2) by (intro calm_state r_into_rtranclp)
qed

lemma fire_run_no_wait: "fire_run e r \<noteq> Waits a r'"
  by (simp add: fire_run_def split: sum.splits)

lemma transition_leads:
  assumes en: "engine_ok en" and o1: "o1 < length (en_objs en)" and e: "e \<noteq> RE_cancel"
  shows "leads en (snd (applyRunTransition now e o1 en))"
proof (cases "fire_run e (en_objs en ! o1)")
  case (Finished r)
  have "calm (en_objs en ! o1) r" using run_event_calm[OF Finished] e by simp
  moreover have "calm r (r\<lparr>wr_updatedAt := now\<rparr>)" by (rule calm_same) simp_all
  ultimately have "calm (en_objs en ! o1) (r\<lparr>wr_updatedAt := now\<rparr>)" by (rule calm_trans)
  from leads_step[OF leads_put[OF en o1 this] leads_save] o1 show ?thesis
    by (simp add: applyRunTransition_def Finished)
qed (use leads_refl[OF en] in \<open>simp_all add: applyRunTransition_def fire_run_no_wait\<close>)

lemma with_run_leads:
  assumes en: "engine_ok en"
    and "\<And>o1 en'. engine_ok en' \<Longrightarrow> o1 < length (en_objs en') \<Longrightarrow> leads en' (snd (f o1 en'))"
  shows "leads en (snd (with_run en f))"
proof (cases "requireRun en")
  case None
  then show ?thesis using leads_refl[OF en] by (simp add: with_run_def)
next
  case (Some p)
  obtain o1 en' where p: "requireRun en = Some (o1, en')" using Some by (cases p) simp
  from leads_require[OF en p] have "leads en en'" "o1 < length (en_objs en')" by simp_all
  then show ?thesis using assms(2)[of en' o1] leads_ok by (auto simp: with_run_def p intro: leads_trans)
qed

lemma pause_leads: "engine_ok en \<Longrightarrow> leads en (snd (pauseRun now en))"
  unfolding pauseRun_def Let_def by (rule with_run_leads) (auto intro: transition_leads leads_refl)

lemma transition_then_advance:
  assumes "engine_ok en" and "o1 < length (en_objs en)" and "e \<noteq> RE_cancel"
  shows "leads en (snd (case applyRunTransition now e o1 en of
     (Inl x, en) \<Rightarrow> (Inl x, en) | (Inr _, en) \<Rightarrow> (Inr (), advanceRun cfg now o1 en)))"
proof -
  obtain x en' where c: "applyRunTransition now e o1 en = (x, en')" by fastforce
  from transition_leads[OF assms, of now] c have l: "leads en en'" by simp
  from leads_step[OF l advance_leads] leads_length[OF l assms(2)] l c show ?thesis
    by (simp add: advanceRun_def split: sum.split)
qed

lemma resume_leads: "engine_ok en \<Longrightarrow> leads en (snd (resumeRun cfg now en))"
  unfolding resumeRun_def Let_def
  by (rule with_run_leads) (auto intro: transition_then_advance leads_refl)

lemma execute_leads:
  assumes "engine_ok en"
  shows "leads en (snd (executeRun cfg now en))"
  unfolding executeRun_def Let_def
proof (rule with_run_leads[OF assms])
  fix o1 en assume en: "engine_ok en" and o1: "o1 < length (en_objs en)"
  let ?r = "en_objs en ! o1"
  let ?en = "put_obj o1 (?r\<lparr>wr_startedAt := Some (nullish (wr_startedAt ?r) now)\<rparr>) en"
  have l: "leads en ?en" by (intro leads_put[OF en o1] calm_same) simp_all
  show "leads en (snd (if wr_state ?r = W_queued
      then case applyRunTransition now RE_start o1 ?en of
             (Inl x, en) \<Rightarrow> (Inl x, en) | (Inr _, en) \<Rightarrow> (Inr (), advanceRun cfg now o1 en)
      else (Inr (), advanceRun cfg now o1 en)))"
    using leads_step[OF l transition_then_advance] o1 advance_leads[OF en o1]
    by (simp add: advanceRun_def)
qed

lemma transition_state:
  "applyRunTransition now e o1 en = (Inr u, en') \<Longrightarrow> o1 < length (en_objs en) \<Longrightarrow>
     RUN_EVENT_MAP (wr_state (en_objs en ! o1)) e = Some (wr_state (en_objs en' ! o1))"
  by (auto simp: applyRunTransition_def fire_run_def applyRunEvent_def split: segment.splits sum.splits option.splits if_splits)

lemma request_cancel_target: "RUN_EVENT_MAP s RE_request_cancel = Some s' \<Longrightarrow> s' = W_cancelling"
  by (cases s) auto

lemma leads_abort:
  assumes "engine_ok en"
  shows "leads en (en\<lparr>en_ticks := (en_ticks en)[k := (en_ticks en ! k)\<lparr>tk_aborted := True\<rparr>]\<rparr>)"
proof (rule leads_fields[OF assms])
  have ok: "ticks_ok (en_ticks en) (en_objs en)" using assms by (simp add: engine_ok_def)
  show "ticks_ok (en_ticks (en\<lparr>en_ticks := (en_ticks en)[k := (en_ticks en ! k)\<lparr>tk_aborted := True\<rparr>]\<rparr>)) (en_objs en)"
  proof (cases "k < length (en_ticks en)")
    case True
    have "ticks_ok ((en_ticks en)[k := (en_ticks en ! k)\<lparr>tk_aborted := True\<rparr>]) (en_objs en)"
      by (rule ticks_replace[OF ok True]) (use ok True in \<open>auto simp: ticks_ok_def flights_ok_def flying_def\<close>)
    then show ?thesis by simp
  next
    case False
    with ok show ?thesis by (simp add: list_update_beyond)
  qed
qed (use assms in \<open>auto simp: engine_ok_def same_starts\<close>)

text \<open>The nodes of a run that is being cancelled, and the last event.\<close>

definition cancelled_run :: "int \<Rightarrow> workflow_run \<Rightarrow> workflow_run" where
  "cancelled_run now r =
     (let r2 = result_run (fire_run RE_cancel (cancel_details (\<lambda>s. s \<notin> set KEPT_ON_CANCEL) r))
      in (if wr_state r2 = W_cancelled then r2\<lparr>wr_endedAt := Some now\<rparr> else r2)\<lparr>wr_updatedAt := now\<rparr>)"

lemma cancelled_run_calm:
  assumes "distinct (detail_ids r)" and st: "wr_state r = W_cancelling"
  shows "calm r (cancelled_run now r)"
proof -
  let ?r1 = "cancel_details (\<lambda>s. s \<notin> set KEPT_ON_CANCEL) r"
  let ?r2 = "result_run (fire_run RE_cancel ?r1)"
  have c1: "calm r ?r1" using assms(1) by (rule cancel_details_calm) (simp add: st stopping_def)
  have c2: "calm ?r1 ?r2"
  proof (cases "fire_run RE_cancel ?r1")
    case (Finished r)
    with run_event_calm[OF Finished] st show ?thesis by (simp add: cancel_details_def)
  next
    case (Threw e r)
    then have "r = ?r1" by (auto simp: fire_run_def split: sum.splits)
    with Threw show ?thesis by simp
  qed (simp add: fire_run_no_wait)
  have c3: "calm ?r2 (cancelled_run now r)"
    unfolding cancelled_run_def Let_def by (rule calm_same) simp_all
  show ?thesis by (rule calm_trans[OF c1 calm_trans[OF c2 c3]])
qed

lemma cancel_leads:
  assumes "engine_ok en"
  shows "leads en (snd (cancelRun now en))"
  unfolding cancelRun_def Let_def cancelled_run_def[unfolded Let_def, symmetric]
proof (rule with_run_leads[OF assms], goal_cases)
  case (1 o1 en)
  note en = 1(1) and o1 = 1(2)
  obtain x en' where c: "applyRunTransition now RE_request_cancel o1 en = (x, en')" by fastforce
  have l: "leads en en'" using transition_leads[OF en o1, of RE_request_cancel now] c by simp
  have o2: "o1 < length (en_objs en')" using leads_length[OF l o1] .
  show ?case
  proof (cases x)
    case (Inl e)
    then show ?thesis using leads_refl[OF en] l c by simp
  next
    case (Inr u)
    have st: "wr_state (en_objs en' ! o1) = W_cancelling"
      using transition_state[OF _ o1] c Inr request_cancel_target by blast
    have "distinct (detail_ids (en_objs en' ! o1))"
      using leads_ok[OF l] obj_in_runs[OF o2] by (simp add: engine_ok_def)
    from cancelled_run_calm[OF this st] have "calm (en_objs en' ! o1) (cancelled_run now (en_objs en' ! o1))" .
    from leads_step[OF leads_step[OF l leads_put[OF _ o2 this]] leads_save] o2
    have s: "leads en (save_obj o1 (put_obj o1 (cancelled_run now (en_objs en' ! o1)) en'))" by simp
    show ?thesis
      using leads_refl[OF en] leads_step[OF s leads_forget, of o1] leads_step[OF s leads_abort] o2 c Inr
      by (simp split: option.split)
  qed
qed

subsection \<open>Decisions\<close>

lemma waiting_cannot_complete:
  assumes "node_state_of i r = Some N_waiting_approval \<or> node_state_of i r = Some N_waiting_review"
  shows "complete_with i x r =
    Threw (State_error (InvalidNodeTransition (the (node_state_of i r)) NE_complete i)) r"
  using assms by (auto simp: complete_with_def fire_at)

lemma seg_decision:
  assumes own: "owned n r" and d: "(wn_id n, d) \<in> set (a_decisions (abs_of r))"
    and w: "node_state_of (wn_id n) r = Some N_waiting_approval \<or> node_state_of (wn_id n) r = Some N_waiting_review"
  shows "seg_ev n r (apply_decision n d who r)"
proof (cases d)
  case D_approve
  have "seg_ev n r (and_then (fire (wn_id n) NE_start r) (\<lambda>r. and_then (fire (wn_id n) NE_complete r)
      (\<lambda>r. fire_run RE_resume (set_outputs (wn_id n) (O_approved who) r))))"
  proof (rule seg_and_then)
    show "seg_ev n r (fire (wn_id n) NE_start r)" by (rule seg_fire[OF ev_refl]) simp
    fix r' assume ev: "ev n r r'"
    with own d D_approve have "event_allowed (abs_of r') n NE_complete"
      by (auto simp: event_allowed_def ev_def evolves_def)
    from seg_fire[OF ev this]
    show "seg_ev n r (and_then (fire (wn_id n) NE_complete r')
        (\<lambda>r. fire_run RE_resume (set_outputs (wn_id n) (O_approved who) r)))"
      by (rule seg_and_then) (intro seg_fire_run ev_quiet, simp_all)
  qed
  then show ?thesis by (simp add: apply_decision_def Let_def D_approve)
next
  case (D_deny why)
  then show ?thesis
    unfolding apply_decision_def Let_def decision.case
    by simp (intro seg_and_then seg_fail_node ev_refl seg_fire_run, auto split: node_kind.splits option.splits denial_action.splits)
next
  case D_review_approve
  with w show ?thesis by (auto simp: apply_decision_def Let_def waiting_cannot_complete)
next
  case (D_changes what)
  then show ?thesis
    unfolding apply_decision_def Let_def by simp (intro seg_and_then seg_fail_node ev_refl seg_fire_run, simp_all)
next
  case (D_reject why)
  then show ?thesis
    unfolding apply_decision_def Let_def by simp (intro seg_and_then seg_fail_node ev_refl seg_fire_run, simp_all)
next
  case D_expired
  then show ?thesis
    unfolding apply_decision_def Let_def by simp (intro seg_and_then seg_fire ev_refl seg_fire_run, simp_all)
qed

lemma decision_calm:
  assumes n: "find_node i (wr_nodes r) = Some n" and h: "hd_nodeId h = i" "hd_decision h = d"
    and st: "canAcceptHumanInput (wr_state r)"
    and w: "node_state_of i r = Some N_waiting_approval \<or> node_state_of i r = Some N_waiting_review"
    and r2: "r2 = result_run (apply_decision n d who (r\<lparr>wr_decisions := wr_decisions r @ [h]\<rparr>))"
  shows "calm r r2" and "a_decisions (abs_of r2) = a_decisions (abs_of r) @ [(i, d)]"
proof -
  define r1 where "r1 = r\<lparr>wr_decisions := wr_decisions r @ [h]\<rparr>"
  have i: "wn_id n = i" using find_node_id[OF n] by simp
  have s1: "node_state_of j r1 = node_state_of j r" for j by (simp add: r1_def)
  have a1: "abs_of r1 = (abs_of r)\<lparr>a_decisions := a_decisions (abs_of r) @ [(i, d)]\<rparr>"
    using h by (simp add: abs_of_def r1_def detail_def)
  obtain s k where "a_node (abs_of r) i = Some (s, k)" "s = N_waiting_approval \<or> s = N_waiting_review"
    using w by (auto simp: node_state_of_def)
  then have "run_step (abs_of r) (abs_of r1)" unfolding a1 using st by (intro S_decide) auto
  then have c1: "calm r r1" by (auto simp: calm_def r1_def intro: flight_cong)
  have own: "owned n r1" using n i w by (auto simp: owned_def s1) (auto simp: r1_def)
  have ev: "ev n r1 r2" unfolding r2 r1_def[symmetric]
    by (rule seg_decision[OF own]) (use i w in \<open>simp_all add: a1 s1 del: abs_sel\<close>)
  then have e: "evolves i r1 r2" and own2: "owned n r2" using own i by (auto simp: ev_def)
  show "a_decisions (abs_of r2) = a_decisions (abs_of r) @ [(i, d)]"
    using e by (simp add: evolves_def a1 del: abs_sel)
  have "calm r1 r2"
    unfolding calm_def
  proof (intro conjI allI impI)
    show "run_step\<^sup>*\<^sup>* (abs_of r1) (abs_of r2)" "detail_ids r2 = detail_ids r1" using e by (simp_all add: evolves_def)
    fix j f assume f: "flight_fits r1 j f"
    show "flight_fits r2 j f"
    proof (cases f)
      case (In_flight a)
      with f obtain m where m: "find_node j (wr_nodes r1) = Some m" "wn_id m = j" "fits m a r1"
        by (auto simp: flight_fits_def)
      obtain t where t: "node_state_of j r1 = Some t" "wait_fits (wn_kind m) a t" using m by (auto simp: fits_def)
      show ?thesis
      proof (cases "j = i")
        case False
        then have "node_state_of j r2 = node_state_of j r1"
          using e t fits_busy[OF m(3)] m(2) by (auto simp: evolves_def)
        then show ?thesis by (rule flight_cong[OF f _ evolves_nodes[OF e]])
      next
        case True
        have "m = n" using m(1) n True by (simp add: r1_def)
        obtain t' where t': "node_state_of i r2 = Some t'" "busy_state t'"
          using same_ids[of r2 r1 i t] e own2 t(1) True i by (auto simp: evolves_def owned_def)
        have "wait_fits (wn_kind n) a t'"
          using t w t' True s1 \<open>m = n\<close> by (cases a) auto
        with t' m n i True \<open>m = n\<close> show ?thesis
          by (auto simp: flight_fits_def fits_def In_flight evolves_nodes[OF e])
      qed
    qed simp
  qed
  with c1 show "calm r r2" by (rule calm_trans)
qed

lemma find_details_id: "detail i r = Some nd \<Longrightarrow> nd_id nd = i"
  using detail_id by simp

lemma decision_saved_calm:
  assumes n: "find_node i (wr_nodes r) = Some n" and h: "hd_nodeId h = i" "hd_decision h = d"
    and st: "canAcceptHumanInput (wr_state r)"
    and w: "node_state_of i r = Some N_waiting_approval \<or> node_state_of i r = Some N_waiting_review"
    and r2: "r2 = result_run (apply_decision n d who (r\<lparr>wr_decisions := wr_decisions r @ [h]\<rparr>))"
  shows "calm r ((upd_detail i (\<lambda>x. x\<lparr>nd_decisionRef := Some hid\<rparr>) r2)
      \<lparr>wr_decisions := wr_decisions r @ [h\<lparr>hd_resulting := s\<rparr>], wr_updatedAt := now\<rparr>)"
proof (rule calm_trans[OF decision_calm(1)[OF assms] calm_same])
  have set_decisions: "abs_of (x\<lparr>wr_decisions := ds\<rparr>) = (abs_of x)\<lparr>a_decisions := map (\<lambda>h. (hd_nodeId h, hd_decision h)) ds\<rparr>"
    for x ds by (simp add: abs_of_def)
  have "(abs_of r2)\<lparr>a_decisions := a_decisions (abs_of r) @ [(i, d)]\<rparr> = abs_of r2"
    using decision_calm(2)[OF assms] by (simp add: abs_of_def)
  then show "abs_of ((upd_detail i (\<lambda>x. x\<lparr>nd_decisionRef := Some hid\<rparr>) r2)
      \<lparr>wr_decisions := wr_decisions r @ [h\<lparr>hd_resulting := s\<rparr>], wr_updatedAt := now\<rparr>) = abs_of r2"
    using h by (simp add: set_decisions abs_quiet)
qed simp

lemma decide_leads:
  assumes "engine_ok en"
  shows "leads en (snd (submitHumanDecision cfg now hid i d who en))"
  unfolding submitHumanDecision_def Let_def
proof (rule with_run_leads[OF assms], goal_cases)
  case (1 o1 en)
  note en = 1(1) and o1 = 1(2)
  let ?r = "en_objs en ! o1"
  show ?case
  proof (cases "canAcceptHumanInput (wr_state ?r) \<and>
      (\<exists>nd n. detail i ?r = Some nd \<and> (nd_state nd = N_waiting_approval \<or> nd_state nd = N_waiting_review) \<and>
        find_node i (wr_nodes ?r) = Some n)")
    case False
    then show ?thesis using leads_refl[OF en] by (auto split: option.splits)
  next
    case True
    then obtain nd n where t: "canAcceptHumanInput (wr_state ?r)" "detail i ?r = Some nd"
      "nd_state nd = N_waiting_approval \<or> nd_state nd = N_waiting_review" "find_node i (wr_nodes ?r) = Some n" by blast
    let ?h = "make_decision now hid n nd d who (wr_state ?r)"
    let ?s = "apply_decision n d who (?r\<lparr>wr_decisions := wr_decisions ?r @ [?h]\<rparr>)"
    let ?r3 = "(upd_detail i (\<lambda>x. x\<lparr>nd_decisionRef := Some hid\<rparr>) (result_run ?s))
        \<lparr>wr_decisions := wr_decisions ?r @ [?h\<lparr>hd_resulting := wr_state (result_run ?s)\<rparr>], wr_updatedAt := now\<rparr>"
    have h: "hd_nodeId ?h = i" "hd_decision ?h = d" using find_details_id[OF t(2)] by (simp_all add: make_decision_def)
    have w: "node_state_of i ?r = Some N_waiting_approval \<or> node_state_of i ?r = Some N_waiting_review"
      using t(2,3) by (simp add: node_state_of_def)
    note c = decision_calm(1)[OF t(4) h t(1) w refl] decision_saved_calm[OF t(4) h t(1) w refl]
    have l: "leads en (put_obj o1 (result_run ?s) en)" "leads en (put_obj o1 ?r3 en)"
      using c by (intro leads_put[OF en o1]; simp)+
    have s: "leads en (save_obj o1 (put_obj o1 ?r3 en))" using leads_step[OF l(2) leads_save] o1 by simp
    from leads_step[OF s advance_leads] leads_step[OF s leads_forget] o1 l(1) t show ?thesis
      by (cases ?s) (auto simp: advanceRun_def)
  qed
qed

section \<open>Runs of the engine\<close>

lemma op_leads:
  assumes "engine_ok en" and "op \<noteq> Op_restart"
  shows "leads en (apply_engine_op cfg op en)"
  using assms
  by (cases op) (auto intro: execute_leads decide_leads pause_leads resume_leads cancel_leads answer_leads end_tick_leads)

lemma restart_ok: "engine_ok en \<Longrightarrow> engine_ok (restart en)"
  and restart_runs: "runs_of (restart en) \<subseteq> runs_of en"
  by (auto simp: restart_def engine_ok_def runs_of_def ticks_ok_def)

lemma op_ok: "engine_ok en \<Longrightarrow> engine_ok (apply_engine_op cfg op en)"
  by (cases "op = Op_restart") (auto intro: restart_ok leads_ok op_leads)

lemma op_runs:
  assumes "engine_ok en" and "r' \<in> runs_of (apply_engine_op cfg op en)"
  shows "\<exists>r \<in> runs_of en. run_step\<^sup>*\<^sup>* (abs_of r) (abs_of r')"
proof (cases "op = Op_restart")
  case True
  with assms(2) restart_runs show ?thesis by auto
next
  case False
  from op_leads[OF assms(1) False] assms(2) show ?thesis by (auto simp: leads_def)
qed

definition engine_after :: "engine_config \<Rightarrow> engine_op list \<Rightarrow> engine \<Rightarrow> engine" where
  "engine_after cfg ops en = fold (apply_engine_op cfg) ops en"

lemma after_simps [simp]:
  "engine_after cfg [] en = en"
  "engine_after cfg (op # ops) en = engine_after cfg ops (apply_engine_op cfg op en)"
  by (simp_all add: engine_after_def)

lemma after_ok: "engine_ok en \<Longrightarrow> engine_ok (engine_after cfg ops en)"
  by (induction ops arbitrary: en) (auto intro: op_ok)

lemma after_leads: "engine_ok en \<Longrightarrow> Op_restart \<notin> set ops \<Longrightarrow> leads en (engine_after cfg ops en)"
proof (induction ops arbitrary: en)
  case (Cons op ops)
  from Cons.prems have l: "leads en (apply_engine_op cfg op en)" by (intro op_leads) auto
  with Cons show ?case by (auto intro: leads_trans leads_ok)
qed (simp add: leads_refl)

lemma after_runs:
  "engine_ok en \<Longrightarrow> r' \<in> runs_of (engine_after cfg ops en) \<Longrightarrow>
     \<exists>r \<in> runs_of en. run_step\<^sup>*\<^sup>* (abs_of r) (abs_of r')"
proof (induction ops arbitrary: en)
  case (Cons op ops)
  have "r' \<in> runs_of (engine_after cfg ops (apply_engine_op cfg op en))" using Cons.prems(2) by simp
  from Cons.IH[OF op_ok[OF Cons.prems(1)] this]
  obtain r1 where "r1 \<in> runs_of (apply_engine_op cfg op en)" "run_step\<^sup>*\<^sup>* (abs_of r1) (abs_of r')" by blast
  then show ?case using op_runs[OF Cons.prems(1)] by (blast intro: rtranclp_trans)
qed auto

lemma op_tallied:
  assumes "engine_ok en" and "tallied en"
  shows "tallied (apply_engine_op cfg op en)"
proof (cases "op = Op_restart")
  case True
  then show ?thesis by (simp add: restart_def tallied_def)
next
  case False
  then show ?thesis using op_leads[OF assms(1) False, of cfg] assms(2) by (simp add: leads_def)
qed

lemma after_tallied: "engine_ok en \<Longrightarrow> tallied en \<Longrightarrow> tallied (engine_after cfg ops en)"
  by (induction ops arbitrary: en) (auto intro: op_ok op_tallied)

subsection \<open>A new run\<close>

lemma start_tallied: "tallied (queued_engine now ns es)"
  by (simp add: tallied_def executions_def queued_engine_def)

lemma set_detail_ids: "distinct (map nd_id ds) \<Longrightarrow> distinct (map nd_id (set_detail d ds))"
  by (auto simp: set_detail_def comp_def if_distrib cong: if_cong)

lemma set_detail_in: "x \<in> set (set_detail d ds) \<Longrightarrow> x = d \<or> x \<in> set ds"
  by (auto simp: set_detail_def split: if_splits)

lemma new_details:
  "distinct (map nd_id ds) \<Longrightarrow> distinct (map nd_id (fold (\<lambda>n. set_detail (initial_detail es n)) ns ds))"
  "x \<in> set (fold (\<lambda>n. set_detail (initial_detail es n)) ns ds) \<Longrightarrow> x \<in> set ds \<or> x \<in> initial_detail es ` set ns"
proof (induction ns arbitrary: ds)
  case (Cons n ns)
  {
    case 1
    then show ?case using Cons.IH(1)[OF set_detail_ids] by simp
  next
    case 2
    then show ?case using Cons.IH(2) set_detail_in by fastforce
  }
qed simp_all

lemma start_ok: "engine_ok (queued_engine now ns es)"
  using new_details(1)[of "[]"]
  by (simp add: engine_ok_def queued_engine_def runs_of_def ticks_ok_def new_run_def detail_ids_def)

lemma start_runs: "r \<in> runs_of (queued_engine now ns es) \<Longrightarrow> r = new_run now ns es"
  by (auto simp: queued_engine_def runs_of_def)

lemma new_detail:
  assumes "detail i (new_run now ns es) = Some d"
  shows "nd_attempt d = 0 \<and> (nd_state d = N_ready \<or> nd_state d = N_pending) \<and> i \<in> wn_id ` set ns"
proof -
  have "nd_id d = i" "d \<in> set (wr_details (new_run now ns es))" using detail_id[OF assms] by simp_all
  moreover from this(2) have "d \<in> initial_detail es ` set ns"
    using new_details(2)[of d es ns "[]"] by (simp add: new_run_def)
  ultimately show ?thesis by (auto simp: initial_detail_def split: if_splits)
qed

lemma new_run_inv: "run_inv (abs_of (new_run now ns es))"
  unfolding run_inv_def attempts_ok_def approvals_ok_def
  by (auto simp: attempt_ok_def approval_ok_def dest!: new_detail split: option.split)

end
