(* ===== verification/Workflow_Properties.thy ===== *)
theory Workflow_Properties
  imports Workflow_Runs
begin

text \<open>
  What a user of the workflow engine may rely on, for every sequence of operations after the
  start of a run (control verbs, answers of collaborators, ends of ticks, restarts of the
  process), and runs of the engine that show where it does not do what its comments say.
\<close>

definition plain_node :: "string \<Rightarrow> node_kind \<Rightarrow> string list \<Rightarrow> int \<Rightarrow> workflow_node" where
  "plain_node i k deps retries =
     \<lparr>wn_id = i, wn_kind = k, wn_deps = deps, wn_maxRetries = retries, wn_expiresInMs = None,
      wn_onFailure = On_stop_workflow, wn_compensateNodeId = None\<rparr>"

definition tool_config :: engine_config where
  "tool_config = \<lparr>cf_supports = Some (\<lambda>_ _. True), cf_timer = True, cf_waitForEvent = True, cf_evaluate = (\<lambda>_ _. True)\<rparr>"

definition tool_kind :: node_kind where
  "tool_kind = K_tool_action ''fs'' ''write''"

definition run_now :: "engine_op list \<Rightarrow> workflow_node list \<Rightarrow> engine" where
  "run_now ops ns = engine_after tool_config ops (queued_engine 0 ns [])"

section \<open>Properties of every run\<close>

text \<open>A property of runs that every abstract step keeps holds of all runs of the engine.\<close>

locale kept_by_steps =
  fixes P :: "abs_run \<Rightarrow> bool"
  assumes kept: "run_step a b \<Longrightarrow> P a \<Longrightarrow> P b"
begin

lemma kept_steps: "run_step\<^sup>*\<^sup>* a b \<Longrightarrow> P a \<Longrightarrow> P b"
  by (induction rule: rtranclp_induct) (auto intro: kept)

lemma after_start:
  assumes "P (abs_of (new_run now ns es))" and "r \<in> runs_of (engine_after cfg ops (queued_engine now ns es))"
  shows "P (abs_of r)"
  using after_runs[OF start_ok assms(2)] assms(1) kept_steps by (auto dest!: start_runs)

lemma same_object:
  assumes "engine_ok en" and "Op_restart \<notin> set ops" and "o1 < length (en_objs en)" and "P (abs_of (en_objs en ! o1))"
  shows "P (abs_of (en_objs (engine_after cfg ops en) ! o1))"
  using after_leads[OF assms(1,2), of cfg] kept_steps[OF _ assms(4)] assms(3) unfolding leads_def by blast

end

interpretation attempts: kept_by_steps attempts_ok
  by unfold_locales (rule attempts_step)

interpretation approvals: kept_by_steps approvals_ok
  by unfold_locales (rule approvals_step)

interpretation definition_kept: kept_by_steps "\<lambda>a. a_nodes a = ns" for ns
  by unfold_locales (simp add: run_step_nodes)

interpretation cancelled: kept_by_steps
  "\<lambda>a. a_state a = W_cancelled \<and> (\<forall>i. map_option snd (a_node a i) = k i)" for k
  by unfold_locales (auto dest: cancelled_step)

interpretation completed: kept_by_steps "\<lambda>a. completed_for_good a i \<and> a_node a i = x" for i x
  by unfold_locales (auto dest: completed_step)

lemma nodes_after_start:
  "r \<in> runs_of (engine_after cfg ops (queued_engine now ns es)) \<Longrightarrow> wr_nodes r = ns"
  using definition_kept.after_start[of now ns es ns r cfg ops] by (simp add: new_run_def)

section \<open>The properties\<close>

text \<open>C30: Whatever the order of control verbs, answers and restarts, the engine stays well formed: node identifiers of an object are distinct, the live object exists, no node of an object is in flight twice, and what a node in flight waits for fits its kind and its state.\<close>

theorem engine_stays_well_formed:
  "engine_ok (engine_after cfg ops (queued_engine now ns es))"
  by (rule after_ok[OF start_ok])

text \<open>C17: The engine implements the abstract runs: every operation but a restart, with all the nodes that it starts, resumes, retries, skips or cancels, is a sequence of abstract steps on every run object.\<close>

theorem engine_refines_runs:
  assumes "engine_ok en" and "op \<noteq> Op_restart" and "o1 < length (en_objs en)"
  shows "run_step\<^sup>*\<^sup>* (abs_of (en_objs en ! o1)) (abs_of (en_objs (apply_engine_op cfg op en) ! o1))"
  using op_leads[OF assms(1,2), of cfg] assms(3) by (simp add: leads_def)

definition demo_nodes :: "workflow_node list" where
  "demo_nodes = [plain_node ''t'' K_trigger [] 0, plain_node ''a'' (K_human_approval None) [''t''] 0,
                 plain_node ''x'' tool_kind [''a''] 1]"

text \<open>The trigger fires, the approval is waited for and given, and the tool node is started.\<close>

definition demo_ops :: "engine_op list" where
  "demo_ops = [Op_execute 1, Op_end_tick 2 0, Op_answer 3 1 ''a'' Resolves, Op_end_tick 4 1,
               Op_decide 5 ''h'' ''a'' D_approve ''ann'']"

theorem engine_refines_runs_witness:
  "run_step\<^sup>*\<^sup>* (abs_of (new_run 0 demo_nodes []))
     (abs_of (en_objs (apply_engine_op tool_config (Op_execute 1) (queued_engine 0 demo_nodes [])) ! 0))"
  using engine_refines_runs[of "queued_engine 0 demo_nodes []" "Op_execute 1" 0 tool_config] start_ok
  by (simp add: queued_engine_def)

text \<open>C23: Retries are bounded. A run object, the run as the process holds it in memory, executes a node at most once more than the definition of the node allows retries, over all its ticks and whatever the control verbs, decisions, answers and restarts. Counted are the calls of \<open>executeNode\<close> in the ticks of the object. The bound is one of the object: a restart ends the objects, and a call that finds no live object reads the stored row into a new one, which may execute the node anew.\<close>

theorem executions_bounded:
  assumes "find_node i ns = Some n"
  shows "executions o1 i (engine_after cfg ops (queued_engine now ns es)) \<le> Suc (nat (wn_maxRetries n))"
proof (cases "o1 < length (en_objs (engine_after cfg ops (queued_engine now ns es)))")
  case True
  let ?en = "engine_after cfg ops (queued_engine now ns es)" and ?a = "abs_of (en_objs (engine_after cfg ops (queued_engine now ns es)) ! o1)"
  have r: "en_objs ?en ! o1 \<in> runs_of ?en" using True by (rule obj_in_runs)
  have "executions o1 i ?en \<le> attempt_in i ?a"
    using after_tallied[OF start_ok start_tallied] True by (simp add: tallied_def)
  also have "attempt_in i ?a \<le> Suc (nat (wn_maxRetries n))"
  proof (cases "a_node ?a i")
    case (Some p)
    obtain st k where p: "p = (st, k)" by (rule prod.exhaust)
    have "attempts_ok ?a" using attempts.after_start[OF _ r] new_run_inv by (simp add: run_inv_def)
    with attempts_get[of ?a i st k] Some p have "attempt_ok (find_node i ns) st k"
      using nodes_after_start[OF r] by simp
    moreover have "attempt_in i ?a = k" unfolding attempt_in_def Some p by simp
    ultimately show ?thesis using assms by (simp add: attempt_ok_def)
  qed (simp add: attempt_in_def)
  finally show ?thesis .
next
  case False
  let ?en = "engine_after cfg ops (queued_engine now ns es)"
  have "ticks_ok (en_ticks ?en) (en_objs ?en)"
    using after_ok[OF start_ok, of cfg ops now ns es] by (simp add: engine_ok_def)
  then have "executions o1 i ?en = 0" by (rule no_executions) (use False in simp)
  then show ?thesis by simp
qed

text \<open>A tool whose result cannot be recorded is executed a second time, and not a third time.\<close>

definition retry_ops :: "engine_op list" where
  "retry_ops = [Op_execute 1, Op_answer 2 0 ''x'' (Tool_result True None), Op_answer 3 0 ''x'' (Rejects ''db''),
     Op_answer 4 0 ''x'' Resolves, Op_end_tick 5 0]"

theorem executions_bounded_witness:
  "executions 0 ''x'' (engine_after tool_config retry_ops (queued_engine 0 [plain_node ''x'' tool_kind [] 1] [])) = 2 \<and>
   executions 0 ''x'' (engine_after tool_config retry_ops (queued_engine 0 [plain_node ''x'' tool_kind [] 1] [])) \<le> Suc (nat 1)"
proof -
  have "find_node ''x'' [plain_node ''x'' tool_kind [] 1] = Some (plain_node ''x'' tool_kind [] 1)" by code_simp
  from executions_bounded[OF this, of 0 tool_config retry_ops 0 "[]"] show ?thesis
    by (simp add: plain_node_def) code_simp
qed

definition demo_run :: workflow_run where
  "demo_run = en_objs (run_now demo_ops demo_nodes) ! 0"

lemma demo_state:
  "map (\<lambda>d. (nd_id d, nd_state d, nd_attempt d)) (wr_details demo_run) =
     [(''t'', N_completed, 1), (''a'', N_completed, 1), (''x'', N_running, 1)]"
  "map (\<lambda>h. (hd_nodeId h, hd_decision h)) (wr_decisions demo_run) = [(''a'', D_approve)]"
  "length (en_objs (run_now demo_ops demo_nodes)) = 1"
  by code_simp+

lemma demo_detail:
  "\<exists>d. detail ''x'' demo_run = Some d \<and> nd_attempt d = 1" "\<exists>d. detail ''t'' demo_run = Some d \<and> nd_state d = N_completed"
  using demo_state(1) by (auto simp: detail_def map_eq_Cons_conv)

lemma demo_reached: "demo_run \<in> runs_of (engine_after tool_config demo_ops (queued_engine 0 demo_nodes []))"
proof -
  have "0 < length (en_objs (run_now demo_ops demo_nodes))" using demo_state(3) by simp
  from obj_in_runs[OF this] show ?thesis by (simp add: demo_run_def run_now_def)
qed

text \<open>C6: A node that depends directly on a human approval is never executed, on any interleaving, unless the approval has been granted by a recorded decision or the approval node was skipped by a branch. This is about direct dependencies: a node that depends on the approval only through another node may be executed without it when a branch skips that other node (\<open>skipped_node_opens_the_way\<close>).\<close>

theorem no_approval_bypass:
  assumes "r \<in> runs_of (engine_after cfg ops (queued_engine now ns es))"
    and "find_node i ns = Some n" and "detail i r = Some d" and "0 < nd_attempt d"
    and "a \<in> set (wn_deps n)" and "find_node a ns = Some m" and "is_approval m"
  shows "node_state_of a r = Some N_skipped \<or> (\<exists>h \<in> set (wr_decisions r). hd_nodeId h = a \<and> hd_decision h = D_approve)"
proof -
  have "approvals_ok (abs_of r)" using approvals.after_start[OF _ assms(1)] new_run_inv by (simp add: run_inv_def)
  then have "approval_ok (abs_of r) n (nd_state d) (nd_attempt d)"
    using approvals_get[of "abs_of r" i n] assms(2,3) nodes_after_start[OF assms(1)] by simp
  then have "gate_open (abs_of r) a" using assms(4,5) by (simp add: approval_ok_def)
  then show ?thesis
    using assms(6,7) nodes_after_start[OF assms(1)]
    by (auto simp: gate_open_def approved_in_def abs_node_state simp del: abs_sel(3))
qed

theorem no_approval_bypass_witness:
  "node_state_of ''a'' demo_run = Some N_skipped \<or>
   (\<exists>h \<in> set (wr_decisions demo_run). hd_nodeId h = ''a'' \<and> hd_decision h = D_approve)"
proof -
  obtain d where d: "detail ''x'' demo_run = Some d" "0 < nd_attempt d" using demo_detail(1) by auto
  show ?thesis
    by (rule no_approval_bypass[OF demo_reached _ d(1,2), of "plain_node ''x'' tool_kind [''a''] 1" _
          "plain_node ''a'' (K_human_approval None) [''t''] 0"])
       (simp_all add: demo_nodes_def plain_node_def find_node_def is_approval_def)
qed

text \<open>C21: Cancelling is final: a run object that is cancelled stays cancelled and starts no node again, whatever the collaborators answer and whichever control verb follows (until the process restarts).\<close>

theorem cancelled_run_is_final:
  assumes "en = engine_after cfg ops (queued_engine now ns es)" and "o1 < length (en_objs en)"
    and "wr_state (en_objs en ! o1) = W_cancelled" and "Op_restart \<notin> set ops'"
  shows "wr_state (en_objs (engine_after cfg' ops' en) ! o1) = W_cancelled \<and>
    map_option nd_attempt (detail i (en_objs (engine_after cfg' ops' en) ! o1)) =
    map_option nd_attempt (detail i (en_objs en ! o1))"
proof -
  let ?k = "\<lambda>i. map_option nd_attempt (detail i (en_objs en ! o1))"
  have en: "engine_ok en" unfolding assms(1) by (rule after_ok[OF start_ok])
  from cancelled.same_object[OF en assms(4,2), of ?k cfg'] assms(3)
  show ?thesis by (simp add: option.map_comp comp_def)
qed

text \<open>C33: A completed node of a run object stays completed and is not executed again by it, whatever the collaborators answer and whichever control verb follows until the process restarts, provided the node has no retries or its kind calls nothing that can throw once it has completed.\<close>

theorem completed_nodes_stay_completed:
  assumes "en = engine_after cfg ops (queued_engine now ns es)" and "o1 < length (en_objs en)"
    and "find_node i ns = Some n" and "wn_maxRetries n \<le> 0 \<or> \<not> fails_after_completion (wn_kind n)"
    and "node_state_of i (en_objs en ! o1) = Some N_completed" and "Op_restart \<notin> set ops'"
  shows "node_state_of i (en_objs (engine_after cfg' ops' en) ! o1) = Some N_completed \<and>
    map_option nd_attempt (detail i (en_objs (engine_after cfg' ops' en) ! o1)) =
    map_option nd_attempt (detail i (en_objs en ! o1))"
proof -
  let ?r = "en_objs en ! o1"
  have en: "engine_ok en" unfolding assms(1) by (rule after_ok[OF start_ok])
  have "wr_nodes ?r = ns" using obj_in_runs[OF assms(2)] nodes_after_start unfolding assms(1) by blast
  moreover obtain d where d: "detail i ?r = Some d" "nd_state d = N_completed"
    using assms(5) by (auto simp: node_state_of_def)
  ultimately have "completed_for_good (abs_of ?r) i" using assms(3,4) by (auto simp: completed_for_good_def)
  with completed.same_object[OF en assms(6,2), of i "a_node (abs_of ?r) i" cfg'] d
  show ?thesis by (auto simp: node_state_of_def)
qed

definition cancel_ops :: "engine_op list" where
  "cancel_ops = demo_ops @ [Op_cancel 6]"

lemma cancelled_demo:
  "length (en_objs (run_now cancel_ops demo_nodes)) = 1" "wr_state (en_objs (run_now cancel_ops demo_nodes) ! 0) = W_cancelled"
  "map_option nd_attempt (detail ''x'' (en_objs (run_now cancel_ops demo_nodes) ! 0)) = Some 1"
  by code_simp+

theorem cancelled_run_is_final_witness:
  "wr_state (en_objs (engine_after tool_config [Op_answer 7 2 ''x'' (Tool_result True None), Op_execute 8]
       (run_now cancel_ops demo_nodes)) ! 0) = W_cancelled \<and>
   map_option nd_attempt (detail ''x'' (en_objs (engine_after tool_config
       [Op_answer 7 2 ''x'' (Tool_result True None), Op_execute 8] (run_now cancel_ops demo_nodes)) ! 0)) = Some 1"
  using cancelled_run_is_final[OF run_now_def, of 0 cancel_ops demo_nodes
      "[Op_answer 7 2 ''x'' (Tool_result True None), Op_execute 8]" tool_config "''x''"] cancelled_demo
  by simp

theorem completed_nodes_stay_completed_witness:
  "node_state_of ''t'' (en_objs (engine_after tool_config [Op_cancel 6] (run_now demo_ops demo_nodes)) ! 0) = Some N_completed"
proof -
  have "find_node ''t'' demo_nodes = Some (plain_node ''t'' K_trigger [] 0)" by code_simp
  then show ?thesis
    using completed_nodes_stay_completed[OF run_now_def, of 0 demo_ops demo_nodes "''t''"
        "plain_node ''t'' K_trigger [] 0" "[Op_cancel 6]" tool_config] demo_state(3) demo_detail(2)
    by (auto simp: plain_node_def node_state_of_def demo_run_def)
qed

section \<open>Progress\<close>

definition satisfied :: "node_state \<Rightarrow> bool" where
  "satisfied s \<longleftrightarrow> s = N_completed \<or> s = N_skipped \<or> s = N_compensated"

definition only_waiting_to_start :: "workflow_run \<Rightarrow> bool" where
  "only_waiting_to_start r \<longleftrightarrow>
     (\<forall>d \<in> set (wr_details r). nd_state d = N_pending \<or> nd_state d = N_ready \<or> satisfied (nd_state d))"

lemma feeds_deps:
  assumes "distinct (map wn_id ns)" and "n \<in> set ns" and "d \<in> set (wn_deps n)"
  shows "(d, wn_id n) \<in> feeds ns"
proof -
  have "find_node (wn_id n) (rev ns) = Some n"
    unfolding find_node_def by (rule find_unique_key) (use assms(1,2) in \<open>simp_all add: rev_map[symmetric]\<close>)
  then show ?thesis using assms(2,3) by (simp add: feeds_iff dependents_def graph_deps_def)
qed

lemma feeds_wf: "finite (feeds ns) \<Longrightarrow> acyclic (feeds ns) \<Longrightarrow> wf (feeds ns)"
  by (rule finite_acyclic_wf)

lemma feeds_finite: "finite (feeds ns)"
proof -
  have "p \<in> (\<Union>n \<in> set ns. set (wn_deps n)) \<times> wn_id ` set ns" if p: "p \<in> feeds ns" for p
  proof -
    obtain d i where di: "p = (d, i)" by fastforce
    with p have i: "i \<in> wn_id ` set ns" and "d \<in> set (nullish (graph_deps ns i) [])"
      by (auto simp: feeds_iff dependents_def)
    then obtain n where "find_node i (rev ns) = Some n" "d \<in> set (wn_deps n)"
      by (cases "find_node i (rev ns)") (auto simp: graph_deps_def)
    moreover from this(1) have "n \<in> set ns" using find_node_id by force
    ultimately show ?thesis unfolding di using i by blast
  qed
  then have "feeds ns \<subseteq> (\<Union>n \<in> set ns. set (wn_deps n)) \<times> wn_id ` set ns" by blast
  then show ?thesis by (rule finite_subset) simp
qed

lemma refresh_state:
  "node_state_of i (refreshNodeReadiness r) =
     map_option (\<lambda>s. if s = N_pending \<and> deps_satisfied r i then N_ready else s) (node_state_of i r)"
proof -
  have "detail i (refreshNodeReadiness r) = map_option (\<lambda>d. if nd_state d = N_pending \<and> deps_satisfied r (nd_id d)
      then d\<lparr>nd_state := N_ready\<rparr> else d) (detail i r)"
    unfolding refreshNodeReadiness_def by (rule detail_map) simp
  then show ?thesis by (cases "detail i r") (auto simp: node_state_of_def dest: detail_id)
qed

lemma refresh_nodes [simp]: "wr_nodes (refreshNodeReadiness r) = wr_nodes r" "wr_state (refreshNodeReadiness r) = wr_state r"
  by (simp_all add: refreshNodeReadiness_def)

lemma unsatisfied_node_is_ready:
  assumes g: "graph_ok (wr_nodes r)" and ids: "distinct (detail_ids r)" "set (detail_ids r) = wn_id ` set (wr_nodes r)"
    and w: "only_waiting_to_start r" and u: "\<exists>d \<in> set (wr_details r). \<not> satisfied (nd_state d)"
  shows "getReadyNodes (refreshNodeReadiness r) \<noteq> []"
proof -
  let ?U = "{i. \<exists>s. node_state_of i r = Some s \<and> \<not> satisfied s}"
  have at: "node_state_of (nd_id d) r = Some (nd_state d)" if "d \<in> set (wr_details r)" for d
    using find_unique_key[OF ids(1)[unfolded detail_ids_def] that refl] by (simp add: node_state_of_def detail_def)
  have wait: "s = N_pending \<or> s = N_ready" if s: "node_state_of i r = Some s" "\<not> satisfied s" for i s
  proof -
    from s(1) obtain d where "detail i r = Some d" "nd_state d = s" by (auto simp: node_state_of_def)
    then show ?thesis using w s(2) detail_id unfolding only_waiting_to_start_def by blast
  qed
  have "wf (feeds (wr_nodes r))" using g feeds_finite by (intro feeds_wf) (auto simp: graph_ok_def)
  moreover from u at obtain i0 where "i0 \<in> ?U" by blast
  ultimately have "\<exists>i \<in> ?U. \<forall>d. (d, i) \<in> feeds (wr_nodes r) \<longrightarrow> d \<notin> ?U" by (meson wfE_min)
  then obtain i where i: "i \<in> ?U" and min: "\<And>d. (d, i) \<in> feeds (wr_nodes r) \<Longrightarrow> d \<notin> ?U" by blast
  from i obtain s where s: "node_state_of i r = Some s" "\<not> satisfied s" by blast
  have "i \<in> set (detail_ids r)" using s(1) has_state_iff by blast
  then obtain n where n: "n \<in> set (wr_nodes r)" "wn_id n = i" using ids(2) by auto
  have dist: "distinct (map wn_id (wr_nodes r))" using g by (simp add: graph_ok_def)
  have find: "find_node i (wr_nodes r) = Some n" unfolding find_node_def by (rule find_unique_key[OF dist n])
  have dep: "dep_satisfied r d" if d: "d \<in> set (wn_deps n)" for d
  proof -
    have "d \<in> set (detail_ids r)" using g n(1) d ids(2) by (auto simp: graph_ok_def)
    then obtain t where t: "node_state_of d r = Some t" using has_state_iff by blast
    have "d \<notin> ?U" using feeds_deps[OF dist n(1) d] n(2) by (intro min) simp
    with t show ?thesis by (auto simp: dep_satisfied_def satisfied_def)
  qed
  then have sat: "deps_satisfied r i" by (simp add: deps_satisfied_def find)
  have "dep_satisfied (refreshNodeReadiness r) d" if "d \<in> set (wn_deps n)" for d
    using dep[OF that] by (auto simp: dep_satisfied_def refresh_state)
  then have sat1: "deps_satisfied (refreshNodeReadiness r) i" by (simp add: deps_satisfied_def find)
  have "node_state_of i (refreshNodeReadiness r) = Some N_ready" using wait[OF s] s(1) sat by (auto simp: refresh_state)
  then obtain d where "detail i (refreshNodeReadiness r) = Some d" "nd_state d = N_ready" by (auto simp: node_state_of_def)
  then have "i \<in> set (getReadyNodes (refreshNodeReadiness r))"
    using sat1 detail_id unfolding getReadyNodes_def by (force simp: image_iff)
  then show ?thesis by auto
qed

lemma all_satisfied_completes:
  assumes "\<forall>d \<in> set (wr_details r). satisfied (nd_state d)" and "canAdvanceNodes (wr_state r)"
  shows "wr_state (recomputeRunState now r) = W_completed"
proof -
  have st: "wr_state r \<noteq> W_cancelled" "wr_state r \<noteq> W_cancelling"
    using assms(2) by (auto simp: canAdvanceNodes_def)
  have none: "\<not> some_node ss r" if "\<forall>s \<in> set ss. \<not> satisfied s" for ss
    using assms(1) that by (auto simp: some_node_def)
  have t: "filter (\<lambda>d. nd_state d \<in> {N_completed, N_skipped, N_compensated, N_cancelled}) (wr_details r) = wr_details r"
    using assms(1) by (auto simp: satisfied_def filter_id_conv)
  have p: "filter (\<lambda>d. nd_state d \<in> {N_pending, N_ready, N_running}) (wr_details r) = []"
    using assms(1) by (auto simp: satisfied_def filter_empty_conv)
  show ?thesis
    unfolding recomputeRunState_def t p using st none by (simp add: satisfied_def)
qed

text \<open>C28: Progress on a validated graph whose nodes have one state each: when iterations are left, the state of the run allows its nodes to advance and every node is pending, ready, completed, skipped or compensated (none is executing, waiting, blocked, failed, expired or cancelled), the next iteration of \<open>advanceRun\<close> starts a batch of nodes or the run becomes completed.\<close>

theorem acyclic_run_makes_progress:
  assumes "o1 < length (en_objs en)" and "r = en_objs en ! o1" and "0 < left" and "canAdvanceNodes (wr_state r)"
    and "validateGraph (wr_nodes r) = Some []" and "distinct (detail_ids r)" and "set (detail_ids r) = wn_id ` set (wr_nodes r)"
    and "only_waiting_to_start r"
  shows "length (en_ticks (advance cfg now o1 left en)) = Suc (length (en_ticks en)) \<or>
    wr_state (en_objs (advance cfg now o1 left en) ! o1) = W_completed"
proof (cases "getReadyNodes (refreshNodeReadiness r) = []")
  case False
  then show ?thesis using assms(2-4) by (simp add: advance_def Let_def split: prod.split)
next
  case True
  have "graph_ok (wr_nodes r)" using assms(5) validateGraph_iff by simp
  from True unsatisfied_node_is_ready[OF this assms(6-8)] have all: "\<forall>d \<in> set (wr_details r). satisfied (nd_state d)" by blast
  have "map (\<lambda>d. if nd_state d = N_pending \<and> deps_satisfied r (nd_id d) then d\<lparr>nd_state := N_ready\<rparr> else d)
      (wr_details r) = wr_details r"
    using all by (intro map_idI) (auto simp: satisfied_def)
  then have "refreshNodeReadiness r = r" by (simp add: refreshNodeReadiness_def)
  with True all_satisfied_completes[OF all assms(4), of now] assms(1-4) show ?thesis
    by (simp add: advance_def Let_def finish_advance_def)
qed

theorem acyclic_run_makes_progress_witness:
  "length (en_ticks (advance tool_config 5 0 1000 \<lparr>en_objs = [(new_run 0 demo_nodes [])\<lparr>wr_state := W_running\<rparr>],
      en_live = Some 0, en_saved = None, en_ticks = [], en_running = None\<rparr>)) = 1"
proof -
  let ?r = "(new_run 0 demo_nodes [])\<lparr>wr_state := W_running\<rparr>"
  let ?en = "\<lparr>en_objs = [?r], en_live = Some 0, en_saved = None, en_ticks = [], en_running = None\<rparr>"
  have ids: "map nd_id (wr_details ?r) = [''t'', ''a'', ''x'']" "wr_nodes ?r = demo_nodes" "canAdvanceNodes W_running"
    "map wn_id demo_nodes = [''t'', ''a'', ''x'']" "map nd_state (wr_details ?r) = [N_ready, N_pending, N_pending]"
    "validateGraph demo_nodes = Some []" "wr_state (en_objs (advance tool_config 5 0 1000 ?en) ! 0) = W_running"
    by code_simp+
  have "nd_state ` set (wr_details ?r) = {N_ready, N_pending}" using arg_cong[OF ids(5), of set] by auto
  then have "only_waiting_to_start ?r" unfolding only_waiting_to_start_def by auto
  moreover have "set (detail_ids ?r) = wn_id ` set (wr_nodes ?r)" "distinct (detail_ids ?r)"
    using arg_cong[OF ids(4), of set] ids(1,2) by (auto simp: detail_ids_def)
  ultimately show ?thesis
    using acyclic_run_makes_progress[of 0 ?en ?r 1000 tool_config 5] ids by simp
qed

section \<open>Where the engine falls short\<close>

lemma completed_tool_runs_again:
  "let en = run_now [Op_execute 1, Op_answer 2 0 ''x'' (Tool_result True None), Op_answer 3 0 ''x'' (Rejects ''db''),
       Op_answer 4 0 ''x'' Resolves, Op_end_tick 5 0] [plain_node ''x'' tool_kind [] 1]
   in map (\<lambda>d. (nd_state d, nd_attempt d)) (wr_details (en_objs en ! 0)) = [(N_running, 2)] \<and>
      map tk_flights (en_ticks en) = [[(''x'', Settled None)], [(''x'', In_flight A_tool)]]"
  by code_simp

lemma failing_tool_is_not_retried:
  "let en = run_now [Op_execute 1, Op_answer 2 0 ''x'' (Tool_result False None), Op_answer 3 0 ''x'' Resolves,
       Op_answer 4 0 ''x'' Resolves, Op_end_tick 5 0] [plain_node ''x'' tool_kind [] 3]
   in map (\<lambda>d. (nd_state d, nd_attempt d)) (wr_details (en_objs en ! 0)) = [(N_failed, 1)] \<and>
      wr_state (en_objs en ! 0) = W_failed"
  by code_simp

lemma pause_during_a_tick_is_lost:
  "let en1 = run_now [Op_execute 1, Op_pause 2] [plain_node ''x'' tool_kind [] 0];
       en2 = engine_after tool_config [Op_answer 3 0 ''x'' (Tool_result True None), Op_answer 4 0 ''x'' Resolves,
         Op_answer 5 0 ''x'' Resolves, Op_end_tick 6 0] en1
   in wr_state (en_objs en1 ! 0) = W_paused \<and> wr_state (en_objs en2 ! 0) = W_completed"
  by code_simp

lemma partial_success_is_overwritten:
  "let en1 = run_now [Op_execute 1] [plain_node ''done'' (K_completion Partial_success) [] 0];
       en2 = engine_after tool_config [Op_end_tick 2 0] en1
   in wr_state (en_objs en1 ! 0) = W_partially_completed \<and> wr_state (en_objs en2 ! 0) = W_completed"
  by code_simp

lemma second_approval_of_a_tick_fails:
  "let en = run_now [Op_execute 1, Op_answer 2 0 ''a'' Resolves, Op_answer 3 0 ''b'' Resolves, Op_end_tick 4 0]
       [plain_node ''a'' (K_human_approval None) [] 0, plain_node ''b'' (K_human_approval None) [] 0]
   in map nd_state (wr_details (en_objs en ! 0)) = [N_waiting_approval, N_failed] \<and>
      wr_state (en_objs en ! 0) = W_awaiting_approval"
  by code_simp

lemma review_approval_throws:
  "let en = run_now [Op_execute 1, Op_answer 2 0 ''r'' Resolves, Op_end_tick 3 0] [plain_node ''r'' K_human_review [] 0];
       (answer, en2) = submitHumanDecision tool_config 4 ''h'' ''r'' D_review_approve ''ann'' en
   in wr_state (en_objs en ! 0) = W_awaiting_review \<and>
      answer = Inl (Uncaught (State_error (InvalidNodeTransition N_waiting_review NE_complete ''r''))) \<and>
      map hd_decision (wr_decisions (en_objs en2 ! 0)) = [D_review_approve] \<and>
      map nd_state (wr_details (en_objs en2 ! 0)) = [N_waiting_review]"
  by code_simp

lemma event_wait_cannot_complete:
  "node_state_of i r = Some N_waiting_event \<Longrightarrow>
     event_fired i x r = Threw (State_error (InvalidNodeTransition N_waiting_event NE_fail i)) r"
  by (simp add: event_fired_def fire_at fail_node_def)

lemma restart_runs_a_node_twice:
  "let en = run_now [Op_restart, Op_execute 1, Op_execute 2] [plain_node ''x'' tool_kind [] 0]
   in map (\<lambda>tk. (tk_obj tk, tk_flights tk)) (en_ticks en) = [(0, [(''x'', In_flight A_tool)]), (1, [(''x'', In_flight A_tool)])]"
  by code_simp

text \<open>
  After a restart the first object of a run is not registered as live. A cancellation then takes
  a second object from the stored row, and the first one, whose timer it aborts, stores a
  running run over the cancelled one, in which nothing can be executed any more.
\<close>

lemma cancellation_after_restart_is_lost:
  "let en1 = run_now [Op_restart, Op_execute 1, Op_cancel 3]
       [plain_node ''t'' (K_wait_timer (Delay 1000)) [] 0, plain_node ''x'' tool_kind [''t''] 0];
       en2 = engine_after tool_config [Op_answer 4 0 ''t'' (Rejects ''aborted''), Op_answer 5 0 ''t'' Resolves, Op_end_tick 6 0] en1
   in map_option wr_state (en_saved en1) = Some W_cancelled \<and> map_option wr_state (en_saved en2) = Some W_running \<and>
      map nd_state (wr_details (en_objs en2 ! 0)) = [N_cancelled, N_pending] \<and> length (en_ticks en2) = 1"
  by code_simp

text \<open>
  An approval does not reach past a node that a branch has skipped: the tool \<open>x\<close> is below the
  approval \<open>a\<close> and is started in the same tick in which \<open>a\<close> begins to wait.
\<close>

lemma skipped_node_opens_the_way:
  "let en = run_now [Op_execute 1, Op_end_tick 2 0]
       [plain_node ''b'' (K_branch (Field_exists ''b'') [''m''] []) [] 0, plain_node ''a'' (K_human_approval None) [''b''] 0,
        plain_node ''m'' tool_kind [''a''] 0, plain_node ''x'' tool_kind [''m'', ''b''] 0]
   in map fst (tk_flights (en_ticks en ! 1)) = [''a'', ''x''] \<and> node_state_of ''x'' (en_objs en ! 0) = Some N_running \<and>
      node_state_of ''m'' (en_objs en ! 0) = Some N_skipped \<and> wr_decisions (en_objs en ! 0) = []"
  by code_simp

lemma node_saved_while_running_is_stuck:
  "let en = run_now [Op_execute 1, Op_pause 2, Op_restart, Op_resume 3, Op_execute 4] [plain_node ''x'' tool_kind [] 0]
   in map nd_state (wr_details (en_objs en ! 0)) = [N_running] \<and> en_ticks en = [] \<and> wr_state (en_objs en ! 0) = W_running"
  by code_simp

end
