(* ===== verification/Workflow_Events.thy ===== *)
theory Workflow_Events
  imports Workflow_Properties
begin

text \<open>
  The event reports of the workflow engine (\<open>emitChanges\<close> of \<open>execution/workflow/engine.ts\<close> and
  the events of \<open>execution/workflow/events.ts\<close>): the states that were reported last, the events
  of a call, and a client that keeps a copy of the run from the events alone. A sink is
  configured; what it throws is swallowed. Log lines, cost updates and the time stamps and
  outputs inside the events are left out.
\<close>

section \<open>Reports\<close>

datatype run_report =
    Rep_run run_state
  | Rep_node string node_state nat
  | Rep_end run_state

record reported =
  rp_run :: run_state
  rp_nodes :: "string \<Rightarrow> node_state option"
  rp_ended :: bool

definition nothing_reported :: reported where
  "nothing_reported = \<lparr>rp_run = W_draft, rp_nodes = (\<lambda>_. None), rp_ended = False\<rparr>"

fun node_reports ::
  "node_detail list \<Rightarrow> (string \<Rightarrow> node_state option) \<Rightarrow> run_report list \<times> (string \<Rightarrow> node_state option)" where
  "node_reports [] m = ([], m)"
| "node_reports (d # ds) m =
     (if m (nd_id d) = Some (nd_state d) then node_reports ds m
      else case node_reports ds (m(nd_id d \<mapsto> nd_state d)) of
        (es, m') \<Rightarrow> (Rep_node (nd_id d) (nd_state d) (nd_attempt d) # es, m'))"

definition emitChanges :: "workflow_run \<Rightarrow> reported \<Rightarrow> run_report list \<times> reported" where
  "emitChanges r prev =
     (if rp_ended prev then ([], prev)
      else let changed = (rp_run prev \<noteq> wr_state r);
               (es, m) = node_reports (wr_details r) (rp_nodes prev);
               ends = (changed \<and> wr_state r \<in> set FORGOTTEN_STATES)
           in ((if changed then [Rep_run (wr_state r)] else []) @ es @ (if ends then [Rep_end (wr_state r)] else []),
               \<lparr>rp_run = wr_state r, rp_nodes = m, rp_ended = ends\<rparr>))"

text \<open>The calls for a run while it passes through the states \<open>rs\<close>.\<close>

fun emit_all :: "workflow_run list \<Rightarrow> reported \<Rightarrow> run_report list \<times> reported" where
  "emit_all [] prev = ([], prev)"
| "emit_all (r # rs) prev =
     (case emitChanges r prev of (es, prev') \<Rightarrow> case emit_all rs prev' of (fs, prev'') \<Rightarrow> (es @ fs, prev''))"

section \<open>A client\<close>

type_synonym mirror = "run_state \<times> (string \<Rightarrow> node_state option)"

fun take_report :: "run_report \<Rightarrow> mirror \<Rightarrow> mirror" where
  "take_report (Rep_run s) (_, m) = (s, m)"
| "take_report (Rep_node i s _) (st, m) = (st, m(i \<mapsto> s))"
| "take_report (Rep_end _) v = v"

definition mirror_of :: "run_report list \<Rightarrow> mirror" where
  "mirror_of es = fold take_report es (W_draft, \<lambda>_. None)"

lemma node_reports_mirror: "node_reports ds m = (es, m') \<Longrightarrow> fold take_report es (s, m) = (s, m')"
  by (induction ds m arbitrary: es m' rule: node_reports.induct) (auto split: if_splits prod.splits)

lemma find_key_None: "j \<notin> nd_id ` set ds \<Longrightarrow> find (\<lambda>x. nd_id x = j) ds = None"
  by (induction ds) auto

lemma node_reports_result:
  "node_reports ds m = (es, m') \<Longrightarrow> distinct (map nd_id ds) \<Longrightarrow>
     m' i = (case find (\<lambda>d. nd_id d = i) ds of None \<Rightarrow> m i | Some d \<Rightarrow> Some (nd_state d))"
proof (induction ds arbitrary: m es)
  case (Cons d ds)
  have none: "nd_id d \<notin> nd_id ` set ds \<Longrightarrow> find (\<lambda>x. nd_id x = nd_id d) ds = None" by (rule find_key_None)
  show ?case
  proof (cases "m (nd_id d) = Some (nd_state d)")
    case True
    with Cons.prems Cons.IH[of m es] none show ?thesis by auto
  next
    case False
    with Cons.prems obtain fs where fs: "node_reports ds (m(nd_id d \<mapsto> nd_state d)) = (fs, m')" by (auto split: prod.splits)
    have "distinct (map nd_id ds)" "nd_id d \<notin> nd_id ` set ds" using Cons.prems(2) by simp_all
    with Cons.IH[OF fs] none show ?thesis by (cases "nd_id d = i") (auto split: option.split)
  qed
qed simp

lemma emit_mirror:
  "emitChanges r prev = (es, prev') \<Longrightarrow> fold take_report es (rp_run prev, rp_nodes prev) = (rp_run prev', rp_nodes prev')"
  by (auto simp: emitChanges_def Let_def node_reports_mirror split: prod.splits if_splits)

lemma emit_all_mirror:
  "emit_all rs prev = (es, prev') \<Longrightarrow> fold take_report es (rp_run prev, rp_nodes prev) = (rp_run prev', rp_nodes prev')"
  by (induction rs arbitrary: prev es prev') (auto split: prod.splits simp: emit_mirror)

lemma emit_all_append:
  "emit_all (rs @ [r]) prev =
     (case emit_all rs prev of (es, l) \<Rightarrow> case emitChanges r l of (fs, l') \<Rightarrow> (es @ fs, l'))"
  by (induction rs arbitrary: prev) (auto split: prod.splits)

lemma ended_stays: "rp_ended prev \<Longrightarrow> emit_all rs prev = ([], prev)"
  by (induction rs) (simp_all add: emitChanges_def)

lemma node_reports_no_end: "node_reports ds m = (es, m') \<Longrightarrow> Rep_end s \<notin> set es"
  by (induction ds arbitrary: m es) (auto split: if_splits prod.splits)

lemma emit_no_end:
  "emitChanges r prev = (es, prev') \<Longrightarrow> if rp_ended prev' \<and> \<not> rp_ended prev then \<exists>fs s. es = fs @ [Rep_end s] \<and> (\<forall>s. Rep_end s \<notin> set fs)
     else \<forall>s. Rep_end s \<notin> set es"
  by (auto simp: emitChanges_def Let_def dest: node_reports_no_end split: prod.splits if_splits)

text \<open>C38: A client that starts from nothing and applies the events in order has, after every report that does not come after the end of the run was announced, the state of the run and of each of its nodes.\<close>

theorem events_mirror_the_run:
  assumes "emit_all (rs @ [r]) nothing_reported = (es, prev)" and "\<not> rp_ended (snd (emit_all rs nothing_reported))"
    and "distinct (detail_ids r)" and "i \<in> set (detail_ids r)"
  shows "fst (mirror_of es) = wr_state r \<and> snd (mirror_of es) i = node_state_of i r"
proof -
  obtain es0 l where l: "emit_all rs nothing_reported = (es0, l)" by fastforce
  with assms(1) obtain es1 where e: "emitChanges r l = (es1, prev)"
    by (auto simp: emit_all_append split: prod.splits)
  have "mirror_of es = (rp_run prev, rp_nodes prev)"
    using emit_all_mirror[OF assms(1)] by (simp add: mirror_of_def nothing_reported_def)
  moreover obtain fs m where m: "node_reports (wr_details r) (rp_nodes l) = (fs, m)" by fastforce
  ultimately have "mirror_of es = (wr_state r, m)"
    using e l assms(2) by (auto simp: emitChanges_def Let_def)
  moreover have "m i = node_state_of i r"
    using node_reports_result[OF m, of i] assms(3,4)
    by (auto simp: detail_ids_def node_state_of_def detail_def find_None_iff split: option.splits)
  ultimately show ?thesis by simp
qed

theorem events_mirror_the_run_witness:
  "fst (mirror_of (fst (emit_all [new_run 0 demo_nodes [], demo_run] nothing_reported))) = W_running \<and>
   snd (mirror_of (fst (emit_all [new_run 0 demo_nodes [], demo_run] nothing_reported))) ''x'' = Some N_running"
proof -
  have "wr_state demo_run = W_running" "node_state_of ''x'' demo_run = Some N_running"
    "map nd_id (wr_details demo_run) = [''t'', ''a'', ''x'']"
    "\<not> rp_ended (snd (emit_all [new_run 0 demo_nodes []] nothing_reported))" by code_simp+
  then show ?thesis
    using events_mirror_the_run[of "[new_run 0 demo_nodes []]" demo_run
        "fst (emit_all [new_run 0 demo_nodes [], demo_run] nothing_reported)"
        "snd (emit_all [new_run 0 demo_nodes [], demo_run] nothing_reported)" "''x''"]
    by (simp add: detail_ids_def)
qed

text \<open>The end of a run is announced at most once, and nothing is announced after it.\<close>

theorem run_end_is_last:
  "Rep_end s \<notin> set (butlast (fst (emit_all rs nothing_reported)))"
proof -
  have "(rp_ended (snd (emit_all rs prev)) \<and> \<not> rp_ended prev \<longrightarrow>
      (\<exists>fs s. fst (emit_all rs prev) = fs @ [Rep_end s] \<and> (\<forall>s. Rep_end s \<notin> set fs))) \<and>
    (\<not> (rp_ended (snd (emit_all rs prev)) \<and> \<not> rp_ended prev) \<longrightarrow> (\<forall>s. Rep_end s \<notin> set (fst (emit_all rs prev))))"
    (is "?P rs prev") for prev
  proof (induction rs arbitrary: prev)
    case (Cons r rs)
    obtain es l where e: "emitChanges r prev = (es, l)" by fastforce
    obtain fs l' where f: "emit_all rs l = (fs, l')" by fastforce
    show ?case
      using emit_no_end[OF e] Cons.IH[of l] e f ended_stays[of l rs]
      by (cases "rp_ended prev"; cases "rp_ended l") (auto simp: emitChanges_def)
  qed simp
  from this[of nothing_reported] show ?thesis
    by (cases "rp_ended (snd (emit_all rs nothing_reported))")
      (auto simp: nothing_reported_def dest: in_set_butlastD)
qed

text \<open>
  A completion node ends the run at once, and its end is announced, while another node of the
  same batch still works. When that node fails the run fails, which no event says any more.
\<close>

lemma announced_completed_but_failed:
  "let nodes = [plain_node ''done'' (K_completion Success) [] 0, plain_node ''x'' tool_kind [] 0];
       r1 = en_objs (run_now [Op_execute 1] nodes) ! 0;
       r2 = en_objs (run_now [Op_execute 1, Op_answer 2 0 ''x'' (Tool_result False None), Op_answer 3 0 ''x'' Resolves,
              Op_answer 4 0 ''x'' Resolves, Op_end_tick 5 0] nodes) ! 0;
       es = fst (emit_all [r1, r2] nothing_reported)
   in wr_state r2 = W_failed \<and> Rep_end W_completed \<in> set es \<and> fst (mirror_of es) = W_completed"
  by code_simp

end
