(* ===== verification/Workflow_Lint.thy ===== *)
theory Workflow_Lint
  imports Workflow_Graph
begin

text \<open>
  The linter of workflow definitions (\<open>execution/workflow/lint.ts\<close>): the structural problems
  that \<open>validateGraph\<close> finds, entry nodes and reachability, and the configuration of each kind
  of node. A problem is its severity, its code with the values in its message, and its node.
  An absent text is the empty one, which the checks treat alike; the numbers in durations are
  finite. The order that \<open>localeCompare\<close> gives to identifiers is a parameter.
\<close>

section \<open>Problems\<close>

datatype problem_code =
    PC_empty | PC_missing_dependency string | PC_cycle string string | PC_trigger_has_dependencies | PC_graph
  | PC_no_entry | PC_unreachable | PC_dangling | PC_no_completion | PC_unnamed
  | PC_agentic_no_instruction | PC_agentic_no_role | PC_agentic_zero_budget | PC_tool_no_capability
  | PC_branch_no_targets | PC_branch_one_sided | PC_branch_bad_target string | PC_branch_no_field
  | PC_branch_no_expression | PC_approval_no_summary | PC_approval_no_approver | PC_approval_no_expiry
  | PC_review_no_summary | PC_review_bad_target string | PC_wait_no_duration | PC_wait_no_event
  | PC_notification_no_message | PC_notification_no_channel | PC_artifact_bad_source
  | PC_join_single_input | PC_join_bad_n | PC_deterministic_no_function

record problem =
  pb_error :: bool
  pb_code :: problem_code
  pb_node :: "string option"

text \<open>The fields of a node that only the linter reads.\<close>

record lint_node = workflow_node +
  ln_label :: string
  ln_instruction :: string
  ln_agentRole :: string
  ln_maxUsd :: "rat option"
  ln_summary :: string
  ln_approver :: string
  ln_reviewTargets :: "string list"
  ln_message :: string
  ln_channels :: "string list"
  ln_functionRef :: string

definition white_space :: "char \<Rightarrow> bool" where
  "white_space c \<longleftrightarrow> of_char c \<in> ({9, 10, 11, 12, 13, 32, 160} :: nat set)"

definition js_trim :: "string \<Rightarrow> string" where
  "js_trim s = rev (dropWhile white_space (rev (dropWhile white_space s)))"

definition HUMAN_MIN_SUMMARY :: nat where
  "HUMAN_MIN_SUMMARY = 3"

definition err :: "problem_code \<Rightarrow> string \<Rightarrow> problem" where
  "err c i = \<lparr>pb_error = True, pb_code = c, pb_node = (if i = [] then None else Some i)\<rparr>"

definition warn :: "problem_code \<Rightarrow> string \<Rightarrow> problem" where
  "warn c i = \<lparr>pb_error = False, pb_code = c, pb_node = (if i = [] then None else Some i)\<rparr>"

abbreviation only_if :: "bool \<Rightarrow> 'a \<Rightarrow> 'a list" where
  "only_if b x \<equiv> (if b then [x] else [])"

section \<open>The checks\<close>

text \<open>
  The patterns that read the messages of the validator: \<open>(\S+)\<close> reads an identifier that is
  not empty and holds no white space, at the end of a pattern the part before the white space.
  A message that no pattern matches is a problem of the graph.
\<close>

definition plain_id :: "string \<Rightarrow> bool" where
  "plain_id i \<longleftrightarrow> i \<noteq> [] \<and> \<not> list_ex white_space i"

definition first_word :: "string \<Rightarrow> string" where
  "first_word = takeWhile (\<lambda>c. \<not> white_space c)"

definition graph_problem :: "graph_error \<Rightarrow> problem" where
  "graph_problem e =
     (case e of
        MissingDependency i d \<Rightarrow>
          if plain_id i \<and> first_word d \<noteq> [] then err (PC_missing_dependency (first_word d)) i else err PC_graph []
      | CycleDetected i d \<Rightarrow>
          if plain_id i \<and> first_word d \<noteq> [] then err (PC_cycle i (first_word d)) i else err PC_graph []
      | TriggerWithDependencies i \<Rightarrow> if plain_id i then err PC_trigger_has_dependencies i else err PC_graph []
      | DuplicateIds \<Rightarrow> err PC_graph [])"

definition reach_problems :: "lint_node list \<Rightarrow> string list \<Rightarrow> string list \<Rightarrow> problem list" where
  "reach_problems ns reachable referenced =
     concat (map (\<lambda>n.
       if wn_id n \<notin> set reachable then [err PC_unreachable (wn_id n)]
       else only_if (length ns > 1 \<and> wn_deps n = [] \<and> wn_id n \<notin> set referenced) (warn PC_dangling (wn_id n))) ns)"

definition condition_problems :: "branch_condition \<Rightarrow> string \<Rightarrow> problem list" where
  "condition_problems c i =
     (case c of
        Field_compare f _ _ \<Rightarrow> only_if (f = []) (err PC_branch_no_field i)
      | Field_exists f \<Rightarrow> only_if (f = []) (err PC_branch_no_field i)
      | Field_is_empty f \<Rightarrow> only_if (f = []) (err PC_branch_no_field i)
      | Expression x \<Rightarrow> only_if (js_trim x = []) (err PC_branch_no_expression i)
      | _ \<Rightarrow> [])"

definition kind_problems :: "string list \<Rightarrow> lint_node \<Rightarrow> problem list" where
  "kind_problems ids n =
     (let i = wn_id n in
      case wn_kind n of
        K_agentic \<Rightarrow>
          only_if (length (js_trim (ln_instruction n)) < 3) (err PC_agentic_no_instruction i) @
          only_if (ln_agentRole n = []) (err PC_agentic_no_role i) @
          only_if (case ln_maxUsd n of None \<Rightarrow> False | Some u \<Rightarrow> u \<le> 0) (warn PC_agentic_zero_budget i)
      | K_tool_action family name \<Rightarrow> only_if (name = []) (err PC_tool_no_capability i)
      | K_branch c ts fs \<Rightarrow>
          (if ts = [] \<and> fs = [] then [err PC_branch_no_targets i]
           else only_if (ts = [] \<or> fs = []) (warn PC_branch_one_sided i)) @
          map (\<lambda>t. err (PC_branch_bad_target t) i) (filter (\<lambda>t. t \<notin> set ids) (ts @ fs)) @
          condition_problems c i
      | K_human_approval _ \<Rightarrow>
          only_if (length (js_trim (ln_summary n)) < HUMAN_MIN_SUMMARY) (err PC_approval_no_summary i) @
          only_if (ln_approver n = []) (err PC_approval_no_approver i) @
          only_if (case wn_expiresInMs n of None \<Rightarrow> False | Some ms \<Rightarrow> ms \<le> 0) (warn PC_approval_no_expiry i)
      | K_human_review \<Rightarrow>
          only_if (length (js_trim (ln_summary n)) < HUMAN_MIN_SUMMARY) (err PC_review_no_summary i) @
          map (\<lambda>t. err (PC_review_bad_target t) i) (filter (\<lambda>t. t \<notin> set ids) (ln_reviewTargets n))
      | K_wait_timer (Delay ms) \<Rightarrow> only_if (ms \<le> 0) (err PC_wait_no_duration i)
      | K_wait_timer (Event_timer e) \<Rightarrow> only_if (e = []) (err PC_wait_no_event i)
      | K_notification \<Rightarrow>
          only_if (js_trim (ln_message n) = []) (err PC_notification_no_message i) @
          only_if (ln_channels n = []) (err PC_notification_no_channel i)
      | K_artifact_output source \<Rightarrow> only_if (source \<notin> set ids) (err PC_artifact_bad_source i)
      | K_join strategy k \<Rightarrow>
          only_if (length (wn_deps n) < 2) (warn PC_join_single_input i) @
          only_if (strategy = Join_n_of_m \<and> (\<not> truthy_num k \<or> nullish k 1 < 1)) (err PC_join_bad_n i)
      | K_deterministic \<Rightarrow> only_if (ln_functionRef n = []) (err PC_deterministic_no_function i)
      | _ \<Rightarrow> [])"

definition sort_problems :: "(string \<Rightarrow> nat) \<Rightarrow> problem list \<Rightarrow> problem list" where
  "sort_problems rank ps =
     sort_key (\<lambda>p. if pb_error p then 0 else (1::nat)) (sort_key (\<lambda>p. rank (nullish (pb_node p) [])) ps)"

abbreviation graph_of :: "lint_node list \<Rightarrow> workflow_node list" where
  "graph_of \<equiv> map workflow_node.truncate"

definition lint_entries :: "lint_node list \<Rightarrow> string list option \<Rightarrow> string list" where
  "lint_entries ns entryNodeIds =
     (case entryNodeIds of Some (x # xs) \<Rightarrow> x # xs | _ \<Rightarrow> map wn_id (entryNodes (graph_of ns)))"

definition lint_problems :: "lint_node list \<Rightarrow> string list \<Rightarrow> graph_error list \<Rightarrow> problem list" where
  "lint_problems ns declared graph_errors =
     map graph_problem graph_errors @
     only_if (entryNodes (graph_of ns) = []) (err PC_no_entry []) @
     reach_problems ns (declared @ downstreamNodes (graph_of ns) declared) (concat (map wn_deps ns)) @
     only_if (\<not> list_ex (\<lambda>n. case wn_kind n of K_completion _ \<Rightarrow> True | _ \<Rightarrow> False) ns) (warn PC_no_completion []) @
     concat (map (\<lambda>n. only_if (js_trim (ln_label n) = []) (warn PC_unnamed (wn_id n)) @
                       kind_problems (map wn_id ns) n) ns)"

definition lintDefinition ::
  "(string \<Rightarrow> nat) \<Rightarrow> lint_node list \<Rightarrow> string list option \<Rightarrow> (problem list \<times> bool) option" where
  "lintDefinition rank ns entryNodeIds =
     (if ns = [] then Some ([err PC_empty []], False)
      else case validateGraph (graph_of ns) of
        None \<Rightarrow> None
      | Some es \<Rightarrow>
          (let problems = sort_problems rank (lint_problems ns (lint_entries ns entryNodeIds) es)
           in Some (problems, \<not> list_ex pb_error problems)))"

section \<open>What a clean lint means\<close>

lemma graph_of_fields [simp]:
  "wn_id (workflow_node.truncate n) = wn_id n" "wn_deps (workflow_node.truncate n) = wn_deps n"
  "wn_kind (workflow_node.truncate n) = wn_kind n"
  by (simp_all add: workflow_node.truncate_def)

lemma graph_of_ids [simp]: "wn_id ` workflow_node.truncate ` S = wn_id ` S"
  by (simp add: image_image)

lemma set_sort_problems [simp]: "set (sort_problems rank ps) = set ps"
  by (simp add: sort_problems_def)

lemma err_error [simp]: "pb_error (err c i)" "\<not> pb_error (warn c i)"
  by (simp_all add: err_def warn_def)

lemma graph_problem_error: "pb_error (graph_problem e)"
  by (cases e) (simp_all add: graph_problem_def)

lemma lint_returns: "\<exists>ps ok. lintDefinition rank ns es = Some (ps, ok)"
  using validateGraph_total[of "graph_of ns"] by (auto simp: lintDefinition_def Let_def)

lemma lint_clean:
  assumes "lintDefinition rank ns es = Some (ps, True)"
  shows "\<exists>vs. validateGraph (graph_of ns) = Some vs \<and>
    (\<forall>p \<in> set (lint_problems ns (lint_entries ns es) vs). \<not> pb_error p)"
proof -
  obtain vs where v: "validateGraph (graph_of ns) = Some vs" using validateGraph_total by blast
  have "ns \<noteq> []" using assms by (auto simp: lintDefinition_def)
  then have "\<not> list_ex pb_error (sort_problems rank (lint_problems ns (lint_entries ns es) vs))"
    using assms v by (auto simp: lintDefinition_def Let_def)
  then show ?thesis using v by (auto simp: list_ex_iff)
qed

definition named_nodes :: "lint_node \<Rightarrow> string list" where
  "named_nodes n =
     wn_deps n @
     (case wn_kind n of
        K_branch _ ts fs \<Rightarrow> ts @ fs
      | K_human_review \<Rightarrow> ln_reviewTargets n
      | K_artifact_output source \<Rightarrow> [source]
      | _ \<Rightarrow> [])"

lemma bad_name_is_error:
  assumes "x \<in> set (named_nodes n)" and "x \<notin> set ids" and "x \<notin> set (wn_deps n)"
  shows "\<exists>p \<in> set (kind_problems ids n). pb_error p"
proof (cases "wn_kind n")
  case (K_branch c ts fs)
  with assms have "err (PC_branch_bad_target x) (wn_id n) \<in> set (kind_problems ids n)"
    by (auto simp: named_nodes_def kind_problems_def Let_def)
  then show ?thesis by (rule bexI[rotated]) simp
next
  case K_human_review
  with assms have "err (PC_review_bad_target x) (wn_id n) \<in> set (kind_problems ids n)"
    by (auto simp: named_nodes_def kind_problems_def Let_def)
  then show ?thesis by (rule bexI[rotated]) simp
next
  case (K_artifact_output source)
  with assms show ?thesis by (simp add: named_nodes_def kind_problems_def Let_def)
qed (use assms in \<open>simp_all add: named_nodes_def\<close>)

text \<open>C37: A definition that lints without errors is sound: its identifiers are distinct, its graph has no cycle, every node can be reached from the entry nodes that the linter uses, and every node that a node names (dependencies, branch and review targets, artifact sources) exists.\<close>

theorem clean_lint_means_sound_definition:
  assumes "lintDefinition rank ns es = Some (ps, True)" and "n \<in> set ns"
  shows "distinct (map wn_id ns) \<and> acyclic (feeds (graph_of ns)) \<and>
    wn_id n \<in> (feeds (graph_of ns))\<^sup>* `` set (lint_entries ns es) \<and> set (named_nodes n) \<subseteq> wn_id ` set ns"
proof -
  obtain vs where v: "validateGraph (graph_of ns) = Some vs"
    and clean: "\<forall>p \<in> set (lint_problems ns (lint_entries ns es) vs). \<not> pb_error p"
    using lint_clean[OF assms(1)] by blast
  have "vs = []"
  proof (cases vs)
    case (Cons x xs)
    then have "graph_problem x \<in> set (lint_problems ns (lint_entries ns es) vs)" by (simp add: lint_problems_def)
    then show ?thesis using clean graph_problem_error by blast
  qed
  with v have g: "graph_ok (graph_of ns)" by (simp add: validateGraph_iff)
  have "wn_id n \<in> set (lint_entries ns es) \<union> set (downstreamNodes (graph_of ns) (lint_entries ns es))"
  proof (rule ccontr)
    assume "\<not> ?thesis"
    then have "err PC_unreachable (wn_id n) \<in> set (lint_problems ns (lint_entries ns es) vs)"
      using assms(2) by (auto simp: lint_problems_def reach_problems_def)
    then show False using clean by force
  qed
  then have "wn_id n \<in> (feeds (graph_of ns))\<^sup>* `` set (lint_entries ns es)"
    by (auto simp: downstreamNodes_is_closure intro: trancl_into_rtrancl)
  moreover have "x \<in> wn_id ` set ns" if x: "x \<in> set (named_nodes n)" for x
  proof (rule ccontr)
    assume not_in: "x \<notin> wn_id ` set ns"
    have "x \<notin> set (wn_deps n)" using g assms(2) not_in by (auto simp: graph_ok_def)
    then obtain p where p: "p \<in> set (kind_problems (map wn_id ns) n)" "pb_error p"
      using bad_name_is_error[OF x, of "map wn_id ns"] not_in by auto
    then have "p \<in> set (lint_problems ns (lint_entries ns es) vs)" using assms(2) by (auto simp: lint_problems_def)
    with clean p(2) show False by blast
  qed
  ultimately show ?thesis using g by (auto simp: graph_ok_def comp_def)
qed

definition lint_example :: "lint_node list" where
  "lint_example =
     (let node = (\<lambda>i k ds. \<lparr>wn_id = i, wn_kind = k, wn_deps = ds, wn_maxRetries = 0, wn_expiresInMs = None,
            wn_onFailure = On_stop_workflow, wn_compensateNodeId = None, ln_label = i, ln_instruction = [],
            ln_agentRole = [], ln_maxUsd = None, ln_summary = [], ln_approver = [], ln_reviewTargets = [],
            ln_message = [], ln_channels = [], ln_functionRef = ''builtin:noop''\<rparr>)
      in [node ''start'' K_trigger [], node ''check'' (K_branch (Field_exists ''start'') [''work''] [''done'']) [''start''],
          node ''work'' K_deterministic [''check''], node ''done'' (K_completion Success) [''work'']])"

theorem clean_lint_means_sound_definition_witness:
  "distinct (map wn_id lint_example) \<and> acyclic (feeds (graph_of lint_example)) \<and>
   ''done'' \<in> (feeds (graph_of lint_example))\<^sup>* `` set (lint_entries lint_example None) \<and>
   set (named_nodes (lint_example ! 3)) \<subseteq> wn_id ` set lint_example"
proof -
  have "lintDefinition (\<lambda>_. 0) lint_example None = Some ([], True)" "wn_id (lint_example ! 3) = ''done''"
    "length lint_example = 4"
    by code_simp+
  then show ?thesis
    using clean_lint_means_sound_definition[of "\<lambda>_. 0" lint_example None "[]" "lint_example ! 3"] by simp
qed

text \<open>The linter checks a duration but not a deadline, and accepts an event wait that the engine cannot end.\<close>

lemma lint_accepts_event_waits:
  "kind_problems ids (n\<lparr>wn_kind := K_wait_timer (Event_timer ''paid'')\<rparr>) = []"
  by (simp add: kind_problems_def Let_def)

end
