(* ===== verification/Workflow_Versions.thy ===== *)
theory Workflow_Versions
  imports Workflow_Graph
begin

text \<open>
  Versions of workflow definitions (\<open>execution/workflow/versioning.ts\<close> and the integrity check
  of \<open>execution/workflow/types.ts\<close>): drafts, publication, new versions, the check of the content
  hash and the compatibility of two versions. The two hash functions are parameters: the one
  reads the whole definition but for its hash and its time of publication, the other one the
  identifiers and kinds of the nodes only. Schema, parameters, artifacts and author are left out.
\<close>

section \<open>Definitions and their hashes\<close>

record versioned =
  vd_definitionId :: string
  vd_name :: string
  vd_description :: "string option"
  vd_version :: int
  vd_nodes :: "workflow_node list"
  vd_entries :: "string list"
  vd_tags :: "string list"
  vd_publishedAt :: int
  vd_contentHash :: string
  vd_active :: bool
  vd_supersedes :: "string option"

record hashes =
  hashDefinition :: "versioned \<Rightarrow> string"
  hashDefinitionLegacyV1 :: "versioned \<Rightarrow> string"

text \<open>What \<open>hashDefinition\<close> does not read.\<close>

definition same_content :: "versioned \<Rightarrow> versioned \<Rightarrow> bool" where
  "same_content a b \<longleftrightarrow>
     a\<lparr>vd_contentHash := [], vd_publishedAt := 0\<rparr> = b\<lparr>vd_contentHash := [], vd_publishedAt := 0\<rparr>"

definition content_only :: "hashes \<Rightarrow> bool" where
  "content_only H \<longleftrightarrow> (\<forall>a b. same_content a b \<longrightarrow> hashDefinition H a = hashDefinition H b)"

datatype integrity_level = Level_v2 | Level_legacy_v1 | Level_invalid

definition checkDefinitionIntegrity :: "hashes \<Rightarrow> versioned \<Rightarrow> integrity_level" where
  "checkDefinitionIntegrity H d =
     (if vd_contentHash d = hashDefinition H d then Level_v2
      else if vd_contentHash d = hashDefinitionLegacyV1 H d then Level_legacy_v1
      else Level_invalid)"

definition verifyIntegrity :: "hashes \<Rightarrow> versioned \<Rightarrow> bool" where
  "verifyIntegrity H d \<longleftrightarrow> checkDefinitionIntegrity H d \<noteq> Level_invalid"

definition with_hash :: "hashes \<Rightarrow> versioned \<Rightarrow> versioned" where
  "with_hash H d = d\<lparr>vd_contentHash := hashDefinition H d\<rparr>"

section \<open>Drafts and publication\<close>

definition createDraft ::
  "hashes \<Rightarrow> string \<Rightarrow> string \<Rightarrow> string option \<Rightarrow> workflow_node list \<Rightarrow> string list \<Rightarrow> string list option \<Rightarrow> versioned" where
  "createDraft H definitionId name description nodes entries tags =
     with_hash H \<lparr>vd_definitionId = definitionId, vd_name = name, vd_description = description, vd_version = 0,
       vd_nodes = nodes, vd_entries = entries, vd_tags = nullish tags [], vd_publishedAt = 0, vd_contentHash = [],
       vd_active = False, vd_supersedes = None\<rparr>"

datatype publish_error = Already_published

definition publishDraft :: "hashes \<Rightarrow> int \<Rightarrow> versioned \<Rightarrow> string option \<Rightarrow> publish_error + versioned" where
  "publishDraft H now draft supersedes =
     (if vd_version draft \<noteq> 0 then Inl Already_published
      else Inr (with_hash H (draft\<lparr>vd_version := 1, vd_publishedAt := now, vd_active := True, vd_supersedes := supersedes\<rparr>)))"

record updates =
  up_name :: "string option"
  up_description :: "string option"
  up_nodes :: "workflow_node list option"
  up_entries :: "string list option"
  up_tags :: "string list option"

definition createNewVersion :: "hashes \<Rightarrow> versioned \<Rightarrow> updates \<Rightarrow> versioned" where
  "createNewVersion H base u =
     with_hash H \<lparr>vd_definitionId = vd_definitionId base, vd_name = nullish (up_name u) (vd_name base),
       vd_description = (case up_description u of None \<Rightarrow> vd_description base | d \<Rightarrow> d), vd_version = 0,
       vd_nodes = nullish (up_nodes u) (vd_nodes base), vd_entries = nullish (up_entries u) (vd_entries base),
       vd_tags = nullish (up_tags u) (vd_tags base), vd_publishedAt = 0, vd_contentHash = [], vd_active = False,
       vd_supersedes = None\<rparr>"

definition publishNewVersion ::
  "hashes \<Rightarrow> int \<Rightarrow> versioned \<Rightarrow> int \<Rightarrow> string option \<Rightarrow> publish_error + versioned" where
  "publishNewVersion H now draft lastPublishedVersion supersedes =
     (if vd_version draft \<noteq> 0 then Inl Already_published
      else Inr (with_hash H (draft\<lparr>vd_version := lastPublishedVersion + 1, vd_publishedAt := now, vd_active := True,
                                   vd_supersedes := supersedes\<rparr>)))"

lemma with_hash_intact: "content_only H \<Longrightarrow> checkDefinitionIntegrity H (with_hash H d) = Level_v2"
proof -
  assume H: "content_only H"
  have "same_content (with_hash H d) d" by (simp add: same_content_def with_hash_def)
  with H have "hashDefinition H (with_hash H d) = hashDefinition H d" unfolding content_only_def by blast
  then show ?thesis by (simp add: checkDefinitionIntegrity_def) (simp add: with_hash_def)
qed

text \<open>
  What publication promises: the published definition passes the integrity check at the full
  level, and a definition whose content differs and hashes differently fails it, unless its
  stored hash is the legacy hash.
\<close>

lemma published_is_intact:
  assumes "content_only H" and "publishDraft H now draft older = Inr d"
  shows "checkDefinitionIntegrity H d = Level_v2 \<and> vd_version d = 1 \<and> vd_active d"
proof -
  from assms(2) have d: "d = with_hash H (draft\<lparr>vd_version := 1, vd_publishedAt := now, vd_active := True, vd_supersedes := older\<rparr>)"
    by (auto simp: publishDraft_def split: if_splits)
  then show ?thesis using with_hash_intact[OF assms(1)] by (simp add: with_hash_def)
qed

lemma altered_is_rejected:
  assumes "checkDefinitionIntegrity H d = Level_v2" and "vd_contentHash d' = vd_contentHash d"
    and "hashDefinition H d' \<noteq> hashDefinition H d" and "vd_contentHash d \<noteq> hashDefinitionLegacyV1 H d'"
  shows "\<not> verifyIntegrity H d'"
  using assms by (auto simp: verifyIntegrity_def checkDefinitionIntegrity_def split: if_splits)

section \<open>Compatible versions\<close>

datatype migration_refusal =
    Different_definition
  | Target_not_newer
  | Node_removed string
  | Node_kind_changed string
  | Dependency_removed string

text \<open>The tag of a node kind, which is what the comparison of kinds sees.\<close>

fun kind_tag :: "node_kind \<Rightarrow> nat" where
  "kind_tag K_trigger = 0"
| "kind_tag K_deterministic = 1"
| "kind_tag K_agentic = 2"
| "kind_tag (K_human_approval _) = 3"
| "kind_tag K_human_review = 4"
| "kind_tag (K_tool_action _ _) = 5"
| "kind_tag (K_wait_timer _) = 6"
| "kind_tag (K_branch _ _ _) = 7"
| "kind_tag (K_join _ _) = 8"
| "kind_tag (K_artifact_output _) = 9"
| "kind_tag K_business_record = 10"
| "kind_tag K_notification = 11"
| "kind_tag (K_completion _) = 12"
| "kind_tag (K_compensation _) = 13"

fun node_refusal :: "workflow_node list \<Rightarrow> workflow_node list \<Rightarrow> migration_refusal option" where
  "node_refusal [] new = None"
| "node_refusal (n # ns) new =
     (case find_node (wn_id n) new of
        None \<Rightarrow> Some (Node_removed (wn_id n))
      | Some m \<Rightarrow>
          if kind_tag (wn_kind m) \<noteq> kind_tag (wn_kind n) then Some (Node_kind_changed (wn_id n))
          else if \<not> set (wn_deps n) \<subseteq> set (wn_deps m) then Some (Dependency_removed (wn_id n))
          else node_refusal ns new)"

definition canMigrateActiveRun :: "versioned \<Rightarrow> versioned \<Rightarrow> migration_refusal option" where
  "canMigrateActiveRun old new =
     (if vd_definitionId old \<noteq> vd_definitionId new then Some Different_definition
      else if vd_version old \<ge> vd_version new then Some Target_not_newer
      else node_refusal (vd_nodes old) (vd_nodes new))"

lemma node_refusal_None:
  "node_refusal ns new = None \<longleftrightarrow>
     (\<forall>n \<in> set ns. \<exists>m. find_node (wn_id n) new = Some m \<and> kind_tag (wn_kind m) = kind_tag (wn_kind n) \<and>
        set (wn_deps n) \<subseteq> set (wn_deps m))"
  by (induction ns) (auto split: option.splits)

text \<open>A run may skip the versions in between.\<close>

lemma migration_composes:
  assumes "canMigrateActiveRun a b = None" and "canMigrateActiveRun b c = None"
  shows "canMigrateActiveRun a c = None"
proof -
  have ab: "vd_definitionId a = vd_definitionId b" "vd_version a < vd_version b" "node_refusal (vd_nodes a) (vd_nodes b) = None"
    and bc: "vd_definitionId b = vd_definitionId c" "vd_version b < vd_version c" "node_refusal (vd_nodes b) (vd_nodes c) = None"
    using assms by (auto simp: canMigrateActiveRun_def split: if_splits)
  have "\<exists>m. find_node (wn_id n) (vd_nodes c) = Some m \<and> kind_tag (wn_kind m) = kind_tag (wn_kind n) \<and>
      set (wn_deps n) \<subseteq> set (wn_deps m)" if n: "n \<in> set (vd_nodes a)" for n
  proof -
    obtain m where m: "find_node (wn_id n) (vd_nodes b) = Some m" "kind_tag (wn_kind m) = kind_tag (wn_kind n)"
      "set (wn_deps n) \<subseteq> set (wn_deps m)"
      using ab(3) n unfolding node_refusal_None by blast
    have "m \<in> set (vd_nodes b)" "wn_id m = wn_id n" using find_node_id[OF m(1)] by simp_all
    then obtain k where "find_node (wn_id n) (vd_nodes c) = Some k" "kind_tag (wn_kind k) = kind_tag (wn_kind m)"
      "set (wn_deps m) \<subseteq> set (wn_deps k)"
      using bc(3) unfolding node_refusal_None by metis
    with m show ?thesis by auto
  qed
  then have "node_refusal (vd_nodes a) (vd_nodes c) = None" unfolding node_refusal_None by blast
  with ab bc show ?thesis by (simp add: canMigrateActiveRun_def)
qed

end
