(* ===== verification/Exec_Lease.thy ===== *)
theory Exec_Lease
  imports XR_Prelude
begin

text \<open>
  The lease manager (\<open>src/execution/lease.ts\<close>): ownership rows keyed by target, acquired
  with takeover from dead owners. The table is the list of its rows (\<open>LeaseRow\<close> and
  \<open>ExecutionLease\<close> carry the same columns, so one record stands for both). Every SQL
  statement may fail; a \<open>lease_faults\<close> record says which do, and each \<open>catch\<close> is a
  branch. \<open>process.kill(pid, 0)\<close> of the operating system is the parameter \<open>kill\<close>. Here each method
  is one call that runs alone; \<open>acquire\<close> is several statements without a transaction, and
  \<open>Lease_Statements\<close> takes it apart into them and interleaves the calls of several processes.
\<close>

datatype lease_target = LT_execution | LT_workflow | LT_task | LT_recovery

definition LEASE_TTL_MS :: int where
  "LEASE_TTL_MS = 5 * 60 * 1000"

record execution_lease =
  leaseId :: string
  targetType :: lease_target
  targetId :: string
  lease_workspaceId :: string
  ownerPid :: int
  ownerInstanceId :: string
  acquiredAt :: int
  expiresAt :: "int option"
  releasedAt :: "int option"
  releaseReason :: "string option"
  stale :: bool

record lease_manager =
  instanceId :: string
  pid :: int

record lease_faults =
  select_fails :: bool
  delete_fails :: bool
  update_fails :: bool
  insert_fails :: bool

datatype kill_result = Kill_ok | Kill_ESRCH | Kill_EPERM | Kill_other

definition isProcessDead :: "(int \<Rightarrow> kill_result) \<Rightarrow> int \<Rightarrow> bool" where
  "isProcessDead kill p =
     (if p \<le> 0 then True
      else case kill p of
        Kill_ok \<Rightarrow> False
      | Kill_ESRCH \<Rightarrow> True
      | Kill_EPERM \<Rightarrow> False
      | Kill_other \<Rightarrow> True)"

type_synonym lease_table = "execution_lease list"

definition for_target :: "lease_target \<Rightarrow> string \<Rightarrow> execution_lease \<Rightarrow> bool" where
  "for_target tt tid r \<longleftrightarrow> targetType r = tt \<and> targetId r = tid"

definition getLease :: "lease_faults \<Rightarrow> lease_target \<Rightarrow> string \<Rightarrow> lease_table \<Rightarrow> execution_lease option" where
  "getLease flt tt tid tbl = (if select_fails flt then None else find (for_target tt tid) tbl)"

text \<open>\<open>INSERT\<close> under \<open>PRIMARY KEY (lease_id)\<close> and \<open>UNIQUE (target_type, target_id)\<close>.\<close>

definition insert_lease :: "lease_faults \<Rightarrow> execution_lease \<Rightarrow> lease_table \<Rightarrow> lease_table option" where
  "insert_lease flt l tbl =
     (if insert_fails flt \<or>
         (\<exists>r \<in> set tbl. leaseId r = leaseId l \<or> for_target (targetType l) (targetId l) r)
      then None else Some (tbl @ [l]))"

definition markStale :: "lease_faults \<Rightarrow> string \<Rightarrow> lease_table \<Rightarrow> lease_table" where
  "markStale flt lid tbl =
     (if update_fails flt then tbl
      else map (\<lambda>r. if leaseId r = lid then r\<lparr>stale := True\<rparr> else r) tbl)"

definition delete_where :: "lease_faults \<Rightarrow> (execution_lease \<Rightarrow> bool) \<Rightarrow> lease_table \<Rightarrow> lease_table" where
  "delete_where flt P tbl = (if delete_fails flt then tbl else filter (\<lambda>r. \<not> P r) tbl)"

definition renew ::
  "lease_faults \<Rightarrow> int \<Rightarrow> execution_lease \<Rightarrow> lease_table \<Rightarrow> execution_lease \<times> lease_table" where
  "renew flt now existing tbl =
     (let newExpiry = now + LEASE_TTL_MS in
      (existing\<lparr>expiresAt := Some newExpiry\<rparr>,
       if update_fails flt then tbl
       else map (\<lambda>r. if leaseId r = leaseId existing
                      then r\<lparr>expiresAt := Some newExpiry, stale := False\<rparr> else r) tbl))"

definition fresh_lease ::
  "lease_manager \<Rightarrow> int \<Rightarrow> string \<Rightarrow> lease_target \<Rightarrow> string \<Rightarrow> string \<Rightarrow> int option \<Rightarrow> execution_lease" where
  "fresh_lease m now lid tt tid ws ttl =
     \<lparr>leaseId = lid, targetType = tt, targetId = tid, lease_workspaceId = ws,
      ownerPid = pid m, ownerInstanceId = instanceId m, acquiredAt = now,
      expiresAt = Some (if truthy_num ttl then now + nullish ttl 0 else now + LEASE_TTL_MS),
      releasedAt = None, releaseReason = None, stale = False\<rparr>"

definition try_insert ::
  "lease_faults \<Rightarrow> execution_lease \<Rightarrow> lease_table \<Rightarrow> execution_lease option \<times> lease_table" where
  "try_insert flt l tbl =
     (case insert_lease flt l tbl of None \<Rightarrow> (None, tbl) | Some tbl' \<Rightarrow> (Some l, tbl'))"

definition acquire ::
  "(int \<Rightarrow> kill_result) \<Rightarrow> lease_faults \<Rightarrow> lease_manager \<Rightarrow> int \<Rightarrow> string \<Rightarrow> lease_target \<Rightarrow> string \<Rightarrow>
   string \<Rightarrow> bool option \<Rightarrow> int option \<Rightarrow> lease_table \<Rightarrow> execution_lease option \<times> lease_table" where
  "acquire kill flt m now lid tt tid ws allowTakeover ttl tbl =
     (let l = fresh_lease m now lid tt tid ws ttl in
      case getLease flt tt tid tbl of
        None \<Rightarrow> try_insert flt l tbl
      | Some existing \<Rightarrow>
          if truthy_num (releasedAt existing)
          then try_insert flt l (delete_where flt (for_target tt tid) tbl)
          else if isProcessDead kill (ownerPid existing)
          then if allowTakeover \<noteq> Some False
               then try_insert flt l
                      (delete_where flt (\<lambda>r. leaseId r = leaseId existing)
                        (markStale flt (leaseId existing) tbl))
               else (None, tbl)
          else if ownerInstanceId existing = instanceId m
          then (case renew flt now existing tbl of (l', tbl') \<Rightarrow> (Some l', tbl'))
          else (None, tbl))"

definition release ::
  "lease_faults \<Rightarrow> int \<Rightarrow> lease_target \<Rightarrow> string \<Rightarrow> string \<Rightarrow> lease_table \<Rightarrow> bool \<times> lease_table" where
  "release flt now tt tid reason tbl =
     (if update_fails flt then (False, tbl)
      else (True, map (\<lambda>r. if for_target tt tid r \<and> releasedAt r = None
                            then r\<lparr>releasedAt := Some now, releaseReason := Some reason\<rparr>
                            else r) tbl))"

definition holdsLease ::
  "lease_faults \<Rightarrow> lease_manager \<Rightarrow> lease_target \<Rightarrow> string \<Rightarrow> lease_table \<Rightarrow> bool" where
  "holdsLease flt m tt tid tbl =
     (case getLease flt tt tid tbl of
        None \<Rightarrow> False
      | Some l \<Rightarrow>
          if truthy_num (releasedAt l) then False
          else if stale l then False
          else ownerInstanceId l = instanceId m \<and> ownerPid l = pid m)"

definition getWorkspaceLeases :: "lease_faults \<Rightarrow> string \<Rightarrow> lease_table \<Rightarrow> execution_lease list" where
  "getWorkspaceLeases flt ws tbl =
     (if select_fails flt then []
      else take 200 (latest_first acquiredAt
             (filter (\<lambda>r. lease_workspaceId r = ws \<and> releasedAt r = None) tbl)))"

text \<open>\<open>cleanup\<close> deletes old stale or released rows and always returns 0.\<close>

definition expired_row :: "int \<Rightarrow> execution_lease \<Rightarrow> bool" where
  "expired_row cutoff r \<longleftrightarrow>
     stale r \<and> acquiredAt r < cutoff \<or>
     (case releasedAt r of None \<Rightarrow> False | Some t \<Rightarrow> t < cutoff)"

definition cleanup :: "lease_faults \<Rightarrow> int \<Rightarrow> int option \<Rightarrow> lease_table \<Rightarrow> int \<times> lease_table" where
  "cleanup flt now cutoffMs tbl =
     (let cutoff = nullish cutoffMs (now - LEASE_TTL_MS * 2) in
      (0, delete_where flt (expired_row cutoff) tbl))"

declare getLease_def [store_defs] insert_lease_def [store_defs] markStale_def [store_defs]
  delete_where_def [store_defs] renew_def [store_defs] try_insert_def [store_defs]
  acquire_def [store_defs] release_def [store_defs] cleanup_def [store_defs]

section \<open>The uniqueness invariant\<close>

definition lease_key :: "execution_lease \<Rightarrow> lease_target \<times> string" where
  "lease_key r = (targetType r, targetId r)"

definition lease_inv :: "lease_table \<Rightarrow> bool" where
  "lease_inv tbl \<longleftrightarrow> distinct (map lease_key tbl) \<and> distinct (map leaseId tbl)"

lemma for_target_key: "for_target tt tid r \<longleftrightarrow> lease_key r = (tt, tid)"
  by (auto simp: for_target_def lease_key_def)

lemma lease_inv_map:
  assumes "lease_inv tbl" and "\<And>r. lease_key (f r) = lease_key r \<and> leaseId (f r) = leaseId r"
  shows "lease_inv (map f tbl)"
  using assms by (simp add: lease_inv_def comp_def)

lemma distinct_map_filter_sub: "distinct (map f xs) \<Longrightarrow> distinct (map f (filter P xs))"
  by (induction xs) auto

lemma lease_inv_filter: "lease_inv tbl \<Longrightarrow> lease_inv (filter P tbl)"
  by (simp add: lease_inv_def distinct_map_filter_sub)

lemma find_target_iff:
  assumes "lease_inv tbl"
  shows "find (for_target tt tid) tbl = Some r \<longleftrightarrow> r \<in> set tbl \<and> lease_key r = (tt, tid)"
proof
  assume "find (for_target tt tid) tbl = Some r"
  then show "r \<in> set tbl \<and> lease_key r = (tt, tid)"
    by (auto simp: find_Some_iff for_target_key)
next
  assume r: "r \<in> set tbl \<and> lease_key r = (tt, tid)"
  then have "find (for_target tt tid) tbl \<noteq> None"
    by (auto simp: find_None_iff for_target_key)
  then obtain q where q: "find (for_target tt tid) tbl = Some q" by blast
  then have "q \<in> set tbl" "lease_key q = (tt, tid)"
    by (auto simp: find_Some_iff for_target_key)
  moreover have "inj_on lease_key (set tbl)"
    using assms by (simp add: lease_inv_def distinct_map)
  ultimately have "q = r" using r by (metis inj_onD)
  then show "find (for_target tt tid) tbl = Some r" using q by simp
qed

lemma find_append_None:
  "find P xs = None \<Longrightarrow> find P (xs @ [x]) = (if P x then Some x else None)"
  by (induction xs) (auto split: if_splits)

lemma same_id_same_row:
  "lease_inv tbl \<Longrightarrow> r \<in> set tbl \<Longrightarrow> q \<in> set tbl \<Longrightarrow> leaseId r = leaseId q \<Longrightarrow> r = q"
  by (auto simp: lease_inv_def distinct_map dest: inj_onD)

lemma try_insert_inv:
  assumes "lease_inv tbl"
  shows "lease_inv (snd (try_insert flt l tbl))"
  using assms
  by (auto simp: try_insert_def insert_lease_def lease_inv_def for_target_key lease_key_def
      split: option.splits)

lemma markStale_inv: "lease_inv tbl \<Longrightarrow> lease_inv (markStale flt lid tbl)"
  by (auto simp: markStale_def lease_key_def intro!: lease_inv_map)

lemma delete_where_inv: "lease_inv tbl \<Longrightarrow> lease_inv (delete_where flt P tbl)"
  by (simp add: delete_where_def lease_inv_filter)

lemma acquire_inv:
  assumes "lease_inv tbl"
  shows "lease_inv (snd (acquire kill flt m now lid tt tid ws tk ttl tbl))"
proof -
  have "lease_inv (snd (renew flt now ex tbl))" for ex
    using assms by (auto simp: renew_def Let_def lease_key_def intro!: lease_inv_map)
  then show ?thesis
    using assms
    by (auto simp: acquire_def Let_def try_insert_inv markStale_inv delete_where_inv
        split: option.splits prod.splits)
       (metis snd_conv)+
qed

lemma release_inv: "lease_inv tbl \<Longrightarrow> lease_inv (snd (release flt now tt tid reason tbl))"
  by (auto simp: release_def lease_key_def intro!: lease_inv_map)

lemma cleanup_inv: "lease_inv tbl \<Longrightarrow> lease_inv (snd (cleanup flt now c tbl))"
  by (simp add: cleanup_def delete_where_inv Let_def)

section \<open>Live processes\<close>

text \<open>The answers of \<open>process.kill(pid, 0)\<close> when exactly the processes \<open>ps\<close> live.\<close>

definition kill_of :: "int list \<Rightarrow> int \<Rightarrow> kill_result" where
  "kill_of ps p = (if p \<in> set ps then Kill_ok else Kill_ESRCH)"

definition no_faults :: lease_faults where
  "no_faults = \<lparr>select_fails = False, delete_fails = False, update_fails = False, insert_fails = False\<rparr>"

definition mgr_a :: lease_manager where "mgr_a = \<lparr>instanceId = ''xr_a'', pid = 10\<rparr>"
definition mgr_b :: lease_manager where "mgr_b = \<lparr>instanceId = ''xr_b'', pid = 20\<rparr>"

definition lease_demo :: lease_table where
  "lease_demo = [fresh_lease mgr_a 0 ''lse_1'' LT_execution ''ex_1'' ''ws'' None]"

text \<open>C39: after its owner has crashed a target can be taken over: unless takeover is forbidden,
  a manager that acquires with a fresh lease id and no database fault gets the lease, and the
  table then says that it holds it.\<close>

theorem crashed_owner_taken_over:
  assumes "lease_inv tbl" and "find (for_target tt tid) tbl = Some old"
    and "releasedAt old = None" and "isProcessDead kill (ownerPid old)"
    and "tk \<noteq> Some False" and "\<forall>r \<in> set tbl. leaseId r \<noteq> lid" and "flt = no_faults"
  shows "fst (acquire kill flt m now lid tt tid ws tk ttl tbl) = Some (fresh_lease m now lid tt tid ws ttl) \<and>
     holdsLease flt m tt tid (snd (acquire kill flt m now lid tt tid ws tk ttl tbl))"
proof -
  let ?tbl = "filter (\<lambda>q. leaseId q \<noteq> leaseId old)
      (map (\<lambda>r. if leaseId r = leaseId old then r\<lparr>stale := True\<rparr> else r) tbl)"
  have old: "old \<in> set tbl" "lease_key old = (tt, tid)"
    using assms(2) find_target_iff[OF assms(1)] by auto
  have gone: "\<not> for_target tt tid r" if "r \<in> set ?tbl" for r
    using that old same_id_same_row[OF assms(1)] find_target_iff[OF assms(1)] assms(2)
    by (auto simp: for_target_key split: if_splits) (metis option.inject)
  have ins: "insert_lease flt (fresh_lease m now lid tt tid ws ttl) ?tbl =
      Some (?tbl @ [fresh_lease m now lid tt tid ws ttl])"
    using gone assms(6,7) by (auto simp: insert_lease_def no_faults_def fresh_lease_def split: if_splits)
  have "find (for_target tt tid) ?tbl = None"
    using gone by (auto simp: find_None_iff)
  then have "find (for_target tt tid) (?tbl @ [l]) = (if for_target tt tid l then Some l else None)" for l
    by (simp add: find_append_None)
  then show ?thesis
    using assms ins
    by (simp add: acquire_def getLease_def no_faults_def Let_def delete_where_def markStale_def
        try_insert_def holdsLease_def fresh_lease_def for_target_def)
qed

theorem crashed_owner_taken_over_witness:
  "fst (acquire (kill_of [20]) no_faults mgr_b 5 ''lse_2'' LT_execution ''ex_1'' ''ws'' None None lease_demo)
     = Some (fresh_lease mgr_b 5 ''lse_2'' LT_execution ''ex_1'' ''ws'' None) \<and>
   holdsLease no_faults mgr_b LT_execution ''ex_1''
     (snd (acquire (kill_of [20]) no_faults mgr_b 5 ''lse_2'' LT_execution ''ex_1'' ''ws'' None None lease_demo))"
  by (rule crashed_owner_taken_over[where old = "fresh_lease mgr_a 0 ''lse_1'' LT_execution ''ex_1'' ''ws'' None"])
     (simp_all add: lease_demo_def lease_inv_def fresh_lease_def mgr_a_def for_target_def
       isProcessDead_def kill_of_def)

text \<open>
  Two limits of the mechanism. The expiry time is stored and renewed but never read: a lease
  long past its \<open>expiresAt\<close> still blocks everybody else while its owner lives. And
  \<open>release\<close> does not look at the owner: any caller ends any lease.
\<close>

lemma expired_lease_still_blocks:
  "acquire (kill_of [10, 20]) no_faults mgr_b (10 * LEASE_TTL_MS) ''lse_2'' LT_execution ''ex_1'' ''ws''
     None None lease_demo = (None, lease_demo)"
  by (simp add: acquire_def getLease_def no_faults_def lease_demo_def fresh_lease_def for_target_def
      mgr_a_def mgr_b_def isProcessDead_def kill_of_def LEASE_TTL_MS_def)

lemma release_ignores_owner:
  assumes "holdsLease no_faults m tt tid tbl" and "lease_inv tbl" and "now \<noteq> 0"
    and "\<forall>r \<in> set tbl. releasedAt r \<noteq> Some 0"
  shows "\<not> holdsLease no_faults m tt tid (snd (release no_faults now tt tid reason tbl))"
proof -
  let ?g = "\<lambda>r. if for_target tt tid r \<and> releasedAt r = None
                 then r\<lparr>releasedAt := Some now, releaseReason := Some reason\<rparr> else r"
  have find_map: "find (for_target tt tid) (map ?g xs) = map_option ?g (find (for_target tt tid) xs)" for xs
    by (induction xs) (auto simp: for_target_def)
  show ?thesis
    using assms
    by (auto simp: holdsLease_def getLease_def no_faults_def release_def find_map truthy_num_def
        find_Some_iff split: option.splits if_splits)
qed

end
