(* ===== verification/Exec_Recovery.thy ===== *)
theory Exec_Recovery
  imports Exec_Checkpoint Exec_Lease
begin

text \<open>
  The recovery manager (\<open>src/execution/recovery.ts\<close>): discovery of unfinished executions,
  the classification of an interrupted execution, the basis check before a resume may be
  claimed, and the tables of decisions, cancellations and environment attachments. The
  verification hooks are values: what the hook returns, or that it throws. Reason texts are
  constructors with their interpolated values.
\<close>

section \<open>Data\<close>

datatype recovery_state =
    RS_running | RS_checkpointed | RS_interrupted | RS_startup_recovery_pending
  | RS_recoverable | RS_resuming | RS_resumed | RS_paused | RS_cancellation_requested
  | RS_recovery_blocked

datatype recovery_action = RA_auto_resume | RA_requires_approval | RA_blocked | RA_quarantined

datatype recovery_classification =
    RC_safe | RC_unknown_side_effect | RC_authority_expired | RC_environment_lost
  | RC_cancellation_pending | RC_non_idempotent_unsafe | RC_checkpoint_invalid
  | RC_audit_chain_broken

record recovery_decision =
  rd_recoveryId :: string
  rd_targetType :: lease_target
  rd_targetId :: string
  rd_action :: recovery_action
  rd_classification :: recovery_classification
  rd_reason :: string
  rd_by_user :: bool
  rd_decidedAt :: int

datatype final_state = FS_cancelled | FS_reconciliation_required

record durable_cancellation =
  dc_cancellationId :: string
  dc_targetType :: lease_target
  dc_targetId :: string
  dc_requestedAt :: int
  dc_requestedBy :: string
  dc_reason :: "string option"
  dc_acknowledged :: bool
  dc_acknowledgedAt :: "int option"
  dc_sideEffectPossible :: bool
  dc_finalState :: "final_state option"

datatype env_state =
    EN_created | EN_starting | EN_ready | EN_running | EN_stopping | EN_stopped
  | EN_failed | EN_quarantined

record environment_attachment =
  env_attachmentId :: string
  env_environmentId :: string
  env_executionId :: string
  env_workspaceId :: string
  env_backendId :: string
  env_placement :: string
  env_tier :: string
  env_lifecycleState :: env_state
  env_pid :: "int option"
  env_createdAt :: int
  env_lastKnownAt :: int
  env_cleanupState :: "string option"
  env_quarantined :: bool
  env_quarantineReason :: "string option"

text \<open>What a hook does when it is called: a verdict with an optional reason, or a throw.\<close>

datatype hook_result = Hook_ok | Hook_bad "string option" | Hook_throws string

record recovery_hooks =
  hook_auditChain :: "hook_result option"
  hook_authority :: "(json \<Rightarrow> execution_record \<Rightarrow> hook_result) option"

datatype recovery_reason =
    R_cancelled_maybe_effect | R_cancelled | R_audit_broken hook_result | R_checkpoint_invalid checkpoint_defect
  | R_authority_invalid hook_result | R_not_in_flight exec_state | R_checkpoint_safe checkpoint_kind
  | R_naturally_idempotent exec_state | R_has_key | R_effect_unknown exec_state idempotency_class
  | R_quarantined | R_no_checkpoint | R_known_checkpoint exec_state

type_synonym recovery_verdict = "recovery_action \<times> recovery_classification \<times> recovery_reason"

section \<open>Discovery\<close>

definition UNFINISHED_STATES :: "exec_state list" where
  "UNFINISHED_STATES =
     [S_queued, S_running, S_observing, S_awaiting_approval, S_awaiting_policy, S_authorized]"

fun discovery_priority :: "exec_state \<Rightarrow> nat" where
  "discovery_priority S_running = 0"
| "discovery_priority S_observing = 0"
| "discovery_priority S_awaiting_approval = 1"
| "discovery_priority S_awaiting_policy = 2"
| "discovery_priority S_authorized = 3"
| "discovery_priority S_queued = 4"
| "discovery_priority _ = 5"

text \<open>
  A row of \<open>execution_records\<close>: its indexed columns and the record its JSON column parses
  to, \<open>None\<close> when it does not parse. Rows equal in priority and time stay in row order.
\<close>

record record_row =
  rr_workspace_id :: string
  rr_state :: exec_state
  rr_created_at :: int
  rr_record_json :: "execution_record option"

definition discoverUnfinished :: "string \<Rightarrow> record_row list \<Rightarrow> execution_record list" where
  "discoverUnfinished ws rows =
     List.map_filter rr_record_json
       (take 200
         (sort_key (\<lambda>r. discovery_priority (rr_state r))
           (sort_key (\<lambda>r. - rr_created_at r)
             (filter (\<lambda>r. rr_workspace_id r = ws \<and> rr_state r \<in> set UNFINISHED_STATES) rows))))"

section \<open>Durable cancellations\<close>

definition requestCancellation ::
  "bool \<Rightarrow> int \<Rightarrow> string \<Rightarrow> lease_target \<Rightarrow> string \<Rightarrow> string \<Rightarrow> string option \<Rightarrow>
   durable_cancellation list \<Rightarrow> durable_cancellation option \<times> durable_cancellation list" where
  "requestCancellation fails now cid tt tid who reason tbl =
     (let c = \<lparr>dc_cancellationId = cid, dc_targetType = tt, dc_targetId = tid, dc_requestedAt = now,
               dc_requestedBy = who, dc_reason = reason, dc_acknowledged = False,
               dc_acknowledgedAt = None, dc_sideEffectPossible = False, dc_finalState = None\<rparr>
      in if fails \<or> (\<exists>r \<in> set tbl. dc_cancellationId r = cid) then (None, tbl)
         else (Some c, tbl @ [c]))"

definition acknowledgeCancellation ::
  "bool \<Rightarrow> int \<Rightarrow> lease_target \<Rightarrow> string \<Rightarrow> bool \<Rightarrow> durable_cancellation list \<Rightarrow>
   durable_cancellation list" where
  "acknowledgeCancellation fails now tt tid effect tbl =
     (if fails then tbl
      else map (\<lambda>r. if dc_targetType r = tt \<and> dc_targetId r = tid \<and> \<not> dc_acknowledged r
                     then r\<lparr>dc_acknowledged := True, dc_acknowledgedAt := Some now,
                            dc_sideEffectPossible := effect\<rparr>
                     else r) tbl)"

text \<open>
  \<open>ORDER BY requested_at DESC LIMIT 1\<close>: between equal times the row order decides (the
  statement has no tie-break; the model takes the first inserted).
\<close>

definition getDurableCancellation ::
  "bool \<Rightarrow> lease_target \<Rightarrow> string \<Rightarrow> durable_cancellation list \<Rightarrow> durable_cancellation option" where
  "getDurableCancellation fails tt tid tbl =
     (if fails then None
      else first_row (sort_key (\<lambda>r. - dc_requestedAt r)
             (filter (\<lambda>r. dc_targetType r = tt \<and> dc_targetId r = tid) tbl)))"

section \<open>Classification\<close>

text \<open>A gate gives the result of a hook that refuses (or throws), else \<open>None\<close>.\<close>

definition refuses :: "hook_result \<Rightarrow> hook_result option" where
  "refuses h = (case h of Hook_ok \<Rightarrow> None | _ \<Rightarrow> Some h)"

definition audit_gate :: "recovery_hooks \<Rightarrow> hook_result option" where
  "audit_gate hooks = Option.bind (hook_auditChain hooks) refuses"

definition authority_gate ::
  "recovery_hooks \<Rightarrow> execution_checkpoint \<Rightarrow> execution_record \<Rightarrow> hook_result option" where
  "authority_gate hooks cp rec =
     (case (cp_authoritySnapshot cp, hook_authority hooks) of
        (Some a, Some f) \<Rightarrow> if json_truthy a then refuses (f a rec) else None
      | _ \<Rightarrow> None)"

text \<open>Steps 1c of \<open>classify\<close>: the latest checkpoint must be valid and its authority current.\<close>

definition checkpoint_gate ::
  "recovery_hooks \<Rightarrow> execution_checkpoint option \<Rightarrow> execution_record \<Rightarrow> recovery_verdict option" where
  "checkpoint_gate hooks lastCp rec =
     (case lastCp of
        None \<Rightarrow> None
      | Some cp \<Rightarrow>
          case verifyCheckpoint (Some cp) of
            CpInvalid d \<Rightarrow> Some (RA_blocked, RC_checkpoint_invalid, R_checkpoint_invalid d)
          | CpValid \<Rightarrow>
              (case authority_gate hooks cp rec of
                 Some why \<Rightarrow> Some (RA_blocked, RC_authority_expired, R_authority_invalid why)
               | None \<Rightarrow> None))"

text \<open>Steps 2 to 5: state, checkpoint flag, idempotency, environment.\<close>

definition resume_verdict :: "execution_checkpoint option \<Rightarrow> execution_record \<Rightarrow> recovery_verdict" where
  "resume_verdict lastCp rec =
     (let state = rec_state rec;
          idem = (case rec_action rec of None \<Rightarrow> Unknown_unsafe | Some a \<Rightarrow> act_idempotency a);
          key = Option.bind (rec_action rec) act_idempotencyKey
      in if \<not> wasInFlight state \<or> state = S_awaiting_approval
         then (RA_auto_resume, RC_safe, R_not_in_flight state)
         else if (case lastCp of None \<Rightarrow> False | Some cp \<Rightarrow> cp_sideEffectSafe cp)
         then (RA_auto_resume, RC_safe,
               R_checkpoint_safe (case lastCp of None \<Rightarrow> CP_unknown [] | Some cp \<Rightarrow> cp_kind cp))
         else if sideEffectPossible state
         then if idem = Naturally_idempotent
              then (RA_auto_resume, RC_safe, R_naturally_idempotent state)
              else if idem = Idempotent_with_key \<and> truthy_str key
              then (RA_auto_resume, RC_safe, R_has_key)
              else (RA_requires_approval, RC_unknown_side_effect, R_effect_unknown state idem)
         else if (case rec_trust rec of None \<Rightarrow> False | Some t \<Rightarrow> nullish (trust_quarantined t) False)
         then (RA_blocked, RC_environment_lost, R_quarantined)
         else if lastCp = None
         then (RA_requires_approval, RC_unknown_side_effect, R_no_checkpoint)
         else (RA_auto_resume, RC_safe, R_known_checkpoint state))"

definition classify_with ::
  "recovery_hooks \<Rightarrow> execution_checkpoint option \<Rightarrow> durable_cancellation option \<Rightarrow>
   execution_record \<Rightarrow> recovery_verdict" where
  "classify_with hooks lastCp cancel rec =
     (case cancel of
        Some c \<Rightarrow>
          if \<not> dc_acknowledged c
          then (RA_blocked, RC_cancellation_pending,
                if dc_sideEffectPossible c then R_cancelled_maybe_effect else R_cancelled)
          else (case audit_gate hooks of
                  Some why \<Rightarrow> (RA_blocked, RC_audit_chain_broken, R_audit_broken why)
                | None \<Rightarrow> nullish (checkpoint_gate hooks lastCp rec) (resume_verdict lastCp rec))
      | None \<Rightarrow>
          (case audit_gate hooks of
             Some why \<Rightarrow> (RA_blocked, RC_audit_chain_broken, R_audit_broken why)
           | None \<Rightarrow> nullish (checkpoint_gate hooks lastCp rec) (resume_verdict lastCp rec)))"

record recovery_db =
  db_checkpoints :: "checkpoint_row list"
  db_cancellations :: "durable_cancellation list"
  db_decisions :: "recovery_decision list"
  db_environments :: "environment_attachment list"

text \<open>\<open>classify\<close>: the two reads, each of which yields null when its statement throws.\<close>

definition classify ::
  "bool \<Rightarrow> bool \<Rightarrow> recovery_hooks \<Rightarrow> recovery_db \<Rightarrow> execution_record \<Rightarrow> recovery_verdict" where
  "classify cp_fails dc_fails hooks db rec =
     classify_with hooks
       (getLatestCheckpoint cp_fails (runId (rec_id rec)) (db_checkpoints db))
       (getDurableCancellation dc_fails LT_execution (runId (rec_id rec)) (db_cancellations db))
       rec"

section \<open>The basis of a resume claim\<close>

datatype basis_failure =
    B_no_checkpoint | B_checkpoint_invalid checkpoint_defect | B_audit_broken hook_result
  | B_authority hook_result | B_boundary_unsafe checkpoint_kind "idempotency_class option"

record recovery_basis =
  basis_ok :: bool
  basis_failure :: "basis_failure option"
  basis_checkpoint :: "execution_checkpoint option"

definition basis_fails :: "basis_failure \<Rightarrow> execution_checkpoint option \<Rightarrow> recovery_basis" where
  "basis_fails why cp = \<lparr>basis_ok = False, basis_failure = Some why, basis_checkpoint = cp\<rparr>"

definition verifyRecoveryBasis ::
  "bool \<Rightarrow> recovery_hooks \<Rightarrow> recovery_db \<Rightarrow> execution_record \<Rightarrow> recovery_basis" where
  "verifyRecoveryBasis cp_fails hooks db rec =
     (case getLatestCheckpoint cp_fails (runId (rec_id rec)) (db_checkpoints db) of
        None \<Rightarrow> basis_fails B_no_checkpoint None
      | Some cp \<Rightarrow>
          case verifyCheckpoint (Some cp) of
            CpInvalid d \<Rightarrow> basis_fails (B_checkpoint_invalid d) (Some cp)
          | CpValid \<Rightarrow>
              case audit_gate hooks of
                Some why \<Rightarrow> basis_fails (B_audit_broken why) (Some cp)
              | None \<Rightarrow>
                  case authority_gate hooks cp rec of
                    Some why \<Rightarrow> basis_fails (B_authority why) (Some cp)
                  | None \<Rightarrow>
                      let idem = map_option act_idempotency (rec_action rec) in
                      if \<not> cp_sideEffectSafe cp \<and> \<not> isSideEffectSafe (cp_kind cp) idem
                      then basis_fails (B_boundary_unsafe (cp_kind cp) idem) (Some cp)
                      else \<lparr>basis_ok = True, basis_failure = None, basis_checkpoint = Some cp\<rparr>)"

section \<open>Decisions, environments, status\<close>

definition recordDecision ::
  "bool \<Rightarrow> int \<Rightarrow> string \<Rightarrow> lease_target \<Rightarrow> string \<Rightarrow> recovery_action \<Rightarrow> recovery_classification \<Rightarrow>
   string \<Rightarrow> bool \<Rightarrow> recovery_decision list \<Rightarrow> recovery_decision option \<times> recovery_decision list" where
  "recordDecision fails now rid tt tid act cls reason by_user tbl =
     (let d = \<lparr>rd_recoveryId = rid, rd_targetType = tt, rd_targetId = tid, rd_action = act,
               rd_classification = cls, rd_reason = reason, rd_by_user = by_user, rd_decidedAt = now\<rparr>
      in if fails \<or> (\<exists>r \<in> set tbl. rd_recoveryId r = rid) then (None, tbl)
         else (Some d, tbl @ [d]))"

text \<open>\<open>INSERT OR REPLACE\<close>: a replaced row is deleted and inserted anew at the end.\<close>

definition recordEnvironment ::
  "bool \<Rightarrow> environment_attachment \<Rightarrow> environment_attachment list \<Rightarrow> environment_attachment list" where
  "recordEnvironment fails env tbl =
     (if fails then tbl
      else filter (\<lambda>r. env_attachmentId r \<noteq> env_attachmentId env) tbl @ [env])"

definition updateEnvironmentState ::
  "bool \<Rightarrow> int \<Rightarrow> string \<Rightarrow> env_state \<Rightarrow> string option \<Rightarrow> bool option \<Rightarrow> string option \<Rightarrow>
   environment_attachment list \<Rightarrow> environment_attachment list" where
  "updateEnvironmentState fails now eid st cleanup_st quarantined why tbl =
     (if fails then tbl
      else map (\<lambda>r.
        if env_environmentId r = eid
        then r\<lparr>env_lifecycleState := st, env_lastKnownAt := now,
               env_cleanupState := (if truthy_str cleanup_st then cleanup_st else env_cleanupState r),
               env_quarantined := nullish quarantined (env_quarantined r),
               env_quarantineReason := (if truthy_str why then why else env_quarantineReason r)\<rparr>
        else r) tbl)"

definition getEnvironments :: "bool \<Rightarrow> string \<Rightarrow> environment_attachment list \<Rightarrow> environment_attachment list" where
  "getEnvironments fails eid tbl =
     (if fails then []
      else sort_key (\<lambda>r. - env_createdAt r) (filter (\<lambda>r. env_executionId r = eid) tbl))"

definition getDirtyEnvironments ::
  "bool \<Rightarrow> string \<Rightarrow> environment_attachment list \<Rightarrow> environment_attachment list" where
  "getDirtyEnvironments fails ws tbl =
     (if fails then []
      else sort_key (\<lambda>r. - env_createdAt r)
        (filter (\<lambda>r. env_workspaceId r = ws \<and>
           env_lifecycleState r \<in> {EN_created, EN_starting, EN_ready, EN_running} \<and>
           env_cleanupState r = None) tbl))"

fun recoveryStateForClassification :: "recovery_action \<Rightarrow> recovery_state" where
  "recoveryStateForClassification RA_auto_resume = RS_recoverable"
| "recoveryStateForClassification RA_requires_approval = RS_startup_recovery_pending"
| "recoveryStateForClassification RA_blocked = RS_recovery_blocked"
| "recoveryStateForClassification RA_quarantined = RS_recovery_blocked"

record recovery_status =
  st_runId :: string
  st_recoveryState :: recovery_state
  st_lastCheckpoint :: "checkpoint_kind option"
  st_lastCheckpointAt :: "int option"
  st_checkpointProgress :: "string option"
  st_classification :: recovery_classification
  st_action :: recovery_action
  st_sideEffectUnknown :: bool
  st_safeToResume :: bool
  st_blockedReason :: "recovery_reason option"
  st_environmentState :: "env_state option"
  st_createdAt :: int
  st_interruptedAt :: "int option"

definition buildStatus ::
  "bool \<Rightarrow> bool \<Rightarrow> bool \<Rightarrow> recovery_hooks \<Rightarrow> recovery_db \<Rightarrow> execution_record \<Rightarrow> recovery_status" where
  "buildStatus cp_fails dc_fails env_fails hooks db rec =
     (case classify cp_fails dc_fails hooks db rec of (act, cls, why) \<Rightarrow>
        let lastCp = getLatestCheckpoint cp_fails (runId (rec_id rec)) (db_checkpoints db);
            envs = getEnvironments env_fails (runId (rec_id rec)) (db_environments db)
        in \<lparr>st_runId = runId (rec_id rec),
            st_recoveryState = recoveryStateForClassification act,
            st_lastCheckpoint = map_option cp_kind lastCp,
            st_lastCheckpointAt = map_option cp_createdAt lastCp,
            st_checkpointProgress = map_option cp_progressSummary lastCp,
            st_classification = cls,
            st_action = act,
            st_sideEffectUnknown = (cls = RC_unknown_side_effect),
            st_safeToResume = (act = RA_auto_resume),
            st_blockedReason = (if act = RA_blocked then Some why else None),
            st_environmentState = map_option env_lifecycleState (first_row envs),
            st_createdAt = rec_createdAt rec,
            st_interruptedAt = rec_endedAt rec\<rparr>)"

section \<open>Resuming never repeats an unknown effect\<close>

definition repeatable :: "execution_record \<Rightarrow> bool" where
  "repeatable rec \<longleftrightarrow>
     (case rec_action rec of
        None \<Rightarrow> False
      | Some a \<Rightarrow> act_idempotency a = Naturally_idempotent \<or>
          act_idempotency a = Idempotent_with_key \<and> truthy_str (act_idempotencyKey a))"

lemma refuses_simps [simp]:
  "refuses Hook_ok = None" "refuses (Hook_bad r) = Some (Hook_bad r)"
  "refuses (Hook_throws m) = Some (Hook_throws m)"
  by (simp_all add: refuses_def)

lemma classify_with_auto:
  "classify_with hooks lastCp cancel rec = (RA_auto_resume, cls, why) \<longleftrightarrow>
     (\<forall>c. cancel = Some c \<longrightarrow> dc_acknowledged c) \<and> audit_gate hooks = None \<and>
     checkpoint_gate hooks lastCp rec = None \<and> resume_verdict lastCp rec = (RA_auto_resume, cls, why)"
  by (auto simp: classify_with_def checkpoint_gate_def nullish_def
      split: option.splits checkpoint_validation.splits)

lemma checkpoint_gate_None:
  "checkpoint_gate hooks lastCp rec = None \<longleftrightarrow>
     (\<forall>cp. lastCp = Some cp \<longrightarrow> verifyCheckpoint (Some cp) = CpValid \<and> authority_gate hooks cp rec = None)"
  by (auto simp: checkpoint_gate_def split: option.splits checkpoint_validation.splits)

lemma resume_verdict_auto:
  "resume_verdict lastCp rec = (RA_auto_resume, cls, why) \<Longrightarrow>
     cls = RC_safe \<and>
     (sideEffectPossible (rec_state rec) \<longrightarrow>
        (\<exists>cp. lastCp = Some cp \<and> cp_sideEffectSafe cp) \<or> repeatable rec)"
  by (cases "rec_state rec")
     (auto simp: resume_verdict_def repeatable_def Let_def table_defs split: option.splits if_splits)

text \<open>C5: automatic resumption is justified. When \<open>classify\<close> says that an execution resumes
  automatically, no unacknowledged cancellation was found, the audit chain was not found
  broken, the latest checkpoint (if any) is valid under current authority, and, if a side
  effect may already have happened, the latest checkpoint was taken at a boundary marked safe
  or the action may be repeated (idempotent by nature, or keyed with a key).\<close>

theorem auto_resume_justified:
  assumes "classify cp_fails dc_fails hooks db rec = (RA_auto_resume, cls, why)"
  shows "cls = RC_safe \<and> audit_gate hooks = None \<and>
     (\<forall>c. getDurableCancellation dc_fails LT_execution (runId (rec_id rec)) (db_cancellations db) = Some c \<longrightarrow>
        dc_acknowledged c) \<and>
     (\<forall>cp. getLatestCheckpoint cp_fails (runId (rec_id rec)) (db_checkpoints db) = Some cp \<longrightarrow>
        verifyCheckpoint (Some cp) = CpValid \<and> authority_gate hooks cp rec = None) \<and>
     (sideEffectPossible (rec_state rec) \<longrightarrow>
        (\<exists>cp. getLatestCheckpoint cp_fails (runId (rec_id rec)) (db_checkpoints db) = Some cp \<and>
           cp_sideEffectSafe cp) \<or> repeatable rec)"
  using assms
  by (simp add: classify_def classify_with_auto checkpoint_gate_None resume_verdict_auto)
     (meson resume_verdict_auto)

definition no_hooks :: recovery_hooks where
  "no_hooks = \<lparr>hook_auditChain = None, hook_authority = None\<rparr>"

definition empty_db :: recovery_db where
  "empty_db = \<lparr>db_checkpoints = [], db_cancellations = [], db_decisions = [], db_environments = []\<rparr>"

theorem auto_resume_justified_witness:
  "audit_gate no_hooks = None \<and> repeatable (demo_record S_running Idempotent_with_key (Some ''key''))"
proof -
  let ?rec = "demo_record S_running Idempotent_with_key (Some ''key'')"
  have none: "getLatestCheckpoint False (runId (rec_id ?rec)) (db_checkpoints empty_db) = None"
    by (simp add: getLatestCheckpoint_def empty_db_def latest_first_def)
  have "classify False False no_hooks empty_db ?rec = (RA_auto_resume, RC_safe, R_has_key)"
    by (simp add: classify_def classify_with_def getLatestCheckpoint_def getDurableCancellation_def
       empty_db_def no_hooks_def audit_gate_def checkpoint_gate_def resume_verdict_def demo_record_def
       demo_action_def table_defs latest_first_def truthy_str_def)
  from auto_resume_justified[OF this] none show ?thesis
    by (simp add: demo_record_def table_defs)
qed

text \<open>
  The client side of the checkpoint interface: once an unsafe boundary is on disk, an
  execution that may have had its effect is not resumed automatically.
\<close>

context checkpoint_source
begin

lemma unsafe_boundary_blocks_resume:
  assumes "no_later db (cp_createdAt c)" and "\<not> cp_sideEffectSafe c"
    and "sideEffectPossible (rec_state rec)" and "\<not> repeatable rec"
  shows "fst (classify_with hooks (latest (cp_runId c) (put c db)) cancel rec) \<noteq> RA_auto_resume"
proof
  obtain c' where c': "latest (cp_runId c) (put c db) = Some c'" "same_boundary c c'"
    using latest_put[OF assms(1)] by blast
  assume "fst (classify_with hooks (latest (cp_runId c) (put c db)) cancel rec) = RA_auto_resume"
  then obtain cls why where
    "classify_with hooks (latest (cp_runId c) (put c db)) cancel rec = (RA_auto_resume, cls, why)"
    by (metis prod.collapse)
  then have "resume_verdict (Some c') rec = (RA_auto_resume, cls, why)"
    using c'(1) by (simp add: classify_with_auto)
  then show False
    using resume_verdict_auto assms(2-4) c'(2) by (fastforce simp: same_boundary_def)
qed

end



text \<open>
  The protection hangs on that boundary being stored. Checkpoints are best effort: when the
  write of \<open>step_started\<close> fails, the latest checkpoint is an earlier always-safe one, and a
  running non-idempotent action is classified for automatic resumption.
\<close>

lemma lost_boundary_resumes_running_action:
  "classify False False no_hooks
     (empty_db\<lparr>db_checkpoints := snd (createCheckpoint True ''cp_2'' 6 (demo_record S_running Non_idempotent None)
        CP_step_started None None
        (snd (createCheckpoint False ''cp_1'' 5 (demo_record S_authorized Non_idempotent None)
           CP_policy_admitted None None [])))\<rparr>)
     (demo_record S_running Non_idempotent None)
   = (RA_auto_resume, RC_safe, R_checkpoint_safe CP_policy_admitted)"
  by (simp add: classify_def classify_with_def getLatestCheckpoint_def getDurableCancellation_def
      createCheckpoint_def build_checkpoint_def persist_row_def rowToCheckpoint_def CHECKPOINT_KINDS_def
      Let_def empty_db_def no_hooks_def audit_gate_def checkpoint_gate_def resume_verdict_def
      demo_record_def demo_action_def demo_id_def table_defs latest_first_def verifyCheckpoint_def
      authority_gate_def authority_of_def isSideEffectSafe_def ALWAYS_SAFE_KINDS_def boundPayload_def
      split: json.splits)

section \<open>Cancellations survive the restart\<close>

lemma getDurableCancellation_request:
  assumes "requestCancellation fails now cid tt tid who reason tbl = (Some c, tbl')"
    and "\<forall>r \<in> set tbl. dc_targetType r = tt \<and> dc_targetId r = tid \<longrightarrow> dc_requestedAt r < now"
  shows "getDurableCancellation False tt tid tbl' = Some c \<and> \<not> dc_acknowledged c \<and> \<not> dc_sideEffectPossible c"
proof -
  have c: "dc_requestedAt c = now" "dc_targetType c = tt" "dc_targetId c = tid" "\<not> dc_acknowledged c"
    "\<not> dc_sideEffectPossible c" "tbl' = tbl @ [c]"
    using assms(1) by (auto simp: requestCancellation_def Let_def split: if_splits)
  let ?P = "\<lambda>r. dc_targetType r = tt \<and> dc_targetId r = tid"
  have "sort_key (\<lambda>r. - dc_requestedAt r) (filter ?P tbl @ [c]) = c # sort_key (\<lambda>r. - dc_requestedAt r) (filter ?P tbl)"
    using assms(2) c(1) by (intro sort_key_snoc_least) auto
  then show ?thesis using c by (simp add: getDurableCancellation_def)
qed

text \<open>C32: a cancellation that was stored before a crash is honoured after it: as long as it is
  the newest request for the execution and nobody has acknowledged it, \<open>classify\<close> blocks the
  execution as \<open>cancellation_pending\<close>, whatever its state, its checkpoints and the hooks are,
  provided the query for the cancellation itself does not fail (a failing one counts as no
  cancellation: \<open>unreadable_cancellation_is_ignored\<close>).\<close>

theorem durable_cancellation_blocks_recovery:
  assumes "requestCancellation fails now cid LT_execution (runId (rec_id rec)) who reason (db_cancellations db)
      = (Some c, tbl')"
    and "\<forall>r \<in> set (db_cancellations db).
      dc_targetType r = LT_execution \<and> dc_targetId r = runId (rec_id rec) \<longrightarrow> dc_requestedAt r < now"
  shows "classify cp_fails False hooks (db\<lparr>db_cancellations := tbl'\<rparr>) rec =
     (RA_blocked, RC_cancellation_pending, R_cancelled)"
  using getDurableCancellation_request[OF assms] by (simp add: classify_def classify_with_def)

theorem durable_cancellation_blocks_recovery_witness:
  "classify False False no_hooks
     (empty_db\<lparr>db_cancellations := snd (requestCancellation False 7 ''can_1'' LT_execution ''ex_1'' ''user'' None [])\<rparr>)
     (demo_record S_queued Naturally_idempotent None) = (RA_blocked, RC_cancellation_pending, R_cancelled)"
  by (rule durable_cancellation_blocks_recovery[where fails = False and now = 7 and cid = "''can_1''"
        and who = "''user''" and reason = None
        and c = "hd (snd (requestCancellation False 7 ''can_1'' LT_execution ''ex_1'' ''user'' None []))"])
     (simp_all add: requestCancellation_def Let_def empty_db_def demo_record_def demo_id_def)

text \<open>
  A cancellation that cannot be read counts as none: when the statement of
  \<open>getDurableCancellation\<close> throws, the cancelled execution is classified for automatic resumption.
\<close>

lemma unreadable_cancellation_is_ignored:
  "classify False True no_hooks
     (empty_db\<lparr>db_cancellations := snd (requestCancellation False 7 ''can_1'' LT_execution ''ex_1'' ''user'' None [])\<rparr>)
     (demo_record S_awaiting_approval Non_idempotent None)
   = (RA_auto_resume, RC_safe, R_not_in_flight S_awaiting_approval)"
  by (simp add: classify_def classify_with_def getLatestCheckpoint_def getDurableCancellation_def
      empty_db_def no_hooks_def audit_gate_def checkpoint_gate_def resume_verdict_def demo_record_def
      latest_first_def table_defs)

section \<open>Classification and basis agree\<close>

text \<open>The two gates of recovery agree. If the classification blocks an execution because the
  audit chain is broken, the checkpoint invalid or the authority expired, the resume basis
  fails too, so a caller that checks only one of them does not resume; and a basis that
  holds comes with the latest checkpoint of the run.\<close>

theorem blocked_classification_has_no_basis:
  assumes "classify cp_fails dc_fails hooks db rec = (act, cls, why)"
    and "cls \<in> {RC_audit_chain_broken, RC_checkpoint_invalid, RC_authority_expired}"
  shows "act = RA_blocked \<and> \<not> basis_ok (verifyRecoveryBasis cp_fails hooks db rec)"
proof -
  have verdict_cls: "fst (snd (resume_verdict l rec)) \<notin> {RC_audit_chain_broken, RC_checkpoint_invalid, RC_authority_expired}" for l
    by (simp add: resume_verdict_def Let_def)
  let ?last = "getLatestCheckpoint cp_fails (runId (rec_id rec)) (db_checkpoints db)"
  consider (audit) h where "audit_gate hooks = Some h" "cls = RC_audit_chain_broken" "act = RA_blocked"
    | (gate) v where "checkpoint_gate hooks ?last rec = Some v" "v = (act, cls, why)" "audit_gate hooks = None"
    | (verdict) "resume_verdict ?last rec = (act, cls, why)"
    | (cancel) "cls = RC_cancellation_pending"
    using assms(1)
    by (auto simp: classify_def classify_with_def nullish_def split: option.splits if_splits)
  then show ?thesis
  proof cases
    case audit
    then show ?thesis
      by (auto simp: verifyRecoveryBasis_def basis_fails_def split: option.splits checkpoint_validation.splits)
  next
    case gate
    then show ?thesis
      by (auto simp: verifyRecoveryBasis_def basis_fails_def checkpoint_gate_def
          split: option.splits checkpoint_validation.splits)
  next
    case verdict
    then show ?thesis using verdict_cls[of ?last] assms(2) by simp
  next
    case cancel
    then show ?thesis using assms(2) by simp
  qed
qed

definition broken_chain_hooks :: recovery_hooks where
  "broken_chain_hooks = \<lparr>hook_auditChain = Some (Hook_bad None), hook_authority = None\<rparr>"

theorem blocked_classification_has_no_basis_witness:
  "RA_blocked = RA_blocked \<and>
   \<not> basis_ok (verifyRecoveryBasis False broken_chain_hooks empty_db (demo_record S_queued Naturally_idempotent None))"
  by (rule blocked_classification_has_no_basis[where cls = RC_audit_chain_broken and dc_fails = False
        and why = "R_audit_broken (Hook_bad None)"])
     (simp_all add: classify_def classify_with_def getDurableCancellation_def empty_db_def
       broken_chain_hooks_def audit_gate_def)

section \<open>Discovery\<close>

lemma set_map_filter: "set (List.map_filter f xs) = {y. \<exists>x \<in> set xs. f x = Some y}"
  by (auto simp: List.map_filter_def image_iff) (metis option.sel)+

lemma sorted_map_filter:
  assumes "sorted (map f xs)" and "\<forall>x \<in> set xs. \<forall>y. g x = Some y \<longrightarrow> h y = f x"
  shows "sorted (map h (List.map_filter g xs))"
  using assms
  by (induction xs) (auto simp: map_filter_simps set_map_filter split: option.splits)

text \<open>startup discovery. Every parseable record of the workspace in an unfinished state is
  found when there are at most 200 unfinished rows, nothing else is ever returned, and the
  records come in the order of priority (running and observing first, queued last).\<close>

theorem discovery_complete_and_ordered:
  assumes "\<forall>r \<in> set rows. \<forall>x. rr_record_json r = Some x \<longrightarrow> rec_state x = rr_state r"
  shows "sorted (map (discovery_priority \<circ> rec_state) (discoverUnfinished ws rows)) \<and>
     (\<forall>x \<in> set (discoverUnfinished ws rows). \<exists>r \<in> set rows. rr_record_json r = Some x \<and>
        rr_workspace_id r = ws \<and> rec_state x \<in> set UNFINISHED_STATES) \<and>
     (length (filter (\<lambda>r. rr_workspace_id r = ws \<and> rr_state r \<in> set UNFINISHED_STATES) rows) \<le> 200 \<longrightarrow>
        (\<forall>r \<in> set rows. \<forall>x. rr_workspace_id r = ws \<longrightarrow> rr_state r \<in> set UNFINISHED_STATES \<longrightarrow>
           rr_record_json r = Some x \<longrightarrow> x \<in> set (discoverUnfinished ws rows)))"
proof -
  let ?P = "\<lambda>r. rr_workspace_id r = ws \<and> rr_state r \<in> set UNFINISHED_STATES"
  let ?s = "sort_key (\<lambda>r. discovery_priority (rr_state r)) (sort_key (\<lambda>r. - rr_created_at r) (filter ?P rows))"
  have disc: "discoverUnfinished ws rows = List.map_filter rr_record_json (take 200 ?s)"
    by (simp add: discoverUnfinished_def)
  have set_s: "set ?s = {r \<in> set rows. ?P r}" by simp
  have sub: "set (take 200 ?s) \<subseteq> {r \<in> set rows. ?P r}" using set_take_subset[of 200 ?s] set_s by simp
  have "sorted (map (\<lambda>r. discovery_priority (rr_state r)) (take 200 ?s))"
    using sorted_wrt_take[of "(\<le>)" "map (\<lambda>r. discovery_priority (rr_state r)) ?s" 200]
    by (simp add: take_map sorted_sort_key)
  then have 1: "sorted (map (discovery_priority \<circ> rec_state) (discoverUnfinished ws rows))"
    unfolding disc using assms sub by (intro sorted_map_filter) auto
  have 2: "\<exists>r \<in> set rows. rr_record_json r = Some x \<and> rr_workspace_id r = ws \<and> rec_state x \<in> set UNFINISHED_STATES"
    if "x \<in> set (discoverUnfinished ws rows)" for x
    using that sub assms unfolding disc set_map_filter by fastforce
  have 3: "x \<in> set (discoverUnfinished ws rows)"
    if "length (filter ?P rows) \<le> 200" "r \<in> set rows" "?P r" "rr_record_json r = Some x" for r x
  proof -
    have "take 200 ?s = ?s" using that(1) by simp
    moreover have "r \<in> set ?s" using that(2,3) set_s by blast
    ultimately show ?thesis using that(4) by (auto simp: disc set_map_filter)
  qed
  show ?thesis using 1 2 3 by blast
qed

theorem discovery_complete_and_ordered_witness:
  "demo_record S_running Non_idempotent None \<in> set (discoverUnfinished ''ws''
      [\<lparr>rr_workspace_id = ''ws'', rr_state = S_queued, rr_created_at = 5,
        rr_record_json = Some (demo_record S_queued Non_idempotent None)\<rparr>,
       \<lparr>rr_workspace_id = ''ws'', rr_state = S_running, rr_created_at = 3,
        rr_record_json = Some (demo_record S_running Non_idempotent None)\<rparr>])"
proof -
  let ?rows = "[\<lparr>rr_workspace_id = ''ws'', rr_state = S_queued, rr_created_at = 5,
        rr_record_json = Some (demo_record S_queued Non_idempotent None)\<rparr>,
       \<lparr>rr_workspace_id = ''ws'', rr_state = S_running, rr_created_at = 3,
        rr_record_json = Some (demo_record S_running Non_idempotent None)\<rparr>]"
  have "\<forall>r \<in> set ?rows. \<forall>x. rr_record_json r = Some x \<longrightarrow> rec_state x = rr_state r"
    by (simp add: demo_record_def)
  from discovery_complete_and_ordered[OF this, of "''ws''"] show ?thesis
    by (simp add: UNFINISHED_STATES_def)
qed

end
