(* ===== verification/Lease_Statements.thy ===== *)
theory Lease_Statements
  imports Exec_Lease
begin

text \<open>
  The acquisition of a lease at the grain at which processes interleave. \<open>acquire\<close>
  (\<open>src/execution/lease.ts\<close>) opens no transaction: it is a \<open>SELECT\<close>, a look at the owner
  process, up to two more statements and the \<open>INSERT\<close>, and any other process may act on the
  table between two of them. A \<open>lease_call\<close> is one call with the statement it runs next;
  \<open>Exec_Lease.acquire\<close> is the call that nobody interrupts (\<open>acquire_runs_alone\<close>). Every
  statement may fail on its own, every process may crash between two statements and its
  process id may be given to a new process.
\<close>

datatype lease_stmt =
    St_delete_target
  | St_probe execution_lease
  | St_mark execution_lease
  | St_delete execution_lease
  | St_renew execution_lease
  | St_insert
  | St_done "execution_lease option"

record lease_call =
  lc_mgr :: lease_manager
  lc_takeover :: "bool option"
  lc_lease :: execution_lease
  lc_stmt :: lease_stmt

text \<open>The call up to its \<open>SELECT\<close>; \<open>lc_lease\<close> is the row that it may insert.\<close>

definition acquire_select ::
  "lease_faults \<Rightarrow> lease_manager \<Rightarrow> int \<Rightarrow> string \<Rightarrow> lease_target \<Rightarrow> string \<Rightarrow> string \<Rightarrow> bool option \<Rightarrow>
   int option \<Rightarrow> lease_table \<Rightarrow> lease_call" where
  "acquire_select flt m now lid tt tid ws allowTakeover ttl tbl =
     \<lparr>lc_mgr = m, lc_takeover = allowTakeover, lc_lease = fresh_lease m now lid tt tid ws ttl,
      lc_stmt = (case getLease flt tt tid tbl of
                   None \<Rightarrow> St_insert
                 | Some existing \<Rightarrow>
                     if truthy_num (releasedAt existing) then St_delete_target else St_probe existing)\<rparr>"

text \<open>The next statement of a call, with the faults and the clock of its own moment.\<close>

definition acquire_next ::
  "(int \<Rightarrow> kill_result) \<Rightarrow> lease_faults \<Rightarrow> int \<Rightarrow> lease_call \<Rightarrow> lease_table \<Rightarrow> lease_call \<times> lease_table" where
  "acquire_next kill flt now c tbl =
     (case lc_stmt c of
        St_delete_target \<Rightarrow>
          (c\<lparr>lc_stmt := St_insert\<rparr>,
           delete_where flt (for_target (targetType (lc_lease c)) (targetId (lc_lease c))) tbl)
      | St_probe existing \<Rightarrow>
          (c\<lparr>lc_stmt :=
               if isProcessDead kill (ownerPid existing)
               then if lc_takeover c \<noteq> Some False then St_mark existing else St_done None
               else if ownerInstanceId existing = instanceId (lc_mgr c) then St_renew existing
               else St_done None\<rparr>, tbl)
      | St_mark existing \<Rightarrow> (c\<lparr>lc_stmt := St_delete existing\<rparr>, markStale flt (leaseId existing) tbl)
      | St_delete existing \<Rightarrow>
          (c\<lparr>lc_stmt := St_insert\<rparr>, delete_where flt (\<lambda>r. leaseId r = leaseId existing) tbl)
      | St_renew existing \<Rightarrow>
          (case renew flt now existing tbl of (l, tbl') \<Rightarrow> (c\<lparr>lc_stmt := St_done (Some l)\<rparr>, tbl'))
      | St_insert \<Rightarrow>
          (case try_insert flt (lc_lease c) tbl of (answer, tbl') \<Rightarrow> (c\<lparr>lc_stmt := St_done answer\<rparr>, tbl'))
      | St_done answer \<Rightarrow> (c, tbl))"

lemma fresh_lease_target [simp]:
  "targetType (fresh_lease m now lid tt tid ws ttl) = tt" "targetId (fresh_lease m now lid tt tid ws ttl) = tid"
  "leaseId (fresh_lease m now lid tt tid ws ttl) = lid"
  by (simp_all add: fresh_lease_def)

text \<open>Four statements end a call, and uninterrupted they are the operation \<open>acquire\<close>.\<close>

fun run_alone ::
  "(int \<Rightarrow> kill_result) \<Rightarrow> lease_faults \<Rightarrow> int \<Rightarrow> nat \<Rightarrow> lease_call \<times> lease_table \<Rightarrow> lease_call \<times> lease_table" where
  "run_alone kill flt now 0 ct = ct"
| "run_alone kill flt now (Suc n) (c, tbl) = run_alone kill flt now n (acquire_next kill flt now c tbl)"

lemma run_alone_done [simp]: "lc_stmt c = St_done a \<Longrightarrow> run_alone kill flt now n (c, tbl) = (c, tbl)"
  by (induction n) (simp_all add: acquire_next_def)

lemma acquire_runs_alone:
  "case run_alone kill flt now 4 (acquire_select flt m now lid tt tid ws tk ttl tbl, tbl) of (c, tbl') \<Rightarrow>
     acquire kill flt m now lid tt tid ws tk ttl tbl =
       (case lc_stmt c of St_done answer \<Rightarrow> (answer, tbl') | _ \<Rightarrow> undefined) \<and>
     (\<exists>answer. lc_stmt c = St_done answer)"
  by (simp add: acquire_select_def acquire_def Let_def acquire_next_def numeral_eq_Suc
      split: option.split prod.split)

section \<open>Processes that share the table\<close>

text \<open>
  The table, the process ids in use, the calls under way, and the calls that were granted a
  lease, in the order in which they were.
\<close>

record lease_world =
  lw_table :: lease_table
  lw_live :: "int list"
  lw_calls :: "lease_call list"
  lw_granted :: "lease_call list"

datatype lease_event =
    Begin_acquire lease_faults lease_manager int string lease_target string string "bool option" "int option"
  | Next_statement nat lease_faults int
  | Release lease_faults int lease_target string string
  | Clean_up lease_faults int "int option"
  | Crash int
  | Start_process int

definition next_statement :: "nat \<Rightarrow> lease_faults \<Rightarrow> int \<Rightarrow> lease_world \<Rightarrow> lease_world" where
  "next_statement k flt now w =
     (if k < length (lw_calls w)
      then case acquire_next (kill_of (lw_live w)) flt now (lw_calls w ! k) (lw_table w) of (c, tbl) \<Rightarrow>
        (case lc_stmt c of
           St_done answer \<Rightarrow>
             w\<lparr>lw_table := tbl, lw_calls := take k (lw_calls w) @ drop (Suc k) (lw_calls w),
               lw_granted := lw_granted w @ (if answer = None then [] else [c])\<rparr>
         | _ \<Rightarrow> w\<lparr>lw_table := tbl, lw_calls := (lw_calls w)[k := c]\<rparr>)
      else w)"

fun lease_event_step :: "lease_event \<Rightarrow> lease_world \<Rightarrow> lease_world" where
  "lease_event_step (Begin_acquire flt m now lid tt tid ws tk ttl) w =
     w\<lparr>lw_calls := lw_calls w @ [acquire_select flt m now lid tt tid ws tk ttl (lw_table w)]\<rparr>"
| "lease_event_step (Next_statement k flt now) w = next_statement k flt now w"
| "lease_event_step (Release flt now tt tid reason) w =
     w\<lparr>lw_table := snd (release flt now tt tid reason (lw_table w))\<rparr>"
| "lease_event_step (Clean_up flt now c) w = w\<lparr>lw_table := snd (cleanup flt now c (lw_table w))\<rparr>"
| "lease_event_step (Crash p) w =
     w\<lparr>lw_live := filter (\<lambda>q. q \<noteq> p) (lw_live w), lw_calls := filter (\<lambda>c. pid (lc_mgr c) \<noteq> p) (lw_calls w)\<rparr>"
| "lease_event_step (Start_process p) w = w\<lparr>lw_live := p # lw_live w\<rparr>"

lemma acquire_next_inv:
  assumes "lease_inv tbl" and "acquire_next kill flt now c tbl = (c', tbl')"
  shows "lease_inv tbl'"
proof -
  have "lease_inv (snd (renew flt now ex tbl))" for ex
    using assms(1) by (auto simp: renew_def Let_def lease_key_def intro!: lease_inv_map)
  moreover have "snd (acquire_next kill flt now c tbl) = tbl'" using assms(2) by simp
  ultimately show ?thesis
    using assms(1) try_insert_inv[OF assms(1), of flt "lc_lease c"]
    by (auto simp: acquire_next_def delete_where_inv markStale_inv
        split: lease_stmt.splits prod.splits) (metis snd_conv)
qed

interpretation lease_machine: inv_machine lease_event_step "\<lambda>w :: lease_world. lease_inv (lw_table w)"
proof unfold_locales
  fix w :: lease_world and x
  assume inv: "lease_inv (lw_table w)"
  have "lease_inv (lw_table (next_statement k flt now w))" for k flt now
    using inv acquire_next_inv[OF inv]
    by (auto simp: next_statement_def split: prod.split lease_stmt.split)
  with inv show "lease_inv (lw_table (lease_event_step x w))"
    by (cases x) (simp_all add: release_inv cleanup_inv)
qed

section \<open>The row of a live holder\<close>

text \<open>The manager \<open>m\<close> holds the target by its lease \<open>i\<close>, which nobody has released or marked.\<close>

definition holds_by :: "lease_manager \<Rightarrow> lease_target \<Rightarrow> string \<Rightarrow> string \<Rightarrow> lease_table \<Rightarrow> bool" where
  "holds_by m tt tid i tbl \<longleftrightarrow>
     (\<exists>r \<in> set tbl. lease_key r = (tt, tid) \<and> leaseId r = i \<and> releasedAt r = None \<and> \<not> stale r \<and>
        ownerInstanceId r = instanceId m \<and> ownerPid r = pid m)"

text \<open>A call of another instance for this target.\<close>

definition rival :: "lease_manager \<Rightarrow> lease_target \<Rightarrow> string \<Rightarrow> lease_call \<Rightarrow> bool" where
  "rival m tt tid c \<longleftrightarrow> instanceId (lc_mgr c) \<noteq> instanceId m \<and> for_target tt tid (lc_lease c)"

text \<open>
  A call under way that cannot hurt the holder: it has not read a released row of the target
  (it would delete whatever row the target has by now), it is not about to mark or delete the
  lease \<open>i\<close>, what it read of the lease \<open>i\<close> is that \<open>m\<close> owns it, and it is not about to renew
  an earlier lease of a rival.
\<close>

definition harmless :: "lease_manager \<Rightarrow> lease_target \<Rightarrow> string \<Rightarrow> string \<Rightarrow> lease_call \<Rightarrow> bool" where
  "harmless m tt tid i c =
     (case lc_stmt c of
        St_delete_target \<Rightarrow> \<not> for_target tt tid (lc_lease c)
      | St_probe ex \<Rightarrow>
          (leaseId ex = i \<longrightarrow> ownerPid ex = pid m \<and> ownerInstanceId ex = instanceId m) \<and>
          (rival m tt tid c \<longrightarrow> ownerInstanceId ex \<noteq> instanceId (lc_mgr c))
      | St_mark ex \<Rightarrow> leaseId ex \<noteq> i
      | St_delete ex \<Rightarrow> leaseId ex \<noteq> i
      | St_renew ex \<Rightarrow> \<not> rival m tt tid c
      | St_insert \<Rightarrow> True
      | St_done answer \<Rightarrow> answer = None \<or> \<not> rival m tt tid c)"

definition secure_holder :: "lease_manager \<Rightarrow> lease_target \<Rightarrow> string \<Rightarrow> string \<Rightarrow> lease_world \<Rightarrow> bool" where
  "secure_holder m tt tid i w \<longleftrightarrow>
     holds_by m tt tid i (lw_table w) \<and> pid m \<in> set (lw_live w) \<and> 0 < pid m \<and>
     (\<forall>c \<in> set (lw_calls w). harmless m tt tid i c)"

definition granted_to_rivals :: "lease_manager \<Rightarrow> lease_target \<Rightarrow> string \<Rightarrow> lease_world \<Rightarrow> lease_call list" where
  "granted_to_rivals m tt tid w = filter (rival m tt tid) (lw_granted w)"

text \<open>What must not happen to the holder: a release of its target (by anybody), and its crash.\<close>

definition leaves_holder :: "lease_manager \<Rightarrow> lease_target \<Rightarrow> string \<Rightarrow> lease_event \<Rightarrow> bool" where
  "leaves_holder m tt tid x =
     (case x of
        Release flt now tt' tid' reason \<Rightarrow> (tt', tid') \<noteq> (tt, tid)
      | Crash p \<Rightarrow> p \<noteq> pid m
      | _ \<Rightarrow> True)"

lemma holds_by_map:
  assumes "holds_by m tt tid i tbl"
    and "\<And>r. r \<in> set tbl \<Longrightarrow> lease_key r = (tt, tid) \<Longrightarrow> leaseId r = i \<Longrightarrow> releasedAt r = None \<Longrightarrow> \<not> stale r \<Longrightarrow>
       lease_key (f r) = (tt, tid) \<and> leaseId (f r) = i \<and> releasedAt (f r) = None \<and> \<not> stale (f r) \<and>
       ownerInstanceId (f r) = ownerInstanceId r \<and> ownerPid (f r) = ownerPid r"
  shows "holds_by m tt tid i (map f tbl)"
proof -
  obtain r where r: "r \<in> set tbl" "lease_key r = (tt, tid)" "leaseId r = i" "releasedAt r = None" "\<not> stale r"
    "ownerInstanceId r = instanceId m" "ownerPid r = pid m"
    using assms(1) by (auto simp: holds_by_def)
  then have "f r \<in> set (map f tbl)" by simp
  with assms(2)[OF r(1-5)] r(6,7) show ?thesis unfolding holds_by_def by metis
qed

lemma holds_by_filter:
  assumes "holds_by m tt tid i tbl"
    and "\<And>r. lease_key r = (tt, tid) \<Longrightarrow> leaseId r = i \<Longrightarrow> releasedAt r = None \<Longrightarrow> \<not> stale r \<Longrightarrow> P r"
  shows "holds_by m tt tid i (filter P tbl)"
  using assms unfolding holds_by_def by auto

lemma holds_by_lookup:
  assumes "lease_inv tbl" and "holds_by m tt tid i tbl"
  obtains r where "find (for_target tt tid) tbl = Some r" "leaseId r = i" "releasedAt r = None" "\<not> stale r"
    "ownerInstanceId r = instanceId m" "ownerPid r = pid m" "r \<in> set tbl" "lease_key r = (tt, tid)"
  using assms find_target_iff[OF assms(1)] unfolding holds_by_def by metis

lemma holds_by_holdsLease:
  assumes "lease_inv tbl" and "holds_by m tt tid i tbl" and "\<not> select_fails flt"
  shows "holdsLease flt m tt tid tbl"
proof -
  obtain r where "find (for_target tt tid) tbl = Some r" "releasedAt r = None" "\<not> stale r"
    "ownerInstanceId r = instanceId m" "ownerPid r = pid m"
    using holds_by_lookup[OF assms(1,2)] by metis
  then show ?thesis using assms(3) by (simp add: holdsLease_def getLease_def)
qed

lemma select_harmless:
  assumes "lease_inv tbl" and "holds_by m tt tid i tbl"
  shows "harmless m tt tid i (acquire_select flt m' now lid tt' tid' ws tk ttl tbl)"
proof -
  obtain r where r: "find (for_target tt tid) tbl = Some r" "leaseId r = i" "releasedAt r = None"
    "ownerInstanceId r = instanceId m" "ownerPid r = pid m" "r \<in> set tbl" "lease_key r = (tt, tid)"
    using holds_by_lookup[OF assms] by metis
  show ?thesis
  proof (cases "getLease flt tt' tid' tbl")
    case None
    then show ?thesis by (simp add: harmless_def acquire_select_def)
  next
    case (Some ex)
    then have ex: "find (for_target tt' tid') tbl = Some ex" by (simp add: getLease_def split: if_splits)
    then have ex': "ex \<in> set tbl" "lease_key ex = (tt', tid')" using find_target_iff[OF assms(1)] by auto
    have same: "leaseId ex = i \<Longrightarrow> ex = r" using same_id_same_row[OF assms(1) ex'(1) r(6)] r(2) by simp
    show ?thesis
    proof (cases "(tt', tid') = (tt, tid)")
      case True
      then have "ex = r" using ex r(1) by simp
      then show ?thesis using Some r True by (auto simp: harmless_def acquire_select_def rival_def)
    next
      case False
      then have "\<not> for_target tt tid (fresh_lease m' now lid tt' tid' ws ttl)" by (auto simp: for_target_def)
      then show ?thesis using Some same r by (auto simp: harmless_def acquire_select_def rival_def)
    qed
  qed
qed

lemma next_keeps_holder:
  assumes inv: "lease_inv tbl" and held: "holds_by m tt tid i tbl" and alive: "\<not> isProcessDead kill (pid m)"
    and calm: "harmless m tt tid i c" and "acquire_next kill flt now c tbl = (c', tbl')"
  shows "holds_by m tt tid i tbl' \<and> harmless m tt tid i c'"
proof -
  have row: "\<exists>r \<in> set tbl. for_target tt tid r" using held by (auto simp: holds_by_def for_target_key)
  show ?thesis
  proof (cases "lc_stmt c")
    case St_delete_target
    then have "holds_by m tt tid i (delete_where flt (for_target (targetType (lc_lease c)) (targetId (lc_lease c))) tbl)"
      using held calm
      by (auto simp: delete_where_def harmless_def for_target_def lease_key_def intro!: holds_by_filter)
    then show ?thesis using St_delete_target assms(5) by (auto simp: acquire_next_def harmless_def)
  next
    case (St_probe ex)
    then show ?thesis using held calm alive assms(5)
      by (auto simp: acquire_next_def harmless_def rival_def split: if_splits)
  next
    case (St_mark ex)
    then have "holds_by m tt tid i (markStale flt (leaseId ex) tbl)"
      using held calm by (auto simp: markStale_def harmless_def lease_key_def intro!: holds_by_map)
    then show ?thesis using St_mark calm assms(5) by (auto simp: acquire_next_def harmless_def)
  next
    case (St_delete ex)
    then have "holds_by m tt tid i (delete_where flt (\<lambda>r. leaseId r = leaseId ex) tbl)"
      using held calm by (auto simp: delete_where_def harmless_def intro!: holds_by_filter)
    then show ?thesis using St_delete assms(5) by (auto simp: acquire_next_def harmless_def)
  next
    case (St_renew ex)
    have "holds_by m tt tid i (snd (renew flt now ex tbl))"
      using held by (auto simp: renew_def Let_def lease_key_def split: if_splits intro!: holds_by_map)
    then show ?thesis using St_renew calm assms(5)
      by (auto simp: acquire_next_def harmless_def rival_def split: prod.splits)
  next
    case St_insert
    have "holds_by m tt tid i (snd (try_insert flt (lc_lease c) tbl))"
      using held by (auto simp: try_insert_def insert_lease_def holds_by_def split: option.splits)
    moreover have "fst (try_insert flt (lc_lease c) tbl) = None" if "rival m tt tid c"
      using that row by (auto simp: try_insert_def insert_lease_def rival_def for_target_def)
    ultimately show ?thesis using St_insert assms(5)
      by (auto simp: acquire_next_def harmless_def rival_def split: prod.splits)
  qed (use held calm assms(5) in \<open>auto simp: acquire_next_def\<close>)
qed

lemma next_statement_secure:
  assumes "lease_inv (lw_table w)" and w: "secure_holder m tt tid i w"
  shows "secure_holder m tt tid i (next_statement k flt now w) \<and>
    granted_to_rivals m tt tid (next_statement k flt now w) = granted_to_rivals m tt tid w"
proof (cases "k < length (lw_calls w)")
  case True
  obtain c tbl where ct: "acquire_next (kill_of (lw_live w)) flt now (lw_calls w ! k) (lw_table w) = (c, tbl)"
    by (rule prod.exhaust)
  have "\<not> isProcessDead (kill_of (lw_live w)) (pid m)"
    using w by (simp add: secure_holder_def isProcessDead_def kill_of_def)
  moreover have calm: "\<forall>c \<in> set (lw_calls w). harmless m tt tid i c" using w by (simp add: secure_holder_def)
  ultimately have c: "holds_by m tt tid i tbl" "harmless m tt tid i c"
    using next_keeps_holder[OF assms(1) _ _ _ ct, of m tt tid i] w True by (auto simp: secure_holder_def)
  have rest: "\<forall>d \<in> set (take k (lw_calls w) @ drop (Suc k) (lw_calls w)). harmless m tt tid i d"
    using calm by (auto dest: in_set_takeD in_set_dropD)
  have upd: "\<forall>d \<in> set ((lw_calls w)[k := c]). harmless m tt tid i d"
    using calm c(2) by (auto dest: set_update_subset_insert[THEN subsetD])
  show ?thesis
  proof (cases "\<exists>answer. lc_stmt c = St_done answer")
    case ended: True
    then obtain answer where a: "lc_stmt c = St_done answer" by blast
    have "answer = None \<or> \<not> rival m tt tid c" using c(2) a by (simp add: harmless_def)
    then show ?thesis using a True w c(1) rest ct
      by (auto simp: next_statement_def secure_holder_def granted_to_rivals_def)
  next
    case False
    then have "next_statement k flt now w = w\<lparr>lw_table := tbl, lw_calls := (lw_calls w)[k := c]\<rparr>"
      using True ct by (simp add: next_statement_def split: lease_stmt.split)
    then show ?thesis using w c(1) upd by (simp add: secure_holder_def granted_to_rivals_def)
  qed
qed (use w in \<open>simp add: next_statement_def\<close>)

interpretation lease_holder: protected_machine lease_event_step "\<lambda>w :: lease_world. lease_inv (lw_table w)"
  "leaves_holder m tt tid" "\<lambda>w. secure_holder m tt tid i w \<and> granted_to_rivals m tt tid w = g" for m tt tid i g
proof unfold_locales
  fix w :: lease_world and x
  assume inv: "lease_inv (lw_table w)" and fact: "secure_holder m tt tid i w \<and> granted_to_rivals m tt tid w = g"
    and adm: "leaves_holder m tt tid x"
  then have w: "secure_holder m tt tid i w" and held: "holds_by m tt tid i (lw_table w)"
    by (auto simp: secure_holder_def)
  show "secure_holder m tt tid i (lease_event_step x w) \<and> granted_to_rivals m tt tid (lease_event_step x w) = g"
  proof (cases x)
    case (Begin_acquire flt m' now lid tt' tid' ws tk ttl)
    then show ?thesis
      using fact select_harmless[OF inv held] by (auto simp: secure_holder_def granted_to_rivals_def)
  next
    case (Next_statement k flt now)
    then show ?thesis using fact next_statement_secure[OF inv w] by simp
  next
    case (Release flt now tt' tid' reason)
    then have "holds_by m tt tid i (snd (release flt now tt' tid' reason (lw_table w)))"
      using held adm
      by (auto simp: release_def leaves_holder_def for_target_key lease_key_def intro!: holds_by_map)
    then show ?thesis using Release fact by (simp add: secure_holder_def granted_to_rivals_def)
  next
    case (Clean_up flt now c)
    have "holds_by m tt tid i (snd (cleanup flt now c (lw_table w)))"
      using held by (auto simp: cleanup_def Let_def delete_where_def expired_row_def intro!: holds_by_filter)
    then show ?thesis using Clean_up fact by (simp add: secure_holder_def granted_to_rivals_def)
  next
    case (Crash p)
    then show ?thesis using fact adm by (auto simp: secure_holder_def granted_to_rivals_def leaves_holder_def)
  next
    case (Start_process p)
    then show ?thesis using fact by (simp add: secure_holder_def granted_to_rivals_def)
  qed
qed

text \<open>C24: A live holder keeps its lease, at the grain of single SQL statements. In a table whose
  rows are unique by target and by identifier a manager holds a target by its lease, its process lives, and no call under way has read what endangers it: a
  released row of the target (such a call deletes whatever row the target has by then), this
  very lease as that of a dead owner, or, in another instance, an earlier lease of its own for
  the target, which it would renew. Then, whatever statements any number of processes run in
  any order and with any database faults (acquisitions and takeovers of any target, cleanups,
  releases of other targets, crashes of other processes and starts of processes), the row of
  the lease stays, the table says that the manager holds the target, and no other instance is
  granted it.\<close>

theorem live_holder_keeps_lease:
  assumes "lease_inv (lw_table w)" and "secure_holder m tt tid i w"
    and "\<forall>x \<in> set xs. leaves_holder m tt tid x"
  shows "let w' = exec_ops lease_event_step xs w in
     holds_by m tt tid i (lw_table w') \<and> holdsLease no_faults m tt tid (lw_table w') \<and>
     granted_to_rivals m tt tid w' = granted_to_rivals m tt tid w"
proof -
  let ?w = "exec_ops lease_event_step xs w"
  have "lease_inv (lw_table ?w)" using assms(1) by (rule lease_machine.run_inv)
  moreover have "secure_holder m tt tid i ?w \<and> granted_to_rivals m tt tid ?w = granted_to_rivals m tt tid w"
    using assms lease_holder.run_fact[of w m tt tid i "granted_to_rivals m tt tid w" xs] by simp
  ultimately show ?thesis
    using holds_by_holdsLease[of "lw_table ?w" m tt tid i no_faults]
    by (simp add: secure_holder_def no_faults_def Let_def)
qed

text \<open>
  Manager \<open>b\<close> began to acquire the target when it was free, then \<open>a\<close> acquired it; the pending
  \<open>INSERT\<close> of \<open>b\<close> and a second attempt of \<open>b\<close> fail.
\<close>

definition lease_world_demo :: lease_world where
  "lease_world_demo = \<lparr>lw_table = lease_demo, lw_live = [10, 20],
     lw_calls = [acquire_select no_faults mgr_b 0 ''lse_2'' LT_execution ''ex_1'' ''ws'' None None []],
     lw_granted = []\<rparr>"

theorem live_holder_keeps_lease_witness:
  "let w' = exec_ops lease_event_step
       [Next_statement 0 no_faults 1, Begin_acquire no_faults mgr_b 5 ''lse_3'' LT_execution ''ex_1'' ''ws'' None None,
        Next_statement 0 no_faults 6, Crash 20] lease_world_demo in
     holds_by mgr_a LT_execution ''ex_1'' ''lse_1'' (lw_table w') \<and>
     holdsLease no_faults mgr_a LT_execution ''ex_1'' (lw_table w') \<and>
     granted_to_rivals mgr_a LT_execution ''ex_1'' w' = granted_to_rivals mgr_a LT_execution ''ex_1'' lease_world_demo"
  by (rule live_holder_keeps_lease)
     (simp_all add: lease_world_demo_def lease_demo_def lease_inv_def secure_holder_def holds_by_def fresh_lease_def
       mgr_a_def mgr_b_def lease_key_def leaves_holder_def harmless_def acquire_select_def getLease_def no_faults_def)

section \<open>Where the statements interleave badly\<close>

text \<open>
  Two processes read the released row of a target. The first deletes it and inserts its lease;
  the second then deletes by target, which removes the live lease of the first, and inserts its
  own. Both calls are granted a lease of the same target.
\<close>

definition released_table :: lease_table where
  "released_table =
     [(fresh_lease mgr_a 0 ''lse_0'' LT_execution ''ex_1'' ''ws'' None)\<lparr>releasedAt := Some 5, releaseReason := Some ''completed''\<rparr>]"

definition try_to_acquire :: "lease_manager \<Rightarrow> int \<Rightarrow> string \<Rightarrow> lease_event" where
  "try_to_acquire m now lid = Begin_acquire no_faults m now lid LT_execution ''ex_1'' ''ws'' None None"

lemma two_holders_after_a_release:
  "let w = exec_ops lease_event_step
       [try_to_acquire mgr_a 10 ''lse_1'', try_to_acquire mgr_b 10 ''lse_2'',
        Next_statement 0 no_faults 11, Next_statement 0 no_faults 12,
        Next_statement 0 no_faults 13, Next_statement 0 no_faults 14]
       \<lparr>lw_table = released_table, lw_live = [10, 20], lw_calls = [], lw_granted = []\<rparr>
   in map (\<lambda>c. (instanceId (lc_mgr c), leaseId (lc_lease c))) (lw_granted w) =
        [(''xr_a'', ''lse_1''), (''xr_b'', ''lse_2'')] \<and>
      map leaseId (lw_table w) = [''lse_2'']"
  by code_simp

text \<open>
  A renewal does not look whether it updated anything: when the row that it read was released
  and replaced in between, the caller is told that it holds a lease that does not exist.
\<close>

lemma renewal_of_a_lost_lease:
  "let w = exec_ops lease_event_step
       [try_to_acquire mgr_b 10 ''lse_2'', Next_statement 0 no_faults 11,
        Release no_faults 12 LT_execution ''ex_1'' ''completed'',
        try_to_acquire mgr_a 13 ''lse_3'', Next_statement 1 no_faults 14, Next_statement 1 no_faults 15,
        Next_statement 0 no_faults 16]
       \<lparr>lw_table = [fresh_lease mgr_b 0 ''lse_1'' LT_execution ''ex_1'' ''ws'' None], lw_live = [10, 20],
        lw_calls = [], lw_granted = []\<rparr>
   in map (\<lambda>c. instanceId (lc_mgr c)) (lw_granted w) = [''xr_a'', ''xr_b''] \<and>
      map ownerInstanceId (lw_table w) = [''xr_a'']"
  by code_simp

end
