(* ===== verification/Exec_Lane.thy ===== *)
theory Exec_Lane
  imports XR_Prelude "HOL-Library.AList"
begin

text \<open>
  The execution lane queue (\<open>src/src/execution/lane.ts\<close>): tasks that share a key run one at
  a time, in the order they asked. JavaScript runs one callback at a time, so the queue is a
  machine whose steps are the calls and callbacks: an \<open>acquire\<close>, a timer that fires, a
  signal that aborts, a release handle that is called. Lanes and waiters are objects with
  identity: they live in two lists and are named by their positions, and a release handle
  belongs to the waiter it was given to. \<open>finished\<close> records which handles their tasks have
  called; the code does not read it.
\<close>

section \<open>State\<close>

definition LANE_DEFAULT_TIMEOUT_MS :: int where
  "LANE_DEFAULT_TIMEOUT_MS = 30000"

text \<open>What became of the promise \<open>acquire\<close> returned.\<close>

datatype promise_state =
    Pending
  | Held
  | Lane_busy string int
  | Wait_aborted string

record waiter =
  w_key :: string
  w_lane :: nat
  w_timeoutMs :: int
  w_promise :: promise_state
  w_timer :: bool
  w_listens :: bool
  w_started :: bool
  w_released :: bool

record lane =
  current :: "nat option"
  queue :: "nat list"

record lane_queue =
  lanes :: "(string \<times> nat) list"
  lane_objs :: "lane list"
  waiters :: "waiter list"
  finished :: "nat list"

definition empty_lane :: lane where
  "empty_lane = \<lparr> current = None, queue = [] \<rparr>"

definition no_lanes :: lane_queue where
  "no_lanes = \<lparr> lanes = [], lane_objs = [], waiters = [], finished = [] \<rparr>"

definition lane_size :: "lane_queue \<Rightarrow> nat" where
  "lane_size q = length (lanes q)"

definition isActive :: "string \<Rightarrow> lane_queue \<Rightarrow> bool" where
  "isActive key q =
     (case map_of (lanes q) key of None \<Rightarrow> False | Some l \<Rightarrow> current (lane_objs q ! l) \<noteq> None)"

definition queueDepth :: "string \<Rightarrow> lane_queue \<Rightarrow> nat" where
  "queueDepth key q =
     (case map_of (lanes q) key of None \<Rightarrow> 0 | Some l \<Rightarrow> length (queue (lane_objs q ! l)))"

section \<open>Operations\<close>

definition upd_waiter :: "nat \<Rightarrow> (waiter \<Rightarrow> waiter) \<Rightarrow> lane_queue \<Rightarrow> lane_queue" where
  "upd_waiter w f q = q\<lparr>waiters := (waiters q)[w := f (waiters q ! w)]\<rparr>"

definition upd_lane :: "nat \<Rightarrow> (lane \<Rightarrow> lane) \<Rightarrow> lane_queue \<Rightarrow> lane_queue" where
  "upd_lane l f q = q\<lparr>lane_objs := (lane_objs q)[l := f (lane_objs q ! l)]\<rparr>"

definition start_waiter :: "waiter \<Rightarrow> waiter" where
  "start_waiter x = x\<lparr>w_started := True, w_timer := False, w_listens := False, w_promise := Held\<rparr>"

definition startNext :: "nat \<Rightarrow> string \<Rightarrow> lane_queue \<Rightarrow> lane_queue" where
  "startNext l key q =
     (case queue (lane_objs q ! l) of
        [] \<Rightarrow>
          (let q' = upd_lane l (\<lambda>x. x\<lparr>current := None\<rparr>) q
           in if map_of (lanes q') key = Some l then q'\<lparr>lanes := AList.delete key (lanes q')\<rparr> else q')
      | w # ws \<Rightarrow>
          upd_waiter w start_waiter (upd_lane l (\<lambda>x. x\<lparr>current := Some w, queue := ws\<rparr>) q))"

definition release_lane :: "nat \<Rightarrow> string \<Rightarrow> lane_queue \<Rightarrow> lane_queue" where
  "release_lane l key q =
     (case current (lane_objs q ! l) of
        None \<Rightarrow> startNext l key q
      | Some v \<Rightarrow>
          startNext l key
            (upd_lane l (\<lambda>x. x\<lparr>current := None\<rparr>) (upd_waiter v (\<lambda>x. x\<lparr>w_released := True\<rparr>) q)))"

definition removeWaiter :: "nat \<Rightarrow> nat \<Rightarrow> lane_queue \<Rightarrow> lane_queue" where
  "removeWaiter l w q =
     upd_waiter w (\<lambda>x. x\<lparr>w_timer := False, w_listens := False\<rparr>)
       (upd_lane l (\<lambda>x. x\<lparr>queue := remove1 w (queue x)\<rparr>) q)"

text \<open>A promise that is settled stays settled.\<close>

definition reject :: "promise_state \<Rightarrow> waiter \<Rightarrow> waiter" where
  "reject reason x = (if w_promise x = Pending then x\<lparr>w_promise := reason\<rparr> else x)"

definition abortWhileQueued :: "nat \<Rightarrow> lane_queue \<Rightarrow> lane_queue" where
  "abortWhileQueued w q =
     (let x = waiters q ! w in
      if w_started x then q
      else removeWaiter (w_lane x) w (upd_waiter w (reject (Wait_aborted (w_key x))) q))"

definition onTimeout :: "nat \<Rightarrow> lane_queue \<Rightarrow> lane_queue" where
  "onTimeout w q =
     (let x = waiters q ! w in
      if w_started x then q
      else removeWaiter (w_lane x) w (upd_waiter w (reject (Lane_busy (w_key x) (w_timeoutMs x))) q))"

text \<open>\<open>signal\<close>: none, or whether it is already aborted.\<close>

definition acquire :: "string \<Rightarrow> int option \<Rightarrow> bool option \<Rightarrow> lane_queue \<Rightarrow> lane_queue" where
  "acquire key timeout signal q =
     (let (l, q1) = (case map_of (lanes q) key of
              Some l \<Rightarrow> (l, q)
            | None \<Rightarrow> (length (lane_objs q), q\<lparr>lane_objs := lane_objs q @ [empty_lane]\<rparr>));
          q2 = q1\<lparr>lanes := AList.update key l (lanes q1)\<rparr>;
          w = length (waiters q2);
          x = \<lparr> w_key = key, w_lane = l, w_timeoutMs = nullish timeout LANE_DEFAULT_TIMEOUT_MS,
                w_promise = Pending, w_timer = False, w_listens = False, w_started = False,
                w_released = False \<rparr>
      in if signal = Some True
         then abortWhileQueued w (q2\<lparr>waiters := waiters q2 @ [x]\<rparr>)
         else (let y = x\<lparr>w_listens := (signal \<noteq> None), w_timer := True\<rparr>;
                   q3 = upd_lane l (\<lambda>z. z\<lparr>queue := queue z @ [w]\<rparr>) (q2\<lparr>waiters := waiters q2 @ [y]\<rparr>)
               in if current (lane_objs q3 ! l) = None then startNext l key q3 else q3))"

text \<open>
  The steps. A timer fires and a signal reaches its handler only while they are armed, and a
  waiter has a handle only once its promise resolved.
\<close>

datatype lane_op =
    Acquire string "int option" "bool option"
  | Timer_fires nat
  | Signal_aborts nat
  | Release_called nat

fun apply_lane_op :: "lane_op \<Rightarrow> lane_queue \<Rightarrow> lane_queue" where
  "apply_lane_op (Acquire key timeout signal) q = acquire key timeout signal q"
| "apply_lane_op (Timer_fires w) q =
     (if w < length (waiters q) \<and> w_timer (waiters q ! w)
      then onTimeout w (upd_waiter w (\<lambda>x. x\<lparr>w_timer := False\<rparr>) q) else q)"
| "apply_lane_op (Signal_aborts w) q =
     (if w < length (waiters q) \<and> w_listens (waiters q ! w)
      then abortWhileQueued w (upd_waiter w (\<lambda>x. x\<lparr>w_listens := False\<rparr>) q) else q)"
| "apply_lane_op (Release_called w) q =
     (if w < length (waiters q) \<and> w_promise (waiters q ! w) = Held
      then release_lane (w_lane (waiters q ! w)) (w_key (waiters q ! w)) (q\<lparr>finished := w # finished q\<rparr>)
      else q)"

text \<open>The discipline the file asks of its callers: a handle is called when the work is done, once.\<close>

fun released_once :: "lane_op \<Rightarrow> lane_queue \<Rightarrow> bool" where
  "released_once (Release_called w) q = (w \<notin> set (finished q))"
| "released_once _ q = True"

text \<open>A task runs from the moment it holds the lane until it calls its handle.\<close>

definition running :: "lane_queue \<Rightarrow> nat \<Rightarrow> bool" where
  "running q w \<longleftrightarrow>
     w < length (waiters q) \<and> w_promise (waiters q ! w) = Held \<and> w \<notin> set (finished q)"

definition waiting :: "lane_queue \<Rightarrow> nat \<Rightarrow> bool" where
  "waiting q w \<longleftrightarrow> w < length (waiters q) \<and> w_promise (waiters q ! w) = Pending"

definition demo_lanes :: "lane_op list" where
  "demo_lanes =
     [Acquire ''ws'' None None, Acquire ''ws'' (Some 10) (Some False), Acquire ''ws'' None None,
      Acquire ''other'' None None, Timer_fires 1, Release_called 0]"

lemma demo_lanes_run:
  "let q = exec_ops apply_lane_op demo_lanes no_lanes in
     map w_promise (waiters q) = [Held, Lane_busy ''ws'' 10, Held, Held] \<and> lane_size q = 2 \<and>
     map (running q) [0, 1, 2, 3] = [False, False, True, True]"
  by code_simp

section \<open>The invariant\<close>

abbreviation (input) wt :: "lane_queue \<Rightarrow> nat \<Rightarrow> waiter" where
  "wt q w \<equiv> waiters q ! w"

abbreviation (input) ln :: "lane_queue \<Rightarrow> nat \<Rightarrow> lane" where
  "ln q l \<equiv> lane_objs q ! l"

definition lanes_valid :: "lane_queue \<Rightarrow> bool" where
  "lanes_valid q \<longleftrightarrow>
     (\<forall>w < length (waiters q). w_lane (wt q w) < length (lane_objs q)) \<and>
     (\<forall>k l. map_of (lanes q) k = Some l \<longrightarrow> l < length (lane_objs q))"

definition holders_ok :: "lane_queue \<Rightarrow> bool" where
  "holders_ok q \<longleftrightarrow>
     (\<forall>l < length (lane_objs q). \<forall>w. current (ln q l) = Some w \<longrightarrow> running q w \<and> w_lane (wt q w) = l) \<and>
     (\<forall>w. running q w \<longrightarrow> current (ln q (w_lane (wt q w))) = Some w)"

definition queues_ok :: "lane_queue \<Rightarrow> bool" where
  "queues_ok q \<longleftrightarrow>
     (\<forall>l < length (lane_objs q). sorted_wrt (<) (queue (ln q l)) \<and>
        (\<forall>w \<in> set (queue (ln q l)). waiting q w \<and> w_lane (wt q w) = l)) \<and>
     (\<forall>w. waiting q w \<longrightarrow> w \<in> set (queue (ln q (w_lane (wt q w)))))"

definition no_idle_queue :: "nat option \<Rightarrow> lane_queue \<Rightarrow> bool" where
  "no_idle_queue ex q \<longleftrightarrow>
     (\<forall>l < length (lane_objs q). Some l \<noteq> ex \<longrightarrow> current (ln q l) = None \<longrightarrow> queue (ln q l) = [])"

definition keyed_ok :: "lane_queue \<Rightarrow> bool" where
  "keyed_ok q \<longleftrightarrow>
     (\<forall>w. waiting q w \<or> running q w \<longrightarrow> map_of (lanes q) (w_key (wt q w)) = Some (w_lane (wt q w)))"

definition fifo_ok :: "lane_queue \<Rightarrow> bool" where
  "fifo_ok q \<longleftrightarrow>
     (\<forall>w v. w < length (waiters q) \<longrightarrow> w_key (wt q w) = w_key (wt q v) \<longrightarrow> waiting q v \<longrightarrow>
        w_promise (wt q w) = Held \<longrightarrow> w < v)"

definition flags_ok :: "lane_queue \<Rightarrow> bool" where
  "flags_ok q \<longleftrightarrow>
     (\<forall>w < length (waiters q). w_started (wt q w) \<longleftrightarrow> w_promise (wt q w) = Held) \<and>
     (\<forall>w \<in> set (finished q). w < length (waiters q) \<and> w_promise (wt q w) = Held)"

definition timers_ok :: "lane_queue \<Rightarrow> bool" where
  "timers_ok q \<longleftrightarrow> (\<forall>w. waiting q w \<longrightarrow> w_timer (wt q w))"

definition lane_inv :: "nat option \<Rightarrow> lane_queue \<Rightarrow> bool" where
  "lane_inv ex q \<longleftrightarrow>
     lanes_valid q \<and> holders_ok q \<and> queues_ok q \<and> no_idle_queue ex q \<and> keyed_ok q \<and>
     fifo_ok q \<and> flags_ok q"

lemmas lane_inv_defs = lane_inv_def lanes_valid_def holders_ok_def queues_ok_def no_idle_queue_def
  keyed_ok_def fifo_ok_def flags_ok_def

lemma upd_fields [simp]:
  "waiters (upd_lane l f q) = waiters q" "lanes (upd_lane l f q) = lanes q"
  "finished (upd_lane l f q) = finished q" "lane_objs (upd_waiter w g q) = lane_objs q"
  "lanes (upd_waiter w g q) = lanes q" "finished (upd_waiter w g q) = finished q"
  "lane_objs (upd_lane l f q) = (lane_objs q)[l := f (ln q l)]"
  "waiters (upd_waiter w g q) = (waiters q)[w := g (wt q w)]"
  by (simp_all add: upd_lane_def upd_waiter_def)

lemma waiting_lane_lt: "lane_inv ex q \<Longrightarrow> waiting q w \<Longrightarrow> w_lane (wt q w) < length (lane_objs q)"
  by (simp add: lane_inv_def lanes_valid_def waiting_def)

lemma inv_lanes_irrelevant:
  "holders_ok (q\<lparr>lanes := m\<rparr>) = holders_ok q" "queues_ok (q\<lparr>lanes := m\<rparr>) = queues_ok q"
  "no_idle_queue ex (q\<lparr>lanes := m\<rparr>) = no_idle_queue ex q" "fifo_ok (q\<lparr>lanes := m\<rparr>) = fifo_ok q"
  "flags_ok (q\<lparr>lanes := m\<rparr>) = flags_ok q" "waiting (q\<lparr>lanes := m\<rparr>) = waiting q"
  "running (q\<lparr>lanes := m\<rparr>) = running q"
  by (simp_all add: holders_ok_def queues_ok_def no_idle_queue_def fifo_ok_def flags_ok_def
      running_def[abs_def] waiting_def[abs_def])

text \<open>An idle lane dropped from the map takes nobody's lane away.\<close>

lemma startNext_empty:
  assumes "lane_inv (Some l) q" and "l < length (lane_objs q)" and "current (ln q l) = None"
    and "queue (ln q l) = []"
  shows "lane_inv None (startNext l key q)"
proof -
  let ?q = "upd_lane l (\<lambda>x. x\<lparr>current := None\<rparr>) q"
  have "(ln q l)\<lparr>current := None\<rparr> = ln q l" using assms(3) by (cases "ln q l") simp
  then have same: "lane_objs ?q = lane_objs q" by simp
  have q: "?q = q" using same by (simp add: upd_lane_def)
  have "no_idle_queue None q"
    using assms(1,4) unfolding lane_inv_def no_idle_queue_def by (metis option.inject)
  then have inv: "lane_inv None q" using assms(1) by (simp add: lane_inv_def)
  show ?thesis
  proof (cases "map_of (lanes q) key = Some l")
    case False
    then show ?thesis using inv assms(4) q by (simp add: startNext_def)
  next
    case True
    have "w_key (wt q w) \<noteq> key" if "waiting q w \<or> running q w" for w
    proof
      assume "w_key (wt q w) = key"
      then have "w_lane (wt q w) = l" using inv that True by (auto simp: lane_inv_def keyed_ok_def)
      then show False using inv that assms(3,4) by (auto simp: lane_inv_def queues_ok_def holders_ok_def)
    qed
    then have "keyed_ok (q\<lparr>lanes := AList.delete key (lanes q)\<rparr>)"
      using inv unfolding lane_inv_def keyed_ok_def inv_lanes_irrelevant by (auto simp: delete_conv')
    moreover have "lanes_valid (q\<lparr>lanes := AList.delete key (lanes q)\<rparr>)"
      using inv unfolding lane_inv_def lanes_valid_def by (auto simp: delete_conv' split: if_splits)
    ultimately have "lane_inv None (q\<lparr>lanes := AList.delete key (lanes q)\<rparr>)"
      using inv unfolding lane_inv_def inv_lanes_irrelevant by blast
    then show ?thesis using True assms(4) q by (simp add: startNext_def)
  qed
qed

lemma startNext_start:
  assumes "lane_inv (Some l) q" and "l < length (lane_objs q)" and "current (ln q l) = None"
    and "queue (ln q l) = w # ws"
  shows "lane_inv None (startNext l key q)"
proof -
  let ?q = "startNext l key q"
  note inv = assms(1)[unfolded lane_inv_def]
  have w: "waiting q w" "w_lane (wt q w) = l" "w < length (waiters q)"
    using inv assms(2,4) by (auto simp: queues_ok_def waiting_def)
  have nf: "w \<notin> set (finished q)" using w inv by (auto simp: flags_ok_def waiting_def)
  have q: "?q = upd_waiter w start_waiter (upd_lane l (\<lambda>x. x\<lparr>current := Some w, queue := ws\<rparr>) q)"
    using assms(4) by (simp add: startNext_def)
  have ws: "v \<in> set ws \<Longrightarrow> w < v" "sorted_wrt (<) ws" for v
    using inv assms(2,4) by (auto simp: queues_ok_def)
  have len: "length (waiters ?q) = length (waiters q)" "length (lane_objs ?q) = length (lane_objs q)"
    and maps: "lanes ?q = lanes q" "finished ?q = finished q" by (simp_all add: q)
  have wts: "w_lane (wt ?q v) = w_lane (wt q v)" "w_key (wt ?q v) = w_key (wt q v)"
    "w_started (wt ?q v) = (v = w \<or> w_started (wt q v))"
    "w_promise (wt ?q v) = (if v = w then Held else w_promise (wt q v))" for v
    using w(3) by (auto simp: q start_waiter_def nth_list_update)
  have lns: "current (ln ?q i) = (if i = l then Some w else current (ln q i))"
    "queue (ln ?q i) = (if i = l then ws else queue (ln q i))" if "i < length (lane_objs q)" for i
    using that by (simp_all add: q)
  have run: "running ?q v \<longleftrightarrow> running q v \<or> v = w" for v
    using w nf by (auto simp: running_def len wts maps waiting_def)
  have wai: "waiting ?q v \<longleftrightarrow> waiting q v \<and> v \<noteq> w" for v
    by (auto simp: waiting_def len wts)
  have lt: "waiting q v \<or> running q v \<Longrightarrow> w_lane (wt q v) < length (lane_objs q)" for v
    using inv by (auto simp: lanes_valid_def waiting_def running_def)
  have "lanes_valid ?q" using inv by (simp add: lanes_valid_def len wts maps)
  moreover have "holders_ok ?q"
    unfolding holders_ok_def run wts len
  proof (intro conjI allI impI)
    fix i v assume i: "i < length (lane_objs q)" and c: "current (ln ?q i) = Some v"
    have "(i = l \<and> v = w) \<or> (running q v \<and> w_lane (wt q v) = i)"
      using c inv i unfolding lns[OF i] holders_ok_def by (auto split: if_splits)
    then show "running q v \<or> v = w" "w_lane (wt q v) = i" using w(2) by auto
  next
    fix v assume r: "running q v \<or> v = w"
    show "current (ln ?q (w_lane (wt q v))) = Some v"
    proof (cases "v = w")
      case True
      then show ?thesis using lns(1)[OF assms(2)] w(2) by simp
    next
      case False
      then have c: "current (ln q (w_lane (wt q v))) = Some v" using r inv by (simp add: holders_ok_def)
      then have "w_lane (wt q v) \<noteq> l" using assms(3) by auto
      with c show ?thesis using lns(1)[of "w_lane (wt q v)"] lt[of v] r False by simp
    qed
  qed
  moreover have "queues_ok ?q"
    unfolding queues_ok_def wai wts len
  proof (intro conjI allI impI ballI)
    fix i assume i: "i < length (lane_objs q)"
    show "sorted_wrt (<) (queue (ln ?q i))"
      using inv i ws(2) unfolding lns[OF i] queues_ok_def by auto
    fix v assume v: "v \<in> set (queue (ln ?q i))"
    have "v \<in> set (queue (ln q i)) \<and> v \<noteq> w"
    proof (cases "i = l")
      case True
      then show ?thesis using v ws(1)[of v] assms(4) unfolding lns[OF i] by auto
    next
      case False
      then show ?thesis using v inv i w(2) unfolding lns[OF i] queues_ok_def by auto
    qed
    then show "waiting q v" "v \<noteq> w" "w_lane (wt q v) = i"
      using inv i unfolding queues_ok_def by blast+
  next
    fix v assume v: "waiting q v \<and> v \<noteq> w"
    then have o: "v \<in> set (queue (ln q (w_lane (wt q v))))"
      using inv unfolding queues_ok_def by blast
    have i: "w_lane (wt q v) < length (lane_objs q)" using lt v by blast
    show "v \<in> set (queue (ln ?q (w_lane (wt q v))))"
      using o v assms(4) unfolding lns[OF i] by auto
  qed
  moreover have "no_idle_queue None ?q"
    using inv unfolding no_idle_queue_def len by (auto simp: lns)
  moreover have "keyed_ok ?q"
    using inv w(1) unfolding keyed_ok_def wai run wts maps by blast
  moreover have "fifo_ok ?q"
    unfolding fifo_ok_def wai wts len
  proof (intro allI impI)
    fix u v assume u: "u < length (waiters q)" "w_key (wt q u) = w_key (wt q v)"
      "waiting q v \<and> v \<noteq> w" "(if u = w then Held else w_promise (wt q u)) = Held"
    show "u < v"
    proof (cases "u = w")
      case True
      have "w_lane (wt q v) = l"
        using u(2,3) True w(1,2) inv unfolding keyed_ok_def by (metis option.inject)
      then have "v \<in> set (queue (ln q l))" using u(3) inv unfolding queues_ok_def by blast
      then show ?thesis using True u(3) assms(4) ws(1) by auto
    next
      case False
      then show ?thesis using u inv unfolding fifo_ok_def by auto
    qed
  qed
  moreover have "flags_ok ?q"
    using inv w(3) unfolding flags_ok_def wts len maps by auto
  ultimately show ?thesis by (simp add: lane_inv_def)
qed

lemma startNext_inv:
  assumes "lane_inv (Some l) q" and "l < length (lane_objs q)" and "current (ln q l) = None"
  shows "lane_inv None (startNext l key q)"
  using startNext_empty[OF assms] startNext_start[OF assms] by (cases "queue (ln q l)") auto

text \<open>A waiter that gives up leaves the queue; the order of the others stays.\<close>

definition give_up :: "nat \<Rightarrow> promise_state \<Rightarrow> lane_queue \<Rightarrow> lane_queue" where
  "give_up w reason q = removeWaiter (w_lane (wt q w)) w (upd_waiter w (reject reason) q)"

lemma give_up_inv:
  assumes "lane_inv None q" and "w < length (waiters q)" and "\<not> w_started (wt q w)"
    and "reason \<noteq> Pending" and "reason \<noteq> Held"
  shows "lane_inv None (give_up w reason q)"
    and "waiting (give_up w reason q) v \<longleftrightarrow> waiting q v \<and> v \<noteq> w"
    and "running (give_up w reason q) v \<longleftrightarrow> running q v"
    and "v \<noteq> w \<Longrightarrow> wt (give_up w reason q) v = wt q v"
proof -
  let ?q = "give_up w reason q" and ?l = "w_lane (wt q w)"
  note inv = assms(1)[unfolded lane_inv_def]
  have nh: "w_promise (wt q w) \<noteq> Held" using inv assms(2,3) by (auto simp: flags_ok_def)
  have len: "length (waiters ?q) = length (waiters q)" "length (lane_objs ?q) = length (lane_objs q)"
    and maps: "lanes ?q = lanes q" "finished ?q = finished q" by (simp_all add: give_up_def removeWaiter_def)
  have wts: "w_lane (wt ?q v) = w_lane (wt q v)" "w_key (wt ?q v) = w_key (wt q v)"
    "w_started (wt ?q v) = w_started (wt q v)"
    "w_promise (wt ?q v) = (if v = w \<and> w_promise (wt q w) = Pending then reason else w_promise (wt q v))" for v
    using assms(2) by (auto simp: give_up_def removeWaiter_def reject_def nth_list_update)
  have lns: "current (ln ?q i) = current (ln q i)"
    "queue (ln ?q i) = (if i = ?l then remove1 w (queue (ln q i)) else queue (ln q i))"
    if "i < length (lane_objs q)" for i
    using that by (cases "i = ?l"; simp add: give_up_def removeWaiter_def)+
  have run: "running ?q v \<longleftrightarrow> running q v" for v
    using assms(5) nh by (auto simp: running_def len wts maps split: if_splits)
  have wai: "waiting ?q v \<longleftrightarrow> waiting q v \<and> v \<noteq> w" for v
    using assms(4) by (auto simp: waiting_def len wts)
  have dist: "distinct (queue (ln q i))" if "i < length (lane_objs q)" for i
    using inv that strict_sorted_iff unfolding queues_ok_def by blast
  have lt: "waiting q v \<Longrightarrow> w_lane (wt q v) < length (lane_objs q)" for v
    using inv by (auto simp: lanes_valid_def waiting_def)
  have "lanes_valid ?q" using inv by (simp add: lanes_valid_def len wts maps)
  moreover have "holders_ok ?q"
    using inv unfolding holders_ok_def run wts len by (metis lns(1) running_def lanes_valid_def)
  moreover have "queues_ok ?q"
    unfolding queues_ok_def wai wts len
  proof (intro conjI allI impI ballI)
    fix i assume i: "i < length (lane_objs q)"
    have "sorted_wrt (<) (queue (ln q i))" using inv i by (simp add: queues_ok_def)
    then show "sorted_wrt (<) (queue (ln ?q i))"
      unfolding lns[OF i] by (auto simp: strict_sorted_iff sorted_remove1)
    fix v assume v: "v \<in> set (queue (ln ?q i))"
    then have o: "v \<in> set (queue (ln q i))" unfolding lns[OF i] by (auto split: if_splits dest: set_remove1_subset[THEN subsetD])
    then show g: "waiting q v" "w_lane (wt q v) = i" using inv i unfolding queues_ok_def by blast+
    show "v \<noteq> w" using v g dist[OF i] unfolding lns[OF i] by auto
  next
    fix v assume v: "waiting q v \<and> v \<noteq> w"
    then have "v \<in> set (queue (ln q (w_lane (wt q v))))" using inv unfolding queues_ok_def by blast
    then show "v \<in> set (queue (ln ?q (w_lane (wt q v))))" using lns(2)[OF lt] v by auto
  qed
  moreover have "no_idle_queue None ?q"
    using inv unfolding no_idle_queue_def len by (simp add: lns)
  moreover have "keyed_ok ?q" using inv unfolding keyed_ok_def wai run wts maps by blast
  moreover have "fifo_ok ?q"
    using inv assms(5) unfolding fifo_ok_def wai wts len by (simp split: if_splits)
  moreover have "flags_ok ?q"
    using inv assms(2,3,5) nh unfolding flags_ok_def wts len maps by auto
  ultimately show "lane_inv None ?q" by (simp add: lane_inv_def)
  show "waiting ?q v \<longleftrightarrow> waiting q v \<and> v \<noteq> w" "running ?q v \<longleftrightarrow> running q v" by (rule wai, rule run)
  show "v \<noteq> w \<Longrightarrow> wt ?q v = wt q v" by (simp add: give_up_def removeWaiter_def)
qed

text \<open>Handles and timers that fire are flags the invariant does not read.\<close>

lemma lane_inv_flag:
  assumes "\<And>x. w_lane (f x) = w_lane x \<and> w_key (f x) = w_key x \<and> w_promise (f x) = w_promise x \<and>
      w_started (f x) = w_started x"
  shows "lane_inv ex (upd_waiter w f q) = lane_inv ex q"
    and "waiting (upd_waiter w f q) v = waiting q v" and "running (upd_waiter w f q) v = running q v"
proof -
  have wts: "w_lane (wt (upd_waiter w f q) v) = w_lane (wt q v)" "w_key (wt (upd_waiter w f q) v) = w_key (wt q v)"
    "w_promise (wt (upd_waiter w f q) v) = w_promise (wt q v)"
    "w_started (wt (upd_waiter w f q) v) = w_started (wt q v)" for v
    using assms by (cases "w < length (waiters q)"; simp add: nth_list_update list_update_beyond)+
  have len: "length (waiters (upd_waiter w f q)) = length (waiters q)" by simp
  have others: "lane_objs (upd_waiter w f q) = lane_objs q" "lanes (upd_waiter w f q) = lanes q"
    "finished (upd_waiter w f q) = finished q" by simp_all
  have wr: "waiting (upd_waiter w f q) = waiting q" "running (upd_waiter w f q) = running q"
    by (rule ext, simp only: waiting_def running_def wts len others)+
  then show "waiting (upd_waiter w f q) v = waiting q v" "running (upd_waiter w f q) v = running q v" by simp_all
  show "lane_inv ex (upd_waiter w f q) = lane_inv ex q"
    by (simp only: lane_inv_defs wr wts len others)
qed

subsection \<open>Release and acquire\<close>

text \<open>Handing back the lane: the holder is done and the lane is open for the next.\<close>

definition hand_back :: "nat \<Rightarrow> lane_queue \<Rightarrow> lane_queue" where
  "hand_back w q =
     upd_lane (w_lane (wt q w)) (\<lambda>x. x\<lparr>current := None\<rparr>)
       (upd_waiter w (\<lambda>x. x\<lparr>w_released := True\<rparr>) (q\<lparr>finished := w # finished q\<rparr>))"

lemma release_is_hand_back:
  assumes "lane_inv None q" and "running q w"
  shows "release_lane (w_lane (wt q w)) (w_key (wt q w)) (q\<lparr>finished := w # finished q\<rparr>) =
    startNext (w_lane (wt q w)) (w_key (wt q w)) (hand_back w q)"
proof -
  have "current (ln q (w_lane (wt q w))) = Some w"
    using assms by (simp add: lane_inv_def holders_ok_def)
  then show ?thesis by (simp add: release_lane_def hand_back_def)
qed

lemma hand_back_inv:
  assumes "lane_inv None q" and "running q w"
  shows "lane_inv (Some (w_lane (wt q w))) (hand_back w q)"
    and "current (ln (hand_back w q) (w_lane (wt q w))) = None"
    and "w_lane (wt q w) < length (lane_objs (hand_back w q))"
    and "waiting (hand_back w q) v = waiting q v" and "w_timer (wt (hand_back w q) v) = w_timer (wt q v)"
proof -
  let ?q = "hand_back w q" and ?l = "w_lane (wt q w)"
  note inv = assms(1)[unfolded lane_inv_def]
  have wlt: "w < length (waiters q)" and held: "w_promise (wt q w) = Held" using assms(2) by (auto simp: running_def)
  have l: "?l < length (lane_objs q)" using inv wlt by (simp add: lanes_valid_def)
  have len: "length (waiters ?q) = length (waiters q)" "length (lane_objs ?q) = length (lane_objs q)"
    and maps: "lanes ?q = lanes q" "finished ?q = w # finished q" by (simp_all add: hand_back_def)
  have wts: "w_lane (wt ?q v) = w_lane (wt q v)" "w_key (wt ?q v) = w_key (wt q v)"
    "w_started (wt ?q v) = w_started (wt q v)" "w_promise (wt ?q v) = w_promise (wt q v)"
    "w_timer (wt ?q v) = w_timer (wt q v)" for v
    using wlt by (cases "v = w"; simp add: hand_back_def)+
  have lns: "current (ln ?q i) = (if i = ?l then None else current (ln q i))"
    "queue (ln ?q i) = queue (ln q i)" if "i < length (lane_objs q)" for i
    using that by (cases "i = ?l"; simp add: hand_back_def)+
  have run: "running ?q v \<longleftrightarrow> running q v \<and> v \<noteq> w" for v
    by (auto simp: running_def len wts maps)
  have wai: "waiting ?q v \<longleftrightarrow> waiting q v" for v by (simp add: waiting_def len wts)
  have "lanes_valid ?q" using inv by (simp add: lanes_valid_def len wts maps)
  moreover have "holders_ok ?q"
    unfolding holders_ok_def run wts len
  proof (intro conjI allI impI)
    fix i v assume i: "i < length (lane_objs q)" and c: "current (ln ?q i) = Some v"
    then have "i \<noteq> ?l" "current (ln q i) = Some v" unfolding lns[OF i] by (auto split: if_splits)
    then show "running q v" "v \<noteq> w" "w_lane (wt q v) = i"
      using inv i unfolding holders_ok_def by blast+
  next
    fix v assume v: "running q v \<and> v \<noteq> w"
    then have c: "current (ln q (w_lane (wt q v))) = Some v" using inv unfolding holders_ok_def by blast
    have i: "w_lane (wt q v) < length (lane_objs q)"
      using v inv by (auto simp: running_def lanes_valid_def)
    have "w_lane (wt q v) \<noteq> ?l"
      using c v assms(2) inv unfolding holders_ok_def by (metis option.inject)
    then show "current (ln ?q (w_lane (wt q v))) = Some v" using c unfolding lns[OF i] by simp
  qed
  moreover have "queues_ok ?q"
    using inv unfolding queues_ok_def wai wts len by (simp add: lns lanes_valid_def waiting_def)
  moreover have "no_idle_queue (Some ?l) ?q"
    using inv unfolding no_idle_queue_def len by (simp add: lns)
  moreover have "keyed_ok ?q" using inv unfolding keyed_ok_def wai run wts maps by blast
  moreover have "fifo_ok ?q" using inv unfolding fifo_ok_def wai wts len by blast
  moreover have "flags_ok ?q" using inv wlt held unfolding flags_ok_def wts len maps by auto
  ultimately show "lane_inv (Some ?l) ?q" by (simp add: lane_inv_def)
  show "current (ln ?q ?l) = None" "?l < length (lane_objs ?q)" using lns(1)[OF l] l len by simp_all
  show "waiting ?q v = waiting q v" "w_timer (wt ?q v) = w_timer (wt q v)" by (rule wai, rule wts(5))
qed

text \<open>The lane of a key is found or made.\<close>

definition with_lane :: "string \<Rightarrow> lane_queue \<Rightarrow> nat \<times> lane_queue" where
  "with_lane key q =
     (case map_of (lanes q) key of
        Some l \<Rightarrow> (l, q\<lparr>lanes := AList.update key l (lanes q)\<rparr>)
      | None \<Rightarrow> (length (lane_objs q),
          q\<lparr>lane_objs := lane_objs q @ [empty_lane],
            lanes := AList.update key (length (lane_objs q)) (lanes q)\<rparr>))"

lemma with_lane_inv:
  assumes "lane_inv None q" and "with_lane key q = (l, q')"
  shows "lane_inv None q'" and "map_of (lanes q') key = Some l" and "l < length (lane_objs q')"
    and "waiters q' = waiters q" and "finished q' = finished q"
    and "\<And>v. waiting q' v = waiting q v"
proof -
  have "lane_inv None q' \<and> map_of (lanes q') key = Some l \<and> l < length (lane_objs q') \<and>
    waiters q' = waiters q \<and> finished q' = finished q \<and> (\<forall>v. waiting q' v = waiting q v)"
  proof (cases "map_of (lanes q) key")
    case (Some k)
    then have q': "q' = q\<lparr>lanes := AList.update key l (lanes q)\<rparr>" "l = k"
      using assms(2) by (auto simp: with_lane_def)
    have m: "map_of (AList.update key l (lanes q)) = map_of (lanes q)"
      using Some q'(2) by (simp add: update_conv' map_upd_triv)
    have "lanes_valid q'" "keyed_ok q'"
      using assms(1) by (auto simp: q' lane_inv_def lanes_valid_def keyed_ok_def m[unfolded q'(2)] inv_lanes_irrelevant)
    then show ?thesis
      using assms(1) Some by (simp add: lane_inv_def q'(1) inv_lanes_irrelevant m q'(2)[symmetric])
        (simp add: q'(2) lanes_valid_def)
  next
    case None
    then have q': "q' = q\<lparr>lane_objs := lane_objs q @ [empty_lane], lanes := AList.update key l (lanes q)\<rparr>"
      "l = length (lane_objs q)"
      using assms(2) by (auto simp: with_lane_def)
    note inv = assms(1)[unfolded lane_inv_def]
    have lns: "i < length (lane_objs q) \<Longrightarrow> ln q' i = ln q i" "ln q' l = empty_lane"
      "length (lane_objs q') = Suc (length (lane_objs q))" for i
      by (simp_all add: q' nth_append)
    have same: "waiters q' = waiters q" "finished q' = finished q" by (simp_all add: q'(1))
    have wr: "waiting q' = waiting q" "running q' = running q"
      by (simp_all add: waiting_def[abs_def] running_def[abs_def] same)
    have m: "map_of (lanes q') = (map_of (lanes q))(key \<mapsto> l)" by (simp add: q'(1) update_conv')
    have lt: "waiting q v \<or> running q v \<Longrightarrow> w_lane (wt q v) < length (lane_objs q)" for v
      using inv by (auto simp: lanes_valid_def waiting_def running_def)
    have "lanes_valid q'"
      using inv q'(2) unfolding lanes_valid_def same lns(3) m by (auto simp: less_Suc_eq)
    moreover have "holders_ok q'"
      using inv lt unfolding holders_ok_def same wr lns(3)
      by (metis lns(1,2) less_Suc_eq q'(2) empty_lane_def lane.select_convs(1) option.distinct(1))
    moreover have "queues_ok q'"
      unfolding queues_ok_def same wr lns(3)
    proof (intro conjI allI impI ballI)
      fix i assume i: "i < Suc (length (lane_objs q))"
      have c: "i < length (lane_objs q) \<and> ln q' i = ln q i \<or> queue (ln q' i) = []"
        using i lns(1,2) q'(2) by (auto simp: less_Suc_eq empty_lane_def)
      then show "sorted_wrt (<) (queue (ln q' i))" using inv unfolding queues_ok_def by auto
      fix v assume "v \<in> set (queue (ln q' i))"
      then show "waiting q v" "w_lane (wt q v) = i" using c inv unfolding queues_ok_def by auto
    next
      fix v assume "waiting q v"
      then show "v \<in> set (queue (ln q' (w_lane (wt q v))))"
        using inv lns(1)[OF lt] unfolding queues_ok_def by simp
    qed
    moreover have "no_idle_queue None q'"
      using inv lns(1,2) q'(2) unfolding no_idle_queue_def lns(3)
      by (auto simp: less_Suc_eq empty_lane_def)
    moreover have "keyed_ok q'" using inv None unfolding keyed_ok_def same wr m by auto
    moreover have "fifo_ok q'" using inv unfolding fifo_ok_def same wr by blast
    moreover have "flags_ok q'" using inv unfolding flags_ok_def same by blast
    ultimately show ?thesis by (simp add: lane_inv_def m same wr lns(3) q'(2))
  qed
  then show "lane_inv None q'" and "map_of (lanes q') key = Some l" and "l < length (lane_objs q')"
    and "waiters q' = waiters q" and "finished q' = finished q"
    and "\<And>v. waiting q' v = waiting q v" by blast+
qed

text \<open>A waiter whose signal had already aborted is settled at once and never queued.\<close>

lemma add_settled_inv:
  assumes "lane_inv None q" and "w_lane x < length (lane_objs q)" and "w_promise x \<noteq> Pending"
    and "w_promise x \<noteq> Held" and "\<not> w_started x"
  shows "lane_inv None (q\<lparr>waiters := waiters q @ [x]\<rparr>)"
    and "waiting (q\<lparr>waiters := waiters q @ [x]\<rparr>) v = waiting q v"
proof -
  let ?q = "q\<lparr>waiters := waiters q @ [x]\<rparr>" and ?n = "length (waiters q)"
  note inv = assms(1)[unfolded lane_inv_def]
  have wts: "v < ?n \<Longrightarrow> wt ?q v = wt q v" "wt ?q ?n = x" for v by (simp_all add: nth_append)
  have len: "length (waiters ?q) = Suc ?n" by simp
  have others: "lane_objs ?q = lane_objs q" "lanes ?q = lanes q" "finished ?q = finished q" by simp_all
  have wai: "waiting ?q v = waiting q v" and run: "running ?q v = running q v" for v
    using assms(3,4) by (auto simp: waiting_def running_def nth_append less_Suc_eq)
  have lt: "waiting q v \<or> running q v \<Longrightarrow> wt ?q v = wt q v" for v
    by (rule wts(1)) (auto simp: waiting_def running_def)
  have "lanes_valid ?q"
    using inv assms(2) wts unfolding lanes_valid_def len others by (auto simp: less_Suc_eq)
  moreover have "holders_ok ?q" using inv lt unfolding holders_ok_def run others by metis
  moreover have "queues_ok ?q" using inv lt unfolding queues_ok_def wai others by metis
  moreover have "no_idle_queue None ?q" using inv by (simp add: no_idle_queue_def)
  moreover have "keyed_ok ?q" using inv lt unfolding keyed_ok_def wai run others by metis
  moreover have "fifo_ok ?q"
    using inv lt wts assms(4) unfolding fifo_ok_def wai len by (metis less_Suc_eq)
  moreover have "flags_ok ?q"
  proof -
    have "v \<in> set (finished q) \<Longrightarrow> v < ?n \<and> w_promise (wt q v) = Held" for v
      using inv unfolding flags_ok_def by blast
    moreover have "v < ?n \<Longrightarrow> w_started (wt q v) \<longleftrightarrow> w_promise (wt q v) = Held" for v
      using inv unfolding flags_ok_def by blast
    ultimately show ?thesis
      using assms(4,5) wts unfolding flags_ok_def len others by (metis less_Suc_eq)
  qed
  ultimately show "lane_inv None ?q" by (simp add: lane_inv_def)
  show "waiting ?q v = waiting q v" by (rule wai)
qed

text \<open>A queued waiter is the youngest of its lane.\<close>

definition enqueue :: "waiter \<Rightarrow> lane_queue \<Rightarrow> lane_queue" where
  "enqueue x q =
     upd_lane (w_lane x) (\<lambda>z. z\<lparr>queue := queue z @ [length (waiters q)]\<rparr>)
       (q\<lparr>waiters := waiters q @ [x]\<rparr>)"

lemma enqueue_inv:
  assumes "lane_inv None q" and "w_lane x < length (lane_objs q)" and "w_promise x = Pending"
    and "\<not> w_started x" and "map_of (lanes q) (w_key x) = Some (w_lane x)"
  shows "lane_inv (if current (ln q (w_lane x)) = None then Some (w_lane x) else None) (enqueue x q)"
    and "current (ln (enqueue x q) (w_lane x)) = current (ln q (w_lane x))"
    and "w_lane x < length (lane_objs (enqueue x q))"
    and "waiting (enqueue x q) v \<longleftrightarrow> waiting q v \<or> v = length (waiters q)"
    and "v < length (waiters q) \<Longrightarrow> wt (enqueue x q) v = wt q v"
    and "wt (enqueue x q) (length (waiters q)) = x"
proof -
  let ?q = "enqueue x q" and ?n = "length (waiters q)" and ?l = "w_lane x"
  note inv = assms(1)[unfolded lane_inv_def]
  have wts: "v < ?n \<Longrightarrow> wt ?q v = wt q v" "wt ?q ?n = x" for v by (simp_all add: enqueue_def nth_append)
  have len: "length (waiters ?q) = Suc ?n" "length (lane_objs ?q) = length (lane_objs q)"
    and maps: "lanes ?q = lanes q" "finished ?q = finished q" by (simp_all add: enqueue_def)
  have lns: "current (ln ?q i) = current (ln q i)"
    "queue (ln ?q i) = (if i = ?l then queue (ln q i) @ [?n] else queue (ln q i))"
    if "i < length (lane_objs q)" for i
    using that by (cases "i = ?l"; simp add: enqueue_def)+
  have wai: "waiting ?q v \<longleftrightarrow> waiting q v \<or> v = ?n" for v
    using assms(3) wts by (auto simp: waiting_def len less_Suc_eq)
  have run: "running ?q v \<longleftrightarrow> running q v" for v
    using assms(3) wts by (auto simp: running_def len maps less_Suc_eq)
  have lt: "waiting q v \<or> running q v \<Longrightarrow> v < ?n \<and> wt ?q v = wt q v \<and> w_lane (wt q v) < length (lane_objs q)" for v
    using inv wts(1) by (auto simp: waiting_def running_def lanes_valid_def)
  have "lanes_valid ?q"
    using inv assms(2) wts unfolding lanes_valid_def len maps by (auto simp: less_Suc_eq)
  moreover have "holders_ok ?q" using inv lt unfolding holders_ok_def run len by (metis lns(1))
  moreover have "queues_ok ?q"
    unfolding queues_ok_def wai len
  proof (intro conjI allI impI ballI)
    fix i assume i: "i < length (lane_objs q)"
    have old: "sorted_wrt (<) (queue (ln q i))" "\<And>v. v \<in> set (queue (ln q i)) \<Longrightarrow> waiting q v \<and> w_lane (wt q v) = i"
      using inv i unfolding queues_ok_def by blast+
    show "sorted_wrt (<) (queue (ln ?q i))"
      using old lt unfolding lns[OF i] by (auto simp: sorted_wrt_append)
    fix v assume v: "v \<in> set (queue (ln ?q i))"
    then have c: "v \<in> set (queue (ln q i)) \<or> v = ?n \<and> i = ?l" unfolding lns[OF i] by (auto split: if_splits)
    then show "waiting q v \<or> v = ?n" using old(2) by blast
    show "w_lane (wt ?q v) = i" using c old(2)[of v] lt[of v] wts(2) by auto
  next
    fix v assume v: "waiting q v \<or> v = ?n"
    show "v \<in> set (queue (ln ?q (w_lane (wt ?q v))))"
    proof (cases "v = ?n")
      case True
      then show ?thesis using wts(2) lns(2)[OF assms(2)] by simp
    next
      case False
      then have "v \<in> set (queue (ln q (w_lane (wt q v))))" using v inv unfolding queues_ok_def by blast
      then show ?thesis using lt[of v] v False lns(2)[of "w_lane (wt q v)"] by auto
    qed
  qed
  moreover have "no_idle_queue (if current (ln q ?l) = None then Some ?l else None) ?q"
    unfolding no_idle_queue_def len
  proof (intro allI impI)
    fix i assume i: "i < length (lane_objs q)"
      and e: "Some i \<noteq> (if current (ln q ?l) = None then Some ?l else None)" and c: "current (ln ?q i) = None"
    then have "i \<noteq> ?l" "current (ln q i) = None" using lns(1)[OF i] by auto
    then show "queue (ln ?q i) = []" using inv i lns(2)[OF i] unfolding no_idle_queue_def by simp
  qed
  moreover have "keyed_ok ?q"
    using inv lt assms(5) wts(2) unfolding keyed_ok_def wai run maps by metis
  moreover have "fifo_ok ?q"
    unfolding fifo_ok_def wai len
  proof (intro allI impI)
    fix u v assume u: "u < Suc ?n" "w_key (wt ?q u) = w_key (wt ?q v)" "waiting q v \<or> v = ?n"
      "w_promise (wt ?q u) = Held"
    then have un: "u < ?n" using wts(2) assms(3) by (auto simp: less_Suc_eq)
    show "u < v"
    proof (cases "v = ?n")
      case True
      then show ?thesis using un by simp
    next
      case False
      then show ?thesis using u un lt[of v] wts(1)[OF un] inv unfolding fifo_ok_def by auto
    qed
  qed
  moreover have "flags_ok ?q"
  proof -
    have "v \<in> set (finished q) \<Longrightarrow> v < ?n \<and> w_promise (wt q v) = Held" for v
      using inv unfolding flags_ok_def by blast
    moreover have "v < ?n \<Longrightarrow> w_started (wt q v) \<longleftrightarrow> w_promise (wt q v) = Held" for v
      using inv unfolding flags_ok_def by blast
    ultimately show ?thesis
      using assms(3,4) wts unfolding flags_ok_def len maps by (metis less_Suc_eq promise_state.distinct(1))
  qed
  ultimately show "lane_inv (if current (ln q ?l) = None then Some ?l else None) ?q" by (simp add: lane_inv_def)
  show "current (ln ?q ?l) = current (ln q ?l)" "?l < length (lane_objs ?q)" using lns(1)[OF assms(2)] assms(2) len by simp_all
  show "waiting ?q v \<longleftrightarrow> waiting q v \<or> v = ?n" by (rule wai)
  show "v < ?n \<Longrightarrow> wt ?q v = wt q v" "wt ?q ?n = x" using wts by blast+
qed

subsection \<open>Every step keeps the invariant\<close>

definition new_waiter :: "string \<Rightarrow> int option \<Rightarrow> nat \<Rightarrow> bool \<Rightarrow> bool \<Rightarrow> promise_state \<Rightarrow> waiter" where
  "new_waiter key timeout l timer listens p =
     \<lparr> w_key = key, w_lane = l, w_timeoutMs = nullish timeout LANE_DEFAULT_TIMEOUT_MS,
       w_promise = p, w_timer = timer, w_listens = listens, w_started = False, w_released = False \<rparr>"

lemma new_waiter_simps [simp]:
  "w_key (new_waiter key timeout l timer listens p) = key"
  "w_lane (new_waiter key timeout l timer listens p) = l"
  "w_promise (new_waiter key timeout l timer listens p) = p"
  "w_timer (new_waiter key timeout l timer listens p) = timer"
  "\<not> w_started (new_waiter key timeout l timer listens p)"
  by (simp_all add: new_waiter_def)

lemma acquire_with_lane:
  assumes "with_lane key q = (l, q2)"
  shows "acquire key timeout signal q =
    (if signal = Some True
     then abortWhileQueued (length (waiters q2))
       (q2\<lparr>waiters := waiters q2 @ [new_waiter key timeout l False False Pending]\<rparr>)
     else (let q3 = enqueue (new_waiter key timeout l True (signal \<noteq> None) Pending) q2
           in if current (ln q3 l) = None then startNext l key q3 else q3))"
  using assms
  by (auto simp: acquire_def with_lane_def enqueue_def new_waiter_def Let_def split: option.splits)

lemma abort_unqueued:
  assumes "lane_inv None q" and "l < length (lane_objs q)"
  shows "abortWhileQueued (length (waiters q))
      (q\<lparr>waiters := waiters q @ [new_waiter key timeout l False False Pending]\<rparr>) =
    q\<lparr>waiters := waiters q @ [new_waiter key timeout l False False (Wait_aborted key)]\<rparr>"
proof -
  have "length (waiters q) \<notin> set (queue (ln q l))"
    using assms by (auto simp: lane_inv_def queues_ok_def waiting_def)
  then have r: "remove1 (length (waiters q)) (queue (ln q l)) = queue (ln q l)"
    by (simp add: remove1_idem)
  have "(ln q l)\<lparr>queue := queue (ln q l)\<rparr> = ln q l" by (cases "ln q l") simp
  then show ?thesis
    by (simp add: abortWhileQueued_def removeWaiter_def upd_lane_def upd_waiter_def reject_def new_waiter_def r)
qed

definition lane_ok :: "lane_queue \<Rightarrow> bool" where
  "lane_ok q \<longleftrightarrow> lane_inv None q \<and> timers_ok q"

lemma startNext_waiting:
  "waiting (startNext l key q) v \<Longrightarrow>
     waiting q v \<and> w_timer (wt (startNext l key q) v) = w_timer (wt q v)"
proof (cases "queue (ln q l)")
  case Nil
  then show "waiting (startNext l key q) v \<Longrightarrow> ?thesis"
    by (auto simp: startNext_def Let_def waiting_def split: if_splits)
next
  case (Cons w ws)
  then show "waiting (startNext l key q) v \<Longrightarrow> ?thesis"
    by (cases "v = w") (auto simp: startNext_def start_waiter_def waiting_def)
qed

lemma startNext_timers:
  assumes "\<And>v. waiting q v \<Longrightarrow> w_timer (wt q v)"
  shows "timers_ok (startNext l key q)"
  unfolding timers_ok_def using assms startNext_waiting by blast

lemma acquire_ok:
  assumes "lane_ok q"
  shows "lane_ok (acquire key timeout signal q)"
proof -
  have inv: "lane_inv None q" and tm: "timers_ok q" using assms by (simp_all add: lane_ok_def)
  obtain l q2 where wl: "with_lane key q = (l, q2)" by fastforce
  note w = with_lane_inv[OF inv wl]
  have tm2: "waiting q2 v \<Longrightarrow> w_timer (wt q2 v)" for v using tm w(4,6) by (simp add: timers_ok_def)
  show ?thesis
  proof (cases "signal = Some True")
    case True
    let ?x = "new_waiter key timeout l False False (Wait_aborted key)"
    have a: "acquire key timeout signal q = q2\<lparr>waiters := waiters q2 @ [?x]\<rparr>"
      using True by (simp add: acquire_with_lane[OF wl] abort_unqueued[OF w(1,3)])
    have "lane_inv None (q2\<lparr>waiters := waiters q2 @ [?x]\<rparr>)"
      by (rule add_settled_inv(1)[OF w(1)]) (use w(3) in simp_all)
    moreover have "waiting (q2\<lparr>waiters := waiters q2 @ [?x]\<rparr>) v = waiting q2 v" for v
      by (rule add_settled_inv(2)[OF w(1)]) (use w(3) in simp_all)
    ultimately show ?thesis
      using tm2 unfolding a lane_ok_def timers_ok_def by (auto simp: waiting_def nth_append)
  next
    case False
    let ?x = "new_waiter key timeout l True (signal \<noteq> None) Pending"
    let ?q = "enqueue ?x q2"
    have px: "w_lane ?x < length (lane_objs q2)" "w_promise ?x = Pending" "\<not> w_started ?x"
      "map_of (lanes q2) (w_key ?x) = Some (w_lane ?x)"
      using w(2,3) by simp_all
    note e = enqueue_inv[OF w(1) px]
    have tq: "waiting ?q v \<Longrightarrow> w_timer (wt ?q v)" for v
      using e(4)[of v] e(5)[of v] e(6) tm2[of v] by (auto simp: waiting_def)
    have a: "acquire key timeout signal q = (if current (ln ?q l) = None then startNext l key ?q else ?q)"
      using False by (simp add: acquire_with_lane[OF wl] Let_def)
    show ?thesis
    proof (cases "current (ln q2 l) = None")
      case True
      then have "lane_inv None (startNext l key ?q)"
        using e(1-3) by (intro startNext_inv) simp_all
      then show ?thesis using a e(2) True startNext_timers[OF tq] by (simp add: lane_ok_def)
    next
      case False
      then have "lane_inv None ?q" using e(1) unfolding new_waiter_simps by (simp only: if_False)
      moreover have "acquire key timeout signal q = ?q" using a e(2) False by auto
      ultimately show ?thesis using tq unfolding lane_ok_def timers_ok_def by metis
    qed
  qed
qed

lemma give_up_ok:
  assumes "lane_inv None q" and "w < length (waiters q)" and "\<not> w_started (wt q w)"
    and "reason \<noteq> Pending" and "reason \<noteq> Held" and "\<And>v. waiting q v \<Longrightarrow> v \<noteq> w \<Longrightarrow> w_timer (wt q v)"
  shows "lane_ok (give_up w reason q)"
  using give_up_inv[OF assms(1-5)] assms(6) by (auto simp: lane_ok_def timers_ok_def)

lemma disarm_ok:
  assumes "lane_ok q" and "f = (\<lambda>x. x\<lparr>w_timer := False\<rparr>) \<or> f = (\<lambda>x. x\<lparr>w_listens := False\<rparr>)"
    and "w < length (waiters q)"
  shows "lane_inv None (upd_waiter w f q)" and "\<not> waiting q w \<Longrightarrow> lane_ok (upd_waiter w f q)"
    and "waiting (upd_waiter w f q) v \<Longrightarrow> v \<noteq> w \<Longrightarrow> w_timer (wt (upd_waiter w f q) v)"
proof -
  have f: "w_lane (f x) = w_lane x \<and> w_key (f x) = w_key x \<and> w_promise (f x) = w_promise x \<and>
      w_started (f x) = w_started x" for x using assms(2) by auto
  show i: "lane_inv None (upd_waiter w f q)"
    using assms(1) lane_inv_flag(1)[of f, OF f] by (simp add: lane_ok_def)
  have t: "waiting (upd_waiter w f q) v \<Longrightarrow> v \<noteq> w \<Longrightarrow> w_timer (wt (upd_waiter w f q) v)" for v
    using assms(1) lane_inv_flag(2)[of f, OF f] by (simp add: lane_ok_def timers_ok_def)
  then show "waiting (upd_waiter w f q) v \<Longrightarrow> v \<noteq> w \<Longrightarrow> w_timer (wt (upd_waiter w f q) v)" .
  show "\<not> waiting q w \<Longrightarrow> lane_ok (upd_waiter w f q)"
    using i t lane_inv_flag(2)[of f, OF f] unfolding lane_ok_def timers_ok_def by blast
qed

lemma started_not_waiting: "lane_inv ex q \<Longrightarrow> w_started (wt q w) \<Longrightarrow> \<not> waiting q w"
  by (auto simp: lane_inv_def flags_ok_def waiting_def)

lemma callback_ok:
  assumes "lane_ok q" and "f = (\<lambda>x. x\<lparr>w_timer := False\<rparr>) \<or> f = (\<lambda>x. x\<lparr>w_listens := False\<rparr>)"
    and "w < length (waiters q)" and "reason \<noteq> Pending" and "reason \<noteq> Held"
  shows "lane_ok (if w_started (wt (upd_waiter w f q) w) then upd_waiter w f q
    else give_up w reason (upd_waiter w f q))"
proof (cases "w_started (wt (upd_waiter w f q) w)")
  case True
  then have "w_started (wt q w)" using assms(2,3) by auto
  then show ?thesis
    using True disarm_ok(2)[OF assms(1-3)] started_not_waiting[of None q w] assms(1) by (simp add: lane_ok_def)
next
  case False
  have "lane_ok (give_up w reason (upd_waiter w f q))"
    by (rule give_up_ok[OF disarm_ok(1)[OF assms(1-3)]]) (use assms False disarm_ok(3)[OF assms(1-3)] in simp_all)
  then show ?thesis using False by simp
qed

lemma onTimeout_alt: "onTimeout w q =
   (if w_started (wt q w) then q else give_up w (Lane_busy (w_key (wt q w)) (w_timeoutMs (wt q w))) q)"
  by (simp add: onTimeout_def give_up_def Let_def)

lemma abortWhileQueued_alt: "abortWhileQueued w q =
   (if w_started (wt q w) then q else give_up w (Wait_aborted (w_key (wt q w))) q)"
  by (simp add: abortWhileQueued_def give_up_def Let_def)

lemma apply_lane_op_ok: "lane_ok q \<Longrightarrow> released_once x q \<Longrightarrow> lane_ok (apply_lane_op x q)"
proof (cases x)
  case (Acquire key timeout signal)
  then show "lane_ok q \<Longrightarrow> ?thesis" by (simp add: acquire_ok)
next
  case (Timer_fires w)
  then show "lane_ok q \<Longrightarrow> ?thesis"
    by (simp add: onTimeout_alt callback_ok del: upd_fields)
next
  case (Signal_aborts w)
  then show "lane_ok q \<Longrightarrow> ?thesis"
    by (simp add: abortWhileQueued_alt callback_ok del: upd_fields)
next
  case (Release_called w)
  assume ok: "lane_ok q" and once: "released_once x q"
  show ?thesis
  proof (cases "w < length (waiters q) \<and> w_promise (wt q w) = Held")
    case True
    then have run: "running q w" using once Release_called by (simp add: running_def)
    have inv: "lane_inv None q" using ok by (simp add: lane_ok_def)
    note h = hand_back_inv[OF inv run]
    have "lane_inv None (startNext (w_lane (wt q w)) (w_key (wt q w)) (hand_back w q))"
      by (rule startNext_inv[OF h(1,3,2)])
    moreover have "timers_ok (startNext (w_lane (wt q w)) (w_key (wt q w)) (hand_back w q))"
      by (rule startNext_timers) (use ok h(4,5) in \<open>simp add: lane_ok_def timers_ok_def\<close>)
    ultimately show ?thesis
      using True Release_called release_is_hand_back[OF inv run] by (simp add: lane_ok_def)
  next
    case False
    then have "apply_lane_op x q = q" using Release_called by auto
    then show ?thesis using ok by simp
  qed
qed

interpretation lane_machine: guarded_machine apply_lane_op "\<lambda>_ :: lane_queue. True" released_once lane_ok
  by unfold_locales (simp_all add: apply_lane_op_ok)

lemma no_lanes_ok: "lane_ok no_lanes"
  by (simp add: lane_ok_def lane_inv_defs timers_ok_def no_lanes_def waiting_def running_def)

lemma reached_lanes_ok:
  "guarded_run apply_lane_op released_once ops no_lanes \<Longrightarrow> lane_ok (exec_ops apply_lane_op ops no_lanes)"
  by (rule lane_machine.run_guarded[OF TrueI no_lanes_ok])

section \<open>Properties\<close>

text \<open>C15: While every task calls its release handle at most once, two tasks that hold the lane of the same key are the same task.\<close>

theorem lane_mutual_exclusion:
  assumes "guarded_run apply_lane_op released_once ops no_lanes"
    and "q = exec_ops apply_lane_op ops no_lanes"
    and "running q v" and "running q w" and "w_key (waiters q ! v) = w_key (waiters q ! w)"
  shows "v = w"
proof -
  have inv: "holders_ok q" "keyed_ok q"
    using reached_lanes_ok[OF assms(1)] assms(2) by (simp_all add: lane_ok_def lane_inv_def)
  have "w_lane (wt q v) = w_lane (wt q w)"
    using inv(2) assms(3-5) unfolding keyed_ok_def by (metis option.inject)
  then show ?thesis using inv(1) assms(3,4) unfolding holders_ok_def by (metis option.inject)
qed

lemma demo_lanes_honest: "guarded_run apply_lane_op released_once demo_lanes no_lanes"
  by code_simp

theorem lane_mutual_exclusion_witness:
  "{v. running (exec_ops apply_lane_op demo_lanes no_lanes) v \<and>
       w_key (waiters (exec_ops apply_lane_op demo_lanes no_lanes) ! v) = ''ws''} = {2}"
proof -
  let ?q = "exec_ops apply_lane_op demo_lanes no_lanes"
  have two: "running ?q 2" "w_key (waiters ?q ! 2) = ''ws''" by code_simp+
  have "v = 2" if "running ?q v" "w_key (waiters ?q ! v) = ''ws''" for v
    by (rule lane_mutual_exclusion[OF demo_lanes_honest refl that(1) two(1)]) (simp add: that(2) two(2))
  with two show ?thesis by blast
qed

text \<open>No wake-up is lost: whenever a task waits, some other task of its key holds the lane, and the waiting task's timer is armed.\<close>

theorem waiting_implies_held:
  assumes "guarded_run apply_lane_op released_once ops no_lanes"
    and "q = exec_ops apply_lane_op ops no_lanes" and "waiting q v"
  shows "w_timer (waiters q ! v) \<and>
    (\<exists>w. running q w \<and> w_lane (waiters q ! w) = w_lane (waiters q ! v) \<and>
       current (lane_objs q ! w_lane (waiters q ! v)) = Some w)"
proof -
  have ok: "lane_ok q" using reached_lanes_ok[OF assms(1)] assms(2) by simp
  then have inv: "holders_ok q" "queues_ok q" "no_idle_queue None q" "lanes_valid q"
    by (simp_all add: lane_ok_def lane_inv_def)
  let ?l = "w_lane (wt q v)"
  have l: "?l < length (lane_objs q)" using inv(4) assms(3) by (simp add: lanes_valid_def waiting_def)
  have "queue (ln q ?l) \<noteq> []" using inv(2) assms(3) unfolding queues_ok_def by force
  then obtain w where "current (ln q ?l) = Some w"
    using inv(3) l unfolding no_idle_queue_def by auto
  then show ?thesis
    using inv(1) l ok assms(3) unfolding holders_ok_def lane_ok_def timers_ok_def by metis
qed

theorem waiting_implies_held_witness:
  "\<exists>w. running (exec_ops apply_lane_op (take 3 demo_lanes) no_lanes) w"
proof -
  let ?ops = "take 3 demo_lanes"
  have "guarded_run apply_lane_op released_once ?ops no_lanes"
    "waiting (exec_ops apply_lane_op ?ops no_lanes) 1" by code_simp+
  from waiting_implies_held[OF this(1) refl this(2)] show ?thesis by blast
qed

text \<open>The lane is first come, first served: a task that got the lane asked for it before every task of its key that is still waiting.\<close>

theorem lane_is_fifo:
  assumes "guarded_run apply_lane_op released_once ops no_lanes"
    and "q = exec_ops apply_lane_op ops no_lanes"
    and "w < length (waiters q)" and "w_promise (waiters q ! w) = Held" and "waiting q v"
    and "w_key (waiters q ! w) = w_key (waiters q ! v)"
  shows "w < v"
  using reached_lanes_ok[OF assms(1)] assms(2-6)
  unfolding lane_ok_def lane_inv_def fifo_ok_def by blast

theorem lane_is_fifo_witness:
  "{v. waiting (exec_ops apply_lane_op (take 3 demo_lanes) no_lanes) v \<and>
       w_key (waiters (exec_ops apply_lane_op (take 3 demo_lanes) no_lanes) ! v) = ''ws''} \<subseteq> {0<..}"
proof -
  let ?ops = "take 3 demo_lanes"
  let ?q = "exec_ops apply_lane_op ?ops no_lanes"
  have g: "guarded_run apply_lane_op released_once ?ops no_lanes" "0 < length (waiters ?q)"
    "w_promise (waiters ?q ! 0) = Held" "w_key (waiters ?q ! 0) = ''ws''" by code_simp+
  have "0 < v" if "waiting ?q v" "w_key (waiters ?q ! v) = ''ws''" for v
    by (rule lane_is_fifo[OF g(1) refl g(2,3) that(1)]) (simp add: that(2) g(4))
  then show ?thesis by auto
qed

text \<open>A rejected waiter is out of the queue, so no step starts it.\<close>

definition rejected :: "nat \<Rightarrow> promise_state \<Rightarrow> lane_queue \<Rightarrow> bool" where
  "rejected w p q \<longleftrightarrow>
     w < length (waiters q) \<and> w_promise (waiters q ! w) = p \<and> p \<noteq> Pending \<and> p \<noteq> Held"

lemma startNext_rejected:
  assumes "rejected w p q" and "queues_ok q" and "l < length (lane_objs q)"
  shows "rejected w p (startNext l key q)"
proof (cases "queue (ln q l)")
  case Nil
  then show ?thesis using assms(1) by (simp add: startNext_def Let_def rejected_def)
next
  case (Cons v vs)
  then have "waiting q v" using assms(2,3) by (auto simp: queues_ok_def)
  then have "v \<noteq> w" using assms(1) by (auto simp: rejected_def waiting_def)
  then show ?thesis using assms(1) Cons by (simp add: startNext_def rejected_def)
qed

lemma give_up_rejected: "rejected w p q \<Longrightarrow> rejected w p (give_up v reason q)"
  by (cases "v = w") (auto simp: rejected_def give_up_def removeWaiter_def reject_def nth_list_update)

lemma flag_rejected:
  assumes "\<And>x. w_promise (f x) = w_promise x"
  shows "rejected w p (upd_waiter v f q) = rejected w p q"
  using assms by (cases "v = w"; cases "v < length (waiters q)")
    (auto simp: rejected_def nth_list_update list_update_beyond)

lemma acquire_rejected:
  assumes "rejected w p q" and "lane_ok q"
  shows "rejected w p (acquire key timeout signal q)"
proof -
  have inv: "lane_inv None q" using assms(2) by (simp add: lane_ok_def)
  obtain l q2 where wl: "with_lane key q = (l, q2)" by fastforce
  note wi = with_lane_inv[OF inv wl]
  let ?x = "new_waiter key timeout l True (signal \<noteq> None) Pending"
  have px: "w_lane ?x < length (lane_objs q2)" "w_promise ?x = Pending" "\<not> w_started ?x"
    "map_of (lanes q2) (w_key ?x) = Some (w_lane ?x)" using wi(2,3) by simp_all
  note e = enqueue_inv[OF wi(1) px]
  have r: "rejected w p (enqueue ?x q2)"
    using assms(1) wi(4) e(5)[of w] by (simp add: rejected_def enqueue_def nth_append)
  have "queues_ok (enqueue ?x q2)" using e(1) unfolding lane_inv_def by blast
  then have s: "rejected w p (startNext l key (enqueue ?x q2))"
    using startNext_rejected[OF r] e(3) by simp
  show ?thesis
  proof (cases "signal = Some True")
    case True
    then have "acquire key timeout signal q =
        q2\<lparr>waiters := waiters q2 @ [new_waiter key timeout l False False (Wait_aborted key)]\<rparr>"
      by (simp add: acquire_with_lane[OF wl] abort_unqueued[OF wi(1,3)])
    then show ?thesis using assms(1) wi(4) by (simp add: rejected_def nth_append)
  next
    case False
    then have "acquire key timeout signal q =
        (if current (ln (enqueue ?x q2) l) = None then startNext l key (enqueue ?x q2) else enqueue ?x q2)"
      by (simp add: acquire_with_lane[OF wl] Let_def)
    then show ?thesis using r s by metis
  qed
qed

lemma release_rejected:
  assumes "rejected w p q" and "lane_ok q" and "running q v"
  shows "rejected w p (release_lane (w_lane (wt q v)) (w_key (wt q v)) (q\<lparr>finished := v # finished q\<rparr>))"
proof -
  have inv: "lane_inv None q" using assms(2) by (simp add: lane_ok_def)
  note h = hand_back_inv[OF inv assms(3)]
  have "v \<noteq> w" using assms(1,3) by (auto simp: rejected_def running_def)
  then have "rejected w p (hand_back v q)" using assms(1) by (simp add: rejected_def hand_back_def)
  then show ?thesis
    using startNext_rejected[OF _ _ h(3)] h(1) release_is_hand_back[OF inv assms(3)]
    by (simp add: lane_inv_def)
qed

lemma apply_lane_op_rejected:
  assumes "lane_ok q \<and> rejected w p q" and "released_once x q"
  shows "lane_ok (apply_lane_op x q) \<and> rejected w p (apply_lane_op x q)"
proof -
  have "rejected w p (apply_lane_op x q)"
  proof (cases x)
    case (Acquire key timeout signal)
    then show ?thesis using assms(1) by (simp add: acquire_rejected)
  next
    case (Timer_fires v)
    then show ?thesis using assms(1)
      by (simp add: onTimeout_alt flag_rejected give_up_rejected del: upd_fields)
  next
    case (Signal_aborts v)
    then show ?thesis using assms(1)
      by (simp add: abortWhileQueued_alt flag_rejected give_up_rejected del: upd_fields)
  next
    case (Release_called v)
    then show ?thesis using assms release_rejected[of w p q v] by (simp add: running_def)
  qed
  then show ?thesis using assms by (simp add: apply_lane_op_ok)
qed

interpretation rejected_waiter: guarded_machine apply_lane_op "\<lambda>_ :: lane_queue. True" released_once
  "\<lambda>q. lane_ok q \<and> rejected w p q" for w p
  by unfold_locales (rule apply_lane_op_rejected)

text \<open>A task that timed out or was aborted while queued is never started afterwards: its promise keeps its rejection and it is never the holder.\<close>

theorem rejected_waiter_never_runs:
  assumes "guarded_run apply_lane_op released_once ops no_lanes"
    and "q = exec_ops apply_lane_op ops no_lanes"
    and "w < length (waiters q)" and "w_promise (waiters q ! w) \<notin> {Pending, Held}"
    and "guarded_run apply_lane_op released_once later q"
  shows "w_promise (waiters (exec_ops apply_lane_op later q) ! w) = w_promise (waiters q ! w) \<and>
    \<not> running (exec_ops apply_lane_op later q) w"
proof -
  have "lane_ok q \<and> rejected w (w_promise (wt q w)) q"
    using reached_lanes_ok[OF assms(1)] assms(2-4) by (simp add: rejected_def)
  from rejected_waiter.run_guarded[OF TrueI this assms(5)]
  show ?thesis by (auto simp: rejected_def running_def)
qed

theorem rejected_waiter_never_runs_witness:
  "\<not> running (exec_ops apply_lane_op [Release_called 2, Acquire ''ws'' None None]
       (exec_ops apply_lane_op demo_lanes no_lanes)) 1"
proof -
  let ?q = "exec_ops apply_lane_op demo_lanes no_lanes"
  have "1 < length (waiters ?q)" "w_promise (waiters ?q ! 1) \<notin> {Pending, Held}"
    "guarded_run apply_lane_op released_once [Release_called 2, Acquire ''ws'' None None] ?q"
    by code_simp+
  from rejected_waiter_never_runs[OF demo_lanes_honest refl this] show ?thesis by blast
qed

subsection \<open>Where the queue departs from its comments\<close>

text \<open>
  A handle frees whoever holds the lane, not its own waiter: a second call of the first
  task's handle starts the third task beside the second.
\<close>

lemma double_release_breaks_exclusion:
  "let q = exec_ops apply_lane_op
       [Acquire ''ws'' None None, Acquire ''ws'' None None, Acquire ''ws'' None None,
        Release_called 0, Release_called 0] no_lanes in
     running q 1 \<and> running q 2 \<and> w_key (waiters q ! 1) = w_key (waiters q ! 2)"
  by code_simp

text \<open>An \<open>acquire\<close> with an aborted signal leaves an idle lane in the map, so \<open>size\<close> is not 0 when idle.\<close>

lemma aborted_acquire_leaves_a_lane:
  "let q = acquire ''ws'' None (Some True) no_lanes in
     lane_size q = 1 \<and> \<not> isActive ''ws'' q \<and> queueDepth ''ws'' q = 0"
  by code_simp

end
