(* ===== verification/JS_Number.thy ===== *)
theory JS_Number
  imports XR_Prelude
begin

text \<open>
  JavaScript numbers as the accounting code uses them: exact rationals for the finite
  values (no binary rounding, one zero) together with \<open>NaN\<close> and the two infinities, which
  unknown prices and unvalidated caps introduce. Comparisons with \<open>NaN\<close> are false.
\<close>

datatype jsnum = NaN | PInf | NInf | Fin rat

fun is_finite :: "jsnum \<Rightarrow> bool" where
  "is_finite (Fin _) = True"
| "is_finite _ = False"

text \<open>\<open>x < y\<close> and \<open>x <= y\<close>.\<close>

fun js_lt :: "jsnum \<Rightarrow> jsnum \<Rightarrow> bool" where
  "js_lt (Fin x) (Fin y) = (x < y)"
| "js_lt (Fin _) PInf = True"
| "js_lt NInf (Fin _) = True"
| "js_lt NInf PInf = True"
| "js_lt _ _ = False"

fun js_le :: "jsnum \<Rightarrow> jsnum \<Rightarrow> bool" where
  "js_le NaN _ = False"
| "js_le _ NaN = False"
| "js_le x y = (x = y \<or> js_lt x y)"

fun js_add :: "jsnum \<Rightarrow> jsnum \<Rightarrow> jsnum" where
  "js_add (Fin x) (Fin y) = Fin (x + y)"
| "js_add NaN _ = NaN"
| "js_add _ NaN = NaN"
| "js_add PInf NInf = NaN"
| "js_add NInf PInf = NaN"
| "js_add PInf _ = PInf"
| "js_add _ PInf = PInf"
| "js_add NInf _ = NInf"
| "js_add _ NInf = NInf"

fun js_neg :: "jsnum \<Rightarrow> jsnum" where
  "js_neg (Fin x) = Fin (- x)"
| "js_neg PInf = NInf"
| "js_neg NInf = PInf"
| "js_neg NaN = NaN"

definition js_sub :: "jsnum \<Rightarrow> jsnum \<Rightarrow> jsnum" where
  "js_sub x y = js_add x (js_neg y)"

definition signed_inf :: "bool \<Rightarrow> jsnum" where
  "signed_inf positive = (if positive then PInf else NInf)"

fun js_mul :: "jsnum \<Rightarrow> jsnum \<Rightarrow> jsnum" where
  "js_mul (Fin x) (Fin y) = Fin (x * y)"
| "js_mul NaN _ = NaN"
| "js_mul _ NaN = NaN"
| "js_mul (Fin x) PInf = (if x = 0 then NaN else signed_inf (x > 0))"
| "js_mul (Fin x) NInf = (if x = 0 then NaN else signed_inf (x < 0))"
| "js_mul PInf (Fin y) = (if y = 0 then NaN else signed_inf (y > 0))"
| "js_mul NInf (Fin y) = (if y = 0 then NaN else signed_inf (y < 0))"
| "js_mul PInf PInf = PInf"
| "js_mul NInf NInf = PInf"
| "js_mul _ _ = NInf"

text \<open>Division by a finite number; \<open>x / 0\<close> is infinite, \<open>0 / 0\<close> is \<open>NaN\<close>.\<close>

fun js_div_by :: "jsnum \<Rightarrow> rat \<Rightarrow> jsnum" where
  "js_div_by (Fin x) y =
     (if y \<noteq> 0 then Fin (x / y) else if x = 0 then NaN else signed_inf (x > 0))"
| "js_div_by NaN _ = NaN"
| "js_div_by PInf y = signed_inf (y \<ge> 0)"
| "js_div_by NInf y = signed_inf (y < 0)"

definition js_max0 :: "jsnum \<Rightarrow> jsnum" where
  "js_max0 x = (if x = NaN then NaN else if js_lt x (Fin 0) then Fin 0 else x)"

text \<open>\<open>Number.isFinite(x) && x >= 0\<close>.\<close>

definition finite_nonneg :: "jsnum \<Rightarrow> bool" where
  "finite_nonneg x \<longleftrightarrow> is_finite x \<and> js_le (Fin 0) x"

fun rat_of_js :: "jsnum \<Rightarrow> rat" where
  "rat_of_js (Fin x) = x"
| "rat_of_js _ = 0"

lemma is_finite_iff: "is_finite x \<longleftrightarrow> (\<exists>q. x = Fin q)"
  by (cases x) auto

lemma finite_nonneg_iff: "finite_nonneg x \<longleftrightarrow> (\<exists>q \<ge> 0. x = Fin q)"
  by (cases x) (auto simp: finite_nonneg_def)

lemma js_le_Fin [simp]: "js_le (Fin x) (Fin y) \<longleftrightarrow> x \<le> y"
  by auto

lemma js_sub_Fin [simp]: "js_sub (Fin x) (Fin y) = Fin (x - y)"
  by (simp add: js_sub_def)

lemma js_max0_Fin [simp]: "js_max0 (Fin x) = Fin (max 0 x)"
  by (simp add: js_max0_def)

end
