(* ===== verification/Trust_Classify.thy ===== *)
theory Trust_Classify
  imports Exec_Retry JS_Number
begin

text \<open>
  The risk classifier (\<open>src/src/runtime/trust/classify.ts\<close> with the policies of \<open>types.ts\<close>):
  from the facts of a request to a tier and the controls that go with it. The home directory,
  the path separator and \<open>new URL(t).hostname\<close> (\<open>None\<close>: it throws) are parameters; a
  filesystem descriptor is named by a text.
\<close>

section \<open>Data\<close>

datatype control_risk = CR_safe | CR_sensitive | CR_destructive

datatype approval_level = Level_none | Level_standard | Level_elevated

datatype credential_mode = CM_none | CM_task_scoped | CM_workspace | CM_provider | CM_interactive | CM_unavailable

datatype network_mode = Net_none | Net_allowlist | Net_open

record trust_request =
  tq_kind :: string
  tq_name :: string
  tq_owner :: "string option"
  tq_actorKind :: string
  tq_summary :: string
  tq_spawnsProcess :: bool
  tq_runsArbitraryCode :: bool
  tq_networkTargets :: "string list"
  tq_fsPaths :: "string list"
  tq_filesystemAuthority :: "string option"
  tq_touchesOutsideWorkspace :: bool
  tq_needsCredentials :: bool
  tq_reversible :: bool
  tq_irreversibleExternalWrite :: bool
  tq_untrustedContent :: bool
  tq_requiresHostAuthority :: "bool option"
  tq_controlRisk :: "control_risk option"
  tq_dryRun :: bool
  tq_workspaceRoot :: string
  tq_deploymentProfile :: "string option"
  tq_minimumTier :: "risk_tier option"

record filesystem_policy =
  fp_contentAuthority :: "string option"
  fp_writableRoots :: "string list"
  fp_readOnlyRoots :: "string list"
  fp_blockedPaths :: "string list"
  fp_ephemeralScratch :: bool

record network_policy =
  np_mode :: network_mode
  np_allowlist :: "string list"
  np_blockPrivateNetworks :: bool
  np_blockOffAllowlistRedirects :: bool

record process_policy =
  pp_allowedExecutables :: "string list"
  pp_allowSpawn :: bool
  pp_maxProcesses :: int
  pp_stripAmbientEnv :: bool

record resource_policy =
  rp_wallClockMs :: int
  rp_cpuSeconds :: "int option"
  rp_memoryBytes :: "int option"
  rp_maxOutputBytes :: int
  rp_maxTempBytes :: "int option"
  rp_maxFiles :: "int option"

record risk_classification =
  rc_tier :: risk_tier
  rc_reasons :: "string list"
  rc_blocked :: bool
  rc_blockReason :: "string option"
  rc_approvalLevel :: approval_level
  rc_credentialMode :: credential_mode
  rc_fs :: filesystem_policy
  rc_net :: network_policy
  rc_proc :: process_policy
  rc_resources :: resource_policy
  rc_inputs :: trust_request

definition MAX_REASONS :: nat where "MAX_REASONS = 12"
definition MAX_REASON_CHARS :: nat where "MAX_REASON_CHARS = 200"
definition MAX_ALLOWLIST :: nat where "MAX_ALLOWLIST = 64"
definition MAX_ENV_NAMES :: nat where "MAX_ENV_NAMES = 32"
definition MAX_CRED_REFS :: nat where "MAX_CRED_REFS = 16"
definition DEFAULT_WALL_CLOCK_MS :: int where "DEFAULT_WALL_CLOCK_MS = 120000"
definition DEFAULT_MAX_OUTPUT_BYTES :: int where "DEFAULT_MAX_OUTPUT_BYTES = 1000000"
definition DEFAULT_MEMORY_BYTES :: int where "DEFAULT_MEMORY_BYTES = 512 * 1024 * 1024"
definition DEFAULT_CPU_SECONDS :: int where "DEFAULT_CPU_SECONDS = 120"
definition DEFAULT_MAX_PROCESSES :: int where "DEFAULT_MAX_PROCESSES = 64"
definition GRANT_TTL_MS :: int where "GRANT_TTL_MS = 10 * 60 * 1000"

section \<open>Controls\<close>

definition sensitiveBlockedPaths :: "string \<Rightarrow> string \<Rightarrow> string list" where
  "sensitiveBlockedPaths sep home =
     (let h = (if drop (length home - length sep) home = sep \<and> length sep \<le> length home
               then take (length home - 1) home else home)
      in map (\<lambda>p. h @ concat (map (\<lambda>x. sep @ x) p))
           [[''.ssh''], [''.aws''], [''.gnupg''], [''.netrc''], [''.git-credentials''], [''.config'', ''gh''],
            [''.npmrc''], [''.docker'', ''config.json''], [''.kube''], [''.bun'', ''install'']]
         @ [''/etc/shadow'', ''/etc/sudoers'', ''/proc/sys''])"

definition boundedReasons :: "string list \<Rightarrow> string list" where
  "boundedReasons reasons = map (take MAX_REASON_CHARS) (take MAX_REASONS reasons)"

record classifier_host =
  ch_sep :: string
  ch_home :: string
  ch_hostname :: "string \<Rightarrow> string option"

definition deriveFs :: "classifier_host \<Rightarrow> trust_request \<Rightarrow> risk_tier \<Rightarrow> filesystem_policy" where
  "deriveFs host req tier =
     \<lparr> fp_contentAuthority = tq_filesystemAuthority req,
       fp_writableRoots = (if tier = Tier0_in_process then [] else [tq_workspaceRoot req]),
       fp_readOnlyRoots = [], fp_blockedPaths = sensitiveBlockedPaths (ch_sep host) (ch_home host),
       fp_ephemeralScratch = (tier \<noteq> Tier0_in_process) \<rparr>"

definition http_scheme :: "string \<Rightarrow> bool" where
  "http_scheme t =
     (let s = map lower_char t in take 7 s = ''http://'' \<or> take 8 s = ''https://'')"

definition normalizeHost :: "classifier_host \<Rightarrow> string \<Rightarrow> string" where
  "normalizeHost host target =
     (let plain = map lower_char (takeWhile (\<lambda>c. c \<noteq> CHR '':'') (takeWhile (\<lambda>c. c \<noteq> CHR ''/'') target))
      in if http_scheme target then nullish (ch_hostname host target) plain else plain)"

definition deriveNet :: "classifier_host \<Rightarrow> trust_request \<Rightarrow> risk_tier \<Rightarrow> network_policy" where
  "deriveNet host req tier =
     (let mode = (if tq_networkTargets req = [] \<or> tier = Tier0_in_process then Net_none else Net_allowlist)
      in \<lparr> np_mode = mode,
           np_allowlist = (if mode = Net_allowlist
                           then map (normalizeHost host) (take MAX_ALLOWLIST (tq_networkTargets req)) else []),
           np_blockPrivateNetworks = True, np_blockOffAllowlistRedirects = True \<rparr>)"

definition deriveProc :: "trust_request \<Rightarrow> risk_tier \<Rightarrow> process_policy" where
  "deriveProc req tier =
     (if tier = Tier0_in_process
      then \<lparr> pp_allowedExecutables = [], pp_allowSpawn = False, pp_maxProcesses = 1, pp_stripAmbientEnv = True \<rparr>
      else \<lparr> pp_allowedExecutables = [], pp_allowSpawn = (tq_spawnsProcess req \<or> tq_runsArbitraryCode req),
             pp_maxProcesses = (if tier = Tier2_isolated then DEFAULT_MAX_PROCESSES else 8),
             pp_stripAmbientEnv = True \<rparr>)"

fun deriveResources :: "risk_tier \<Rightarrow> resource_policy" where
  "deriveResources Tier0_in_process =
     \<lparr> rp_wallClockMs = DEFAULT_WALL_CLOCK_MS, rp_cpuSeconds = None, rp_memoryBytes = None,
       rp_maxOutputBytes = DEFAULT_MAX_OUTPUT_BYTES, rp_maxTempBytes = None, rp_maxFiles = None \<rparr>"
| "deriveResources Tier1_restricted =
     \<lparr> rp_wallClockMs = DEFAULT_WALL_CLOCK_MS, rp_cpuSeconds = Some DEFAULT_CPU_SECONDS,
       rp_memoryBytes = Some DEFAULT_MEMORY_BYTES, rp_maxOutputBytes = DEFAULT_MAX_OUTPUT_BYTES,
       rp_maxTempBytes = None, rp_maxFiles = None \<rparr>"
| "deriveResources Tier2_isolated =
     \<lparr> rp_wallClockMs = min DEFAULT_WALL_CLOCK_MS 60000, rp_cpuSeconds = Some 60,
       rp_memoryBytes = Some (256 * 1024 * 1024), rp_maxOutputBytes = min DEFAULT_MAX_OUTPUT_BYTES 512000,
       rp_maxTempBytes = Some (64 * 1024 * 1024), rp_maxFiles = None \<rparr>"

section \<open>Classification\<close>

text \<open>\<open>escalate\<close> on the tier and the reasons so far.\<close>

definition escalate :: "bool \<Rightarrow> risk_tier \<Rightarrow> string \<Rightarrow> risk_tier \<times> string list \<Rightarrow> risk_tier \<times> string list" where
  "escalate cond to_tier why s =
     (if cond then (if RISK_TIER_ORDER to_tier > RISK_TIER_ORDER (fst s) then to_tier else fst s, snd s @ [why])
      else s)"

definition tier_and_reasons :: "trust_request \<Rightarrow> risk_tier \<times> string list" where
  "tier_and_reasons req =
     (if tq_dryRun req then (Tier0_in_process, [''dry_run: no side effects''])
      else
       (let s1 = escalate (tq_runsArbitraryCode req) Tier2_isolated ''executes arbitrary/interpreted code''
                   (Tier0_in_process, []);
            s2 = escalate (tq_spawnsProcess req) Tier2_isolated ''spawns a shell/process with host authority'' s1;
            s3 = escalate (tq_needsCredentials req) Tier2_isolated ''requires credentials/secrets'' s2;
            s4 = escalate (tq_irreversibleExternalWrite req) Tier2_isolated ''irreversible external write'' s3;
            s5 = escalate (tq_untrustedContent req) Tier2_isolated ''handles untrusted/hostile content'' s4;
            s6 = escalate (tq_controlRisk req = Some CR_destructive) Tier2_isolated
                   ''control plane classified destructive'' s5;
            s7 = escalate (tq_touchesOutsideWorkspace req) Tier1_restricted
                   ''touches paths outside workspace root'' s6;
            s8 = escalate (tq_networkTargets req \<noteq> []) Tier1_restricted
                   (''network access: '' @ show_nat (length (tq_networkTargets req)) @ '' target(s)'') s7;
            s9 = escalate (tq_fsPaths req \<noteq> []) Tier1_restricted ''filesystem write/mutation'' s8;
            s10 = escalate (tq_controlRisk req = Some CR_sensitive) Tier1_restricted
                   ''control plane classified sensitive'' s9;
            s11 = escalate (\<not> tq_reversible req) Tier1_restricted ''side effects not trivially reversible'' s10
        in (fst s11, if fst s11 = Tier0_in_process
                     then snd s11 @ [''read-only / pure / no process / no network / no secrets''] else snd s11)))"

definition classifyRisk :: "classifier_host \<Rightarrow> trust_request \<Rightarrow> risk_classification" where
  "classifyRisk host req =
     (let (tier, reasons) = tier_and_reasons req;
          reasons' = (if \<not> tq_dryRun req \<and> tq_untrustedContent req \<and> tq_irreversibleExternalWrite req \<and>
                         tq_networkTargets req \<noteq> []
                      then reasons @ [''untrusted + irreversible external write: requires isolated placement with network allowlist'']
                      else reasons)
      in \<lparr> rc_tier = tier, rc_reasons = boundedReasons reasons', rc_blocked = False, rc_blockReason = None,
           rc_approvalLevel =
             (if tq_dryRun req then Level_none
              else if tq_irreversibleExternalWrite req \<or> tq_controlRisk req = Some CR_destructive then Level_elevated
              else if tier = Tier0_in_process then Level_none else Level_standard),
           rc_credentialMode = (if tq_needsCredentials req then CM_task_scoped else CM_none),
           rc_fs = deriveFs host req tier, rc_net = deriveNet host req tier, rc_proc = deriveProc req tier,
           rc_resources = deriveResources tier, rc_inputs = req \<rparr>)"

section \<open>The tier as a specification\<close>

text \<open>Which facts ask for which tier.\<close>

definition asks_isolation :: "trust_request \<Rightarrow> bool" where
  "asks_isolation req \<longleftrightarrow>
     tq_runsArbitraryCode req \<or> tq_spawnsProcess req \<or> tq_needsCredentials req \<or>
     tq_irreversibleExternalWrite req \<or> tq_untrustedContent req \<or> tq_controlRisk req = Some CR_destructive"

definition asks_restriction :: "trust_request \<Rightarrow> bool" where
  "asks_restriction req \<longleftrightarrow>
     tq_touchesOutsideWorkspace req \<or> tq_networkTargets req \<noteq> [] \<or> tq_fsPaths req \<noteq> [] \<or>
     tq_controlRisk req = Some CR_sensitive \<or> \<not> tq_reversible req"

definition specified_tier :: "trust_request \<Rightarrow> risk_tier" where
  "specified_tier req =
     (if tq_dryRun req then Tier0_in_process
      else if asks_isolation req then Tier2_isolated
      else if asks_restriction req then Tier1_restricted else Tier0_in_process)"

lemma fst_escalate:
  "fst (escalate b t w s) = (if b then tier_merge (fst s) t else fst s)"
  by (cases t; cases "fst s") (simp_all add: escalate_def tier_merge_def)

lemma tier_merge_simps [simp]:
  "tier_merge Tier2_isolated t = Tier2_isolated" "tier_merge t Tier2_isolated = Tier2_isolated"
  "tier_merge Tier0_in_process t = t" "tier_merge t Tier0_in_process = t"
  "tier_merge Tier1_restricted Tier1_restricted = Tier1_restricted"
  by (cases t; simp add: tier_merge_def)+

lemma tier_specified: "fst (tier_and_reasons req) = specified_tier req"
proof (cases "tq_dryRun req")
  case False
  then have "fst (tier_and_reasons req) =
      (let up = (\<lambda>b t s. if b then tier_merge s t else s) in
       up (\<not> tq_reversible req) Tier1_restricted (up (tq_controlRisk req = Some CR_sensitive) Tier1_restricted
        (up (tq_fsPaths req \<noteq> []) Tier1_restricted (up (tq_networkTargets req \<noteq> []) Tier1_restricted
         (up (tq_touchesOutsideWorkspace req) Tier1_restricted (up (tq_controlRisk req = Some CR_destructive) Tier2_isolated
          (up (tq_untrustedContent req) Tier2_isolated (up (tq_irreversibleExternalWrite req) Tier2_isolated
           (up (tq_needsCredentials req) Tier2_isolated (up (tq_spawnsProcess req) Tier2_isolated
            (up (tq_runsArbitraryCode req) Tier2_isolated Tier0_in_process)))))))))))"
    unfolding tier_and_reasons_def Let_def by (simp only: fst_escalate fst_conv if_False simp_thms)
  then show ?thesis using False
    by (simp only: Let_def specified_tier_def asks_isolation_def asks_restriction_def if_False)
      (simp split: if_split)
qed (simp add: tier_and_reasons_def specified_tier_def)

lemma classify_tier [simp]: "rc_tier (classifyRisk host req) = specified_tier req"
  by (simp add: classifyRisk_def Let_def split_beta tier_specified)

lemma escalate_reasons: "length (snd (escalate b t w s)) \<le> Suc (length (snd s))"
  by (simp add: escalate_def)

lemma reasons_bounded:
  "length (rc_reasons (classifyRisk host req)) \<le> MAX_REASONS \<and>
   (\<forall>r \<in> set (rc_reasons (classifyRisk host req)). length r \<le> MAX_REASON_CHARS)"
  by (auto simp: classifyRisk_def Let_def split_beta boundedReasons_def)

end
