(* ===== verification/Trust_Authority.thy ===== *)
theory Trust_Authority
  imports Trust_Classify "HOL-Library.AList" "HOL-Library.Sublist"
begin

text \<open>
  Authority grants with their registry (\<open>src/src/runtime/trust/authority.ts\<close>) and the credential
  broker (\<open>credentials.ts\<close>). A JavaScript \<open>Map\<close> is the list of its entries in the order of
  insertion; random identifiers and the clock are arguments.
\<close>

section \<open>Grants\<close>

record credential_ref =
  cr_refId :: string
  cr_label :: string
  cr_mode :: credential_mode
  cr_scope :: string
  cr_expiresAt :: "int option"

record credential_scope =
  sc_mode :: credential_mode
  sc_refs :: "credential_ref list"
  sc_envNames :: "string list"

record authority_grant =
  gr_id :: string
  gr_actor :: string
  gr_executionId :: string
  gr_correlationId :: string
  gr_workspaceId :: string
  gr_capability :: string
  gr_tier :: risk_tier
  gr_fs :: filesystem_policy
  gr_net :: network_policy
  gr_proc :: process_policy
  gr_resources :: resource_policy
  gr_credentials :: credential_scope
  gr_issuedAt :: int
  gr_expiresAt :: int
  gr_approvalRef :: "string option"
  gr_revoked :: bool
  gr_revokedAt :: "int option"
  gr_revokedReason :: "string option"

record grant_params =
  ga_actor :: string
  ga_executionId :: string
  ga_correlationId :: string
  ga_workspaceId :: string
  ga_capability :: string
  ga_approvalRef :: "string option"
  ga_ttlMs :: "int option"

definition createGrant :: "string \<Rightarrow> int \<Rightarrow> grant_params \<Rightarrow> risk_classification \<Rightarrow> authority_grant" where
  "createGrant rnd now req cls =
     \<lparr> gr_id = ''grant_'' @ take 12 rnd, gr_actor = ga_actor req, gr_executionId = ga_executionId req,
       gr_correlationId = ga_correlationId req, gr_workspaceId = ga_workspaceId req,
       gr_capability = ga_capability req, gr_tier = rc_tier cls, gr_fs = rc_fs cls, gr_net = rc_net cls,
       gr_proc = rc_proc cls, gr_resources = rc_resources cls,
       gr_credentials = \<lparr> sc_mode = rc_credentialMode cls, sc_refs = [], sc_envNames = [] \<rparr>,
       gr_issuedAt = now,
       gr_expiresAt = now + min (max (nullish (ga_ttlMs req) GRANT_TTL_MS) 1000) GRANT_TTL_MS,
       gr_approvalRef = ga_approvalRef req, gr_revoked = False, gr_revokedAt = None, gr_revokedReason = None \<rparr>"

datatype grant_validity = Grant_valid | Grant_revoked string | Grant_expired | Other_execution | Other_workspace

definition validateGrant :: "authority_grant \<Rightarrow> string \<Rightarrow> string \<Rightarrow> int \<Rightarrow> grant_validity" where
  "validateGrant g execId wsId now =
     (if gr_revoked g then Grant_revoked (nullish (gr_revokedReason g) ''no reason'')
      else if gr_expiresAt g \<le> now then Grant_expired
      else if gr_executionId g \<noteq> execId then Other_execution
      else if gr_workspaceId g \<noteq> wsId then Other_workspace
      else Grant_valid)"

type_synonym registry = "(string \<times> authority_grant) list"

definition reg_register :: "authority_grant \<Rightarrow> registry \<Rightarrow> registry" where
  "reg_register g r = AList.update (gr_id g) g r"

definition reg_get :: "string \<Rightarrow> registry \<Rightarrow> authority_grant option" where
  "reg_get i r = map_of r i"

definition mark_revoked :: "int \<Rightarrow> string \<Rightarrow> authority_grant \<Rightarrow> authority_grant" where
  "mark_revoked now reason g = g\<lparr>gr_revoked := True, gr_revokedAt := Some now, gr_revokedReason := Some reason\<rparr>"

definition reg_revoke :: "string \<Rightarrow> string \<Rightarrow> int \<Rightarrow> registry \<Rightarrow> bool \<times> registry" where
  "reg_revoke i reason now r =
     (case map_of r i of
        None \<Rightarrow> (False, r)
      | Some g \<Rightarrow> (True, AList.update i (mark_revoked now reason g) r))"

definition revokeWorkspace :: "string \<Rightarrow> string \<Rightarrow> int \<Rightarrow> registry \<Rightarrow> nat \<times> registry" where
  "revokeWorkspace ws reason now r =
     (let hit = (\<lambda>g. gr_workspaceId g = ws \<and> \<not> gr_revoked g)
      in (length (filter (\<lambda>(i, g). hit g) r),
          map (\<lambda>(i, g). (i, if hit g then mark_revoked now reason g else g)) r))"

definition reg_prune :: "int \<Rightarrow> registry \<Rightarrow> nat \<times> registry" where
  "reg_prune now r =
     (let dead = (\<lambda>g. gr_revoked g \<or> gr_expiresAt g \<le> now)
      in (length (filter (\<lambda>(i, g). dead g) r), filter (\<lambda>(i, g). \<not> dead g) r))"

definition activeGrants :: "registry \<Rightarrow> nat" where
  "activeGrants r = length r"

section \<open>Patterns of secrets\<close>

text \<open>
  The fragment of regular expressions the broker uses. \<open>pat_ends p s i\<close> lists the positions
  where a match of \<open>p\<close> that starts at \<open>i\<close> ends, the one the language prefers first.
\<close>

datatype pat =
    P_lit string
  | P_class "char \<Rightarrow> bool" nat "nat option"
  | P_bound
  | P_lazy_any
  | P_alt "pat list"
  | P_cat "pat list"

fun pat_ends :: "pat \<Rightarrow> string \<Rightarrow> nat \<Rightarrow> nat list" where
  "pat_ends (P_lit w) s i = (if take (length w) (drop i s) = w then [i + length w] else [])"
| "pat_ends (P_class P lo hi) s i =
     (let n = length (takeWhile P (drop i s)); m = (case hi of None \<Rightarrow> n | Some h \<Rightarrow> min n h)
      in map (\<lambda>k. i + k) (rev [lo ..< Suc m]))"
| "pat_ends P_bound s i = (if at_boundary s i then [i] else [])"
| "pat_ends P_lazy_any s i = [i ..< Suc (length s)]"
| "pat_ends (P_alt ps) s i = concat (map (\<lambda>p. pat_ends p s i) ps)"
| "pat_ends (P_cat []) s i = [i]"
| "pat_ends (P_cat (p # ps)) s i = concat (map (pat_ends (P_cat ps) s) (pat_ends p s i))"

definition digit :: "char \<Rightarrow> bool" where
  "digit c = (let n = (of_char c :: nat) in 48 \<le> n \<and> n \<le> 57)"

definition upper :: "char \<Rightarrow> bool" where
  "upper c = (let n = (of_char c :: nat) in 65 \<le> n \<and> n \<le> 90)"

definition letter :: "char \<Rightarrow> bool" where
  "letter c = (upper c \<or> (let n = (of_char c :: nat) in 97 \<le> n \<and> n \<le> 122))"

definition alphanumeric :: "char \<Rightarrow> bool" where
  "alphanumeric c = (digit c \<or> letter c)"

definition GENERIC_SECRET_PATTERNS :: "pat list" where
  "GENERIC_SECRET_PATTERNS =
    (let with_chars = (\<lambda>xs c. alphanumeric c \<or> c \<in> set xs);
         jwt = P_class (with_chars ''_-'') 8 None in
     [P_cat [P_bound, P_lit ''AKIA'', P_class (\<lambda>c. digit c \<or> upper c) 16 (Some 16), P_bound],
      P_cat [P_bound, P_alt [P_lit ''sk'', P_lit ''pk''], P_class (\<lambda>c. c \<in> set ''_-'') 1 (Some 1),
             P_alt [P_lit ''live'', P_lit ''test'', P_lit ''prod''], P_class (\<lambda>c. c \<in> set ''_-'') 0 (Some 1),
             P_class alphanumeric 10 None, P_bound],
      P_cat [P_bound, P_lit ''gh'', P_class (\<lambda>c. c \<in> set ''pousr'') 1 (Some 1), P_lit ''_'',
             P_class alphanumeric 36 None, P_bound],
      P_cat [P_bound, P_lit ''xox'', P_class (\<lambda>c. c \<in> set ''baprs'') 1 (Some 1), P_lit ''-'',
             P_class (with_chars ''-'') 10 None, P_bound],
      P_cat [P_bound, P_lit ''eyJ'', jwt, P_lit ''.'', jwt, P_lit ''.'', jwt, P_bound],
      P_cat [P_bound, P_lit ''-----BEGIN '', P_class (\<lambda>c. upper c \<or> c = CHR '' '') 0 None,
             P_lit ''PRIVATE KEY-----'', P_lazy_any, P_lit ''-----END '',
             P_class (\<lambda>c. upper c \<or> c = CHR '' '') 0 None, P_lit ''PRIVATE KEY-----'', P_bound],
      P_cat [P_bound, P_class (with_chars ''._%+-'') 1 None, P_lit ''@'', P_class (with_chars ''.-'') 1 None,
             P_lit ''.'', P_class letter 2 None, P_bound]])"

definition redaction_mark :: string where
  "redaction_mark = ''[REDACTED]''"

text \<open>\<open>text.replace(re, mark)\<close> for a global pattern, from position \<open>i\<close>; no pattern matches the empty text.\<close>

function replace_from :: "pat \<Rightarrow> string \<Rightarrow> nat \<Rightarrow> string" where
  "replace_from p s i =
     (if length s \<le> i then []
      else case pat_ends p s i of
        e # _ \<Rightarrow> if i < e then redaction_mark @ replace_from p s e else s ! i # replace_from p s (Suc i)
      | [] \<Rightarrow> s ! i # replace_from p s (Suc i))"
  by pat_completeness auto
termination by (relation "measure (\<lambda>(p, s, i). length s - i)") auto

text \<open>\<open>text.split(v).join(mark)\<close> for a nonempty \<open>v\<close>.\<close>

function replace_value :: "string \<Rightarrow> string \<Rightarrow> string" where
  "replace_value v s =
     (if v = [] \<or> s = [] then s
      else if take (length v) s = v then redaction_mark @ replace_value v (drop (length v) s)
      else hd s # replace_value v (tl s))"
  by pat_completeness auto
termination by (relation "measure (\<lambda>(v, s). length s)") auto

declare replace_from.simps [simp del] replace_value.simps [simp del]

section \<open>The credential broker\<close>

record stored_secret =
  ss_ref :: credential_ref
  ss_value :: string
  ss_envName :: string

type_synonym broker = "(string \<times> stored_secret) list"

text \<open>\<open>label.toUpperCase().replace(/[^A-Z0-9]+/g, "_").replace(/^_+|_+$/g, "")\<close>.\<close>

definition upper_char :: "char \<Rightarrow> char" where
  "upper_char c = (let n = (of_char c :: nat) in if 97 \<le> n \<and> n \<le> 122 then char_of (n - 32) else c)"

fun squash :: "string \<Rightarrow> string" where
  "squash [] = []"
| "squash (c # cs) =
     (if upper c \<or> digit c then c # squash cs
      else (case squash cs of d # ds \<Rightarrow> if d = CHR ''_'' then d # ds else CHR ''_'' # d # ds
                            | [] \<Rightarrow> ''_''))"

definition envNameFor :: "string \<Rightarrow> string" where
  "envNameFor label =
     (let under = (\<lambda>c. c = CHR ''_'');
          clean = rev (dropWhile under (rev (dropWhile under (squash (map upper_char label)))))
      in ''XR_CRED_'' @ (if clean = [] then ''SECRET'' else clean))"

definition br_register ::
  "string \<Rightarrow> int \<Rightarrow> string \<Rightarrow> string \<Rightarrow> string \<Rightarrow> credential_mode \<Rightarrow> int \<Rightarrow> broker \<Rightarrow> credential_ref \<times> broker" where
  "br_register rnd now label v scope mode ttlMs b =
     (let refId = ''cred_'' @ take 12 rnd;
          ref = \<lparr> cr_refId = refId, cr_label = label, cr_mode = mode, cr_scope = scope,
                  cr_expiresAt = Some (now + ttlMs) \<rparr>
      in (ref, AList.update refId \<lparr> ss_ref = ref, ss_value = v, ss_envName = envNameFor label \<rparr> b))"

definition secret_expired :: "int \<Rightarrow> stored_secret \<Rightarrow> bool" where
  "secret_expired now s = (case cr_expiresAt (ss_ref s) of None \<Rightarrow> False | Some e \<Rightarrow> e \<noteq> 0 \<and> e \<le> now)"

definition br_has :: "int \<Rightarrow> broker \<Rightarrow> string \<Rightarrow> bool" where
  "br_has now b refId = (case map_of b refId of None \<Rightarrow> False | Some s \<Rightarrow> \<not> secret_expired now s)"

definition injectable :: "int \<Rightarrow> broker \<Rightarrow> credential_ref \<Rightarrow> stored_secret option" where
  "injectable now b ref =
     (case map_of b (cr_refId ref) of
        None \<Rightarrow> None
      | Some s \<Rightarrow> if secret_expired now s \<or> cr_mode (ss_ref s) \<in> {CM_unavailable, CM_none} then None else Some s)"

definition prepareInjection ::
  "int \<Rightarrow> broker \<Rightarrow> credential_ref list \<Rightarrow> (string \<times> string) list \<times> string list" where
  "prepareInjection now b refs =
     (let found = concat (map (\<lambda>r. case injectable now b r of None \<Rightarrow> [] | Some s \<Rightarrow> [s]) refs)
      in (fold (\<lambda>s env. AList.update (ss_envName s) (ss_value s) env) found [], map ss_envName found))"

definition scopeFor :: "broker \<Rightarrow> credential_ref list \<Rightarrow> credential_mode \<Rightarrow> credential_scope" where
  "scopeFor b refs mode =
     (let kept = take MAX_CRED_REFS refs;
          names = concat (map (\<lambda>r. case map_of b (cr_refId r) of None \<Rightarrow> [] | Some s \<Rightarrow> [ss_envName s]) kept)
      in \<lparr> sc_mode = mode, sc_refs = kept, sc_envNames = take MAX_ENV_NAMES names \<rparr>)"

fun br_revoke :: "credential_ref list \<Rightarrow> broker \<Rightarrow> nat \<times> broker" where
  "br_revoke [] b = (0, b)"
| "br_revoke (r # rs) b =
     (let (n, b') = br_revoke rs (AList.delete (cr_refId r) b)
      in ((if cr_refId r \<in> fst ` set b then Suc n else n), b'))"

definition br_revokeAll :: "broker \<Rightarrow> nat \<times> broker" where
  "br_revokeAll b = (length b, [])"

definition br_activeCount :: "broker \<Rightarrow> nat" where
  "br_activeCount b = length b"

definition redactable :: "stored_secret \<Rightarrow> bool" where
  "redactable s \<longleftrightarrow> 4 \<le> length (ss_value s)"

definition br_redact :: "broker \<Rightarrow> string \<Rightarrow> string" where
  "br_redact b txt =
     fold (\<lambda>p out. replace_from p out 0) GENERIC_SECRET_PATTERNS
       (fold (\<lambda>(i, s) out. if redactable s then replace_value (ss_value s) out else out) b txt)"

text \<open>\<open>assertClean\<close>: the label of the first secret that occurs in the text; \<open>None\<close> when it returns.\<close>

definition assertClean :: "broker \<Rightarrow> string \<Rightarrow> string option" where
  "assertClean b hay =
     map_option (\<lambda>(i, s). cr_label (ss_ref s)) (find (\<lambda>(i, s). redactable s \<and> sublist (ss_value s) hay) b)"

end
