(* ===== verification/Trust_Environment.thy ===== *)
theory Trust_Environment
  imports Trust_Authority
begin

text \<open>
  Isolation backends, their verification and the environment manager
  (\<open>src/src/runtime/trust/environment/manager.ts\<close>, \<open>verify.ts\<close>, the claims of the backends under
  \<open>environment/\<close>). What a backend does with a command is its answer; \<open>executeInEnvironment\<close> is
  cut at the \<open>await\<close> of that answer. Whether the process is root and the resolution of paths by
  the operating system are parameters. Spans and metrics are left out.
\<close>

section \<open>Backends\<close>

record placement_guarantees =
  pg_kernelBoundary :: bool
  pg_enforcedFilesystem :: bool
  pg_enforcedNetwork :: bool
  pg_enforcedProcess :: bool
  pg_noAmbientAuthority :: bool

record resource_enforcement =
  re_wallClock :: bool
  re_cpu :: bool
  re_memory :: bool
  re_output :: bool
  re_temp :: bool
  re_processTree :: bool

record environment_backend =
  eb_id :: string
  eb_placement :: placement_kind
  eb_guarantees :: placement_guarantees
  eb_enforcement :: resource_enforcement

definition NO_ENFORCEMENT :: resource_enforcement where
  "NO_ENFORCEMENT = \<lparr> re_wallClock = False, re_cpu = False, re_memory = False, re_output = False, re_temp = False,
     re_processTree = False \<rparr>"

definition full_guarantees :: placement_guarantees where
  "full_guarantees = \<lparr> pg_kernelBoundary = True, pg_enforcedFilesystem = True, pg_enforcedNetwork = True,
     pg_enforcedProcess = True, pg_noAmbientAuthority = True \<rparr>"

definition full_enforcement :: resource_enforcement where
  "full_enforcement = \<lparr> re_wallClock = True, re_cpu = True, re_memory = True, re_output = True, re_temp = True,
     re_processTree = True \<rparr>"

definition plain_guarantees :: placement_guarantees where
  "plain_guarantees = \<lparr> pg_kernelBoundary = False, pg_enforcedFilesystem = False, pg_enforcedNetwork = False,
     pg_enforcedProcess = False, pg_noAmbientAuthority = True \<rparr>"

definition plain_enforcement :: resource_enforcement where
  "plain_enforcement = NO_ENFORCEMENT\<lparr>re_wallClock := True, re_output := True, re_processTree := True\<rparr>"

definition InProcessBackend :: environment_backend where
  "InProcessBackend = \<lparr> eb_id = ''in-process'', eb_placement = In_process, eb_guarantees = plain_guarantees,
     eb_enforcement = plain_enforcement \<rparr>"

definition RestrictedProcessBackend :: environment_backend where
  "RestrictedProcessBackend = \<lparr> eb_id = ''restricted-process'', eb_placement = Restricted_process,
     eb_guarantees = plain_guarantees, eb_enforcement = plain_enforcement \<rparr>"

datatype mechanism = Bwrap | Unshare | Seatbelt | Appcontainer

definition NamespaceSandboxBackend :: "mechanism \<Rightarrow> environment_backend" where
  "NamespaceSandboxBackend m = \<lparr> eb_id = ''namespace-sandbox'', eb_placement = Namespace_sandbox,
     eb_guarantees = (if m = Seatbelt then full_guarantees\<lparr>pg_enforcedProcess := False\<rparr> else full_guarantees),
     eb_enforcement =
       (if m = Seatbelt \<or> m = Appcontainer
        then NO_ENFORCEMENT\<lparr>re_wallClock := True, re_output := True, re_processTree := (m = Appcontainer)\<rparr>
        else full_enforcement) \<rparr>"

definition ContainerBackend :: environment_backend where
  "ContainerBackend = \<lparr> eb_id = ''container-docker'', eb_placement = Container, eb_guarantees = full_guarantees,
     eb_enforcement = full_enforcement \<rparr>"

definition GvisorBackend :: environment_backend where
  "GvisorBackend = \<lparr> eb_id = ''gvisor-runsc'', eb_placement = Gvisor, eb_guarantees = full_guarantees,
     eb_enforcement = full_enforcement \<rparr>"

definition FirecrackerBackend :: environment_backend where
  "FirecrackerBackend = \<lparr> eb_id = ''firecracker'', eb_placement = Firecracker, eb_guarantees = full_guarantees,
     eb_enforcement = full_enforcement \<rparr>"

section \<open>Verification\<close>

record executable =
  ex_argv :: "string list"
  ex_cwd :: string
  ex_env :: "(string \<times> string) list"
  ex_timeoutMs :: jsnum
  ex_maxOutputBytes :: jsnum
  ex_cpuSeconds :: "int option"
  ex_memoryBytes :: "int option"
  ex_maxProcesses :: "int option"
  ex_maxTempBytes :: "int option"
  ex_stdin :: "string option"

record trust_host =
  th_isRoot :: bool
  th_sep :: string
  th_resolve :: "string \<Rightarrow> string"

definition starts_with :: "string \<Rightarrow> string \<Rightarrow> bool" where
  "starts_with p s = (take (length p) s = p)"

definition ends_with :: "string \<Rightarrow> string \<Rightarrow> bool" where
  "ends_with p s = (length p \<le> length s \<and> drop (length s - length p) s = p)"

definition isWithin :: "trust_host \<Rightarrow> string \<Rightarrow> string \<Rightarrow> bool" where
  "isWithin host target dir =
     (let t = th_resolve host target; r = th_resolve host dir
      in t = r \<or> starts_with (if ends_with (th_sep host) r then r else r @ th_sep host) t)"

definition hitsBlockedPath :: "trust_host \<Rightarrow> string \<Rightarrow> string list \<Rightarrow> bool" where
  "hitsBlockedPath host target blocked = list_ex (isWithin host target) blocked"

definition positive_int :: "int \<Rightarrow> bool" where
  "positive_int n = (0 < n \<and> n \<le> 9007199254740991)"

definition positive_js :: "jsnum \<Rightarrow> bool" where
  "positive_js x = (case x of Fin q \<Rightarrow> q = of_int \<lfloor>q\<rfloor> \<and> positive_int \<lfloor>q\<rfloor> | _ \<Rightarrow> False)"

type_synonym checks = "(string \<times> bool) list"

definition tier_checks :: "risk_tier \<Rightarrow> placement_guarantees \<Rightarrow> checks" where
  "tier_checks tier g =
     (if tierAtLeast tier Tier2_isolated
      then [(''tier2_kernel_boundary'', pg_kernelBoundary g), (''tier2_enforced_fs'', pg_enforcedFilesystem g),
            (''tier2_enforced_process'', pg_enforcedProcess g), (''tier2_enforced_net'', pg_enforcedNetwork g),
            (''tier2_no_ambient_authority'', pg_noAmbientAuthority g)]
      else if tierAtLeast tier Tier1_restricted then [(''tier1_no_ambient_authority'', pg_noAmbientAuthority g)]
      else [])"

definition network_check :: "risk_tier \<Rightarrow> placement_guarantees \<Rightarrow> network_policy \<Rightarrow> checks" where
  "network_check tier g net =
     (if np_mode net = Net_allowlist \<and> np_allowlist net \<noteq> [] then [(''network_allowlist_enforceable'', False)]
      else [(''network_policy_enforceable'',
             if np_mode net = Net_none then pg_enforcedNetwork g \<or> tier = Tier1_restricted else True)])"

definition path_checks :: "trust_host \<Rightarrow> string \<Rightarrow> filesystem_policy \<Rightarrow> checks" where
  "path_checks host cwd fs =
     [(''cwd_within_grant'', fp_writableRoots fs = [] \<or> list_ex (isWithin host cwd) (fp_writableRoots fs)),
      (''no_blocked_paths'',
       \<not> list_ex (\<lambda>p. hitsBlockedPath host p (fp_blockedPaths fs)) (fp_writableRoots fs @ fp_readOnlyRoots fs @ [cwd]))]"

definition limit_check :: "string \<Rightarrow> int option \<Rightarrow> bool \<Rightarrow> checks" where
  "limit_check name v enforceable =
     (case v of None \<Rightarrow> [] | Some n \<Rightarrow> [(name, positive_int n \<and> enforceable)])"

definition resource_checks :: "executable \<Rightarrow> resource_policy \<Rightarrow> resource_enforcement \<Rightarrow> checks" where
  "resource_checks exec r e =
     [(''valid_execution_bounds'', positive_js (ex_timeoutMs exec) \<and> positive_js (ex_maxOutputBytes exec) \<and>
         positive_int (rp_wallClockMs r) \<and> positive_int (rp_maxOutputBytes r)),
      (''wall_clock_enforceable'', re_wallClock e), (''output_enforceable'', re_output e)]
     @ limit_check ''cpu_limit_enforceable'' (rp_cpuSeconds r) (re_cpu e)
     @ limit_check ''memory_limit_enforceable'' (rp_memoryBytes r) (re_memory e)
     @ limit_check ''temp_limit_enforceable'' (rp_maxTempBytes r) (re_temp e)
     @ (if rp_maxFiles r \<noteq> None then [(''file_count_limit_enforceable'', False)] else [])"

record verification =
  ve_verified :: bool
  ve_expected :: placement_kind
  ve_actual :: placement_kind
  ve_environmentId :: string
  ve_checks :: checks
  ve_at :: int

definition environment_checks ::
  "trust_host \<Rightarrow> int \<Rightarrow> environment_backend \<Rightarrow> placement_kind \<Rightarrow> risk_tier \<Rightarrow> executable \<Rightarrow> authority_grant \<Rightarrow> bool \<Rightarrow> checks" where
  "environment_checks host now b expected tier exec grant credentialsSatisfied =
     [(''placement_matches_decision'', eb_placement b = expected)]
     @ tier_checks tier (eb_guarantees b)
     @ network_check tier (eb_guarantees b) (gr_net grant)
     @ path_checks host (ex_cwd exec) (gr_fs grant)
     @ [(''not_root'', \<not> th_isRoot host),
        (''credentials_satisfied'',
         if sc_mode (gr_credentials grant) \<in> {CM_task_scoped, CM_workspace} then credentialsSatisfied
         else sc_mode (gr_credentials grant) \<noteq> CM_unavailable),
        (''grant_active'', \<not> gr_revoked grant \<and> now < gr_expiresAt grant)]
     @ resource_checks exec (gr_resources grant) (eb_enforcement b)"

definition verifyEnvironment ::
  "trust_host \<Rightarrow> int \<Rightarrow> environment_backend \<Rightarrow> placement_kind \<Rightarrow> risk_tier \<Rightarrow> executable \<Rightarrow> authority_grant \<Rightarrow> bool \<Rightarrow> verification" where
  "verifyEnvironment host now b expected tier exec grant credentialsSatisfied =
     (let cs = environment_checks host now b expected tier exec grant credentialsSatisfied
      in \<lparr> ve_verified = list_all snd cs, ve_expected = expected, ve_actual = eb_placement b,
           ve_environmentId = eb_id b, ve_checks = cs, ve_at = now \<rparr>)"

section \<open>The environment manager\<close>

record environment_manager =
  em_backends :: "environment_backend list"
  em_availability :: "(string \<times> bool) list"
  em_active :: nat
  em_cleanupFailures :: nat
  em_quarantinedCount :: nat
  em_quarantined :: "string list"
  em_ready :: bool

definition new_manager :: "environment_backend list \<Rightarrow> environment_manager" where
  "new_manager bs = \<lparr> em_backends = bs, em_availability = [], em_active = 0, em_cleanupFailures = 0,
     em_quarantinedCount = 0, em_quarantined = [], em_ready = False \<rparr>"

text \<open>\<open>detect b\<close> is what the detection of a backend answers; \<open>None\<close>: it throws.\<close>

definition em_init :: "(environment_backend \<Rightarrow> bool option) \<Rightarrow> environment_manager \<Rightarrow> environment_manager" where
  "em_init detect m =
     (if em_ready m then m
      else m\<lparr>em_availability := fold (\<lambda>b. AList.update (eb_id b) (nullish (detect b) False)) (em_backends m)
                                     (em_availability m),
             em_ready := True\<rparr>)"

definition em_available :: "environment_manager \<Rightarrow> string \<Rightarrow> bool" where
  "em_available m i = (map_of (em_availability m) i = Some True \<and> i \<notin> set (em_quarantined m))"

definition capabilities :: "trust_host \<Rightarrow> environment_manager \<Rightarrow> placement_caps" where
  "capabilities host m =
     \<lparr> cap_inProcess = True, cap_restrictedProcess = em_available m ''restricted-process'',
       cap_namespaceSandbox = em_available m ''namespace-sandbox'',
       cap_container = em_available m ''container-docker'', cap_browserIsolated = False,
       cap_gvisor = em_available m ''gvisor-runsc'', cap_firecracker = em_available m ''firecracker'',
       cap_isRoot = th_isRoot host \<rparr>"

definition backendFor :: "environment_manager \<Rightarrow> placement_kind \<Rightarrow> environment_backend option" where
  "backendFor m p =
     (case find (\<lambda>b. eb_placement b = p) (em_backends m) of
        None \<Rightarrow> None
      | Some b \<Rightarrow> if em_available m (eb_id b) then Some b else None)"

datatype block_reason =
    Not_admitted decision_reason | Backend_unavailable placement_kind | Verification_failed "string list"

datatype env_start =
    Env_blocked block_reason "verification option"
  | Env_runs string environment_backend executable "(string \<times> string) list" verification

definition js_min :: "jsnum \<Rightarrow> int \<Rightarrow> jsnum" where
  "js_min x n = (case x of Fin q \<Rightarrow> Fin (min q (of_int n)) | PInf \<Rightarrow> Fin (of_int n) | NInf \<Rightarrow> NInf | NaN \<Rightarrow> NaN)"

definition augmented :: "int \<Rightarrow> authority_grant \<Rightarrow> executable \<Rightarrow> executable" where
  "augmented now grant exec =
     exec\<lparr>ex_timeoutMs := js_min (js_min (ex_timeoutMs exec) (rp_wallClockMs (gr_resources grant)))
                                 (max 1 (gr_expiresAt grant - now)),
          ex_maxOutputBytes := js_min (ex_maxOutputBytes exec) (rp_maxOutputBytes (gr_resources grant)),
          ex_cpuSeconds := rp_cpuSeconds (gr_resources grant),
          ex_memoryBytes := rp_memoryBytes (gr_resources grant),
          ex_maxProcesses := Some (pp_maxProcesses (gr_proc grant)),
          ex_maxTempBytes := rp_maxTempBytes (gr_resources grant)\<rparr>"

definition credentials_satisfied :: "int \<Rightarrow> broker \<Rightarrow> credential_scope \<Rightarrow> bool" where
  "credentials_satisfied now b sc =
     (sc_mode sc \<notin> {CM_task_scoped, CM_workspace} \<or> list_all (\<lambda>r. br_has now b (cr_refId r)) (sc_refs sc))"

text \<open>\<open>executeInEnvironmentInner\<close> up to the call of the backend.\<close>

definition env_begin ::
  "trust_host \<Rightarrow> int \<Rightarrow> string \<Rightarrow> placement_decision \<Rightarrow> executable \<Rightarrow> authority_grant \<Rightarrow> broker \<Rightarrow>
     environment_manager \<Rightarrow> env_start \<times> environment_manager" where
  "env_begin host now rnd d exec grant br m =
     (if dec_kind d \<noteq> Admitted then (Env_blocked (Not_admitted (dec_reason d)) None, m)
      else case backendFor m (dec_placement d) of
        None \<Rightarrow> (Env_blocked (Backend_unavailable (dec_placement d)) None, m)
      | Some b \<Rightarrow>
          (let v = verifyEnvironment host now b (dec_placement d) (gr_tier grant) exec grant
                     (credentials_satisfied now br (gr_credentials grant))
           in if \<not> ve_verified v
              then (Env_blocked (Verification_failed (map fst (filter (\<lambda>(n, ok). \<not> ok) (ve_checks v)))) (Some v), m)
              else (Env_runs (''env_'' @ take 10 rnd) b (augmented now grant exec)
                      (fst (prepareInjection now br (sc_refs (gr_credentials grant)))) v,
                    m\<lparr>em_active := em_active m + 1\<rparr>)))"

record run_result =
  rr_ok :: bool
  rr_exitCode :: "int option"
  rr_stdout :: string
  rr_stderr :: string
  rr_timedOut :: bool
  rr_outputTruncated :: bool
  rr_durationMs :: int
  rr_boundaryEvent :: bool
  rr_boundaryDetail :: "string option"

datatype backend_answer = Returned run_result | Threw string

datatype cleanup_state = Cleanup_succeeded | Cleanup_partial

record cleanup_result =
  cu_state :: cleanup_state
  cu_credentialsRevoked :: nat
  cu_detail :: "string option"
  cu_finishedAt :: int

record env_output =
  eo_result :: run_result
  eo_cleanup :: cleanup_result
  eo_quarantined :: bool

definition thrown_result :: "string \<Rightarrow> run_result" where
  "thrown_result msg =
     \<lparr> rr_ok = False, rr_exitCode = None, rr_stdout = [], rr_stderr = ''environment execution error: '' @ msg,
       rr_timedOut = False, rr_outputTruncated = False, rr_durationMs = 0, rr_boundaryEvent = True,
       rr_boundaryDetail = Some ''environment threw'' \<rparr>"

definition scrub :: "broker \<Rightarrow> run_result \<Rightarrow> run_result" where
  "scrub br r = r\<lparr>rr_stdout := br_redact br (rr_stdout r), rr_stderr := br_redact br (rr_stderr r),
     rr_boundaryDetail := (case rr_boundaryDetail r of Some d \<Rightarrow> if d = [] then None else Some (br_redact br d)
                           | None \<Rightarrow> None)\<rparr>"

text \<open>\<open>executeInEnvironmentInner\<close> from the answer of the backend on.\<close>

definition env_finish ::
  "int \<Rightarrow> environment_backend \<Rightarrow> authority_grant \<Rightarrow> backend_answer \<Rightarrow> broker \<Rightarrow> environment_manager \<Rightarrow>
     env_output \<times> broker \<times> environment_manager" where
  "env_finish now b grant answer br m =
     (let raw = (case answer of Returned r \<Rightarrow> r | Threw msg \<Rightarrow> thrown_result msg);
          res = scrub br raw;
          refs = sc_refs (gr_credentials grant);
          (n, br') = br_revoke refs br;
          bad = (rr_boundaryEvent res \<and> eb_placement b \<noteq> In_process);
          quarantined = ((case answer of Threw _ \<Rightarrow> True | _ \<Rightarrow> False) \<or> bad);
          ok = (length refs \<le> n)
      in (\<lparr> eo_result = res,
            eo_cleanup = \<lparr> cu_state = (if ok then Cleanup_succeeded else Cleanup_partial), cu_credentialsRevoked = n,
                           cu_detail = (if quarantined then rr_boundaryDetail res else None), cu_finishedAt = now \<rparr>,
            eo_quarantined = quarantined \<rparr>,
          br',
          m\<lparr>em_active := em_active m - 1,
            em_quarantinedCount := em_quarantinedCount m + (if bad then 1 else 0),
            em_cleanupFailures := em_cleanupFailures m + (if ok then 0 else 1)\<rparr>))"

definition quarantineBackend :: "string \<Rightarrow> environment_manager \<Rightarrow> environment_manager" where
  "quarantineBackend i m = m\<lparr>em_quarantined := (if i \<in> set (em_quarantined m) then em_quarantined m else em_quarantined m @ [i]),
     em_quarantinedCount := em_quarantinedCount m + 1\<rparr>"

record backend_availability =
  ba_id :: string
  ba_placement :: placement_kind
  ba_available :: bool

definition listBackends :: "environment_manager \<Rightarrow> backend_availability list" where
  "listBackends m =
     map (\<lambda>b. \<lparr> ba_id = eb_id b, ba_placement = eb_placement b, ba_available = em_available m (eb_id b) \<rparr>) (em_backends m)"

definition em_shutdown :: "broker \<Rightarrow> environment_manager \<Rightarrow> broker \<times> environment_manager" where
  "em_shutdown br m = (snd (br_revokeAll br), m\<lparr>em_active := 0\<rparr>)"

end
