(* ===== verification/Trust_Service.thy ===== *)
theory Trust_Service
  imports Trust_Environment
begin

text \<open>
  The trust service (\<open>src/src/runtime/trust/service.ts\<close>). \<open>evaluate\<close> is cut at its \<open>await\<close>: the
  part before it runs the manager up to the call of a backend, then the answer of the backend
  arrives, then the call resumes and revokes its grant. Any number of evaluations of one
  service may be in flight. The texts of reasons and remediations are constructors.
\<close>

section \<open>Data\<close>

datatype eval_reason =
    Policy_reason decision_reason
  | Host_authority
  | No_executable risk_tier
  | Policy_only_boundary
  | Environment_refused block_reason

datatype eval_remediation =
    Policy_remediation remediation
  | Ensure_elevated_approval
  | Supply_executable_high_risk
  | Supply_executable
  | Install_backend
  | Adjust_scope

record eval_decision =
  ed_kind :: decision_kind
  ed_requestedTier :: risk_tier
  ed_placement :: placement_kind
  ed_environmentId :: "string option"
  ed_reason :: eval_reason
  ed_remediation :: "eval_remediation option"
  ed_decidedAt :: int

record trust_evaluation_record =
  te_tier :: risk_tier
  te_reasons :: "string list"
  te_approvalLevel :: approval_level
  te_decision :: eval_decision
  te_grantId :: "string option"
  te_credentialScope :: "credential_scope option"
  te_resources :: "resource_policy option"
  te_verification :: "verification option"
  te_cleanup :: "cleanup_result option"
  te_quarantined :: "bool option"

datatype run_summary = Timed_out placement_kind | Succeeded_via placement_kind | Failed_via placement_kind "int option"

record observation =
  ob_summary :: run_summary
  ob_transportOk :: bool
  ob_statusCode :: "int option"
  ob_outputBytes :: nat
  ob_logs :: "string list"
  ob_placement :: placement_kind
  ob_environmentId :: string
  ob_tier :: risk_tier
  ob_timedOut :: bool
  ob_outputTruncated :: bool
  ob_boundaryEvent :: bool
  ob_stdout :: string

datatype trust_outcome =
    TO_in_process_ok
  | TO_ran observation
  | TO_blocked eval_reason "eval_remediation option"

record evaluate_params =
  ev_request :: trust_request
  ev_runId :: string
  ev_correlationId :: string
  ev_workspaceId :: string
  ev_actor :: string
  ev_capability :: string
  ev_approvalRef :: "string option"
  ev_executable :: "executable option"
  ev_credentialRefs :: "credential_ref list"

record trust_service =
  ts_runTiers :: "(string \<times> risk_tier) list"
  ts_runPlacements :: "(string \<times> placement_kind) list"
  ts_registry :: registry
  ts_broker :: broker
  ts_manager :: environment_manager
  ts_config :: placement_config

text \<open>The surroundings that do not change, and what a single call reads: the clock, two random
  identifiers and the answer of the \<open>hardened\<close> resolver, if there is one.\<close>

record surroundings =
  su_classifier :: classifier_host
  su_host :: trust_host
  su_platform :: platform
  su_prefer :: "placement_kind list \<Rightarrow> placement_kind list"

record call_env =
  ce_now :: int
  ce_grantRnd :: string
  ce_envRnd :: string
  ce_hardened :: "bool option"

definition is_hardened :: "call_env \<Rightarrow> trust_service \<Rightarrow> bool" where
  "is_hardened ce s = (case ce_hardened ce of Some h \<Rightarrow> h | None \<Rightarrow> nullish (hardened (ts_config s)) True)"

definition placementConfig :: "call_env \<Rightarrow> trust_service \<Rightarrow> placement_config" where
  "placementConfig ce s = (ts_config s)\<lparr>hardened := Some (is_hardened ce s)\<rparr>"

definition escalatedTier :: "string \<Rightarrow> trust_service \<Rightarrow> risk_tier" where
  "escalatedTier run s = nullish (map_of (ts_runTiers s) run) Tier0_in_process"

definition runPlacement :: "string \<Rightarrow> trust_service \<Rightarrow> placement_kind" where
  "runPlacement run s = nullish (map_of (ts_runPlacements s) run) In_process"

definition releaseRun :: "string \<Rightarrow> trust_service \<Rightarrow> trust_service" where
  "releaseRun run s = s\<lparr>ts_runTiers := AList.delete run (ts_runTiers s),
     ts_runPlacements := AList.delete run (ts_runPlacements s)\<rparr>"

definition noteRunPlacement :: "string \<Rightarrow> placement_kind \<Rightarrow> trust_service \<Rightarrow> trust_service" where
  "noteRunPlacement run p s =
     s\<lparr>ts_runPlacements := AList.update run
         (case map_of (ts_runPlacements s) run of None \<Rightarrow> p | Some c \<Rightarrow> mergePlacements c p) (ts_runPlacements s)\<rparr>"

section \<open>Deciding\<close>

fun tier_str :: "risk_tier \<Rightarrow> string" where
  "tier_str Tier0_in_process = ''tier0_in_process''"
| "tier_str Tier1_restricted = ''tier1_restricted''"
| "tier_str Tier2_isolated = ''tier2_isolated''"

definition escalation_reason :: "risk_tier \<Rightarrow> risk_tier \<Rightarrow> risk_tier option \<Rightarrow> risk_tier \<Rightarrow> string" where
  "escalation_reason tier classified declared escalated =
     ''lattice escalation: effective '' @ tier_str tier @ '' (classified '' @ tier_str classified @
     (case declared of None \<Rightarrow> [] | Some d \<Rightarrow> if d = classified then [] else '', capability declares '' @ tier_str d) @
     (if escalated = Tier0_in_process then [] else '', run escalated to '' @ tier_str escalated) @ '')''"

definition effective_classification :: "surroundings \<Rightarrow> trust_request \<Rightarrow> risk_tier \<Rightarrow> risk_classification" where
  "effective_classification su req escalated =
     (let cls = classifyRisk (su_classifier su) req;
          tier = effectiveTier (rc_tier cls) (tq_minimumTier req) (Some escalated)
      in if tier = rc_tier cls then cls
         else cls\<lparr>rc_tier := tier,
                  rc_reasons := rc_reasons cls @ [escalation_reason tier (rc_tier cls) (tq_minimumTier req) escalated]\<rparr>)"

definition decide_for :: "surroundings \<Rightarrow> call_env \<Rightarrow> trust_service \<Rightarrow> risk_classification \<Rightarrow> placement_decision" where
  "decide_for su ce s cls =
     decidePlacement (su_prefer su) (su_platform su) (ce_now ce) (rc_tier cls) (rc_blocked cls) (rc_blockReason cls)
       (capabilities (su_host su) (ts_manager s)) (placementConfig ce s)"

definition decide_request ::
  "surroundings \<Rightarrow> call_env \<Rightarrow> trust_service \<Rightarrow> trust_request \<Rightarrow> risk_classification \<times> placement_decision" where
  "decide_request su ce s req =
     (let cls = classifyRisk (su_classifier su) req;
          tier = effectiveTier (rc_tier cls) (tq_minimumTier req) None
      in (cls, if tier = rc_tier cls then decide_for su ce s cls
               else decidePlacementForTier (su_prefer su) (su_platform su) (ce_now ce) tier
                      (capabilities (su_host su) (ts_manager s)) (placementConfig ce s)))"

definition policy_decision :: "placement_decision \<Rightarrow> eval_decision" where
  "policy_decision d =
     \<lparr> ed_kind = dec_kind d, ed_requestedTier = dec_requestedTier d, ed_placement = dec_placement d,
       ed_environmentId = None, ed_reason = Policy_reason (dec_reason d),
       ed_remediation = map_option Policy_remediation (dec_remediation d), ed_decidedAt = dec_decidedAt d \<rparr>"

definition base_record :: "risk_classification \<Rightarrow> eval_decision \<Rightarrow> trust_evaluation_record" where
  "base_record cls d =
     \<lparr> te_tier = rc_tier cls, te_reasons = rc_reasons cls, te_approvalLevel = rc_approvalLevel cls, te_decision = d,
       te_grantId = None, te_credentialScope = None, te_resources = None, te_verification = None,
       te_cleanup = None, te_quarantined = None \<rparr>"

section \<open>Evaluation\<close>

text \<open>An evaluation in flight: what its continuation needs, and how far it is.\<close>

datatype eval_phase =
    Ph_refused block_reason "verification option"
  | Ph_running string environment_backend executable "(string \<times> string) list" verification
  | Ph_ran string verification env_output
  | Ph_done trust_evaluation_record trust_outcome

record evaluation =
  el_params :: evaluate_params
  el_class :: risk_classification
  el_decision :: placement_decision
  el_grant :: "authority_grant option"
  el_phase :: eval_phase

definition no_grant_done ::
  "evaluate_params \<Rightarrow> risk_classification \<Rightarrow> placement_decision \<Rightarrow> trust_evaluation_record \<Rightarrow> trust_outcome \<Rightarrow> evaluation" where
  "no_grant_done p cls d rec out =
     \<lparr> el_params = p, el_class = cls, el_decision = d, el_grant = None, el_phase = Ph_done rec out \<rparr>"

definition host_decision :: "int \<Rightarrow> risk_tier \<Rightarrow> eval_decision" where
  "host_decision now tier =
     \<lparr> ed_kind = Admitted, ed_requestedTier = tier, ed_placement = In_process, ed_environmentId = None,
       ed_reason = Host_authority, ed_remediation = Some Ensure_elevated_approval, ed_decidedAt = now \<rparr>"

definition make_grant :: "call_env \<Rightarrow> trust_service \<Rightarrow> evaluate_params \<Rightarrow> risk_classification \<Rightarrow> authority_grant" where
  "make_grant ce s p cls =
     (let g = createGrant (ce_grantRnd ce) (ce_now ce)
                \<lparr> ga_actor = ev_actor p, ga_executionId = ev_runId p, ga_correlationId = ev_correlationId p,
                  ga_workspaceId = ev_workspaceId p, ga_capability = ev_capability p,
                  ga_approvalRef = ev_approvalRef p, ga_ttlMs = None \<rparr> cls
      in if ev_credentialRefs p = [] then g
         else g\<lparr>gr_credentials := scopeFor (ts_broker s) (ev_credentialRefs p) (rc_credentialMode cls)\<rparr>)"

definition begin_in_environment ::
  "surroundings \<Rightarrow> call_env \<Rightarrow> evaluate_params \<Rightarrow> risk_classification \<Rightarrow> placement_decision \<Rightarrow> executable \<Rightarrow>
     trust_service \<Rightarrow> evaluation \<times> trust_service" where
  "begin_in_environment su ce p cls d exec s =
     (let g = make_grant ce s p cls;
          (st, m) = env_begin (su_host su) (ce_now ce) (ce_envRnd ce) d exec g (ts_broker s) (ts_manager s)
      in (\<lparr> el_params = p, el_class = cls, el_decision = d, el_grant = Some g,
            el_phase = (case st of Env_blocked why v \<Rightarrow> Ph_refused why v
                        | Env_runs i b x env v \<Rightarrow> Ph_running i b x env v) \<rparr>,
          s\<lparr>ts_registry := reg_register g (ts_registry s), ts_manager := m\<rparr>))"

definition evaluate_begin ::
  "surroundings \<Rightarrow> call_env \<Rightarrow> evaluate_params \<Rightarrow> trust_service \<Rightarrow> evaluation \<times> trust_service" where
  "evaluate_begin su ce p s =
     (let cls = effective_classification su (ev_request p) (escalatedTier (ev_runId p) s);
          d = decide_for su ce s cls;
          s' = s\<lparr>ts_runTiers := AList.update (ev_runId p) (rc_tier cls) (ts_runTiers s)\<rparr>;
          ed = policy_decision d
      in if tq_requiresHostAuthority (ev_request p) = Some True
         then (no_grant_done p cls d (base_record cls (host_decision (ce_now ce) (rc_tier cls))) TO_in_process_ok, s')
         else if dec_kind d = InProcessOk then (no_grant_done p cls d (base_record cls ed) TO_in_process_ok, s')
         else if dec_kind d = Blocked
         then (no_grant_done p cls d ((base_record cls ed)\<lparr>te_quarantined := Some False\<rparr>)
                 (TO_blocked (ed_reason ed) (ed_remediation ed)), s')
         else case ev_executable p of
           Some exec \<Rightarrow> begin_in_environment su ce p cls d exec s'
         | None \<Rightarrow>
             if rc_tier cls = Tier2_isolated
             then (no_grant_done p cls d
                     (base_record cls (ed\<lparr>ed_kind := Blocked, ed_reason := No_executable (rc_tier cls)\<rparr>))
                     (TO_blocked (No_executable (rc_tier cls)) (Some Supply_executable_high_risk)), s')
             else (no_grant_done p cls d
                     (base_record cls (ed\<lparr>ed_kind := Admitted, ed_placement := In_process,
                        ed_reason := Policy_only_boundary, ed_remediation := Some Supply_executable\<rparr>))
                     TO_in_process_ok, s'))"

fun split_lines :: "string \<Rightarrow> string list" where
  "split_lines [] = [[]]"
| "split_lines (c # cs) =
     (if c = char_of (10 :: nat) then [] # split_lines cs
      else (case split_lines cs of l # ls \<Rightarrow> (c # l) # ls | [] \<Rightarrow> [[c]]))"

definition toObservation :: "run_result \<Rightarrow> broker \<Rightarrow> placement_kind \<Rightarrow> string \<Rightarrow> risk_tier \<Rightarrow> observation" where
  "toObservation r br placement envId tier =
     (let out = br_redact br (rr_stdout r); err = br_redact br (rr_stderr r)
      in \<lparr> ob_summary = (if rr_timedOut r then Timed_out placement
                         else if rr_ok r then Succeeded_via placement else Failed_via placement (rr_exitCode r)),
           ob_transportOk = rr_ok r, ob_statusCode = rr_exitCode r, ob_outputBytes = length out + length err,
           ob_logs = take 10 (filter (\<lambda>l. l \<noteq> []) (split_lines err)),
           ob_placement = placement, ob_environmentId = envId, ob_tier = tier, ob_timedOut = rr_timedOut r,
           ob_outputTruncated = rr_outputTruncated r, ob_boundaryEvent = rr_boundaryEvent r,
           ob_stdout = take 4000 out \<rparr>)"

definition refusal_remediation :: "block_reason \<Rightarrow> placement_decision \<Rightarrow> eval_remediation option" where
  "refusal_remediation why d =
     (case why of
        Not_admitted _ \<Rightarrow> map_option Policy_remediation (dec_remediation d)
      | Backend_unavailable _ \<Rightarrow> Some Install_backend
      | Verification_failed _ \<Rightarrow> Some Adjust_scope)"

definition revoke_grant :: "int \<Rightarrow> authority_grant \<Rightarrow> trust_service \<Rightarrow> trust_service" where
  "revoke_grant now g s =
     s\<lparr>ts_registry := snd (reg_prune now (snd (reg_revoke (gr_id g) ''execution finished'' now (ts_registry s))))\<rparr>"

text \<open>The continuation of \<open>evaluate\<close>, its \<open>finally\<close> included.\<close>

definition evaluate_resume :: "int \<Rightarrow> evaluation \<Rightarrow> trust_service \<Rightarrow> evaluation \<times> trust_service" where
  "evaluate_resume now e s =
     (case (el_phase e, el_grant e) of
        (Ph_refused why v, Some g) \<Rightarrow>
          (let ed = (policy_decision (el_decision e))\<lparr>ed_kind := Blocked, ed_reason := Environment_refused why,
                      ed_remediation := refusal_remediation why (el_decision e)\<rparr>
           in (e\<lparr>el_phase := Ph_done
                  ((base_record (el_class e) ed)\<lparr>te_grantId := Some (gr_id g), te_credentialScope := Some (gr_credentials g),
                     te_resources := Some (gr_resources g), te_verification := v, te_quarantined := Some False\<rparr>)
                  (TO_blocked (ed_reason ed) (ed_remediation ed))\<rparr>,
               revoke_grant now g s))
      | (Ph_ran i v out, Some g) \<Rightarrow>
          (let s1 = noteRunPlacement (ev_runId (el_params e)) (dec_placement (el_decision e)) s;
               ob = toObservation (eo_result out) (ts_broker s) (dec_placement (el_decision e)) i (rc_tier (el_class e))
           in (e\<lparr>el_phase := Ph_done
                  ((base_record (el_class e) ((policy_decision (el_decision e))\<lparr>ed_environmentId := Some i\<rparr>))
                     \<lparr>te_grantId := Some (gr_id g), te_credentialScope := Some (gr_credentials g),
                      te_resources := Some (gr_resources g), te_verification := Some v,
                      te_cleanup := Some (eo_cleanup out), te_quarantined := Some (eo_quarantined out)\<rparr>)
                  (TO_ran ob)\<rparr>,
               revoke_grant now g s1))
      | _ \<Rightarrow> (e, s))"

definition backend_answers :: "int \<Rightarrow> backend_answer \<Rightarrow> evaluation \<Rightarrow> trust_service \<Rightarrow> evaluation \<times> trust_service" where
  "backend_answers now answer e s =
     (case (el_phase e, el_grant e) of
        (Ph_running i b x env v, Some g) \<Rightarrow>
          (let (out, br, m) = env_finish now b g answer (ts_broker s) (ts_manager s)
           in (e\<lparr>el_phase := Ph_ran i v out\<rparr>, s\<lparr>ts_broker := br, ts_manager := m\<rparr>))
      | _ \<Rightarrow> (e, s))"

section \<open>The service in use\<close>

record trust_world =
  tw_service :: trust_service
  tw_evals :: "evaluation list"

datatype trust_op =
    Evaluate evaluate_params call_env
  | Backend_answers nat backend_answer int
  | Resume nat int
  | Note_placement string placement_kind
  | Release_run string
  | Revoke_workspace string string int
  | Register_secret string int string string string credential_mode int
  | Revoke_secrets "credential_ref list"
  | Quarantine_backend string
  | Init_backends "environment_backend \<Rightarrow> bool option"
  | Stop_service

definition on_eval :: "nat \<Rightarrow> (evaluation \<Rightarrow> trust_service \<Rightarrow> evaluation \<times> trust_service) \<Rightarrow> trust_world \<Rightarrow> trust_world" where
  "on_eval k f w =
     (if k < length (tw_evals w)
      then (let (e, s) = f (tw_evals w ! k) (tw_service w) in \<lparr> tw_service = s, tw_evals = (tw_evals w)[k := e] \<rparr>)
      else w)"

definition on_service :: "(trust_service \<Rightarrow> trust_service) \<Rightarrow> trust_world \<Rightarrow> trust_world" where
  "on_service f w = w\<lparr>tw_service := f (tw_service w)\<rparr>"

fun apply_trust_op :: "surroundings \<Rightarrow> trust_op \<Rightarrow> trust_world \<Rightarrow> trust_world" where
  "apply_trust_op su (Evaluate p ce) w =
     (let (e, s) = evaluate_begin su ce p (tw_service w) in \<lparr> tw_service = s, tw_evals = tw_evals w @ [e] \<rparr>)"
| "apply_trust_op su (Backend_answers k answer now) w = on_eval k (backend_answers now answer) w"
| "apply_trust_op su (Resume k now) w = on_eval k (evaluate_resume now) w"
| "apply_trust_op su (Note_placement run p) w = on_service (noteRunPlacement run p) w"
| "apply_trust_op su (Release_run run) w = on_service (releaseRun run) w"
| "apply_trust_op su (Revoke_workspace ws reason now) w =
     on_service (\<lambda>s. s\<lparr>ts_registry := snd (revokeWorkspace ws reason now (ts_registry s))\<rparr>) w"
| "apply_trust_op su (Register_secret rnd now label v scope mode ttl) w =
     on_service (\<lambda>s. s\<lparr>ts_broker := snd (br_register rnd now label v scope mode ttl (ts_broker s))\<rparr>) w"
| "apply_trust_op su (Revoke_secrets refs) w = on_service (\<lambda>s. s\<lparr>ts_broker := snd (br_revoke refs (ts_broker s))\<rparr>) w"
| "apply_trust_op su (Quarantine_backend i) w =
     on_service (\<lambda>s. s\<lparr>ts_manager := quarantineBackend i (ts_manager s)\<rparr>) w"
| "apply_trust_op su (Init_backends detect) w = on_service (\<lambda>s. s\<lparr>ts_manager := em_init detect (ts_manager s)\<rparr>) w"
| "apply_trust_op su Stop_service w =
     on_service (\<lambda>s. let (br, m) = em_shutdown (ts_broker s) (ts_manager s) in s\<lparr>ts_broker := br, ts_manager := m\<rparr>) w"

definition new_service :: "environment_backend list \<Rightarrow> placement_config \<Rightarrow> trust_world" where
  "new_service bs cfg =
     \<lparr> tw_service = \<lparr> ts_runTiers = [], ts_runPlacements = [], ts_registry = [], ts_broker = [],
                      ts_manager = new_manager bs, ts_config = cfg \<rparr>,
       tw_evals = [] \<rparr>"

abbreviation trust_run :: "surroundings \<Rightarrow> environment_backend list \<Rightarrow> placement_config \<Rightarrow> trust_op list \<Rightarrow> trust_world" where
  "trust_run su bs cfg xs \<equiv> exec_ops (apply_trust_op su) xs (new_service bs cfg)"

end
