(* ===== verification/Budget_Partition.thy ===== *)
theory Budget_Partition
  imports XR_Prelude "HOL-Library.Char_ord" "HOL-Library.List_Lexorder"
    "HOL-Library.Product_Lexorder"
begin

text \<open>
  The partition ledger (\<open>src/src/state/repos/partition-repo.ts\<close>): a root envelope per task,
  child envelopes cut from it by weight, and step reservations that are admitted against
  the child ceiling and the root envelope and settled against actual usage. The two tables
  are lists of rows in \<open>rowid\<close> order with the constraints of migration 8 (a primary key
  each and the unique index on task and child). Every public method is one function from
  the ledger to an error or a result with the new ledger; \<open>store.write\<close> rolls back when its
  block throws, so an error leaves the caller's ledger as it was. Dollars are exact
  rationals, clock readings and drawn ids are arguments.
\<close>

section \<open>Rows and results\<close>

definition toMicro :: "rat \<Rightarrow> int" where
  "toMicro usd = js_round (max 0 usd * 1000000)"

definition fromMicro :: "int \<Rightarrow> rat" where
  "fromMicro usdMicro = of_int usdMicro / 1000000"

record BudgetSpec =
  spec_capUsd :: "rat option"
  spec_capTokens :: "int option"

datatype partition_status = Open | Closed

record PartitionRow =
  partitionId :: string
  taskId :: string
  childId :: string
  agentId :: "string option"
  capUsd :: rat
  capTokens :: int
  consumedUsd :: rat
  consumedTokens :: int
  pstatus :: partition_status

record ChildSpec =
  spec_childId :: string
  spec_agentId :: "string option"
  weight :: rat

record PartitionDbRow =
  partition_id :: string
  task_id :: string
  child_id :: string
  agent_id :: "string option"
  cap_usd :: rat
  cap_tokens :: int
  consumed_usd :: rat
  consumed_tokens :: int
  db_status :: string
  created_at :: int
  updated_at :: int

datatype reservation_status = Active | Settled | Released | Expired

record reservation_row =
  res_id :: string
  res_task :: string
  res_child :: string
  est_usd :: rat
  est_tokens :: rat
  res_status :: reservation_status
  res_created :: int
  res_updated :: int

text \<open>The refusals carry the values the source puts into the message.\<close>

datatype deny_reason =
    LedgerUnavailable
  | NeverFunded string
  | PartitionIsClosed string
  | ChildCeiling string int int
  | ChildTokenCeiling string int int
  | RootEnvelope string int int
  | RootTokenEnvelope string int int
  | FloorUnaffordable string int int

datatype AdmitResult = Admitted string | Denied deny_reason

datatype partition_error =
    PartitionsUnavailable
  | UnsafeKey string
  | NoRootEnvelope string
  | ConstraintViolation

record ledger =
  enabled :: bool
  reservationTtlMs :: int
  partitions :: "PartitionDbRow list"
  reservations :: "reservation_row list"

definition ROOT_CHILD_ID :: string where
  "ROOT_CHILD_ID = ''@root''"

definition DEFAULT_PARTITION_RESERVATION_TTL_MS :: int where
  "DEFAULT_PARTITION_RESERVATION_TTL_MS = 10 * 60000"

definition key_char :: "char \<Rightarrow> bool" where
  "key_char c =
     (let n = (of_char c :: nat) in
       (65 \<le> n \<and> n \<le> 90) \<or> (97 \<le> n \<and> n \<le> 122) \<or> (48 \<le> n \<and> n \<le> 57) \<or>
       c \<in> set ''_.:-'')"

definition sanitizeKey :: "string \<Rightarrow> partition_error + string" where
  "sanitizeKey k =
     (if 1 \<le> length k \<and> length k \<le> 80 \<and> list_all key_char k then Inr k
      else Inl (UnsafeKey (take 40 k)))"

section \<open>The tables\<close>

definition rowToPartition :: "PartitionDbRow \<Rightarrow> PartitionRow" where
  "rowToPartition r =
     \<lparr> partitionId = partition_id r, taskId = task_id r, childId = child_id r,
       agentId = agent_id r, capUsd = cap_usd r, capTokens = cap_tokens r,
       consumedUsd = consumed_usd r, consumedTokens = consumed_tokens r,
       pstatus = (if db_status r = ''closed'' then Closed else Open) \<rparr>"

definition row_key :: "PartitionDbRow \<Rightarrow> string \<times> string" where
  "row_key r = (task_id r, child_id r)"

lemma row_key_iff [simp]: "row_key r = (tid, cid) \<longleftrightarrow> task_id r = tid \<and> child_id r = cid"
  by (simp add: row_key_def)

lemma row_key_rev [simp]: "(tid, cid) = row_key r \<longleftrightarrow> task_id r = tid \<and> child_id r = cid"
  by (auto simp: row_key_def)

lemma row_key_cong: "task_id r = task_id r' \<Longrightarrow> child_id r = child_id r' \<Longrightarrow> row_key r = row_key r'"
  by (simp add: row_key_def)

definition find_partition :: "string \<Rightarrow> string \<Rightarrow> PartitionDbRow list \<Rightarrow> PartitionDbRow option" where
  "find_partition tid cid ps = find (\<lambda>r. row_key r = (tid, cid)) ps"

definition children_of :: "string \<Rightarrow> PartitionDbRow list \<Rightarrow> PartitionDbRow list" where
  "children_of tid ps = filter (\<lambda>r. task_id r = tid \<and> child_id r \<noteq> ROOT_CHILD_ID) ps"

definition insertRow :: "PartitionDbRow \<Rightarrow> PartitionDbRow list \<Rightarrow> partition_error + PartitionDbRow list" where
  "insertRow r ps =
     (if partition_id r \<in> set (map partition_id ps) \<or> row_key r \<in> set (map row_key ps)
      then Inl ConstraintViolation else Inr (ps @ [r]))"

definition new_root_row :: "string \<Rightarrow> BudgetSpec \<Rightarrow> string \<Rightarrow> int \<Rightarrow> PartitionDbRow" where
  "new_root_row tid rootSpec pid now =
     \<lparr> partition_id = pid, task_id = tid, child_id = ROOT_CHILD_ID, agent_id = None,
       cap_usd = max 0 (nullish (spec_capUsd rootSpec) 0),
       cap_tokens = max 0 (nullish (spec_capTokens rootSpec) 0),
       consumed_usd = 0, consumed_tokens = 0, db_status = ''open'',
       created_at = now, updated_at = now \<rparr>"

definition openTask ::
  "string \<Rightarrow> BudgetSpec \<Rightarrow> string \<Rightarrow> int \<Rightarrow> ledger \<Rightarrow>
     partition_error + ((bool \<times> PartitionRow) \<times> ledger)" where
  "openTask task rootSpec pid now led =
     (if \<not> enabled led then Inl PartitionsUnavailable
      else case sanitizeKey task of
        Inl e \<Rightarrow> Inl e
      | Inr tid \<Rightarrow>
          (case find_partition tid ROOT_CHILD_ID (partitions led) of
             Some r \<Rightarrow> Inr ((False, rowToPartition r), led)
           | None \<Rightarrow>
               (let row = new_root_row tid rootSpec pid now
                in case insertRow row (partitions led) of
                     Inl e \<Rightarrow> Inl e
                   | Inr ps \<Rightarrow> Inr ((True, rowToPartition row), led\<lparr>partitions := ps\<rparr>))))"

section \<open>Cutting child envelopes\<close>

record partition_opts =
  floorUsd :: "rat option"
  opt_floorTokens :: "rat option"

record allocation =
  alloc_child :: ChildSpec
  usdMicro :: int
  tokens :: int

text \<open>The numbers fixed before the allocation loops.\<close>

record cut =
  rootUsdMicro :: int
  rootTokenCap :: int
  headUsdMicro :: int
  headTokens :: int
  floorUsdMicro :: int
  floorTokens :: int

definition totalWeight :: "ChildSpec list \<Rightarrow> rat" where
  "totalWeight pending =
     max (1 / 1000000000) (sum_list (map (\<lambda>c. max (1 / 100) (weight c)) pending))"

definition allocate :: "cut \<Rightarrow> ChildSpec list \<Rightarrow> allocation list" where
  "allocate k pending =
     map (\<lambda>c. let w = max (1 / 100) (weight c) / totalWeight pending in
              \<lparr> alloc_child = c,
                usdMicro = (if rootUsdMicro k > 0 then \<lfloor>of_int (headUsdMicro k) * w\<rfloor> else 0),
                tokens = (if rootTokenCap k > 0 then \<lfloor>of_int (headTokens k) * w\<rfloor> else 0) \<rparr>)
       pending"

text \<open>
  The floor loop: \<open>runUsd\<close> and \<open>runTok\<close> are the running allocations. A child that the
  headroom cannot lift to the dollar floor is denied and marked \<open>-1\<close>; a token slice below
  the floor is lifted, or clamped at what remains.
\<close>

definition usd_floored :: "cut \<Rightarrow> int \<Rightarrow> int \<Rightarrow> int option" where
  "usd_floored k runUsd u =
     (if rootUsdMicro k > 0 \<and> u < floorUsdMicro k then
        (if runUsd + floorUsdMicro k \<le> headUsdMicro k then Some (floorUsdMicro k) else None)
      else Some u)"

definition tokens_floored :: "cut \<Rightarrow> int \<Rightarrow> int \<Rightarrow> int" where
  "tokens_floored k runTok t =
     (if t < floorTokens k then
        (if runTok + floorTokens k \<le> headTokens k then floorTokens k
         else max 0 (headTokens k - runTok))
      else t)"

fun enforce_floors ::
  "cut \<Rightarrow> int \<Rightarrow> int \<Rightarrow> allocation list \<Rightarrow> allocation list \<times> (string \<times> deny_reason) list" where
  "enforce_floors k runUsd runTok [] = ([], [])"
| "enforce_floors k runUsd runTok (a # as) =
     (case usd_floored k runUsd (usdMicro a) of
        None \<Rightarrow>
          (let cid = spec_childId (alloc_child a);
               (bs, ds) = enforce_floors k runUsd runTok as
           in (a\<lparr>usdMicro := -1\<rparr> # bs,
               (cid, FloorUnaffordable cid (floorUsdMicro k) (max 0 (headUsdMicro k - runUsd))) # ds))
      | Some u \<Rightarrow>
          (let runUsd' = (if rootUsdMicro k > 0 then runUsd + u else runUsd);
               lim = rootTokenCap k > 0 \<and> u \<ge> 0;
               t = (if lim then tokens_floored k runTok (tokens a) else tokens a);
               runTok' = (if lim then runTok + t else runTok);
               (bs, ds) = enforce_floors k runUsd' runTok' as
           in (a\<lparr>usdMicro := u, tokens := t\<rparr> # bs, ds)))"

definition new_child_row :: "cut \<Rightarrow> string \<Rightarrow> int \<Rightarrow> string \<Rightarrow> string \<Rightarrow> allocation \<Rightarrow> PartitionDbRow" where
  "new_child_row k tid now pid cid a =
     \<lparr> partition_id = pid, task_id = tid, child_id = cid,
       agent_id = spec_agentId (alloc_child a),
       cap_usd = (if rootUsdMicro k > 0 then fromMicro (usdMicro a) else 0),
       cap_tokens = (if rootTokenCap k > 0 then tokens a else 0),
       consumed_usd = 0, consumed_tokens = 0, db_status = ''open'',
       created_at = now, updated_at = now \<rparr>"

text \<open>The rows are inserted in allocation order; the \<open>n\<close>-th draws the \<open>n\<close>-th fresh id.\<close>

fun create_children ::
  "cut \<Rightarrow> string \<Rightarrow> int \<Rightarrow> (nat \<Rightarrow> string) \<Rightarrow> nat \<Rightarrow> allocation list \<Rightarrow> PartitionDbRow list \<Rightarrow>
     partition_error + (PartitionRow list \<times> PartitionDbRow list)" where
  "create_children k tid now fresh n [] ps = Inr ([], ps)"
| "create_children k tid now fresh n (a # as) ps =
     (if usdMicro a < 0 then create_children k tid now fresh n as ps
      else case sanitizeKey (spec_childId (alloc_child a)) of
        Inl e \<Rightarrow> Inl e
      | Inr cid \<Rightarrow>
          (let row = new_child_row k tid now (fresh n) cid a
           in case insertRow row ps of
                Inl e \<Rightarrow> Inl e
              | Inr ps' \<Rightarrow>
                  (case create_children k tid now fresh (Suc n) as ps' of
                     Inl e \<Rightarrow> Inl e
                   | Inr (created, ps'') \<Rightarrow> Inr (rowToPartition row # created, ps''))))"

datatype 'a headroom_amount = Infinite | Finite 'a

record room =
  room_usd :: "rat headroom_amount"
  room_tokens :: "int headroom_amount"

definition headroom_rows :: "string \<Rightarrow> PartitionDbRow list \<Rightarrow> room" where
  "headroom_rows tid ps =
     (case find_partition tid ROOT_CHILD_ID ps of
        None \<Rightarrow> \<lparr> room_usd = Finite 0, room_tokens = Finite 0 \<rparr>
      | Some rootRow \<Rightarrow>
          (let allocUsd = sum_list (map (\<lambda>c. toMicro (cap_usd c)) (children_of tid ps));
               allocTok = sum_list (map cap_tokens (children_of tid ps));
               rootUsd = toMicro (cap_usd rootRow)
           in \<lparr> room_usd = (if rootUsd > 0 then Finite (max 0 (fromMicro (rootUsd - allocUsd)))
                           else Infinite),
                room_tokens = (if cap_tokens rootRow > 0
                               then Finite (max 0 (cap_tokens rootRow - allocTok)) else Infinite) \<rparr>))"

definition headroom :: "string \<Rightarrow> ledger \<Rightarrow> partition_error + room" where
  "headroom task led =
     (if \<not> enabled led then Inr \<lparr> room_usd = Finite 0, room_tokens = Finite 0 \<rparr>
      else case sanitizeKey task of
        Inl e \<Rightarrow> Inl e
      | Inr tid \<Rightarrow> Inr (headroom_rows tid (partitions led)))"

record partition_result =
  result_children :: "PartitionRow list"
  result_headroom :: room
  result_denied :: "(string \<times> deny_reason) list"

definition cut_of :: "partition_opts \<Rightarrow> PartitionDbRow \<Rightarrow> PartitionDbRow list \<Rightarrow> cut" where
  "cut_of opts rootRow existing =
     (let rootUsd = toMicro (cap_usd rootRow);
          allocatedUsd = sum_list (map (\<lambda>e. toMicro (cap_usd e)) existing);
          allocatedTok = sum_list (map cap_tokens existing)
      in \<lparr> rootUsdMicro = rootUsd, rootTokenCap = cap_tokens rootRow,
           headUsdMicro = (if rootUsd > 0 then rootUsd - allocatedUsd else 0),
           headTokens = (if cap_tokens rootRow > 0 then cap_tokens rootRow - allocatedTok else 0),
           floorUsdMicro = toMicro (nullish (floorUsd opts) (1 / 100)),
           floorTokens = max 0 \<lfloor>nullish (opt_floorTokens opts) 1000\<rfloor> \<rparr>)"

definition partition ::
  "string \<Rightarrow> ChildSpec list \<Rightarrow> partition_opts \<Rightarrow> int \<Rightarrow> (nat \<Rightarrow> string) \<Rightarrow> ledger \<Rightarrow>
     partition_error + (partition_result \<times> ledger)" where
  "partition task children opts now fresh led =
     (if \<not> enabled led then Inl PartitionsUnavailable
      else case sanitizeKey task of
        Inl e \<Rightarrow> Inl e
      | Inr tid \<Rightarrow>
          (case find_partition tid ROOT_CHILD_ID (partitions led) of
             None \<Rightarrow> Inl (NoRootEnvelope task)
           | Some rootRow \<Rightarrow>
               (let existing = children_of tid (partitions led);
                    k = cut_of opts rootRow existing;
                    pending = filter (\<lambda>c. spec_childId c \<notin> set (map child_id existing)) children;
                    (allocations, denied) = enforce_floors k 0 0 (allocate k pending)
                in case create_children k tid now fresh 0 allocations (partitions led) of
                     Inl e \<Rightarrow> Inl e
                   | Inr (created, ps) \<Rightarrow>
                       Inr (\<lparr> result_children = map rowToPartition existing @ created,
                              result_headroom = headroom_rows tid ps,
                              result_denied = denied \<rparr>,
                            led\<lparr>partitions := ps\<rparr>))))"

section \<open>Admission and settlement\<close>

definition activeTotals :: "string \<Rightarrow> string option \<Rightarrow> reservation_row list \<Rightarrow> int \<times> int" where
  "activeTotals tid cid rs =
     (let act = filter (\<lambda>r. res_task r = tid \<and> (case cid of None \<Rightarrow> True | Some c \<Rightarrow> res_child r = c) \<and>
                            res_status r = Active) rs
      in (toMicro (sum_list (map est_usd act)), js_round (sum_list (map est_tokens act))))"

definition sweepStale :: "int \<Rightarrow> string \<Rightarrow> int \<Rightarrow> reservation_row list \<Rightarrow> reservation_row list" where
  "sweepStale ttl tid now rs =
     map (\<lambda>r. if res_task r = tid \<and> res_status r = Active \<and> res_created r < now - ttl
              then r\<lparr>res_status := Expired, res_updated := now\<rparr> else r) rs"

text \<open>The ceiling checks of \<open>admit\<close> on the swept reservations, in the code's order.\<close>

definition child_check ::
  "string \<Rightarrow> PartitionDbRow \<Rightarrow> int \<times> int \<Rightarrow> int \<Rightarrow> rat \<Rightarrow> deny_reason option" where
  "child_check childName child act estMicro estTok =
     (let cap = toMicro (cap_usd child);
          usedUsd = toMicro (consumed_usd child) + fst act;
          usedTok = consumed_tokens child + snd act
      in if cap > 0 \<and> usedUsd + estMicro > cap then Some (ChildCeiling childName usedUsd cap)
         else if cap_tokens child > 0 \<and> of_int usedTok + estTok > of_int (cap_tokens child)
         then Some (ChildTokenCeiling childName usedTok (cap_tokens child))
         else None)"

definition root_check ::
  "string \<Rightarrow> PartitionDbRow \<Rightarrow> PartitionDbRow list \<Rightarrow> int \<times> int \<Rightarrow> int \<Rightarrow> rat \<Rightarrow> deny_reason option" where
  "root_check taskName rootRow children act estMicro estTok =
     (let cap = toMicro (cap_usd rootRow);
          usedUsd = sum_list (map (\<lambda>c. toMicro (consumed_usd c)) children) + fst act;
          usedTok = sum_list (map consumed_tokens children) + snd act
      in if cap > 0 \<and> usedUsd + estMicro > cap then Some (RootEnvelope taskName usedUsd cap)
         else if cap_tokens rootRow > 0 \<and> of_int usedTok + estTok > of_int (cap_tokens rootRow)
         then Some (RootTokenEnvelope taskName usedTok (cap_tokens rootRow))
         else None)"

definition admission_refusal ::
  "string \<Rightarrow> string \<Rightarrow> rat \<Rightarrow> rat \<Rightarrow> PartitionDbRow list \<Rightarrow> reservation_row list \<Rightarrow> deny_reason option" where
  "admission_refusal tid cid estUsd estTok ps rs =
     (case find_partition tid cid ps of
        None \<Rightarrow> Some (NeverFunded cid)
      | Some child \<Rightarrow>
          (if db_status child = ''closed'' then Some (PartitionIsClosed cid)
           else case child_check cid child (activeTotals tid (Some cid) rs) (toMicro estUsd) estTok of
             Some d \<Rightarrow> Some d
           | None \<Rightarrow>
               (case find_partition tid ROOT_CHILD_ID ps of
                  None \<Rightarrow> None
                | Some rootRow \<Rightarrow>
                    root_check tid rootRow (children_of tid ps) (activeTotals tid None rs)
                      (toMicro estUsd) estTok)))"

definition admit ::
  "string \<Rightarrow> string \<Rightarrow> rat \<Rightarrow> rat \<Rightarrow> int \<Rightarrow> string \<Rightarrow> ledger \<Rightarrow>
     partition_error + (AdmitResult \<times> ledger)" where
  "admit task child estUsd estTok now rid led =
     (if \<not> enabled led then Inr (Denied LedgerUnavailable, led)
      else case sanitizeKey task of
        Inl e \<Rightarrow> Inl e
      | Inr tid \<Rightarrow>
          (case sanitizeKey child of
             Inl e \<Rightarrow> Inl e
           | Inr cid \<Rightarrow>
               (let rs = sweepStale (reservationTtlMs led) tid now (reservations led)
                in case admission_refusal tid cid estUsd estTok (partitions led) rs of
                     Some d \<Rightarrow> Inr (Denied d, led\<lparr>reservations := rs\<rparr>)
                   | None \<Rightarrow>
                       (if rid \<in> set (map res_id rs) then Inl ConstraintViolation
                        else Inr (Admitted rid,
                               led\<lparr>reservations := rs @
                                 [\<lparr> res_id = rid, res_task = tid, res_child = cid,
                                    est_usd = estUsd, est_tokens = estTok, res_status = Active,
                                    res_created = now, res_updated = now \<rparr>]\<rparr>)))))"

definition bump_consumed ::
  "string \<Rightarrow> string \<Rightarrow> rat \<Rightarrow> int \<Rightarrow> int \<Rightarrow> PartitionDbRow list \<Rightarrow> PartitionDbRow list" where
  "bump_consumed tid cid usd tok now ps =
     map (\<lambda>r. if row_key r = (tid, cid)
              then r\<lparr>consumed_usd := consumed_usd r + usd,
                     consumed_tokens := consumed_tokens r + tok, updated_at := now\<rparr>
              else r) ps"

definition find_reservation ::
  "string \<Rightarrow> string \<Rightarrow> string \<Rightarrow> reservation_row list \<Rightarrow> reservation_row option" where
  "find_reservation rid tid cid rs =
     find (\<lambda>r. res_id r = rid \<and> res_task r = tid \<and> res_child r = cid) rs"

definition settle_rows ::
  "string \<Rightarrow> rat \<Rightarrow> int \<Rightarrow> int \<Rightarrow> reservation_row list \<Rightarrow> reservation_row list" where
  "settle_rows rid usd tok now rs =
     map (\<lambda>r. if res_id r = rid
              then r\<lparr>res_status := Settled, est_usd := usd, est_tokens := of_int tok,
                     res_updated := now\<rparr> else r) rs"

definition commit ::
  "string \<Rightarrow> string \<Rightarrow> string \<Rightarrow> rat \<Rightarrow> rat \<Rightarrow> int \<Rightarrow> ledger \<Rightarrow> partition_error + (unit \<times> ledger)" where
  "commit task child rid actualUsd actualTok now led =
     (if \<not> enabled led then Inr ((), led)
      else case sanitizeKey task of
        Inl e \<Rightarrow> Inl e
      | Inr tid \<Rightarrow>
          (case sanitizeKey child of
             Inl e \<Rightarrow> Inl e
           | Inr cid \<Rightarrow>
               (let usd = max 0 actualUsd; tok = max 0 \<lfloor>actualTok\<rfloor>
                in case find_reservation rid tid cid (reservations led) of
                     None \<Rightarrow> Inr ((), led)
                   | Some r \<Rightarrow>
                       (if res_status r \<noteq> Active then Inr ((), led)
                        else Inr ((), led\<lparr>
                          reservations := settle_rows rid usd tok now (reservations led),
                          partitions := bump_consumed tid ROOT_CHILD_ID usd tok now
                                          (bump_consumed tid cid usd tok now (partitions led))\<rparr>)))))"

definition release ::
  "string \<Rightarrow> string \<Rightarrow> string \<Rightarrow> int \<Rightarrow> ledger \<Rightarrow> partition_error + (unit \<times> ledger)" where
  "release task child rid now led =
     (if \<not> enabled led then Inr ((), led)
      else case sanitizeKey task of
        Inl e \<Rightarrow> Inl e
      | Inr tid \<Rightarrow>
          (case sanitizeKey child of
             Inl e \<Rightarrow> Inl e
           | Inr cid \<Rightarrow>
               Inr ((), led\<lparr>reservations :=
                 map (\<lambda>r. if res_id r = rid \<and> res_task r = tid \<and> res_child r = cid \<and>
                             res_status r = Active
                          then r\<lparr>res_status := Released, res_updated := now\<rparr> else r)
                   (reservations led)\<rparr>)))"

definition listPartitions :: "string \<Rightarrow> ledger \<Rightarrow> partition_error + PartitionRow list" where
  "listPartitions task led =
     (if \<not> enabled led then Inr []
      else case sanitizeKey task of
        Inl e \<Rightarrow> Inl e
      | Inr tid \<Rightarrow>
          Inr (map rowToPartition
                (sort_key (\<lambda>r. (child_id r \<noteq> ROOT_CHILD_ID, child_id r))
                  (filter (\<lambda>r. task_id r = tid) (partitions led)))))"

definition close :: "string \<Rightarrow> int \<Rightarrow> ledger \<Rightarrow> partition_error + (unit \<times> ledger)" where
  "close task now led =
     (if \<not> enabled led then Inr ((), led)
      else case sanitizeKey task of
        Inl e \<Rightarrow> Inl e
      | Inr tid \<Rightarrow>
          Inr ((), led\<lparr>partitions :=
            map (\<lambda>r. if task_id r = tid \<and> db_status r = ''open''
                     then r\<lparr>db_status := ''closed'', updated_at := now\<rparr> else r)
              (partitions led)\<rparr>))"

section \<open>The ledger as a machine\<close>

datatype ledger_op =
    Op_open string BudgetSpec string int
  | Op_partition string "ChildSpec list" partition_opts int "nat \<Rightarrow> string"
  | Op_admit string string rat rat int string
  | Op_commit string string string rat rat int
  | Op_release string string string int
  | Op_close string int

text \<open>An operation that throws rolls back.\<close>

definition keep_state :: "ledger \<Rightarrow> partition_error + ('a \<times> ledger) \<Rightarrow> ledger" where
  "keep_state led r = (case r of Inl _ \<Rightarrow> led | Inr (_, led') \<Rightarrow> led')"

fun apply_ledger_op :: "ledger_op \<Rightarrow> ledger \<Rightarrow> ledger" where
  "apply_ledger_op (Op_open t spec pid now) led = keep_state led (openTask t spec pid now led)"
| "apply_ledger_op (Op_partition t cs opts now fresh) led =
     keep_state led (partition t cs opts now fresh led)"
| "apply_ledger_op (Op_admit t c usd tok now rid) led =
     keep_state led (admit t c usd tok now rid led)"
| "apply_ledger_op (Op_commit t c rid usd tok now) led =
     keep_state led (commit t c rid usd tok now led)"
| "apply_ledger_op (Op_release t c rid now) led = keep_state led (release t c rid now led)"
| "apply_ledger_op (Op_close t now) led = keep_state led (close t now led)"


section \<open>Well-formed ledgers\<close>

abbreviation funded_keys :: "PartitionDbRow list \<Rightarrow> (string \<times> string) set" where
  "funded_keys ps \<equiv> row_key ` set ps"

text \<open>What the children of a task have settled, in dollars and in tokens.\<close>

definition settled_usd :: "string \<Rightarrow> PartitionDbRow list \<Rightarrow> rat" where
  "settled_usd tid ps = sum_list (map consumed_usd (children_of tid ps))"

definition settled_tokens :: "string \<Rightarrow> PartitionDbRow list \<Rightarrow> int" where
  "settled_tokens tid ps = sum_list (map consumed_tokens (children_of tid ps))"

definition rooted :: "PartitionDbRow list \<Rightarrow> bool" where
  "rooted ps \<longleftrightarrow> (\<forall>p \<in> set ps. (task_id p, ROOT_CHILD_ID) \<in> funded_keys ps)"

definition conserved :: "PartitionDbRow list \<Rightarrow> bool" where
  "conserved ps \<longleftrightarrow>
     (\<forall>p \<in> set ps. child_id p = ROOT_CHILD_ID \<longrightarrow>
        consumed_usd p = settled_usd (task_id p) ps \<and>
        consumed_tokens p = settled_tokens (task_id p) ps)"

definition table_wf :: "PartitionDbRow list \<Rightarrow> bool" where
  "table_wf ps \<longleftrightarrow> distinct (map row_key ps) \<and> rooted ps \<and> conserved ps"

definition reservations_wf :: "PartitionDbRow list \<Rightarrow> reservation_row list \<Rightarrow> bool" where
  "reservations_wf ps rs \<longleftrightarrow>
     distinct (map res_id rs) \<and>
     (\<forall>r \<in> set rs. (res_task r, res_child r) \<in> funded_keys ps \<and> res_child r \<noteq> ROOT_CHILD_ID)"

definition ledger_wf :: "ledger \<Rightarrow> bool" where
  "ledger_wf led \<longleftrightarrow> table_wf (partitions led) \<and> reservations_wf (partitions led) (reservations led)"

lemma ledger_wf_parts:
  "ledger_wf led \<longleftrightarrow> distinct (map row_key (partitions led)) \<and> rooted (partitions led) \<and>
     conserved (partitions led) \<and> reservations_wf (partitions led) (reservations led)"
  by (simp add: ledger_wf_def table_wf_def)

lemma sanitizeKey_Inr: "sanitizeKey k = Inr k' \<Longrightarrow> k' = k \<and> k \<noteq> ROOT_CHILD_ID"
  by (auto simp: sanitizeKey_def ROOT_CHILD_ID_def key_char_def split: if_splits)

lemma find_partition_Some:
  "find_partition tid cid ps = Some r \<Longrightarrow> r \<in> set ps \<and> row_key r = (tid, cid)"
  unfolding find_partition_def by (drule find_SomeD) simp

lemma find_partition_None:
  "find_partition tid cid ps = None \<longleftrightarrow> (tid, cid) \<notin> funded_keys ps"
  by (auto simp: find_partition_def find_None_iff)

lemma find_partition_unique:
  "distinct (map row_key ps) \<Longrightarrow> r \<in> set ps \<Longrightarrow> row_key r = (tid, cid) \<Longrightarrow>
     find_partition tid cid ps = Some r"
  unfolding find_partition_def by (rule find_unique_key)

subsection \<open>Inserting rows\<close>

lemma children_of_append [simp]: "children_of tid (ps @ qs) = children_of tid ps @ children_of tid qs"
  by (simp add: children_of_def)

lemma settled_append:
  "\<forall>q \<in> set qs. consumed_usd q = 0 \<and> consumed_tokens q = 0 \<Longrightarrow>
     settled_usd tid (ps @ qs) = settled_usd tid ps \<and> settled_tokens tid (ps @ qs) = settled_tokens tid ps"
  by (induction qs) (auto simp: settled_usd_def settled_tokens_def children_of_def)

text \<open>A new row that has spent nothing: a child of a rooted task, or the root of a new task.\<close>

definition blank_row :: "PartitionDbRow \<Rightarrow> bool" where
  "blank_row r \<longleftrightarrow> consumed_usd r = 0 \<and> consumed_tokens r = 0"

lemma children_of_unrooted:
  "rooted ps \<Longrightarrow> (tid, ROOT_CHILD_ID) \<notin> funded_keys ps \<Longrightarrow> children_of tid ps = []"
  by (auto simp: rooted_def children_of_def filter_empty_conv)

lemma table_wf_insert:
  assumes "table_wf ps" and "insertRow r ps = Inr ps'" and "blank_row r"
    and "child_id r = ROOT_CHILD_ID \<or> (task_id r, ROOT_CHILD_ID) \<in> funded_keys ps"
  shows "table_wf ps'" and "ps' = ps @ [r]"
proof -
  have ps': "ps' = ps @ [r]" and new: "row_key r \<notin> funded_keys ps"
    using assms(2) by (auto simp: insertRow_def split: if_splits)
  have d: "distinct (map row_key ps')" using assms(1) new ps' by (auto simp: table_wf_def)
  have rt: "rooted ps'" using assms(1,4) ps' by (auto simp: table_wf_def rooted_def)
  have settled: "settled_usd t ps' = settled_usd t ps \<and> settled_tokens t ps' = settled_tokens t ps" for t
    using settled_append[of "[r]" t ps] assms(3) ps' by (simp add: blank_row_def)
  have fresh: "settled_usd (task_id r) ps = 0 \<and> settled_tokens (task_id r) ps = 0"
    if "child_id r = ROOT_CHILD_ID"
  proof -
    have "(task_id r, ROOT_CHILD_ID) \<notin> funded_keys ps" using new that by (metis row_key_def)
    then show ?thesis
      using children_of_unrooted[of ps "task_id r"] assms(1)
      by (simp add: table_wf_def settled_usd_def settled_tokens_def)
  qed
  have "conserved ps'"
    using assms(1,3) settled fresh by (auto simp: conserved_def table_wf_def ps' blank_row_def)
  with d rt show "table_wf ps'" by (simp add: table_wf_def)
  show "ps' = ps @ [r]" by (rule ps')
qed

lemma reservations_wf_mono:
  "reservations_wf ps rs \<Longrightarrow> funded_keys ps \<subseteq> funded_keys ps' \<Longrightarrow> reservations_wf ps' rs"
  unfolding reservations_wf_def by blast

text \<open>What \<open>create_children\<close> appends: blank open rows whose caps are the allocations.\<close>

definition child_row :: "cut \<Rightarrow> string \<Rightarrow> int \<Rightarrow> PartitionDbRow \<Rightarrow> bool" where
  "child_row k tid now r \<longleftrightarrow>
     (\<exists>pid cid a. cid \<noteq> ROOT_CHILD_ID \<and> usdMicro a \<ge> 0 \<and> r = new_child_row k tid now pid cid a)"

lemma child_row_fields:
  assumes "child_row k tid now r"
  shows "task_id r = tid" and "child_id r \<noteq> ROOT_CHILD_ID" and "blank_row r"
    and "db_status r = ''open''"
  using assms by (auto simp: child_row_def new_child_row_def blank_row_def)

lemma create_children_Cons:
  assumes "create_children k tid now fresh n (a # as) ps = Inr (created, ps')"
    and "\<not> usdMicro a < 0"
  obtains cid ps1 created1 where
    "cid = spec_childId (alloc_child a)" "cid \<noteq> ROOT_CHILD_ID"
    "insertRow (new_child_row k tid now (fresh n) cid a) ps = Inr ps1"
    "create_children k tid now fresh (Suc n) as ps1 = Inr (created1, ps')"
    "created = rowToPartition (new_child_row k tid now (fresh n) cid a) # created1"
  using assms by (auto simp: Let_def dest: sanitizeKey_Inr split: sum.splits prod.splits)

lemma create_children_appends:
  "create_children k tid now fresh n as ps = Inr (created, ps') \<Longrightarrow>
     \<exists>rows. ps' = ps @ rows \<and> created = map rowToPartition rows \<and> list_all (child_row k tid now) rows"
proof (induction as arbitrary: n ps created)
  case Nil
  then show ?case by simp
next
  case (Cons a as)
  show ?case
  proof (cases "usdMicro a < 0")
    case True
    with Cons show ?thesis by auto
  next
    case False
    obtain cid ps1 created1 where c: "cid \<noteq> ROOT_CHILD_ID"
      "insertRow (new_child_row k tid now (fresh n) cid a) ps = Inr ps1"
      "create_children k tid now fresh (Suc n) as ps1 = Inr (created1, ps')"
      "created = rowToPartition (new_child_row k tid now (fresh n) cid a) # created1"
      using Cons.prems False by (rule create_children_Cons)
    have ps1: "ps1 = ps @ [new_child_row k tid now (fresh n) cid a]"
      using c(2) by (simp add: insertRow_def split: if_splits)
    have "child_row k tid now (new_child_row k tid now (fresh n) cid a)"
      unfolding child_row_def using c(1) False by (metis not_less)
    with Cons.IH[OF c(3)] c(4) ps1 show ?thesis
      by (metis append.assoc append_Cons append_Nil list.simps(9) list.pred_inject(2))
  qed
qed

lemma create_children_wf:
  "create_children k tid now fresh n as ps = Inr (created, ps') \<Longrightarrow> table_wf ps \<Longrightarrow>
     (tid, ROOT_CHILD_ID) \<in> funded_keys ps \<Longrightarrow> table_wf ps'"
proof (induction as arbitrary: n ps created)
  case Nil
  then show ?case by simp
next
  case (Cons a as)
  show ?case
  proof (cases "usdMicro a < 0")
    case True
    with Cons show ?thesis by auto
  next
    case False
    obtain cid ps1 created1 where c: "cid \<noteq> ROOT_CHILD_ID"
      "insertRow (new_child_row k tid now (fresh n) cid a) ps = Inr ps1"
      "create_children k tid now fresh (Suc n) as ps1 = Inr (created1, ps')"
      using Cons.prems(1) False by (rule create_children_Cons)
    have row: "blank_row (new_child_row k tid now (fresh n) cid a)"
      "task_id (new_child_row k tid now (fresh n) cid a) = tid"
      by (simp_all add: blank_row_def new_child_row_def)
    note ins = table_wf_insert[OF Cons.prems(2) c(2) row(1)]
    have "table_wf ps1" "(tid, ROOT_CHILD_ID) \<in> funded_keys ps1"
      using ins row(2) Cons.prems(3) by auto
    then show ?thesis using Cons.IH[OF c(3)] by blast
  qed
qed

subsection \<open>Updating rows\<close>

text \<open>A rewrite of rows that keeps keys and consumption keeps the table well-formed.\<close>

lemma map_rows_key: "(\<And>r. row_key (f r) = row_key r) \<Longrightarrow> map row_key (map f ps) = map row_key ps"
  by simp

lemma funded_keys_map: "(\<And>r. row_key (f r) = row_key r) \<Longrightarrow> funded_keys (map f ps) = funded_keys ps"
  by (simp add: image_image)

lemma children_of_map:
  assumes "\<And>r. row_key (f r) = row_key r"
  shows "children_of tid (map f ps) = map f (children_of tid ps)"
proof -
  have "task_id (f r) = task_id r \<and> child_id (f r) = child_id r" for r
    using assms[of r] by (simp add: row_key_def)
  then show ?thesis by (simp add: children_of_def filter_map comp_def)
qed

lemma table_wf_map_status:
  assumes "\<And>r. row_key (f r) = row_key r"
    and "\<And>r. consumed_usd (f r) = consumed_usd r \<and> consumed_tokens (f r) = consumed_tokens r"
    and "table_wf ps"
  shows "table_wf (map f ps)"
proof -
  have keys: "task_id (f r) = task_id r \<and> child_id (f r) = child_id r" for r
    using assms(1)[of r] by (simp add: row_key_def)
  have "settled_usd t (map f ps) = settled_usd t ps \<and> settled_tokens t (map f ps) = settled_tokens t ps" for t
    using assms(1,2) by (simp add: settled_usd_def settled_tokens_def children_of_map comp_def)
  moreover have "rooted (map f ps)" using assms(3) funded_keys_map[OF assms(1)] keys
    by (auto simp: table_wf_def rooted_def)
  moreover have "distinct (map row_key (map f ps))"
    using assms(3) by (simp only: map_rows_key[OF assms(1)] table_wf_def)
  ultimately show ?thesis using assms(2,3) keys by (auto simp: table_wf_def conserved_def)
qed

definition both_bumps :: "string \<Rightarrow> string \<Rightarrow> rat \<Rightarrow> int \<Rightarrow> int \<Rightarrow> PartitionDbRow list \<Rightarrow> PartitionDbRow list" where
  "both_bumps tid cid usd tok now ps =
     bump_consumed tid ROOT_CHILD_ID usd tok now (bump_consumed tid cid usd tok now ps)"

definition bump_row :: "string \<Rightarrow> string \<Rightarrow> rat \<Rightarrow> int \<Rightarrow> int \<Rightarrow> PartitionDbRow \<Rightarrow> PartitionDbRow" where
  "bump_row tid cid usd tok now r =
     (if row_key r = (tid, cid) \<or> row_key r = (tid, ROOT_CHILD_ID)
      then r\<lparr>consumed_usd := consumed_usd r + usd, consumed_tokens := consumed_tokens r + tok,
             updated_at := now\<rparr> else r)"

lemma both_bumps_map:
  "cid \<noteq> ROOT_CHILD_ID \<Longrightarrow> both_bumps tid cid usd tok now ps = map (bump_row tid cid usd tok now) ps"
  by (auto simp: both_bumps_def bump_consumed_def bump_row_def)

lemma bump_row_key [simp]: "row_key (bump_row tid cid usd tok now r) = row_key r"
  by (simp add: bump_row_def row_key_def)

lemma bump_row_fields [simp]:
  "task_id (bump_row tid cid usd tok now r) = task_id r"
  "child_id (bump_row tid cid usd tok now r) = child_id r"
  "cap_usd (bump_row tid cid usd tok now r) = cap_usd r"
  "cap_tokens (bump_row tid cid usd tok now r) = cap_tokens r"
  "db_status (bump_row tid cid usd tok now r) = db_status r"
  by (simp_all add: bump_row_def)

lemma children_keys_distinct:
  "distinct (map row_key ps) \<Longrightarrow> distinct (map row_key (children_of tid ps))"
  by (simp add: children_of_def distinct_map_filter)

lemma settled_bump:
  assumes "distinct (map row_key ps)" and "(tid, cid) \<in> funded_keys ps" and "cid \<noteq> ROOT_CHILD_ID"
  shows "settled_usd t (map (bump_row tid cid usd tok now) ps) =
           settled_usd t ps + (if t = tid then usd else 0)"
    and "settled_tokens t (map (bump_row tid cid usd tok now) ps) =
           settled_tokens t ps + (if t = tid then tok else 0)"
proof -
  let ?cs = "children_of t ps" and ?f = "bump_row tid cid usd tok now"
  have eqs: "settled_usd t (map ?f ps) =
        sum_list (map (\<lambda>r. if row_key r = (tid, cid) then consumed_usd r + usd else consumed_usd r) ?cs)"
    "settled_tokens t (map ?f ps) =
        sum_list (map (\<lambda>r. if row_key r = (tid, cid) then consumed_tokens r + tok else consumed_tokens r) ?cs)"
    unfolding settled_usd_def settled_tokens_def children_of_map[OF bump_row_key]
    by (auto simp: comp_def children_of_def bump_row_def intro!: arg_cong[where f=sum_list] map_cong)
  show "settled_usd t (map ?f ps) = settled_usd t ps + (if t = tid then usd else 0)"
    and "settled_tokens t (map ?f ps) = settled_tokens t ps + (if t = tid then tok else 0)"
  proof -
    consider (mine) "t = tid" | (other) "t \<noteq> tid" by blast
    then have "settled_usd t (map ?f ps) = settled_usd t ps + (if t = tid then usd else 0) \<and>
      settled_tokens t (map ?f ps) = settled_tokens t ps + (if t = tid then tok else 0)"
    proof cases
      case mine
      obtain r where "r \<in> set ?cs" "row_key r = (tid, cid)"
        using assms(2,3) mine by (auto simp: children_of_def)
      note bump = sum_list_bump[OF children_keys_distinct[OF assms(1)] this]
      have "settled_usd t (map ?f ps) = sum_list (map consumed_usd ?cs) + usd"
        and "settled_tokens t (map ?f ps) = sum_list (map consumed_tokens ?cs) + tok"
        unfolding eqs by (rule bump, rule refl)+
      then show ?thesis using mine by (simp add: settled_usd_def settled_tokens_def)
    next
      case other
      then have "(tid, cid) \<notin> row_key ` set ?cs" by (auto simp: children_of_def)
      note bump = sum_list_bump_notin[OF this]
      have "settled_usd t (map ?f ps) = sum_list (map consumed_usd ?cs)"
        and "settled_tokens t (map ?f ps) = sum_list (map consumed_tokens ?cs)"
        unfolding eqs by (rule bump)+
      then show ?thesis using other by (simp add: settled_usd_def settled_tokens_def)
    qed
    then show "settled_usd t (map ?f ps) = settled_usd t ps + (if t = tid then usd else 0)"
      and "settled_tokens t (map ?f ps) = settled_tokens t ps + (if t = tid then tok else 0)"
      by simp_all
  qed
qed

lemma table_wf_bump:
  assumes "table_wf ps" and "(tid, cid) \<in> funded_keys ps" and "cid \<noteq> ROOT_CHILD_ID"
  shows "table_wf (map (bump_row tid cid usd tok now) ps)"
proof -
  let ?f = "bump_row tid cid usd tok now"
  have d: "distinct (map row_key ps)" using assms(1) by (simp add: table_wf_def)
  have "conserved (map ?f ps)"
    using assms(1) settled_bump[OF d assms(2,3)] assms(3)
    by (auto simp: conserved_def table_wf_def bump_row_def)
  moreover have "rooted (map ?f ps)"
    using assms(1) funded_keys_map[of ?f ps] by (auto simp: table_wf_def rooted_def)
  moreover have "distinct (map row_key (map ?f ps))"
    using d by (simp only: map_rows_key[OF bump_row_key])
  ultimately show ?thesis by (simp add: table_wf_def)
qed

lemma reservations_wf_map:
  assumes "\<And>r. res_id (f r) = res_id r \<and> res_task (f r) = res_task r \<and> res_child (f r) = res_child r"
    and "reservations_wf ps rs"
  shows "reservations_wf ps (map f rs)"
proof -
  have ids: "map res_id (map f rs) = map res_id rs" using assms(1) by simp
  show ?thesis using assms unfolding reservations_wf_def ids by auto
qed

lemma reservations_wf_keys:
  "(\<And>r. row_key (f r) = row_key r) \<Longrightarrow> reservations_wf (map f ps) rs \<longleftrightarrow> reservations_wf ps rs"
  unfolding reservations_wf_def by (simp only: funded_keys_map)

lemma sweepStale_wf: "reservations_wf ps rs \<Longrightarrow> reservations_wf ps (sweepStale ttl tid now rs)"
  unfolding sweepStale_def by (rule reservations_wf_map) auto

lemma settle_rows_wf: "reservations_wf ps rs \<Longrightarrow> reservations_wf ps (settle_rows rid usd tok now rs)"
  unfolding settle_rows_def by (rule reservations_wf_map) auto

subsection \<open>What each operation does to the tables\<close>

lemma openTask_effect:
  assumes "openTask t spec pid now led = Inr (x, led')"
  shows "led' = led \<or>
    (\<exists>ps. insertRow (new_root_row t spec pid now) (partitions led) = Inr ps \<and>
       t \<noteq> ROOT_CHILD_ID \<and> led' = led\<lparr>partitions := ps\<rparr>)"
  using assms
  by (auto simp: openTask_def Let_def dest!: sanitizeKey_Inr split: if_splits sum.splits option.splits)

lemma new_root_row_fields [simp]:
  "task_id (new_root_row t spec pid now) = t" "child_id (new_root_row t spec pid now) = ROOT_CHILD_ID"
  "blank_row (new_root_row t spec pid now)" "consumed_usd (new_root_row t spec pid now) = 0"
  "consumed_tokens (new_root_row t spec pid now) = 0"
  by (simp_all add: new_root_row_def blank_row_def)

lemma partition_effect:
  assumes "partition t cs opts now fresh led = Inr (x, led')"
  obtains tid rootRow k as ps where
    "tid = t" "find_partition tid ROOT_CHILD_ID (partitions led) = Some rootRow"
    "k = cut_of opts rootRow (children_of tid (partitions led))"
    "as = fst (enforce_floors k 0 0 (allocate k (filter (\<lambda>c. spec_childId c \<notin>
            set (map child_id (children_of tid (partitions led)))) cs)))"
    "create_children k tid now fresh 0 as (partitions led) =
       Inr (drop (length (children_of tid (partitions led))) (result_children x), ps)"
    "led' = led\<lparr>partitions := ps\<rparr>"
    "result_children x = map rowToPartition (children_of tid (partitions led)) @
       drop (length (children_of tid (partitions led))) (result_children x)"
  using assms
  by (auto simp: partition_def Let_def dest: sanitizeKey_Inr split: if_splits sum.splits option.splits prod.splits)

lemma admit_effect:
  assumes "admit t c usd tok now rid led = Inr (x, led')"
  shows "led' = led \<and> (\<exists>d. x = Denied d) \<or>
    (\<exists>rs. rs = sweepStale (reservationTtlMs led) t now (reservations led) \<and>
      ((\<exists>d. x = Denied d \<and> admission_refusal t c usd tok (partitions led) rs = Some d) \<and>
         led' = led\<lparr>reservations := rs\<rparr> \<or>
       x = Admitted rid \<and> enabled led \<and> c \<noteq> ROOT_CHILD_ID \<and>
       admission_refusal t c usd tok (partitions led) rs = None \<and> rid \<notin> set (map res_id rs) \<and>
       led' = led\<lparr>reservations := rs @
         [\<lparr> res_id = rid, res_task = t, res_child = c, est_usd = usd, est_tokens = tok,
            res_status = Active, res_created = now, res_updated = now \<rparr>]\<rparr>))"
  using assms
  by (auto simp: admit_def Let_def dest!: sanitizeKey_Inr split: if_splits sum.splits option.splits)

lemma commit_effect:
  assumes "commit t c rid usd tok now led = Inr (x, led')"
  shows "led' = led \<or>
    (\<exists>r. find_reservation rid t c (reservations led) = Some r \<and> res_status r = Active \<and>
       c \<noteq> ROOT_CHILD_ID \<and>
       led' = led\<lparr>reservations := settle_rows rid (max 0 usd) (max 0 \<lfloor>tok\<rfloor>) now (reservations led),
                  partitions := both_bumps t c (max 0 usd) (max 0 \<lfloor>tok\<rfloor>) now (partitions led)\<rparr>)"
  using assms
  by (auto simp: commit_def Let_def both_bumps_def dest!: sanitizeKey_Inr
      split: if_splits sum.splits option.splits)

definition release_row :: "string \<Rightarrow> string \<Rightarrow> string \<Rightarrow> int \<Rightarrow> reservation_row \<Rightarrow> reservation_row" where
  "release_row rid tid cid now r =
     (if res_id r = rid \<and> res_task r = tid \<and> res_child r = cid \<and> res_status r = Active
      then r\<lparr>res_status := Released, res_updated := now\<rparr> else r)"

lemma release_effect:
  assumes "release t c rid now led = Inr (x, led')"
  shows "led' = led \<or> led' = led\<lparr>reservations := map (release_row rid t c now) (reservations led)\<rparr>"
  using assms
  by (auto simp: release_def release_row_def[abs_def] dest!: sanitizeKey_Inr split: if_splits sum.splits)

definition close_row :: "string \<Rightarrow> int \<Rightarrow> PartitionDbRow \<Rightarrow> PartitionDbRow" where
  "close_row tid now r =
     (if task_id r = tid \<and> db_status r = ''open''
      then r\<lparr>db_status := ''closed'', updated_at := now\<rparr> else r)"

lemma close_effect:
  assumes "close t now led = Inr (x, led')"
  shows "led' = led \<or> led' = led\<lparr>partitions := map (close_row t now) (partitions led)\<rparr>"
  using assms
  by (auto simp: close_def close_row_def[abs_def] dest!: sanitizeKey_Inr split: if_splits sum.splits)

lemma close_row_fields [simp]:
  "row_key (close_row tid now r) = row_key r"
  "task_id (close_row tid now r) = task_id r" "child_id (close_row tid now r) = child_id r"
  "consumed_usd (close_row tid now r) = consumed_usd r"
  "consumed_tokens (close_row tid now r) = consumed_tokens r"
  "cap_usd (close_row tid now r) = cap_usd r" "cap_tokens (close_row tid now r) = cap_tokens r"
  by (simp_all add: close_row_def row_key_def)

subsection \<open>Every operation keeps the ledger well-formed\<close>

lemma openTask_wf:
  assumes "openTask t spec pid now led = Inr (x, led')" and "ledger_wf led"
  shows "ledger_wf led'"
  using openTask_effect[OF assms(1)]
proof (elim disjE exE conjE)
  fix ps assume ps: "insertRow (new_root_row t spec pid now) (partitions led) = Inr ps"
    and led': "led' = led\<lparr>partitions := ps\<rparr>"
  note wf = assms(2)[unfolded ledger_wf_def]
  note ins = table_wf_insert[OF conjunct1[OF wf] ps]
  have "table_wf ps" "ps = partitions led @ [new_root_row t spec pid now]" using ins by simp_all
  then show ?thesis using wf led' by (auto simp: ledger_wf_def intro: reservations_wf_mono)
qed (use assms(2) in simp)

lemma partition_wf:
  assumes "partition t cs opts now fresh led = Inr (x, led')" and "ledger_wf led"
  shows "ledger_wf led'"
proof -
  obtain rootRow k as ps where r: "find_partition t ROOT_CHILD_ID (partitions led) = Some rootRow"
    "create_children k t now fresh 0 as (partitions led) =
       Inr (drop (length (children_of t (partitions led))) (result_children x), ps)"
    "led' = led\<lparr>partitions := ps\<rparr>"
    using assms(1) by (rule partition_effect) blast
  have "(t, ROOT_CHILD_ID) \<in> funded_keys (partitions led)"
    using find_partition_Some[OF r(1)] by (metis image_eqI row_key_def prod.inject)
  then have "table_wf ps"
    using create_children_wf[OF r(2)] assms(2) by (simp add: ledger_wf_def)
  moreover have "funded_keys (partitions led) \<subseteq> funded_keys ps"
    using create_children_appends[OF r(2)] by auto
  ultimately show ?thesis
    using assms(2) r(3) by (auto simp: ledger_wf_def intro: reservations_wf_mono)
qed

lemma admission_refusal_None:
  assumes "admission_refusal t c usd tok ps rs = None"
  obtains child where "find_partition t c ps = Some child" "db_status child \<noteq> ''closed''"
    "child_check c child (activeTotals t (Some c) rs) (toMicro usd) tok = None"
    "\<And>rootRow. find_partition t ROOT_CHILD_ID ps = Some rootRow \<Longrightarrow>
       root_check t rootRow (children_of t ps) (activeTotals t None rs) (toMicro usd) tok = None"
  using assms by (auto simp: admission_refusal_def split: option.splits if_splits)

lemma admit_wf:
  assumes "admit t c usd tok now rid led = Inr (x, led')" and "ledger_wf led"
  shows "ledger_wf led'"
proof -
  have rs: "reservations_wf (partitions led) (sweepStale ttl t now (reservations led))" for ttl
    using assms(2) by (simp add: ledger_wf_def sweepStale_wf)
  have keys: "(t, c) \<in> funded_keys (partitions led)"
    if "admission_refusal t c usd tok (partitions led) rs = None" for rs
    using that by (rule admission_refusal_None) (metis find_partition_None option.distinct(1))
  show ?thesis
    using admit_effect[OF assms(1)] assms(2) rs keys
    by (auto simp: ledger_wf_def reservations_wf_def)
qed

lemma commit_wf:
  assumes "commit t c rid usd tok now led = Inr (x, led')" and "ledger_wf led"
  shows "ledger_wf led'"
  using commit_effect[OF assms(1)]
proof (elim disjE exE conjE)
  fix r assume r: "find_reservation rid t c (reservations led) = Some r" "c \<noteq> ROOT_CHILD_ID"
    and led': "led' = led\<lparr>reservations := settle_rows rid (max 0 usd) (max 0 \<lfloor>tok\<rfloor>) now (reservations led),
                  partitions := both_bumps t c (max 0 usd) (max 0 \<lfloor>tok\<rfloor>) now (partitions led)\<rparr>"
  have "r \<in> set (reservations led) \<and> res_task r = t \<and> res_child r = c"
    using find_SomeD[OF r(1)[unfolded find_reservation_def]] by simp
  then have "(t, c) \<in> funded_keys (partitions led)"
    using assms(2) by (auto simp: ledger_wf_def reservations_wf_def)
  note wf = table_wf_bump[OF _ this r(2)]
  show ?thesis
    using assms(2) wf led' r(2)
    by (auto simp: ledger_wf_def both_bumps_map reservations_wf_keys[OF bump_row_key] intro!: settle_rows_wf)
qed (use assms(2) in simp)

lemma release_wf:
  "release t c rid now led = Inr (x, led') \<Longrightarrow> ledger_wf led \<Longrightarrow> ledger_wf led'"
  by (drule release_effect)
     (auto simp: ledger_wf_def intro!: reservations_wf_map simp: release_row_def)

lemma close_wf: "close t now led = Inr (x, led') \<Longrightarrow> ledger_wf led \<Longrightarrow> ledger_wf led'"
  by (drule close_effect)
     (auto simp: ledger_wf_def reservations_wf_keys[OF close_row_fields(1)] intro!: table_wf_map_status)

lemma keep_state_wf:
  "(\<And>x led'. r = Inr (x, led') \<Longrightarrow> ledger_wf led') \<Longrightarrow> ledger_wf led \<Longrightarrow> ledger_wf (keep_state led r)"
  by (auto simp: keep_state_def split: sum.splits)

lemma apply_ledger_op_wf: "ledger_wf led \<Longrightarrow> ledger_wf (apply_ledger_op x led)"
  by (cases x)
     (auto intro!: keep_state_wf intro: openTask_wf partition_wf admit_wf commit_wf release_wf close_wf)

interpretation ledger_machine: inv_machine apply_ledger_op ledger_wf
  by unfold_locales (rule apply_ledger_op_wf)

section \<open>Spending against the envelopes\<close>

text \<open>
  \<open>in_flight_usd\<close> and \<open>in_flight_tokens\<close> are the active estimates a row answers for: the
  child's own for a child row, the whole task's for the root row.
\<close>

definition answers_for :: "PartitionDbRow \<Rightarrow> reservation_row \<Rightarrow> bool" where
  "answers_for p r \<longleftrightarrow>
     res_task r = task_id p \<and> (child_id p = ROOT_CHILD_ID \<or> res_child r = child_id p)"

definition act_usd :: "reservation_row \<Rightarrow> rat" where
  "act_usd r = (if res_status r = Active then est_usd r else 0)"

definition act_tokens :: "reservation_row \<Rightarrow> rat" where
  "act_tokens r = (if res_status r = Active then est_tokens r else 0)"

definition in_flight_usd :: "PartitionDbRow \<Rightarrow> reservation_row list \<Rightarrow> rat" where
  "in_flight_usd p rs = sum_list (map act_usd (filter (answers_for p) rs))"

definition in_flight_tokens :: "PartitionDbRow \<Rightarrow> reservation_row list \<Rightarrow> rat" where
  "in_flight_tokens p rs = sum_list (map act_tokens (filter (answers_for p) rs))"

text \<open>
  The ceiling with the rounding of the code's comparisons: two micro-dollars, and half a
  micro-dollar per child for the root, whose children are rounded one by one.
\<close>

definition rounding_slack :: "PartitionDbRow \<Rightarrow> PartitionDbRow list \<Rightarrow> rat" where
  "rounding_slack p ps =
     (2 + (if child_id p = ROOT_CHILD_ID
           then of_nat (length (children_of (task_id p) ps)) / 2 else 0)) / 1000000"

definition usd_within :: "PartitionDbRow \<Rightarrow> ledger \<Rightarrow> bool" where
  "usd_within p led \<longleftrightarrow>
     (toMicro (cap_usd p) > 0 \<longrightarrow>
        consumed_usd p + in_flight_usd p (reservations led)
          \<le> cap_usd p + rounding_slack p (partitions led))"

definition tokens_within :: "PartitionDbRow \<Rightarrow> ledger \<Rightarrow> bool" where
  "tokens_within p led \<longleftrightarrow>
     (cap_tokens p > 0 \<longrightarrow>
        of_int (consumed_tokens p) + in_flight_tokens p (reservations led)
          \<le> of_int (cap_tokens p) + 1 / 2)"

definition within_envelopes :: "ledger \<Rightarrow> bool" where
  "within_envelopes led \<longleftrightarrow> (\<forall>p \<in> set (partitions led). usd_within p led \<and> tokens_within p led)"

definition estimates_nonneg :: "ledger \<Rightarrow> bool" where
  "estimates_nonneg led \<longleftrightarrow>
     (\<forall>r \<in> set (reservations led). 0 \<le> act_usd r \<and> 0 \<le> act_tokens r)"

text \<open>
  A caller is honest when its estimates are not negative and a step it settles has not
  used more than was estimated (the overshoot the source allows is then nil).
\<close>

fun honest_op :: "ledger_op \<Rightarrow> ledger \<Rightarrow> bool" where
  "honest_op (Op_admit t c usd tok now rid) led = (0 \<le> usd \<and> 0 \<le> tok)"
| "honest_op (Op_commit t c rid usd tok now) led =
     (case find_reservation rid t c (reservations led) of
        None \<Rightarrow> True
      | Some r \<Rightarrow> res_status r = Active \<longrightarrow>
          max 0 usd \<le> est_usd r \<and> of_int (max 0 \<lfloor>tok\<rfloor>) \<le> est_tokens r)"
| "honest_op _ led = True"

lemma toMicro_gt: "usd * 1000000 - 1 / 2 < of_int (toMicro usd)"
proof -
  have "usd * 1000000 \<le> max 0 usd * 1000000" by simp
  then show ?thesis using js_round_gt[of "max 0 usd * 1000000"] unfolding toMicro_def by linarith
qed

lemma toMicro_le: "0 < toMicro usd \<Longrightarrow> of_int (toMicro usd) \<le> usd * 1000000 + 1 / 2"
  using js_round_le[of "max 0 usd * 1000000"] unfolding toMicro_def
  by (cases "0 \<le> usd") (simp_all add: max_def)

lemma toMicro_nonneg: "0 \<le> toMicro usd"
  using js_round_mono[of 0 "max 0 usd * 1000000"] by (simp add: toMicro_def)

lemma sum_toMicro_gt:
  "sum_list (map (\<lambda>c. consumed_usd c) cs) * 1000000 - of_nat (length cs) / 2
     \<le> of_int (sum_list (map (\<lambda>c. toMicro (consumed_usd c)) cs))"
proof (induction cs)
  case Nil
  then show ?case by simp
next
  case (Cons c cs)
  show ?case using Cons toMicro_gt[of "consumed_usd c"] by (simp add: algebra_simps add_divide_distrib)
qed

lemma sum_active:
  fixes f :: "reservation_row \<Rightarrow> rat"
  shows "sum_list (map f (filter (\<lambda>r. P r \<and> res_status r = Active) rs)) =
     sum_list (map (\<lambda>r. if res_status r = Active then f r else 0) (filter P rs))"
  by (induction rs) auto

lemma activeTotals_in_flight:
  "activeTotals (task_id p) (if child_id p = ROOT_CHILD_ID then None else Some (child_id p)) rs =
     (toMicro (in_flight_usd p rs), js_round (in_flight_tokens p rs))"
proof -
  have pred: "(\<lambda>r. res_task r = task_id p \<and>
      (case if child_id p = ROOT_CHILD_ID then None else Some (child_id p) of
         None \<Rightarrow> True | Some c \<Rightarrow> res_child r = c) \<and> res_status r = Active) =
      (\<lambda>r. answers_for p r \<and> res_status r = Active)"
    by (auto simp: fun_eq_iff answers_for_def)
  show ?thesis
    unfolding activeTotals_def pred sum_active Let_def in_flight_usd_def in_flight_tokens_def
      act_usd_def[abs_def] act_tokens_def[abs_def] by (rule refl)
qed

text \<open>A granted admission leaves both ceilings respected, whatever happened before.\<close>

lemma child_check_None:
  assumes "child_check c p (toMicro a, js_round b) (toMicro usd) tok = None"
  shows "toMicro (cap_usd p) > 0 \<Longrightarrow> (consumed_usd p + a + usd) * 1000000 \<le> cap_usd p * 1000000 + 2"
    and "cap_tokens p > 0 \<Longrightarrow> of_int (consumed_tokens p) + b + tok \<le> of_int (cap_tokens p) + 1 / 2"
proof -
  assume cap: "toMicro (cap_usd p) > 0"
  have "toMicro (consumed_usd p) + toMicro a + toMicro usd \<le> toMicro (cap_usd p)"
    using assms cap by (auto simp: child_check_def Let_def split: if_splits)
  then have "(of_int (toMicro (consumed_usd p)) + of_int (toMicro a) + of_int (toMicro usd) :: rat)
      \<le> of_int (toMicro (cap_usd p))" by (metis of_int_add of_int_le_iff)
  then show "(consumed_usd p + a + usd) * 1000000 \<le> cap_usd p * 1000000 + 2"
    using toMicro_gt[of "consumed_usd p"] toMicro_gt[of a] toMicro_gt[of usd] toMicro_le[OF cap]
    by (simp add: algebra_simps)
next
  assume "cap_tokens p > 0"
  then have "of_int (consumed_tokens p + js_round b) + tok \<le> of_int (cap_tokens p)"
    using assms by (auto simp: child_check_def Let_def split: if_splits)
  then show "of_int (consumed_tokens p) + b + tok \<le> of_int (cap_tokens p) + 1 / 2"
    using js_round_gt[of b] by simp
qed

lemma root_check_None:
  assumes "root_check t p cs (toMicro a, js_round b) (toMicro usd) tok = None"
  shows "toMicro (cap_usd p) > 0 \<Longrightarrow>
      (sum_list (map consumed_usd cs) + a + usd) * 1000000
        \<le> cap_usd p * 1000000 + 2 + of_nat (length cs) / 2"
    and "cap_tokens p > 0 \<Longrightarrow>
      of_int (sum_list (map consumed_tokens cs)) + b + tok \<le> of_int (cap_tokens p) + 1 / 2"
proof -
  assume cap: "toMicro (cap_usd p) > 0"
  have "sum_list (map (\<lambda>c. toMicro (consumed_usd c)) cs) + toMicro a + toMicro usd \<le> toMicro (cap_usd p)"
    using assms cap by (auto simp: root_check_def Let_def split: if_splits)
  then have "(of_int (sum_list (map (\<lambda>c. toMicro (consumed_usd c)) cs)) + of_int (toMicro a) +
      of_int (toMicro usd) :: rat) \<le> of_int (toMicro (cap_usd p))"
    by (metis of_int_add of_int_le_iff)
  then show "(sum_list (map consumed_usd cs) + a + usd) * 1000000
        \<le> cap_usd p * 1000000 + 2 + of_nat (length cs) / 2"
    using sum_toMicro_gt[of cs] toMicro_gt[of a] toMicro_gt[of usd] toMicro_le[OF cap]
    by (simp add: algebra_simps)
next
  assume "cap_tokens p > 0"
  then have "of_int (sum_list (map consumed_tokens cs) + js_round b) + tok \<le> of_int (cap_tokens p)"
    using assms by (auto simp: root_check_def Let_def split: if_splits)
  then show "of_int (sum_list (map consumed_tokens cs)) + b + tok \<le> of_int (cap_tokens p) + 1 / 2"
    using js_round_gt[of b] by simp
qed

text \<open>Both checks together: the rows that answer for the new estimate are within their caps.\<close>

lemma admitted_within:
  assumes "admission_refusal t c usd tok (partitions led) rs = None" and "ledger_wf led"
    and "p \<in> set (partitions led)" and "task_id p = t" and "child_id p = ROOT_CHILD_ID \<or> child_id p = c"
    and "c \<noteq> ROOT_CHILD_ID"
  shows "toMicro (cap_usd p) > 0 \<Longrightarrow>
      consumed_usd p + in_flight_usd p rs + usd \<le> cap_usd p + rounding_slack p (partitions led)"
    and "cap_tokens p > 0 \<Longrightarrow>
      of_int (consumed_tokens p) + in_flight_tokens p rs + tok \<le> of_int (cap_tokens p) + 1 / 2"
proof -
  have d: "distinct (map row_key (partitions led))" and cons: "conserved (partitions led)"
    using assms(2) by (simp_all add: ledger_wf_def table_wf_def)
  obtain child where child: "find_partition t c (partitions led) = Some child"
    "child_check c child (activeTotals t (Some c) rs) (toMicro usd) tok = None"
    "\<And>rootRow. find_partition t ROOT_CHILD_ID (partitions led) = Some rootRow \<Longrightarrow>
       root_check t rootRow (children_of t (partitions led)) (activeTotals t None rs) (toMicro usd) tok = None"
    using assms(1) by (rule admission_refusal_None) blast
  have found: "find_partition t (child_id p) (partitions led) = Some p"
    using find_partition_unique[OF d assms(3)] assms(4) by simp
  consider (root) "child_id p = ROOT_CHILD_ID" | (child) "child_id p = c" "child_id p \<noteq> ROOT_CHILD_ID"
    using assms(5) by blast
  note split_cases = this
  have usd: "(consumed_usd p + in_flight_usd p rs + usd) * 1000000
      \<le> cap_usd p * 1000000 + rounding_slack p (partitions led) * 1000000"
    if "toMicro (cap_usd p) > 0"
    using split_cases
  proof cases
    case root
    with child(3)[of p] found activeTotals_in_flight[of p rs] assms(4)
    have "root_check t p (children_of t (partitions led)) (toMicro (in_flight_usd p rs),
        js_round (in_flight_tokens p rs)) (toMicro usd) tok = None" by simp
    from root_check_None(1)[OF this that] show ?thesis
      using cons assms(3,4) root
      by (simp add: conserved_def settled_usd_def rounding_slack_def add_divide_distrib)
  next
    case child_row: child
    with child(1,2) found activeTotals_in_flight[of p rs] assms(4)
    have "child_check c p (toMicro (in_flight_usd p rs), js_round (in_flight_tokens p rs)) (toMicro usd) tok = None"
      by simp
    from child_check_None(1)[OF this that] show ?thesis
      using child_row by (simp add: rounding_slack_def)
  qed
  show "toMicro (cap_usd p) > 0 \<Longrightarrow>
      consumed_usd p + in_flight_usd p rs + usd \<le> cap_usd p + rounding_slack p (partitions led)"
    using usd by (simp add: algebra_simps)
  show "of_int (consumed_tokens p) + in_flight_tokens p rs + tok \<le> of_int (cap_tokens p) + 1 / 2"
    if tc: "cap_tokens p > 0"
    using split_cases
  proof cases
    case root
    with child(3)[of p] found activeTotals_in_flight[of p rs] assms(4)
    have "root_check t p (children_of t (partitions led)) (toMicro (in_flight_usd p rs),
        js_round (in_flight_tokens p rs)) (toMicro usd) tok = None" by simp
    from root_check_None(2)[OF this tc] show ?thesis
      using cons assms(3,4) root by (simp add: conserved_def settled_tokens_def)
  next
    case child_row: child
    with child(1,2) found activeTotals_in_flight[of p rs] assms(4)
    have "child_check c p (toMicro (in_flight_usd p rs), js_round (in_flight_tokens p rs)) (toMicro usd) tok = None"
      by simp
    from child_check_None(2)[OF this tc] show ?thesis .
  qed
qed

subsection \<open>The envelopes hold along a run\<close>

lemma in_flight_map_le:
  assumes "\<And>r. answers_for p (f r) = answers_for p r"
    and "\<And>r. r \<in> set rs \<Longrightarrow> act_usd (f r) \<le> act_usd r \<and> act_tokens (f r) \<le> act_tokens r"
  shows "in_flight_usd p (map f rs) \<le> in_flight_usd p rs"
    and "in_flight_tokens p (map f rs) \<le> in_flight_tokens p rs"
  using assms(2) unfolding in_flight_usd_def in_flight_tokens_def filter_map comp_def assms(1)
  by (auto simp: comp_def intro!: sum_list_mono)

lemma in_flight_append:
  "in_flight_usd p (rs @ [r]) = in_flight_usd p rs + (if answers_for p r then act_usd r else 0)"
  "in_flight_tokens p (rs @ [r]) = in_flight_tokens p rs + (if answers_for p r then act_tokens r else 0)"
  by (simp_all add: in_flight_usd_def in_flight_tokens_def)

lemma in_flight_unfunded:
  "reservations_wf ps rs \<Longrightarrow> row_key p \<notin> funded_keys ps \<Longrightarrow> rooted ps \<Longrightarrow>
     in_flight_usd p rs = 0 \<and> in_flight_tokens p rs = 0"
proof -
  assume wf: "reservations_wf ps rs" and new: "row_key p \<notin> funded_keys ps" and rt: "rooted ps"
  have "\<not> answers_for p r" if "r \<in> set rs" for r
  proof
    assume a: "answers_for p r"
    have f: "(res_task r, res_child r) \<in> funded_keys ps" using wf that by (simp add: reservations_wf_def)
    then have "(res_task r, ROOT_CHILD_ID) \<in> funded_keys ps" using rt by (auto simp: rooted_def)
    then show False using a f new by (auto simp: answers_for_def row_key_def)
  qed
  then have "filter (answers_for p) rs = []" by (simp add: filter_empty_conv)
  then show "in_flight_usd p rs = 0 \<and> in_flight_tokens p rs = 0"
    by (simp add: in_flight_usd_def in_flight_tokens_def)
qed

lemma cap_nonneg_of_toMicro: "0 < toMicro usd \<Longrightarrow> 0 \<le> usd"
  by (rule ccontr) (simp add: toMicro_def max_def js_round_def)

lemma rounding_slack_nonneg: "0 \<le> rounding_slack p ps"
  by (simp add: rounding_slack_def)

text \<open>New blank rows appended to the table leave every row within its envelope.\<close>

lemma within_append:
  assumes "within_envelopes led" and "ledger_wf led" and "table_wf (partitions led @ rows)"
    and "list_all blank_row rows"
  shows "within_envelopes (led\<lparr>partitions := partitions led @ rows\<rparr>)"
proof -
  have slack: "rounding_slack p (partitions led) \<le> rounding_slack p (partitions led @ rows)" for p
    by (simp add: rounding_slack_def divide_right_mono)
  have old: "usd_within p (led\<lparr>partitions := partitions led @ rows\<rparr>) \<and>
      tokens_within p (led\<lparr>partitions := partitions led @ rows\<rparr>)" if "p \<in> set (partitions led)" for p
    using assms(1) that slack[of p]
    by (auto simp: within_envelopes_def usd_within_def tokens_within_def intro: order_trans)
  have new: "usd_within p (led\<lparr>partitions := partitions led @ rows\<rparr>) \<and>
      tokens_within p (led\<lparr>partitions := partitions led @ rows\<rparr>)" if "p \<in> set rows" for p
  proof -
    have "row_key p \<notin> funded_keys (partitions led)"
      using assms(3) that by (auto simp: table_wf_def)
    then have "in_flight_usd p (reservations led) = 0 \<and> in_flight_tokens p (reservations led) = 0"
      using in_flight_unfunded[of "partitions led" "reservations led" p] assms(2)
      unfolding ledger_wf_def table_wf_def by blast
    moreover have "blank_row p" using assms(4) that by (simp add: list_all_iff)
    ultimately show ?thesis
      using rounding_slack_nonneg cap_nonneg_of_toMicro
      by (simp add: usd_within_def tokens_within_def blank_row_def)
  qed
  show ?thesis using old new unfolding within_envelopes_def by auto
qed

text \<open>Reservations that only shrink keep every row within its envelope.\<close>

lemma within_shrink:
  assumes "within_envelopes led"
    and "\<And>p. p \<in> set (partitions led) \<Longrightarrow>
      in_flight_usd p rs \<le> in_flight_usd p (reservations led) \<and>
      in_flight_tokens p rs \<le> in_flight_tokens p (reservations led)"
  shows "within_envelopes (led\<lparr>reservations := rs\<rparr>)"
  using assms by (fastforce simp: within_envelopes_def usd_within_def tokens_within_def)

text \<open>Sweeping and releasing retire reservations: rows become inactive and change no further.\<close>

definition retires :: "(reservation_row \<Rightarrow> reservation_row) \<Rightarrow> bool" where
  "retires f \<longleftrightarrow>
     (\<forall>r. f r = r \<or> (\<exists>st d. st \<noteq> Active \<and> f r = r\<lparr>res_status := st, res_updated := d\<rparr>))"

lemma retires_row:
  assumes "retires f"
  shows "answers_for p (f r) = answers_for p r"
    and "act_usd (f r) = act_usd r \<or> act_usd (f r) = 0"
    and "act_tokens (f r) = act_tokens r \<or> act_tokens (f r) = 0"
proof -
  consider "f r = r" | st d where "st \<noteq> Active" "f r = r\<lparr>res_status := st, res_updated := d\<rparr>"
    using assms by (metis retires_def)
  then have "answers_for p (f r) = answers_for p r \<and> (act_usd (f r) = act_usd r \<or> act_usd (f r) = 0) \<and>
      (act_tokens (f r) = act_tokens r \<or> act_tokens (f r) = 0)"
    by cases (simp_all add: answers_for_def act_usd_def act_tokens_def)
  then show "answers_for p (f r) = answers_for p r" "act_usd (f r) = act_usd r \<or> act_usd (f r) = 0"
    "act_tokens (f r) = act_tokens r \<or> act_tokens (f r) = 0" by blast+
qed

lemma retires_shrinks:
  assumes "retires f" and "estimates_nonneg led"
  shows "in_flight_usd p (map f (reservations led)) \<le> in_flight_usd p (reservations led)"
    and "in_flight_tokens p (map f (reservations led)) \<le> in_flight_tokens p (reservations led)"
    and "estimates_nonneg (led\<lparr>reservations := map f (reservations led)\<rparr>)"
proof -
  have le: "act_usd (f r) \<le> act_usd r \<and> act_tokens (f r) \<le> act_tokens r \<and>
      0 \<le> act_usd (f r) \<and> 0 \<le> act_tokens (f r)" if "r \<in> set (reservations led)" for r
  proof -
    have nn: "0 \<le> act_usd r" "0 \<le> act_tokens r"
      using assms(2) that by (auto simp: estimates_nonneg_def)
    from retires_row(2)[OF assms(1), of r] retires_row(3)[OF assms(1), of r] nn
    show ?thesis by auto
  qed
  show "in_flight_usd p (map f (reservations led)) \<le> in_flight_usd p (reservations led)"
    and "in_flight_tokens p (map f (reservations led)) \<le> in_flight_tokens p (reservations led)"
    by (rule in_flight_map_le[OF retires_row(1)[OF assms(1)]], simp add: le)+
  show "estimates_nonneg (led\<lparr>reservations := map f (reservations led)\<rparr>)"
    using le by (simp add: estimates_nonneg_def)
qed

definition sweep_row :: "int \<Rightarrow> string \<Rightarrow> int \<Rightarrow> reservation_row \<Rightarrow> reservation_row" where
  "sweep_row ttl tid now r =
     (if res_task r = tid \<and> res_status r = Active \<and> res_created r < now - ttl
      then r\<lparr>res_status := Expired, res_updated := now\<rparr> else r)"

lemma sweepStale_map: "sweepStale ttl tid now rs = map (sweep_row ttl tid now) rs"
  by (simp add: sweepStale_def sweep_row_def[abs_def])

lemma retires_sweep: "retires (sweep_row ttl tid now)"
  unfolding retires_def sweep_row_def by (metis reservation_status.distinct(5))

lemma retires_release: "retires (release_row rid tid cid now)"
  unfolding retires_def release_row_def by (metis reservation_status.distinct(3))

lemmas sweep_shrinks = retires_shrinks[OF retires_sweep, folded sweepStale_map]
lemmas release_shrinks = retires_shrinks[OF retires_release]

definition spending_ok :: "ledger \<Rightarrow> bool" where
  "spending_ok led \<longleftrightarrow> within_envelopes led \<and> estimates_nonneg led"

lemma admit_spending:
  assumes "admit t c usd tok now rid led = Inr (x, led')" and "ledger_wf led"
    and "spending_ok led" and "0 \<le> usd" and "0 \<le> tok"
  shows "spending_ok led'"
proof -
  let ?rs = "sweepStale (reservationTtlMs led) t now (reservations led)"
  let ?swept = "led\<lparr>reservations := ?rs\<rparr>"
  let ?new = "\<lparr> res_id = rid, res_task = t, res_child = c, est_usd = usd, est_tokens = tok,
            res_status = Active, res_created = now, res_updated = now \<rparr>"
  have nn: "estimates_nonneg led" and we: "within_envelopes led"
    using assms(3) by (simp_all add: spending_ok_def)
  have swept: "spending_ok ?swept"
    using within_shrink[OF we, of ?rs] sweep_shrinks[OF nn] by (simp add: spending_ok_def)
  consider "led' = led" | "led' = ?swept"
    | "c \<noteq> ROOT_CHILD_ID" "admission_refusal t c usd tok (partitions led) ?rs = None"
      "led' = led\<lparr>reservations := ?rs @ [?new]\<rparr>"
    using admit_effect[OF assms(1)] by metis
  then show ?thesis
  proof cases
    case 3
    have "usd_within p led' \<and> tokens_within p led'" if p: "p \<in> set (partitions led)" for p
    proof (cases "answers_for p ?new")
      case True
      then have "task_id p = t" "child_id p = ROOT_CHILD_ID \<or> child_id p = c"
        by (auto simp: answers_for_def)
      with admitted_within[OF 3(2) assms(2) p this 3(1)] True show ?thesis
        unfolding usd_within_def tokens_within_def 3(3)
        by (simp add: in_flight_append act_usd_def act_tokens_def add.assoc)
    next
      case False
      with swept p show ?thesis
        unfolding usd_within_def tokens_within_def 3(3) spending_ok_def within_envelopes_def
        by (simp add: in_flight_append)
    qed
    moreover have "estimates_nonneg led'"
      using swept assms(4,5) 3(3) by (auto simp: spending_ok_def estimates_nonneg_def act_usd_def act_tokens_def)
    ultimately show ?thesis by (simp add: spending_ok_def within_envelopes_def 3(3))
  qed (use assms(3) swept in auto)
qed

text \<open>Settling takes the reservation's estimate out of flight for the rows that answer for it.\<close>

lemma settle_flight:
  assumes "distinct (map res_id rs)" and "r \<in> set rs" and "res_id r = rid" and "res_status r = Active"
  shows "in_flight_usd p (settle_rows rid usd tok now rs) =
      in_flight_usd p rs - (if answers_for p r then est_usd r else 0)"
    and "in_flight_tokens p (settle_rows rid usd tok now rs) =
      in_flight_tokens p rs - (if answers_for p r then est_tokens r else 0)"
proof -
  let ?g = "\<lambda>q. if answers_for p q then act_usd q else 0"
    and ?h = "\<lambda>q. if answers_for p q then act_tokens q else 0"
  note bump = sum_list_bump[OF assms(1-3)]
  have "in_flight_usd p (settle_rows rid usd tok now rs) =
        sum_list (map (\<lambda>q. if res_id q = rid then 0 else ?g q) rs)"
    and "in_flight_tokens p (settle_rows rid usd tok now rs) =
        sum_list (map (\<lambda>q. if res_id q = rid then 0 else ?h q) rs)"
    unfolding in_flight_usd_def in_flight_tokens_def sum_list_if_filter settle_rows_def
    by (auto simp: comp_def answers_for_def act_usd_def act_tokens_def
        intro!: arg_cong[where f=sum_list] map_cong)
  moreover have "sum_list (map (\<lambda>q. if res_id q = rid then 0 else ?g q) rs) =
        sum_list (map ?g rs) + (- (if answers_for p r then est_usd r else 0))"
    by (rule bump) (simp add: act_usd_def assms(4))
  moreover have "sum_list (map (\<lambda>q. if res_id q = rid then 0 else ?h q) rs) =
        sum_list (map ?h rs) + (- (if answers_for p r then est_tokens r else 0))"
    by (rule bump) (simp add: act_tokens_def assms(4))
  ultimately show "in_flight_usd p (settle_rows rid usd tok now rs) =
      in_flight_usd p rs - (if answers_for p r then est_usd r else 0)"
    and "in_flight_tokens p (settle_rows rid usd tok now rs) =
      in_flight_tokens p rs - (if answers_for p r then est_tokens r else 0)"
    unfolding in_flight_usd_def in_flight_tokens_def sum_list_if_filter by simp_all
qed

lemma commit_spending:
  assumes "commit t c rid usd tok now led = Inr (x, led')" and "ledger_wf led"
    and "spending_ok led" and "honest_op (Op_commit t c rid usd tok now) led"
  shows "spending_ok led'"
  using commit_effect[OF assms(1)]
proof (elim disjE exE conjE)
  fix r assume found: "find_reservation rid t c (reservations led) = Some r" and act: "res_status r = Active"
    and c: "c \<noteq> ROOT_CHILD_ID"
    and led': "led' = led\<lparr>reservations := settle_rows rid (max 0 usd) (max 0 \<lfloor>tok\<rfloor>) now (reservations led),
                  partitions := both_bumps t c (max 0 usd) (max 0 \<lfloor>tok\<rfloor>) now (partitions led)\<rparr>"
  let ?u = "max 0 usd" and ?k = "max 0 \<lfloor>tok\<rfloor>" and ?rs = "reservations led"
  let ?b = "bump_row t c ?u ?k now"
  have r: "r \<in> set ?rs" "res_id r = rid" "res_task r = t" "res_child r = c"
    using find_SomeD[OF found[unfolded find_reservation_def]] by simp_all
  have d: "distinct (map res_id ?rs)" using assms(2) by (simp add: ledger_wf_def reservations_wf_def)
  have honest: "?u \<le> est_usd r" "of_int ?k \<le> est_tokens r"
    using assms(4) found act by simp_all
  note flight = settle_flight[OF d r(1,2) act]
  have ps': "partitions led' = map ?b (partitions led)" using led' c by (simp add: both_bumps_map)
  have "usd_within (?b p) led' \<and> tokens_within (?b p) led'" if p: "p \<in> set (partitions led)" for p
  proof -
    have ans: "answers_for (?b p) = answers_for p" by (simp add: answers_for_def fun_eq_iff)
    have fl: "in_flight_usd (?b p) rs = in_flight_usd p rs" "in_flight_tokens (?b p) rs = in_flight_tokens p rs" for rs
      by (simp_all add: in_flight_usd_def in_flight_tokens_def ans)
    have sl: "rounding_slack (?b p) (partitions led') = rounding_slack p (partitions led)"
      by (simp add: rounding_slack_def ps' children_of_map)
    have hit: "answers_for p r \<longleftrightarrow> row_key p = (t, c) \<or> row_key p = (t, ROOT_CHILD_ID)"
      using r by (auto simp: answers_for_def)
    have bump: "consumed_usd (?b p) = consumed_usd p + (if answers_for p r then ?u else 0)"
      "consumed_tokens (?b p) = consumed_tokens p + (if answers_for p r then ?k else 0)"
      unfolding hit by (simp_all add: bump_row_def)
    have "usd_within p led" "tokens_within p led"
      using assms(3) p by (auto simp: spending_ok_def within_envelopes_def)
    then show ?thesis
      using honest unfolding usd_within_def tokens_within_def fl sl bump
      by (cases "answers_for p r") (auto simp: led' flight)
  qed
  moreover have "estimates_nonneg led'"
    using assms(3) by (auto simp: led' spending_ok_def estimates_nonneg_def settle_rows_def act_usd_def act_tokens_def)
  ultimately show ?thesis by (simp add: spending_ok_def within_envelopes_def ps')
qed (use assms(3) in simp)

lemma release_spending:
  assumes "release t c rid now led = Inr (x, led')" and "spending_ok led"
  shows "spending_ok led'"
  using release_effect[OF assms(1)] assms(2)
    within_shrink[of led "map (release_row rid t c now) (reservations led)"]
    release_shrinks[of led]
  by (auto simp: spending_ok_def)

lemma close_spending:
  assumes "close t now led = Inr (x, led')" and "spending_ok led"
  shows "spending_ok led'"
proof -
  have fl: "in_flight_usd (close_row t now p) rs = in_flight_usd p rs"
    "in_flight_tokens (close_row t now p) rs = in_flight_tokens p rs" for p rs
    by (simp_all add: in_flight_usd_def in_flight_tokens_def answers_for_def[abs_def])
  have sl: "rounding_slack (close_row t now p) (map (close_row t now) ps) = rounding_slack p ps" for p ps
    by (simp add: rounding_slack_def children_of_map)
  show ?thesis
    using close_effect[OF assms(1)] assms(2)
    by (auto simp: spending_ok_def within_envelopes_def usd_within_def tokens_within_def fl sl
        estimates_nonneg_def)
qed

lemma append_spending:
  assumes "spending_ok led" and "ledger_wf led" and "ledger_wf (led\<lparr>partitions := partitions led @ rows\<rparr>)"
    and "list_all blank_row rows"
  shows "spending_ok (led\<lparr>partitions := partitions led @ rows\<rparr>)"
  using within_append[OF _ assms(2) _ assms(4)] assms(1,3)
  by (simp add: spending_ok_def ledger_wf_def estimates_nonneg_def)

lemma openTask_spending:
  assumes "openTask t spec pid now led = Inr (x, led')" and "ledger_wf led" and "spending_ok led"
  shows "spending_ok led'"
proof -
  have "led' = led \<or> led' = led\<lparr>partitions := partitions led @ [new_root_row t spec pid now]\<rparr>"
    using openTask_effect[OF assms(1)] by (auto simp: insertRow_def split: if_splits)
  then show ?thesis
    using append_spending[OF assms(3,2), of "[new_root_row t spec pid now]"] openTask_wf[OF assms(1,2)] assms(3)
    by auto
qed

lemma partition_appends:
  assumes "partition t cs opts now fresh led = Inr (x, led')"
  obtains rows k where "led' = led\<lparr>partitions := partitions led @ rows\<rparr>" "list_all (child_row k t now) rows"
    "result_children x = map rowToPartition (children_of t (partitions led)) @ map rowToPartition rows"
proof -
  obtain k as ps where r:
    "create_children k t now fresh 0 as (partitions led) =
       Inr (drop (length (children_of t (partitions led))) (result_children x), ps)"
    "led' = led\<lparr>partitions := ps\<rparr>"
    "result_children x = map rowToPartition (children_of t (partitions led)) @
       drop (length (children_of t (partitions led))) (result_children x)"
    using assms by (rule partition_effect) blast
  show ?thesis using create_children_appends[OF r(1)] r(2,3) that by metis
qed

lemma partition_spending:
  assumes "partition t cs opts now fresh led = Inr (x, led')" and "ledger_wf led" and "spending_ok led"
  shows "spending_ok led'"
proof -
  obtain rows k where rows: "led' = led\<lparr>partitions := partitions led @ rows\<rparr>"
    "list_all (child_row k t now) rows"
    using assms(1) by (rule partition_appends)
  have "list_all blank_row rows"
    using rows(2) child_row_fields(3) unfolding list_all_iff by blast
  then show ?thesis
    using append_spending[OF assms(3,2), of rows] partition_wf[OF assms(1,2)] rows(1) by simp
qed

lemma keep_state_spending:
  "(\<And>x led'. r = Inr (x, led') \<Longrightarrow> spending_ok led') \<Longrightarrow> spending_ok led \<Longrightarrow> spending_ok (keep_state led r)"
  by (auto simp: keep_state_def split: sum.splits)

lemma apply_ledger_op_spending:
  "ledger_wf led \<Longrightarrow> spending_ok led \<Longrightarrow> honest_op x led \<Longrightarrow> spending_ok (apply_ledger_op x led)"
  by (cases x)
     (auto intro!: keep_state_spending simp del: honest_op.simps(2)
        intro: openTask_spending partition_spending admit_spending commit_spending release_spending close_spending)

interpretation ledger_spending: guarded_machine apply_ledger_op ledger_wf honest_op spending_ok
  by unfold_locales (rule apply_ledger_op_spending)

section \<open>Ledgers reached from an empty store\<close>

definition empty_ledger :: ledger where
  "empty_ledger =
     \<lparr> enabled = True, reservationTtlMs = DEFAULT_PARTITION_RESERVATION_TTL_MS,
       partitions = [], reservations = [] \<rparr>"

lemma empty_ledger_ok: "ledger_wf empty_ledger" "spending_ok empty_ledger"
  by (simp_all add: ledger_wf_def table_wf_def rooted_def conserved_def reservations_wf_def
      spending_ok_def within_envelopes_def estimates_nonneg_def empty_ledger_def)

lemmas reached_wf = ledger_machine.run_inv[OF empty_ledger_ok(1)]

text \<open>A small tree: a root of one dollar and 100000 tokens, two equal children.\<close>

definition demo_ids :: "nat \<Rightarrow> string" where
  "demo_ids n = (if n = 0 then ''bp_1'' else if n = 1 then ''bp_2'' else ''bp_3'')"

definition demo_opts :: partition_opts where
  "demo_opts = \<lparr> floorUsd = None, opt_floorTokens = None \<rparr>"

definition demo_child :: "string \<Rightarrow> rat \<Rightarrow> ChildSpec" where
  "demo_child c w = \<lparr> spec_childId = c, spec_agentId = None, weight = w \<rparr>"

definition demo_tree :: "ledger_op list" where
  "demo_tree =
     [Op_open ''t'' \<lparr> spec_capUsd = Some 1, spec_capTokens = Some 100000 \<rparr> ''bp_0'' 1,
      Op_partition ''t'' [demo_child ''a'' 1, demo_child ''b'' 1] demo_opts 2 demo_ids]"

definition demo_spend :: "ledger_op list" where
  "demo_spend =
     demo_tree @
     [Op_admit ''t'' ''a'' (1 / 4) 2000 3 ''pr_1'',
      Op_commit ''t'' ''a'' ''pr_1'' (1 / 5) 1500 4,
      Op_admit ''t'' ''b'' (1 / 2) 3000 5 ''pr_2'']"

definition demo_ledger :: "ledger_op list \<Rightarrow> ledger" where
  "demo_ledger ops = exec_ops apply_ledger_op ops empty_ledger"

definition child_caps_micro :: "string \<Rightarrow> ledger \<Rightarrow> int" where
  "child_caps_micro t led = sum_list (map (\<lambda>c. toMicro (cap_usd c)) (children_of t (partitions led)))"

section \<open>Properties\<close>

text \<open>C8: However operations interleave, as long as estimates are not negative and steps settle within them, no child and no root ever holds more settled plus in-flight spend than its ceiling, up to the rounding of the comparisons.\<close>

theorem spend_stays_within_envelopes:
  assumes "guarded_run apply_ledger_op honest_op ops empty_ledger"
    and "led = exec_ops apply_ledger_op ops empty_ledger" and "p \<in> set (partitions led)"
  shows "(toMicro (cap_usd p) > 0 \<longrightarrow>
      consumed_usd p + in_flight_usd p (reservations led) \<le> cap_usd p + rounding_slack p (partitions led)) \<and>
    (cap_tokens p > 0 \<longrightarrow>
      of_int (consumed_tokens p) + in_flight_tokens p (reservations led) \<le> of_int (cap_tokens p) + 1 / 2)"
  using ledger_spending.run_guarded[OF empty_ledger_ok assms(1)] assms(2,3)
  by (auto simp: spending_ok_def within_envelopes_def usd_within_def tokens_within_def)

lemma demo_spend_honest: "guarded_run apply_ledger_op honest_op demo_spend empty_ledger"
  by code_simp

lemma demo_spend_rows:
  "map (\<lambda>r. (child_id r, cap_usd r, cap_tokens r, consumed_usd r)) (partitions (demo_ledger demo_spend)) =
     [(''@root'', 1, 100000, 1 / 5), (''a'', 1 / 2, 50000, 1 / 5), (''b'', 1 / 2, 50000, 0)]"
  by code_simp

theorem spend_stays_within_envelopes_witness:
  "\<exists>p. p \<in> set (partitions (demo_ledger demo_spend)) \<and>
     consumed_usd p + in_flight_usd p (reservations (demo_ledger demo_spend))
       \<le> cap_usd p + rounding_slack p (partitions (demo_ledger demo_spend))"
proof -
  let ?p = "partitions (demo_ledger demo_spend) ! 1"
  have p: "?p \<in> set (partitions (demo_ledger demo_spend))" and cap: "toMicro (cap_usd ?p) > 0"
    by code_simp+
  from spend_stays_within_envelopes[OF demo_spend_honest demo_ledger_def p] cap
  show ?thesis using p by blast
qed

text \<open>C31: Whatever callers do, the root row's consumption is exactly the sum of what its children have settled, in dollars and in tokens, with dollar amounts added exactly (the database adds them as floating point numbers).\<close>

theorem root_consumption_is_sum_of_children:
  assumes "led = exec_ops apply_ledger_op ops empty_ledger"
    and "p \<in> set (partitions led)" and "child_id p = ROOT_CHILD_ID"
  shows "consumed_usd p = sum_list (map consumed_usd (children_of (task_id p) (partitions led))) \<and>
    consumed_tokens p = sum_list (map consumed_tokens (children_of (task_id p) (partitions led)))"
  using reached_wf[of ops] assms
  by (auto simp: ledger_wf_def table_wf_def conserved_def settled_usd_def settled_tokens_def)

theorem root_consumption_is_sum_of_children_witness:
  "consumed_usd (hd (partitions (demo_ledger demo_spend))) =
     sum_list (map consumed_usd (children_of ''t'' (partitions (demo_ledger demo_spend))))"
proof -
  let ?p = "hd (partitions (demo_ledger demo_spend))"
  have p: "?p \<in> set (partitions (demo_ledger demo_spend))" "child_id ?p = ROOT_CHILD_ID" "task_id ?p = ''t''"
    by code_simp+
  from root_consumption_is_sum_of_children[OF demo_ledger_def p(1,2)] p(3) show ?thesis by simp
qed

lemma granted_within:
  assumes "ledger_wf led" and "admit t c usd tok now rid led = Inr (Admitted i, led')"
    and "p \<in> set (partitions led')" and "task_id p = t" and "child_id p = ROOT_CHILD_ID \<or> child_id p = c"
  shows "usd_within p led' \<and> tokens_within p led'"
proof -
  let ?rs = "sweepStale (reservationTtlMs led) t now (reservations led)"
  let ?new = "\<lparr> res_id = rid, res_task = t, res_child = c, est_usd = usd, est_tokens = tok,
            res_status = Active, res_created = now, res_updated = now \<rparr>"
  have e: "c \<noteq> ROOT_CHILD_ID" "admission_refusal t c usd tok (partitions led) ?rs = None"
    "led' = led\<lparr>reservations := ?rs @ [?new]\<rparr>"
    using admit_effect[OF assms(2)] by auto
  have "p \<in> set (partitions led)" using assms(3) e(3) by simp
  moreover have "answers_for p ?new" using assms(4,5) by (auto simp: answers_for_def)
  ultimately show ?thesis
    using admitted_within[OF e(2) assms(1) _ assms(4,5) e(1)]
    unfolding usd_within_def tokens_within_def e(3)
    by (simp add: in_flight_append act_usd_def act_tokens_def add.assoc)
qed

text \<open>A granted admission leaves the child and the root of its task within their ceilings, even after callers that overshot or estimated negatively.\<close>

theorem granted_admission_respects_both_ceilings:
  assumes "led = exec_ops apply_ledger_op ops empty_ledger"
    and "admit t c usd tok now rid led = Inr (Admitted i, led')"
    and "p \<in> set (partitions led')" and "task_id p = t" and "child_id p = ROOT_CHILD_ID \<or> child_id p = c"
  shows "usd_within p led' \<and> tokens_within p led'"
  using granted_within[OF _ assms(2-5)] reached_wf[of ops] assms(1) by simp

theorem granted_admission_respects_both_ceilings_witness:
  "\<exists>led' p. admit ''t'' ''a'' (1 / 4) 2000 3 ''pr_1'' (demo_ledger demo_tree) = Inr (Admitted ''pr_1'', led') \<and>
     p \<in> set (partitions led') \<and> usd_within p led'"
proof -
  let ?led = "apply_ledger_op (Op_admit ''t'' ''a'' (1 / 4) 2000 3 ''pr_1'') (demo_ledger demo_tree)"
  have ok: "(case admit ''t'' ''a'' (1 / 4) 2000 3 ''pr_1'' (demo_ledger demo_tree) of
      Inr (Admitted i, _) \<Rightarrow> i = ''pr_1'' | _ \<Rightarrow> False)" by code_simp
  then obtain led' where a: "admit ''t'' ''a'' (1 / 4) 2000 3 ''pr_1'' (demo_ledger demo_tree) =
      Inr (Admitted ''pr_1'', led')"
    by (auto split: sum.splits prod.splits AdmitResult.splits)
  then have led': "led' = ?led" by (simp add: keep_state_def)
  have p: "partitions ?led ! 1 \<in> set (partitions ?led)" "task_id (partitions ?led ! 1) = ''t''"
    "child_id (partitions ?led ! 1) = ''a''" by code_simp+
  show ?thesis
    using granted_admission_respects_both_ceilings[OF demo_ledger_def a] p a unfolding led' by blast
qed

text \<open>A child without a partition, and a child whose partition is closed, is refused whatever it estimates, and the partitions are untouched.\<close>

theorem unfunded_or_closed_child_refused:
  assumes "enabled led" and "sanitizeKey t = Inr t" and "sanitizeKey c = Inr c"
    and "case find_partition t c (partitions led) of None \<Rightarrow> True | Some p \<Rightarrow> db_status p = ''closed''"
  shows "\<exists>d led'. admit t c usd tok now rid led = Inr (Denied d, led') \<and>
    (d = NeverFunded c \<or> d = PartitionIsClosed c) \<and> partitions led' = partitions led \<and>
    map res_id (reservations led') = map res_id (reservations led)"
  using assms
  by (auto simp: admit_def admission_refusal_def Let_def sweepStale_def comp_def if_distrib[of res_id]
      split: option.splits cong: if_cong)

theorem unfunded_or_closed_child_refused_witness:
  "\<exists>d led'. admit ''t'' ''zz'' 0 0 9 ''pr_9'' (demo_ledger demo_tree) = Inr (Denied d, led') \<and>
     partitions led' = partitions (demo_ledger demo_tree)"
proof -
  have "enabled (demo_ledger demo_tree)" "sanitizeKey ''t'' = Inr ''t''" "sanitizeKey ''zz'' = Inr ''zz''"
    "find_partition ''t'' ''zz'' (partitions (demo_ledger demo_tree)) = None"
    by code_simp+
  with unfunded_or_closed_child_refused[of "demo_ledger demo_tree" "''t''" "''zz''" 0 0 9 "''pr_9''"]
  show ?thesis by auto
qed

text \<open>A successful partition call keeps every existing row as it is and appends open, unspent rows for new children only; when every named child is already funded it changes nothing.\<close>

theorem partition_never_recuts:
  assumes "partition t cs opts now fresh led = Inr (x, led')"
  shows "(\<exists>rows. partitions led' = partitions led @ rows \<and> reservations led' = reservations led \<and>
      list_all (\<lambda>r. task_id r = t \<and> consumed_usd r = 0 \<and> consumed_tokens r = 0 \<and> db_status r = ''open'') rows \<and>
      result_children x = map rowToPartition (children_of t (partitions led) @ rows)) \<and>
    (spec_childId ` set cs \<subseteq> child_id ` set (children_of t (partitions led)) \<longrightarrow> led' = led)"
proof -
  obtain rows k where rows: "led' = led\<lparr>partitions := partitions led @ rows\<rparr>" "list_all (child_row k t now) rows"
    "result_children x = map rowToPartition (children_of t (partitions led)) @ map rowToPartition rows"
    using assms by (rule partition_appends)
  have "list_all (\<lambda>r. task_id r = t \<and> consumed_usd r = 0 \<and> consumed_tokens r = 0 \<and> db_status r = ''open'') rows"
    using rows(2) child_row_fields unfolding list_all_iff blank_row_def by blast
  moreover have "led' = led" if all: "spec_childId ` set cs \<subseteq> child_id ` set (children_of t (partitions led))"
  proof -
    have none: "filter (\<lambda>c. spec_childId c \<notin> set (map child_id (children_of t (partitions led)))) cs = []"
      using all by (auto simp: filter_empty_conv)
    show ?thesis using assms
      by (rule partition_effect) (use none in \<open>auto simp: allocate_def\<close>)
  qed
  ultimately show ?thesis using rows(1,3) by auto
qed

theorem partition_never_recuts_witness:
  "\<exists>x led'. partition ''t'' [demo_child ''a'' 5] demo_opts 7 demo_ids (demo_ledger demo_tree) = Inr (x, led') \<and>
     led' = demo_ledger demo_tree"
proof -
  have "\<not> Option.is_none (case partition ''t'' [demo_child ''a'' 5] demo_opts 7 demo_ids (demo_ledger demo_tree) of
      Inl _ \<Rightarrow> None | Inr r \<Rightarrow> Some r)" by code_simp
  then obtain x led' where r:
    "partition ''t'' [demo_child ''a'' 5] demo_opts 7 demo_ids (demo_ledger demo_tree) = Inr (x, led')"
    by (auto split: sum.splits)
  have "spec_childId ` set [demo_child ''a'' 5] \<subseteq> child_id ` set (children_of ''t'' (partitions (demo_ledger demo_tree)))"
    by code_simp
  with partition_never_recuts[OF r] r show ?thesis by blast
qed

lemma find_settled:
  assumes "find_reservation rid t c rs = Some r"
  shows "\<exists>r'. find_reservation rid t c (settle_rows rid usd tok now rs) = Some r' \<and> res_status r' = Settled"
proof -
  let ?f = "\<lambda>r. if res_id r = rid
              then r\<lparr>res_status := Settled, est_usd := usd, est_tokens := of_int tok, res_updated := now\<rparr> else r"
  have "find_reservation rid t c (map ?f rs) = map_option ?f (find_reservation rid t c rs)"
    unfolding find_reservation_def by (rule find_map_keep) simp
  moreover have "res_id r = rid"
    using find_SomeD[OF assms[unfolded find_reservation_def]] by simp
  ultimately show ?thesis using assms by (simp add: settle_rows_def)
qed

lemma release_settled:
  "map (release_row rid t c now') (settle_rows rid usd tok now rs) = settle_rows rid usd tok now rs"
  by (simp add: settle_rows_def release_row_def)

lemma bump_found:
  assumes "find_partition t k ps = Some p" and "k = c \<or> k = ROOT_CHILD_ID"
  shows "find_partition t k (map (bump_row t c usd tok now) ps) = Some (bump_row t c usd tok now p)"
    and "consumed_usd (bump_row t c usd tok now p) = consumed_usd p + usd"
    and "consumed_tokens (bump_row t c usd tok now p) = consumed_tokens p + tok"
proof -
  have "find_partition t k (map (bump_row t c usd tok now) ps) =
      map_option (bump_row t c usd tok now) (find_partition t k ps)"
    unfolding find_partition_def by (rule find_map_keep) simp
  then show "find_partition t k (map (bump_row t c usd tok now) ps) = Some (bump_row t c usd tok now p)"
    using assms(1) by simp
  show "consumed_usd (bump_row t c usd tok now p) = consumed_usd p + usd"
    and "consumed_tokens (bump_row t c usd tok now p) = consumed_tokens p + tok"
    using find_partition_Some[OF assms(1)] assms(2) by (auto simp: bump_row_def)
qed

text \<open>Settling an active reservation moves exactly the actual usage into the child and the root row, and settling or releasing it again changes nothing.\<close>

theorem commit_settles_exactly_once:
  assumes "find_reservation rid t c (reservations led) = Some r" and "res_status r = Active"
    and "enabled led" and "sanitizeKey t = Inr t" and "sanitizeKey c = Inr c"
    and "commit t c rid usd tok now led = Inr ((), led1)"
    and "find_partition t k (partitions led) = Some p" and "k = c \<or> k = ROOT_CHILD_ID"
  shows "(\<exists>p'. find_partition t k (partitions led1) = Some p' \<and>
      consumed_usd p' = consumed_usd p + max 0 usd \<and> consumed_tokens p' = consumed_tokens p + max 0 \<lfloor>tok\<rfloor>) \<and>
    commit t c rid usd' tok' now' led1 = Inr ((), led1) \<and>
    release t c rid now' led1 = Inr ((), led1)"
proof -
  let ?u = "max 0 usd" and ?k = "max 0 \<lfloor>tok\<rfloor>"
  have root: "c \<noteq> ROOT_CHILD_ID" using sanitizeKey_Inr[OF assms(5)] by simp
  have led1: "led1 = led\<lparr>reservations := settle_rows rid ?u ?k now (reservations led),
      partitions := map (bump_row t c ?u ?k now) (partitions led)\<rparr>"
    using assms(1-6) root by (simp add: commit_def Let_def both_bumps_map[symmetric] both_bumps_def)
  obtain r' where r': "find_reservation rid t c (reservations led1) = Some r'" "res_status r' = Settled"
    using find_settled[OF assms(1)] led1 by (simp add: led1) blast
  have "commit t c rid usd' tok' now' led1 = Inr ((), led1)"
    using r' assms(4,5) by (simp add: commit_def Let_def)
  moreover have "release t c rid now' led1 = Inr ((), led1)"
    using assms(3-5) release_settled[of rid t c now' ?u ?k now "reservations led"]
    by (simp add: release_def led1 release_row_def[abs_def])
  moreover have "\<exists>p'. find_partition t k (partitions led1) = Some p' \<and>
      consumed_usd p' = consumed_usd p + ?u \<and> consumed_tokens p' = consumed_tokens p + ?k"
    using bump_found[OF assms(7,8), of ?u ?k now] by (simp add: led1)
  ultimately show ?thesis by blast
qed

definition demo_admitted :: ledger where
  "demo_admitted = demo_ledger (demo_tree @ [Op_admit ''t'' ''a'' (1 / 4) 2000 3 ''pr_1''])"

theorem commit_settles_exactly_once_witness:
  "\<exists>led1. commit ''t'' ''a'' ''pr_1'' (1 / 5) 1500 4 demo_admitted = Inr ((), led1) \<and>
     commit ''t'' ''a'' ''pr_1'' 9 9 5 led1 = Inr ((), led1)"
proof -
  let ?r = "\<lparr> res_id = ''pr_1'', res_task = ''t'', res_child = ''a'', est_usd = 1 / 4, est_tokens = 2000,
            res_status = Active, res_created = 3, res_updated = 3 \<rparr>"
  have r: "find_reservation ''pr_1'' ''t'' ''a'' (reservations demo_admitted) = Some ?r" by code_simp
  have "res_status ?r = Active" "enabled demo_admitted" "sanitizeKey ''t'' = Inr ''t''" "sanitizeKey ''a'' = Inr ''a''"
    by code_simp+
  moreover have "\<not> Option.is_none (find_partition ''t'' ''a'' (partitions demo_admitted))" by code_simp
  then obtain p where "find_partition ''t'' ''a'' (partitions demo_admitted) = Some p"
    by (auto simp: Option.is_none_def)
  moreover obtain led1 where c: "commit ''t'' ''a'' ''pr_1'' (1 / 5) 1500 4 demo_admitted = Inr ((), led1)"
    using r calculation(1-4) by (simp add: commit_def Let_def)
  ultimately show ?thesis
    using commit_settles_exactly_once[OF r, of "1 / 5" 1500 4 led1 "''a''" p 9 9 5] c by blast
qed

subsection \<open>How much a cut can hand out\<close>

lemma totalWeight_pos: "0 < totalWeight cs"
  by (simp add: totalWeight_def less_max_iff_disj)

lemma sum_floor_shares:
  fixes h :: int
  assumes "0 \<le> h" and "0 < T"
  shows "of_int (sum_list (map (\<lambda>c. \<lfloor>of_int h * (max (1 / 100) (weight c) / T)\<rfloor>) cs))
     \<le> (of_int h * (sum_list (map (\<lambda>c. max (1 / 100) (weight c)) cs) / T) :: rat)"
proof (induction cs)
  case Nil
  then show ?case by simp
next
  case (Cons c cs)
  have "of_int \<lfloor>of_int h * (max (1 / 100) (weight c) / T)\<rfloor> \<le> of_int h * (max (1 / 100) (weight c) / T)"
    by (rule of_int_floor_le)
  with Cons show ?case by (simp only: list.map sum_list.Cons of_int_add add_divide_distrib distrib_left)
qed

lemma allocate_usd_sum:
  assumes "0 < rootUsdMicro k" and "0 \<le> headUsdMicro k"
  shows "sum_list (map usdMicro (allocate k cs)) \<le> headUsdMicro k"
proof -
  let ?W = "sum_list (map (\<lambda>c. max (1 / 100) (weight c)) cs)"
  have "map usdMicro (allocate k cs) =
      map (\<lambda>c. \<lfloor>of_int (headUsdMicro k) * (max (1 / 100) (weight c) / totalWeight cs)\<rfloor>) cs"
    using assms(1) by (simp add: allocate_def Let_def)
  then have "of_int (sum_list (map usdMicro (allocate k cs))) \<le> of_int (headUsdMicro k) * (?W / totalWeight cs)"
    using sum_floor_shares[OF assms(2) totalWeight_pos] by simp
  also have "\<dots> \<le> of_int (headUsdMicro k) * 1"
    using assms(2) totalWeight_pos[of cs]
    by (intro mult_left_mono) (simp_all add: totalWeight_def)
  finally show ?thesis by simp
qed

lemma allocate_usd_nonneg:
  assumes "0 \<le> headUsdMicro k" and "a \<in> set (allocate k cs)"
  shows "0 \<le> usdMicro a"
proof -
  have "0 \<le> max (1 / 100) (weight c) / totalWeight cs" for c
    by (rule divide_nonneg_pos) (simp_all add: le_max_iff_disj totalWeight_pos)
  then have "0 \<le> of_int (headUsdMicro k) * (max (1 / 100) (weight c) / totalWeight cs)" for c
    using assms(1) by (intro mult_nonneg_nonneg) simp_all
  then show ?thesis using assms(2) by (auto simp: allocate_def Let_def)
qed

text \<open>What the floor loop grants: the sum of the shares that were not denied.\<close>

definition granted_micro :: "allocation list \<Rightarrow> int" where
  "granted_micro as = sum_list (map (\<lambda>a. max 0 (usdMicro a)) as)"

lemma granted_Nil [simp]: "granted_micro [] = 0"
  by (simp add: granted_micro_def)

lemma granted_Cons [simp]: "granted_micro (a # as) = max 0 (usdMicro a) + granted_micro as"
  by (simp add: granted_micro_def)

lemma enforce_floors_denied:
  assumes "usd_floored k runUsd (usdMicro a) = None"
  shows "granted_micro (fst (enforce_floors k runUsd runTok (a # as))) =
    granted_micro (fst (enforce_floors k runUsd runTok as))"
  using assms by (simp add: Let_def split: prod.splits)

lemma enforce_floors_granted:
  assumes "usd_floored k runUsd (usdMicro a) = Some u" and "0 < rootUsdMicro k"
  shows "\<exists>runTok'. granted_micro (fst (enforce_floors k runUsd runTok (a # as))) =
    max 0 u + granted_micro (fst (enforce_floors k (runUsd + u) runTok' as))"
  using assms by (simp add: Let_def split: prod.splits) (metis fst_conv)

lemma enforce_floors_sum:
  assumes "0 < rootUsdMicro k" and "0 \<le> floorUsdMicro k"
  shows "runUsd + granted_micro (fst (enforce_floors k runUsd runTok as))
    \<le> max runUsd (headUsdMicro k) + granted_micro as"
proof (induction as arbitrary: runUsd runTok)
  case Nil
  then show ?case by simp
next
  case (Cons a as)
  show ?case
  proof (cases "usd_floored k runUsd (usdMicro a)")
    case None
    then show ?thesis using Cons[of runUsd runTok] by (simp only: enforce_floors_denied granted_Cons)
  next
    case (Some u)
    then obtain runTok' where g: "granted_micro (fst (enforce_floors k runUsd runTok (a # as))) =
        max 0 u + granted_micro (fst (enforce_floors k (runUsd + u) runTok' as))"
      using enforce_floors_granted assms(1) by blast
    have u: "0 \<le> u" "u = floorUsdMicro k \<and> runUsd + u \<le> headUsdMicro k \<or> u = usdMicro a"
      using Some assms by (auto simp: usd_floored_def split: if_splits)
    then show ?thesis unfolding g using Cons[of "runUsd + u" runTok'] by (simp only: granted_Cons) linarith
  qed
qed

lemma enforce_floors_unbumped:
  assumes "0 < rootUsdMicro k" and "list_all (\<lambda>a. floorUsdMicro k \<le> usdMicro a) as"
  shows "granted_micro (fst (enforce_floors k runUsd runTok as)) = granted_micro as"
  using assms(2)
proof (induction as arbitrary: runUsd runTok)
  case Nil
  then show ?case by simp
next
  case (Cons a as)
  then have "usd_floored k runUsd (usdMicro a) = Some (usdMicro a)" by (simp add: usd_floored_def)
  from enforce_floors_granted[OF this assms(1), of runTok as] Cons show ?case
    by (auto simp del: enforce_floors.simps)
qed

lemma toMicro_fromMicro: "0 \<le> m \<Longrightarrow> toMicro (fromMicro m) = m"
  by (simp add: toMicro_def fromMicro_def)

lemma create_children_caps:
  assumes "0 < rootUsdMicro k"
  shows "create_children k tid now fresh n as ps = Inr (created, ps') \<Longrightarrow>
    sum_list (map (\<lambda>c. toMicro (cap_usd c)) (children_of tid ps')) =
      sum_list (map (\<lambda>c. toMicro (cap_usd c)) (children_of tid ps)) + granted_micro as"
proof (induction as arbitrary: n ps created)
  case Nil
  then show ?case by simp
next
  case (Cons a as)
  show ?case
  proof (cases "usdMicro a < 0")
    case True
    with Cons.prems Cons.IH show ?thesis by simp
  next
    case False
    obtain cid ps1 created1 where c: "cid \<noteq> ROOT_CHILD_ID"
      "insertRow (new_child_row k tid now (fresh n) cid a) ps = Inr ps1"
      "create_children k tid now fresh (Suc n) as ps1 = Inr (created1, ps')"
      using Cons.prems(1) False by (rule create_children_Cons)
    have "children_of tid ps1 = children_of tid ps @ [new_child_row k tid now (fresh n) cid a]"
      using c(1,2) by (auto simp: insertRow_def children_of_def new_child_row_def split: if_splits)
    moreover have "toMicro (cap_usd (new_child_row k tid now (fresh n) cid a)) = usdMicro a"
      using False assms by (simp add: new_child_row_def toMicro_fromMicro)
    ultimately show ?thesis using Cons.IH[OF c(3)] False by simp
  qed
qed

text \<open>A cut hands out at most twice the headroom that was left under the root's dollar ceiling, and never more than the headroom when no share falls below the floor.\<close>

theorem cut_bounded_by_headroom:
  assumes "partition t cs opts now fresh led = Inr (x, led')"
    and "find_partition t ROOT_CHILD_ID (partitions led) = Some rootRow" and "toMicro (cap_usd rootRow) > 0"
    and "head = toMicro (cap_usd rootRow) - child_caps_micro t led" and "0 \<le> head"
    and "k = cut_of opts rootRow (children_of t (partitions led))"
    and "shares = allocate k (filter (\<lambda>c. spec_childId c \<notin> set (map child_id (children_of t (partitions led)))) cs)"
  shows "child_caps_micro t led' \<le> child_caps_micro t led + 2 * head \<and>
    (list_all (\<lambda>a. floorUsdMicro k \<le> usdMicro a) shares \<longrightarrow>
       child_caps_micro t led' \<le> toMicro (cap_usd rootRow))"
proof -
  have k: "0 < rootUsdMicro k" "headUsdMicro k = head" "0 \<le> floorUsdMicro k"
    using assms(3,4,6) by (simp_all add: cut_of_def Let_def child_caps_micro_def toMicro_nonneg)
  obtain as ps where r: "as = fst (enforce_floors k 0 0 shares)"
    "create_children k t now fresh 0 as (partitions led) =
       Inr (drop (length (children_of t (partitions led))) (result_children x), ps)"
    "led' = led\<lparr>partitions := ps\<rparr>"
    using assms(1) by (rule partition_effect) (use assms(2,6,7) in auto)
  have caps: "child_caps_micro t led' = child_caps_micro t led + granted_micro as"
    using create_children_caps[OF k(1) r(2)] r(3) by (simp add: child_caps_micro_def)
  have nat: "sum_list (map usdMicro shares) \<le> head"
    unfolding assms(7) using allocate_usd_sum[OF k(1)] k(2) assms(5) by simp
  have "\<forall>a \<in> set shares. 0 \<le> usdMicro a"
    unfolding assms(7) using allocate_usd_nonneg k(2) assms(5) by metis
  then have gs: "granted_micro shares \<le> head"
    using nat by (simp add: granted_micro_def cong: map_cong)
  have "granted_micro as \<le> head + head"
    using enforce_floors_sum[OF k(1,3), of 0 0 shares] k(2) assms(5) gs r(1) by simp
  moreover have "granted_micro as \<le> head" if "list_all (\<lambda>a. floorUsdMicro k \<le> usdMicro a) shares"
    using enforce_floors_unbumped[OF k(1) that] gs r(1) by simp
  ultimately show ?thesis using caps assms(4) by auto
qed

definition demo_open :: ledger where
  "demo_open = demo_ledger [Op_open ''t'' \<lparr> spec_capUsd = Some 1, spec_capTokens = None \<rparr> ''bp_0'' 1]"

definition demo_root :: PartitionDbRow where
  "demo_root = new_root_row ''t'' \<lparr> spec_capUsd = Some 1, spec_capTokens = None \<rparr> ''bp_0'' 1"

theorem cut_bounded_by_headroom_witness:
  "\<exists>x led'. partition ''t'' [demo_child ''a'' 1, demo_child ''b'' 1] demo_opts 2 demo_ids demo_open = Inr (x, led') \<and>
     child_caps_micro ''t'' led' \<le> 1000000"
proof -
  let ?cs = "[demo_child ''a'' 1, demo_child ''b'' 1]"
  let ?k = "cut_of demo_opts demo_root (children_of ''t'' (partitions demo_open))"
  let ?pending = "filter (\<lambda>c. spec_childId c \<notin> set (map child_id (children_of ''t'' (partitions demo_open)))) ?cs"
  have "\<not> Option.is_none (case partition ''t'' ?cs demo_opts 2 demo_ids demo_open of
      Inl _ \<Rightarrow> None | Inr r \<Rightarrow> Some r)" by code_simp
  then obtain x led' where r: "partition ''t'' ?cs demo_opts 2 demo_ids demo_open = Inr (x, led')"
    by (auto split: sum.splits)
  have f: "find_partition ''t'' ROOT_CHILD_ID (partitions demo_open) = Some demo_root"
    "toMicro (cap_usd demo_root) > 0" "0 \<le> toMicro (cap_usd demo_root) - child_caps_micro ''t'' demo_open"
    "toMicro (cap_usd demo_root) = 1000000"
    "list_all (\<lambda>a. floorUsdMicro ?k \<le> usdMicro a) (allocate ?k ?pending)"
    by code_simp+
  from cut_bounded_by_headroom[OF r f(1,2) refl f(3) refl refl] f(4,5) r show ?thesis by auto
qed

subsection \<open>Where the ledger departs from its comments\<close>

text \<open>
  The running check guards the bumped shares only: a small share lifted to the floor and a
  large unbumped one together exceed the root ceiling, although the sum of the child caps is
  said to be capped at partition time.
\<close>

lemma floor_bump_overcommits_root:
  "child_caps_micro ''t'' (apply_ledger_op
     (Op_partition ''t'' [demo_child ''small'' (1 / 100), demo_child ''large'' 10] demo_opts 2 demo_ids)
     demo_open) = 1009000"
  by code_simp

text \<open>
  A token slice clamped to what remains may be 0, which is the code for no token ceiling:
  the third child of three under 1500 tokens is unlimited.
\<close>

lemma clamped_child_has_no_token_ceiling:
  "map (\<lambda>r. (child_id r, cap_tokens r)) (partitions (demo_ledger
     [Op_open ''t'' \<lparr> spec_capUsd = None, spec_capTokens = Some 1500 \<rparr> ''bp_0'' 1,
      Op_partition ''t'' [demo_child ''a'' 1, demo_child ''b'' 1, demo_child ''c'' 1] demo_opts 2 demo_ids])) =
   [(''@root'', 1500), (''a'', 1000), (''b'', 500), (''c'', 0)]"
  by code_simp

text \<open>
  A step that outlives the ten minutes and settles after another admission has swept its
  reservation is not metered at all.
\<close>

lemma late_commit_is_dropped:
  "map (\<lambda>r. (child_id r, consumed_usd r)) (partitions (demo_ledger (demo_tree @
     [Op_admit ''t'' ''a'' (1 / 4) 2000 3 ''pr_1'', Op_admit ''t'' ''b'' (1 / 4) 2000 600004 ''pr_2'',
      Op_commit ''t'' ''a'' ''pr_1'' (1 / 4) 2000 600005]))) =
   [(''@root'', 0), (''a'', 0), (''b'', 0)]"
  by code_simp

text \<open>Closing the tree does not stop a later cut from funding new open children under it.\<close>

lemma partition_after_close_reopens:
  "case admit ''t'' ''c'' (1 / 100) 10 9 ''pr_1'' (demo_ledger
     [Op_open ''t'' \<lparr> spec_capUsd = Some 1, spec_capTokens = None \<rparr> ''bp_0'' 1, Op_close ''t'' 2,
      Op_partition ''t'' [demo_child ''c'' 1] demo_opts 3 demo_ids]) of
     Inr (Admitted i, _) \<Rightarrow> i = ''pr_1'' | _ \<Rightarrow> False"
  by code_simp

end
