(* ===== verification/Budget_Reservations.thy ===== *)
theory Budget_Reservations
  imports JS_Number
begin

text \<open>
  The global caps: the budget configuration and the reservations of
  \<open>src/src/state/workspace-store.ts\<close> with their \<open>ReservationRepo\<close>
  (\<open>src/src/state/repos/reservation-repo.ts\<close>), and the \<open>BudgetManager\<close> over them
  (\<open>src/src/cost/manager.ts\<close>). The store's three tables are lists of rows in insertion
  order. A period starts at a time the caller passes (local midnight, first of the month);
  \<open>reservationAdmit\<close> is one write transaction. A configuration column holds any number but
  \<open>NaN\<close>, which SQLite binds as \<open>NULL\<close>.
\<close>

section \<open>The store\<close>

record budget_config =
  monthly_cap :: jsnum
  daily_cap :: "jsnum option"
  warnings_enabled :: bool
  auto_fallback :: bool

record cost_event =
  ce_session :: string
  ce_in :: int
  ce_out :: int
  ce_usd :: rat
  ce_created :: int

datatype rstatus = R_active | R_settled | R_released | R_expired

record reservation =
  r_id :: string
  r_env :: string
  r_est_usd :: rat
  r_est_tokens :: rat
  r_status :: rstatus
  r_created :: int
  r_updated :: int
  r_actual :: "(jsnum \<times> jsnum) option"

record cost_store =
  store_closed :: bool
  cost_events :: "cost_event list"
  budget_row :: "budget_config option"
  store_reservations :: "reservation list"

datatype store_error = ConstraintFailed | InvalidBudgetPolicy

definition DEFAULT_RESERVATION_TTL_MS :: int where
  "DEFAULT_RESERVATION_TTL_MS = 120000"

text \<open>\<open>raw\<close> is \<open>Number(process.env.XR_RESERVATION_TTL_MS)\<close>.\<close>

definition reservationTtlMs :: "jsnum \<Rightarrow> rat" where
  "reservationTtlMs raw =
     (if is_finite raw \<and> js_le (Fin 1000) raw then rat_of_js raw
      else of_int DEFAULT_RESERVATION_TTL_MS)"

definition recordCost :: "string \<Rightarrow> int \<Rightarrow> int \<Rightarrow> rat \<Rightarrow> int \<Rightarrow> cost_store \<Rightarrow> cost_store" where
  "recordCost session inTok outTok usd now st =
     st\<lparr>cost_events := cost_events st @
        [\<lparr> ce_session = session, ce_in = inTok, ce_out = outTok, ce_usd = usd, ce_created = now \<rparr>]\<rparr>"

definition clearCosts :: "cost_store \<Rightarrow> cost_store" where
  "clearCosts st = st\<lparr>cost_events := []\<rparr>"

definition getSpendForPeriod :: "int \<Rightarrow> cost_store \<Rightarrow> rat" where
  "getSpendForPeriod startMs st =
     sum_list (map ce_usd (filter (\<lambda>e. ce_created e \<ge> startMs) (cost_events st)))"

definition getSessionCostTotals :: "string \<Rightarrow> cost_store \<Rightarrow> rat \<times> int" where
  "getSessionCostTotals session st =
     (let es = filter (\<lambda>e. ce_session e = session) (cost_events st)
      in (sum_list (map ce_usd es), sum_list (map ce_in es) + sum_list (map ce_out es)))"

text \<open>\<open>setBudgetConfig\<close>: the monthly column is \<open>NOT NULL\<close>, so a \<open>NaN\<close> there throws.\<close>

definition store_column :: "jsnum \<Rightarrow> jsnum option" where
  "store_column x = (if x = NaN then None else Some x)"

definition setBudgetConfig ::
  "jsnum \<Rightarrow> jsnum option option \<Rightarrow> bool option \<Rightarrow> bool option \<Rightarrow> cost_store \<Rightarrow>
     store_error + cost_store" where
  "setBudgetConfig monthly daily warn fallback st =
     (case store_column monthly of
        None \<Rightarrow> Inl ConstraintFailed
      | Some m \<Rightarrow>
          (case budget_row st of
             None \<Rightarrow>
               Inr (st\<lparr>budget_row := Some \<lparr> monthly_cap = m,
                      daily_cap = (case daily of Some (Some d) \<Rightarrow> store_column d | _ \<Rightarrow> None),
                      warnings_enabled = nullish warn True,
                      auto_fallback = nullish fallback True \<rparr>\<rparr>)
           | Some cur \<Rightarrow>
               Inr (st\<lparr>budget_row := Some \<lparr> monthly_cap = m,
                      daily_cap = (case daily of None \<Rightarrow> daily_cap cur
                                   | Some None \<Rightarrow> None | Some (Some d) \<Rightarrow> store_column d),
                      warnings_enabled = nullish warn (warnings_enabled cur),
                      auto_fallback = nullish fallback (auto_fallback cur) \<rparr>\<rparr>)))"

section \<open>Atomic admission\<close>

record ReservationCaps =
  monthlyCapUsd :: "rat option"
  dailyCapUsd :: "rat option"
  taskUsdCap :: "rat option"
  taskTokenCap :: "rat option"

datatype cap_reason =
    MonthlyCap jsnum rat rat
  | DailyCap jsnum rat rat
  | TaskSpendCeiling rat rat rat
  | TaskTokenCeiling rat rat rat

datatype admission = Granted string | Refused cap_reason bool

definition releaseStaleReservations :: "rat \<Rightarrow> int \<Rightarrow> cost_store \<Rightarrow> cost_store" where
  "releaseStaleReservations ttl now st =
     (if store_closed st then st
      else st\<lparr>store_reservations :=
        map (\<lambda>r. if r_status r = R_active \<and> of_int (r_created r) \<le> of_int now - ttl
                 then r\<lparr>r_status := R_expired, r_updated := now\<rparr> else r)
          (store_reservations st)\<rparr>)"

definition active_in :: "(reservation \<Rightarrow> bool) \<Rightarrow> cost_store \<Rightarrow> rat \<times> rat" where
  "active_in P st =
     (let rs = filter (\<lambda>r. P r \<and> r_status r = R_active) (store_reservations st)
      in (sum_list (map r_est_usd rs), sum_list (map r_est_tokens rs)))"

definition reservationActiveTotals :: "cost_store \<Rightarrow> rat \<times> rat" where
  "reservationActiveTotals st = active_in (\<lambda>_. True) st"

text \<open>The caps in force: the caller's, else the stored ones, else 10 dollars a month.\<close>

definition effective_monthly :: "ReservationCaps \<Rightarrow> cost_store \<Rightarrow> jsnum" where
  "effective_monthly caps st =
     (case monthlyCapUsd caps of Some m \<Rightarrow> Fin m
      | None \<Rightarrow> (case budget_row st of Some cfg \<Rightarrow> monthly_cap cfg | None \<Rightarrow> Fin 10))"

definition effective_daily :: "ReservationCaps \<Rightarrow> cost_store \<Rightarrow> jsnum option" where
  "effective_daily caps st =
     (case dailyCapUsd caps of Some d \<Rightarrow> Some (Fin d)
      | None \<Rightarrow> (case budget_row st of Some cfg \<Rightarrow> daily_cap cfg | None \<Rightarrow> None))"

definition task_refusal :: "string \<Rightarrow> rat \<Rightarrow> rat \<Rightarrow> ReservationCaps \<Rightarrow> cost_store \<Rightarrow> cap_reason option" where
  "task_refusal env estUsd estTok caps st =
     (let (sUsd, sTok) = (if env \<noteq> [] then getSessionCostTotals env st else (0, 0));
          (aUsd, aTok) = active_in (\<lambda>r. r_env r = env) st;
          taskUsd = sUsd + aUsd;
          taskTok = of_int sTok + aTok
      in case taskUsdCap caps of
           Some c \<Rightarrow>
             (if c > 0 \<and> taskUsd + estUsd > c then Some (TaskSpendCeiling estUsd c taskUsd)
              else case taskTokenCap caps of
                Some k \<Rightarrow> (if k > 0 \<and> taskTok + estTok > k
                            then Some (TaskTokenCeiling estTok k taskTok) else None)
              | None \<Rightarrow> None)
         | None \<Rightarrow>
             (case taskTokenCap caps of
                Some k \<Rightarrow> (if k > 0 \<and> taskTok + estTok > k
                            then Some (TaskTokenCeiling estTok k taskTok) else None)
              | None \<Rightarrow> None))"

definition reservationAdmit ::
  "rat \<Rightarrow> int \<Rightarrow> int \<Rightarrow> int \<Rightarrow> string \<Rightarrow> string \<Rightarrow> rat \<Rightarrow> rat \<Rightarrow> ReservationCaps \<Rightarrow> cost_store \<Rightarrow>
     store_error + (admission \<times> cost_store)" where
  "reservationAdmit ttl now startOfDay startOfMonth rid env estUsd estTok caps st0 =
     (let st = releaseStaleReservations ttl now st0;
          monthlyCap = effective_monthly caps st;
          dailyCap = effective_daily caps st;
          autoFallback = (case budget_row st of Some cfg \<Rightarrow> auto_fallback cfg | None \<Rightarrow> True);
          monthlySpend = getSpendForPeriod startOfMonth st;
          dailySpend = (if dailyCap \<noteq> None then getSpendForPeriod startOfDay st else 0);
          reservedUsd = fst (reservationActiveTotals st)
      in if estUsd > 0 \<and> js_lt monthlyCap (Fin (monthlySpend + reservedUsd + estUsd))
         then Inr (Refused (MonthlyCap monthlyCap (monthlySpend + reservedUsd) reservedUsd) autoFallback, st)
         else if estUsd > 0 \<and> (case dailyCap of None \<Rightarrow> False
                  | Some d \<Rightarrow> js_lt d (Fin (dailySpend + reservedUsd + estUsd)))
         then Inr (Refused (DailyCap (nullish dailyCap NaN) (dailySpend + reservedUsd) reservedUsd) autoFallback, st)
         else case task_refusal env estUsd estTok caps st of
           Some d \<Rightarrow> Inr (Refused d False, st)
         | None \<Rightarrow>
             (if rid \<in> set (map r_id (store_reservations st)) then Inl ConstraintFailed
              else Inr (Granted rid, st\<lparr>store_reservations := store_reservations st @
                [\<lparr> r_id = rid, r_env = env, r_est_usd = estUsd, r_est_tokens = estTok,
                   r_status = R_active, r_created = now, r_updated = now, r_actual = None \<rparr>]\<rparr>)))"

definition settle_where ::
  "(reservation \<Rightarrow> bool) \<Rightarrow> (reservation \<Rightarrow> reservation) \<Rightarrow> cost_store \<Rightarrow> cost_store" where
  "settle_where P f st =
     st\<lparr>store_reservations :=
       map (\<lambda>r. if P r \<and> r_status r = R_active then f r else r) (store_reservations st)\<rparr>"

definition reservationCommit :: "string \<Rightarrow> jsnum \<Rightarrow> jsnum \<Rightarrow> int \<Rightarrow> cost_store \<Rightarrow> cost_store" where
  "reservationCommit rid usd tok now =
     settle_where (\<lambda>r. r_id r = rid)
       (\<lambda>r. r\<lparr>r_status := R_settled, r_actual := Some (usd, tok), r_updated := now\<rparr>)"

definition reservationRelease :: "string \<Rightarrow> int \<Rightarrow> cost_store \<Rightarrow> cost_store" where
  "reservationRelease rid now =
     settle_where (\<lambda>r. r_id r = rid) (\<lambda>r. r\<lparr>r_status := R_released, r_updated := now\<rparr>)"

definition reservationReleaseForEnv :: "string \<Rightarrow> int \<Rightarrow> cost_store \<Rightarrow> cost_store" where
  "reservationReleaseForEnv env now =
     settle_where (\<lambda>r. r_env r = env) (\<lambda>r. r\<lparr>r_status := R_released, r_updated := now\<rparr>)"

definition reservationCountByStatus :: "rstatus \<Rightarrow> cost_store \<Rightarrow> nat" where
  "reservationCountByStatus s st = length (filter (\<lambda>r. r_status r = s) (store_reservations st))"

section \<open>The budget manager\<close>

record budget_status =
  monthlySpend :: rat
  monthlyCap :: jsnum
  dailySpend :: rat
  dailyCap :: "jsnum option"
  remainingMonthly :: jsnum
  remainingDaily :: "jsnum option"
  percentUsed :: jsnum
  isOverBudget :: bool
  isNearCap :: bool

datatype budget_refusal =
    PriceUnavailable
  | MonthlyCapReached jsnum rat
  | DailyCapReached jsnum rat

text \<open>A warning carries the announced percentage, the spend and the cap.\<close>

datatype BudgetCheckResult =
    BudgetAllow "(int \<times> rat \<times> jsnum) option"
  | BudgetDeny budget_refusal bool

definition default_config :: budget_config where
  "default_config = \<lparr> monthly_cap = Fin 10, daily_cap = None, warnings_enabled = True, auto_fallback = True \<rparr>"

definition getConfig :: "cost_store \<Rightarrow> store_error + budget_config" where
  "getConfig st =
     (let cfg = nullish (budget_row st) default_config
      in if \<not> finite_nonneg (monthly_cap cfg) \<or>
            (case daily_cap cfg of None \<Rightarrow> False | Some d \<Rightarrow> \<not> finite_nonneg d)
         then Inl InvalidBudgetPolicy else Inr cfg)"

definition getStatus :: "int \<Rightarrow> int \<Rightarrow> cost_store \<Rightarrow> store_error + budget_status" where
  "getStatus startOfDay startOfMonth st =
     (case getConfig st of
        Inl e \<Rightarrow> Inl e
      | Inr cfg \<Rightarrow>
          (let monthly = getSpendForPeriod startOfMonth st;
               daily = getSpendForPeriod startOfDay st;
               cap = monthly_cap cfg
           in Inr \<lparr> monthlySpend = monthly, monthlyCap = cap, dailySpend = daily,
                    dailyCap = daily_cap cfg,
                    remainingMonthly = js_sub cap (Fin monthly),
                    remainingDaily = (case daily_cap cfg of None \<Rightarrow> None
                      | Some d \<Rightarrow> if d = Fin 0 then None else Some (js_sub d (Fin daily))),
                    percentUsed = js_mul (js_div_by (Fin monthly) (rat_of_js cap)) (Fin 100),
                    isOverBudget = js_le cap (Fin monthly),
                    isNearCap = js_le (js_mul cap (Fin (4 / 5))) (Fin monthly) \<rparr>))"

definition warning_thresholds :: "rat list" where
  "warning_thresholds = [95 / 100, 8 / 10, 5 / 10]"

definition checkBudget :: "jsnum \<Rightarrow> int \<Rightarrow> int \<Rightarrow> cost_store \<Rightarrow> store_error + BudgetCheckResult" where
  "checkBudget est startOfDay startOfMonth st =
     (if \<not> finite_nonneg est then Inr (BudgetDeny PriceUnavailable True)
      else case getConfig st of
        Inl e \<Rightarrow> Inl e
      | Inr cfg \<Rightarrow>
          (case getStatus startOfDay startOfMonth st of
             Inl e \<Rightarrow> Inl e
           | Inr status \<Rightarrow>
               (if js_le est (Fin 0) then Inr (BudgetAllow None)
                else if js_lt (monthlyCap status) (js_add (Fin (monthlySpend status)) est)
                then Inr (BudgetDeny (MonthlyCapReached (monthlyCap status) (monthlySpend status)) (auto_fallback cfg))
                else if (case dailyCap status of None \<Rightarrow> False
                         | Some d \<Rightarrow> js_lt d (js_add (Fin (dailySpend status)) est))
                then Inr (BudgetDeny (DailyCapReached (nullish (dailyCap status) NaN) (dailySpend status)) (auto_fallback cfg))
                else if warnings_enabled cfg then
                  Inr (BudgetAllow
                    (case find (\<lambda>t. js_le (Fin t) (percentUsed status)) warning_thresholds of
                       None \<Rightarrow> None
                     | Some t \<Rightarrow> Some (js_round (t * 100), monthlySpend status, monthlyCap status)))
                else Inr (BudgetAllow None))))"

definition with_config ::
  "(budget_config \<Rightarrow> budget_config) \<Rightarrow> cost_store \<Rightarrow> store_error + cost_store" where
  "with_config f st =
     (case getConfig st of
        Inl e \<Rightarrow> Inl e
      | Inr cfg \<Rightarrow>
          (let c = f cfg
           in setBudgetConfig (monthly_cap c) (Some (daily_cap c)) (Some (warnings_enabled c))
                (Some (auto_fallback c)) st))"

definition setMonthlyCap :: "jsnum \<Rightarrow> cost_store \<Rightarrow> store_error + cost_store" where
  "setMonthlyCap amount = with_config (\<lambda>cfg. cfg\<lparr>monthly_cap := amount\<rparr>)"

definition setDailyCap :: "jsnum option \<Rightarrow> cost_store \<Rightarrow> store_error + cost_store" where
  "setDailyCap amount = with_config (\<lambda>cfg. cfg\<lparr>daily_cap := amount\<rparr>)"

definition setWarnings :: "bool \<Rightarrow> cost_store \<Rightarrow> store_error + cost_store" where
  "setWarnings on = with_config (\<lambda>cfg. cfg\<lparr>warnings_enabled := on\<rparr>)"

definition setAutoFallback :: "bool \<Rightarrow> cost_store \<Rightarrow> store_error + cost_store" where
  "setAutoFallback on = with_config (\<lambda>cfg. cfg\<lparr>auto_fallback := on\<rparr>)"

definition resetSpending :: "cost_store \<Rightarrow> cost_store" where
  "resetSpending = clearCosts"

section \<open>Lemmas on admission\<close>

lemma sweep_tables [simp]:
  "cost_events (releaseStaleReservations ttl now st) = cost_events st"
  "budget_row (releaseStaleReservations ttl now st) = budget_row st"
  "store_closed (releaseStaleReservations ttl now st) = store_closed st"
  by (simp_all add: releaseStaleReservations_def)

lemma spend_cong:
  "cost_events st = cost_events st' \<Longrightarrow> getSpendForPeriod a st = getSpendForPeriod a st'"
  "cost_events st = cost_events st' \<Longrightarrow> getSessionCostTotals s st = getSessionCostTotals s st'"
  by (simp_all add: getSpendForPeriod_def getSessionCostTotals_def)

lemma active_in_append:
  "active_in P (st\<lparr>store_reservations := store_reservations st @ [r]\<rparr>) =
     (fst (active_in P st) + (if P r \<and> r_status r = R_active then r_est_usd r else 0),
      snd (active_in P st) + (if P r \<and> r_status r = R_active then r_est_tokens r else 0))"
  by (simp add: active_in_def Let_def)

definition reserved_row :: "string \<Rightarrow> string \<Rightarrow> rat \<Rightarrow> rat \<Rightarrow> int \<Rightarrow> reservation" where
  "reserved_row rid env estUsd estTok now =
     \<lparr> r_id = rid, r_env = env, r_est_usd = estUsd, r_est_tokens = estTok,
       r_status = R_active, r_created = now, r_updated = now, r_actual = None \<rparr>"

lemma reservationAdmit_granted:
  assumes "reservationAdmit ttl now d0 m0 rid env usd tok caps st = Inr (Granted i, st')"
  shows "st' = (releaseStaleReservations ttl now st)\<lparr>store_reservations :=
      store_reservations (releaseStaleReservations ttl now st) @ [reserved_row rid env usd tok now]\<rparr>"
    and "usd > 0 \<Longrightarrow> \<not> js_lt (effective_monthly caps st)
      (Fin (getSpendForPeriod m0 st + fst (reservationActiveTotals (releaseStaleReservations ttl now st)) + usd))"
    and "usd > 0 \<Longrightarrow> effective_daily caps st = Some d \<Longrightarrow> \<not> js_lt d
      (Fin (getSpendForPeriod d0 st + fst (reservationActiveTotals (releaseStaleReservations ttl now st)) + usd))"
    and "task_refusal env usd tok caps (releaseStaleReservations ttl now st) = None"
    and "rid \<notin> r_id ` set (store_reservations (releaseStaleReservations ttl now st))"
proof -
  let ?sw = "releaseStaleReservations ttl now st"
  have same: "effective_monthly caps ?sw = effective_monthly caps st"
    "effective_daily caps ?sw = effective_daily caps st"
    "getSpendForPeriod a ?sw = getSpendForPeriod a st" for a
    by (simp_all add: effective_monthly_def effective_daily_def spend_cong(1)[of ?sw st] split: option.split)
  note un = assms[unfolded reservationAdmit_def Let_def same]
  show "st' = ?sw\<lparr>store_reservations := store_reservations ?sw @ [reserved_row rid env usd tok now]\<rparr>"
    using un by (auto simp: reserved_row_def split: if_splits option.splits)
  show "usd > 0 \<Longrightarrow> \<not> js_lt (effective_monthly caps st)
      (Fin (getSpendForPeriod m0 st + fst (reservationActiveTotals ?sw) + usd))"
    using un by (auto split: if_splits)
  show "usd > 0 \<Longrightarrow> effective_daily caps st = Some d \<Longrightarrow> \<not> js_lt d
      (Fin (getSpendForPeriod d0 st + fst (reservationActiveTotals ?sw) + usd))"
    using un by (auto split: if_splits)
  show "task_refusal env usd tok caps ?sw = None"
    using un by (auto split: if_splits option.splits)
  show "rid \<notin> r_id ` set (store_reservations ?sw)"
    using un by (auto split: if_splits option.splits)
qed

text \<open>What an environment has spent and holds in reservations.\<close>

definition env_usd :: "string \<Rightarrow> cost_store \<Rightarrow> rat" where
  "env_usd env st = fst (getSessionCostTotals env st) + fst (active_in (\<lambda>r. r_env r = env) st)"

definition env_tokens :: "string \<Rightarrow> cost_store \<Rightarrow> rat" where
  "env_tokens env st =
     of_int (snd (getSessionCostTotals env st)) + snd (active_in (\<lambda>r. r_env r = env) st)"

lemma task_refusal_None:
  assumes "task_refusal env usd tok caps st = None" and "env \<noteq> []"
  shows "taskUsdCap caps = Some c \<Longrightarrow> 0 < c \<Longrightarrow> env_usd env st + usd \<le> c"
    and "taskTokenCap caps = Some k \<Longrightarrow> 0 < k \<Longrightarrow> env_tokens env st + tok \<le> k"
  using assms
  by (auto simp: task_refusal_def env_usd_def env_tokens_def Let_def split: option.splits if_splits prod.splits)

section \<open>The store as a machine\<close>

datatype store_op =
    S_admit rat int int int string string rat rat ReservationCaps
  | S_commit string jsnum jsnum int
  | S_release string int
  | S_release_env string int
  | S_sweep rat int
  | S_cost string int int rat int
  | S_clear

fun apply_store_op :: "store_op \<Rightarrow> cost_store \<Rightarrow> cost_store" where
  "apply_store_op (S_admit ttl now d0 m0 rid env usd tok caps) st =
     (case reservationAdmit ttl now d0 m0 rid env usd tok caps st of Inl _ \<Rightarrow> st | Inr (_, st') \<Rightarrow> st')"
| "apply_store_op (S_commit rid usd tok now) st = reservationCommit rid usd tok now st"
| "apply_store_op (S_release rid now) st = reservationRelease rid now st"
| "apply_store_op (S_release_env env now) st = reservationReleaseForEnv env now st"
| "apply_store_op (S_sweep ttl now) st = releaseStaleReservations ttl now st"
| "apply_store_op (S_cost s i out usd now) st = recordCost s i out usd now st"
| "apply_store_op S_clear st = clearCosts st"

lemma reservationAdmit_reservations:
  assumes "reservationAdmit ttl now d0 m0 rid env usd tok caps st = Inr (a, st')"
  shows "\<exists>new. store_reservations st' =
    store_reservations (releaseStaleReservations ttl now st) @ new"
  using assms by (auto simp: reservationAdmit_def Let_def split: if_splits option.splits)

lemma sweep_keeps_settled:
  "r \<in> set (store_reservations st) \<Longrightarrow> r_status r \<noteq> R_active \<Longrightarrow>
     r \<in> set (store_reservations (releaseStaleReservations ttl now st))"
  by (auto simp: releaseStaleReservations_def image_iff intro!: bexI[of _ r])

lemma settle_where_keeps:
  "r \<in> set (store_reservations st) \<Longrightarrow> r_status r \<noteq> R_active \<Longrightarrow>
     r \<in> set (store_reservations (settle_where P f st))"
  by (auto simp: settle_where_def image_iff intro!: bexI[of _ r])

lemma apply_store_op_keeps:
  "r \<in> set (store_reservations st) \<Longrightarrow> r_status r \<noteq> R_active \<Longrightarrow>
     r \<in> set (store_reservations (apply_store_op x st))"
proof (induction x)
  case (S_admit ttl now d0 m0 rid env usd tok caps)
  show ?case
  proof (cases "reservationAdmit ttl now d0 m0 rid env usd tok caps st")
    case (Inr b)
    then obtain a st' where "reservationAdmit ttl now d0 m0 rid env usd tok caps st = Inr (a, st')"
      by (cases b) auto
    from reservationAdmit_reservations[OF this] sweep_keeps_settled[OF S_admit] this
    show ?thesis by auto
  qed (use S_admit in simp)
qed (auto simp: reservationCommit_def reservationRelease_def reservationReleaseForEnv_def recordCost_def
      clearCosts_def intro: settle_where_keeps sweep_keeps_settled)

interpretation settled_row: protected_machine apply_store_op "\<lambda>_ :: cost_store. True" "\<lambda>_. True"
  "\<lambda>st. r \<in> set (store_reservations st) \<and> r_status r \<noteq> R_active" for r
  by unfold_locales (auto intro: apply_store_op_keeps)

section \<open>Properties\<close>

definition demo_caps :: ReservationCaps where
  "demo_caps = \<lparr> monthlyCapUsd = Some 10, dailyCapUsd = Some 2, taskUsdCap = Some 1, taskTokenCap = None \<rparr>"

definition demo_store :: cost_store where
  "demo_store =
     \<lparr> store_closed = False,
       cost_events = [\<lparr> ce_session = ''s1'', ce_in = 100, ce_out = 20, ce_usd = 1 / 2, ce_created = 1000 \<rparr>],
       budget_row = None, store_reservations = [] \<rparr>"

text \<open>A granted reservation with a cost leaves recorded spend plus every active reservation of the workspace within the monthly and the daily cap, and the environment's own within the task ceilings.\<close>

theorem granted_reservation_within_caps:
  assumes "reservationAdmit ttl now d0 m0 rid env usd tok caps st = Inr (Granted i, st')"
    and "0 < usd" and "env \<noteq> []"
  shows "(\<forall>m. effective_monthly caps st = Fin m \<longrightarrow>
      getSpendForPeriod m0 st' + fst (reservationActiveTotals st') \<le> m) \<and>
    (\<forall>d. effective_daily caps st = Some (Fin d) \<longrightarrow>
      getSpendForPeriod d0 st' + fst (reservationActiveTotals st') \<le> d) \<and>
    (\<forall>c. taskUsdCap caps = Some c \<longrightarrow> 0 < c \<longrightarrow> env_usd env st' \<le> c) \<and>
    (\<forall>k. taskTokenCap caps = Some k \<longrightarrow> 0 < k \<longrightarrow> env_tokens env st' \<le> k)"
proof -
  let ?sw = "releaseStaleReservations ttl now st"
  note g = reservationAdmit_granted[OF assms(1)]
  have tot: "fst (reservationActiveTotals st') = fst (reservationActiveTotals ?sw) + usd"
    by (simp add: g(1) reservationActiveTotals_def active_in_append reserved_row_def)
  have spend: "getSpendForPeriod a st' = getSpendForPeriod a st" for a
    by (simp add: g(1) getSpendForPeriod_def)
  have env: "env_usd env st' = env_usd env ?sw + usd" "env_tokens env st' = env_tokens env ?sw + tok"
    by (simp_all add: g(1) env_usd_def env_tokens_def active_in_append reserved_row_def getSessionCostTotals_def)
  show ?thesis
    using g(2,3)[OF assms(2)] task_refusal_None[OF g(4) assms(3)]
    by (auto simp: tot spend env add.assoc)
qed

theorem granted_reservation_within_caps_witness:
  "\<exists>st'. reservationAdmit 120000 2000 0 0 ''res_1'' ''s1'' (1 / 4) 500 demo_caps demo_store = Inr (Granted ''res_1'', st') \<and>
     env_usd ''s1'' st' \<le> 1"
proof -
  have "(case reservationAdmit 120000 2000 0 0 ''res_1'' ''s1'' (1 / 4) 500 demo_caps demo_store of
      Inr (Granted i, _) \<Rightarrow> i = ''res_1'' | _ \<Rightarrow> False)" by code_simp
  then obtain st' where r: "reservationAdmit 120000 2000 0 0 ''res_1'' ''s1'' (1 / 4) 500 demo_caps demo_store =
      Inr (Granted ''res_1'', st')"
    by (auto split: sum.splits prod.splits admission.splits)
  have "(0::rat) < 1 / 4" "''s1'' \<noteq> []" "taskUsdCap demo_caps = Some 1" "(0::rat) < 1"
    by (simp_all add: demo_caps_def)
  with granted_reservation_within_caps[OF r] r show ?thesis by blast
qed

text \<open>Once a reservation is settled, released or expired, no later operation of any process changes its row: it is settled at most once and never counts against the caps again.\<close>

theorem reservation_settles_at_most_once:
  assumes "r \<in> set (store_reservations st)" and "r_status r \<noteq> R_active"
  shows "r \<in> set (store_reservations (exec_ops apply_store_op ops st))"
  using settled_row.run_fact[of r st ops] assms by blast

theorem reservation_settles_at_most_once_witness:
  "(reserved_row ''res_1'' ''s1'' 1 1 0)\<lparr>r_status := R_released\<rparr> \<in> set (store_reservations
     (exec_ops apply_store_op [S_commit ''res_1'' (Fin 5) (Fin 5) 9, S_sweep 0 99]
       (demo_store\<lparr>store_reservations := [(reserved_row ''res_1'' ''s1'' 1 1 0)\<lparr>r_status := R_released\<rparr>]\<rparr>)))"
  by (rule reservation_settles_at_most_once) simp_all

text \<open>An admission that goes through has swept the crashed: every active reservation left in an open store is younger than the time to live.\<close>

theorem admission_sweeps_stale_reservations:
  assumes "reservationAdmit ttl now d0 m0 rid env usd tok caps st = Inr (a, st')"
    and "\<not> store_closed st" and "0 < ttl" and "r \<in> set (store_reservations st')" and "r_status r = R_active"
  shows "of_int now - ttl < of_int (r_created r)"
proof -
  have sw: "of_int now - ttl < of_int (r_created r)"
    if "r \<in> set (store_reservations (releaseStaleReservations ttl now st))"
    using that assms(2,5) by (auto simp: releaseStaleReservations_def split: if_splits)
  then show ?thesis
    using assms(1,3,4) by (auto simp: reservationAdmit_def Let_def split: if_splits option.splits)
qed

theorem admission_sweeps_stale_reservations_witness:
  "\<exists>st' r. reservationAdmit 1000 5000 0 0 ''res_2'' ''s1'' (1 / 4) 500 demo_caps
       (demo_store\<lparr>store_reservations := [reserved_row ''res_1'' ''s1'' 9 9 100]\<rparr>) = Inr (Granted ''res_2'', st') \<and>
     r \<in> set (store_reservations st') \<and> of_int 5000 - 1000 < (of_int (r_created r) :: rat)"
proof -
  let ?st = "demo_store\<lparr>store_reservations := [reserved_row ''res_1'' ''s1'' 9 9 100]\<rparr>"
  have "(case reservationAdmit 1000 5000 0 0 ''res_2'' ''s1'' (1 / 4) 500 demo_caps ?st of
      Inr (Granted i, _) \<Rightarrow> i = ''res_2'' | _ \<Rightarrow> False)" by code_simp
  then obtain st' where r: "reservationAdmit 1000 5000 0 0 ''res_2'' ''s1'' (1 / 4) 500 demo_caps ?st =
      Inr (Granted ''res_2'', st')"
    by (auto split: sum.splits prod.splits admission.splits)
  have "reserved_row ''res_2'' ''s1'' (1 / 4) 500 5000 \<in> set (store_reservations st')"
    "r_status (reserved_row ''res_2'' ''s1'' (1 / 4) 500 5000) = R_active"
    using reservationAdmit_granted(1)[OF r] by (simp_all add: reserved_row_def)
  moreover have "\<not> store_closed ?st" "(0::rat) < 1000" by (simp_all add: demo_store_def)
  ultimately show ?thesis using admission_sweeps_stale_reservations[OF r] r by blast
qed

text \<open>The budget manager admits a paid request only when the recorded spend and the estimate together stay within the monthly and the daily cap, and it answers nothing but an error while the stored policy is not a finite non-negative number.\<close>

theorem checkBudget_never_overruns:
  assumes "checkBudget (Fin e) d0 m0 st = Inr (BudgetAllow w)" and "0 < e"
  shows "\<exists>cfg m. getConfig st = Inr cfg \<and> monthly_cap cfg = Fin m \<and> 0 \<le> m \<and>
    getSpendForPeriod m0 st + e \<le> m \<and>
    (\<forall>d. daily_cap cfg = Some d \<longrightarrow> (\<exists>q \<ge> 0. d = Fin q \<and> getSpendForPeriod d0 st + e \<le> q))"
proof -
  have e: "finite_nonneg (Fin e)" "\<not> js_le (Fin e) (Fin 0)" using assms(2) by (auto simp: finite_nonneg_def)
  obtain cfg where cfg: "getConfig st = Inr cfg"
    using assms(1) e by (auto simp: checkBudget_def split: sum.splits)
  then obtain m where m: "monthly_cap cfg = Fin m" "0 \<le> m"
    and dl: "\<And>d. daily_cap cfg = Some d \<Longrightarrow> \<exists>q \<ge> 0. d = Fin q"
    by (auto simp: getConfig_def Let_def finite_nonneg_iff split: if_splits option.splits)
  have "\<not> js_lt (Fin m) (Fin (getSpendForPeriod m0 st + e))"
    and "\<And>d. daily_cap cfg = Some d \<Longrightarrow> \<not> js_lt d (Fin (getSpendForPeriod d0 st + e))"
    using assms(1) e cfg m by (auto simp: checkBudget_def getStatus_def Let_def split: if_splits)
  then show ?thesis using cfg m dl by fastforce
qed

theorem checkBudget_never_overruns_witness:
  "\<exists>cfg m. getConfig demo_store = Inr cfg \<and> monthly_cap cfg = Fin m \<and> getSpendForPeriod 0 demo_store + 3 \<le> m"
proof -
  have "checkBudget (Fin 3) 0 0 demo_store = Inr (BudgetAllow (Some (95, 1 / 2, Fin 10)))" by code_simp
  from checkBudget_never_overruns[OF this] show ?thesis by auto
qed

text \<open>
  \<open>percentUsed\<close> is a percentage, the thresholds are fractions: from 0.95 percent of the cap
  the manager announces 95 percent.
\<close>

lemma warning_at_one_percent:
  "checkBudget (Fin 1) 0 0
     (demo_store\<lparr>cost_events := [\<lparr> ce_session = ''s'', ce_in = 0, ce_out = 0, ce_usd = 1 / 10, ce_created = 5 \<rparr>]\<rparr>) =
   Inr (BudgetAllow (Some (95, 1 / 10, Fin 10)))"
  by code_simp

text \<open>
  The setters read the policy through \<open>getConfig\<close>: once an unusable cap is stored, the
  setters that could repair it throw as well.
\<close>

lemma unusable_policy_blocks_its_repair:
  assumes "getConfig st = Inl InvalidBudgetPolicy"
  shows "setMonthlyCap amount st = Inl InvalidBudgetPolicy" and "setDailyCap d st = Inl InvalidBudgetPolicy"
  using assms by (simp_all add: setMonthlyCap_def setDailyCap_def with_config_def)

lemma negative_cap_is_stored:
  "(case setMonthlyCap (Fin (- 5)) demo_store of Inl _ \<Rightarrow> False
    | Inr st \<Rightarrow> getConfig st = Inl InvalidBudgetPolicy)"
  by code_simp

end
