(* ===== verification/Budget_Governor.thy ===== *)
theory Budget_Governor
  imports Budget_Partition Budget_Reservations
begin

text \<open>
  The per-task cost governor (\<open>src/src/cost/governor.ts\<close>): it meters one task, decides
  before every step whether the next call may be made, and holds at most one open
  reservation, in the partition ledger for a partitioned worker and in the workspace's
  reservation table otherwise. The ledger is an interface of the source
  (\<open>PartitionAdmitter\<close>); here it is the locale \<open>partition_admitter\<close>, and the functions take
  its three operations as a record. What one call reads from the clock and draws as an id is
  a \<open>tick\<close>.
\<close>

record tick =
  t_now :: int
  t_day :: int
  t_month :: int
  t_ttl :: rat
  t_rid :: string

text \<open>The interface; a method that throws returns \<open>Inl\<close> and leaves the ledger as it was.\<close>

record ('p, 'e) admitter =
  padmit :: "string \<Rightarrow> string \<Rightarrow> rat \<Rightarrow> rat \<Rightarrow> tick \<Rightarrow> 'p \<Rightarrow> 'e + (AdmitResult \<times> 'p)"
  pcommit :: "string \<Rightarrow> string \<Rightarrow> string \<Rightarrow> jsnum \<Rightarrow> jsnum \<Rightarrow> tick \<Rightarrow> 'p \<Rightarrow> 'e + 'p"
  prelease :: "string \<Rightarrow> string \<Rightarrow> string \<Rightarrow> tick \<Rightarrow> 'p \<Rightarrow> 'e + 'p"

section \<open>The governor's state\<close>

record Budget =
  maxUsd :: "rat option"
  maxTokens :: "rat option"

record Pricing =
  inPerMTok :: jsnum
  outPerMTok :: jsnum
  known :: "bool option"

record CostSnapshot =
  snap_in :: jsnum
  snap_out :: jsnum
  totalTokens :: jsnum
  snap_usd :: jsnum
  pricingAvailable :: bool

record governor =
  inTokens :: jsnum
  outTokens :: jsnum
  usd :: jsnum
  steps :: nat
  openReservationId :: "string option"
  lastCommittedUsd :: jsnum
  lastCommittedTokens :: jsnum
  partitionRef :: "(string \<times> string) option"
  openPartitionReservationId :: "string option"
  budget :: Budget
  pricing :: Pricing
  hasManager :: bool
  hasStore :: bool
  envId :: "string option"

text \<open>The governor with the ledger and the workspace store it talks to.\<close>

record 'p world =
  gov :: governor
  ledger_of :: 'p
  store :: cost_store

datatype gov_reason =
    PriceUnavailableNoRequest
  | InvalidEstimate
  | GlobalRefusal budget_refusal
  | TaskCeilingReached
  | StepTokenCeiling jsnum rat
  | StepSpendCeiling jsnum rat
  | PartitionRefusal deny_reason
  | ReservationRefusal cap_reason

datatype GovernorDecision =
    GovAllow "(int \<times> rat \<times> jsnum) option"
  | GovDeny gov_reason CostSnapshot "bool option"

datatype 'e gov_exn = StoreThrew store_error | LedgerThrew 'e | InvalidProviderUsage

definition new_governor :: "Budget \<Rightarrow> Pricing \<Rightarrow> bool \<Rightarrow> bool \<Rightarrow> string option \<Rightarrow> governor" where
  "new_governor b p manager rstore env =
     \<lparr> inTokens = Fin 0, outTokens = Fin 0, usd = Fin 0, steps = 0, openReservationId = None,
       lastCommittedUsd = Fin 0, lastCommittedTokens = Fin 0, partitionRef = None,
       openPartitionReservationId = None, budget = b, pricing = p,
       hasManager = manager, hasStore = rstore, envId = env \<rparr>"

section \<open>Metering\<close>

definition record_usage :: "jsnum \<Rightarrow> jsnum \<Rightarrow> governor \<Rightarrow> 'e gov_exn + governor" where
  "record_usage inTok outTok g =
     (if \<not> finite_nonneg inTok \<or> \<not> finite_nonneg outTok then Inl InvalidProviderUsage
      else Inr (g\<lparr>inTokens := js_add (inTokens g) inTok,
                 outTokens := js_add (outTokens g) outTok,
                 usd := js_add (usd g)
                   (js_add (js_mul (js_div_by inTok 1000000) (inPerMTok (pricing g)))
                           (js_mul (js_div_by outTok 1000000) (outPerMTok (pricing g)))),
                 steps := Suc (steps g)\<rparr>))"

definition addUsage :: "jsnum \<Rightarrow> jsnum \<Rightarrow> jsnum \<Rightarrow> governor \<Rightarrow> governor" where
  "addUsage inTok outTok u g =
     g\<lparr>inTokens := js_add (inTokens g) inTok, outTokens := js_add (outTokens g) outTok,
       usd := js_add (usd g) u\<rparr>"

definition snapshot :: "governor \<Rightarrow> CostSnapshot" where
  "snapshot g =
     \<lparr> snap_in = inTokens g, snap_out = outTokens g,
       totalTokens = js_add (inTokens g) (outTokens g), snap_usd = usd g,
       pricingAvailable = (known (pricing g) \<noteq> Some False \<and>
         is_finite (inPerMTok (pricing g)) \<and> is_finite (outPerMTok (pricing g))) \<rparr>"

definition overBudget :: "governor \<Rightarrow> bool" where
  "overBudget g =
     (let s = snapshot g in
        (case maxTokens (budget g) of None \<Rightarrow> False | Some m \<Rightarrow> js_le (Fin m) (totalTokens s)) \<or>
        (case maxUsd (budget g) of None \<Rightarrow> False | Some m \<Rightarrow> m > 0 \<and> js_le (Fin m) (snap_usd s)))"

text \<open>\<open>raise\<close>: a zero or absent extra changes nothing, an absent ceiling stays absent.\<close>

definition raised :: "rat option \<Rightarrow> rat option \<Rightarrow> rat option" where
  "raised extra cur =
     (case extra of None \<Rightarrow> cur
      | Some x \<Rightarrow> if x = 0 then cur else map_option (\<lambda>m. m + x) cur)"

definition raise_ceiling :: "rat option \<Rightarrow> rat option \<Rightarrow> governor \<Rightarrow> governor" where
  "raise_ceiling extraUsd extraTokens g =
     g\<lparr>budget := \<lparr> maxUsd = raised extraUsd (maxUsd (budget g)),
                  maxTokens = raised extraTokens (maxTokens (budget g)) \<rparr>\<rparr>"

section \<open>Reservations\<close>

text \<open>
  \<open>settleOpenReservation\<close>: commits the usage since admission. The identifier is cleared only
  when the commit returned.
\<close>

definition settleOpenReservation ::
  "('p, 'e) admitter \<Rightarrow> tick \<Rightarrow> 'p world \<Rightarrow> 'p world \<times> ('e gov_exn + unit)" where
  "settleOpenReservation ops t w =
     (let g = gov w; s = snapshot g in
      case partitionRef g of
        Some (tid, cid) \<Rightarrow>
          (case openPartitionReservationId g of
             None \<Rightarrow> (w, Inr ())
           | Some rid \<Rightarrow>
               (case pcommit ops tid cid rid
                   (js_max0 (js_sub (snap_usd s) (lastCommittedUsd g)))
                   (js_max0 (js_sub (totalTokens s) (lastCommittedTokens g))) t (ledger_of w) of
                  Inl e \<Rightarrow> (w, Inl (LedgerThrew e))
                | Inr p \<Rightarrow> (w\<lparr>ledger_of := p, gov := g\<lparr>openPartitionReservationId := None\<rparr>\<rparr>, Inr ())))
      | None \<Rightarrow>
          (case openReservationId g of
             None \<Rightarrow> (w, Inr ())
           | Some rid \<Rightarrow>
               (if \<not> hasStore g then (w, Inr ())
                else (w\<lparr>store := reservationCommit rid (js_sub (snap_usd s) (lastCommittedUsd g))
                           (js_sub (totalTokens s) (lastCommittedTokens g)) (t_now t) (store w),
                        gov := g\<lparr>openReservationId := None\<rparr>\<rparr>, Inr ()))))"

definition close_governor :: "('p, 'e) admitter \<Rightarrow> tick \<Rightarrow> 'p world \<Rightarrow> 'p world \<times> ('e gov_exn + unit)" where
  "close_governor = settleOpenReservation"

definition setPricing ::
  "('p, 'e) admitter \<Rightarrow> tick \<Rightarrow> Pricing \<Rightarrow> 'p world \<Rightarrow> 'p world \<times> ('e gov_exn + unit)" where
  "setPricing ops t p w =
     (case settleOpenReservation ops t w of
        (w', Inl e) \<Rightarrow> (w', Inl e)
      | (w', Inr _) \<Rightarrow> (w'\<lparr>gov := (gov w')\<lparr>pricing := p\<rparr>\<rparr>, Inr ()))"

definition attachPartitionLedger :: "string \<Rightarrow> string \<Rightarrow> governor \<Rightarrow> governor" where
  "attachPartitionLedger tid cid g = g\<lparr>partitionRef := Some (tid, cid)\<rparr>"

text \<open>\<open>releaseReservation\<close>: an empty identifier is falsy and releases nothing.\<close>

definition releaseReservation ::
  "('p, 'e) admitter \<Rightarrow> tick \<Rightarrow> string option \<Rightarrow> 'p world \<Rightarrow> 'p world \<times> ('e gov_exn + unit)" where
  "releaseReservation ops t rid w =
     (let g = gov w in
      case partitionRef g of
        Some (tid, cid) \<Rightarrow>
          (case (case rid of Some r \<Rightarrow> Some r | None \<Rightarrow> openPartitionReservationId g) of
             Some r \<Rightarrow>
               (if r = [] then (w\<lparr>gov := g\<lparr>openPartitionReservationId := None\<rparr>\<rparr>, Inr ())
                else (case prelease ops tid cid r t (ledger_of w) of
                  Inl e \<Rightarrow> (w, Inl (LedgerThrew e))
                | Inr p \<Rightarrow> (w\<lparr>ledger_of := p, gov := g\<lparr>openPartitionReservationId := None\<rparr>\<rparr>, Inr ())))
           | None \<Rightarrow> (w\<lparr>gov := g\<lparr>openPartitionReservationId := None\<rparr>\<rparr>, Inr ()))
      | None \<Rightarrow>
          (if \<not> hasStore g then (w, Inr ())
           else (w\<lparr>store :=
               (case rid of
                  Some r \<Rightarrow> if r \<noteq> [] then reservationRelease r (t_now t) (store w)
                     else (case openReservationId g of None \<Rightarrow> store w
                           | Some r' \<Rightarrow> reservationRelease r' (t_now t) (store w))
                | None \<Rightarrow> (case openReservationId g of None \<Rightarrow> store w
                           | Some r' \<Rightarrow> reservationRelease r' (t_now t) (store w))),
              gov := g\<lparr>openReservationId := None\<rparr>\<rparr>, Inr ())))"

section \<open>The decision before a step\<close>

definition js_max :: "jsnum \<Rightarrow> jsnum \<Rightarrow> jsnum" where
  "js_max x y = (if x = NaN \<or> y = NaN then NaN else if js_lt x y then y else x)"

definition step_estimate :: "(jsnum \<times> jsnum) option \<Rightarrow> governor \<Rightarrow> jsnum \<times> jsnum" where
  "step_estimate bounds g =
     (let s = snapshot g;
          avgTokens = (if steps g > 0 then js_div_by (totalTokens s) (of_nat (steps g)) else Fin 2000);
          estTokens = (case bounds of Some (i, out) \<Rightarrow> js_add i out | None \<Rightarrow> js_max avgTokens (Fin 500));
          estUsd = (case bounds of
              Some (i, out) \<Rightarrow> js_div_by (js_add (js_mul i (inPerMTok (pricing g)))
                                             (js_mul out (outPerMTok (pricing g)))) 1000000
            | None \<Rightarrow> if steps g > 0 then js_div_by (snap_usd s) (of_nat (steps g))
                      else js_mul (js_div_by estTokens 1000000) (outPerMTok (pricing g)))
      in (estTokens, estUsd))"

definition ceiling_refusal :: "jsnum \<Rightarrow> jsnum \<Rightarrow> governor \<Rightarrow> gov_reason option" where
  "ceiling_refusal estTokens estUsd g =
     (let s = snapshot g in
      if overBudget g then Some TaskCeilingReached
      else case maxTokens (budget g) of
        Some m \<Rightarrow>
          (if js_lt (Fin m) (js_add (totalTokens s) estTokens) then Some (StepTokenCeiling estTokens m)
           else case maxUsd (budget g) of
             Some u \<Rightarrow> (if u > 0 \<and> js_lt (Fin u) (js_add (snap_usd s) estUsd)
                        then Some (StepSpendCeiling estUsd u) else None)
           | None \<Rightarrow> None)
      | None \<Rightarrow>
          (case maxUsd (budget g) of
             Some u \<Rightarrow> (if u > 0 \<and> js_lt (Fin u) (js_add (snap_usd s) estUsd)
                        then Some (StepSpendCeiling estUsd u) else None)
           | None \<Rightarrow> None))"

definition mark_admitted :: "governor \<Rightarrow> governor" where
  "mark_admitted g =
     g\<lparr>lastCommittedUsd := snap_usd (snapshot g), lastCommittedTokens := totalTokens (snapshot g)\<rparr>"

definition global_check :: "tick \<Rightarrow> jsnum \<Rightarrow> 'p world \<Rightarrow> store_error + BudgetCheckResult" where
  "global_check t estUsd w =
     (if hasManager (gov w) then checkBudget estUsd (t_day t) (t_month t) (store w)
      else Inr (BudgetAllow None))"

definition global_caps :: "'p world \<Rightarrow> store_error + (rat option \<times> rat option)" where
  "global_caps w =
     (if hasManager (gov w) then
        (case getConfig (store w) of
           Inl e \<Rightarrow> Inl e
         | Inr cfg \<Rightarrow> Inr (Some (rat_of_js (monthly_cap cfg)), map_option rat_of_js (daily_cap cfg)))
      else Inr (None, None))"

text \<open>\<open>admitStep\<close> on the workspace's reservation table.\<close>

definition admitStep ::
  "tick \<Rightarrow> string \<Rightarrow> rat \<Rightarrow> rat \<Rightarrow> ReservationCaps \<Rightarrow> 'p world \<Rightarrow>
     'p world \<times> ('e gov_exn + GovernorDecision)" where
  "admitStep t env estUsd estTokens caps w =
     (let g = gov w in
      if \<not> hasStore g then (w, Inr (GovAllow None))
      else case reservationAdmit (t_ttl t) (t_now t) (t_day t) (t_month t) (''res_'' @ t_rid t) env estUsd estTokens
               caps (store w) of
        Inl e \<Rightarrow> (w, Inl (StoreThrew e))
      | Inr (Refused r local, st) \<Rightarrow>
          (w\<lparr>store := st\<rparr>, Inr (GovDeny (ReservationRefusal r) (snapshot g) (Some local)))
      | Inr (Granted rid, st) \<Rightarrow>
          (w\<lparr>store := st, gov := mark_admitted (g\<lparr>openReservationId := Some rid\<rparr>)\<rparr>, Inr (GovAllow None)))"

definition partition_step ::
  "('p, 'e) admitter \<Rightarrow> tick \<Rightarrow> string \<Rightarrow> string \<Rightarrow> rat \<Rightarrow> rat \<Rightarrow> (int \<times> rat \<times> jsnum) option \<Rightarrow>
     'p world \<Rightarrow> 'p world \<times> ('e gov_exn + GovernorDecision)" where
  "partition_step ops t tid cid estUsd estTokens warning w =
     (let g = gov w in
      case padmit ops tid cid estUsd estTokens t (ledger_of w) of
        Inl e \<Rightarrow> (w, Inl (LedgerThrew e))
      | Inr (Denied d, p) \<Rightarrow>
          (w\<lparr>ledger_of := p\<rparr>, Inr (GovDeny (PartitionRefusal d) (snapshot g) None))
      | Inr (Admitted rid, p) \<Rightarrow>
          (w\<lparr>ledger_of := p, gov := mark_admitted (g\<lparr>openPartitionReservationId := Some rid\<rparr>)\<rparr>,
           Inr (GovAllow warning)))"

definition reservation_step ::
  "tick \<Rightarrow> rat \<Rightarrow> rat \<Rightarrow> (int \<times> rat \<times> jsnum) option \<Rightarrow> 'p world \<Rightarrow>
     'p world \<times> ('e gov_exn + GovernorDecision)" where
  "reservation_step t estUsd estTokens warning w =
     (let g = gov w in
      case envId g of
        Some env \<Rightarrow>
          (if hasStore g \<and> env \<noteq> [] then
             (case global_caps w of
                Inl e \<Rightarrow> (w, Inl (StoreThrew e))
              | Inr (monthly, daily) \<Rightarrow>
                  (case admitStep t env estUsd estTokens
                      \<lparr> monthlyCapUsd = monthly, dailyCapUsd = daily,
                        taskUsdCap = maxUsd (budget g), taskTokenCap = maxTokens (budget g) \<rparr> w of
                     (w', Inr (GovAllow _)) \<Rightarrow> (w', Inr (GovAllow warning))
                   | other \<Rightarrow> other))
           else (w, Inr (GovAllow warning)))
      | None \<Rightarrow> (w, Inr (GovAllow warning)))"

definition decide_step ::
  "('p, 'e) admitter \<Rightarrow> tick \<Rightarrow> (jsnum \<times> jsnum) option \<Rightarrow> 'p world \<Rightarrow>
     'p world \<times> ('e gov_exn + GovernorDecision)" where
  "decide_step ops t bounds w =
     (let g = gov w; s = snapshot g; (estTokens, estUsd) = step_estimate bounds g in
      if \<not> pricingAvailable s then (w, Inr (GovDeny PriceUnavailableNoRequest s None))
      else if \<not> finite_nonneg estTokens \<or> \<not> finite_nonneg estUsd
      then (w, Inr (GovDeny InvalidEstimate s None))
      else case global_check t estUsd w of
        Inl e \<Rightarrow> (w, Inl (StoreThrew e))
      | Inr (BudgetDeny r local) \<Rightarrow> (w, Inr (GovDeny (GlobalRefusal r) s (Some local)))
      | Inr (BudgetAllow warning) \<Rightarrow>
          (case ceiling_refusal estTokens estUsd g of
             Some r \<Rightarrow> (w, Inr (GovDeny r s None))
           | None \<Rightarrow>
               (case partitionRef g of
                  Some (tid, cid) \<Rightarrow>
                    partition_step ops t tid cid (rat_of_js estUsd) (rat_of_js estTokens) warning w
                | None \<Rightarrow>
                    reservation_step t (rat_of_js estUsd) (rat_of_js estTokens) warning w)))"

definition checkBeforeStep ::
  "('p, 'e) admitter \<Rightarrow> tick \<Rightarrow> (jsnum \<times> jsnum) option \<Rightarrow> 'p world \<Rightarrow>
     'p world \<times> ('e gov_exn + GovernorDecision)" where
  "checkBeforeStep ops t bounds w =
     (case settleOpenReservation ops t w of
        (w', Inl e) \<Rightarrow> (w', Inl e)
      | (w', Inr _) \<Rightarrow> decide_step ops t bounds w')"

section \<open>What the governor relies on\<close>

text \<open>
  The contract of the ledger behind \<open>PartitionAdmitter\<close>: \<open>holds p t c i\<close> says that
  reservation \<open>i\<close> of child \<open>c\<close> of task \<open>t\<close> is in flight. An admission puts nothing else in
  flight than what it returns, under a non-empty name; a commit or a release that returns has ended its reservation
  and started none.
\<close>

locale partition_admitter =
  fixes ops :: "('p, 'e) admitter"
    and inv :: "'p \<Rightarrow> bool"
    and holds :: "'p \<Rightarrow> string \<Rightarrow> string \<Rightarrow> string \<Rightarrow> bool"
  assumes admit_inv: "inv p \<Longrightarrow> padmit ops t c u k tk p = Inr (r, p') \<Longrightarrow> inv p'"
    and commit_inv: "inv p \<Longrightarrow> pcommit ops t c i a b tk p = Inr p' \<Longrightarrow> inv p'"
    and release_inv: "inv p \<Longrightarrow> prelease ops t c i tk p = Inr p' \<Longrightarrow> inv p'"
    and admit_holds: "inv p \<Longrightarrow> padmit ops t c u k tk p = Inr (r, p') \<Longrightarrow> holds p' t c i \<Longrightarrow>
      holds p t c i \<or> r = Admitted i"
    and admit_names: "padmit ops t c u k tk p = Inr (Admitted i, p') \<Longrightarrow> i \<noteq> []"
    and commit_ends: "inv p \<Longrightarrow> pcommit ops t c i a b tk p = Inr p' \<Longrightarrow> holds p' t c j \<Longrightarrow>
      holds p t c j \<and> j \<noteq> i"
    and release_ends: "inv p \<Longrightarrow> prelease ops t c i tk p = Inr p' \<Longrightarrow> holds p' t c j \<Longrightarrow>
      holds p t c j \<and> j \<noteq> i"

text \<open>The calls a run makes on its governor once the partition is attached.\<close>

datatype gov_op =
    G_check tick "(jsnum \<times> jsnum) option"
  | G_record jsnum jsnum
  | G_add jsnum jsnum jsnum
  | G_pricing tick Pricing
  | G_release tick "string option"
  | G_raise "rat option" "rat option"
  | G_close tick

fun apply_gov_op :: "('p, 'e) admitter \<Rightarrow> gov_op \<Rightarrow> 'p world \<Rightarrow> 'p world" where
  "apply_gov_op ops (G_check t bounds) w = fst (checkBeforeStep ops t bounds w)"
| "apply_gov_op ops (G_record i out) w =
     (case record_usage i out (gov w) of Inl (_ :: unit gov_exn) \<Rightarrow> w | Inr g \<Rightarrow> w\<lparr>gov := g\<rparr>)"
| "apply_gov_op ops (G_add i out u) w = w\<lparr>gov := addUsage i out u (gov w)\<rparr>"
| "apply_gov_op ops (G_pricing t p) w = fst (setPricing ops t p w)"
| "apply_gov_op ops (G_release t rid) w = fst (releaseReservation ops t rid w)"
| "apply_gov_op ops (G_raise u k) w = w\<lparr>gov := raise_ceiling u k (gov w)\<rparr>"
| "apply_gov_op ops (G_close t) w = fst (close_governor ops t w)"

text \<open>A release that names a reservation names the open one, if there is one.\<close>

fun names_own :: "gov_op \<Rightarrow> 'p world \<Rightarrow> bool" where
  "names_own (G_release t (Some rid)) w \<longleftrightarrow> openPartitionReservationId (gov w) \<in> {None, Some rid}"
| "names_own _ w \<longleftrightarrow> True"

text \<open>\<open>bound_to\<close>: the governor is attached to the child; \<open>own_only J\<close>: all it has in flight beyond \<open>J\<close> is its open reservation.\<close>

definition bound_to :: "string \<Rightarrow> string \<Rightarrow> 'p world \<Rightarrow> bool" where
  "bound_to tid cid w \<longleftrightarrow> partitionRef (gov w) = Some (tid, cid)"

definition own_only ::
  "('p \<Rightarrow> string \<Rightarrow> string \<Rightarrow> string \<Rightarrow> bool) \<Rightarrow> string \<Rightarrow> string \<Rightarrow> string set \<Rightarrow> 'p world \<Rightarrow> bool" where
  "own_only holds tid cid J w \<longleftrightarrow>
     (\<forall>i. holds (ledger_of w) tid cid i \<longrightarrow> i \<in> J \<or> openPartitionReservationId (gov w) = Some i)"

lemma mark_admitted_fields [simp]:
  "partitionRef (mark_admitted g) = partitionRef g"
  "openPartitionReservationId (mark_admitted g) = openPartitionReservationId g"
  by (simp_all add: mark_admitted_def)

definition tidy_world ::
  "('p \<Rightarrow> bool) \<Rightarrow> ('p \<Rightarrow> string \<Rightarrow> string \<Rightarrow> string \<Rightarrow> bool) \<Rightarrow> string \<Rightarrow> string \<Rightarrow> string set \<Rightarrow>
     'p world \<Rightarrow> bool" where
  "tidy_world okp holds tid cid J w \<longleftrightarrow>
     okp (ledger_of w) \<and> bound_to tid cid w \<and> own_only holds tid cid J w \<and>
     openPartitionReservationId (gov w) \<noteq> Some []"

context partition_admitter
begin

abbreviation tidy :: "string \<Rightarrow> string \<Rightarrow> string set \<Rightarrow> 'p world \<Rightarrow> bool" where
  "tidy \<equiv> tidy_world inv holds"

lemma settle_tidy:
  assumes "tidy tid cid J w" and "settleOpenReservation ops t w = (w', r)"
  shows "tidy tid cid J w'" and "r = Inr () \<Longrightarrow> openPartitionReservationId (gov w') = None"
proof -
  have b: "partitionRef (gov w) = Some (tid, cid)" using assms(1) by (simp add: tidy_world_def bound_to_def)
  have "tidy tid cid J w' \<and> (r = Inr () \<longrightarrow> openPartitionReservationId (gov w') = None)"
  proof (cases "openPartitionReservationId (gov w)")
    case None
    then show ?thesis using assms b by (auto simp: settleOpenReservation_def Let_def)
  next
    case (Some i)
    let ?s = "snapshot (gov w)"
    show ?thesis
    proof (cases "pcommit ops tid cid i (js_max0 (js_sub (snap_usd ?s) (lastCommittedUsd (gov w))))
        (js_max0 (js_sub (totalTokens ?s) (lastCommittedTokens (gov w)))) t (ledger_of w)")
      case (Inl e)
      then show ?thesis using assms b Some by (auto simp: settleOpenReservation_def Let_def)
    next
      case (Inr p)
      have w': "w' = w\<lparr>ledger_of := p, gov := (gov w)\<lparr>openPartitionReservationId := None\<rparr>\<rparr>"
        using assms(2) b Some Inr by (simp add: settleOpenReservation_def Let_def)
      have "inv p" using commit_inv[OF _ Inr] assms(1) by (simp add: tidy_world_def)
      moreover have "holds p tid cid j \<Longrightarrow> j \<in> J" for j
        using commit_ends[OF _ Inr, of j] assms(1) Some by (auto simp: tidy_world_def own_only_def)
      ultimately show ?thesis using b by (simp add: w' tidy_world_def bound_to_def own_only_def)
    qed
  qed
  then show "tidy tid cid J w'" and "r = Inr () \<Longrightarrow> openPartitionReservationId (gov w') = None"
    by blast+
qed

lemma partition_step_tidy:
  assumes "tidy tid cid J w" and "openPartitionReservationId (gov w) = None"
  shows "tidy tid cid J (fst (partition_step ops t tid cid u k warning w))"
proof (cases "padmit ops tid cid u k t (ledger_of w)")
  case (Inl e)
  then show ?thesis using assms by (simp add: partition_step_def Let_def)
next
  case (Inr b)
  obtain r p where b: "b = (r, p)" by (cases b)
  note pa = Inr[unfolded b]
  have i: "inv p" using admit_inv[OF _ pa] assms(1) by (simp add: tidy_world_def)
  have h: "holds p tid cid j \<Longrightarrow> j \<in> J \<or> r = Admitted j" for j
    using admit_holds[OF _ pa, of j] assms by (auto simp: tidy_world_def own_only_def)
  show ?thesis
    using assms i h pa admit_names
    by (cases r) (auto simp: partition_step_def Let_def tidy_world_def bound_to_def own_only_def)
qed

lemma decide_tidy:
  assumes "tidy tid cid J w" and "openPartitionReservationId (gov w) = None"
  shows "tidy tid cid J (fst (decide_step ops t bounds w))"
proof -
  have "partitionRef (gov w) = Some (tid, cid)" using assms(1) by (simp add: tidy_world_def bound_to_def)
  then show ?thesis
    using assms(1) partition_step_tidy[OF assms]
    by (simp add: decide_step_def Let_def split: prod.split sum.split BudgetCheckResult.split option.split)
qed

lemma check_tidy:
  assumes "tidy tid cid J w"
  shows "tidy tid cid J (fst (checkBeforeStep ops t bounds w))"
proof -
  obtain w' r where s: "settleOpenReservation ops t w = (w', r)" by fastforce
  show ?thesis
    using settle_tidy[OF assms s] decide_tidy[of tid cid J w' t bounds] s
    by (cases r) (simp_all add: checkBeforeStep_def)
qed

lemma release_id_tidy:
  assumes "tidy tid cid J w" and "i \<noteq> []" and "openPartitionReservationId (gov w) \<in> {None, Some i}"
  shows "tidy tid cid J (fst (releaseReservation ops t (Some i) w))"
proof -
  have b: "partitionRef (gov w) = Some (tid, cid)" using assms(1) by (auto simp: tidy_world_def bound_to_def)
  show ?thesis
  proof (cases "prelease ops tid cid i t (ledger_of w)")
    case (Inl e)
    then show ?thesis using assms b by (simp add: releaseReservation_def Let_def)
  next
    case (Inr p)
    have "inv p" using release_inv[OF _ Inr] assms(1) by (simp add: tidy_world_def)
    moreover have "holds p tid cid j \<Longrightarrow> j \<in> J" for j
      using release_ends[OF _ Inr, of j] assms(1,3) by (auto simp: tidy_world_def own_only_def)
    ultimately show ?thesis
      using b assms(2) Inr
      by (simp add: releaseReservation_def Let_def tidy_world_def bound_to_def own_only_def)
  qed
qed

lemma release_tidy:
  assumes "tidy tid cid J w" and "names_own (G_release t rid) w"
  shows "tidy tid cid J (fst (releaseReservation ops t rid w))"
proof (cases "case rid of Some r \<Rightarrow> Some r | None \<Rightarrow> openPartitionReservationId (gov w)")
  case None
  then show ?thesis
    using assms(1)
    by (simp add: releaseReservation_def Let_def tidy_world_def bound_to_def own_only_def split: option.splits)
next
  case (Some i)
  have b: "partitionRef (gov w) = Some (tid, cid)" and n: "openPartitionReservationId (gov w) \<noteq> Some []"
    using assms(1) by (auto simp: tidy_world_def bound_to_def)
  have o: "openPartitionReservationId (gov w) \<in> {None, Some i}"
    using Some assms(2) by (cases rid) simp_all
  show ?thesis
  proof (cases "i = []")
    case True
    then show ?thesis using assms(1) b n o Some
      by (auto simp: releaseReservation_def Let_def tidy_world_def bound_to_def own_only_def)
  next
    case False
    have "fst (releaseReservation ops t rid w) = fst (releaseReservation ops t (Some i) w)"
      using b Some by (simp add: releaseReservation_def Let_def)
    then show ?thesis using release_id_tidy[OF assms(1) False o] by simp
  qed
qed

lemma pricing_tidy:
  assumes "tidy tid cid J w"
  shows "tidy tid cid J (fst (setPricing ops t p w))"
proof -
  obtain w' r where s: "settleOpenReservation ops t w = (w', r)" by fastforce
  show ?thesis
    using settle_tidy(1)[OF assms s] s
    by (cases r) (simp_all add: setPricing_def tidy_world_def bound_to_def own_only_def)
qed

lemma close_tidy:
  assumes "tidy tid cid J w"
  shows "tidy tid cid J (fst (close_governor ops t w))"
    and "snd (close_governor ops t w) = Inr () \<Longrightarrow>
      holds (ledger_of (fst (close_governor ops t w))) tid cid j \<Longrightarrow> j \<in> J"
proof -
  obtain w' r where s: "settleOpenReservation ops t w = (w', r)" by fastforce
  note st = settle_tidy[OF assms s]
  show "tidy tid cid J (fst (close_governor ops t w))" using st s by (simp add: close_governor_def)
  show "snd (close_governor ops t w) = Inr () \<Longrightarrow>
      holds (ledger_of (fst (close_governor ops t w))) tid cid j \<Longrightarrow> j \<in> J"
    using st s by (auto simp: close_governor_def tidy_world_def own_only_def)
qed

lemma gov_op_tidy:
  assumes "tidy tid cid J w" and "names_own x w"
  shows "tidy tid cid J (apply_gov_op ops x w)"
proof (cases x)
  case (G_record i out)
  then show ?thesis using assms
    by (auto simp: record_usage_def tidy_world_def bound_to_def own_only_def)
next
  case (G_release t rid)
  then show ?thesis using release_tidy assms by simp
next
  case (G_add i out u)
  then show ?thesis using assms by (simp add: addUsage_def tidy_world_def bound_to_def own_only_def)
next
  case (G_raise u k)
  then show ?thesis using assms by (simp add: raise_ceiling_def tidy_world_def bound_to_def own_only_def)
qed (use assms in \<open>simp_all add: check_tidy pricing_tidy close_tidy(1)\<close>)

lemma gov_run_tidy:
  "tidy tid cid J w \<Longrightarrow> guarded_run (apply_gov_op ops) names_own xs w \<Longrightarrow>
     tidy tid cid J (exec_ops (apply_gov_op ops) xs w)"
  by (induction xs arbitrary: w) (simp_all add: gov_op_tidy)

end

section \<open>The partition ledger provides the contract\<close>

definition ledger_admitter :: "(ledger, partition_error) admitter" where
  "ledger_admitter =
     \<lparr> padmit = (\<lambda>t c u k tk p. admit t c u k (t_now tk) (''pr_'' @ t_rid tk) p),
       pcommit = (\<lambda>t c i u k tk p. case (u, k) of
          (Fin a, Fin b) \<Rightarrow> map_sum (\<lambda>e. e) snd (commit t c i a b (t_now tk) p)
        | _ \<Rightarrow> Inl ConstraintViolation),
       prelease = (\<lambda>t c i tk p. map_sum (\<lambda>e. e) snd (release t c i (t_now tk) p)) \<rparr>"

definition ledger_inv :: "ledger \<Rightarrow> bool" where
  "ledger_inv led \<longleftrightarrow> ledger_wf led \<and> enabled led"

definition ledger_holds :: "ledger \<Rightarrow> string \<Rightarrow> string \<Rightarrow> string \<Rightarrow> bool" where
  "ledger_holds led t c i \<longleftrightarrow>
     (\<exists>r \<in> set (reservations led). res_id r = i \<and> res_task r = t \<and> res_child r = c \<and> res_status r = Active)"

lemma admit_enabled: "admit t c u k now i led = Inr (x, led') \<Longrightarrow> enabled led' = enabled led"
  by (drule admit_effect) auto

lemma commit_enabled: "commit t c i u k now led = Inr (x, led') \<Longrightarrow> enabled led' = enabled led"
  by (drule commit_effect) auto

lemma release_enabled: "release t c i now led = Inr (x, led') \<Longrightarrow> enabled led' = enabled led"
  by (drule release_effect) auto

lemma admit_result: "admit t c u k now i led = Inr (Admitted j, led') \<Longrightarrow> j = i"
  by (drule admit_effect) auto

lemma sweep_active:
  "r \<in> set (sweepStale ttl t now rs) \<Longrightarrow> res_status r = Active \<Longrightarrow> r \<in> set rs"
  by (auto simp: sweepStale_def split: if_splits)

lemma admit_ledger_holds:
  assumes "admit t c u k now i led = Inr (x, led')" and "ledger_holds led' t' c' j"
  shows "ledger_holds led t' c' j \<or> x = Admitted j"
  using admit_effect[OF assms(1)] assms(2)
  by (fastforce simp: ledger_holds_def dest: sweep_active)

lemma release_ledger_holds:
  assumes "release t c i now led = Inr (x, led')" and "enabled led" and "ledger_holds led' t c j"
  shows "ledger_holds led t c j \<and> j \<noteq> i"
proof -
  have led': "reservations led' = map (release_row i t c now) (reservations led)"
  proof -
    obtain t' c' where "sanitizeKey t = Inr t'" "sanitizeKey c = Inr c'"
      using assms(1,2) by (auto simp: release_def split: sum.splits)
    then show ?thesis
      using assms(1,2) sanitizeKey_Inr[of t t'] sanitizeKey_Inr[of c c']
      by (auto simp: release_def release_row_def[abs_def])
  qed
  obtain r where r: "r \<in> set (reservations led)" "res_status (release_row i t c now r) = Active"
    "res_id (release_row i t c now r) = j" "res_task (release_row i t c now r) = t"
    "res_child (release_row i t c now r) = c"
    using assms(3) led' by (auto simp: ledger_holds_def)
  then have "release_row i t c now r = r" "\<not> (res_id r = i \<and> res_task r = t \<and> res_child r = c)"
    by (auto simp: release_row_def split: if_splits)
  with r show ?thesis by (auto simp: ledger_holds_def)
qed

lemma find_held:
  assumes "ledger_wf led" and "ledger_holds led t c i"
  shows "\<exists>r. find_reservation i t c (reservations led) = Some r \<and> res_status r = Active"
proof -
  obtain r where r: "r \<in> set (reservations led)" "res_id r = i" "res_task r = t" "res_child r = c"
    "res_status r = Active" using assms(2) by (auto simp: ledger_holds_def)
  have d: "distinct (map res_id (reservations led))"
    using assms(1) by (simp add: ledger_wf_def reservations_wf_def)
  have "find_reservation i t c (reservations led) \<noteq> None"
    using r by (auto simp: find_reservation_def find_None_iff)
  then obtain q where q: "find_reservation i t c (reservations led) = Some q" by auto
  then have "q \<in> set (reservations led)" "res_id q = i"
    using find_SomeD[OF q[unfolded find_reservation_def]] by simp_all
  then have "q = r" using d r(1,2) by (metis distinct_map inj_onD)
  with q r(5) show ?thesis by simp
qed

lemma commit_ledger_holds:
  assumes "commit t c i u k now led = Inr (x, led')" and "ledger_inv led" and "ledger_holds led' t c j"
  shows "ledger_holds led t c j \<and> j \<noteq> i"
proof (cases "\<exists>r. find_reservation i t c (reservations led) = Some r \<and> res_status r = Active")
  case True
  then have "reservations led' = settle_rows i (max 0 u) (max 0 \<lfloor>k\<rfloor>) now (reservations led)"
    using assms(1,2)
    by (auto simp: commit_def Let_def ledger_inv_def dest!: sanitizeKey_Inr split: sum.splits)
  then show ?thesis using assms(3) by (auto simp: ledger_holds_def settle_rows_def split: if_splits)
next
  case False
  then have "led' = led" using commit_effect[OF assms(1)] by auto
  moreover have "\<not> ledger_holds led t c i" using False find_held[of led t c i] assms(2) by (auto simp: ledger_inv_def)
  ultimately show ?thesis using assms(3) by auto
qed

lemma ledger_admitter_simps [simp]:
  "padmit ledger_admitter t c u k tk p = admit t c u k (t_now tk) (''pr_'' @ t_rid tk) p"
  "prelease ledger_admitter t c i tk p = map_sum (\<lambda>e. e) snd (release t c i (t_now tk) p)"
  by (simp_all add: ledger_admitter_def)

lemma map_sum_snd_Inr: "map_sum (\<lambda>e. e) snd r = Inr p \<Longrightarrow> \<exists>x. r = Inr (x, p)"
  by (cases r) auto

lemma ledger_commit_Inr:
  assumes "pcommit ledger_admitter t c i u k tk p = Inr p'"
  obtains a b where "u = Fin a" "k = Fin b" "commit t c i a b (t_now tk) p = Inr ((), p')"
  using assms by (auto simp: ledger_admitter_def split: jsnum.splits dest!: map_sum_snd_Inr)

interpretation ledger_contract: partition_admitter ledger_admitter ledger_inv ledger_holds
proof unfold_locales
  fix p t c u k tk r p' assume "ledger_inv p" "padmit ledger_admitter t c u k tk p = Inr (r, p')"
  then show "ledger_inv p'" using admit_wf admit_enabled by (fastforce simp: ledger_inv_def)
next
  fix p t c i a b tk p' assume i: "ledger_inv p" and "pcommit ledger_admitter t c i a b tk p = Inr p'"
  then obtain a' b' where "commit t c i a' b' (t_now tk) p = Inr ((), p')" by (elim ledger_commit_Inr)
  then show "ledger_inv p'" using i commit_wf commit_enabled by (fastforce simp: ledger_inv_def)
next
  fix p t c i tk p' assume i: "ledger_inv p" and "prelease ledger_admitter t c i tk p = Inr p'"
  then obtain x where "release t c i (t_now tk) p = Inr (x, p')" by (auto dest: map_sum_snd_Inr)
  then show "ledger_inv p'" using i release_wf release_enabled by (fastforce simp: ledger_inv_def)
next
  fix p t c u k tk r p' i
  assume "padmit ledger_admitter t c u k tk p = Inr (r, p')" "ledger_holds p' t c i"
  then show "ledger_holds p t c i \<or> r = Admitted i" using admit_ledger_holds by fastforce
next
  fix p t c u k tk i p' assume "padmit ledger_admitter t c u k tk p = Inr (Admitted i, p')"
  then show "i \<noteq> []" using admit_result by fastforce
next
  fix p t c i a b tk p' j
  assume i: "ledger_inv p" and "pcommit ledger_admitter t c i a b tk p = Inr p'" and h: "ledger_holds p' t c j"
  then obtain a' b' where "commit t c i a' b' (t_now tk) p = Inr ((), p')" by (elim ledger_commit_Inr)
  then show "ledger_holds p t c j \<and> j \<noteq> i" using commit_ledger_holds i h by blast
next
  fix p t c i tk p' j
  assume i: "ledger_inv p" and "prelease ledger_admitter t c i tk p = Inr p'" and h: "ledger_holds p' t c j"
  then obtain x where "release t c i (t_now tk) p = Inr (x, p')" by (auto dest: map_sum_snd_Inr)
  then show "ledger_holds p t c j \<and> j \<noteq> i"
    using release_ledger_holds i h by (auto simp: ledger_inv_def)
qed

section \<open>Properties\<close>

text \<open>Settling touches the open reservation only: meters, prices and ceilings stay.\<close>

lemma settle_gov:
  assumes "settleOpenReservation ops t w = (w', r)"
  shows "gov w' = (gov w)\<lparr>openReservationId := openReservationId (gov w'),
      openPartitionReservationId := openPartitionReservationId (gov w')\<rparr>"
  using assms by (auto simp: settleOpenReservation_def Let_def split: option.splits sum.splits if_splits)

lemma step_estimate_cong:
  "step_estimate bounds (g\<lparr>openReservationId := a, openPartitionReservationId := b\<rparr>) = step_estimate bounds g"
  "ceiling_refusal k u (g\<lparr>openReservationId := a, openPartitionReservationId := b\<rparr>) = ceiling_refusal k u g"
  "snapshot (g\<lparr>openReservationId := a, openPartitionReservationId := b\<rparr>) = snapshot g"
  by (simp_all add: step_estimate_def ceiling_refusal_def snapshot_def overBudget_def Let_def
      cong: option.case_cong prod.case_cong if_cong)

lemma ceiling_refusal_None:
  assumes "ceiling_refusal k u g = None"
  shows "maxTokens (budget g) = Some m \<Longrightarrow> \<not> js_lt (Fin m) (js_add (totalTokens (snapshot g)) k)"
    and "maxUsd (budget g) = Some m \<Longrightarrow> 0 < m \<Longrightarrow> \<not> js_lt (Fin m) (js_add (snap_usd (snapshot g)) u)"
  using assms by (auto simp: ceiling_refusal_def Let_def split: option.splits if_splits)

lemma decide_allow:
  assumes "decide_step ops t bounds w = (w', Inr (GovAllow warning))"
  obtains k u where "step_estimate bounds (gov w) = (Fin k, Fin u)" "0 \<le> k" "0 \<le> u"
    "pricingAvailable (snapshot (gov w))" "ceiling_refusal (Fin k) (Fin u) (gov w) = None"
    "\<And>tid cid. partitionRef (gov w) = Some (tid, cid) \<Longrightarrow>
       \<exists>wn. partition_step ops t tid cid u k wn w = (w', Inr (GovAllow warning))"
proof -
  obtain ek eu where e: "step_estimate bounds (gov w) = (ek, eu)" by fastforce
  have f: "pricingAvailable (snapshot (gov w))" "finite_nonneg ek" "finite_nonneg eu"
    using assms e by (auto simp: decide_step_def Let_def split: if_splits)
  then obtain k u where ku: "ek = Fin k" "0 \<le> k" "eu = Fin u" "0 \<le> u" by (auto simp: finite_nonneg_iff)
  have c: "ceiling_refusal ek eu (gov w) = None"
    using assms e f by (auto simp: decide_step_def Let_def split: sum.splits BudgetCheckResult.splits option.splits)
  have "\<exists>wn. partition_step ops t tid cid u k wn w = (w', Inr (GovAllow warning))"
    if "partitionRef (gov w) = Some (tid, cid)" for tid cid
    using assms e f c ku that
    by (auto simp: decide_step_def Let_def split: sum.splits BudgetCheckResult.splits)
  with that[of k u] e f c ku show ?thesis by simp
qed

lemma partition_step_allow:
  assumes "partition_step ops t tid cid u k wn w = (w', Inr (GovAllow x))"
  obtains rid p where "padmit ops tid cid u k t (ledger_of w) = Inr (Admitted rid, p)"
    "w' = w\<lparr>ledger_of := p, gov := mark_admitted ((gov w)\<lparr>openPartitionReservationId := Some rid\<rparr>)\<rparr>"
proof (cases "padmit ops tid cid u k t (ledger_of w)")
  case (Inr b)
  obtain r p where "b = (r, p)" by (cases b)
  then show ?thesis using assms Inr that by (cases r) (simp_all add: partition_step_def Let_def)
qed (use assms in \<open>simp add: partition_step_def Let_def\<close>)

text \<open>C26: When the governor of a partitioned worker allows a step, the price is known, the estimate is a finite amount within the worker's own token and dollar ceilings, the step holds a reservation in the ledger, and the child and the root envelope can both bear it.\<close>

theorem allowed_step_is_affordable:
  assumes "checkBeforeStep ledger_admitter t bounds w = (w', Inr (GovAllow warning))"
    and "ledger_inv (ledger_of w)" and "partitionRef (gov w) = Some (tid, cid)"
  shows "\<exists>k u rid. step_estimate bounds (gov w) = (Fin k, Fin u) \<and> 0 \<le> k \<and> 0 \<le> u \<and>
    pricingAvailable (snapshot (gov w)) \<and>
    (\<forall>m. maxTokens (budget (gov w)) = Some m \<longrightarrow> \<not> js_lt (Fin m) (js_add (totalTokens (snapshot (gov w))) (Fin k))) \<and>
    (\<forall>m. maxUsd (budget (gov w)) = Some m \<longrightarrow> 0 < m \<longrightarrow> \<not> js_lt (Fin m) (js_add (usd (gov w)) (Fin u))) \<and>
    openPartitionReservationId (gov w') = Some rid \<and> ledger_holds (ledger_of w') tid cid rid \<and>
    (\<forall>p \<in> set (partitions (ledger_of w')). task_id p = tid \<longrightarrow> child_id p = ROOT_CHILD_ID \<or> child_id p = cid \<longrightarrow>
       usd_within p (ledger_of w') \<and> tokens_within p (ledger_of w'))"
proof -
  obtain w1 r where s: "settleOpenReservation ledger_admitter t w = (w1, r)" by fastforce
  have r: "r = Inr ()" "decide_step ledger_admitter t bounds w1 = (w', Inr (GovAllow warning))"
    using assms(1) s by (auto simp: checkBeforeStep_def split: sum.splits)
  have same: "step_estimate bounds (gov w1) = step_estimate bounds (gov w)"
    "ceiling_refusal k u (gov w1) = ceiling_refusal k u (gov w)" "snapshot (gov w1) = snapshot (gov w)"
    "partitionRef (gov w1) = Some (tid, cid)" for k u
    by (subst settle_gov[OF s], simp add: step_estimate_cong assms(3))+
  obtain k u where d: "step_estimate bounds (gov w1) = (Fin k, Fin u)" "0 \<le> k" "0 \<le> u"
    "pricingAvailable (snapshot (gov w1))" "ceiling_refusal (Fin k) (Fin u) (gov w1) = None"
    "\<exists>wn. partition_step ledger_admitter t tid cid u k wn w1 = (w', Inr (GovAllow warning))"
    using decide_allow[OF r(2)] same(4) by metis
  have inv1: "ledger_inv (ledger_of w1)"
    using s assms(2,3) ledger_contract.commit_inv
    by (auto simp: settleOpenReservation_def Let_def split: option.splits sum.splits)
  obtain rid p where a: "admit tid cid u k (t_now t) (''pr_'' @ t_rid t) (ledger_of w1) = Inr (Admitted rid, p)"
    and w': "w' = w1\<lparr>ledger_of := p, gov := mark_admitted ((gov w1)\<lparr>openPartitionReservationId := Some rid\<rparr>)\<rparr>"
    using d(6) by (auto elim: partition_step_allow)
  have "ledger_holds p tid cid rid"
    using admit_effect[OF a] by (auto simp: ledger_holds_def)
  moreover have "usd_within q p \<and> tokens_within q p"
    if "q \<in> set (partitions p)" "task_id q = tid" "child_id q = ROOT_CHILD_ID \<or> child_id q = cid" for q
    using granted_within[OF _ a that] inv1 by (simp add: ledger_inv_def)
  moreover have "snap_usd (snapshot (gov w)) = usd (gov w)" by (simp add: snapshot_def)
  ultimately show ?thesis
    using d ceiling_refusal_None[of "Fin k" "Fin u" "gov w"] unfolding same w' by simp
qed

definition demo_price :: Pricing where
  "demo_price = \<lparr> inPerMTok = Fin 3, outPerMTok = Fin 15, known = None \<rparr>"

definition demo_tick :: "int \<Rightarrow> string \<Rightarrow> tick" where
  "demo_tick now rid = \<lparr> t_now = now, t_day = 0, t_month = 0, t_ttl = 120000, t_rid = rid \<rparr>"

definition demo_world :: "ledger world" where
  "demo_world =
     \<lparr> gov = attachPartitionLedger ''t'' ''a''
         (new_governor \<lparr> maxUsd = Some (1 / 2), maxTokens = Some 50000 \<rparr> demo_price True True (Some ''s1'')),
       ledger_of = demo_ledger demo_tree, store = demo_store \<rparr>"

lemma demo_world_inv: "ledger_inv (ledger_of demo_world)" "bound_to ''t'' ''a'' demo_world"
  "partitionRef (gov demo_world) = Some (''t'', ''a'')" "openPartitionReservationId (gov demo_world) = None"
proof -
  have "enabled (demo_ledger demo_tree)" by code_simp
  then show "ledger_inv (ledger_of demo_world)"
    using reached_wf[of demo_tree] by (simp add: ledger_inv_def demo_world_def demo_ledger_def)
qed (simp_all add: demo_world_def bound_to_def attachPartitionLedger_def new_governor_def)

definition allowed_by :: "'a \<times> ('b + GovernorDecision) \<Rightarrow> bool" where
  "allowed_by r = (case snd r of Inr (GovAllow _) \<Rightarrow> True | _ \<Rightarrow> False)"

lemma allowed_byE:
  assumes "allowed_by r" obtains w' warning where "r = (w', Inr (GovAllow warning))"
  using assms by (cases r) (auto simp: allowed_by_def split: sum.splits GovernorDecision.splits)

theorem allowed_step_is_affordable_witness:
  "\<exists>w' rid. openPartitionReservationId (gov w') = Some rid \<and> ledger_holds (ledger_of w') ''t'' ''a'' rid \<and>
     w' = fst (checkBeforeStep ledger_admitter (demo_tick 5 ''1'') None demo_world)"
proof -
  have "allowed_by (checkBeforeStep ledger_admitter (demo_tick 5 ''1'') None demo_world)" by code_simp
  then obtain w' warning where
    r: "checkBeforeStep ledger_admitter (demo_tick 5 ''1'') None demo_world = (w', Inr (GovAllow warning))"
    by (rule allowed_byE)
  from allowed_step_is_affordable[OF r demo_world_inv(1,3)] r show ?thesis by auto
qed

text \<open>C36: Apart from what was in flight for it before its governor began, a partitioned worker never has more than one reservation in flight, the open one, and a close that returns leaves none, through any checks, usage reports, price and ceiling changes, releases and closes on its governor, as long as a release that is given an identifier is not given one while another reservation is open. (Such a release forgets the open reservation: \<open>foreign_release_leaves_two\<close>.)\<close>

theorem governor_holds_at_most_one:
  assumes "ledger_inv (ledger_of w)" and "bound_to tid cid w" and "openPartitionReservationId (gov w) = None"
    and "w' = exec_ops (apply_gov_op ledger_admitter) ops w" and "guarded_run (apply_gov_op ledger_admitter) names_own ops w"
  shows "(\<forall>i. ledger_holds (ledger_of w') tid cid i \<longrightarrow>
      ledger_holds (ledger_of w) tid cid i \<or> openPartitionReservationId (gov w') = Some i) \<and>
    (snd (close_governor ledger_admitter t w') = Inr () \<longrightarrow>
      (\<forall>i. ledger_holds (ledger_of (fst (close_governor ledger_admitter t w'))) tid cid i \<longrightarrow>
        ledger_holds (ledger_of w) tid cid i))"
proof -
  let ?J = "{i. ledger_holds (ledger_of w) tid cid i}"
  have "tidy_world ledger_inv ledger_holds tid cid ?J w"
    using assms(1-3) by (simp add: tidy_world_def own_only_def)
  then have tidy: "tidy_world ledger_inv ledger_holds tid cid ?J w'"
    unfolding assms(4) using assms(5) by (rule ledger_contract.gov_run_tidy)
  have "i \<in> ?J \<or> openPartitionReservationId (gov w') = Some i"
    if "ledger_holds (ledger_of w') tid cid i" for i
    using tidy that by (auto simp: tidy_world_def own_only_def)
  moreover note ledger_contract.close_tidy(2)[OF tidy]
  ultimately show ?thesis by blast
qed

text \<open>Two checks, a release by its identifier and one by none.\<close>

definition demo_gov_ops :: "gov_op list" where
  "demo_gov_ops =
     [G_check (demo_tick 5 ''1'') None, G_release (demo_tick 6 []) (Some ''pr_1''), G_record (Fin 900) (Fin 100),
      G_check (demo_tick 7 ''2'') None, G_release (demo_tick 8 []) None, G_check (demo_tick 9 ''3'') None]"

theorem governor_holds_at_most_one_witness:
  "{i. ledger_holds (ledger_of (exec_ops (apply_gov_op ledger_admitter) demo_gov_ops demo_world)) ''t'' ''a'' i}
   \<subseteq> {i. ledger_holds (ledger_of demo_world) ''t'' ''a'' i} \<union>
     set_option (openPartitionReservationId (gov (exec_ops (apply_gov_op ledger_admitter) demo_gov_ops demo_world)))"
proof -
  have "guarded_run (apply_gov_op ledger_admitter) names_own demo_gov_ops demo_world" by code_simp
  then show ?thesis
    using governor_holds_at_most_one[OF demo_world_inv(1,2,4) refl] by (blast intro: UnI1 UnI2 option.set_intros)
qed

text \<open>
  A release with an identifier that is not the open one releases nothing of this child, but
  forgets the open reservation: after the next check two of its reservations are active.
\<close>

lemma foreign_release_leaves_two:
  "map (\<lambda>r. (res_id r, res_status r = Active)) (filter (\<lambda>r. res_child r = ''a'') (reservations (ledger_of
     (exec_ops (apply_gov_op ledger_admitter)
       [G_check (demo_tick 5 ''1'') None, G_release (demo_tick 6 []) (Some ''bogus''), G_check (demo_tick 7 ''2'') None]
       demo_world)))) = [(''pr_1'', True), (''pr_2'', True)]"
  by code_simp

end
