(* ===== verification/Exec_Records.thy ===== *)
theory Exec_Records
  imports Exec_Types
begin

text \<open>
  Execution records and their repository (\<open>src/src/execution/types.ts\<close>,
  \<open>src/src/execution/repository.ts\<close>): the full record with its policy trail, observation,
  outcome, cost, cancellation and timeout, the bounds applied before it is stored, the table
  \<open>execution_records\<close> as the list of its rows, and the queries over it. \<open>as_record\<close> is the view
  the checkpoint and recovery components read. A \<open>bool\<close> argument named \<open>fails\<close> says that the
  statement throws. Strings are lists of code units; the ellipsis of a truncated text is one
  unit.
\<close>

section \<open>Identities, policy, action\<close>

datatype actor_identity =
    A_user "string option" string
  | A_agent string string "string option"
  | A_system string
  | A_workflow string "string option"
  | A_plugin string "string option"
  | A_skill string "string option"
  | A_mcp string
  | A_research string
  | A_business string "string option"

fun actor_kind :: "actor_identity \<Rightarrow> string" where
  "actor_kind (A_user uid src) = ''user''"
| "actor_kind (A_agent aid pid m) = ''agent''"
| "actor_kind (A_system c) = ''system''"
| "actor_kind (A_workflow w t) = ''workflow''"
| "actor_kind (A_plugin p op) = ''plugin''"
| "actor_kind (A_skill s v) = ''skill''"
| "actor_kind (A_mcp s) = ''mcp''"
| "actor_kind (A_research s) = ''research''"
| "actor_kind (A_business m a) = ''business''"

fun actorName :: "actor_identity \<Rightarrow> string option" where
  "actorName (A_user uid src) = Some src"
| "actorName (A_agent aid pid m) = Some aid"
| "actorName (A_system c) = Some c"
| "actorName (A_workflow w t) = Some w"
| "actorName (A_plugin p op) = Some p"
| "actorName (A_skill s v) = Some s"
| "actorName (A_mcp s) = Some s"
| "actorName (A_research s) = Some s"
| "actorName (A_business m a) = Some m"

fun actorString :: "actor_identity \<Rightarrow> string" where
  "actorString (A_user uid src) = ''user:'' @ nullish uid src"
| "actorString (A_agent aid pid m) = ''agent:'' @ aid"
| "actorString (A_system c) = ''system:'' @ c"
| "actorString (A_workflow w t) = ''workflow:'' @ w"
| "actorString (A_plugin p op) = ''plugin:'' @ p"
| "actorString (A_skill s v) = ''skill:'' @ s"
| "actorString (A_mcp s) = ''mcp:'' @ s"
| "actorString (A_research s) = ''research:'' @ s"
| "actorString (A_business m a) = ''business:'' @ m"

datatype exec_placement =
    EP_in_process "string option"
  | EP_local "string option"
  | EP_restricted_process "string option"
  | EP_namespace_sandbox "string option"
  | EP_container "string option"
  | EP_browser_isolated "string option"
  | EP_future string string

fun exec_placement_kind :: "exec_placement \<Rightarrow> string" where
  "exec_placement_kind (EP_in_process d) = ''in_process''"
| "exec_placement_kind (EP_local d) = ''local''"
| "exec_placement_kind (EP_restricted_process d) = ''restricted_process''"
| "exec_placement_kind (EP_namespace_sandbox d) = ''namespace_sandbox''"
| "exec_placement_kind (EP_container d) = ''container''"
| "exec_placement_kind (EP_browser_isolated d) = ''browser_isolated''"
| "exec_placement_kind (EP_future n d) = ''future''"

fun trustPlacementToExecution :: "placement_kind \<Rightarrow> string option \<Rightarrow> exec_placement" where
  "trustPlacementToExecution In_process d = EP_in_process d"
| "trustPlacementToExecution Restricted_process d = EP_restricted_process d"
| "trustPlacementToExecution Namespace_sandbox d = EP_namespace_sandbox d"
| "trustPlacementToExecution Container d = EP_container d"
| "trustPlacementToExecution Browser_isolated d = EP_browser_isolated d"
| "trustPlacementToExecution Gvisor d = EP_container d"
| "trustPlacementToExecution Firecracker d = EP_container d"

record exec_intent =
  in_summary :: string
  in_origin :: actor_identity

record exec_plan =
  pl_planId :: "string option"
  pl_summary :: string
  pl_preview :: "string option"

text \<open>The decisions of the policy trail, each with the time it was taken (last argument).\<close>

datatype policy_decision =
    PD_allowed "string option" int
  | PD_denied string "string option" "string option" int
  | PD_requires_approval string string "string option" int
  | PD_approval_granted string string int
  | PD_approval_denied string string string int
  | PD_approval_expired string int
  | PD_budget_blocked string "string option" int
  | PD_budget_raised "rat option" "int option" int
  | PD_unavailable string int
  | PD_cancelled string int
  | PD_expired int

fun policy_kind :: "policy_decision \<Rightarrow> string" where
  "policy_kind (PD_allowed r t) = ''allowed''"
| "policy_kind (PD_denied r b c t) = ''denied''"
| "policy_kind (PD_requires_approval q r p t) = ''requires_approval''"
| "policy_kind (PD_approval_granted q b t) = ''approval_granted''"
| "policy_kind (PD_approval_denied q b r t) = ''approval_denied''"
| "policy_kind (PD_approval_expired q t) = ''approval_expired''"
| "policy_kind (PD_budget_blocked r m t) = ''budget_blocked''"
| "policy_kind (PD_budget_raised u n t) = ''budget_raised''"
| "policy_kind (PD_unavailable r t) = ''unavailable''"
| "policy_kind (PD_cancelled r t) = ''cancelled''"
| "policy_kind (PD_expired t) = ''expired''"

fun policy_at :: "policy_decision \<Rightarrow> int" where
  "policy_at (PD_allowed r t) = t"
| "policy_at (PD_denied r b c t) = t"
| "policy_at (PD_requires_approval q r p t) = t"
| "policy_at (PD_approval_granted q b t) = t"
| "policy_at (PD_approval_denied q b r t) = t"
| "policy_at (PD_approval_expired q t) = t"
| "policy_at (PD_budget_blocked r m t) = t"
| "policy_at (PD_budget_raised u n t) = t"
| "policy_at (PD_unavailable r t) = t"
| "policy_at (PD_cancelled r t) = t"
| "policy_at (PD_expired t) = t"

fun policy_requestId :: "policy_decision \<Rightarrow> string option" where
  "policy_requestId (PD_requires_approval q r p t) = Some q"
| "policy_requestId (PD_approval_granted q b t) = Some q"
| "policy_requestId (PD_approval_denied q b r t) = Some q"
| "policy_requestId (PD_approval_expired q t) = Some q"
| "policy_requestId _ = None"

record authorization =
  az_decisionKind :: string
  az_at :: int
  az_requestId :: "string option"

record svc_action = exec_action +
  sa_placement :: exec_placement
  sa_authorizedBy :: "authorization option"

section \<open>Observation, outcome, cost\<close>

record exec_observation =
  obs_summary :: string
  obs_transportOk :: bool
  obs_statusCode :: "string option"
  obs_outputBytes :: "int option"
  obs_logs :: "string list option"
  obs_modelFeedback :: "string option"

datatype stopped_reason = SR_done | SR_max_steps | SR_error | SR_budget | SR_approval

datatype error_kind =
    EK_policy | EK_validation | EK_transport | EK_provider | EK_timeout | EK_cancellation
  | EK_reconciliation | EK_unknown

record error_summary =
  es_code :: string
  es_message :: string
  es_retryable :: bool
  es_sideEffectUnknown :: bool
  es_category :: error_kind

record exec_outcome =
  oc_kind :: outcome_kind
  oc_message :: string
  oc_stoppedReason :: "stopped_reason option"
  oc_error :: "error_summary option"
  oc_at :: int

datatype cost_state = CS_charged | CS_blocked | CS_unavailable | CS_not_applicable | CS_estimated_only

record exec_cost =
  ec_estimatedUsd :: "rat option"
  ec_actualUsd :: "rat option"
  ec_inTokens :: int
  ec_outTokens :: int
  ec_providerId :: "string option"
  ec_model :: "string option"
  ec_state :: cost_state

record exec_evidence =
  ev_kind :: string
  ev_reference :: string
  ev_recordedAt :: int

record exec_artifact =
  ar_kind :: string
  ar_ref :: string
  ar_recordedAt :: int

record cancellation_note =
  cn_requestedAt :: int
  cn_reason :: "string option"
  cn_acknowledged :: bool
  cn_sideEffectPossible :: bool

datatype timeout_stage = TS_before_action | TS_during_action | TS_after_unknown

record timeout_note =
  tn_deadlineMs :: int
  tn_firedAt :: "int option"
  tn_stage :: timeout_stage

section \<open>The record\<close>

record ExecutionRecord =
  x_id :: execution_id
  x_state :: exec_state
  x_actor :: actor_identity
  x_intent :: exec_intent
  x_plan :: "exec_plan option"
  x_policy :: "policy_decision list"
  x_action :: "svc_action option"
  x_observation :: "exec_observation option"
  x_evidence :: "exec_evidence list"
  x_artifacts :: "exec_artifact list"
  x_cost :: "exec_cost option"
  x_outcome :: "exec_outcome option"
  x_history :: "exec_transition list"
  x_createdAt :: int
  x_updatedAt :: int
  x_startedAt :: "int option"
  x_endedAt :: "int option"
  x_durationMs :: "int option"
  x_adapterVersion :: string
  x_duplicateOf :: "string option"
  x_cancellation :: "cancellation_note option"
  x_timeout :: "timeout_note option"
  x_retryOf :: "string option"
  x_retryCount :: "int option"
  x_trust :: "trust_record option"

definition EXECUTION_ADAPTER_VERSION :: string where
  "EXECUTION_ADAPTER_VERSION = ''xr-4.3.0''"

definition as_record :: "ExecutionRecord \<Rightarrow> execution_record" where
  "as_record r =
     \<lparr>rec_id = x_id r, rec_state = x_state r,
      rec_action = map_option exec_action.truncate (x_action r),
      rec_outcome = map_option oc_kind (x_outcome r),
      rec_history = x_history r, rec_createdAt = x_createdAt r, rec_updatedAt = x_updatedAt r,
      rec_endedAt = x_endedAt r, rec_trust = x_trust r\<rparr>"

section \<open>Bounds before storing\<close>

definition MAX_SUMMARY_CHARS :: nat where "MAX_SUMMARY_CHARS = 2000"
definition MAX_INPUT_SUMMARY_CHARS :: nat where "MAX_INPUT_SUMMARY_CHARS = 4000"
definition MAX_OBSERVATION_SUMMARY_CHARS :: nat where "MAX_OBSERVATION_SUMMARY_CHARS = 4000"
definition MAX_LOG_LINE_CHARS :: nat where "MAX_LOG_LINE_CHARS = 1000"
definition MAX_LOGS :: nat where "MAX_LOGS = 10"
definition MAX_MESSAGE_CHARS :: nat where "MAX_MESSAGE_CHARS = 1000"
definition MAX_EVIDENCE :: nat where "MAX_EVIDENCE = 16"
definition MAX_ARTIFACTS :: nat where "MAX_ARTIFACTS = 16"
definition MAX_POLICY_DECISIONS :: nat where "MAX_POLICY_DECISIONS = 16"
definition DEFAULT_HISTORY_LIMIT :: int where "DEFAULT_HISTORY_LIMIT = 100"
definition MAX_HISTORY_LIMIT :: int where "MAX_HISTORY_LIMIT = 1000"
definition DEFAULT_TIMEOUT_MS :: int where "DEFAULT_TIMEOUT_MS = 120000"
definition MAX_TIMEOUT_MS :: int where "MAX_TIMEOUT_MS = 600000"
definition MAX_ATTEMPTS :: int where "MAX_ATTEMPTS = 5"

definition ellipsis :: string where
  "ellipsis = char_of (133 :: nat) # ''<truncated>''"

text \<open>\<open>truncate\<close>; the limits are at least 12.\<close>

definition truncate_text :: "string \<Rightarrow> nat \<Rightarrow> string" where
  "truncate_text s most = (if length s \<le> most then s else take (most - 12) s @ ellipsis)"

text \<open>\<open>xs.slice(-n)\<close> for a positive \<open>n\<close>.\<close>

definition last_n :: "nat \<Rightarrow> 'a list \<Rightarrow> 'a list" where
  "last_n n xs = drop (length xs - n) xs"

definition truncateRecord :: "ExecutionRecord \<Rightarrow> ExecutionRecord" where
  "truncateRecord r = r\<lparr>
     x_intent := (x_intent r)\<lparr>in_summary := truncate_text (in_summary (x_intent r)) MAX_SUMMARY_CHARS\<rparr>,
     x_plan := map_option (\<lambda>p. p\<lparr>
        pl_summary := truncate_text (pl_summary p) MAX_SUMMARY_CHARS,
        pl_preview := map_option (\<lambda>s. truncate_text s MAX_INPUT_SUMMARY_CHARS) (pl_preview p)\<rparr>) (x_plan r),
     x_action := map_option (\<lambda>a. a\<lparr>
        act_inputSummary := truncate_text (act_inputSummary a) MAX_INPUT_SUMMARY_CHARS\<rparr>) (x_action r),
     x_observation := map_option (\<lambda>b. b\<lparr>
        obs_summary := truncate_text (obs_summary b) MAX_OBSERVATION_SUMMARY_CHARS,
        obs_logs := Some (map (\<lambda>l. truncate_text l MAX_LOG_LINE_CHARS)
          (take MAX_LOGS (nullish (obs_logs b) [])))\<rparr>) (x_observation r),
     x_outcome := map_option (\<lambda>c. c\<lparr>
        oc_message := truncate_text (oc_message c) MAX_MESSAGE_CHARS\<rparr>) (x_outcome r),
     x_evidence := take MAX_EVIDENCE (x_evidence r),
     x_artifacts := take MAX_ARTIFACTS (x_artifacts r),
     x_policy := last_n MAX_POLICY_DECISIONS (x_policy r),
     x_history := last_n 200 (x_history r)\<rparr>"

section \<open>The table\<close>

text \<open>\<open>rw_json\<close> is what the JSON column parses to, \<open>None\<close> for a corrupt row.\<close>

record exec_row =
  rw_run_id :: string
  rw_correlation_id :: string
  rw_parent_run_id :: "string option"
  rw_retry_of :: "string option"
  rw_workspace_id :: string
  rw_session_id :: "string option"
  rw_workflow_id :: "string option"
  rw_task_id :: "string option"
  rw_attempt :: int
  rw_state :: exec_state
  rw_outcome_kind :: "outcome_kind option"
  rw_actor_kind :: string
  rw_actor_name :: "string option"
  rw_capability_kind :: capability_kind
  rw_capability_name :: string
  rw_placement :: string
  rw_is_dry_run :: bool
  rw_duration_ms :: "int option"
  rw_cost_usd :: "rat option"
  rw_message :: "string option"
  rw_adapter_version :: string
  rw_created_at :: int
  rw_updated_at :: int
  rw_started_at :: "int option"
  rw_ended_at :: "int option"
  rw_json :: "ExecutionRecord option"

type_synonym exec_rows = "exec_row list"

definition cost_column :: "exec_cost option \<Rightarrow> rat option" where
  "cost_column c = (case c of None \<Rightarrow> None | Some k \<Rightarrow>
     (case ec_actualUsd k of Some u \<Rightarrow> Some u | None \<Rightarrow> ec_estimatedUsd k))"

text \<open>The values of the \<open>INSERT\<close>.\<close>

definition row_of :: "ExecutionRecord \<Rightarrow> exec_row" where
  "row_of r =
     \<lparr>rw_run_id = runId (x_id r), rw_correlation_id = correlationId (x_id r),
      rw_parent_run_id = parentRunId (x_id r), rw_retry_of = x_retryOf r,
      rw_workspace_id = workspaceId (x_id r), rw_session_id = sessionId (x_id r),
      rw_workflow_id = workflowId (x_id r), rw_task_id = taskId (x_id r),
      rw_attempt = attempt (x_id r), rw_state = x_state r,
      rw_outcome_kind = map_option oc_kind (x_outcome r),
      rw_actor_kind = actor_kind (x_actor r), rw_actor_name = actorName (x_actor r),
      rw_capability_kind =
        (case x_action r of None \<Rightarrow> CK_model_call | Some a \<Rightarrow> cap_kind (act_capability a)),
      rw_capability_name =
        (case x_action r of None \<Rightarrow> take 80 (in_summary (x_intent r)) | Some a \<Rightarrow> cap_name (act_capability a)),
      rw_placement =
        (case x_action r of None \<Rightarrow> ''in_process'' | Some a \<Rightarrow> exec_placement_kind (sa_placement a)),
      rw_is_dry_run = (case x_action r of None \<Rightarrow> False | Some a \<Rightarrow> act_dryRun a),
      rw_duration_ms = x_durationMs r, rw_cost_usd = cost_column (x_cost r),
      rw_message = map_option (\<lambda>c. take MAX_MESSAGE_CHARS (oc_message c)) (x_outcome r),
      rw_adapter_version = x_adapterVersion r, rw_created_at = x_createdAt r,
      rw_updated_at = x_updatedAt r, rw_started_at = x_startedAt r, rw_ended_at = x_endedAt r,
      rw_json = Some (truncateRecord r)\<rparr>"

text \<open>\<open>ON CONFLICT(run_id) DO UPDATE SET\<close>: the columns the statement lists.\<close>

definition upsert_columns :: "exec_row \<Rightarrow> exec_row \<Rightarrow> exec_row" where
  "upsert_columns new old = old\<lparr>
     rw_state := rw_state new, rw_outcome_kind := rw_outcome_kind new,
     rw_capability_kind := rw_capability_kind new, rw_capability_name := rw_capability_name new,
     rw_duration_ms := rw_duration_ms new, rw_cost_usd := rw_cost_usd new,
     rw_message := rw_message new, rw_updated_at := rw_updated_at new,
     rw_started_at := rw_started_at new, rw_ended_at := rw_ended_at new,
     rw_json := rw_json new\<rparr>"

definition has_run :: "string \<Rightarrow> exec_row \<Rightarrow> bool" where
  "has_run k r \<longleftrightarrow> rw_run_id r = k"

text \<open>\<open>save\<close>: \<open>None\<close> is the persistence error, which leaves the table as it was.\<close>

definition save_record :: "bool \<Rightarrow> ExecutionRecord \<Rightarrow> exec_rows \<Rightarrow> exec_rows option" where
  "save_record fails r rows =
     (if fails then None
      else if list_ex (has_run (runId (x_id r))) rows
      then Some (map (\<lambda>q. if has_run (runId (x_id r)) q then upsert_columns (row_of r) q else q) rows)
      else Some (rows @ [row_of r]))"

definition get_record :: "string \<Rightarrow> exec_rows \<Rightarrow> ExecutionRecord option" where
  "get_record k rows = Option.bind (find (has_run k) rows) rw_json"

section \<open>Queries\<close>

text \<open>Rows of equal time keep their row order (the statements have no tie-break).\<close>

definition newest_first :: "exec_rows \<Rightarrow> exec_rows" where
  "newest_first rows = sort_key (\<lambda>r. - rw_created_at r) rows"

definition latestByCorrelation :: "string \<Rightarrow> exec_rows \<Rightarrow> ExecutionRecord option" where
  "latestByCorrelation c rows =
     Option.bind (first_row (sort_key (\<lambda>r. - rw_attempt r)
       (newest_first (filter (\<lambda>r. rw_correlation_id r = c) rows)))) rw_json"

definition SETTLED_STATES :: "exec_state list" where
  "SETTLED_STATES =
     [S_succeeded, S_partially_completed, S_failed, S_cancelled, S_timed_out, S_denied, S_budget_blocked]"

definition keyed_candidates ::
  "string \<Rightarrow> capability_kind \<Rightarrow> string \<Rightarrow> exec_rows \<Rightarrow> ExecutionRecord list" where
  "keyed_candidates ws ck cn rows =
     List.map_filter rw_json (take 50 (newest_first (filter
       (\<lambda>r. rw_workspace_id r = ws \<and> rw_capability_kind r = ck \<and> rw_capability_name r = cn \<and>
            rw_state r \<in> set SETTLED_STATES) rows)))"

definition record_key :: "ExecutionRecord \<Rightarrow> string option" where
  "record_key r = Option.bind (x_action r) act_idempotencyKey"

definition findCompletedByIdempotencyKey ::
  "string \<Rightarrow> capability_kind \<Rightarrow> string \<Rightarrow> string \<Rightarrow> exec_rows \<Rightarrow> ExecutionRecord option" where
  "findCompletedByIdempotencyKey ws ck cn k rows =
     find (\<lambda>r. record_key r = Some k) (keyed_candidates ws ck cn rows)"

record ExecutionQuery =
  qy_workspaceId :: string
  qy_sessionId :: "string option"
  qy_workflowId :: "string option"
  qy_taskId :: "string option"
  qy_state :: "exec_state list option"
  qy_capabilityKind :: "capability_kind option"
  qy_actorKind :: "string option"
  qy_sinceMs :: "int option"
  qy_untilMs :: "int option"
  qy_limit :: "int option"
  qy_offset :: "int option"

record ExecutionSummary =
  sm_runId :: string
  sm_correlationId :: string
  sm_state :: exec_state
  sm_outcome :: "outcome_kind option"
  sm_capability :: string
  sm_actor :: string
  sm_sessionId :: "string option"
  sm_workflowId :: "string option"
  sm_taskId :: "string option"
  sm_attempt :: int
  sm_placement :: string
  sm_createdAt :: int
  sm_updatedAt :: int
  sm_durationMs :: "int option"
  sm_costUsd :: "rat option"
  sm_message :: "string option"
  sm_dryRun :: bool

text \<open>A clause is added for a truthy field only; equality with a column that is null is false.\<close>

definition str_clause :: "string option \<Rightarrow> string option \<Rightarrow> bool" where
  "str_clause wanted col \<longleftrightarrow> (truthy_str wanted \<longrightarrow> col = wanted)"

definition query_matches :: "ExecutionQuery \<Rightarrow> exec_row \<Rightarrow> bool" where
  "query_matches q r \<longleftrightarrow>
     rw_workspace_id r = qy_workspaceId q \<and>
     str_clause (qy_sessionId q) (rw_session_id r) \<and>
     str_clause (qy_workflowId q) (rw_workflow_id r) \<and>
     str_clause (qy_taskId q) (rw_task_id r) \<and>
     (case qy_state q of None \<Rightarrow> True | Some ss \<Rightarrow> rw_state r \<in> set ss) \<and>
     (case qy_capabilityKind q of None \<Rightarrow> True | Some k \<Rightarrow> rw_capability_kind r = k) \<and>
     str_clause (qy_actorKind q) (Some (rw_actor_kind r)) \<and>
     (truthy_num (qy_sinceMs q) \<longrightarrow> nullish (qy_sinceMs q) 0 \<le> rw_created_at r) \<and>
     (truthy_num (qy_untilMs q) \<longrightarrow> rw_created_at r \<le> nullish (qy_untilMs q) 0)"

text \<open>\<open>LIMIT n OFFSET m\<close>: a negative limit is no limit, a negative offset is 0.\<close>

definition sql_page :: "int \<Rightarrow> int \<Rightarrow> 'a list \<Rightarrow> 'a list" where
  "sql_page n m xs = (let ys = drop (nat m) xs in if n < 0 then ys else take (nat n) ys)"

definition summary_of :: "exec_row \<Rightarrow> ExecutionSummary" where
  "summary_of r =
     \<lparr>sm_runId = rw_run_id r, sm_correlationId = rw_correlation_id r, sm_state = rw_state r,
      sm_outcome = rw_outcome_kind r,
      sm_capability = capability_kind_str (rw_capability_kind r) @ '':'' @ rw_capability_name r,
      sm_actor = (if truthy_str (rw_actor_name r) then rw_actor_kind r @ '':'' @ nullish (rw_actor_name r) []
                  else rw_actor_kind r),
      sm_sessionId = rw_session_id r, sm_workflowId = rw_workflow_id r, sm_taskId = rw_task_id r,
      sm_attempt = rw_attempt r, sm_placement = rw_placement r, sm_createdAt = rw_created_at r,
      sm_updatedAt = rw_updated_at r, sm_durationMs = rw_duration_ms r, sm_costUsd = rw_cost_usd r,
      sm_message = rw_message r, sm_dryRun = rw_is_dry_run r\<rparr>"

definition query_records :: "ExecutionQuery \<Rightarrow> exec_rows \<Rightarrow> ExecutionSummary list" where
  "query_records q rows =
     map summary_of (sql_page (min (nullish (qy_limit q) DEFAULT_HISTORY_LIMIT) MAX_HISTORY_LIMIT)
       (nullish (qy_offset q) 0) (newest_first (filter (query_matches q) rows)))"

definition count_records :: "string \<Rightarrow> int option \<Rightarrow> exec_rows \<Rightarrow> nat" where
  "count_records ws since rows =
     length (filter (\<lambda>r. rw_workspace_id r = ws \<and>
       (truthy_num since \<longrightarrow> nullish since 0 \<le> rw_created_at r)) rows)"

section \<open>Recovery queries\<close>

definition ACTIVE_STATES :: "exec_state list" where
  "ACTIVE_STATES =
     [S_queued, S_running, S_observing, S_awaiting_approval, S_awaiting_policy, S_authorized]"

fun interrupted_rank :: "exec_state \<Rightarrow> nat" where
  "interrupted_rank S_running = 0"
| "interrupted_rank S_observing = 0"
| "interrupted_rank S_awaiting_approval = 1"
| "interrupted_rank S_awaiting_policy = 2"
| "interrupted_rank S_authorized = 3"
| "interrupted_rank S_queued = 4"
| "interrupted_rank _ = 5"

definition findInterrupted :: "string \<Rightarrow> int \<Rightarrow> exec_rows \<Rightarrow> ExecutionRecord list" where
  "findInterrupted ws limit rows =
     List.map_filter rw_json (sql_page limit 0
       (sort_key (\<lambda>r. interrupted_rank (rw_state r))
         (newest_first (filter (\<lambda>r. rw_workspace_id r = ws \<and> rw_state r \<in> set ACTIVE_STATES) rows))))"

definition countActive :: "string \<Rightarrow> exec_rows \<Rightarrow> nat" where
  "countActive ws rows = length (filter (\<lambda>r. rw_workspace_id r = ws \<and> rw_state r \<in> set ACTIVE_STATES) rows)"

definition markInterrupted_rows :: "bool \<Rightarrow> string \<Rightarrow> exec_rows \<Rightarrow> exec_rows" where
  "markInterrupted_rows fails k rows =
     (if fails then rows
      else map (\<lambda>r. if has_run k r \<and> rw_state r \<in> {S_running, S_observing, S_queued}
                     then r\<lparr>rw_outcome_kind := Some OK_reconciliation_required\<rparr> else r) rows)"

section \<open>Lemmas\<close>

definition rows_keyed :: "exec_rows \<Rightarrow> bool" where
  "rows_keyed rows \<longleftrightarrow> distinct (map rw_run_id rows)"

lemma upsert_run_id [simp]: "rw_run_id (upsert_columns n r) = rw_run_id r"
  by (simp add: upsert_columns_def)

lemma upsert_simps [simp]:
  "rw_json (upsert_columns n r) = rw_json n"
  "rw_state (upsert_columns n r) = rw_state n"
  "rw_outcome_kind (upsert_columns n r) = rw_outcome_kind n"
  "rw_placement (upsert_columns n r) = rw_placement r"
  "rw_is_dry_run (upsert_columns n r) = rw_is_dry_run r"
  "rw_workspace_id (upsert_columns n r) = rw_workspace_id r"
  by (simp_all add: upsert_columns_def)

lemma row_of_simps [simp]:
  "rw_run_id (row_of r) = runId (x_id r)"
  "rw_json (row_of r) = Some (truncateRecord r)"
  "rw_state (row_of r) = x_state r"
  "rw_workspace_id (row_of r) = workspaceId (x_id r)"
  by (simp_all add: row_of_def)

lemma save_keyed: "rows_keyed rows \<Longrightarrow> save_record fails r rows = Some rows' \<Longrightarrow> rows_keyed rows'"
proof -
  assume keyed: "rows_keyed rows" and saved: "save_record fails r rows = Some rows'"
  have same: "map rw_run_id (map (\<lambda>q. if has_run k q then upsert_columns n q else q) rows) = map rw_run_id rows" for k n
    by simp
  show "rows_keyed rows'"
  proof (cases "list_ex (has_run (runId (x_id r))) rows")
    case True
    then have "map rw_run_id rows' = map rw_run_id rows"
      using saved same by (auto simp only: save_record_def if_True option.inject split: if_splits)
    then show ?thesis using keyed by (simp add: rows_keyed_def)
  next
    case False
    then have "rows' = rows @ [row_of r]" "runId (x_id r) \<notin> set (map rw_run_id rows)"
      using saved by (auto simp: save_record_def list_ex_iff has_run_def split: if_splits)
    then show ?thesis using keyed by (simp add: rows_keyed_def)
  qed
qed

lemma find_map_upsert:
  "list_ex (has_run k) rows \<Longrightarrow>
     \<exists>q. find (has_run k) (map (\<lambda>q. if has_run k q then upsert_columns n q else q) rows) = Some (upsert_columns n q)"
  by (induction rows) (auto simp: has_run_def)

lemma find_append_row:
  "\<not> list_ex P rows \<Longrightarrow> find P (rows @ [x]) = (if P x then Some x else None)"
  by (induction rows) auto

lemma save_finds:
  assumes "save_record fails r rows = Some rows'"
  shows "\<exists>q. find (has_run (runId (x_id r))) rows' = Some q \<and> rw_json q = Some (truncateRecord r) \<and>
           rw_state q = x_state r \<and> rw_outcome_kind q = map_option oc_kind (x_outcome r)"
proof (cases "list_ex (has_run (runId (x_id r))) rows")
  case True
  then show ?thesis
    using assms find_map_upsert[OF True, of "row_of r"]
    by (auto simp: save_record_def row_of_def split: if_splits)
next
  case False
  then show ?thesis
    using assms by (auto simp: save_record_def find_append_row has_run_def row_of_def split: if_splits)
qed

text \<open>What was saved is what is read back, within the bounds of the store.\<close>

lemma saved_record_reads_back:
  "save_record fails r rows = Some rows' \<Longrightarrow> get_record (runId (x_id r)) rows' = Some (truncateRecord r)"
  using save_finds[of fails r rows rows'] by (auto simp: get_record_def)

lemma find_map_other:
  "\<lbrakk>\<And>q. q \<in> set rows \<Longrightarrow> P q \<Longrightarrow> f q = q; \<And>q. q \<in> set rows \<Longrightarrow> P (f q) = P q\<rbrakk> \<Longrightarrow> find P (map f rows) = find P rows"
  by (induction rows) auto

lemma save_other:
  assumes "save_record fails r rows = Some rows'" and "k \<noteq> runId (x_id r)"
  shows "find (has_run k) rows' = find (has_run k) rows"
proof -
  have app: "find (has_run k) (rows @ [row_of r]) = find (has_run k) rows"
    using assms(2) by (induction rows) (auto simp: has_run_def)
  show ?thesis
    using assms app by (auto simp: save_record_def has_run_def split: if_splits intro!: find_map_other)
qed

lemma truncate_text_bound: "12 \<le> most \<Longrightarrow> length (truncate_text s most) \<le> most"
  by (auto simp: truncate_text_def ellipsis_def)

lemma truncate_text_idem: "12 \<le> most \<Longrightarrow> truncate_text (truncate_text s most) most = truncate_text s most"
  using truncate_text_bound[of most s] by (simp add: truncate_text_def[of "truncate_text s most"])

lemma truncateRecord_keeps [simp]:
  "x_id (truncateRecord r) = x_id r" "x_state (truncateRecord r) = x_state r"
  "x_trust (truncateRecord r) = x_trust r" "x_createdAt (truncateRecord r) = x_createdAt r"
  by (simp_all add: truncateRecord_def)

text \<open>
  The upsert does not list the placement and dry-run columns: a row first written before its
  action was known keeps the placement \<open>in_process\<close> and is never shown as a dry run.
\<close>

lemma early_row_keeps_placement:
  assumes "x_action r = None" and "\<not> list_ex (has_run (runId (x_id r))) rows"
    and "save_record False r rows = Some rows'" and "runId (x_id r') = runId (x_id r)"
    and "save_record False r' rows' = Some rows''"
  shows "\<exists>q. find (has_run (runId (x_id r))) rows'' = Some q \<and> rw_placement q = ''in_process'' \<and> \<not> rw_is_dry_run q"
proof -
  have r': "rows' = rows @ [row_of r]" using assms(2,3) by (simp add: save_record_def)
  have "list_ex (has_run (runId (x_id r'))) rows'" using r' assms(4) by (simp add: has_run_def)
  then have r'': "rows'' = map (\<lambda>q. if has_run (runId (x_id r)) q then upsert_columns (row_of r') q else q) (rows @ [row_of r])"
    using assms(4,5) r' by (simp add: save_record_def)
  have "find (has_run (runId (x_id r))) (map (\<lambda>q. if has_run (runId (x_id r)) q then upsert_columns n q else q) (rows @ [x]))
          = Some (upsert_columns n x)"
    if "has_run (runId (x_id r)) x" for n x
    using assms(2) that by (induction rows) (auto simp: has_run_def)
  then have "find (has_run (runId (x_id r))) rows'' = Some (upsert_columns (row_of r') (row_of r))"
    unfolding r'' by (simp add: has_run_def)
  moreover have "rw_placement (row_of r) = ''in_process''" "\<not> rw_is_dry_run (row_of r)"
    using assms(1) by (simp_all add: row_of_def)
  ultimately show ?thesis by simp
qed

text \<open>A negative limit is smaller than the maximum, and SQLite reads it as no limit.\<close>

lemma negative_limit_is_unbounded:
  "query_records (q\<lparr>qy_limit := Some (- 1), qy_offset := None\<rparr>) rows =
     map summary_of (newest_first (filter (query_matches q) rows))"
proof -
  have "query_matches (q\<lparr>qy_limit := Some (- 1), qy_offset := None\<rparr>) = query_matches q"
    by (rule ext) (simp add: query_matches_def)
  then show ?thesis by (simp add: query_records_def sql_page_def MAX_HISTORY_LIMIT_def)
qed

lemma set_newest_first [simp]: "set (newest_first rows) = set rows"
  by (simp add: newest_first_def)

end
