(* ===== verification/Exec_Service.thy ===== *)
theory Exec_Service
  imports Exec_Records Exec_Retry Exec_Recovery Idempotency_Store "HOL-Library.AList"
begin

text \<open>
  The execution service (\<open>src/src/execution/service.ts\<close>): one call of \<open>execute\<close> from its creation
  to the record it returns. \<open>executeInner\<close> is cut at its awaits (budget check, approval, trust
  evaluation, the action itself, the retry decision, the backoff); what runs between two awaits
  is one function here, over the database, the record of the call and the slot it has claimed.
  A \<open>flow\<close> is how such a function ends: it goes on, throws, returns, or waits. The clock is read
  once per function. Observers (\<open>emit\<close>, spans, metrics) see what happens and change nothing;
  they are left out. The audit bridge is the trace, which also records the calls out of the
  service that matter: the action itself above all.
\<close>

section \<open>Errors\<close>

text \<open>A bare error carries its message; \<open>er_text\<close> is that of a provider or abort error.\<close>

record svc_error =
  er_thrown :: thrown
  er_text :: string
  er_retryable :: bool

definition safeMessage :: "svc_error \<Rightarrow> string" where
  "safeMessage e = (case er_thrown e of Bare c m \<Rightarrow> m | _ \<Rightarrow> er_text e)"

definition error_code :: "svc_error \<Rightarrow> string" where
  "error_code e = (case er_thrown e of Bare (Some c) m \<Rightarrow> c | _ \<Rightarrow> ''ACTION_ERROR'')"

definition bare_error :: "string \<Rightarrow> string \<Rightarrow> svc_error" where
  "bare_error code msg = \<lparr>er_thrown = Bare (Some code) msg, er_text = msg, er_retryable = False\<rparr>"

fun event_str :: "exec_event \<Rightarrow> string" where
  "event_str E_plan = ''plan''"
| "event_str E_submit_policy = ''submit_policy''"
| "event_str E_require_approval = ''require_approval''"
| "event_str E_grant_approval = ''grant_approval''"
| "event_str E_deny = ''deny''"
| "event_str E_budget_block = ''budget_block''"
| "event_str E_authorize = ''authorize''"
| "event_str E_queue = ''queue''"
| "event_str E_start = ''start''"
| "event_str E_observe = ''observe''"
| "event_str E_succeed = ''succeed''"
| "event_str E_partial = ''partial''"
| "event_str E_fail = ''fail''"
| "event_str E_cancel = ''cancel''"
| "event_str E_timeout = ''timeout''"
| "event_str E_mark_unavailable = ''mark_unavailable''"
| "event_str E_reconcile = ''reconcile''"
| "event_str E_retry = ''retry''"
| "event_str E_mark_dry_run = ''mark_dry_run''"
| "event_str E_interrupt = ''interrupt''"
| "event_str E_mark_recoverable = ''mark_recoverable''"
| "event_str E_begin_resume = ''begin_resume''"
| "event_str E_resume_complete = ''resume_complete''"
| "event_str E_block_recovery = ''block_recovery''"
| "event_str E_mark_paused = ''mark_paused''"
| "event_str E_checkpoint = ''checkpoint''"

definition target_str :: "transition_target \<Rightarrow> string" where
  "target_str t = (case t of ToEvent e \<Rightarrow> event_str e | ToState s \<Rightarrow> state_str s)"

fun transition_error :: "exec_error \<Rightarrow> svc_error" where
  "transition_error (InvalidExecutionTransitionError run from to detail) =
     bare_error ''INVALID_EXECUTION_TRANSITION''
       (''Execution '' @ run @ '': cannot transition from '' @
        (case from of None \<Rightarrow> ''<none>'' | Some s \<Rightarrow> state_str s) @ '' to '' @ target_str to @
        (if truthy_str detail then '': '' @ nullish detail [] else ''.''))"

definition timeout_error :: "string \<Rightarrow> int \<Rightarrow> exec_state \<Rightarrow> svc_error" where
  "timeout_error run ms st = bare_error ''EXECUTION_TIMEOUT''
     (''Execution '' @ run @ '' timed out after '' @ show_int ms @ ''ms ('' @ state_str st @ '').'')"

definition cancellation_error :: "string \<Rightarrow> svc_error" where
  "cancellation_error run = bare_error ''CANCELLATION_UNSUPPORTED''
     (''Execution '' @ run @
      '': cancellation was requested but the underlying action does not support forced cancellation.'')"

definition em_dash :: string where "em_dash = [CHR '' '', char_of (151 :: nat), CHR '' '']"
definition quoted :: "string \<Rightarrow> string" where "quoted s = [CHR 0x22] @ s @ [CHR 0x22]"

section \<open>Options, surroundings, state\<close>

text \<open>\<open>ExecuteOptions\<close>: a callback is a \<open>bool\<close> that says whether it is supplied.\<close>

record exec_options =
  eo_runId :: "string option"
  eo_correlationId :: "string option"
  eo_workspaceId :: string
  eo_sessionId :: "string option"
  eo_workflowId :: "string option"
  eo_taskId :: "string option"
  eo_actor :: actor_identity
  eo_intent :: exec_intent
  eo_plan :: "exec_plan option"
  eo_capability :: capability_identity
  eo_placement :: "exec_placement option"
  eo_trust :: bool
  eo_idempotency :: idempotency_class
  eo_idempotencyKey :: "string option"
  eo_inputSummary :: string
  eo_inputBytes :: "int option"
  eo_timeoutMs :: "int option"
  eo_dryRun :: bool
  eo_maxAttempts :: "int option"
  eo_isRetryable :: bool
  eo_retryBackoffMs :: "rat option"
  eo_approve :: bool
  eo_checkBudget :: bool
  eo_recordCost :: bool

datatype save_site =
    At_reject | At_plan | At_no_approver | At_approval | At_trust | At_queue | At_start | At_final
  | At_resume | At_persist

text \<open>What one step draws from outside: the clock (\<open>e_end\<close> is its reading at the end of a longer
  one), fresh ids, and which statements throw.\<close>

record svc_env =
  e_now :: int
  e_end :: int
  e_runId :: string
  e_leaseId :: string
  e_requestId :: string
  e_cpId :: "string \<Rightarrow> checkpoint_kind \<Rightarrow> string"
  e_cancelId :: "string \<Rightarrow> string"
  e_decisionId :: "string \<Rightarrow> nat \<Rightarrow> string"
  e_random :: rat
  e_leaseFaults :: lease_faults
  e_releaseFaults :: lease_faults
  e_saveFails :: "save_site \<Rightarrow> bool"
  e_cpFails :: "checkpoint_kind \<Rightarrow> bool"
  e_readFails :: bool
  e_cancelFails :: bool
  e_markFails :: bool
  e_decisionFails :: bool
  e_findFails :: "svc_error option"
  e_claimFails :: "svc_error option"
  e_reconcileFails :: "svc_error option"
  e_settleFails :: bool

record svc_deps =
  dp_idempotency :: bool
  dp_trust :: bool
  dp_hooks :: recovery_hooks

datatype svc_event =
    Ev_audit string
  | Ev_budget_ok
  | Ev_granted string
  | Ev_trusted
  | Ev_action exec_options int
  | Ev_isolated
  | Ev_cost rat
  | Ev_settled string IdempotencySlotState
  | Ev_returned ExecutionRecord

text \<open>
  The shared database with the trace, an entry per event and the call it belongs to, and the
  number of calls made so far, which names the next one.
\<close>

record service_db =
  sd_records :: exec_rows
  sd_recovery :: recovery_db
  sd_leases :: lease_table
  sd_slots :: slots
  sd_meta :: "string \<Rightarrow> string option"
  sd_trace :: "(nat option \<times> svc_event) list"
  sd_calls :: nat

record cancel_flag =
  cf_cancelled :: bool
  cf_reason :: "string option"

text \<open>Where a call waits, with the variables of the loop that are live there.\<close>

datatype wait_point =
    PC_budget
  | PC_approval string
  | PC_trust
  | PC_action int int
  | PC_decision int bool svc_error decision_input int rat
  | PC_backoff int svc_error

record frame =
  fr_opts :: exec_options
  fr_rec :: ExecutionRecord
  fr_key :: "string option"
  fr_lease :: bool
  fr_pc :: wait_point

text \<open>
  A process: the calls in flight, and the maps \<open>live\<close> and \<open>cancelFlags\<close> by run id. An entry of
  \<open>live\<close> names the call whose record it refers to.
\<close>

record process =
  pr_mgr :: lease_manager
  pr_frames :: "nat \<Rightarrow> frame option"
  pr_live :: "(string \<times> nat) list"
  pr_flags :: "(string \<times> cancel_flag) list"

record call_ctx =
  k_deps :: svc_deps
  k_env :: svc_env
  k_proc :: process
  k_call :: nat
  k_opts :: exec_options

record local =
  l_db :: service_db
  l_rec :: ExecutionRecord
  l_key :: "string option"

datatype flow = Go local | Raise svc_error local | Finish local | Wait wait_point local

fun and_then :: "flow \<Rightarrow> (local \<Rightarrow> flow) \<Rightarrow> flow" where
  "and_then (Go l) f = f l"
| "and_then (Raise e l) f = Raise e l"
| "and_then (Finish l) f = Finish l"
| "and_then (Wait pc l) f = Wait pc l"

section \<open>Primitives\<close>

definition k_now :: "call_ctx \<Rightarrow> int" where "k_now k = e_now (k_env k)"

definition run_of :: "local \<Rightarrow> string" where "run_of l = runId (x_id (l_rec l))"

definition on_rec :: "(ExecutionRecord \<Rightarrow> ExecutionRecord) \<Rightarrow> local \<Rightarrow> local" where
  "on_rec f l = l\<lparr>l_rec := f (l_rec l)\<rparr>"

definition on_db :: "(service_db \<Rightarrow> service_db) \<Rightarrow> local \<Rightarrow> local" where
  "on_db f l = l\<lparr>l_db := f (l_db l)\<rparr>"

definition trace_event :: "nat option \<Rightarrow> svc_event \<Rightarrow> service_db \<Rightarrow> service_db" where
  "trace_event c ev d = d\<lparr>sd_trace := sd_trace d @ [(c, ev)]\<rparr>"

definition log_event :: "call_ctx \<Rightarrow> svc_event \<Rightarrow> local \<Rightarrow> local" where
  "log_event k ev l = on_db (trace_event (Some (k_call k)) ev) l"

definition audit :: "call_ctx \<Rightarrow> string \<Rightarrow> local \<Rightarrow> local" where
  "audit k name l = log_event k (Ev_audit name) l"

definition push_policy :: "policy_decision \<Rightarrow> local \<Rightarrow> local" where
  "push_policy p l = on_rec (\<lambda>r. r\<lparr>x_policy := x_policy r @ [p]\<rparr>) l"

definition set_outcome :: "exec_outcome \<Rightarrow> local \<Rightarrow> local" where
  "set_outcome c l = on_rec (\<lambda>r. r\<lparr>x_outcome := Some c\<rparr>) l"

definition plain_outcome ::
  "call_ctx \<Rightarrow> outcome_kind \<Rightarrow> string \<Rightarrow> stopped_reason option \<Rightarrow> error_summary option \<Rightarrow> exec_outcome" where
  "plain_outcome k kind msg stop err =
     \<lparr>oc_kind = kind, oc_message = msg, oc_stoppedReason = stop, oc_error = err, oc_at = k_now k\<rparr>"

definition error_of :: "string \<Rightarrow> string \<Rightarrow> bool \<Rightarrow> bool \<Rightarrow> error_kind \<Rightarrow> error_summary" where
  "error_of code msg retryable unknown cat =
     \<lparr>es_code = code, es_message = msg, es_retryable = retryable, es_sideEffectUnknown = unknown,
      es_category = cat\<rparr>"

definition applyTransition :: "call_ctx \<Rightarrow> exec_event \<Rightarrow> string \<Rightarrow> local \<Rightarrow> flow" where
  "applyTransition k ev reason l =
     (case transition (run_of l) (Some (x_state (l_rec l))) ev (Some reason) (k_now k) of
        Inl e \<Rightarrow> Raise (transition_error e) l
      | Inr (nxt, entry) \<Rightarrow>
          Go (on_rec (\<lambda>r. r\<lparr>x_state := nxt, x_history := x_history r @ [entry],
                            x_updatedAt := tr_at entry\<rparr>) l))"

definition put_checkpoint ::
  "svc_env \<Rightarrow> ExecutionRecord \<Rightarrow> checkpoint_kind \<Rightarrow> string option \<Rightarrow> (string \<times> json) list option \<Rightarrow>
   service_db \<Rightarrow> service_db" where
  "put_checkpoint e r kind progress extra d =
     d\<lparr>sd_recovery := (sd_recovery d)\<lparr>db_checkpoints :=
        snd (createCheckpoint (e_cpFails e kind) (e_cpId e (runId (x_id r)) kind) (e_now e) (as_record r)
               kind progress extra (db_checkpoints (sd_recovery d)))\<rparr>\<rparr>"

definition checkpoint :: "call_ctx \<Rightarrow> checkpoint_kind \<Rightarrow> string option \<Rightarrow> local \<Rightarrow> local" where
  "checkpoint k kind progress l = on_db (put_checkpoint (k_env k) (l_rec l) kind progress None) l"

text \<open>\<open>persist\<close> saves whatever record the live index holds under the run id, and never throws.\<close>

definition try_save :: "svc_env \<Rightarrow> save_site \<Rightarrow> ExecutionRecord \<Rightarrow> service_db \<Rightarrow> service_db" where
  "try_save e site r d =
     (case save_record (e_saveFails e site) r (sd_records d) of
        None \<Rightarrow> d
      | Some rows \<Rightarrow> d\<lparr>sd_records := rows\<rparr>)"

definition live_record :: "process \<Rightarrow> string \<Rightarrow> ExecutionRecord option" where
  "live_record p run =
     Option.bind (map_of (pr_live p) run) (\<lambda>c. map_option fr_rec (pr_frames p c))"

definition persist :: "call_ctx \<Rightarrow> save_site \<Rightarrow> local \<Rightarrow> local" where
  "persist k site l =
     (case map_of (pr_live (k_proc k)) (run_of l) of
        None \<Rightarrow> l
      | Some c \<Rightarrow>
          (case (if c = k_call k then Some (l_rec l) else map_option fr_rec (pr_frames (k_proc k) c)) of
             None \<Rightarrow> l
           | Some r \<Rightarrow> on_db (try_save (k_env k) site r) l))"

definition capability_label :: "capability_identity \<Rightarrow> string" where
  "capability_label c = capability_kind_str (cap_kind c) @ '':'' @ cap_name c"

definition capabilityRequiresApproval :: "capability_identity \<Rightarrow> bool" where
  "capabilityRequiresApproval c =
     (case cap_requiresApproval c of
        Some b \<Rightarrow> b
      | None \<Rightarrow>
          if cap_kind c = CK_control_action then True
          else if cap_kind c = CK_core_tool
          then cap_name c \<in> set [''shell'', ''delete_file'', ''write_file'', ''git'']
          else if cap_kind c = CK_mcp_tool then True
          else cap_kind c = CK_plugin_operation)"

definition buildAction :: "exec_options \<Rightarrow> ExecutionRecord \<Rightarrow> exec_placement \<Rightarrow> svc_action" where
  "buildAction opts r placement =
     \<lparr>act_capability = eo_capability opts, act_inputSummary = eo_inputSummary opts,
      act_inputBytes = eo_inputBytes opts, act_idempotency = eo_idempotency opts,
      act_idempotencyKey = eo_idempotencyKey opts, act_timeoutMs = eo_timeoutMs opts,
      act_dryRun = eo_dryRun opts, sa_placement = placement,
      sa_authorizedBy =
        (if x_policy r = [] then None
         else Some (let p = last (x_policy r) in
           \<lparr>az_decisionKind = policy_kind p, az_at = policy_at p, az_requestId = policy_requestId p\<rparr>))\<rparr>"

definition set_action :: "call_ctx \<Rightarrow> exec_placement \<Rightarrow> local \<Rightarrow> local" where
  "set_action k placement l = on_rec (\<lambda>r. r\<lparr>x_action := Some (buildAction (k_opts k) r placement)\<rparr>) l"

section \<open>Policy, budget, approval\<close>

datatype budget_answer =
    BA_decision bool "string option" "string option" "string option"
  | BA_throws svc_error

datatype approve_answer = AP_answer bool | AP_throws svc_error

fun admits :: "policy_decision \<Rightarrow> bool" where
  "admits (PD_allowed r t) = True"
| "admits (PD_approval_granted q b t) = True"
| "admits _ = False"

definition policy_default :: "call_ctx \<Rightarrow> local \<Rightarrow> local" where
  "policy_default k l =
     (if \<exists>p \<in> set (x_policy (l_rec l)). admits p then l
      else push_policy (PD_allowed (Some ''default allow (existing policy authoritative)'') (k_now k)) l)"

definition policy_approval :: "call_ctx \<Rightarrow> local \<Rightarrow> flow" where
  "policy_approval k l =
     (let opts = k_opts k; cap = eo_capability opts; q = e_requestId (k_env k) in
      if \<not> capabilityRequiresApproval cap then Go (policy_default k l)
      else if \<not> eo_approve opts then
        (let reason = ''Action '' @ quoted (cap_name cap) @ '' requires approval and no approver is wired.'' in
         and_then
           (applyTransition k E_deny ''no approver available''
             (set_outcome (plain_outcome k OK_denied reason (Some SR_approval) None)
               (push_policy (PD_denied reason (Some ''system:approval-gate'') (Some ''approval_unavailable'') (k_now k))
                 (push_policy (PD_requires_approval q reason None (k_now k)) l))))
           (\<lambda>l. Go (persist k At_no_approver (audit k ''execution.approval_unavailable'' l))))
      else
        and_then
          (applyTransition k E_require_approval ''awaiting user approval''
            (push_policy (PD_requires_approval q
               (''Action '' @ quoted (cap_name cap) @ '' requires approval.'')
               (Option.bind (eo_plan opts) pl_preview) (k_now k)) l))
          (\<lambda>l. Wait (PC_approval q) (persist k At_approval (audit k ''execution.approval_requested'' l))))"

definition policy_start :: "call_ctx \<Rightarrow> local \<Rightarrow> flow" where
  "policy_start k l =
     and_then (applyTransition k E_submit_policy ''policy evaluation started'' l)
       (\<lambda>l. if eo_checkBudget (k_opts k) then Wait PC_budget l else policy_approval k l)"

definition policy_budget :: "call_ctx \<Rightarrow> budget_answer \<Rightarrow> local \<Rightarrow> flow" where
  "policy_budget k ans l =
     (case ans of
        BA_throws e \<Rightarrow>
          applyTransition k E_mark_unavailable ''budget check failed''
            (set_outcome (plain_outcome k OK_unavailable (''Budget check failed: '' @ safeMessage e) None None)
              (push_policy (PD_unavailable (safeMessage e) (k_now k)) l))
      | BA_decision allow reason warning meter \<Rightarrow>
          if \<not> allow then
            (let why = nullish reason ''budget exceeded'' in
             and_then
               (applyTransition k E_budget_block why
                 (set_outcome (plain_outcome k OK_budget_stopped
                    (''Budget stopped: '' @ why @ (if truthy_str meter then '' ('' @ nullish meter [] @ '')'' else []))
                    (Some SR_budget) None)
                   (push_policy (PD_budget_blocked why meter (k_now k)) l)))
               (\<lambda>l. Go (audit k ''execution.budget_blocked'' l)))
          else policy_approval k
                 (log_event k Ev_budget_ok
                   (if truthy_str warning then push_policy (PD_allowed warning (k_now k)) l else l)))"

definition policy_answer :: "call_ctx \<Rightarrow> string \<Rightarrow> approve_answer \<Rightarrow> local \<Rightarrow> flow" where
  "policy_answer k q ans l =
     (case ans of
        AP_throws e \<Rightarrow> Raise e l
      | AP_answer approved \<Rightarrow>
          if approved then
            and_then
              (applyTransition k E_grant_approval ''user approved''
                (push_policy (PD_approval_granted q ''user'' (k_now k)) l))
              (\<lambda>l. Go (policy_default k (log_event k (Ev_granted q) l)))
          else
            and_then
              (applyTransition k E_deny ''user denied approval''
                (set_outcome (plain_outcome k OK_denied ''Action denied by user.'' (Some SR_approval) None)
                  (push_policy (PD_approval_denied q ''user'' ''user denied'' (k_now k)) l)))
              (\<lambda>l. Go (audit k ''execution.approval_denied'' l)))"

section \<open>Outcomes, slots, the end of a call\<close>

definition outcome_message :: "ExecutionRecord \<Rightarrow> string \<Rightarrow> string" where
  "outcome_message r d = (case x_outcome r of None \<Rightarrow> d | Some c \<Rightarrow> oc_message c)"

definition effect_unknown :: "ExecutionRecord \<Rightarrow> bool" where
  "effect_unknown r \<longleftrightarrow>
     (case Option.bind (x_outcome r) oc_error of None \<Rightarrow> False | Some e \<Rightarrow> es_sideEffectUnknown e)"

definition settle_state :: "ExecutionRecord \<Rightarrow> IdempotencySlotState" where
  "settle_state r =
     (let kind = map_option oc_kind (x_outcome r) in
      if kind \<in> {Some OK_succeeded, Some OK_partially_completed, Some OK_dry_run_simulated} then Slot_completed
      else if kind = Some OK_reconciliation_required \<or> effect_unknown r then Slot_reconcile
      else Slot_failed)"

definition settleIdempotencySlot :: "call_ctx \<Rightarrow> local \<Rightarrow> local" where
  "settleIdempotencySlot k l =
     (case l_key l of
        None \<Rightarrow> l
      | Some key \<Rightarrow>
          if key = [] \<or> \<not> dp_idempotency (k_deps k) \<or> e_settleFails (k_env k) then l
          else
            (let r = l_rec l; now = k_now k in
             log_event k (Ev_settled key (settle_state r))
               (on_db (\<lambda>d. d\<lparr>sd_slots :=
                  (case settle_state r of
                     Slot_completed \<Rightarrow> complete_slot key (Some (outcome_message r ''ok'')) (Some (run_of l)) now (sd_slots d)
                   | Slot_reconcile \<Rightarrow> requireReconciliation key (outcome_message r ''side-effect status unknown'') now (sd_slots d)
                   | _ \<Rightarrow> fail_slot key (Some (outcome_message r ''failed'')) now (sd_slots d))\<rparr>) l)))"

definition possible_effect :: "ExecutionRecord \<Rightarrow> bool" where
  "possible_effect r \<longleftrightarrow> x_state r = S_running \<or> x_state r = S_observing"

text \<open>After the loop.\<close>

definition after_loop :: "call_ctx \<Rightarrow> svc_error option \<Rightarrow> local \<Rightarrow> flow" where
  "after_loop k lastErr l =
     and_then
       (if x_outcome (l_rec l) = None then
          (let l = set_outcome (plain_outcome k OK_failed
                     (case lastErr of None \<Rightarrow> ''Execution ended without producing an outcome.''
                      | Some e \<Rightarrow> safeMessage e) None None) l
           in if x_state (l_rec l) \<noteq> S_failed then applyTransition k E_fail ''no outcome recorded'' l else Go l)
        else Go l)
       (\<lambda>l. Finish (settleIdempotencySlot k l))"

text \<open>\<open>catch (topErr)\<close>.\<close>

definition top_error :: "call_ctx \<Rightarrow> svc_error \<Rightarrow> local \<Rightarrow> local" where
  "top_error k e l =
     (let l = (if x_outcome (l_rec l) = None
               then set_outcome (plain_outcome k OK_failed (safeMessage e) None
                      (Some (error_of ''EXECUTION_ERROR'' (safeMessage e) False (possible_effect (l_rec l)) EK_unknown))) l
               else l);
          l = (if isTerminal (x_state (l_rec l)) then l
               else case applyTransition k E_fail ''orchestrator error'' l of Go l' \<Rightarrow> l' | _ \<Rightarrow> l)
      in settleIdempotencySlot k l)"

definition downgrade :: "call_ctx \<Rightarrow> ExecutionRecord \<Rightarrow> ExecutionRecord" where
  "downgrade k r =
     (case x_outcome r of
        None \<Rightarrow> r
      | Some c \<Rightarrow>
          if oc_kind c = OK_succeeded
          then r\<lparr>x_outcome := Some (c\<lparr>oc_kind := OK_reconciliation_required,
                   oc_message := ''Outcome not durable: Execution '' @ runId (x_id r) @
                     '' persistence failed'' @ em_dash @ ''outcome may not be durable.''\<rparr>),
                 x_state := S_reconciliation_required,
                 x_history := x_history r @ [\<lparr>tr_from = Some S_succeeded, tr_to = S_reconciliation_required,
                   tr_at = k_now k, tr_reason = Some ''persistence failed''\<rparr>]\<rparr>
          else r)"

definition finalize :: "call_ctx \<Rightarrow> local \<Rightarrow> local" where
  "finalize k l =
     (let l = on_rec (\<lambda>r. r\<lparr>x_endedAt := Some (k_now k),
                x_durationMs := (if truthy_num (x_startedAt r) then Some (k_now k - nullish (x_startedAt r) 0)
                                 else x_durationMs r)\<rparr>) l
      in audit k ''execution.outcome''
           (case save_record (e_saveFails (k_env k) At_final) (l_rec l) (sd_records (l_db l)) of
              Some rows \<Rightarrow> on_db (\<lambda>d. d\<lparr>sd_records := rows\<rparr>) l
            | None \<Rightarrow> on_rec (downgrade k) l))"

section \<open>The action and its retries\<close>

definition max_attempts :: "exec_options \<Rightarrow> int" where
  "max_attempts opts = max 1 (min (nullish (eo_maxAttempts opts) 1) MAX_ATTEMPTS)"

definition timeout_ms :: "exec_options \<Rightarrow> int" where
  "timeout_ms opts = min (nullish (eo_timeoutMs opts) DEFAULT_TIMEOUT_MS) MAX_TIMEOUT_MS"

definition run_attempt :: "call_ctx \<Rightarrow> int \<Rightarrow> local \<Rightarrow> flow" where
  "run_attempt k n l =
     (let now = k_now k;
          l = on_rec (\<lambda>r. r\<lparr>x_id := (x_id r)\<lparr>attempt := n\<rparr>\<rparr>) l;
          l = (if 1 < n then audit k ''execution.retry''
                 (on_rec (\<lambda>r. r\<lparr>x_retryCount := Some (nullish (x_retryCount r) 0 + 1)\<rparr>) l) else l)
      in and_then
           (applyTransition k E_start (if 1 < n then ''attempt '' @ show_int n else ''execution started'')
             (on_rec (\<lambda>r. r\<lparr>x_startedAt := Some now\<rparr>) l))
           (\<lambda>l. Wait (PC_action n now)
             (log_event k (Ev_action (k_opts k) n)
               (on_rec (\<lambda>r. r\<lparr>x_timeout := Some \<lparr>tn_deadlineMs = now + timeout_ms (k_opts k), tn_firedAt = None,
                                                tn_stage = TS_before_action\<rparr>\<rparr>)
                 (persist k At_start l)))))"

definition loop_from :: "call_ctx \<Rightarrow> int \<Rightarrow> svc_error option \<Rightarrow> local \<Rightarrow> flow" where
  "loop_from k n lastErr l =
     (if n \<le> max_attempts (k_opts k) then run_attempt k n l else after_loop k lastErr l)"

definition completed_kind :: "capability_kind \<Rightarrow> checkpoint_kind" where
  "completed_kind ck =
     (if ck = CK_model_call then CP_model_turn_completed
      else if ck = CK_core_tool \<or> ck = CK_mcp_tool then CP_tool_call_completed
      else CP_step_completed)"

definition text_or :: "string \<Rightarrow> string \<Rightarrow> string" where
  "text_or s d = (if s = [] then d else s)"

text \<open>The \<open>try\<close> block once the action has returned.\<close>

definition action_returned :: "call_ctx \<Rightarrow> exec_observation \<Rightarrow> local \<Rightarrow> flow" where
  "action_returned k obs l =
     and_then
       (applyTransition k E_observe ''observation collected'' (on_rec (\<lambda>r. r\<lparr>x_observation := Some obs\<rparr>) l))
       (\<lambda>l.
         let kind = completed_kind (cap_kind (eo_capability (k_opts k)));
             l = checkpoint k kind
                   (Some (kind_str kind @ em_dash @ (if obs_transportOk obs then ''ok'' else ''failed''))) l
         in if eo_dryRun (k_opts k) then
              applyTransition k E_succeed ''dry-run complete''
                (set_outcome (plain_outcome k OK_dry_run_simulated
                  (text_or (obs_summary obs) ''Dry-run: no side effects performed.'') None None) l)
            else if obs_transportOk obs then
              applyTransition k E_succeed ''action returned successfully''
                (set_outcome (plain_outcome k OK_succeeded
                  (text_or (obs_summary obs) ''Action completed successfully.'') (Some SR_done) None) l)
            else
              applyTransition k E_fail ''action returned failure''
                (set_outcome (plain_outcome k OK_failed (text_or (obs_summary obs) ''Action failed.'') None
                  (Some (error_of ''ACTION_FAILED'' (text_or (obs_summary obs) ''Action failed.'') False False EK_unknown))) l))"

definition retry_input :: "call_ctx \<Rightarrow> svc_error \<Rightarrow> bool \<Rightarrow> int \<Rightarrow> int \<Rightarrow> decision_input" where
  "retry_input k e unknown n started =
     \<lparr>di_error = er_thrown e, di_idempotency = eo_idempotency (k_opts k), sideEffectUnknown = unknown,
      di_attempt = n, di_startedAt = Some started,
      di_budget = no_budget\<lparr>maxAttempts := Some (max_attempts (k_opts k)), baseDelayMs := eo_retryBackoffMs (k_opts k),
        deadlineMs := (if truthy_num (eo_timeoutMs (k_opts k))
                       then Some (nullish (eo_timeoutMs (k_opts k)) 0 * max_attempts (k_opts k)) else None)\<rparr>,
      callerAllowsRetry = None\<rparr>"

definition cancelled_outcome :: "call_ctx \<Rightarrow> string option \<Rightarrow> svc_error \<Rightarrow> local \<Rightarrow> local" where
  "cancelled_outcome k reason e l =
     (let effect = possible_effect (l_rec l) in
      set_outcome (plain_outcome k OK_cancelled
          (''Execution cancelled'' @ (if truthy_str reason then '': '' @ nullish reason [] else []) @ ''.'')
          None (Some (error_of ''CANCELLED'' (safeMessage e) False effect EK_cancellation)))
        (on_rec (\<lambda>r. r\<lparr>x_cancellation := Some \<lparr>cn_requestedAt = k_now k, cn_reason = reason,
            cn_acknowledged = True, cn_sideEffectPossible = effect\<rparr>\<rparr>) l))"

definition timed_out_outcome :: "call_ctx \<Rightarrow> svc_error \<Rightarrow> int \<Rightarrow> local \<Rightarrow> local" where
  "timed_out_outcome k e started l =
     (let unknown = possible_effect (l_rec l); ms = timeout_ms (k_opts k) in
      set_outcome (plain_outcome k OK_timed_out
          (''Execution timed out after '' @ show_int ms @ ''ms'' @
           (if unknown then '' (side-effect status unknown)'' else []) @ ''.'')
          None (Some (error_of ''TIMEOUT'' (safeMessage e) (\<not> unknown) unknown EK_timeout)))
        (on_rec (\<lambda>r. r\<lparr>x_timeout := Some
            \<lparr>tn_deadlineMs = (case x_timeout r of None \<Rightarrow> started + ms | Some t \<Rightarrow> tn_deadlineMs t),
             tn_firedAt = Some (k_now k),
             tn_stage = (if unknown then TS_after_unknown
                         else if x_state r = S_running then TS_during_action else TS_before_action)\<rparr>\<rparr>) l))"

definition cleanup_summary :: "bool \<Rightarrow> string" where
  "cleanup_summary effect =
     ''cancellation cleanup completed (side-effect '' @ (if effect then ''possible'' else ''not possible'') @ '')''"

text \<open>The \<open>catch\<close> block of an attempt: cancelled, past its deadline, or failed.\<close>

definition action_failed :: "call_ctx \<Rightarrow> int \<Rightarrow> int \<Rightarrow> svc_error \<Rightarrow> local \<Rightarrow> flow" where
  "action_failed k n started e l =
     (let flag = map_of (pr_flags (k_proc k)) (run_of l); now = k_now k;
          unknown = possible_effect (l_rec l) in
      if (case flag of None \<Rightarrow> False | Some f \<Rightarrow> cf_cancelled f) then
        and_then (applyTransition k E_cancel ''cancelled'' (cancelled_outcome k (Option.bind flag cf_reason) e l))
          (\<lambda>l. after_loop k (Some e) (checkpoint k CP_cleanup_completed (Some (cleanup_summary unknown)) l))
      else if timeout_ms (k_opts k) \<le> now - started then
        and_then (applyTransition k E_timeout ''timeout fired'' (timed_out_outcome k e started l))
          (Wait (PC_decision n True e (retry_input k e unknown n started) now (e_random (k_env k))))
      else
        and_then
          (applyTransition k E_fail (safeMessage e)
            (set_outcome (plain_outcome k OK_failed (safeMessage e) None
               (Some (error_of (error_code e) (safeMessage e) (er_retryable e) unknown EK_unknown))) l))
          (Wait (PC_decision n False e (retry_input k e unknown n started) now (e_random (k_env k)))))"

datatype action_result = RR_returns exec_observation | RR_throws svc_error | RR_timeout | RR_cancelled

text \<open>
  \<open>runWithGuards\<close>: the race of the action, its timer and the cancellation watchdog, which rejects
  only while the flag is set.
\<close>

definition guard_error :: "call_ctx \<Rightarrow> action_result \<Rightarrow> local \<Rightarrow> svc_error option" where
  "guard_error k res l =
     (case res of
        RR_returns obs \<Rightarrow> None
      | RR_throws e \<Rightarrow> Some e
      | RR_timeout \<Rightarrow> Some (timeout_error (run_of l) (timeout_ms (k_opts k)) (x_state (l_rec l)))
      | RR_cancelled \<Rightarrow> Some (cancellation_error (run_of l)))"

definition action_settled :: "call_ctx \<Rightarrow> int \<Rightarrow> int \<Rightarrow> action_result \<Rightarrow> local \<Rightarrow> flow" where
  "action_settled k n started res l =
     (case guard_error k res l of
        Some e \<Rightarrow> action_failed k n started e l
      | None \<Rightarrow>
          (case res of
             RR_returns obs \<Rightarrow>
               (case action_returned k obs l of
                  Go l' \<Rightarrow> after_loop k None l'
                | Raise e l' \<Rightarrow> action_failed k n started e l'
                | other \<Rightarrow> other)
           | _ \<Rightarrow> Go l))"

datatype hook_answer = HA_allows bool | HA_throws svc_error

definition hook_error :: "hook_answer \<Rightarrow> svc_error option" where
  "hook_error ans = (case ans of HA_allows b \<Rightarrow> None | HA_throws e \<Rightarrow> Some e)"

definition asked_input :: "exec_options \<Rightarrow> hook_answer \<Rightarrow> decision_input \<Rightarrow> decision_input" where
  "asked_input opts ans i = i\<lparr>callerAllowsRetry :=
     (if eo_isRetryable opts
      then Some (\<lambda>_ _. case ans of HA_allows b \<Rightarrow> b | HA_throws e \<Rightarrow> True) else None)\<rparr>"

definition resetForRetry :: "call_ctx \<Rightarrow> local \<Rightarrow> flow" where
  "resetForRetry k l =
     and_then (applyTransition k E_retry (''retry attempt '' @ show_int (attempt (x_id (l_rec l)) + 1)) l)
       (\<lambda>l. Go (on_rec (\<lambda>r. r\<lparr>x_observation := None, x_outcome := None, x_updatedAt := k_now k\<rparr>) l))"

definition upgrade_unknown :: "call_ctx \<Rightarrow> svc_error \<Rightarrow> local \<Rightarrow> local" where
  "upgrade_unknown k e l =
     on_rec (\<lambda>r. r\<lparr>
       x_outcome := map_option (\<lambda>c. c\<lparr>oc_kind := OK_reconciliation_required,
         oc_message := ''Non-idempotent action failed after possible side effect: '' @ safeMessage e @
           ''. Manual reconciliation required.''\<rparr>) (x_outcome r),
       x_state := S_reconciliation_required,
       x_history := x_history r @ [\<lparr>tr_from = Some S_failed, tr_to = S_reconciliation_required,
         tr_at = k_now k, tr_reason = Some ''side-effect unknown''\<rparr>]\<rparr>) l"

text \<open>A hook that throws does so only where the decision consults it, which is after the gates.\<close>

definition retry_decided ::
  "call_ctx \<Rightarrow> int \<Rightarrow> bool \<Rightarrow> svc_error \<Rightarrow> decision_input \<Rightarrow> int \<Rightarrow> rat \<Rightarrow> hook_answer \<Rightarrow> local \<Rightarrow> flow" where
  "retry_decided k n timed e inp now r ans l =
     (let d = decideRetry (asked_input (k_opts k) ans inp) now r;
          l1 = (if timed then l else audit k ''execution.retry_decision'' l) in
      case (if eo_isRetryable (k_opts k) \<and> verdict d = Retry then hook_error ans else None) of
        Some e' \<Rightarrow> Raise e' l
      | None \<Rightarrow>
          if verdict d = Retry then
            and_then (resetForRetry k (if timed then audit k ''execution.retry'' l1 else l1))
              (Wait (PC_backoff (n + 1) e))
          else if \<not> timed \<and> (verdict d = retry_verdict.Reconcile \<or>
                 eo_idempotency (k_opts k) = Non_idempotent \<and> effect_unknown (l_rec l1))
          then after_loop k (Some e) (upgrade_unknown k e l1)
          else after_loop k (Some e) l1)"

end
