(* ===== verification/Exec_Calls.thy ===== *)
theory Exec_Calls
  imports Exec_Service
begin

text \<open>
  The rest of \<open>src/src/execution/service.ts\<close>: the trust gate, the dispatch with claim-first
  idempotency, the entry with its workflow gate, the end of a call, the answers a waiting call
  goes on with, the callbacks of a running action, cancellation and shutdown.
\<close>

section \<open>The trust gate\<close>

text \<open>
  What \<open>TrustService.evaluate\<close> gives back: the trust record, the reason of its decision and the
  outcome.
\<close>

datatype gate_outcome = TG_blocked string | TG_ran exec_observation | TG_in_process

record trust_evaluation =
  tg_trust :: trust_record
  tg_reason :: string
  tg_outcome :: gate_outcome

datatype trust_answer = TA_evaluated trust_evaluation | TA_throws svc_error

definition environment_finished :: "call_ctx \<Rightarrow> exec_observation \<Rightarrow> local \<Rightarrow> flow" where
  "environment_finished k obs l =
     (if obs_transportOk obs then
        applyTransition k E_succeed ''environment action succeeded''
          (set_outcome (plain_outcome k OK_succeeded
            (text_or (obs_summary obs) ''Isolated action completed.'') (Some SR_done) None) l)
      else
        applyTransition k E_fail ''environment action failed''
          (set_outcome (plain_outcome k OK_failed (text_or (obs_summary obs) ''Isolated action failed.'') None
            (Some (error_of ''ENV_ACTION_FAILED'' (text_or (obs_summary obs) ''Isolated action failed.'')
                     False False EK_unknown))) l))"

definition environment_ran :: "call_ctx \<Rightarrow> trust_evaluation \<Rightarrow> exec_observation \<Rightarrow> local \<Rightarrow> flow" where
  "environment_ran k t obs l =
     and_then
       (if x_state (l_rec l) \<noteq> S_authorized then applyTransition k E_authorize ''trust admission'' l else Go l)
       (\<lambda>l. and_then
         (applyTransition k E_queue ''dispatching to environment''
           (set_action k (trustPlacementToExecution (trust_placement (tg_trust t)) (Some (tg_reason t))) l))
         (\<lambda>l. and_then
           (applyTransition k E_start ''environment execution'' (on_rec (\<lambda>r. r\<lparr>x_startedAt := Some (k_now k)\<rparr>) l))
           (\<lambda>l. and_then
             (applyTransition k E_observe ''environment observation collected''
               (on_rec (\<lambda>r. r\<lparr>x_observation := Some obs\<rparr>) l))
             (\<lambda>l. and_then (environment_finished k obs l)
               (\<lambda>l. Finish (log_event k Ev_isolated l))))))"

definition trust_gate :: "call_ctx \<Rightarrow> trust_answer \<Rightarrow> local \<Rightarrow> flow" where
  "trust_gate k ans l =
     (case ans of
        TA_throws e \<Rightarrow> Raise e l
      | TA_evaluated t \<Rightarrow>
          (let l = persist k At_trust (on_rec (\<lambda>r. r\<lparr>x_trust := Some (tg_trust t)\<rparr>) l) in
           case tg_outcome t of
             TG_blocked why \<Rightarrow>
               and_then
                 (applyTransition k E_deny ''trust/isolation blocked''
                   (set_outcome (plain_outcome k OK_denied (''Blocked by Trust & Isolation: '' @ why) (Some SR_approval)
                      (Some (error_of ''TRUST_BLOCKED'' why False False EK_policy)))
                     (set_action k (EP_in_process (Some ''blocked before placement'')) l)))
                 (\<lambda>l. Finish (audit k ''execution.trust_blocked'' l))
           | TG_ran obs \<Rightarrow>
               environment_ran k t obs
                 (checkpoint k CP_env_admitted
                   (Some (''environment admitted ('' @ placement_str (trust_placement (tg_trust t)) @ '')'')) l)
           | TG_in_process \<Rightarrow> Go (log_event k Ev_trusted l)))"

section \<open>Dispatch\<close>

definition replay_prior :: "call_ctx \<Rightarrow> ExecutionRecord \<Rightarrow> local \<Rightarrow> flow" where
  "replay_prior k prior l =
     (let pid' = runId (x_id prior); tag = ''(duplicate of '' @ pid' @ '') '' in
      and_then
        (applyTransition k E_start ''replaying cached success''
          (set_outcome (plain_outcome k OK_succeeded
              (''Duplicate of prior successful execution '' @ pid' @ ''; side effect not replayed.'') None None)
            (on_rec (\<lambda>r. r\<lparr>x_duplicateOf := Some pid',
               x_observation := Some (case x_observation prior of
                 Some b \<Rightarrow> b\<lparr>obs_summary := tag @ obs_summary b\<rparr>
               | None \<Rightarrow> \<lparr>obs_summary = tag @ ''no side effect replayed'', obs_transportOk = True,
                          obs_statusCode = None, obs_outputBytes = None, obs_logs = None,
                          obs_modelFeedback = None\<rparr>)\<rparr>) l)))
        (\<lambda>l. and_then (applyTransition k E_succeed ''idempotent cache hit'' l)
          (\<lambda>l. Finish (audit k ''execution.duplicate'' l))))"

definition replay_slot :: "call_ctx \<Rightarrow> string \<Rightarrow> local \<Rightarrow> flow" where
  "replay_slot k res l =
     and_then
       (applyTransition k E_start ''replaying cached slot''
         (set_outcome (plain_outcome k OK_succeeded
             ''Idempotent slot already completed; side effect not replayed.'' None None)
           (on_rec (\<lambda>r. r\<lparr>x_duplicateOf := Some (nullish (x_duplicateOf r) (runId (x_id r))),
              x_observation := Some \<lparr>obs_summary = ''(idempotent slot hit) '' @ res, obs_transportOk = True,
                 obs_statusCode = None, obs_outputBytes = None, obs_logs = None,
                 obs_modelFeedback = None\<rparr>\<rparr>) l)))
       (\<lambda>l. and_then (applyTransition k E_succeed ''idempotent slot hit'' l)
         (\<lambda>l. Finish (audit k ''execution.duplicate'' l)))"

definition refuse_reconcile :: "call_ctx \<Rightarrow> string \<Rightarrow> string \<Rightarrow> local \<Rightarrow> flow" where
  "refuse_reconcile k msg short l =
     and_then
       (applyTransition k E_start ''evaluating idempotency claim''
         (set_outcome (plain_outcome k OK_failed msg None
            (Some (error_of ''RECONCILIATION_REQUIRED'' short False True EK_reconciliation))) l))
       (\<lambda>l. and_then (applyTransition k E_fail ''reconciliation required'' l)
         (\<lambda>l. Finish (audit k ''execution.reconciliation_required'' l)))"

definition set_slots :: "slots \<Rightarrow> local \<Rightarrow> local" where
  "set_slots t l = on_db (\<lambda>d. d\<lparr>sd_slots := t\<rparr>) l"

text \<open>After the claim: \<open>res\<close> is its result.\<close>

definition claimed :: "call_ctx \<Rightarrow> string \<Rightarrow> ClaimResult \<Rightarrow> local \<Rightarrow> flow" where
  "claimed k key res l =
     (if requiresReconciliation res then
        refuse_reconcile k
          (''Prior attempt left an unresolved side effect requiring reconciliation'' @ em_dash @
           ''this execution is not re-run.'')
          ''requires reconciliation; not re-run'' l
      else if truthy_str (cachedResult res) then replay_slot k (nullish (cachedResult res) []) l
      else if crashedPending res \<and> eo_idempotency (k_opts k) \<noteq> Idempotent_with_key then
        (case e_reconcileFails (k_env k) of
           Some e \<Rightarrow> Raise e l
         | None \<Rightarrow>
             refuse_reconcile k
               (''A prior run claimed this effect and was interrupted; the effect is non-idempotent and '' @
                ''will not be re-run. Requires reconciliation.'')
               ''interrupted non-idempotent effect''
               (set_slots (requireReconciliation key
                  (''interrupted non-idempotent effect'' @ em_dash @ ''never re-run'') (k_now k)
                  (sd_slots (l_db l))) l))
      else loop_from k 1 None
             (if proceed res \<or> crashedPending res then l\<lparr>l_key := Some key\<rparr> else l))"

definition claim_slot :: "call_ctx \<Rightarrow> string \<Rightarrow> local \<Rightarrow> flow" where
  "claim_slot k key l =
     (case e_claimFails (k_env k) of
        Some e \<Rightarrow> Raise e l
      | None \<Rightarrow>
          (case claim key (capability_kind_str (cap_kind (eo_capability (k_opts k)))) (Some (run_of l))
                  (k_now k) (k_now k) (k_now k) (sd_slots (l_db l)) of
             (res, t) \<Rightarrow> claimed k key res (set_slots t l)))"

definition keyed_effect :: "exec_options \<Rightarrow> bool" where
  "keyed_effect opts \<longleftrightarrow> truthy_str (eo_idempotencyKey opts) \<and> eo_idempotency opts \<noteq> Naturally_idempotent"

definition idempotency_gate :: "call_ctx \<Rightarrow> local \<Rightarrow> flow" where
  "idempotency_gate k l =
     (let opts = k_opts k; cap = eo_capability opts; key = nullish (eo_idempotencyKey opts) [] in
      if \<not> keyed_effect opts then loop_from k 1 None l
      else
        (case e_findFails (k_env k) of
           Some e \<Rightarrow> Raise e l
         | None \<Rightarrow>
             (case findCompletedByIdempotencyKey (eo_workspaceId opts) (cap_kind cap) (cap_name cap) key
                     (sd_records (l_db l)) of
                Some prior \<Rightarrow>
                  if map_option oc_kind (x_outcome prior) = Some OK_succeeded then replay_prior k prior l
                  else if dp_idempotency (k_deps k) then claim_slot k key l
                  else loop_from k 1 None l
              | None \<Rightarrow>
                  if dp_idempotency (k_deps k) then claim_slot k key l else loop_from k 1 None l)))"

definition dispatch :: "call_ctx \<Rightarrow> local \<Rightarrow> flow" where
  "dispatch k l =
     (let l = set_action k (nullish (eo_placement (k_opts k)) (EP_in_process None)) l in
      and_then
        (if x_state (l_rec l) \<noteq> S_authorized then applyTransition k E_authorize ''policy satisfied'' l else Go l)
        (\<lambda>l. and_then (applyTransition k E_queue ''ready for execution'' l)
          (\<lambda>l. idempotency_gate k
            (checkpoint k CP_step_started
              (Some (''Starting '' @ capability_label (eo_capability (k_opts k))))
              (persist k At_queue l)))))"

text \<open>From the return of \<open>applyPolicy\<close>.\<close>

definition after_policy :: "call_ctx \<Rightarrow> local \<Rightarrow> flow" where
  "after_policy k l =
     (if isTerminal (x_state (l_rec l)) then Finish l
      else
        (let l = checkpoint k CP_policy_admitted None l in
         if eo_trust (k_opts k) \<and> dp_trust (k_deps k) then Wait PC_trust l else dispatch k l))"

section \<open>Beginning and end of a call\<close>

definition new_record :: "string \<Rightarrow> exec_options \<Rightarrow> int \<Rightarrow> ExecutionRecord" where
  "new_record run opts now =
     \<lparr>x_id = \<lparr>runId = run, workspaceId = eo_workspaceId opts, sessionId = eo_sessionId opts,
              workflowId = eo_workflowId opts, taskId = eo_taskId opts, attempt = 1,
              parentRunId = None, correlationId = nullish (eo_correlationId opts) run\<rparr>,
      x_state = S_created, x_actor = eo_actor opts, x_intent = eo_intent opts, x_plan = eo_plan opts,
      x_policy = [], x_action = None, x_observation = None, x_evidence = [], x_artifacts = [],
      x_cost = None, x_outcome = None,
      x_history = [\<lparr>tr_from = None, tr_to = S_created, tr_at = now, tr_reason = Some ''execution created''\<rparr>],
      x_createdAt = now, x_updatedAt = now, x_startedAt = None, x_endedAt = None, x_durationMs = None,
      x_adapterVersion = EXECUTION_ADAPTER_VERSION, x_duplicateOf = None, x_cancellation = None,
      x_timeout = None, x_retryOf = None, x_retryCount = None, x_trust = None\<rparr>"

text \<open>The record of a call whose workflow is already owned; the plan is not copied.\<close>

definition rejected_record :: "string \<Rightarrow> exec_options \<Rightarrow> int \<Rightarrow> string \<Rightarrow> string \<Rightarrow> string \<Rightarrow> ExecutionRecord" where
  "rejected_record run opts now why msg short =
     (let r = new_record run opts now in
      r\<lparr>x_plan := None, x_state := S_failed,
        x_history := x_history r @ [\<lparr>tr_from = Some S_created, tr_to = S_failed, tr_at = now, tr_reason = Some why\<rparr>],
        x_outcome := Some \<lparr>oc_kind = OK_failed, oc_message = msg, oc_stoppedReason = None,
          oc_error = Some (error_of ''WORKFLOW_LEASE_HELD'' short False False EK_policy), oc_at = now\<rparr>\<rparr>)"

definition reject_call :: "svc_env \<Rightarrow> nat \<Rightarrow> ExecutionRecord \<Rightarrow> service_db \<Rightarrow> service_db" where
  "reject_call e c r d =
     trace_event (Some c) (Ev_returned r)
       (trace_event (Some c) (Ev_audit ''execution.lease_rejected'') (try_save e At_reject r d))"

definition finish_call :: "call_ctx \<Rightarrow> bool \<Rightarrow> local \<Rightarrow> service_db \<times> process" where
  "finish_call k held l =
     (let l = finalize k l; e = k_env k; p = k_proc k; run = run_of l; d = l_db l;
          wid = nullish (eo_workflowId (k_opts k)) [];
          d = (if held \<and> wid \<noteq> []
               then d\<lparr>sd_leases := snd (release (e_releaseFaults e) (e_now e) LT_workflow wid ''execution_finished''
                                         (sd_leases d))\<rparr>
               else d)
      in (trace_event (Some (k_call k)) (Ev_returned (l_rec l)) d,
          p\<lparr>pr_frames := (pr_frames p)(k_call k := None), pr_live := AList.delete run (pr_live p),
            pr_flags := AList.delete run (pr_flags p)\<rparr>))"

definition park :: "call_ctx \<Rightarrow> bool \<Rightarrow> wait_point \<Rightarrow> local \<Rightarrow> service_db \<times> process" where
  "park k held pc l =
     (l_db l,
      (k_proc k)\<lparr>pr_frames := (pr_frames (k_proc k))(k_call k \<mapsto>
         \<lparr>fr_opts = k_opts k, fr_rec = l_rec l, fr_key = l_key l, fr_lease = held, fr_pc = pc\<rparr>)\<rparr>)"

fun settle_flow :: "call_ctx \<Rightarrow> bool \<Rightarrow> flow \<Rightarrow> service_db \<times> process" where
  "settle_flow k held (Wait pc l) = park k held pc l"
| "settle_flow k held (Finish l) = finish_call k held l"
| "settle_flow k held (Raise e l) = finish_call k held (top_error k e l)"
| "settle_flow k held (Go l) = finish_call k held l"

definition start_body :: "call_ctx \<Rightarrow> local \<Rightarrow> flow" where
  "start_body k l =
     and_then
       (case eo_plan (k_opts k) of
          None \<Rightarrow> Go l
        | Some pl \<Rightarrow>
            and_then (applyTransition k E_plan ''plan registered'' l)
              (\<lambda>l. Go (persist k At_plan (checkpoint k CP_plan_recorded None l))))
       (\<lambda>l. and_then (policy_start k l) (after_policy k))"

definition start_call ::
  "svc_deps \<Rightarrow> svc_env \<Rightarrow> nat \<Rightarrow> string \<Rightarrow> exec_options \<Rightarrow> bool \<Rightarrow> service_db \<Rightarrow> process \<Rightarrow> service_db \<times> process" where
  "start_call deps e c run opts held d p =
     (let p = p\<lparr>pr_live := AList.update run c (pr_live p),
                pr_flags := AList.update run \<lparr>cf_cancelled = False, cf_reason = None\<rparr> (pr_flags p)\<rparr>;
          k = \<lparr>k_deps = deps, k_env = e, k_proc = p, k_call = c, k_opts = opts\<rparr>;
          l = \<lparr>l_db = d, l_rec = new_record run opts (e_now e), l_key = None\<rparr>
      in settle_flow k held (start_body k (checkpoint k CP_task_accepted None (audit k ''execution.created'' l))))"

text \<open>A live call of the same workflow under another run id.\<close>

definition workflow_in_flight :: "process \<Rightarrow> string \<Rightarrow> string \<Rightarrow> bool" where
  "workflow_in_flight p wid run \<longleftrightarrow>
     (\<exists>(r, c) \<in> set (pr_live p). case pr_frames p c of None \<Rightarrow> False
        | Some fr \<Rightarrow> workflowId (x_id (fr_rec fr)) = Some wid \<and> runId (x_id (fr_rec fr)) \<noteq> run)"

definition begin_call ::
  "svc_deps \<Rightarrow> (int \<Rightarrow> kill_result) \<Rightarrow> svc_env \<Rightarrow> exec_options \<Rightarrow> service_db \<Rightarrow> process \<Rightarrow> service_db \<times> process" where
  "begin_call deps kill e opts d p =
     (let run = nullish (eo_runId opts) (e_runId e); c = sd_calls d; d = d\<lparr>sd_calls := Suc c\<rparr>;
          wid = nullish (eo_workflowId opts) []
      in if wid = [] then start_call deps e c run opts False d p
         else if workflow_in_flight p wid run then
           (reject_call e c (rejected_record run opts (e_now e) ''workflow already executing in this runtime''
              (''Workflow '' @ wid @ '' is already executing in this runtime'' @ em_dash @ ''duplicate execution rejected.'')
              ''workflow already executing in this runtime'') d, p)
         else
           (case acquire kill (e_leaseFaults e) (pr_mgr p) (e_now e) (e_leaseId e) LT_workflow wid (eo_workspaceId opts)
                   None None (sd_leases d) of
              (None, tbl) \<Rightarrow>
                (reject_call e c (rejected_record run opts (e_now e) ''workflow lease held by another owner''
                   (''Workflow '' @ wid @ '' is already being executed by another owner'' @ em_dash @
                    ''duplicate execution rejected by lease.'')
                   ''workflow lease held by another live owner'') (d\<lparr>sd_leases := tbl\<rparr>), p)
            | (Some lease, tbl) \<Rightarrow> start_call deps e c run opts True (d\<lparr>sd_leases := tbl\<rparr>) p))"

section \<open>What a waiting call goes on with\<close>

datatype svc_answer =
    Ans_budget budget_answer
  | Ans_approval approve_answer
  | Ans_trust trust_answer
  | Ans_action action_result
  | Ans_decision hook_answer
  | Ans_wake

text \<open>An answer nobody waits for changes nothing (\<open>None\<close>).\<close>

fun continue_flow :: "call_ctx \<Rightarrow> wait_point \<Rightarrow> svc_answer \<Rightarrow> local \<Rightarrow> flow option" where
  "continue_flow k PC_budget (Ans_budget a) l = Some (and_then (policy_budget k a l) (after_policy k))"
| "continue_flow k (PC_approval q) (Ans_approval a) l = Some (and_then (policy_answer k q a l) (after_policy k))"
| "continue_flow k PC_trust (Ans_trust a) l = Some (and_then (trust_gate k a l) (dispatch k))"
| "continue_flow k (PC_action n t) (Ans_action a) l =
     (if a = RR_cancelled \<and>
         \<not> (case map_of (pr_flags (k_proc k)) (run_of l) of None \<Rightarrow> False | Some f \<Rightarrow> cf_cancelled f)
      then None else Some (action_settled k n t a l))"
| "continue_flow k (PC_decision n timed e i t r) (Ans_decision a) l = Some (retry_decided k n timed e i t r a l)"
| "continue_flow k (PC_backoff n e) Ans_wake l = Some (loop_from k n (Some e) l)"
| "continue_flow k pc a l = None"

definition answer_call ::
  "svc_deps \<Rightarrow> svc_env \<Rightarrow> nat \<Rightarrow> svc_answer \<Rightarrow> service_db \<Rightarrow> process \<Rightarrow> service_db \<times> process" where
  "answer_call deps e c a d p =
     (case pr_frames p c of
        None \<Rightarrow> (d, p)
      | Some fr \<Rightarrow>
          (let k = \<lparr>k_deps = deps, k_env = e, k_proc = p, k_call = c, k_opts = fr_opts fr\<rparr> in
           case continue_flow k (fr_pc fr) a \<lparr>l_db = d, l_rec = fr_rec fr, l_key = fr_key fr\<rparr> of
             None \<Rightarrow> (d, p)
           | Some f \<Rightarrow> settle_flow k (fr_lease fr) f))"

section \<open>Callbacks of a running action\<close>

datatype run_callback =
    RC_evidence string string
  | RC_artifact string string
  | RC_usage int int "rat option" "string option" "string option" "rat option"

definition record_usage :: "run_callback \<Rightarrow> ExecutionRecord \<Rightarrow> ExecutionRecord" where
  "record_usage cb r =
     (case cb of
        RC_usage inT outT usd prov model est \<Rightarrow>
          r\<lparr>x_cost := Some \<lparr>ec_estimatedUsd = est, ec_actualUsd = usd, ec_inTokens = inT, ec_outTokens = outT,
             ec_providerId = prov, ec_model = model,
             ec_state = (if usd \<noteq> None then CS_charged else CS_estimated_only)\<rparr>\<rparr>
      | _ \<Rightarrow> r)"

definition already_charged :: "ExecutionRecord \<Rightarrow> bool" where
  "already_charged r \<longleftrightarrow> (case x_cost r of None \<Rightarrow> False | Some c \<Rightarrow> ec_state c = CS_charged)"

definition callback_record :: "int \<Rightarrow> run_callback \<Rightarrow> ExecutionRecord \<Rightarrow> ExecutionRecord" where
  "callback_record now cb r =
     (case cb of
        RC_evidence kd ref \<Rightarrow>
          if length (x_evidence r) < MAX_EVIDENCE
          then r\<lparr>x_evidence := x_evidence r @ [\<lparr>ev_kind = kd, ev_reference = ref, ev_recordedAt = now\<rparr>]\<rparr> else r
      | RC_artifact kd ref \<Rightarrow>
          if length (x_artifacts r) < MAX_ARTIFACTS
          then r\<lparr>x_artifacts := x_artifacts r @ [\<lparr>ar_kind = kd, ar_ref = ref, ar_recordedAt = now\<rparr>]\<rparr> else r
      | RC_usage inT outT usd prov model est \<Rightarrow> if already_charged r then r else record_usage cb r)"

definition callback_cost :: "exec_options \<Rightarrow> run_callback \<Rightarrow> ExecutionRecord \<Rightarrow> svc_event list" where
  "callback_cost opts cb r =
     (case cb of
        RC_usage inT outT (Some usd) prov model est \<Rightarrow>
          if already_charged r \<or> \<not> eo_recordCost opts then [] else [Ev_cost usd]
      | _ \<Rightarrow> [])"

definition run_callback_op ::
  "svc_env \<Rightarrow> nat \<Rightarrow> run_callback \<Rightarrow> service_db \<Rightarrow> process \<Rightarrow> service_db \<times> process" where
  "run_callback_op e c cb d p =
     (case pr_frames p c of
        None \<Rightarrow> (d, p)
      | Some fr \<Rightarrow>
          (fold (trace_event (Some c)) (callback_cost (fr_opts fr) cb (fr_rec fr)) d,
           p\<lparr>pr_frames := (pr_frames p)(c \<mapsto> fr\<lparr>fr_rec := callback_record (e_now e) cb (fr_rec fr)\<rparr>)\<rparr>))"

section \<open>Cancellation and shutdown\<close>

definition cancel_call :: "svc_env \<Rightarrow> string \<Rightarrow> string \<Rightarrow> service_db \<times> process \<Rightarrow> service_db \<times> process" where
  "cancel_call e run reason s =
     (case s of (d, p) \<Rightarrow>
       let p' = p\<lparr>pr_flags := AList.update run \<lparr>cf_cancelled = True, cf_reason = Some reason\<rparr> (pr_flags p)\<rparr>;
           d1 = (case live_record p run of
                   None \<Rightarrow> d
                 | Some r \<Rightarrow> put_checkpoint e r CP_cancellation_requested
                               (Some (''Cancellation requested: '' @ reason)) (Some [(''reason'', JStr reason)]) d);
           d2 = d1\<lparr>sd_recovery := (sd_recovery d1)\<lparr>db_cancellations :=
                  snd (requestCancellation (e_cancelFails e) (e_now e) (e_cancelId e run) LT_execution run ''user''
                         (Some reason) (db_cancellations (sd_recovery d1)))\<rparr>\<rparr>
       in (d2, p'))"

definition markInterrupted :: "svc_env \<Rightarrow> string \<Rightarrow> service_db \<times> process \<Rightarrow> service_db \<times> process" where
  "markInterrupted e run s =
     (case s of (d, p) \<Rightarrow>
       let d1 = (case live_record p run of
                   None \<Rightarrow> d
                 | Some r \<Rightarrow> put_checkpoint e r CP_recovery_decided
                               (Some (''Runtime shutdown'' @ em_dash @ ''execution interrupted'')) None d)
       in (d1\<lparr>sd_records := markInterrupted_rows (e_markFails e) run (sd_records d1)\<rparr>, p))"

definition onStop :: "svc_env \<Rightarrow> service_db \<times> process \<Rightarrow> service_db \<times> process" where
  "onStop e s =
     fold (\<lambda>run s. cancel_call e run ''runtime_shutdown'' (markInterrupted e run s))
       (map fst (pr_live (snd s))) s"

definition persist_call :: "svc_env \<Rightarrow> string \<Rightarrow> service_db \<times> process \<Rightarrow> service_db \<times> process" where
  "persist_call e run s =
     (case s of (d, p) \<Rightarrow>
       (case live_record p run of None \<Rightarrow> d | Some r \<Rightarrow> try_save e At_persist r d, p))"

end
