(* ===== verification/Exec_Flow.thy ===== *)
theory Exec_Flow
  imports Exec_Calls
begin

text \<open>
  What one function of the execution service does to a call. The primitives are described by
  their projections, a permitted transition by its target; then each continuation is run
  symbolically from the state its wait point guarantees: where it waits again, that wait point's
  condition holds (\<open>wait_ok\<close>), where it returns, the record is terminal, and every action it
  starts was admitted (\<open>good_trace\<close>).
\<close>

named_theorems prim "projections of the primitives"

fun flow_local :: "flow \<Rightarrow> local" where
  "flow_local (Go l) = l"
| "flow_local (Raise e l) = l"
| "flow_local (Finish l) = l"
| "flow_local (Wait pc l) = l"

section \<open>Projections\<close>

lemma on_rec_proj [prim]:
  "l_db (on_rec f l) = l_db l" "l_key (on_rec f l) = l_key l" "l_rec (on_rec f l) = f (l_rec l)"
  by (simp_all add: on_rec_def)

lemma on_db_proj [prim]:
  "l_db (on_db f l) = f (l_db l)" "l_key (on_db f l) = l_key l" "l_rec (on_db f l) = l_rec l"
  by (simp_all add: on_db_def)

lemma trace_event_proj [prim]:
  "sd_trace (trace_event c ev d) = sd_trace d @ [(c, ev)]"
  "sd_slots (trace_event c ev d) = sd_slots d"
  "sd_leases (trace_event c ev d) = sd_leases d"
  "sd_calls (trace_event c ev d) = sd_calls d"
  "sd_records (trace_event c ev d) = sd_records d"
  "sd_recovery (trace_event c ev d) = sd_recovery d"
  by (simp_all add: trace_event_def)

lemma log_event_proj [prim]:
  "l_db (log_event k ev l) = trace_event (Some (k_call k)) ev (l_db l)"
  "l_key (log_event k ev l) = l_key l" "l_rec (log_event k ev l) = l_rec l"
  by (simp_all add: log_event_def prim)

lemma audit_proj [prim]:
  "l_db (audit k n l) = trace_event (Some (k_call k)) (Ev_audit n) (l_db l)"
  "l_key (audit k n l) = l_key l" "l_rec (audit k n l) = l_rec l"
  by (simp_all add: audit_def prim)

lemma push_policy_proj [prim]:
  "l_db (push_policy p l) = l_db l" "l_key (push_policy p l) = l_key l"
  "l_rec (push_policy p l) = (l_rec l)\<lparr>x_policy := x_policy (l_rec l) @ [p]\<rparr>"
  by (simp_all add: push_policy_def prim)

lemma set_outcome_proj [prim]:
  "l_db (set_outcome c l) = l_db l" "l_key (set_outcome c l) = l_key l"
  "l_rec (set_outcome c l) = (l_rec l)\<lparr>x_outcome := Some c\<rparr>"
  by (simp_all add: set_outcome_def prim)

lemma put_checkpoint_proj [prim]:
  "sd_trace (put_checkpoint e r kd p x d) = sd_trace d"
  "sd_slots (put_checkpoint e r kd p x d) = sd_slots d"
  "sd_leases (put_checkpoint e r kd p x d) = sd_leases d"
  "sd_calls (put_checkpoint e r kd p x d) = sd_calls d"
  "sd_records (put_checkpoint e r kd p x d) = sd_records d"
  by (simp_all add: put_checkpoint_def)

lemma checkpoint_proj [prim]:
  "l_key (checkpoint k kd p l) = l_key l" "l_rec (checkpoint k kd p l) = l_rec l"
  "sd_trace (l_db (checkpoint k kd p l)) = sd_trace (l_db l)"
  "sd_slots (l_db (checkpoint k kd p l)) = sd_slots (l_db l)"
  "sd_leases (l_db (checkpoint k kd p l)) = sd_leases (l_db l)"
  "sd_calls (l_db (checkpoint k kd p l)) = sd_calls (l_db l)"
  "sd_records (l_db (checkpoint k kd p l)) = sd_records (l_db l)"
  by (simp_all add: checkpoint_def prim)

lemma try_save_proj [prim]:
  "sd_trace (try_save e site r d) = sd_trace d"
  "sd_slots (try_save e site r d) = sd_slots d"
  "sd_leases (try_save e site r d) = sd_leases d"
  "sd_calls (try_save e site r d) = sd_calls d"
  "sd_recovery (try_save e site r d) = sd_recovery d"
  by (simp_all add: try_save_def split: option.split)

lemma persist_proj [prim]:
  "l_key (persist k site l) = l_key l" "l_rec (persist k site l) = l_rec l"
  "sd_trace (l_db (persist k site l)) = sd_trace (l_db l)"
  "sd_slots (l_db (persist k site l)) = sd_slots (l_db l)"
  "sd_leases (l_db (persist k site l)) = sd_leases (l_db l)"
  "sd_calls (l_db (persist k site l)) = sd_calls (l_db l)"
  by (simp_all add: persist_def prim split: option.split)

lemma set_action_proj [prim]:
  "l_db (set_action k pl l) = l_db l" "l_key (set_action k pl l) = l_key l"
  "l_rec (set_action k pl l) = (l_rec l)\<lparr>x_action := Some (buildAction (k_opts k) (l_rec l) pl)\<rparr>"
  by (simp_all add: set_action_def prim)

lemma set_slots_proj [prim]:
  "l_rec (set_slots t l) = l_rec l" "l_key (set_slots t l) = l_key l"
  "sd_slots (l_db (set_slots t l)) = t"
  "sd_trace (l_db (set_slots t l)) = sd_trace (l_db l)"
  "sd_leases (l_db (set_slots t l)) = sd_leases (l_db l)"
  "sd_calls (l_db (set_slots t l)) = sd_calls (l_db l)"
  by (simp_all add: set_slots_def prim)

lemma policy_default_proj [prim]:
  "l_db (policy_default k l) = l_db l" "l_key (policy_default k l) = l_key l"
  "x_state (l_rec (policy_default k l)) = x_state (l_rec l)"
  "x_outcome (l_rec (policy_default k l)) = x_outcome (l_rec l)"
  "x_id (l_rec (policy_default k l)) = x_id (l_rec l)"
  by (simp_all add: policy_default_def prim)

lemma outcome_of_proj [prim]:
  "l_db (cancelled_outcome k reason e l) = l_db l" "l_key (cancelled_outcome k reason e l) = l_key l"
  "x_state (l_rec (cancelled_outcome k reason e l)) = x_state (l_rec l)"
  "x_id (l_rec (cancelled_outcome k reason e l)) = x_id (l_rec l)"
  "x_outcome (l_rec (cancelled_outcome k reason e l)) \<noteq> None"
  "l_db (timed_out_outcome k e t l) = l_db l" "l_key (timed_out_outcome k e t l) = l_key l"
  "x_state (l_rec (timed_out_outcome k e t l)) = x_state (l_rec l)"
  "x_id (l_rec (timed_out_outcome k e t l)) = x_id (l_rec l)"
  "x_outcome (l_rec (timed_out_outcome k e t l)) \<noteq> None"
  by (simp_all add: cancelled_outcome_def timed_out_outcome_def Let_def prim)

lemma upgrade_proj [prim]:
  "l_db (upgrade_unknown k e l) = l_db l" "l_key (upgrade_unknown k e l) = l_key l"
  "x_state (l_rec (upgrade_unknown k e l)) = S_reconciliation_required"
  "x_id (l_rec (upgrade_unknown k e l)) = x_id (l_rec l)"
  "x_outcome (l_rec (upgrade_unknown k e l)) = None \<longleftrightarrow> x_outcome (l_rec l) = None"
  by (simp_all add: upgrade_unknown_def prim)

definition moved :: "call_ctx \<Rightarrow> exec_state \<Rightarrow> string \<Rightarrow> local \<Rightarrow> local" where
  "moved k t reason l =
     on_rec (\<lambda>r. r\<lparr>x_state := t,
       x_history := x_history r @ [\<lparr>tr_from = Some (x_state (l_rec l)), tr_to = t, tr_at = k_now k, tr_reason = Some reason\<rparr>],
       x_updatedAt := k_now k\<rparr>) l"

lemma moved_proj [prim]:
  "l_db (moved k t reason l) = l_db l" "l_key (moved k t reason l) = l_key l"
  "x_state (l_rec (moved k t reason l)) = t"
  "x_id (l_rec (moved k t reason l)) = x_id (l_rec l)"
  "x_outcome (l_rec (moved k t reason l)) = x_outcome (l_rec l)"
  "x_policy (l_rec (moved k t reason l)) = x_policy (l_rec l)"
  "x_action (l_rec (moved k t reason l)) = x_action (l_rec l)"
  by (simp_all add: moved_def prim)

lemma applyTransition_eq:
  "applyTransition k ev reason l =
     (case TRANSITIONS (x_state (l_rec l)) ev of
        None \<Rightarrow> Raise (transition_error (InvalidExecutionTransitionError (run_of l) (Some (x_state (l_rec l)))
                  (ToEvent ev) (Some reason))) l
      | Some t \<Rightarrow> Go (moved k t reason l))"
  by (simp add: applyTransition_def transition_def moved_def on_rec_def split: option.split)

lemma apply_go:
  "TRANSITIONS (x_state (l_rec l)) ev = Some t \<Longrightarrow> applyTransition k ev reason l = Go (moved k t reason l)"
  by (simp add: applyTransition_eq)

section \<open>Settling\<close>

definition settle_events :: "call_ctx \<Rightarrow> local \<Rightarrow> svc_event list" where
  "settle_events k l =
     (case l_key l of
        None \<Rightarrow> []
      | Some key \<Rightarrow>
          if key = [] \<or> \<not> dp_idempotency (k_deps k) \<or> e_settleFails (k_env k) then []
          else [Ev_settled key (settle_state (l_rec l))])"

lemma settle_proj [prim]:
  "l_rec (settleIdempotencySlot k l) = l_rec l" "l_key (settleIdempotencySlot k l) = l_key l"
  "sd_leases (l_db (settleIdempotencySlot k l)) = sd_leases (l_db l)"
  "sd_calls (l_db (settleIdempotencySlot k l)) = sd_calls (l_db l)"
  "sd_records (l_db (settleIdempotencySlot k l)) = sd_records (l_db l)"
  "sd_trace (l_db (settleIdempotencySlot k l)) =
     sd_trace (l_db l) @ map (\<lambda>ev. (Some (k_call k), ev)) (settle_events k l)"
  by (simp_all add: settleIdempotencySlot_def settle_events_def Let_def prim split: option.split)

section \<open>Admission\<close>

definition policy_admitted :: "(nat option \<times> svc_event) set \<Rightarrow> nat \<Rightarrow> exec_options \<Rightarrow> bool" where
  "policy_admitted tr c opts \<longleftrightarrow>
     (eo_checkBudget opts \<longrightarrow> (Some c, Ev_budget_ok) \<in> tr) \<and>
     (capabilityRequiresApproval (eo_capability opts) \<longrightarrow> (\<exists>q. (Some c, Ev_granted q) \<in> tr))"

definition admitted :: "svc_deps \<Rightarrow> (nat option \<times> svc_event) set \<Rightarrow> nat \<Rightarrow> exec_options \<Rightarrow> bool" where
  "admitted deps tr c opts \<longleftrightarrow>
     policy_admitted tr c opts \<and> (eo_trust opts \<and> dp_trust deps \<longrightarrow> (Some c, Ev_trusted) \<in> tr)"

text \<open>Every action of the trace was admitted by the events before it.\<close>

definition good_trace :: "svc_deps \<Rightarrow> (nat option \<times> svc_event) list \<Rightarrow> bool" where
  "good_trace deps tr \<longleftrightarrow>
     (\<forall>pre c opts n post. tr = pre @ (Some c, Ev_action opts n) # post \<longrightarrow> admitted deps (set pre) c opts)"

fun is_action :: "svc_event \<Rightarrow> bool" where
  "is_action (Ev_action opts n) = True"
| "is_action _ = False"

lemma good_trace_snoc:
  assumes "good_trace deps tr"
    and "\<And>c opts n. x = (Some c, Ev_action opts n) \<Longrightarrow> admitted deps (set tr) c opts"
  shows "good_trace deps (tr @ [x])"
  unfolding good_trace_def
proof (intro allI impI)
  fix pre c opts n post
  assume eq: "tr @ [x] = pre @ (Some c, Ev_action opts n) # post"
  show "admitted deps (set pre) c opts"
  proof (cases post rule: rev_cases)
    case Nil
    then show ?thesis using eq assms(2) by simp
  next
    case (snoc ys y)
    then have "tr = pre @ (Some c, Ev_action opts n) # ys" using eq by simp
    then show ?thesis using assms(1) by (auto simp: good_trace_def)
  qed
qed

lemma good_trace_quiet:
  "good_trace deps tr \<Longrightarrow> \<not> is_action (snd x) \<Longrightarrow> good_trace deps (tr @ [x])"
  by (rule good_trace_snoc) auto

lemma good_trace_quiets:
  "good_trace deps tr \<Longrightarrow> \<forall>x \<in> set xs. \<not> is_action (snd x) \<Longrightarrow> good_trace deps (tr @ xs)"
proof (induction xs arbitrary: tr)
  case (Cons x xs)
  have "good_trace deps ((tr @ [x]) @ xs)"
    by (rule Cons.IH) (use Cons.prems in \<open>auto intro: good_trace_quiet\<close>)
  then show ?case by simp
qed simp

lemma policy_admitted_mono: "policy_admitted tr c opts \<Longrightarrow> tr \<subseteq> tr' \<Longrightarrow> policy_admitted tr' c opts"
  by (auto simp: policy_admitted_def)

lemma admitted_mono: "admitted deps tr c opts \<Longrightarrow> tr \<subseteq> tr' \<Longrightarrow> admitted deps tr' c opts"
  using policy_admitted_mono[of tr c opts tr'] by (auto simp: admitted_def)

lemma settle_events_quiet: "\<forall>ev \<in> set (settle_events k l). \<not> is_action ev"
  by (auto simp: settle_events_def split: option.splits if_splits)

section \<open>Wait points\<close>

definition wait_ok ::
  "svc_deps \<Rightarrow> (nat option \<times> svc_event) set \<Rightarrow> nat \<Rightarrow> exec_options \<Rightarrow> wait_point \<Rightarrow> ExecutionRecord \<Rightarrow> bool" where
  "wait_ok deps tr c opts pc r =
     (case pc of
        PC_budget \<Rightarrow> x_state r = S_awaiting_policy \<and> x_outcome r = None
      | PC_approval q \<Rightarrow> x_state r = S_awaiting_approval \<and> x_outcome r = None \<and>
          (eo_checkBudget opts \<longrightarrow> (Some c, Ev_budget_ok) \<in> tr)
      | PC_trust \<Rightarrow> x_state r \<in> {S_awaiting_policy, S_authorized} \<and> x_outcome r = None \<and>
          policy_admitted tr c opts
      | PC_action n t \<Rightarrow> x_state r = S_running \<and> x_outcome r = None \<and> admitted deps tr c opts \<and>
          1 \<le> n \<and> n \<le> max_attempts opts
      | PC_decision n timed e inp t rnd \<Rightarrow> x_state r = (if timed then S_timed_out else S_failed) \<and>
          x_outcome r \<noteq> None \<and> admitted deps tr c opts \<and> 1 \<le> n \<and> sideEffectUnknown inp \<and>
          di_idempotency inp = eo_idempotency opts \<and> di_attempt inp = n \<and>
          maxAttempts (di_budget inp) = Some (max_attempts opts) \<and> settle_state r \<noteq> Slot_completed
      | PC_backoff n e \<Rightarrow> x_state r = S_queued \<and> x_outcome r = None \<and> admitted deps tr c opts \<and>
          2 \<le> n \<and> n \<le> max_attempts opts \<and> eo_idempotency opts \<in> {Naturally_idempotent, Idempotent_with_key})"

text \<open>\<open>calm\<close> says that nothing outside threw.\<close>

definition l_trace :: "local \<Rightarrow> (nat option \<times> svc_event) list" where
  "l_trace l = sd_trace (l_db l)"

fun flow_good :: "bool \<Rightarrow> call_ctx \<Rightarrow> flow \<Rightarrow> bool" where
  "flow_good calm k (Go l) = False"
| "flow_good calm k (Raise e l) \<longleftrightarrow>
     good_trace (k_deps k) (l_trace l) \<and> (calm \<longrightarrow> isTerminal (x_state (l_rec l))) \<and>
     settle_state (l_rec l) \<noteq> Slot_completed"
| "flow_good calm k (Finish l) \<longleftrightarrow>
     good_trace (k_deps k) (l_trace l) \<and> isTerminal (x_state (l_rec l)) \<and> x_outcome (l_rec l) \<noteq> None"
| "flow_good calm k (Wait pc l) \<longleftrightarrow>
     good_trace (k_deps k) (l_trace l) \<and>
     wait_ok (k_deps k) (set (l_trace l)) (k_call k) (k_opts k) pc (l_rec l)"

lemma l_trace_proj [prim]:
  "l_trace (on_rec f l) = l_trace l"
  "l_trace (log_event k ev l) = l_trace l @ [(Some (k_call k), ev)]"
  "l_trace (audit k n l) = l_trace l @ [(Some (k_call k), Ev_audit n)]"
  "l_trace (push_policy p l) = l_trace l" "l_trace (set_outcome c l) = l_trace l"
  "l_trace (checkpoint k kd p' l) = l_trace l" "l_trace (persist k site l) = l_trace l"
  "l_trace (set_action k pl l) = l_trace l" "l_trace (set_slots t l) = l_trace l"
  "l_trace (policy_default k l) = l_trace l" "l_trace (cancelled_outcome k reason e l) = l_trace l"
  "l_trace (timed_out_outcome k e st l) = l_trace l" "l_trace (upgrade_unknown k e l) = l_trace l"
  "l_trace (moved k s why l) = l_trace l"
  "l_trace (l\<lparr>l_key := x\<rparr>) = l_trace l"
  "l_trace (settleIdempotencySlot k l) = l_trace l @ map (\<lambda>ev. (Some (k_call k), ev)) (settle_events k l)"
  by (simp_all add: l_trace_def prim)

text \<open>The slot state a record asks for depends on its outcome.\<close>

lemma settle_state_same: "x_outcome r = x_outcome r' \<Longrightarrow> settle_state r = settle_state r'"
  by (simp add: settle_state_def effect_unknown_def Let_def)

lemma settle_state_None [simp]: "x_outcome r = None \<Longrightarrow> settle_state r = Slot_failed"
  by (simp add: settle_state_def effect_unknown_def)

lemma settle_state_moved [simp]: "settle_state (l_rec (moved k t why l)) = settle_state (l_rec l)"
  by (rule settle_state_same) (simp add: prim)

lemma settle_state_outcomes [simp]:
  "settle_state (l_rec (cancelled_outcome k why e l)) \<noteq> Slot_completed"
  "settle_state (l_rec (timed_out_outcome k e t l)) \<noteq> Slot_completed"
  "settle_state ((l_rec l)\<lparr>x_outcome := Some (plain_outcome k OK_failed m st er)\<rparr>) \<noteq> Slot_completed"
  by (simp_all add: settle_state_def cancelled_outcome_def timed_out_outcome_def plain_outcome_def Let_def prim)

lemma good_settled:
  "good_trace deps tr \<Longrightarrow> good_trace deps (tr @ map (\<lambda>ev. (c, ev)) (settle_events k l))"
  by (rule good_trace_quiets) (use settle_events_quiet in auto)

lemma good_audited [intro, simp]: "good_trace deps tr \<Longrightarrow> good_trace deps (tr @ [(c, Ev_audit n)])"
  by (rule good_trace_quiet) auto

lemma after_loop_good:
  assumes "x_outcome (l_rec l) \<noteq> None" and "isTerminal (x_state (l_rec l))" and "good_trace (k_deps k) (l_trace l)"
  shows "flow_good calm k (after_loop k e l)"
  using assms by (cases "x_outcome (l_rec l)") (simp_all add: after_loop_def prim good_settled)

lemma admitted_more:
  "admitted deps (set tr) c opts \<Longrightarrow> admitted deps (set (tr @ xs)) c opts"
  by (rule admitted_mono) auto

lemma policy_admitted_more:
  "policy_admitted (set tr) c opts \<Longrightarrow> policy_admitted (set (tr @ xs)) c opts"
  by (rule policy_admitted_mono) auto

lemma run_attempt_good:
  assumes st: "x_state (l_rec l) = S_queued" and out: "x_outcome (l_rec l) = None"
    and adm: "admitted (k_deps k) (set (l_trace l)) (k_call k) (k_opts k)"
    and good: "good_trace (k_deps k) (l_trace l)" and n: "1 \<le> n" "n \<le> max_attempts (k_opts k)"
  shows "flow_good calm k (run_attempt k n l)"
proof -
  define l1 where "l1 = on_rec (\<lambda>r. r\<lparr>x_id := (x_id r)\<lparr>attempt := n\<rparr>\<rparr>) l"
  define l2 where "l2 = (if 1 < n then audit k ''execution.retry''
      (on_rec (\<lambda>r. r\<lparr>x_retryCount := Some (nullish (x_retryCount r) 0 + 1)\<rparr>) l1) else l1)"
  obtain xs where tr: "l_trace l2 = l_trace l @ xs" "\<forall>x \<in> set xs. \<not> is_action (snd x)"
    by (cases "1 < n") (auto simp: l2_def l1_def prim)
  have rec: "x_state (l_rec l2) = S_queued" "x_outcome (l_rec l2) = None"
    using st out by (simp_all add: l2_def l1_def prim)
  have adm2: "admitted (k_deps k) (set (l_trace l2)) (k_call k) (k_opts k)"
    unfolding tr(1) by (rule admitted_more[OF adm])
  have good2: "good_trace (k_deps k) (l_trace l2)"
    unfolding tr(1) using good_trace_quiets[OF good tr(2)] .
  have good3: "good_trace (k_deps k) (l_trace l2 @ [(Some (k_call k), Ev_action (k_opts k) n)])"
    by (rule good_trace_snoc[OF good2]) (use adm2 in auto)
  have eq: "run_attempt k n l =
      and_then (applyTransition k E_start (if 1 < n then ''attempt '' @ show_int n else ''execution started'')
             (on_rec (\<lambda>r. r\<lparr>x_startedAt := Some (k_now k)\<rparr>) l2))
           (\<lambda>l. Wait (PC_action n (k_now k))
             (log_event k (Ev_action (k_opts k) n)
               (on_rec (\<lambda>r. r\<lparr>x_timeout := Some \<lparr>tn_deadlineMs = k_now k + timeout_ms (k_opts k), tn_firedAt = None,
                                                tn_stage = TS_before_action\<rparr>\<rparr>)
                 (persist k At_start l))))"
    by (simp only: run_attempt_def Let_def l2_def l1_def)
  have go: "applyTransition k E_start reason (on_rec (\<lambda>r. r\<lparr>x_startedAt := Some (k_now k)\<rparr>) l2) =
      Go (moved k S_running reason (on_rec (\<lambda>r. r\<lparr>x_startedAt := Some (k_now k)\<rparr>) l2))" for reason
    by (rule apply_go) (simp add: prim rec)
  show ?thesis
    using good3 adm2 rec n admitted_more[OF adm2, of "[(Some (k_call k), Ev_action (k_opts k) n)]"]
    unfolding eq by (simp add: go prim wait_ok_def)
qed

lemma max_attempts_pos: "1 \<le> max_attempts opts"
  by (simp add: max_attempts_def)

lemma loop_from_good:
  assumes "x_state (l_rec l) = S_queued" and "x_outcome (l_rec l) = None"
    and "admitted (k_deps k) (set (l_trace l)) (k_call k) (k_opts k)"
    and "good_trace (k_deps k) (l_trace l)" and "1 \<le> n" "n \<le> max_attempts (k_opts k)"
  shows "flow_good calm k (loop_from k n e l)"
  using run_attempt_good[OF assms] assms(6) by (simp add: loop_from_def)

section \<open>The action returns, fails, is retried\<close>

lemma terminal_simps [simp]:
  "isTerminal S_succeeded" "isTerminal S_failed" "isTerminal S_cancelled" "isTerminal S_timed_out"
  "isTerminal S_denied" "isTerminal S_budget_blocked" "isTerminal S_unavailable"
  "isTerminal S_reconciliation_required" "\<not> isTerminal S_awaiting_policy" "\<not> isTerminal S_authorized"
  "\<not> isTerminal S_queued" "\<not> isTerminal S_running" "\<not> isTerminal S_observing"
  "\<not> isTerminal S_awaiting_approval"
  by (simp_all add: isTerminal_def TERMINAL_STATES_def)

lemma action_failed_good:
  assumes st: "x_state (l_rec l) = S_running"
    and adm: "admitted (k_deps k) (set (l_trace l)) (k_call k) (k_opts k)"
    and good: "good_trace (k_deps k) (l_trace l)" and n: "1 \<le> n"
  shows "flow_good calm k (action_failed k n started e l)"
proof -
  have unk: "possible_effect (l_rec l)" using st by (simp add: possible_effect_def)
  have inp: "sideEffectUnknown (retry_input k e True n started)"
    "di_idempotency (retry_input k e True n started) = eo_idempotency (k_opts k)"
    "di_attempt (retry_input k e True n started) = n"
    "maxAttempts (di_budget (retry_input k e True n started)) = Some (max_attempts (k_opts k))"
    by (simp_all add: retry_input_def)
  have fin: "flow_good calm k (after_loop k (Some e)
      (checkpoint k CP_cleanup_completed x (moved k S_cancelled ''cancelled'' (cancelled_outcome k why e l))))" for x why
    by (rule after_loop_good) (simp_all add: prim good)
  show ?thesis
    using fin adm good n inp unk
    by (simp add: action_failed_def Let_def apply_go prim st wait_ok_def)
qed

lemma action_returned_ex:
  assumes "x_state (l_rec l) = S_running"
  shows "\<exists>l'. action_returned k obs l = Go l' \<and> isTerminal (x_state (l_rec l')) \<and> x_outcome (l_rec l') \<noteq> None \<and>
    l_trace l' = l_trace l \<and> l_key l' = l_key l \<and> sd_slots (l_db l') = sd_slots (l_db l) \<and>
    sd_leases (l_db l') = sd_leases (l_db l) \<and> sd_calls (l_db l') = sd_calls (l_db l) \<and> x_id (l_rec l') = x_id (l_rec l) \<and>
    (settle_state (l_rec l') = Slot_completed \<longrightarrow> outcome_message (l_rec l') ''ok'' \<noteq> []) \<and>
    (settle_state (l_rec l') = Slot_failed \<longrightarrow> \<not> obs_transportOk obs)"
  using assms
  by (cases "eo_dryRun (k_opts k)"; cases "obs_transportOk obs")
    (simp_all add: action_returned_def Let_def apply_go prim settle_state_def outcome_message_def plain_outcome_def
      text_or_def effect_unknown_def error_of_def)

lemma action_settled_good:
  assumes "x_state (l_rec l) = S_running"
    and "admitted (k_deps k) (set (l_trace l)) (k_call k) (k_opts k)"
    and "good_trace (k_deps k) (l_trace l)" and "1 \<le> n"
  shows "flow_good calm k (action_settled k n started res l)"
proof (cases res)
  case (RR_returns obs)
  obtain l' where "action_returned k obs l = Go l'" "isTerminal (x_state (l_rec l'))" "x_outcome (l_rec l') \<noteq> None"
    "l_trace l' = l_trace l"
    using action_returned_ex[OF assms(1), of k obs] by blast
  then show ?thesis
    using after_loop_good[of l' k] assms(3) RR_returns by (simp add: action_settled_def guard_error_def)
qed (use action_failed_good[OF assms] in \<open>simp_all add: action_settled_def guard_error_def\<close>)

text \<open>A retry is granted to idempotent operations only: the effect is always unknown here.\<close>

lemma decide_retry_safe:
  assumes "verdict (decideRetry (asked_input opts ans inp) t r) = Retry" and "sideEffectUnknown inp"
  shows "di_idempotency inp \<in> {Naturally_idempotent, Idempotent_with_key}"
    and "maxAttempts (di_budget inp) = Some m \<Longrightarrow> di_attempt inp < m"
  using assms
  by (auto simp: decideRetry_def asked_input_def unsafe_side_effect_def withinRetryBudget_def Let_def
      split: if_splits)

lemma retry_decided_good:
  assumes st: "x_state (l_rec l) = (if timed then S_timed_out else S_failed)" and out: "x_outcome (l_rec l) \<noteq> None"
    and adm: "admitted (k_deps k) (set (l_trace l)) (k_call k) (k_opts k)"
    and good: "good_trace (k_deps k) (l_trace l)" and n: "1 \<le> n"
    and inp: "sideEffectUnknown inp" "di_idempotency inp = eo_idempotency (k_opts k)" "di_attempt inp = n"
      "maxAttempts (di_budget inp) = Some (max_attempts (k_opts k))"
    and unset: "settle_state (l_rec l) \<noteq> Slot_completed"
  shows "flow_good calm k (retry_decided k n timed e inp now r ans l)"
proof -
  define l1 where "l1 = (if timed then l else audit k ''execution.retry_decision'' l)"
  define l2 where "l2 = (if timed then audit k ''execution.retry'' l1 else l1)"
  let ?d = "decideRetry (asked_input (k_opts k) ans inp) now r"
  have l1: "l_rec l1 = l_rec l" "good_trace (k_deps k) (l_trace l1)"
    using good by (simp_all add: l1_def prim)
  have l2: "l_rec l2 = l_rec l" "good_trace (k_deps k) (l_trace l2)" "set (l_trace l) \<subseteq> set (l_trace l2)"
    using l1 by (auto simp: l2_def l1_def prim)
  have adm2: "admitted (k_deps k) (set (l_trace l2)) (k_call k) (k_opts k)"
    by (rule admitted_mono[OF adm l2(3)])
  have fin: "isTerminal (x_state (l_rec l))" using st by (simp split: if_splits)
  have again: "flow_good calm k (and_then (resetForRetry k l2) (Wait (PC_backoff (n + 1) e)))"
    if "verdict ?d = Retry"
    using decide_retry_safe[OF that inp(1)] inp st l2 adm2 n
    by (auto simp: resetForRetry_def apply_go prim wait_ok_def split: if_splits)
  have up: "flow_good calm k (after_loop k (Some e) (upgrade_unknown k e l1))"
    by (rule after_loop_good) (use out l1 in \<open>simp_all add: prim\<close>)
  have stop: "flow_good calm k (after_loop k (Some e) l1)"
    by (rule after_loop_good) (use out l1 fin in simp_all)
  show ?thesis
    using again up stop good fin unset
    unfolding retry_decided_def Let_def l1_def[symmetric] l2_def[symmetric]
    by (auto split: option.split)
qed

section \<open>Dispatch, policy, entry\<close>

definition calm_env :: "svc_env \<Rightarrow> bool" where
  "calm_env e \<longleftrightarrow> e_findFails e = None \<and> e_claimFails e = None \<and> e_reconcileFails e = None"

text \<open>A call that is queued, admitted and has no outcome.\<close>

definition ready :: "call_ctx \<Rightarrow> local \<Rightarrow> bool" where
  "ready k l \<longleftrightarrow> x_state (l_rec l) = S_queued \<and> x_outcome (l_rec l) = None \<and>
     admitted (k_deps k) (set (l_trace l)) (k_call k) (k_opts k) \<and> good_trace (k_deps k) (l_trace l)"

lemma ready_loop: "ready k l \<Longrightarrow> flow_good calm k (loop_from k 1 None l)"
  by (rule loop_from_good) (simp_all add: ready_def max_attempts_pos)

lemma refuse_good: "ready k l \<Longrightarrow> flow_good calm k (refuse_reconcile k msg short l)"
  by (simp add: ready_def refuse_reconcile_def apply_go prim)

lemma replay_slot_good: "ready k l \<Longrightarrow> flow_good calm k (replay_slot k res l)"
  by (simp add: ready_def replay_slot_def apply_go prim)

lemma replay_prior_good: "ready k l \<Longrightarrow> flow_good calm k (replay_prior k prior l)"
  by (simp add: ready_def replay_prior_def Let_def apply_go prim)

lemma claimed_good:
  assumes "ready k l" and "calm \<longrightarrow> calm_env (k_env k)"
  shows "flow_good calm k (claimed k key res l)"
proof -
  have "ready k (set_slots t l)" for t using assms(1) by (simp add: ready_def prim)
  moreover have "ready k (l\<lparr>l_key := x\<rparr>)" for x using assms(1) by (simp add: ready_def prim)
  ultimately show ?thesis
    using assms refuse_good replay_slot_good ready_loop
    by (auto simp: claimed_def calm_env_def ready_def prim split: option.split)
qed

lemma claim_slot_good:
  assumes "ready k l" and "calm \<longrightarrow> calm_env (k_env k)"
  shows "flow_good calm k (claim_slot k key l)"
proof -
  have "ready k (set_slots t l)" for t using assms(1) by (simp add: ready_def prim)
  then show ?thesis
    using assms claimed_good
    by (auto simp: claim_slot_def calm_env_def ready_def split: option.split prod.split)
qed

lemma idempotency_gate_good:
  assumes "ready k l" and "calm \<longrightarrow> calm_env (k_env k)"
  shows "flow_good calm k (idempotency_gate k l)"
  using assms claim_slot_good[OF assms] ready_loop[OF assms(1)] replay_prior_good[OF assms(1)]
  by (auto simp: idempotency_gate_def Let_def calm_env_def ready_def split: option.split)

lemma dispatch_good:
  assumes "x_state (l_rec l) \<in> {S_awaiting_policy, S_authorized}" and "x_outcome (l_rec l) = None"
    and "admitted (k_deps k) (set (l_trace l)) (k_call k) (k_opts k)"
    and "good_trace (k_deps k) (l_trace l)" and "calm \<longrightarrow> calm_env (k_env k)"
  shows "flow_good calm k (dispatch k l)"
proof -
  define l1 where "l1 = set_action k (nullish (eo_placement (k_opts k)) (EP_in_process None)) l"
  have l1: "x_state (l_rec l1) = x_state (l_rec l)" "x_outcome (l_rec l1) = None" "l_trace l1 = l_trace l"
    using assms by (simp_all add: l1_def prim)
  define l2 where "l2 = (if x_state (l_rec l1) \<noteq> S_authorized then moved k S_authorized ''policy satisfied'' l1 else l1)"
  have l2: "x_state (l_rec l2) = S_authorized" "x_outcome (l_rec l2) = None" "l_trace l2 = l_trace l"
    using assms(1) l1 by (simp_all add: l2_def prim)
  have eq: "(if x_state (l_rec l1) \<noteq> S_authorized then applyTransition k E_authorize ''policy satisfied'' l1 else Go l1) = Go l2"
    using assms(1) l1 by (auto simp: l2_def apply_go)
  have "ready k (checkpoint k CP_step_started x (persist k At_queue (moved k S_queued ''ready for execution'' l2)))" for x
    using assms l2 by (simp add: ready_def prim)
  then show ?thesis
    unfolding dispatch_def Let_def l1_def[symmetric] eq
    by (simp add: apply_go l2 idempotency_gate_good assms(5))
qed

text \<open>The policy phase ends with a terminal record that has its outcome, or admitted.\<close>

definition policy_done :: "call_ctx \<Rightarrow> local \<Rightarrow> bool" where
  "policy_done k l \<longleftrightarrow> good_trace (k_deps k) (l_trace l) \<and>
     (isTerminal (x_state (l_rec l)) \<and> x_outcome (l_rec l) \<noteq> None \<or>
      x_state (l_rec l) \<in> {S_awaiting_policy, S_authorized} \<and> x_outcome (l_rec l) = None \<and>
      policy_admitted (set (l_trace l)) (k_call k) (k_opts k))"

lemma after_policy_good:
  assumes "policy_done k l" and "calm \<longrightarrow> calm_env (k_env k)"
  shows "flow_good calm k (after_policy k l)"
proof (cases "isTerminal (x_state (l_rec l))")
  case True
  then show ?thesis using assms(1) by (auto simp: after_policy_def policy_done_def)
next
  case False
  define l1 where "l1 = checkpoint k CP_policy_admitted None l"
  have l1: "x_state (l_rec l1) \<in> {S_awaiting_policy, S_authorized}" "x_outcome (l_rec l1) = None"
    "policy_admitted (set (l_trace l1)) (k_call k) (k_opts k)" "good_trace (k_deps k) (l_trace l1)"
    using assms(1) False by (auto simp: policy_done_def l1_def prim)
  have "flow_good calm k (dispatch k l1)" if "\<not> (eo_trust (k_opts k) \<and> dp_trust (k_deps k))"
    by (rule dispatch_good) (use l1 that assms(2) in \<open>auto simp: admitted_def\<close>)
  then show ?thesis
    using False l1 by (simp add: after_policy_def l1_def[symmetric] Let_def wait_ok_def)
qed

text \<open>A policy flow that waits does so in order, one that goes on has finished the phase.\<close>

fun policy_flow :: "bool \<Rightarrow> call_ctx \<Rightarrow> flow \<Rightarrow> bool" where
  "policy_flow calm k (Go l) = policy_done k l"
| "policy_flow calm k f = flow_good calm k f"

lemma policy_then:
  "policy_flow calm k f \<Longrightarrow> calm \<longrightarrow> calm_env (k_env k) \<Longrightarrow> flow_good calm k (and_then f (after_policy k))"
  by (cases f) (auto intro: after_policy_good)

lemma policy_approval_flow:
  assumes "x_state (l_rec l) = S_awaiting_policy" and "x_outcome (l_rec l) = None"
    and "good_trace (k_deps k) (l_trace l)"
    and "eo_checkBudget (k_opts k) \<longrightarrow> (Some (k_call k), Ev_budget_ok) \<in> set (l_trace l)"
  shows "policy_flow calm k (policy_approval k l)"
  using assms
  by (simp add: policy_approval_def Let_def apply_go prim policy_done_def policy_admitted_def wait_ok_def)

lemma policy_start_flow:
  assumes "x_state (l_rec l) \<in> {S_created, S_planned}" and "x_outcome (l_rec l) = None"
    and "good_trace (k_deps k) (l_trace l)"
  shows "policy_flow calm k (policy_start k l)"
proof -
  have go: "applyTransition k E_submit_policy ''policy evaluation started'' l =
      Go (moved k S_awaiting_policy ''policy evaluation started'' l)"
    using assms(1) by (auto simp: apply_go)
  show ?thesis
    using assms policy_approval_flow[of "moved k S_awaiting_policy ''policy evaluation started'' l" k calm]
    by (auto simp: policy_start_def go prim wait_ok_def)
qed

lemma policy_budget_flow:
  assumes st: "x_state (l_rec l) = S_awaiting_policy" and out: "x_outcome (l_rec l) = None"
    and good: "good_trace (k_deps k) (l_trace l)"
  shows "policy_flow calm k (policy_budget k a l)"
proof (cases a)
  case (BA_throws e)
  then show ?thesis using st good by (simp add: policy_budget_def apply_go prim policy_done_def)
next
  case (BA_decision allow reason warning meter)
  show ?thesis
  proof (cases allow)
    case False
    then show ?thesis using BA_decision st good by (simp add: policy_budget_def apply_go prim policy_done_def Let_def)
  next
    case True
    define l1 where "l1 = log_event k Ev_budget_ok
      (if truthy_str warning then push_policy (PD_allowed warning (k_now k)) l else l)"
    have "policy_flow calm k (policy_approval k l1)"
      by (rule policy_approval_flow)
        (use st out good in \<open>auto simp: l1_def prim intro: good_trace_quiet\<close>)
    then show ?thesis using True BA_decision by (simp add: policy_budget_def l1_def)
  qed
qed

lemma policy_answer_flow:
  assumes st: "x_state (l_rec l) = S_awaiting_approval" and out: "x_outcome (l_rec l) = None"
    and good: "good_trace (k_deps k) (l_trace l)"
    and bud: "eo_checkBudget (k_opts k) \<longrightarrow> (Some (k_call k), Ev_budget_ok) \<in> set (l_trace l)"
    and calm: "calm \<longrightarrow> (\<forall>e. a \<noteq> AP_throws e)"
  shows "policy_flow calm k (policy_answer k q a l)"
proof (cases a)
  case (AP_throws e)
  then show ?thesis using good calm out by (simp add: policy_answer_def)
next
  case (AP_answer b)
  have "good_trace (k_deps k) (l_trace l @ [(Some (k_call k), Ev_granted q)])"
    by (rule good_trace_quiet[OF good]) simp
  then show ?thesis
    using AP_answer st out good bud
    by (cases b) (auto simp: policy_answer_def apply_go prim policy_done_def policy_admitted_def)
qed

lemma environment_ran_good:
  assumes "x_state (l_rec l) \<in> {S_awaiting_policy, S_authorized}" and "good_trace (k_deps k) (l_trace l)"
  shows "flow_good calm k (environment_ran k t obs l)"
proof -
  define l1 where "l1 = (if x_state (l_rec l) \<noteq> S_authorized then moved k S_authorized ''trust admission'' l else l)"
  have l1: "x_state (l_rec l1) = S_authorized" "l_trace l1 = l_trace l"
    using assms(1) by (auto simp: l1_def prim)
  have eq: "(if x_state (l_rec l) \<noteq> S_authorized then applyTransition k E_authorize ''trust admission'' l else Go l) = Go l1"
    using assms(1) by (auto simp: l1_def apply_go)
  have good: "good_trace (k_deps k) (l_trace l @ [(Some (k_call k), Ev_isolated)])"
    by (rule good_trace_quiet[OF assms(2)]) simp
  show ?thesis
    unfolding environment_ran_def eq
    by (cases "obs_transportOk obs") (simp_all add: environment_finished_def apply_go l1 prim good)
qed

lemma trust_gate_good:
  assumes st: "x_state (l_rec l) \<in> {S_awaiting_policy, S_authorized}" and out: "x_outcome (l_rec l) = None"
    and adm: "policy_admitted (set (l_trace l)) (k_call k) (k_opts k)"
    and good: "good_trace (k_deps k) (l_trace l)"
    and calm: "calm \<longrightarrow> calm_env (k_env k) \<and> (\<forall>e. a \<noteq> TA_throws e)"
  shows "flow_good calm k (and_then (trust_gate k a l) (dispatch k))"
proof (cases a)
  case (TA_throws e)
  then show ?thesis using good calm out by (simp add: trust_gate_def)
next
  case (TA_evaluated t)
  define l1 where "l1 = persist k At_trust (on_rec (\<lambda>r. r\<lparr>x_trust := Some (tg_trust t)\<rparr>) l)"
  have l1: "x_state (l_rec l1) = x_state (l_rec l)" "x_outcome (l_rec l1) = None" "l_trace l1 = l_trace l"
    using out by (simp_all add: l1_def prim)
  show ?thesis
  proof (cases "tg_outcome t")
    case (TG_blocked why)
    have "TRANSITIONS (x_state (l_rec l1)) E_deny = Some S_denied" using st l1 by auto
    then show ?thesis
      using TA_evaluated TG_blocked good
      by (simp add: trust_gate_def Let_def l1_def[symmetric] apply_go prim l1)
  next
    case (TG_ran obs)
    have "flow_good calm k (environment_ran k t obs (checkpoint k CP_env_admitted x l1))" for x
      by (rule environment_ran_good) (use st good l1 in \<open>auto simp: prim\<close>)
    moreover have "and_then (environment_ran k t obs l2) f = environment_ran k t obs l2"
      if "flow_good calm k (environment_ran k t obs l2)" for l2 f
      using that by (cases "environment_ran k t obs l2") auto
    ultimately show ?thesis
      using TA_evaluated TG_ran by (simp add: trust_gate_def Let_def l1_def[symmetric])
  next
    case TG_in_process
    have "flow_good calm k (dispatch k (log_event k Ev_trusted l1))"
      by (rule dispatch_good)
        (use st l1 adm good calm in \<open>auto simp: prim admitted_def intro: good_trace_quiet policy_admitted_mono\<close>)
    then show ?thesis
      using TA_evaluated TG_in_process by (simp add: trust_gate_def Let_def l1_def[symmetric])
  qed
qed

lemma start_body_good:
  assumes "x_state (l_rec l) = S_created" and "x_outcome (l_rec l) = None"
    and "good_trace (k_deps k) (l_trace l)" and "calm \<longrightarrow> calm_env (k_env k)"
  shows "flow_good calm k (start_body k l)"
proof (cases "eo_plan (k_opts k)")
  case None
  then show ?thesis
    using policy_then[OF policy_start_flow] assms by (simp add: start_body_def)
next
  case (Some pl)
  define l1 where "l1 = persist k At_plan (checkpoint k CP_plan_recorded None (moved k S_planned ''plan registered'' l))"
  have "flow_good calm k (and_then (policy_start k l1) (after_policy k))"
    by (rule policy_then[OF policy_start_flow]) (use assms in \<open>auto simp: l1_def prim\<close>)
  then show ?thesis
    using Some assms(1) by (simp add: start_body_def apply_go l1_def)
qed

text \<open>Every answer of the outside, at every wait point.\<close>

definition calm_answer :: "svc_answer \<Rightarrow> bool" where
  "calm_answer a \<longleftrightarrow>
     (case a of Ans_approval (AP_throws e) \<Rightarrow> False | Ans_trust (TA_throws e) \<Rightarrow> False | _ \<Rightarrow> True)"

lemma continue_flow_good:
  assumes "wait_ok (k_deps k) (set (l_trace l)) (k_call k) (k_opts k) pc (l_rec l)"
    and "good_trace (k_deps k) (l_trace l)" and "continue_flow k pc a l = Some f"
    and "calm \<longrightarrow> calm_env (k_env k) \<and> calm_answer a"
  shows "flow_good calm k f"
  using assms
proof (induction k pc a l rule: continue_flow.induct)
  case (1 k a l)
  then show ?case using policy_then[OF policy_budget_flow] by (auto simp: wait_ok_def)
next
  case (2 k q a l)
  have "policy_flow calm k (policy_answer k q a l)"
    by (rule policy_answer_flow) (use 2 in \<open>auto simp: wait_ok_def calm_answer_def\<close>)
  then show ?case using 2 policy_then by auto
next
  case (3 k a l)
  have "flow_good calm k (and_then (trust_gate k a l) (dispatch k))"
    by (rule trust_gate_good) (use 3 in \<open>auto simp: wait_ok_def calm_answer_def\<close>)
  then show ?case using 3 by simp
next
  case (4 k n t a l)
  then show ?case using action_settled_good by (auto simp: wait_ok_def split: if_splits)
next
  case (5 k n timed e i t r a l)
  have "flow_good calm k (retry_decided k n timed e i t r a l)"
    by (rule retry_decided_good) (use 5 in \<open>auto simp: wait_ok_def\<close>)
  then show ?case using 5 by simp
next
  case (6 k n e l)
  have "flow_good calm k (loop_from k n (Some e) l)"
    by (rule loop_from_good) (use 6 in \<open>auto simp: wait_ok_def\<close>)
  then show ?case using 6 by simp
qed (simp_all split: if_splits)

end
