(* ===== verification/Exec_Effects.thy ===== *)
theory Exec_Effects
  imports Exec_Flow
begin

text \<open>
  What the functions of the execution service leave alone, and what they do to the slots. Most of
  them are silent: they keep the identity of the record, the leases, the slots and the claimed
  key, and add neither an action nor a settlement to the trace. The three that are not silent
  (the claim, the start of an attempt, the settlement) are followed for one key: without a
  failed settlement of the key, no second action of a non-idempotent operation under it starts.
\<close>

section \<open>Relations between the ends of a flow\<close>

fun is_settled :: "svc_event \<Rightarrow> bool" where
  "is_settled (Ev_settled key st) = True"
| "is_settled _ = False"

fun is_returned :: "svc_event \<Rightarrow> bool" where
  "is_returned (Ev_returned r) = True"
| "is_returned _ = False"

definition same_identity :: "ExecutionRecord \<Rightarrow> ExecutionRecord \<Rightarrow> bool" where
  "same_identity r r' \<longleftrightarrow> runId (x_id r') = runId (x_id r) \<and> workflowId (x_id r') = workflowId (x_id r)"

definition steady :: "local \<Rightarrow> local \<Rightarrow> bool" where
  "steady l l' \<longleftrightarrow> same_identity (l_rec l) (l_rec l') \<and> sd_leases (l_db l') = sd_leases (l_db l) \<and>
     sd_calls (l_db l') = sd_calls (l_db l) \<and>
     (\<exists>xs. l_trace l' = l_trace l @ xs \<and> (\<forall>x \<in> set xs. \<not> is_returned (snd x)))"

definition silent :: "local \<Rightarrow> local \<Rightarrow> bool" where
  "silent l l' \<longleftrightarrow> same_identity (l_rec l) (l_rec l') \<and> sd_leases (l_db l') = sd_leases (l_db l) \<and>
     sd_calls (l_db l') = sd_calls (l_db l) \<and> sd_slots (l_db l') = sd_slots (l_db l) \<and> l_key l' = l_key l \<and>
     (\<exists>xs. l_trace l' = l_trace l @ xs \<and> (\<forall>x \<in> set xs. \<not> is_action (snd x) \<and> \<not> is_settled (snd x) \<and> \<not> is_returned (snd x)))"

lemma silent_refl [simp, intro]: "silent l l"
  by (simp add: silent_def same_identity_def)

lemma silent_trans: "silent a b \<Longrightarrow> silent b c \<Longrightarrow> silent a c"
  by (auto simp: silent_def same_identity_def)

lemma silent_steady: "silent l l' \<Longrightarrow> steady l l'"
  by (auto simp: silent_def steady_def)

lemma steady_trans: "steady a b \<Longrightarrow> steady b c \<Longrightarrow> steady a c"
  by (auto simp: steady_def same_identity_def)

text \<open>A relation that composes and that silent functions respect.\<close>

locale flow_relation =
  fixes R :: "local \<Rightarrow> local \<Rightarrow> bool"
  assumes R_silent: "silent l l' \<Longrightarrow> R l l'"
    and R_trans: "R a b \<Longrightarrow> R b c \<Longrightarrow> R a c"
begin

lemma R_refl: "R l l"
  by (rule R_silent) simp

lemma R_then:
  assumes "R l (flow_local f)" and "\<And>l1. f = Go l1 \<Longrightarrow> R l1 (flow_local (g l1))"
  shows "R l (flow_local (and_then f g))"
  using assms by (cases f) (auto intro: R_trans)

lemma R_then_silent:
  assumes "silent l (flow_local f)" and "\<And>l1. f = Go l1 \<Longrightarrow> R l1 (flow_local (g l1))"
  shows "R l (flow_local (and_then f g))"
  by (rule R_then) (use assms R_silent in auto)

end

interpretation silent_flow: flow_relation silent
  by unfold_locales (auto intro: silent_trans)

interpretation steady_flow: flow_relation steady
  by unfold_locales (auto intro: silent_steady steady_trans)

section \<open>The silent functions\<close>

text \<open>Each primitive keeps what was silent up to it.\<close>

lemma silent_prims:
  assumes "silent l a"
  shows "silent l (set_outcome c a)" "silent l (push_policy p a)" "silent l (audit k n a)"
    "silent l (checkpoint k kd x a)" "silent l (persist k site a)" "silent l (set_action k pl a)"
    "silent l (policy_default k a)" "silent l (cancelled_outcome k reason e a)"
    "silent l (timed_out_outcome k e t a)" "silent l (upgrade_unknown k e a)"
  using assms by (auto simp: silent_def same_identity_def prim)

lemma silent_log:
  "silent l a \<Longrightarrow> \<not> is_action ev \<Longrightarrow> \<not> is_settled ev \<Longrightarrow> \<not> is_returned ev \<Longrightarrow> silent l (log_event k ev a)"
  by (auto simp: silent_def same_identity_def prim)

lemma silent_on_rec: "silent l a \<Longrightarrow> same_identity (l_rec a) (f (l_rec a)) \<Longrightarrow> silent l (on_rec f a)"
  by (auto simp: silent_def same_identity_def prim)

lemma silent_moved: "silent l a \<Longrightarrow> silent l (moved k t why a)"
  by (auto simp: silent_def same_identity_def prim)

lemmas silent_chain = silent_refl silent_prims silent_log silent_on_rec silent_moved

lemma silent_apply: "silent l a \<Longrightarrow> silent l (flow_local (applyTransition k ev reason a))"
  by (simp add: applyTransition_eq silent_moved split: option.split)

lemma apply_Go: "applyTransition k ev reason a = Go l1 \<Longrightarrow> silent a l1"
  using silent_apply[of a a k ev reason] by simp

lemma silent_apply_then:
  assumes "silent l a" and "\<And>l1. silent l1 (flow_local (g l1))"
  shows "silent l (flow_local (and_then (applyTransition k ev reason a) g))"
proof -
  have "silent a (flow_local (and_then (applyTransition k ev reason a) g))"
    by (rule silent_flow.R_then[OF silent_apply[OF silent_refl]]) (use assms(2) in blast)
  then show ?thesis using assms(1) silent_trans by blast
qed

lemma policy_approval_silent: "silent l a \<Longrightarrow> silent l (flow_local (policy_approval k a))"
  by (auto simp: policy_approval_def Let_def intro!: silent_apply_then silent_chain)

lemma policy_start_silent: "silent l (flow_local (policy_start k l))"
  unfolding policy_start_def by (rule silent_apply_then) (simp_all add: policy_approval_silent)

lemma policy_budget_silent: "silent l (flow_local (policy_budget k a l))"
  by (auto simp: policy_budget_def Let_def intro!: silent_apply_then silent_apply policy_approval_silent silent_chain
      split: budget_answer.split)

lemma policy_answer_silent: "silent l (flow_local (policy_answer k q a l))"
  by (auto simp: policy_answer_def intro!: silent_apply_then silent_chain split: approve_answer.split)

lemma environment_ran_silent: "silent l a \<Longrightarrow> silent l (flow_local (environment_ran k t obs a))"
proof -
  have fin: "silent l1 (flow_local (environment_finished k obs l1))" for l1
    by (auto simp: environment_finished_def intro!: silent_apply silent_chain)
  have "silent a (flow_local (environment_ran k t obs a))"
    unfolding environment_ran_def
    by (rule silent_flow.R_then)
      (auto intro!: silent_apply silent_apply_then silent_flow.R_then[OF fin] silent_chain simp: same_identity_def)
  then show "silent l a \<Longrightarrow> ?thesis" using silent_trans by blast
qed

lemma trust_gate_silent: "silent l (flow_local (trust_gate k a l))"
  by (auto simp: trust_gate_def Let_def same_identity_def
      intro!: silent_apply_then environment_ran_silent silent_chain split: trust_answer.split gate_outcome.split)

lemma replay_silent:
  "silent l (flow_local (replay_slot k res l))" "silent l (flow_local (replay_prior k prior l))"
  by (auto simp: replay_slot_def replay_prior_def Let_def same_identity_def intro!: silent_apply_then silent_chain)

lemma refuse_silent: "silent l (flow_local (refuse_reconcile k msg short l))"
  by (auto simp: refuse_reconcile_def intro!: silent_apply_then silent_chain)

lemma resetForRetry_silent: "silent l a \<Longrightarrow> silent l (flow_local (resetForRetry k a))"
  unfolding resetForRetry_def by (auto intro!: silent_apply_then silent_chain simp: same_identity_def)

section \<open>Every function is steady\<close>

lemma settle_steady: "steady l (settleIdempotencySlot k l)"
proof -
  have "\<forall>ev \<in> set (settle_events k l). \<not> is_returned ev"
    by (auto simp: settle_events_def split: option.splits if_splits)
  then show ?thesis by (auto simp: steady_def same_identity_def prim)
qed

lemma after_loop_steady: "steady l (flow_local (after_loop k e l))"
  unfolding after_loop_def
  by (rule steady_flow.R_then_silent) (auto simp: Let_def settle_steady intro!: silent_apply silent_chain)

lemma log_steady: "steady l a \<Longrightarrow> \<not> is_returned ev \<Longrightarrow> steady l (log_event k ev a)"
  by (auto simp: steady_def same_identity_def prim)

lemma key_steady: "steady l a \<Longrightarrow> steady l (a\<lparr>l_key := x\<rparr>)"
  by (auto simp: steady_def same_identity_def prim)

lemma slots_steady: "steady l a \<Longrightarrow> steady l (set_slots t a)"
  by (auto simp: steady_def same_identity_def prim)

lemma run_attempt_silent_start:
  "silent l (if 1 < n then audit k ''execution.retry''
     (on_rec (\<lambda>r. r\<lparr>x_retryCount := Some (nullish (x_retryCount r) 0 + 1)\<rparr>) (on_rec (\<lambda>r. r\<lparr>x_id := (x_id r)\<lparr>attempt := n\<rparr>\<rparr>) l))
     else on_rec (\<lambda>r. r\<lparr>x_id := (x_id r)\<lparr>attempt := n\<rparr>\<rparr>) l)"
  by (auto intro!: silent_chain simp: same_identity_def)

text \<open>An attempt waits for its action, with a silent prefix, or throws.\<close>

lemma run_attempt_cases:
  obtains l1 t where "silent l l1" "run_attempt k n l = Wait (PC_action n t) (log_event k (Ev_action (k_opts k) n) l1)"
  | e l1 where "silent l l1" "run_attempt k n l = Raise e l1"
proof -
  define l1 where "l1 = (if 1 < n then audit k ''execution.retry''
     (on_rec (\<lambda>r. r\<lparr>x_retryCount := Some (nullish (x_retryCount r) 0 + 1)\<rparr>) (on_rec (\<lambda>r. r\<lparr>x_id := (x_id r)\<lparr>attempt := n\<rparr>\<rparr>) l))
     else on_rec (\<lambda>r. r\<lparr>x_id := (x_id r)\<lparr>attempt := n\<rparr>\<rparr>) l)"
  define l2 where "l2 = on_rec (\<lambda>r. r\<lparr>x_startedAt := Some (k_now k)\<rparr>) l1"
  have l2: "silent l l2"
    unfolding l2_def l1_def by (intro silent_on_rec run_attempt_silent_start) (simp add: same_identity_def)
  let ?why = "if 1 < n then ''attempt '' @ show_int n else ''execution started''"
  have eq: "run_attempt k n l = and_then (applyTransition k E_start ?why l2)
           (\<lambda>l. Wait (PC_action n (k_now k))
             (log_event k (Ev_action (k_opts k) n)
               (on_rec (\<lambda>r. r\<lparr>x_timeout := Some \<lparr>tn_deadlineMs = k_now k + timeout_ms (k_opts k), tn_firedAt = None,
                                                tn_stage = TS_before_action\<rparr>\<rparr>)
                 (persist k At_start l))))"
    by (simp only: run_attempt_def Let_def l1_def l2_def)
  show ?thesis
  proof (cases "TRANSITIONS (x_state (l_rec l2)) E_start")
    case None
    then show ?thesis using that(2) l2 unfolding eq by (simp add: applyTransition_eq)
  next
    case (Some t)
    have "silent l (on_rec (\<lambda>r. r\<lparr>x_timeout := Some \<lparr>tn_deadlineMs = k_now k + timeout_ms (k_opts k), tn_firedAt = None,
        tn_stage = TS_before_action\<rparr>\<rparr>) (persist k At_start (moved k t ?why l2)))"
      by (intro silent_on_rec silent_prims silent_moved l2) (simp add: same_identity_def)
    then show ?thesis using that(1) Some unfolding eq by (simp add: apply_go)
  qed
qed

lemma run_attempt_steady: "steady l (flow_local (run_attempt k n l))"
  by (rule run_attempt_cases[of l k n]) (simp_all add: log_steady silent_steady)

lemma loop_from_steady: "steady l (flow_local (loop_from k n e l))"
  by (simp add: loop_from_def run_attempt_steady after_loop_steady)

lemma steady_from: "silent l a \<Longrightarrow> steady a b \<Longrightarrow> steady l b"
  using silent_steady steady_trans by blast

lemma action_failed_steady: "steady l (flow_local (action_failed k n t e l))"
proof -
  have a: "steady l1 (flow_local (after_loop k (Some e) (checkpoint k kd x l1)))" for l1 kd x
    by (rule steady_from[OF _ after_loop_steady]) (auto intro!: silent_chain)
  show ?thesis
    unfolding action_failed_def Let_def
    by (auto intro!: steady_flow.R_then_silent silent_apply silent_chain a steady_flow.R_refl)
qed

lemma action_returned_silent: "silent l (flow_local (action_returned k obs l))"
  unfolding action_returned_def Let_def
  by (auto intro!: silent_apply_then silent_apply silent_chain simp: same_identity_def)

lemma action_settled_steady: "steady l (flow_local (action_settled k n t res l))"
proof (cases res)
  case (RR_returns obs)
  have s: "silent l (flow_local (action_returned k obs l))" by (rule action_returned_silent)
  show ?thesis
    using RR_returns s steady_from[OF s] after_loop_steady action_failed_steady silent_steady
    by (cases "action_returned k obs l") (auto simp: action_settled_def guard_error_def)
qed (simp_all add: action_settled_def guard_error_def action_failed_steady)

lemma retry_decided_steady: "steady l (flow_local (retry_decided k n timed e inp t r ans l))"
proof -
  have a: "silent l (if timed then l else audit k nm l)" for nm by (auto intro!: silent_chain)
  have b: "silent l (if timed then audit k nm (if timed then l else audit k nm' l) else (if timed then l else audit k nm' l))" for nm nm'
    by (auto intro!: silent_chain)
  show ?thesis
    unfolding retry_decided_def Let_def
    by (auto split: option.split intro!: steady_flow.R_then_silent resetForRetry_silent b
        steady_flow.R_refl steady_from[OF _ after_loop_steady] silent_chain)
qed

lemma claimed_steady: "steady l (flow_local (claimed k key res l))"
proof -
  have a: "steady l (flow_local (refuse_reconcile k m s (set_slots t l)))" for m s t
    by (rule steady_trans[OF slots_steady[OF steady_flow.R_refl] silent_steady[OF refuse_silent]])
  have b: "steady l (flow_local (loop_from k 1 None (if c then l\<lparr>l_key := x\<rparr> else l)))" for c x
    by (rule steady_trans[OF _ loop_from_steady]) (simp add: key_steady steady_flow.R_refl)
  show ?thesis
    using a b silent_steady[OF replay_silent(1)] silent_steady[OF refuse_silent]
    by (auto simp: claimed_def steady_flow.R_refl split: option.split)
qed

lemma idempotency_gate_steady: "steady l (flow_local (idempotency_gate k l))"
proof -
  have "steady l (flow_local (claim_slot k key l))" for key
    using steady_trans[OF slots_steady[OF steady_flow.R_refl] claimed_steady]
    by (auto simp: claim_slot_def steady_flow.R_refl split: option.split prod.split)
  then show ?thesis
    using loop_from_steady silent_steady[OF replay_silent(2)]
    by (auto simp: idempotency_gate_def Let_def steady_flow.R_refl split: option.split)
qed

text \<open>The dispatch up to the idempotency gate is silent.\<close>

lemma dispatch_cases:
  obtains l1 where "silent l l1" "x_outcome (l_rec l1) = x_outcome (l_rec l)" "dispatch k l = idempotency_gate k l1"
  | e l1 where "silent l l1" "x_outcome (l_rec l1) = x_outcome (l_rec l)" "dispatch k l = Raise e l1"
proof -
  define l1 where "l1 = set_action k (nullish (eo_placement (k_opts k)) (EP_in_process None)) l"
  have l1: "silent l l1" "x_outcome (l_rec l1) = x_outcome (l_rec l)"
    by (auto simp: l1_def prim intro!: silent_chain)
  define f where "f = (if x_state (l_rec l1) \<noteq> S_authorized then applyTransition k E_authorize ''policy satisfied'' l1 else Go l1)"
  have f: "(\<exists>l2. f = Go l2 \<and> silent l l2 \<and> x_outcome (l_rec l2) = x_outcome (l_rec l)) \<or> (\<exists>e. f = Raise e l1)"
    using l1 by (auto simp: f_def applyTransition_eq prim intro!: silent_chain split: option.split)
  have eq: "dispatch k l = and_then f (\<lambda>l. and_then (applyTransition k E_queue ''ready for execution'' l)
          (\<lambda>l. idempotency_gate k
            (checkpoint k CP_step_started
              (Some (''Starting '' @ capability_label (eo_capability (k_opts k))))
              (persist k At_queue l))))"
    by (simp only: dispatch_def Let_def l1_def f_def)
  from f show ?thesis
  proof
    assume "\<exists>e. f = Raise e l1"
    then show ?thesis using that(2) l1 unfolding eq by auto
  next
    assume "\<exists>l2. f = Go l2 \<and> silent l l2 \<and> x_outcome (l_rec l2) = x_outcome (l_rec l)"
    then obtain l2 where l2: "f = Go l2" "silent l l2" "x_outcome (l_rec l2) = x_outcome (l_rec l)" by blast
    show ?thesis
    proof (cases "TRANSITIONS (x_state (l_rec l2)) E_queue")
      case None
      then show ?thesis using that(2) l2 unfolding eq by (simp add: applyTransition_eq)
    next
      case (Some t)
      have "silent l (checkpoint k CP_step_started x (persist k At_queue (moved k t why l2)))" for x why
        using l2(2) by (auto intro!: silent_chain)
      then show ?thesis
        using Some l2 unfolding eq
        by (intro that(1)[of "checkpoint k CP_step_started
              (Some (''Starting '' @ capability_label (eo_capability (k_opts k))))
              (persist k At_queue (moved k t ''ready for execution'' l2))"])
          (simp_all add: eq apply_go prim)
    qed
  qed
qed

lemma dispatch_steady: "steady l (flow_local (dispatch k l))"
  by (rule dispatch_cases[of l k]) (auto intro: steady_from idempotency_gate_steady silent_steady)

lemma after_policy_steady: "steady l (flow_local (after_policy k l))"
proof -
  have cp: "silent l (checkpoint k CP_policy_admitted None l)" by (auto intro!: silent_chain)
  show ?thesis
    using steady_from[OF cp dispatch_steady] silent_steady[OF cp]
    by (auto simp: after_policy_def Let_def steady_flow.R_refl)
qed

lemma start_body_steady: "steady l (flow_local (start_body k l))"
proof -
  have a: "steady l1 (flow_local (and_then (policy_start k l1) (after_policy k)))" for l1
    by (rule steady_flow.R_then_silent[OF policy_start_silent after_policy_steady])
  show ?thesis
    unfolding start_body_def
    by (rule steady_flow.R_then_silent)
      (auto simp: a intro!: silent_apply_then silent_chain split: option.split)
qed

lemma continue_flow_steady:
  assumes "continue_flow k pc a l = Some f"
  shows "steady l (flow_local f)"
  using assms
  by (induction k pc a l rule: continue_flow.induct)
    (auto intro!: steady_flow.R_then_silent policy_budget_silent policy_answer_silent trust_gate_silent
      after_policy_steady dispatch_steady action_settled_steady retry_decided_steady loop_from_steady
      split: if_splits)

lemma top_error_steady: "steady l (top_error k e l)"
proof -
  have a: "silent l (case applyTransition k E_fail w a of Go l' \<Rightarrow> l' | _ \<Rightarrow> a)" if "silent l a" for a w
    using that by (auto simp: applyTransition_eq intro!: silent_chain split: option.split)
  show ?thesis
    unfolding top_error_def Let_def
    by (rule steady_trans[OF silent_steady settle_steady]) (auto intro!: a silent_chain)
qed

section \<open>One key\<close>

text \<open>The actions started under a key, and whether the key was ever settled as failed.\<close>

fun acts_for :: "string \<Rightarrow> svc_event \<Rightarrow> bool" where
  "acts_for key (Ev_action opts n) = (keyed_effect opts \<and> eo_idempotencyKey opts = Some key)"
| "acts_for key _ = False"

definition effects :: "string \<Rightarrow> (nat option \<times> svc_event) list \<Rightarrow> nat" where
  "effects key tr = length (filter (\<lambda>x. acts_for key (snd x)) tr)"

definition failed_key :: "string \<Rightarrow> (nat option \<times> svc_event) list \<Rightarrow> bool" where
  "failed_key key tr \<longleftrightarrow> Ev_settled key Slot_failed \<in> set (map snd tr)"

definition slot_clean :: "string \<Rightarrow> slots \<Rightarrow> nat \<Rightarrow> bool" where
  "slot_clean key t n \<longleftrightarrow> n \<le> 1 \<and> (state_of key t = None \<longrightarrow> n = 0) \<and> state_of key t \<noteq> Some Slot_failed \<and>
     (\<forall>s. get_slot key t = Some s \<longrightarrow> slotState s = Slot_completed \<longrightarrow> truthy_str (resultJson s))"

definition slot_good :: "string \<Rightarrow> slots \<Rightarrow> (nat option \<times> svc_event) list \<Rightarrow> bool" where
  "slot_good key t tr \<longleftrightarrow> (failed_key key tr \<or> slot_clean key t (effects key tr))"

definition l_good :: "string \<Rightarrow> local \<Rightarrow> bool" where
  "l_good key l = slot_good key (sd_slots (l_db l)) (l_trace l)"

definition unsafe_class :: "string \<Rightarrow> exec_options \<Rightarrow> bool" where
  "unsafe_class key opts \<longleftrightarrow>
     (eo_idempotencyKey opts = Some key \<longrightarrow> eo_idempotency opts \<in> {Non_idempotent, Unknown_unsafe})"

lemma effects_append: "effects key (xs @ ys) = effects key xs + effects key ys"
  by (simp add: effects_def)

lemma effects_none: "\<forall>x \<in> set xs. \<not> is_action (snd x) \<Longrightarrow> effects key xs = 0"
proof -
  assume "\<forall>x \<in> set xs. \<not> is_action (snd x)"
  moreover have "acts_for key ev \<Longrightarrow> is_action ev" for ev by (cases ev) auto
  ultimately show ?thesis by (auto simp: effects_def filter_empty_conv)
qed

lemma failed_key_append: "failed_key key (xs @ ys) \<longleftrightarrow> failed_key key xs \<or> failed_key key ys"
  by (auto simp: failed_key_def)

lemma slot_good_quiet:
  assumes "slot_good key t tr" and "\<forall>x \<in> set xs. \<not> is_action (snd x)"
  shows "slot_good key t (tr @ xs)"
  using assms by (auto simp: slot_good_def failed_key_append effects_append effects_none)

lemma silent_good: "silent l l' \<Longrightarrow> l_good key l \<Longrightarrow> l_good key l'"
  unfolding silent_def l_good_def using slot_good_quiet by metis

lemma key_good: "l_good key (l\<lparr>l_key := x\<rparr>) = l_good key l"
  by (simp add: l_good_def prim)

text \<open>The settlement: a failed one taints the key, a completed one has something to replay.\<close>

lemma clean_update:
  assumes "slot_clean key t n" and "\<And>s. slotKey (f s) = slotKey s"
    and "\<And>s. slotState (f s) \<noteq> Slot_failed"
    and "\<And>s. slotState (f s) = Slot_completed \<Longrightarrow> truthy_str (resultJson (f s))"
  shows "slot_clean key (update_slot j f t) n"
  using assms by (auto simp: slot_clean_def state_of_def get_update)

lemma clean_other:
  assumes "slot_clean key t n" and "\<And>s. slotKey (f s) = slotKey s" and "key \<noteq> j"
  shows "slot_clean key (update_slot j f t) n"
  using assms by (auto simp: slot_clean_def state_of_def get_update)

definition msg_ok :: "ExecutionRecord \<Rightarrow> bool" where
  "msg_ok r \<longleftrightarrow> (settle_state r = Slot_completed \<longrightarrow> outcome_message r ''ok'' \<noteq> [])"

lemma settle_state_cases: "settle_state r \<in> {Slot_completed, Slot_reconcile, Slot_failed}"
  by (simp add: settle_state_def Let_def)

lemma settle_good:
  assumes good: "l_good key l" and msg: "msg_ok (l_rec l)"
  shows "l_good key (settleIdempotencySlot k l)"
proof (cases "settle_events k l = []")
  case True
  then have "settleIdempotencySlot k l = l"
    by (auto simp: settle_events_def settleIdempotencySlot_def split: option.splits if_splits)
  then show ?thesis using good by simp
next
  case False
  then obtain j where j: "l_key l = Some j" "j \<noteq> []" "dp_idempotency (k_deps k)" "\<not> e_settleFails (k_env k)"
    by (auto simp: settle_events_def split: option.splits if_splits)
  let ?r = "l_rec l"
  define t where "t = (case settle_state ?r of
       Slot_completed \<Rightarrow> complete_slot j (Some (outcome_message ?r ''ok'')) (Some (run_of l)) (k_now k) (sd_slots (l_db l))
     | Slot_reconcile \<Rightarrow> requireReconciliation j (outcome_message ?r ''side-effect status unknown'') (k_now k) (sd_slots (l_db l))
     | _ \<Rightarrow> fail_slot j (Some (outcome_message ?r ''failed'')) (k_now k) (sd_slots (l_db l)))"
  have eq: "sd_slots (l_db (settleIdempotencySlot k l)) = t"
    "l_trace (settleIdempotencySlot k l) = l_trace l @ [(Some (k_call k), Ev_settled j (settle_state ?r))]"
    using j by (simp add: settleIdempotencySlot_def Let_def prim t_def)
      (use j in \<open>simp add: prim settle_events_def\<close>)
  have no_effect: "effects key [(Some (k_call k), Ev_settled j (settle_state ?r))] = 0"
    by (simp add: effects_def)
  consider "failed_key key (l_trace l)" | "j = key" "settle_state ?r = Slot_failed"
    | "slot_clean key (sd_slots (l_db l)) (effects key (l_trace l))" "j \<noteq> key \<or> settle_state ?r \<noteq> Slot_failed"
    using good by (auto simp: l_good_def slot_good_def)
  then show ?thesis
  proof cases
    case 3
    have "slot_clean key t (effects key (l_trace l))"
    proof (cases "j = key")
      case True
      then show ?thesis
        using 3 msg settle_state_cases[of ?r]
        by (auto simp: t_def complete_slot_def requireReconciliation_def msg_ok_def intro!: clean_update)
    next
      case False
      then show ?thesis
        using 3(1) settle_state_cases[of ?r]
        by (auto simp: t_def complete_slot_def requireReconciliation_def fail_slot_def intro!: clean_other)
    qed
    then show ?thesis by (simp add: l_good_def slot_good_def eq effects_append no_effect)
  qed (simp_all add: l_good_def slot_good_def eq failed_key_append failed_key_def)
qed

lemma msg_ok_unsettled: "settle_state r \<noteq> Slot_completed \<Longrightarrow> msg_ok r"
  by (simp add: msg_ok_def)

lemma after_loop_slots:
  assumes "l_good key l" and "msg_ok (l_rec l)"
  shows "l_good key (flow_local (after_loop k e l))"
proof -
  define f where "f = (if x_outcome (l_rec l) = None then
          (let l = set_outcome (plain_outcome k OK_failed
                     (case e of None \<Rightarrow> ''Execution ended without producing an outcome.''
                      | Some e \<Rightarrow> safeMessage e) None None) l
           in if x_state (l_rec l) \<noteq> S_failed then applyTransition k E_fail ''no outcome recorded'' l else Go l)
        else Go l)"
  have sil: "silent l (flow_local f)"
    by (auto simp: f_def Let_def intro!: silent_apply silent_chain)
  have msg: "msg_ok (l_rec (flow_local f))"
    using assms(2) by (auto simp: f_def Let_def applyTransition_eq prim intro: msg_ok_unsettled split: option.split)
  have eq: "after_loop k e l = and_then f (\<lambda>l. Finish (settleIdempotencySlot k l))"
    by (simp add: after_loop_def f_def)
  show ?thesis
    using silent_good[OF sil assms(1)] settle_good[of key "flow_local f" k] msg
    unfolding eq by (cases f) auto
qed

lemma action_event_good:
  assumes "l_good key l" and "\<not> (keyed_effect (k_opts k) \<and> eo_idempotencyKey (k_opts k) = Some key)"
  shows "l_good key (log_event k (Ev_action (k_opts k) n) l)"
  using assms by (auto simp: l_good_def slot_good_def prim failed_key_append effects_append effects_def failed_key_def)

lemma run_attempt_slots:
  assumes "l_good key l" and "\<not> (keyed_effect (k_opts k) \<and> eo_idempotencyKey (k_opts k) = Some key)"
  shows "l_good key (flow_local (run_attempt k n l))"
  by (rule run_attempt_cases[of l k n])
    (use assms silent_good in \<open>auto intro!: action_event_good\<close>)

text \<open>The first action under a key: its slot has just been claimed.\<close>

lemma run_attempt_first:
  assumes "\<not> failed_key key (l_trace l) \<Longrightarrow> slot_clean key (sd_slots (l_db l)) 1 \<and> effects key (l_trace l) = 0"
  shows "l_good key (flow_local (run_attempt k n l))"
proof (rule run_attempt_cases[of l k n])
  fix l1 t
  assume l1: "silent l l1" and eq: "run_attempt k n l = Wait (PC_action n t) (log_event k (Ev_action (k_opts k) n) l1)"
  obtain xs where xs: "l_trace l1 = l_trace l @ xs" "\<forall>x \<in> set xs. \<not> is_action (snd x)" "sd_slots (l_db l1) = sd_slots (l_db l)"
    using l1 by (auto simp: silent_def)
  have one: "effects key [(Some (k_call k), Ev_action (k_opts k) n)] \<le> 1" by (simp add: effects_def)
  have less: "slot_clean key u 1 \<Longrightarrow> m \<le> 1 \<Longrightarrow> slot_clean key u m" for u m
    by (auto simp: slot_clean_def)
  show ?thesis
    using assms one less effects_none[OF xs(2), of key]
    by (auto simp: eq l_good_def slot_good_def prim xs failed_key_append effects_append)
next
  fix e l1
  assume l1: "silent l l1" and eq: "run_attempt k n l = Raise e l1"
  have "l_good key l"
    using assms by (auto simp: l_good_def slot_good_def slot_clean_def)
  then show ?thesis using silent_good[OF l1] eq by simp
qed

lemma loop_from_first:
  assumes "\<not> failed_key key (l_trace l) \<Longrightarrow> slot_clean key (sd_slots (l_db l)) 1 \<and> effects key (l_trace l) = 0"
  shows "l_good key (flow_local (loop_from k 1 e l))"
  using run_attempt_first[OF assms] max_attempts_pos[of "k_opts k"] by (simp add: loop_from_def)

lemma claim_slot_slots:
  assumes good: "l_good key l" and keyed: "keyed_effect (k_opts k)" "eo_idempotencyKey (k_opts k) = Some j"
    and cls: "unsafe_class key (k_opts k)"
  shows "l_good key (flow_local (claim_slot k j l))"
proof (cases "e_claimFails (k_env k)")
  case (Some e)
  then show ?thesis using good by (simp add: claim_slot_def)
next
  case None
  let ?kind = "capability_kind_str (cap_kind (eo_capability (k_opts k)))"
  obtain res t where claim: "claim j ?kind (Some (run_of l)) (k_now k) (k_now k) (k_now k) (sd_slots (l_db l)) = (res, t)"
    by (rule prod.exhaust)
  define l1 where "l1 = set_slots t l"
  have l1: "l_trace l1 = l_trace l" "sd_slots (l_db l1) = t" by (simp_all add: l1_def prim)
  have eq: "claim_slot k j l = claimed k j res l1"
    using None claim by (simp add: claim_slot_def l1_def)
  show ?thesis
  proof (cases "j = key")
    case False
    have same: "get_slot key t = get_slot key (sd_slots (l_db l))"
      using claim False
      by (auto simp: claim_def get_append_slot get_update split: option.splits IdempotencySlotState.splits)
    have good1: "l_good key l1"
      using good by (simp add: l_good_def slot_good_def slot_clean_def state_of_def l1 same)
    have good2: "l_good key (set_slots (requireReconciliation j w n (sd_slots (l_db l1))) l1)" for w n
      using good1 False
      by (auto simp: l_good_def slot_good_def prim requireReconciliation_def intro: clean_other)
    have loop: "l_good key (flow_local (loop_from k 1 None l2))" if "l_good key l2" for l2
      using run_attempt_slots[of key l2 k 1] that False keyed max_attempts_pos[of "k_opts k"]
      by (simp add: loop_from_def)
    show ?thesis
      unfolding eq claimed_def
      using good1 good2 silent_good[OF refuse_silent] silent_good[OF replay_silent(1)]
      by (auto simp: key_good intro!: loop split: option.split)
  next
    case True
    have cls': "eo_idempotency (k_opts k) \<noteq> Idempotent_with_key"
      using cls keyed True by (auto simp: unsafe_class_def)
    show ?thesis
    proof (cases "failed_key key (l_trace l)")
      case True
      then have "failed_key key (l_trace (flow_local (claimed k j res l1)))"
        using claimed_steady[of l1 k j res] by (auto simp: steady_def l1 failed_key_append)
      then show ?thesis by (simp add: eq l_good_def slot_good_def)
    next
      case False
      then have clean: "slot_clean key (sd_slots (l_db l)) (effects key (l_trace l))"
        using good by (simp add: l_good_def slot_good_def)
      have keep: "l_good key l1" if "t = sd_slots (l_db l)"
        using that good by (simp add: l_good_def l1)
      show ?thesis
      proof (cases "get_slot key (sd_slots (l_db l))")
        case None
        then have res: "res = no_claim\<lparr>proceed := True\<rparr>" and st: "state_of key t = Some Slot_pending"
          using claim True by (auto simp: claim_def state_of_def get_append_slot)
        have zero: "effects key (l_trace l) = 0" using clean None by (simp add: slot_clean_def state_of_def)
        have "slot_clean key t 1"
          using st by (auto simp: slot_clean_def state_of_def)
        then have "l_good key (flow_local (loop_from k 1 None (l1\<lparr>l_key := Some j\<rparr>)))"
          by (intro loop_from_first) (simp add: l1 prim zero)
        then show ?thesis by (simp add: eq claimed_def res no_claim_def)
      next
        case (Some s)
        show ?thesis
        proof (cases "slotState s")
          case Slot_pending
          then have "res = no_claim\<lparr>crashedPending := True\<rparr>" "t = sd_slots (l_db l)"
            using claim True Some by (auto simp: claim_def)
          moreover have "l_good key (set_slots (requireReconciliation j w n (sd_slots (l_db l1))) l1)" for w n
            using clean calculation(2)
            by (auto simp: l_good_def slot_good_def prim l1 requireReconciliation_def intro!: clean_update)
          ultimately show ?thesis
            using keep cls' silent_good[OF refuse_silent]
            by (auto simp: eq claimed_def no_claim_def split: option.split)
        next
          case Slot_completed
          then have res: "res = no_claim\<lparr>cachedResult := resultJson s\<rparr>" "t = sd_slots (l_db l)"
            using claim True Some by (auto simp: claim_def)
          have "truthy_str (resultJson s)" using clean Some Slot_completed by (simp add: slot_clean_def)
          then show ?thesis
            using res keep silent_good[OF replay_silent(1)] by (simp add: eq claimed_def no_claim_def)
        next
          case Slot_reconcile
          then have "res = no_claim\<lparr>requiresReconciliation := True\<rparr>" "t = sd_slots (l_db l)"
            using claim True Some by (auto simp: claim_def)
          then show ?thesis
            using keep silent_good[OF refuse_silent] by (simp add: eq claimed_def no_claim_def)
        next
          case Slot_failed
          then show ?thesis using clean Some by (simp add: slot_clean_def state_of_def)
        qed
      qed
    qed
  qed
qed

text \<open>The other functions under the same key.\<close>

lemma idempotency_gate_slots:
  assumes good: "l_good key l" and cls: "unsafe_class key (k_opts k)" and dep: "dp_idempotency (k_deps k)"
  shows "l_good key (flow_local (idempotency_gate k l))"
proof (cases "keyed_effect (k_opts k)")
  case False
  then show ?thesis
    using run_attempt_slots[OF good, of k 1] max_attempts_pos[of "k_opts k"]
    by (simp add: idempotency_gate_def Let_def loop_from_def)
next
  case True
  then obtain j where j: "eo_idempotencyKey (k_opts k) = Some j"
    by (cases "eo_idempotencyKey (k_opts k)") (auto simp: keyed_effect_def)
  show ?thesis
    using True j good dep claim_slot_slots[OF good True j cls] silent_good[OF replay_silent(2) good]
    by (auto simp: idempotency_gate_def Let_def split: option.split)
qed

lemma dispatch_slots:
  assumes "l_good key l" and "unsafe_class key (k_opts k)" and "dp_idempotency (k_deps k)"
  shows "l_good key (flow_local (dispatch k l))"
  by (rule dispatch_cases[of l k])
    (use assms silent_good idempotency_gate_slots in \<open>auto\<close>)

lemma after_policy_slots:
  assumes "l_good key l" and "unsafe_class key (k_opts k)" and "dp_idempotency (k_deps k)"
  shows "l_good key (flow_local (after_policy k l))"
proof -
  have "l_good key (checkpoint k CP_policy_admitted None l)"
    by (rule silent_good[OF silent_prims(4)[OF silent_refl] assms(1)])
  then show ?thesis
    using assms dispatch_slots by (auto simp: after_policy_def Let_def)
qed

text \<open>A silent flow, and what follows it.\<close>

lemma slots_then:
  assumes "silent l (flow_local f)" and "l_good key l" and "\<And>l1. l_good key l1 \<Longrightarrow> l_good key (flow_local (g l1))"
  shows "l_good key (flow_local (and_then f g))"
  using silent_good[OF assms(1,2)] assms(3) by (cases f) auto

lemma start_body_slots:
  assumes "l_good key l" and "unsafe_class key (k_opts k)" and "dp_idempotency (k_deps k)"
  shows "l_good key (flow_local (start_body k l))"
proof -
  have plan: "silent l (flow_local (case eo_plan (k_opts k) of
          None \<Rightarrow> Go l
        | Some pl \<Rightarrow>
            and_then (applyTransition k E_plan ''plan registered'' l)
              (\<lambda>l. Go (persist k At_plan (checkpoint k CP_plan_recorded None l)))))"
    by (auto intro!: silent_apply_then silent_chain split: option.split)
  show ?thesis
    unfolding start_body_def
    by (rule slots_then[OF plan assms(1)])
      (rule slots_then[OF policy_start_silent _ after_policy_slots[OF _ assms(2,3)]])
qed

lemma action_failed_slots:
  assumes good: "l_good key l"
  shows "l_good key (flow_local (action_failed k n t e l))"
proof -
  have fin: "l_good key (flow_local (after_loop k (Some e) (checkpoint k kd x (moved k s why (cancelled_outcome k w e l)))))"
    for kd x s why w
    by (rule after_loop_slots)
      (auto simp: prim intro!: silent_good[OF _ good] silent_chain msg_ok_unsettled)
  have mv: "l_good key (moved k s why (cancelled_outcome k w e l))" "l_good key (cancelled_outcome k w e l)"
    "l_good key (moved k s why (timed_out_outcome k e t l))" "l_good key (timed_out_outcome k e t l)"
    "l_good key (moved k s why (set_outcome c l))" "l_good key (set_outcome c l)" for s why w c
    by (rule silent_good[OF _ good]; intro silent_chain)+
  show ?thesis
    using fin mv by (auto simp: action_failed_def Let_def applyTransition_eq split: option.split)
qed

lemma action_settled_slots:
  assumes good: "l_good key l" and st: "x_state (l_rec l) = S_running"
  shows "l_good key (flow_local (action_settled k n t res l))"
proof (cases res)
  case (RR_returns obs)
  obtain l' where l': "action_returned k obs l = Go l'"
    "settle_state (l_rec l') = Slot_completed \<longrightarrow> outcome_message (l_rec l') ''ok'' \<noteq> []"
    using action_returned_ex[OF st, of k obs] by blast
  have "l_good key l'"
    using silent_good[OF action_returned_silent good, of k obs] l' by simp
  then show ?thesis
    using after_loop_slots[of key l' k None] l' RR_returns
    by (simp add: action_settled_def guard_error_def msg_ok_def)
qed (simp_all add: action_settled_def guard_error_def action_failed_slots[OF good])

lemma retry_decided_slots:
  assumes good: "l_good key l" and unset: "settle_state (l_rec l) \<noteq> Slot_completed"
  shows "l_good key (flow_local (retry_decided k n timed e inp t r ans l))"
proof -
  define l1 where "l1 = (if timed then l else audit k ''execution.retry_decision'' l)"
  define l2 where "l2 = (if timed then audit k ''execution.retry'' l1 else l1)"
  have l1: "silent l l1" and l2: "silent l l2" and r1: "l_rec l1 = l_rec l"
    by (auto simp: l1_def l2_def prim intro!: silent_chain)
  have up: "l_good key (flow_local (after_loop k (Some e) (upgrade_unknown k e l1)))"
  proof (rule after_loop_slots)
    show "l_good key (upgrade_unknown k e l1)"
      by (rule silent_good[OF silent_prims(10)[OF l1] good])
    have "settle_state (l_rec (upgrade_unknown k e l1)) \<noteq> Slot_completed"
      by (cases "x_outcome (l_rec l1)") (simp_all add: upgrade_unknown_def settle_state_def prim Let_def effect_unknown_def)
    then show "msg_ok (l_rec (upgrade_unknown k e l1))" by (rule msg_ok_unsettled)
  qed
  have stop: "l_good key (flow_local (after_loop k (Some e) l1))"
    by (rule after_loop_slots[OF silent_good[OF l1 good]]) (simp add: r1 msg_ok_unsettled unset)
  have again: "l_good key (flow_local (and_then (resetForRetry k l2) (Wait (PC_backoff (n + 1) e))))"
    by (rule slots_then[OF resetForRetry_silent[OF silent_refl] silent_good[OF l2 good]]) simp
  show ?thesis
    using good up stop again
    unfolding retry_decided_def Let_def l1_def[symmetric] l2_def[symmetric]
    by (auto split: option.split)
qed

lemma continue_flow_slots:
  assumes "l_good key l" and "unsafe_class key (k_opts k)" and "dp_idempotency (k_deps k)"
    and "wait_ok (k_deps k) (set (l_trace l)) (k_call k) (k_opts k) pc (l_rec l)"
    and "continue_flow k pc a l = Some f"
  shows "l_good key (flow_local f)"
  using assms
proof (induction k pc a l rule: continue_flow.induct)
  case (1 k a l)
  have "l_good key (flow_local (and_then (policy_budget k a l) (after_policy k)))"
    by (rule slots_then[OF policy_budget_silent 1(1) after_policy_slots]) (use 1 in auto)
  then show ?case using 1 by simp
next
  case (2 k q a l)
  have "l_good key (flow_local (and_then (policy_answer k q a l) (after_policy k)))"
    by (rule slots_then[OF policy_answer_silent 2(1) after_policy_slots]) (use 2 in auto)
  then show ?case using 2 by simp
next
  case (3 k a l)
  have "l_good key (flow_local (and_then (trust_gate k a l) (dispatch k)))"
    by (rule slots_then[OF trust_gate_silent 3(1) dispatch_slots]) (use 3 in auto)
  then show ?case using 3 by simp
next
  case (4 k n t a l)
  then show ?case using action_settled_slots by (auto simp: wait_ok_def split: if_splits)
next
  case (5 k n timed e i t r a l)
  then show ?case using retry_decided_slots[of key l] by (auto simp: wait_ok_def)
next
  case (6 k n e l)
  have "l_good key (flow_local (run_attempt k n l))"
    by (rule run_attempt_slots) (use 6 in \<open>auto simp: wait_ok_def unsafe_class_def\<close>)
  then show ?case using 6 by (auto simp: wait_ok_def loop_from_def)
qed (simp_all split: if_splits)

lemma top_error_slots:
  assumes good: "l_good key l" and unset: "settle_state (l_rec l) \<noteq> Slot_completed"
  shows "l_good key (top_error k e l)"
proof -
  define l1 where "l1 = (if x_outcome (l_rec l) = None
               then set_outcome (plain_outcome k OK_failed (safeMessage e) None
                      (Some (error_of ''EXECUTION_ERROR'' (safeMessage e) False (possible_effect (l_rec l)) EK_unknown))) l
               else l)"
  define l2 where "l2 = (if isTerminal (x_state (l_rec l1)) then l1
               else case applyTransition k E_fail ''orchestrator error'' l1 of Go l' \<Rightarrow> l' | _ \<Rightarrow> l1)"
  have l1: "silent l l1" "settle_state (l_rec l1) \<noteq> Slot_completed"
    using unset by (auto simp: l1_def prim intro!: silent_chain)
  have l2: "silent l l2" "settle_state (l_rec l2) \<noteq> Slot_completed"
    using l1 by (auto simp: l2_def applyTransition_eq intro!: silent_moved split: option.split)
  have "top_error k e l = settleIdempotencySlot k l2"
    by (simp only: top_error_def Let_def l1_def l2_def)
  then show ?thesis
    using settle_good[OF silent_good[OF l2(1) good] msg_ok_unsettled[OF l2(2)]] by simp
qed

lemma finalize_silent: "silent l (finalize k l)"
proof -
  have "same_identity r (downgrade k r)" for r
    by (simp add: downgrade_def same_identity_def split: option.split)
  then show ?thesis
    by (auto simp: finalize_def Let_def silent_def same_identity_def l_trace_def prim split: option.split)
qed

section \<open>The end of a call\<close>

lemma finish_call_db:
  "sd_trace (fst (finish_call k held l)) = sd_trace (l_db (finalize k l)) @
     [(Some (k_call k), Ev_returned (l_rec (finalize k l)))]"
  "sd_slots (fst (finish_call k held l)) = sd_slots (l_db (finalize k l))"
  "sd_calls (fst (finish_call k held l)) = sd_calls (l_db (finalize k l))"
  "sd_records (fst (finish_call k held l)) = sd_records (l_db (finalize k l))"
  "pr_frames (snd (finish_call k held l)) = (pr_frames (k_proc k))(k_call k := None)"
  "pr_mgr (snd (finish_call k held l)) = pr_mgr (k_proc k)"
  "pr_live (snd (finish_call k held l)) = AList.delete (run_of (finalize k l)) (pr_live (k_proc k))"
  by (simp_all add: finish_call_def Let_def prim)

lemma finalize_trace: "sd_trace (l_db (finalize k l)) = l_trace l @ [(Some (k_call k), Ev_audit ''execution.outcome'')]"
  by (simp add: finalize_def Let_def prim l_trace_def split: option.split)

end
