(* ===== verification/Exec_Startup.thy ===== *)
theory Exec_Startup
  imports Exec_Calls
begin

text \<open>
  Recovery as the execution service drives it (\<open>resumeRecoverable\<close>, \<open>startupRecovery\<close> and the
  status queries of \<open>src/src/execution/service.ts\<close>) over the classifier and the basis check of
  \<open>src/src/execution/recovery.ts\<close>, whose reasons are rendered here as the texts that are
  recorded. \<open>startupRecovery\<close> awaits nothing but \<open>resumeRecoverable\<close>, which awaits nothing: it is
  one step. \<open>Inl\<close> is a rejected promise.
\<close>

section \<open>Texts\<close>

definition hook_text :: "string \<Rightarrow> string \<Rightarrow> hook_result \<Rightarrow> string" where
  "hook_text prefix d h =
     (case h of Hook_ok \<Rightarrow> d | Hook_bad r \<Rightarrow> nullish r d | Hook_throws m \<Rightarrow> prefix @ m)"

fun defect_text :: "checkpoint_defect \<Rightarrow> string" where
  "defect_text NoCheckpoint = ''no checkpoint found''"
| "defect_text (UnknownKind k) = ''unknown checkpoint kind '' @ quoted (kind_str k)"
| "defect_text MissingRunId = ''checkpoint missing runId''"
| "defect_text InvalidCreatedAt = ''checkpoint has invalid createdAt''"
| "defect_text PayloadNotObject = ''checkpoint payload is not an object''"
| "defect_text AuthorityMalformed = ''authority snapshot is malformed''"
| "defect_text CredentialRefsMalformed = ''authority snapshot credentialRefs malformed''"

fun idempotency_str :: "idempotency_class \<Rightarrow> string" where
  "idempotency_str Naturally_idempotent = ''naturally_idempotent''"
| "idempotency_str Idempotent_with_key = ''idempotent_with_key''"
| "idempotency_str Non_idempotent = ''non_idempotent''"
| "idempotency_str Unknown_unsafe = ''unknown_unsafe''"

fun reason_text :: "recovery_reason \<Rightarrow> string" where
  "reason_text R_cancelled_maybe_effect =
     ''Cancellation was requested before crash but side effect may have occurred. Manual reconciliation required.''"
| "reason_text R_cancelled = ''Cancellation was requested before crash. Execution must not resume.''"
| "reason_text (R_audit_broken h) =
     ''Audit chain integrity check failed'' @ em_dash @ ''recovery blocked: '' @
     hook_text ''audit verification failed: '' ''chain invalid'' h"
| "reason_text (R_checkpoint_invalid d) =
     ''Latest checkpoint is invalid ('' @ defect_text d @ '')'' @ em_dash @ ''refusing to resume from corrupted state.''"
| "reason_text (R_authority_invalid h) =
     ''Authority snapshot no longer valid'' @ em_dash @
     hook_text ''authority validation failed: '' ''authority mismatch'' h @ ''. Re-admission required.''"
| "reason_text (R_not_in_flight s) =
     ''Execution was in state '' @ quoted (state_str s) @ em_dash @
     ''no side effects possible. Safe to retry from last checkpoint.''"
| "reason_text (R_checkpoint_safe k) = ''Last checkpoint '' @ quoted (kind_str k) @ '' indicates safe resume.''"
| "reason_text (R_naturally_idempotent s) =
     ''Action is naturally idempotent'' @ em_dash @ ''safe to retry even though execution was in '' @
     quoted (state_str s) @ ''.''"
| "reason_text R_has_key = ''Action has idempotency key'' @ em_dash @ ''safe to retry with same key.''"
| "reason_text (R_effect_unknown s i) =
     ''Action was in state '' @ quoted (state_str s) @ '' with idempotency '' @ quoted (idempotency_str i) @
     ''. Side effect may have occurred. User approval required.''"
| "reason_text R_quarantined = ''Environment was quarantined. Cannot resume without explicit cleanup.''"
| "reason_text R_no_checkpoint = ''No checkpoint found for active execution. Side-effect status unknown.''"
| "reason_text (R_known_checkpoint s) =
     ''Execution in '' @ quoted (state_str s) @ '' with known checkpoint'' @ em_dash @ ''safe to resume.''"

fun basis_text :: "basis_failure \<Rightarrow> string" where
  "basis_text B_no_checkpoint = ''no checkpoint found to resume from''"
| "basis_text (B_checkpoint_invalid d) = ''checkpoint invalid: '' @ defect_text d"
| "basis_text (B_audit_broken h) =
     (case h of Hook_throws m \<Rightarrow> ''audit verification error: '' @ m
      | _ \<Rightarrow> ''audit chain broken: '' @ hook_text [] ''invalid'' h)"
| "basis_text (B_authority h) =
     (case h of Hook_throws m \<Rightarrow> ''authority validation error: '' @ m
      | _ \<Rightarrow> ''authority no longer valid: '' @ hook_text [] ''mismatch'' h)"
| "basis_text (B_boundary_unsafe k i) =
     ''resume boundary '' @ quoted (kind_str k) @ '' is not side-effect-safe for idempotency '' @
     quoted (case i of None \<Rightarrow> ''unknown'' | Some c \<Rightarrow> idempotency_str c)"

section \<open>Status\<close>

definition status_of :: "svc_deps \<Rightarrow> svc_env \<Rightarrow> service_db \<Rightarrow> ExecutionRecord \<Rightarrow> recovery_status" where
  "status_of deps e d r =
     buildStatus (e_readFails e) (e_readFails e) (e_readFails e) (dp_hooks deps) (sd_recovery d) (as_record r)"

definition getRecoveryStatus ::
  "svc_deps \<Rightarrow> svc_env \<Rightarrow> string \<Rightarrow> service_db \<Rightarrow> svc_error + recovery_status option" where
  "getRecoveryStatus deps e run d =
     (case e_findFails e of
        Some err \<Rightarrow> Inl err
      | None \<Rightarrow> Inr (map_option (status_of deps e d) (get_record run (sd_records d))))"

definition getRecoveryPending ::
  "svc_deps \<Rightarrow> svc_env \<Rightarrow> string \<Rightarrow> service_db \<Rightarrow> svc_error + recovery_status list" where
  "getRecoveryPending deps e ws d =
     (case e_findFails e of
        Some err \<Rightarrow> Inl err
      | None \<Rightarrow> Inr (map (status_of deps e d) (findInterrupted ws 100 (sd_records d))))"

section \<open>Resuming one execution\<close>

definition decide ::
  "svc_env \<Rightarrow> string \<Rightarrow> nat \<Rightarrow> recovery_action \<Rightarrow> recovery_classification \<Rightarrow> string \<Rightarrow> bool \<Rightarrow>
   service_db \<Rightarrow> service_db" where
  "decide e run n act cls why by_user d =
     d\<lparr>sd_recovery := (sd_recovery d)\<lparr>db_decisions :=
        snd (recordDecision (e_decisionFails e) (e_now e) (e_decisionId e run n) LT_execution run act cls why by_user
               (db_decisions (sd_recovery d)))\<rparr>\<rparr>"

definition verdict_of :: "svc_deps \<Rightarrow> svc_env \<Rightarrow> service_db \<Rightarrow> ExecutionRecord \<Rightarrow> recovery_verdict" where
  "verdict_of deps e d r =
     classify (e_readFails e) (e_readFails e) (dp_hooks deps) (sd_recovery d) (as_record r)"

definition basis_of :: "svc_deps \<Rightarrow> svc_env \<Rightarrow> service_db \<Rightarrow> ExecutionRecord \<Rightarrow> recovery_basis" where
  "basis_of deps e d r = verifyRecoveryBasis (e_readFails e) (dp_hooks deps) (sd_recovery d) (as_record r)"

definition persistence_error :: "string \<Rightarrow> svc_error" where
  "persistence_error run = bare_error ''EXECUTION_PERSISTENCE_FAILED''
     (''Execution '' @ run @ '' persistence failed'' @ em_dash @ ''outcome may not be durable.'')"

definition requeue :: "svc_env \<Rightarrow> ExecutionRecord \<Rightarrow> service_db \<Rightarrow> (svc_error + ExecutionRecord option) \<times> service_db" where
  "requeue e r d =
     (case transition (runId (x_id r)) (Some (x_state r)) E_retry (Some ''recovery resume'') (e_now e) of
        Inl err \<Rightarrow> (Inl (transition_error err), d)
      | Inr (nxt, entry) \<Rightarrow>
          (let r' = r\<lparr>x_state := nxt, x_history := x_history r @ [entry], x_observation := None,
                       x_outcome := None, x_updatedAt := e_now e\<rparr>
           in case save_record (e_saveFails e At_resume) r' (sd_records d) of
                None \<Rightarrow> (Inl (persistence_error (runId (x_id r))), d)
              | Some rows \<Rightarrow> (Inr (Some r'), d\<lparr>sd_records := rows\<rparr>)))"

text \<open>From the verified basis on.\<close>

definition claim_resume ::
  "svc_env \<Rightarrow> bool \<Rightarrow> recovery_verdict \<Rightarrow> recovery_basis \<Rightarrow> ExecutionRecord \<Rightarrow> service_db \<Rightarrow>
   (svc_error + ExecutionRecord option) \<times> service_db" where
  "claim_resume e force v basis r d =
     (case v of (act, cls, why) \<Rightarrow>
       let run = runId (x_id r);
           d1 = put_checkpoint e r CP_recovery_decided
                  (Some (''recovery basis verified: '' @
                    (case basis_checkpoint basis of None \<Rightarrow> ''none'' | Some cp \<Rightarrow> kind_str (cp_kind cp)))) None
                  (decide e run 1 RA_auto_resume cls (reason_text why) force d)
       in if \<not> wasInFlight (x_state r) \<or> x_state r = S_awaiting_approval then requeue e r d1
          else (Inr (Some r), d1))"

definition resumeRecoverable ::
  "svc_deps \<Rightarrow> svc_env \<Rightarrow> string \<Rightarrow> bool \<Rightarrow> service_db \<Rightarrow>
   (svc_error + ExecutionRecord option) \<times> service_db" where
  "resumeRecoverable deps e run force d =
     (case e_findFails e of
        Some err \<Rightarrow> (Inl err, d)
      | None \<Rightarrow>
          (case get_record run (sd_records d) of
             None \<Rightarrow> (Inr None, d)
           | Some r \<Rightarrow>
               (let v = verdict_of deps e d r; basis = basis_of deps e d r in
                if fst v \<in> {RA_blocked, RA_requires_approval} \<and> \<not> force then (Inr None, d)
                else if \<not> basis_ok basis then
                  (Inr None,
                   trace_event None (Ev_audit ''execution.recovery_blocked'')
                     (decide e run 1 RA_blocked RC_checkpoint_invalid
                       (''Resume refused: '' @ (case basis_failure basis of None \<Rightarrow> [] | Some b \<Rightarrow> basis_text b)) force d))
                else claim_resume e force v basis r d)))"

section \<open>Startup\<close>

record startup_status =
  su_status :: recovery_status
  su_blockedText :: "string option"

definition plain_status :: "recovery_status \<Rightarrow> startup_status" where
  "plain_status s = \<lparr>su_status = s, su_blockedText = map_option reason_text (st_blockedReason s)\<rparr>"

definition resumed_status :: "recovery_status \<Rightarrow> startup_status" where
  "resumed_status s = plain_status (s\<lparr>st_recoveryState := RS_resumed\<rparr>)"

definition refused_status :: "recovery_status \<Rightarrow> startup_status" where
  "refused_status s =
     \<lparr>su_status = s\<lparr>st_recoveryState := RS_recovery_blocked, st_safeToResume := False\<rparr>,
      su_blockedText = Some (nullish (map_option reason_text (st_blockedReason s)) ''resume basis failed verification'')\<rparr>"

text \<open>One discovered record: its status, or the error that ends the discovery (the status of that
  record has been counted by then).\<close>

definition recover_one ::
  "svc_deps \<Rightarrow> svc_env \<Rightarrow> ExecutionRecord \<Rightarrow> service_db \<Rightarrow> (svc_error + startup_status) \<times> service_db" where
  "recover_one deps e r d =
     (case verdict_of deps e d r of (act, cls, why) \<Rightarrow>
       let run = runId (x_id r);
           d1 = decide e run 0 act cls (reason_text why) False d;
           st = status_of deps e d1 r
       in if act = RA_auto_resume then
            (case resumeRecoverable deps e run True d1 of
               (Inl err, d2) \<Rightarrow> (Inl err, d2)
             | (Inr None, d2) \<Rightarrow> (Inr (refused_status st), d2)
             | (Inr (Some r'), d2) \<Rightarrow> (Inr (resumed_status st), d2))
          else (Inr (plain_status st), d1))"

fun recover_all ::
  "svc_deps \<Rightarrow> svc_env \<Rightarrow> ExecutionRecord list \<Rightarrow> service_db \<Rightarrow>
   svc_error option \<times> startup_status list \<times> service_db" where
  "recover_all deps e [] d = (None, [], d)"
| "recover_all deps e (r # rs) d =
     (case recover_one deps e r d of
        (Inl err, d1) \<Rightarrow> (Some err, [], d1)
      | (Inr s, d1) \<Rightarrow> (case recover_all deps e rs d1 of (err, ss, d2) \<Rightarrow> (err, s # ss, d2)))"

definition quarantine_dirty :: "svc_env \<Rightarrow> string \<Rightarrow> service_db \<Rightarrow> service_db" where
  "quarantine_dirty e ws d =
     d\<lparr>sd_recovery := (sd_recovery d)\<lparr>db_environments :=
        fold (\<lambda>a. updateEnvironmentState (e_markFails e) (e_now e) (env_environmentId a) EN_quarantined (Some ''failed'')
                    (Some True) (Some ''Process crash during active environment use''))
          (getDirtyEnvironments (e_readFails e) ws (db_environments (sd_recovery d)))
          (db_environments (sd_recovery d))\<rparr>\<rparr>"

text \<open>The \<open>finally\<close> block: the release and the figures, the latter as far as they can be stored.\<close>

definition startup_finally :: "svc_env \<Rightarrow> string \<Rightarrow> nat \<Rightarrow> service_db \<Rightarrow> service_db" where
  "startup_finally e ws n d =
     (let set = (\<lambda>key v. setMaintenanceMeta (e_markFails e) key v) in
      trace_event None (Ev_audit ''execution.startup_recovery'')
        (d\<lparr>sd_leases := snd (release (e_releaseFaults e) (e_end e) LT_recovery ws ''recovery_complete'' (sd_leases d)),
           sd_meta := set ''startup_recovery_last_count'' (show_int (int n))
             (set ''startup_recovery_last_at'' (show_int (e_end e))
               (set ''startup_recovery_last_duration_ms'' (show_int (e_end e - e_now e)) (sd_meta d)))\<rparr>))"

definition startupRecovery ::
  "svc_deps \<Rightarrow> (int \<Rightarrow> kill_result) \<Rightarrow> svc_env \<Rightarrow> lease_manager \<Rightarrow> string \<Rightarrow> service_db \<Rightarrow>
   (svc_error + startup_status list) \<times> service_db" where
  "startupRecovery deps kill e m ws d =
     (case acquire kill (e_leaseFaults e) m (e_now e) (e_leaseId e) LT_recovery ws ws None (Some 60000) (sd_leases d) of
        (None, tbl) \<Rightarrow> (Inr [], d\<lparr>sd_leases := tbl\<rparr>)
      | (Some lease, tbl) \<Rightarrow>
          (let d = d\<lparr>sd_leases := tbl\<rparr> in
           case e_findFails e of
             Some err \<Rightarrow> (Inl err, startup_finally e ws 0 d)
           | None \<Rightarrow>
               (case recover_all deps e (findInterrupted ws 100 (sd_records d)) d of
                  (Some err, ss, d1) \<Rightarrow> (Inl err, startup_finally e ws (Suc (length ss)) d1)
                | (None, ss, d1) \<Rightarrow> (Inr ss, startup_finally e ws (length ss) (quarantine_dirty e ws d1)))))"

section \<open>A resume claim rests on a verified basis\<close>

lemma claim_resume_in_flight:
  "fst (claim_resume e force v basis r d) = Inr (Some r') \<Longrightarrow>
     (r' = r \<and> wasInFlight (x_state r) \<and> x_state r \<noteq> S_awaiting_approval) \<or>
     (x_state r \<in> {S_failed, S_timed_out} \<and> x_state r' = S_queued)"
  by (cases "x_state r")
    (auto simp: claim_resume_def requeue_def transition_def Let_def wasInFlight_def IN_FLIGHT_STATES_def
      split: prod.splits option.splits if_splits)

lemma claim_resume_saves:
  "fst (claim_resume e force v basis r d) = Inr (Some r') \<Longrightarrow>
     \<not> wasInFlight (x_state r) \<or> x_state r = S_awaiting_approval \<Longrightarrow>
     get_record (runId (x_id r')) (sd_records (snd (claim_resume e force v basis r d))) = Some (truncateRecord r')"
  using saved_record_reads_back
  by (fastforce simp: claim_resume_def requeue_def Let_def split: prod.splits sum.splits option.splits)

lemma resume_outcome:
  assumes "fst (resumeRecoverable deps e run force d) = Inr (Some r')"
  obtains r where "get_record run (sd_records d) = Some r" "basis_ok (basis_of deps e d r)"
    "force \<or> fst (verdict_of deps e d r) \<notin> {RA_blocked, RA_requires_approval}"
    "resumeRecoverable deps e run force d =
       claim_resume e force (verdict_of deps e d r) (basis_of deps e d r) r d"
  using assms by (auto simp: resumeRecoverable_def Let_def split: option.splits if_splits)

end
