(* ===== verification/Exec_System.thy ===== *)
theory Exec_System
  imports Exec_Effects Exec_Startup
begin

text \<open>
  Several processes of the runtime over one workspace database. A step is one operation of one
  process: a call of \<open>execute\<close>, an answer a call has waited for, a callback of a running action,
  a public method of the service, the start of a process (with a fresh instance id) or its crash,
  which takes its calls with it and leaves the database as it is. Then what holds of all of them
  together: calls wait in the state their wait point needs, and every action was admitted.
\<close>

section \<open>The system\<close>

record svc_system =
  ss_db :: service_db
  ss_procs :: "(int \<times> process) list"

datatype svc_op =
    Sv_boot int string
  | Sv_crash int
  | Sv_begin int svc_env exec_options
  | Sv_answer int svc_env nat svc_answer
  | Sv_callback int svc_env nat run_callback
  | Sv_cancel int svc_env string string
  | Sv_interrupt int svc_env string
  | Sv_stop int svc_env
  | Sv_persist int svc_env string
  | Sv_resume int svc_env string bool
  | Sv_startup int svc_env string
  | Sv_lease_cleanup int svc_env

definition fresh_process :: "int \<Rightarrow> string \<Rightarrow> process" where
  "fresh_process q inst =
     \<lparr>pr_mgr = \<lparr>instanceId = inst, pid = q\<rparr>, pr_frames = (\<lambda>c. None), pr_live = [], pr_flags = []\<rparr>"

definition boot :: "int \<Rightarrow> string \<Rightarrow> svc_system \<Rightarrow> svc_system" where
  "boot q inst s =
     (if 0 < q \<and> q \<notin> fst ` set (ss_procs s) \<and> (\<forall>(q', p) \<in> set (ss_procs s). instanceId (pr_mgr p) \<noteq> inst)
      then s\<lparr>ss_procs := (q, fresh_process q inst) # ss_procs s\<rparr> else s)"

definition in_process :: "int \<Rightarrow> (service_db \<Rightarrow> process \<Rightarrow> service_db \<times> process) \<Rightarrow> svc_system \<Rightarrow> svc_system" where
  "in_process q f s =
     (case map_of (ss_procs s) q of
        None \<Rightarrow> s
      | Some p \<Rightarrow> (case f (ss_db s) p of (d, p') \<Rightarrow> \<lparr>ss_db = d, ss_procs = AList.update q p' (ss_procs s)\<rparr>))"

definition kill_in :: "svc_system \<Rightarrow> int \<Rightarrow> kill_result" where
  "kill_in s = kill_of (map fst (ss_procs s))"

fun svc_step :: "svc_deps \<Rightarrow> svc_op \<Rightarrow> svc_system \<Rightarrow> svc_system" where
  "svc_step deps (Sv_boot q inst) s = boot q inst s"
| "svc_step deps (Sv_crash q) s = s\<lparr>ss_procs := AList.delete q (ss_procs s)\<rparr>"
| "svc_step deps (Sv_begin q e opts) s = in_process q (begin_call deps (kill_in s) e opts) s"
| "svc_step deps (Sv_answer q e c a) s = in_process q (answer_call deps e c a) s"
| "svc_step deps (Sv_callback q e c cb) s = in_process q (run_callback_op e c cb) s"
| "svc_step deps (Sv_cancel q e run why) s = in_process q (\<lambda>d p. cancel_call e run why (d, p)) s"
| "svc_step deps (Sv_interrupt q e run) s = in_process q (\<lambda>d p. markInterrupted e run (d, p)) s"
| "svc_step deps (Sv_stop q e) s = in_process q (\<lambda>d p. onStop e (d, p)) s"
| "svc_step deps (Sv_persist q e run) s = in_process q (\<lambda>d p. persist_call e run (d, p)) s"
| "svc_step deps (Sv_resume q e run force) s =
     in_process q (\<lambda>d p. (snd (resumeRecoverable deps e run force d), p)) s"
| "svc_step deps (Sv_startup q e ws) s =
     in_process q (\<lambda>d p. (snd (startupRecovery deps (kill_in s) e (pr_mgr p) ws d), p)) s"
| "svc_step deps (Sv_lease_cleanup q e) s =
     in_process q (\<lambda>d p. (d\<lparr>sd_leases := snd (cleanup (e_leaseFaults e) (e_now e) None (sd_leases d))\<rparr>, p)) s"

definition svc_init :: svc_system where
  "svc_init = \<lparr>ss_db = \<lparr>sd_records = [], sd_recovery = \<lparr>db_checkpoints = [], db_cancellations = [],
     db_decisions = [], db_environments = []\<rparr>, sd_leases = [], sd_slots = [], sd_meta = (\<lambda>k. None),
     sd_trace = [], sd_calls = 0\<rparr>, ss_procs = []\<rparr>"

definition svc_run :: "svc_deps \<Rightarrow> svc_op list \<Rightarrow> svc_system" where
  "svc_run deps xs = exec_ops (svc_step deps) xs svc_init"

section \<open>Operations that start no action\<close>

text \<open>The database after an operation that neither starts an action nor touches a slot.\<close>

definition quiet_db :: "service_db \<Rightarrow> service_db \<Rightarrow> bool" where
  "quiet_db d d' \<longleftrightarrow> sd_slots d' = sd_slots d \<and> sd_calls d' = sd_calls d \<and>
     (\<exists>xs. sd_trace d' = sd_trace d @ xs \<and> (\<forall>x \<in> set xs. \<not> is_action (snd x) \<and> \<not> is_settled (snd x) \<and>
        \<not> is_returned (snd x)))"

lemma quiet_refl [simp, intro]: "quiet_db d d"
  by (simp add: quiet_db_def)

lemma quiet_trans: "quiet_db a b \<Longrightarrow> quiet_db b c \<Longrightarrow> quiet_db a c"
proof -
  assume "quiet_db a b" and "quiet_db b c"
  then obtain xs ys where "sd_trace b = sd_trace a @ xs" "sd_trace c = sd_trace b @ ys"
    "\<forall>x \<in> set xs. \<not> is_action (snd x) \<and> \<not> is_settled (snd x) \<and> \<not> is_returned (snd x)"
    "\<forall>x \<in> set ys. \<not> is_action (snd x) \<and> \<not> is_settled (snd x) \<and> \<not> is_returned (snd x)"
    "sd_slots c = sd_slots a" "sd_calls c = sd_calls a"
    by (auto simp: quiet_db_def)
  then show ?thesis unfolding quiet_db_def by (intro conjI exI[of _ "xs @ ys"]) auto
qed

lemma quiet_same:
  "sd_slots d' = sd_slots d \<Longrightarrow> sd_calls d' = sd_calls d \<Longrightarrow> sd_trace d' = sd_trace d \<Longrightarrow> quiet_db d d'"
  by (simp add: quiet_db_def)

lemma quiet_event: "quiet_db d a \<Longrightarrow> \<not> is_action ev \<Longrightarrow> \<not> is_settled ev \<Longrightarrow> \<not> is_returned ev \<Longrightarrow>
  quiet_db d (trace_event c ev a)"
  by (auto simp: quiet_db_def prim)

lemma cancel_quiet:
  "cancel_call e run why (d, p) = (d', p') \<Longrightarrow> quiet_db d d' \<and> sd_leases d' = sd_leases d \<and>
     pr_frames p' = pr_frames p \<and> pr_live p' = pr_live p \<and> pr_mgr p' = pr_mgr p"
  by (auto simp: cancel_call_def Let_def prim intro!: quiet_same split: option.splits)

lemma interrupt_quiet:
  "markInterrupted e run (d, p) = (d', p') \<Longrightarrow> quiet_db d d' \<and> sd_leases d' = sd_leases d \<and> p' = p"
  by (auto simp: markInterrupted_def Let_def prim intro!: quiet_same split: option.splits)

lemma stop_quiet:
  assumes "onStop e (d, p) = (d', p')"
  shows "quiet_db d d' \<and> sd_leases d' = sd_leases d \<and>
     pr_frames p' = pr_frames p \<and> pr_live p' = pr_live p \<and> pr_mgr p' = pr_mgr p"
proof -
  have "fold (\<lambda>run s. cancel_call e run ''runtime_shutdown'' (markInterrupted e run s)) runs (a, b) = (d', p') \<Longrightarrow>
      quiet_db a d' \<and> sd_leases d' = sd_leases a \<and>
      pr_frames p' = pr_frames b \<and> pr_live p' = pr_live b \<and> pr_mgr p' = pr_mgr b" for runs a b
  proof (induction runs arbitrary: a b)
    case (Cons r rs)
    obtain a1 b1 where m: "markInterrupted e r (a, b) = (a1, b1)" by (rule prod.exhaust)
    obtain a2 b2 where c: "cancel_call e r ''runtime_shutdown'' (a1, b1) = (a2, b2)" by (rule prod.exhaust)
    have "fold (\<lambda>run s. cancel_call e run ''runtime_shutdown'' (markInterrupted e run s)) rs (a2, b2) = (d', p')"
      using Cons.prems m c by simp
    from Cons.IH[OF this] interrupt_quiet[OF m] cancel_quiet[OF c] show ?case
      using quiet_trans by metis
  qed simp
  then show ?thesis using assms by (simp add: onStop_def)
qed

lemma persist_quiet:
  "persist_call e run (d, p) = (d', p') \<Longrightarrow> quiet_db d d' \<and> sd_leases d' = sd_leases d \<and> p' = p"
  by (auto simp: persist_call_def prim intro!: quiet_same split: option.splits)

lemma decide_quiet: "quiet_db d (decide e run n act cls why u d)" "sd_leases (decide e run n act cls why u d) = sd_leases d"
  "sd_records (decide e run n act cls why u d) = sd_records d"
  by (auto simp: decide_def intro!: quiet_same)

lemma checkpoint_quiet: "quiet_db d (put_checkpoint e r kd x y d)"
  by (rule quiet_same) (simp_all add: prim)

lemma claim_resume_quiet:
  "quiet_db d (snd (claim_resume e f v b r d)) \<and> sd_leases (snd (claim_resume e f v b r d)) = sd_leases d"
proof (cases v)
  case (fields act cls why)
  define d1 where "d1 = put_checkpoint e r CP_recovery_decided
                  (Some (''recovery basis verified: '' @
                    (case basis_checkpoint b of None \<Rightarrow> ''none'' | Some cp \<Rightarrow> kind_str (cp_kind cp)))) None
                  (decide e (runId (x_id r)) 1 RA_auto_resume cls (reason_text why) f d)"
  have d1: "quiet_db d d1" "sd_leases d1 = sd_leases d"
    unfolding d1_def by (rule quiet_trans[OF decide_quiet(1) checkpoint_quiet]) (simp add: prim decide_quiet)
  have "quiet_db d1 (snd (requeue e r d1)) \<and> sd_leases (snd (requeue e r d1)) = sd_leases d1"
    by (auto simp: requeue_def Let_def intro!: quiet_same split: sum.split option.split prod.split)
  moreover have "snd (claim_resume e f v b r d) \<in> {snd (requeue e r d1), d1}"
    unfolding claim_resume_def fields prod.case Let_def d1_def[symmetric] by simp
  ultimately show ?thesis using d1 quiet_trans[OF d1(1)] by auto
qed

lemma resume_quiet:
  "quiet_db d (snd (resumeRecoverable deps e run f d)) \<and>
   sd_leases (snd (resumeRecoverable deps e run f d)) = sd_leases d"
  using claim_resume_quiet decide_quiet
  by (auto simp: resumeRecoverable_def Let_def prim intro!: quiet_event split: option.split)

lemma recover_one_quiet:
  "quiet_db d (snd (recover_one deps e r d)) \<and> sd_leases (snd (recover_one deps e r d)) = sd_leases d"
proof (cases "verdict_of deps e d r")
  case (fields act cls why)
  define d1 where "d1 = decide e (runId (x_id r)) 0 act cls (reason_text why) False d"
  have d1: "quiet_db d d1" "sd_leases d1 = sd_leases d" by (simp_all add: d1_def decide_quiet)
  obtain res d2 where r2: "resumeRecoverable deps e (runId (x_id r)) True d1 = (res, d2)" by (rule prod.exhaust)
  have d2: "quiet_db d d2" "sd_leases d2 = sd_leases d"
    using resume_quiet[of d1 deps e "runId (x_id r)" True] r2 quiet_trans[OF d1(1)] d1(2) by auto
  have "snd (recover_one deps e r d) = (if act = RA_auto_resume then d2 else d1)"
    unfolding recover_one_def fields prod.case Let_def d1_def[symmetric] r2
    by (simp split: sum.split option.split)
  then show ?thesis using d1 d2 by simp
qed

lemma recover_all_quiet:
  "recover_all deps e rs d = (err, ss, d') \<Longrightarrow> quiet_db d d' \<and> sd_leases d' = sd_leases d"
proof (induction rs arbitrary: d err ss d')
  case (Cons r rs)
  obtain res d1 where r1: "recover_one deps e r d = (res, d1)" by (rule prod.exhaust)
  have d1: "quiet_db d d1" "sd_leases d1 = sd_leases d" using recover_one_quiet[of d deps e r] r1 by auto
  show ?case
  proof (cases res)
    case (Inl a)
    then show ?thesis using Cons.prems r1 d1 by auto
  next
    case (Inr b)
    obtain err2 ss2 d2 where r2: "recover_all deps e rs d1 = (err2, ss2, d2)" by (metis prod.exhaust)
    then show ?thesis using Cons.IH[OF r2] Cons.prems r1 d1 Inr quiet_trans by auto
  qed
qed simp

definition startup_leases_ok :: "lease_table \<Rightarrow> lease_table \<Rightarrow> (int \<Rightarrow> kill_result) \<Rightarrow> lease_manager \<Rightarrow> bool" where
  "startup_leases_ok tbl tbl' kill m \<longleftrightarrow>
     (\<exists>flt now lid ws ttl tbl1. tbl1 = snd (acquire kill flt m now lid LT_recovery ws ws None ttl tbl) \<and>
        (tbl' = tbl1 \<or> (\<exists>flt' t why. tbl' = snd (release flt' t LT_recovery ws why tbl1))))"

lemma startup_quiet:
  "quiet_db d (snd (startupRecovery deps kill e m ws d)) \<and>
   startup_leases_ok (sd_leases d) (sd_leases (snd (startupRecovery deps kill e m ws d))) kill m"
proof -
  obtain l tbl where acq: "acquire kill (e_leaseFaults e) m (e_now e) (e_leaseId e) LT_recovery ws ws None (Some 60000)
      (sd_leases d) = (l, tbl)" by (rule prod.exhaust)
  have tbl: "tbl = snd (acquire kill (e_leaseFaults e) m (e_now e) (e_leaseId e) LT_recovery ws ws None (Some 60000) (sd_leases d))"
    using acq by simp
  define d0 where "d0 = d\<lparr>sd_leases := tbl\<rparr>"
  have d0: "quiet_db d d0" by (rule quiet_same) (simp_all add: d0_def)
  have fin: "quiet_db a (startup_finally e ws n a)"
    "sd_leases (startup_finally e ws n a) = snd (release (e_releaseFaults e) (e_end e) LT_recovery ws ''recovery_complete'' (sd_leases a))" for n a
    unfolding startup_finally_def Let_def by (rule quiet_event) (auto intro!: quiet_same simp: prim)
  have dirty: "quiet_db a (quarantine_dirty e ws a)" "sd_leases (quarantine_dirty e ws a) = sd_leases a" for a
    by (auto simp: quarantine_dirty_def intro!: quiet_same)
  have ok1: "startup_leases_ok (sd_leases d) tbl kill m"
    unfolding startup_leases_ok_def using tbl by blast
  have ok2: "startup_leases_ok (sd_leases d) (snd (release flt t LT_recovery ws why tbl)) kill m" for flt t why
    unfolding startup_leases_ok_def using tbl by blast
  show ?thesis
  proof (cases l)
    case None
    then show ?thesis using acq d0 ok1 by (simp add: startupRecovery_def d0_def)
  next
    case (Some lease)
    show ?thesis
    proof (cases "e_findFails e")
      case (Some err)
      then show ?thesis
        using \<open>l = Some lease\<close> acq fin d0 ok2 quiet_trans[OF d0 fin(1)]
        by (simp add: startupRecovery_def d0_def)
    next
      case None
      obtain err ss d1 where r: "recover_all deps e (findInterrupted ws 100 (sd_records d0)) d0 = (err, ss, d1)"
        by (metis prod.exhaust)
      have d1: "quiet_db d d1" "sd_leases d1 = tbl"
        using recover_all_quiet[OF r] d0 quiet_trans by (auto simp: d0_def)
      have a: "quiet_db d (startup_finally e ws n d1)" for n by (rule quiet_trans[OF d1(1) fin(1)])
      have b: "quiet_db d (startup_finally e ws n (quarantine_dirty e ws d1))" for n
        by (rule quiet_trans[OF quiet_trans[OF d1(1) dirty(1)] fin(1)])
      have eq: "startupRecovery deps kill e m ws d =
         (case err of Some er \<Rightarrow> (Inl er, startup_finally e ws (Suc (length ss)) d1)
          | None \<Rightarrow> (Inr ss, startup_finally e ws (length ss) (quarantine_dirty e ws d1)))"
        using None r acq \<open>l = Some lease\<close> by (simp add: startupRecovery_def d0_def Let_def split: option.split)
      show ?thesis
        unfolding eq using a b ok2 by (simp add: fin dirty d1 split: option.split)
    qed
  qed
qed

end
