(* ===== verification/Service_Scenarios.thy ===== *)
theory Service_Scenarios
  imports Exec_System
begin

text \<open>
  Concrete calls of the execution service, evaluated: the surroundings and options they share, the
  rewrite rules that run a call by its projections (\<open>run_eval\<close>), and what some runs show about
  the code: a dry run answers a later real run, a slot is shared by every capability that uses
  its key, a cancellation before the action does not stop it, an approver that throws leaves the
  record waiting for approval.
\<close>

section \<open>Surroundings and options\<close>

definition demo_env :: "int \<Rightarrow> string \<Rightarrow> svc_env" where
  "demo_env t run =
     \<lparr>e_now = t, e_end = t, e_runId = run, e_leaseId = ''l'' @ run, e_requestId = ''q'',
      e_cpId = (\<lambda>r _. r), e_cancelId = (\<lambda>r. r), e_decisionId = (\<lambda>r _. r), e_random = 0,
      e_leaseFaults = no_faults, e_releaseFaults = no_faults, e_saveFails = (\<lambda>site. site \<noteq> At_final),
      e_cpFails = (\<lambda>_. False), e_readFails = False, e_cancelFails = False, e_markFails = False,
      e_decisionFails = False, e_findFails = None, e_claimFails = None, e_reconcileFails = None,
      e_settleFails = False\<rparr>"

definition demo_deps :: svc_deps where
  "demo_deps = \<lparr>dp_idempotency = True, dp_trust = False, dp_hooks = no_hooks\<rparr>"

definition demo_tool :: "string \<Rightarrow> capability_identity" where
  "demo_tool tool = \<lparr>cap_kind = CK_core_tool, cap_name = tool, cap_version = None,
     cap_requiresApproval = None, cap_owner = None\<rparr>"

text \<open>Tool, workflow, whether it is a dry run, and the key.\<close>

definition demo_opts :: "string \<Rightarrow> string option \<Rightarrow> bool \<Rightarrow> string option \<Rightarrow> exec_options" where
  "demo_opts tool wid dry key =
     \<lparr>eo_runId = None, eo_correlationId = None, eo_workspaceId = ''w'', eo_sessionId = None,
      eo_workflowId = wid, eo_taskId = None, eo_actor = A_system ''s'',
      eo_intent = \<lparr>in_summary = ''i'', in_origin = A_system ''s''\<rparr>, eo_plan = None,
      eo_capability = demo_tool tool, eo_placement = None, eo_trust = False,
      eo_idempotency = Non_idempotent, eo_idempotencyKey = key,
      eo_inputSummary = [], eo_inputBytes = None, eo_timeoutMs = None, eo_dryRun = dry,
      eo_maxAttempts = None, eo_isRetryable = False, eo_retryBackoffMs = None, eo_approve = True,
      eo_checkBudget = False, eo_recordCost = False\<rparr>"

definition demo_obs :: exec_observation where
  "demo_obs = \<lparr>obs_summary = ''ok'', obs_transportOk = True, obs_statusCode = None, obs_outputBytes = None,
     obs_logs = None, obs_modelFeedback = None\<rparr>"

text \<open>A call whose action needs no approval, and the return of the action.\<close>

definition demo_done :: "int \<Rightarrow> string \<Rightarrow> nat \<Rightarrow> exec_options \<Rightarrow> svc_op list" where
  "demo_done t run c opts =
     [Sv_begin 1 (demo_env t run) opts, Sv_answer 1 (demo_env (t + 1) run) c (Ans_action (RR_returns demo_obs))]"

fun event_sketch :: "svc_event \<Rightarrow> string" where
  "event_sketch (Ev_audit n) = ''audit '' @ n"
| "event_sketch Ev_budget_ok = ''budget''"
| "event_sketch (Ev_granted q) = ''granted''"
| "event_sketch Ev_trusted = ''trusted''"
| "event_sketch (Ev_action opts n) = ''action''"
| "event_sketch Ev_isolated = ''isolated''"
| "event_sketch (Ev_cost u) = ''cost''"
| "event_sketch (Ev_settled k s) = ''settled''"
| "event_sketch (Ev_returned r) = ''returned '' @ state_str (x_state r)"

definition trace_of :: "svc_op list \<Rightarrow> (nat option \<times> string) list" where
  "trace_of xs = map (\<lambda>x. (fst x, event_sketch (snd x))) (sd_trace (ss_db (svc_run demo_deps xs)))"

section \<open>Evaluation\<close>

named_theorems run_eval "rules that run a call by its projections"

lemma demo_env_sel [run_eval]:
  "e_now (demo_env t r) = t" "e_end (demo_env t r) = t" "e_runId (demo_env t r) = r"
  "e_leaseId (demo_env t r) = ''l'' @ r" "e_leaseFaults (demo_env t r) = no_faults"
  "e_releaseFaults (demo_env t r) = no_faults"
  "e_findFails (demo_env t r) = None" "e_claimFails (demo_env t r) = None"
  "e_reconcileFails (demo_env t r) = None" "e_settleFails (demo_env t r) = False"
  "e_random (demo_env t r) = 0" "e_requestId (demo_env t r) = ''q''"
  "e_saveFails (demo_env t r) site = (site \<noteq> At_final)"
  by (simp_all add: demo_env_def)

lemma demo_deps_sel [run_eval]: "dp_idempotency demo_deps" "dp_trust demo_deps = False"
  by (simp_all add: demo_deps_def)

lemma demo_opts_sel [run_eval]:
  "eo_runId (demo_opts a w dry k) = None" "eo_workspaceId (demo_opts a w dry k) = ''w''"
  "eo_workflowId (demo_opts a w dry k) = w" "eo_plan (demo_opts a w dry k) = None"
  "eo_capability (demo_opts a w dry k) = demo_tool a" "eo_placement (demo_opts a w dry k) = None"
  "eo_trust (demo_opts a w dry k) = False" "eo_idempotency (demo_opts a w dry k) = Non_idempotent"
  "eo_idempotencyKey (demo_opts a w dry k) = k" "eo_timeoutMs (demo_opts a w dry k) = None"
  "eo_dryRun (demo_opts a w dry k) = dry" "eo_maxAttempts (demo_opts a w dry k) = None"
  "eo_isRetryable (demo_opts a w dry k) = False" "eo_approve (demo_opts a w dry k)"
  "eo_checkBudget (demo_opts a w dry k) = False" "eo_recordCost (demo_opts a w dry k) = False"
  by (simp_all add: demo_opts_def)

lemma demo_tool_sel [run_eval]:
  "cap_kind (demo_tool a) = CK_core_tool" "cap_name (demo_tool a) = a"
  "capabilityRequiresApproval (demo_tool a) \<longleftrightarrow> a \<in> {''shell'', ''delete_file'', ''write_file'', ''git''}"
  by (simp_all add: demo_tool_def capabilityRequiresApproval_def)

lemma demo_obs_sel [run_eval]: "obs_transportOk demo_obs" "obs_summary demo_obs = ''ok''"
  by (simp_all add: demo_obs_def)

lemma new_record_sel [run_eval]:
  "x_state (new_record run opts t) = S_created" "x_outcome (new_record run opts t) = None"
  "runId (x_id (new_record run opts t)) = run" "workspaceId (x_id (new_record run opts t)) = eo_workspaceId opts"
  "workflowId (x_id (new_record run opts t)) = eo_workflowId opts"
  by (simp_all add: new_record_def)

text \<open>A save that fails leaves the table.\<close>

lemma persist_fails [run_eval]:
  "e_saveFails (k_env k) site \<Longrightarrow> sd_records (l_db (persist k site l)) = sd_records (l_db l)"
  by (simp add: persist_def prim try_save_def save_record_def split: option.split)

text \<open>A step of a process by the two halves of its result.\<close>

lemma in_process_pair [run_eval]:
  "in_process q f s =
     (case map_of (ss_procs s) q of
        None \<Rightarrow> s
      | Some p \<Rightarrow> \<lparr>ss_db = fst (f (ss_db s) p), ss_procs = AList.update q (snd (f (ss_db s) p)) (ss_procs s)\<rparr>)"
  by (simp add: in_process_def split: option.split prod.split)

declare applyTransition_eq [run_eval]

lemmas [run_eval] = prim Let_def begin_call_def start_call_def start_body_def policy_start_def
  policy_approval_def policy_answer_def after_policy_def dispatch_def idempotency_gate_def keyed_effect_def loop_from_def
  run_attempt_def max_attempts_def timeout_ms_def MAX_ATTEMPTS_def claim_slot_def claimed_def
  answer_call_def action_settled_def guard_error_def action_returned_def boot_def
  fresh_process_def svc_init_def svc_run_def park_def finish_call_db finalize_trace after_loop_def
  transition_def settle_events_def settle_state_def trace_of_def demo_done_def claim_def get_slot_def
  update_slot_def no_claim_def isTerminal_def TERMINAL_STATES_def

lemma find_nothing [run_eval]: "findCompletedByIdempotencyKey ws ck cn key [] = None"
  by (simp add: findCompletedByIdempotencyKey_def keyed_candidates_def newest_first_def)

lemma finalize_sel [run_eval]:
  "\<not> e_saveFails (k_env k) At_final \<Longrightarrow> x_state (l_rec (finalize k l)) = x_state (l_rec l)"
  by (simp add: finalize_def Let_def prim save_record_def split: option.split)

section \<open>What some of the code does\<close>

text \<open>A completed slot answers every call that claims its key, whatever the capability.\<close>

lemma completed_slot_answers_any_call:
  assumes "e_claimFails (k_env k) = None" and "get_slot key (sd_slots (l_db l)) = Some s"
    and "slotState s = Slot_completed" and "truthy_str (resultJson s)" and "x_state (l_rec l) = S_queued"
  shows "\<exists>l'. claim_slot k key l = Finish l' \<and> x_state (l_rec l') = S_succeeded \<and>
    l_trace l' = l_trace l @ [(Some (k_call k), Ev_audit ''execution.duplicate'')]"
  using assms by (simp add: claim_slot_def claim_def claimed_def no_claim_def replay_slot_def prim
    applyTransition_eq l_trace_def)

text \<open>The end of a dry run completes the slot of its key.\<close>

lemma dry_run_completes_the_slot:
  assumes "l_key l = Some key" and "key \<noteq> []" and "dp_idempotency (k_deps k)" and "\<not> e_settleFails (k_env k)"
    and "map_option oc_kind (x_outcome (l_rec l)) = Some OK_dry_run_simulated"
    and "get_slot key (sd_slots (l_db l)) = Some s"
  shows "\<exists>s'. get_slot key (sd_slots (l_db (settleIdempotencySlot k l))) = Some s' \<and> slotState s' = Slot_completed \<and>
    resultJson s' = Some (outcome_message (l_rec l) ''ok'')"
  using assms by (auto simp: settleIdempotencySlot_def settle_state_def Let_def prim complete_slot_def get_update)

text \<open>The flag of a cancelled run is not read before the action: an attempt starts it all the same.\<close>

lemma cancelled_before_the_action_runs_it:
  assumes "map_of (pr_flags (k_proc k)) (run_of l) = Some \<lparr>cf_cancelled = True, cf_reason = why\<rparr>"
    and "x_state (l_rec l) = S_queued"
  shows "\<exists>l' t. run_attempt k 1 l = Wait (PC_action 1 t) l' \<and> (Some (k_call k), Ev_action (k_opts k) 1) \<in> set (l_trace l')"
  using assms by (simp add: run_attempt_def Let_def prim applyTransition_eq l_trace_def)

text \<open>An error before the action leaves the record in the state it was in.\<close>

lemma early_error_is_not_terminal:
  assumes "x_state (l_rec l) \<in> {S_awaiting_policy, S_awaiting_approval, S_authorized, S_queued}"
  shows "x_state (l_rec (top_error k e l)) = x_state (l_rec l)"
  using assms by (auto simp: top_error_def Let_def prim applyTransition_eq isTerminal_def TERMINAL_STATES_def)

text \<open>No transition leads from a state before the action back to the queue, so the resume of such a
  record throws, and with it the discovery at startup: the records after it are not looked at.\<close>

lemma early_record_cannot_resume:
  assumes "e_findFails e = None" and "get_record run (sd_records d) = Some r"
    and "x_state r \<in> {S_awaiting_policy, S_awaiting_approval, S_authorized}"
    and "basis_ok (basis_of deps e d r)"
  shows "\<exists>err. fst (resumeRecoverable deps e run True d) = Inl err"
  using assms by (auto simp: resumeRecoverable_def claim_resume_def requeue_def transition_def Let_def
    wasInFlight_def IN_FLIGHT_STATES_def split: prod.split)

lemma early_record_ends_startup:
  assumes "recover_one deps e r d = (Inl err, d1)"
  shows "recover_all deps e (r # rs) d = (Some err, [], d1)"
  using assms by simp

text \<open>An action that the trust service runs in an environment never reaches the idempotency gate: its
  key is neither looked up nor claimed.\<close>

lemma isolated_effect_claims_no_slot:
  assumes "tg_outcome t = TG_ran obs" and "x_state (l_rec l) \<in> {S_awaiting_policy, S_authorized}"
  shows "\<exists>l'. trust_gate k (TA_evaluated t) l = Finish l' \<and> sd_slots (l_db l') = sd_slots (l_db l) \<and>
    (Some (k_call k), Ev_isolated) \<in> set (l_trace l')"
  using assms
  by (auto simp: trust_gate_def environment_ran_def environment_finished_def applyTransition_eq Let_def prim l_trace_def)

text \<open>The lookup by key returns the newest settled row of the key, so a failure that is newer hides a
  success; without the idempotency store the effect then runs again.\<close>

lemma newer_failure_hides_success:
  assumes "x_action a = Some act" and "x_action b = Some act" and "act_idempotencyKey act = Some key"
    and "workspaceId (x_id a) = workspaceId (x_id b)" and "x_createdAt a < x_createdAt b"
    and "x_state a = S_succeeded" and "x_state b = S_failed"
  shows "findCompletedByIdempotencyKey (workspaceId (x_id a)) (cap_kind (act_capability act))
      (cap_name (act_capability act)) key [row_of a, row_of b] = Some (truncateRecord b)"
  using assms
  by (simp add: findCompletedByIdempotencyKey_def keyed_candidates_def newest_first_def row_of_def SETTLED_STATES_def
    map_filter_simps record_key_def truncateRecord_def)

end
