(* ===== verification/Service_Properties.thy ===== *)
theory Service_Properties
  imports Service_Scenarios
begin

text \<open>
  What the execution service guarantees over every run of any number of processes: admission
  before action, at most one action for a non-idempotent operation under one key, terminal
  records, durable success.
\<close>

section \<open>Calls wait in order\<close>

definition frames_ok :: "svc_deps \<Rightarrow> (nat option \<times> svc_event) set \<Rightarrow> process \<Rightarrow> bool" where
  "frames_ok deps tr p \<longleftrightarrow>
     (\<forall>c fr. pr_frames p c = Some fr \<longrightarrow> wait_ok deps tr c (fr_opts fr) (fr_pc fr) (fr_rec fr))"

definition sound :: "svc_deps \<Rightarrow> svc_system \<Rightarrow> bool" where
  "sound deps s \<longleftrightarrow> good_trace deps (sd_trace (ss_db s)) \<and>
     (\<forall>q p. map_of (ss_procs s) q = Some p \<longrightarrow> frames_ok deps (set (sd_trace (ss_db s))) p)"

lemma wait_ok_mono: "wait_ok deps tr c opts pc r \<Longrightarrow> tr \<subseteq> tr' \<Longrightarrow> wait_ok deps tr' c opts pc r"
  using admitted_mono[of deps tr c opts tr'] policy_admitted_mono[of tr c opts tr']
  by (auto simp: wait_ok_def split: wait_point.splits)

lemma frames_ok_mono: "frames_ok deps tr p \<Longrightarrow> tr \<subseteq> tr' \<Longrightarrow> frames_ok deps tr' p"
  using wait_ok_mono unfolding frames_ok_def by blast

text \<open>How a step of one process acts on the system.\<close>

lemma in_process_cases:
  obtains "in_process q f s = s" "map_of (ss_procs s) q = None"
  | p d' p' where "map_of (ss_procs s) q = Some p" "f (ss_db s) p = (d', p')"
      "ss_db (in_process q f s) = d'" "map_of (ss_procs (in_process q f s)) = (map_of (ss_procs s))(q \<mapsto> p')"
proof (cases "map_of (ss_procs s) q")
  case None
  then show ?thesis using that(1) by (simp add: in_process_def)
next
  case (Some p)
  obtain d' p' where "f (ss_db s) p = (d', p')" by (rule prod.exhaust)
  then show ?thesis using that(2)[of p d' p'] Some by (simp add: in_process_def update_conv')
qed

text \<open>A step of a process is sound when it extends the trace, keeps it good and leaves the
  process with frames in order.\<close>

definition proc_sound :: "svc_deps \<Rightarrow> service_db \<Rightarrow> service_db \<times> process \<Rightarrow> bool" where
  "proc_sound deps d dp \<longleftrightarrow> good_trace deps (sd_trace (fst dp)) \<and> set (sd_trace d) \<subseteq> set (sd_trace (fst dp)) \<and>
     frames_ok deps (set (sd_trace (fst dp))) (snd dp)"

lemma in_process_sound:
  assumes "sound deps s"
    and "\<And>p. map_of (ss_procs s) q = Some p \<Longrightarrow> frames_ok deps (set (sd_trace (ss_db s))) p \<Longrightarrow>
      proc_sound deps (ss_db s) (f (ss_db s) p)"
  shows "sound deps (in_process q f s)"
proof (cases rule: in_process_cases[of q f s])
  case 1
  then show ?thesis using assms(1) by simp
next
  case (2 p d' p')
  have p: "frames_ok deps (set (sd_trace (ss_db s))) p" using assms(1) 2(1) by (auto simp: sound_def)
  have st: "proc_sound deps (ss_db s) (d', p')" using assms(2)[OF 2(1) p] 2(2) by simp
  then have sub: "set (sd_trace (ss_db s)) \<subseteq> set (sd_trace d')" by (simp add: proc_sound_def)
  have "frames_ok deps (set (sd_trace d')) p2" if "map_of (ss_procs (in_process q f s)) q2 = Some p2" for q2 p2
  proof (cases "q2 = q")
    case True
    then show ?thesis using that 2(4) st by (simp add: proc_sound_def)
  next
    case False
    then have "frames_ok deps (set (sd_trace (ss_db s))) p2" using that 2(4) assms(1) by (simp add: sound_def)
    then show ?thesis using frames_ok_mono sub by blast
  qed
  then show ?thesis using st by (simp add: sound_def 2(3) proc_sound_def)
qed

lemma quiet_proc_sound:
  assumes "good_trace deps (sd_trace d)" and "frames_ok deps (set (sd_trace d)) p" and "quiet_db d d'"
    and "\<And>c fr'. pr_frames p' c = Some fr' \<Longrightarrow> \<exists>fr. pr_frames p c = Some fr \<and> fr_opts fr' = fr_opts fr \<and>
      fr_pc fr' = fr_pc fr \<and> x_state (fr_rec fr') = x_state (fr_rec fr) \<and> x_outcome (fr_rec fr') = x_outcome (fr_rec fr)"
  shows "proc_sound deps d (d', p')"
proof -
  obtain xs where xs: "sd_trace d' = sd_trace d @ xs" "\<forall>x \<in> set xs. \<not> is_action (snd x)"
    using assms(3) by (auto simp: quiet_db_def)
  have "wait_ok deps tr c opts pc r \<Longrightarrow> x_state r' = x_state r \<Longrightarrow> x_outcome r' = x_outcome r \<Longrightarrow> wait_ok deps tr c opts pc r'"
    for tr c opts pc r r'
    using settle_state_same[of r r'] by (auto simp: wait_ok_def split: wait_point.splits)
  then have "frames_ok deps (set (sd_trace d)) p'"
    using assms(2,4) unfolding frames_ok_def by metis
  then show ?thesis
    using xs assms(1) frames_ok_mono[of deps "set (sd_trace d)" p' "set (sd_trace d')"]
    by (auto simp: proc_sound_def intro: good_trace_quiets)
qed

lemma quiet_pair:
  assumes "good_trace deps (sd_trace d)" and "frames_ok deps (set (sd_trace d)) p" and "quiet_db d d'"
    and "pr_frames p' = pr_frames p"
  shows "proc_sound deps d (d', p')"
  by (rule quiet_proc_sound[OF assms(1-3)]) (simp add: assms(4))

lemma finish_call_sound:
  assumes "good_trace deps (l_trace l)" and "set (sd_trace d) \<subseteq> set (l_trace l)"
    and "frames_ok deps (set (sd_trace d)) (k_proc k)"
  shows "proc_sound deps d (finish_call k held l)"
proof -
  define tr where "tr = sd_trace (fst (finish_call k held l))"
  have tr: "tr = l_trace l @ [(Some (k_call k), Ev_audit ''execution.outcome''),
      (Some (k_call k), Ev_returned (l_rec (finalize k l)))]"
    by (simp add: tr_def finish_call_db finalize_trace)
  have good: "good_trace deps tr"
    unfolding tr by (rule good_trace_quiets[OF assms(1)]) auto
  have sub: "set (sd_trace d) \<subseteq> set tr" using assms(2) by (auto simp: tr)
  have "frames_ok deps (set (sd_trace d)) (snd (finish_call k held l))"
    using assms(3) by (simp add: frames_ok_def finish_call_db)
  from frames_ok_mono[OF this sub] good sub show ?thesis
    by (simp add: proc_sound_def tr_def)
qed

lemma top_error_good:
  assumes "good_trace deps (l_trace l)"
  shows "good_trace deps (l_trace (top_error k e l)) \<and> set (l_trace l) \<subseteq> set (l_trace (top_error k e l))"
proof -
  have a: "l_trace (case applyTransition k E_fail w a of Go l' \<Rightarrow> l' | _ \<Rightarrow> a) = l_trace a" for a w
    by (simp add: applyTransition_eq prim split: option.split)
  show ?thesis
    using good_settled[OF assms] by (simp add: top_error_def Let_def prim a)
qed

lemma settle_flow_sound:
  assumes "flow_good calm k f" and "k_deps k = deps" and "set (sd_trace d) \<subseteq> set (l_trace (flow_local f))"
    and "frames_ok deps (set (sd_trace d)) (k_proc k)"
  shows "proc_sound deps d (settle_flow k held f)"
proof (cases f)
  case (Wait pc l)
  have "frames_ok deps (set (l_trace l)) (k_proc k)"
    using frames_ok_mono[OF assms(4)] assms(3) Wait by simp
  then show ?thesis
    using assms Wait by (auto simp: park_def proc_sound_def frames_ok_def l_trace_def)
next
  case (Raise e l)
  have "good_trace deps (l_trace l)" using assms Raise by simp
  from top_error_good[OF this, of k e] show ?thesis
    using assms Raise by (auto intro!: finish_call_sound)
qed (use assms in \<open>auto intro!: finish_call_sound\<close>)

lemma begin_call_sound:
  assumes good: "good_trace deps (sd_trace d)" and fr: "frames_ok deps (set (sd_trace d)) p"
  shows "proc_sound deps d (begin_call deps kill e opts d p)"
proof -
  have start: "proc_sound deps d (start_call deps e c run opts held d1 p)" if "sd_trace d1 = sd_trace d" for c run held d1
  proof -
    define p1 where "p1 = p\<lparr>pr_live := AList.update run c (pr_live p),
                pr_flags := AList.update run \<lparr>cf_cancelled = False, cf_reason = None\<rparr> (pr_flags p)\<rparr>"
    define k where "k = \<lparr>k_deps = deps, k_env = e, k_proc = p1, k_call = c, k_opts = opts\<rparr>"
    define l where "l = checkpoint k CP_task_accepted None (audit k ''execution.created''
        \<lparr>l_db = d1, l_rec = new_record run opts (e_now e), l_key = None\<rparr>)"
    have l: "x_state (l_rec l) = S_created" "x_outcome (l_rec l) = None"
      "l_trace l = sd_trace d @ [(Some c, Ev_audit ''execution.created'')]"
      using that by (simp_all add: l_def prim new_record_def l_trace_def k_def)
    have "flow_good False k (start_body k l)"
      by (rule start_body_good) (use l good in \<open>simp_all add: k_def\<close>)
    moreover have "set (sd_trace d) \<subseteq> set (l_trace (flow_local (start_body k l)))"
      using start_body_steady[of l k] l by (auto simp: steady_def)
    moreover have "frames_ok deps (set (sd_trace d)) p1" using fr by (simp add: frames_ok_def p1_def)
    moreover have "start_call deps e c run opts held d1 p = settle_flow k held (start_body k l)"
      by (simp only: start_call_def Let_def p1_def k_def l_def)
    ultimately show ?thesis using settle_flow_sound[of False k "start_body k l" deps d] by (simp add: k_def)
  qed
  have rej: "proc_sound deps d (reject_call e c r d1, p)" if "sd_trace d1 = sd_trace d" for c r d1
  proof -
    have "good_trace deps (sd_trace d @ [(Some c, Ev_audit n)] @ [(Some c, Ev_returned r)])" for n
      by (rule good_trace_quiets[OF good]) auto
    moreover have "frames_ok deps (insert x (insert y (set (sd_trace d)))) p" for x y
      by (rule frames_ok_mono[OF fr]) auto
    ultimately show ?thesis
      using that by (auto simp: proc_sound_def reject_call_def prim)
  qed
  show ?thesis
    unfolding begin_call_def Let_def
    by (auto intro!: start rej split: option.split prod.split)
qed

lemma answer_call_sound:
  assumes good: "good_trace deps (sd_trace d)" and fr: "frames_ok deps (set (sd_trace d)) p"
  shows "proc_sound deps d (answer_call deps e c a d p)"
proof (cases "pr_frames p c")
  case None
  then show ?thesis using good fr by (simp add: answer_call_def proc_sound_def)
next
  case (Some f)
  define k where "k = \<lparr>k_deps = deps, k_env = e, k_proc = p, k_call = c, k_opts = fr_opts f\<rparr>"
  define l where "l = \<lparr>l_db = d, l_rec = fr_rec f, l_key = fr_key f\<rparr>"
  have wait: "wait_ok (k_deps k) (set (l_trace l)) (k_call k) (k_opts k) (fr_pc f) (l_rec l)"
    using fr Some by (auto simp: frames_ok_def k_def l_def l_trace_def)
  show ?thesis
  proof (cases "continue_flow k (fr_pc f) a l")
    case None
    then show ?thesis using Some good fr by (simp add: answer_call_def Let_def k_def l_def proc_sound_def)
  next
    case (Some g)
    have "flow_good False k g"
      by (rule continue_flow_good[OF wait _ Some]) (use good in \<open>simp_all add: k_def l_def l_trace_def\<close>)
    moreover have "set (sd_trace d) \<subseteq> set (l_trace (flow_local g))"
      using continue_flow_steady[OF Some] by (auto simp: steady_def l_def l_trace_def)
    ultimately have "proc_sound deps d (settle_flow k (fr_lease f) g)"
      by (intro settle_flow_sound[of False]) (use fr in \<open>simp_all add: k_def\<close>)
    then show ?thesis
      using \<open>pr_frames p c = Some f\<close> Some by (simp add: answer_call_def Let_def k_def[symmetric] l_def[symmetric])
  qed
qed

lemma callback_keeps [simp]:
  "x_state (callback_record t cb r) = x_state r" "x_outcome (callback_record t cb r) = x_outcome r"
  "x_id (callback_record t cb r) = x_id r"
  by (cases cb; simp add: callback_record_def record_usage_def)+

lemma callback_quiet: "quiet_db d (fold (trace_event c) (callback_cost opts cb r) d)"
  by (auto simp: callback_cost_def intro!: quiet_event split: run_callback.split option.split)

interpretation service: inv_machine "svc_step deps" "sound deps" for deps
proof unfold_locales
  fix s x
  assume s: "sound deps s"
  then have good: "good_trace deps (sd_trace (ss_db s))" by (simp add: sound_def)
  note quiet = quiet_proc_sound[OF good]
  show "sound deps (svc_step deps x s)"
  proof (cases x)
    case (Sv_boot q inst)
    then show ?thesis using s by (auto simp: boot_def sound_def fresh_process_def frames_ok_def)
  next
    case (Sv_crash q)
    then show ?thesis using s by (auto simp: sound_def delete_conv' split: if_splits)
  next
    case (Sv_callback q e c cb)
    have "proc_sound deps (ss_db s) (run_callback_op e c cb (ss_db s) p)"
      if "frames_ok deps (set (sd_trace (ss_db s))) p" for p
    proof (cases "pr_frames p c")
      case None
      then show ?thesis using quiet[OF that quiet_refl, of p] by (simp add: run_callback_op_def)
    next
      case (Some fr)
      show ?thesis
        unfolding run_callback_op_def Some option.case
        by (rule quiet[OF that callback_quiet]) (use Some in \<open>auto split: if_splits\<close>)
    qed
    then show ?thesis using Sv_callback in_process_sound[OF s] by simp
  next
    case (Sv_cancel q e run why)
    have "proc_sound deps (ss_db s) (cancel_call e run why (ss_db s, p))"
      if "frames_ok deps (set (sd_trace (ss_db s))) p" for p
    proof -
      obtain d' p' where eq: "cancel_call e run why (ss_db s, p) = (d', p')" by (rule prod.exhaust)
      then show ?thesis using quiet_pair[OF good that, of d' p'] cancel_quiet[OF eq] by simp
    qed
    then show ?thesis using Sv_cancel in_process_sound[OF s] by simp
  next
    case (Sv_interrupt q e run)
    have "proc_sound deps (ss_db s) (markInterrupted e run (ss_db s, p))"
      if "frames_ok deps (set (sd_trace (ss_db s))) p" for p
    proof -
      obtain d' p' where eq: "markInterrupted e run (ss_db s, p) = (d', p')" by (rule prod.exhaust)
      then show ?thesis using quiet_pair[OF good that, of d' p'] interrupt_quiet[OF eq] by simp
    qed
    then show ?thesis using Sv_interrupt in_process_sound[OF s] by simp
  next
    case (Sv_stop q e)
    have "proc_sound deps (ss_db s) (onStop e (ss_db s, p))"
      if "frames_ok deps (set (sd_trace (ss_db s))) p" for p
    proof -
      obtain d' p' where eq: "onStop e (ss_db s, p) = (d', p')" by (rule prod.exhaust)
      then show ?thesis using quiet_pair[OF good that, of d' p'] stop_quiet[OF eq] by simp
    qed
    then show ?thesis using Sv_stop in_process_sound[OF s] by simp
  next
    case (Sv_persist q e run)
    have "proc_sound deps (ss_db s) (persist_call e run (ss_db s, p))"
      if "frames_ok deps (set (sd_trace (ss_db s))) p" for p
    proof -
      obtain d' p' where eq: "persist_call e run (ss_db s, p) = (d', p')" by (rule prod.exhaust)
      then show ?thesis using quiet_pair[OF good that, of d' p'] persist_quiet[OF eq] by simp
    qed
    then show ?thesis using Sv_persist in_process_sound[OF s] by simp
  next
    case (Sv_resume q e run force)
    then show ?thesis using in_process_sound[OF s] quiet_pair[OF good _ _ refl] resume_quiet by simp
  next
    case (Sv_startup q e ws)
    then show ?thesis using in_process_sound[OF s] quiet_pair[OF good _ _ refl] startup_quiet by simp
  next
    case (Sv_lease_cleanup q e)
    have "quiet_db d (d\<lparr>sd_leases := tbl\<rparr>)" for d tbl by (rule quiet_same) simp_all
    then show ?thesis using Sv_lease_cleanup in_process_sound[OF s] quiet_pair[OF good _ _ refl] by simp
  qed (use in_process_sound[OF s] begin_call_sound[OF good] answer_call_sound[OF good] in simp_all)
qed

lemma init_sound: "sound deps svc_init"
  by (simp add: sound_def svc_init_def good_trace_def)

lemma svc_run_sound: "sound deps (svc_run deps xs)"
  unfolding svc_run_def by (rule service.run_inv[OF init_sound])

section \<open>What one step adds\<close>

definition opts_in :: "svc_system \<Rightarrow> exec_options set" where
  "opts_in s = {fr_opts fr | fr q p c. map_of (ss_procs s) q = Some p \<and> pr_frames p c = Some fr}"

fun begun :: "svc_op \<Rightarrow> exec_options set" where
  "begun (Sv_begin q e opts) = {opts}"
| "begun _ = {}"

fun op_env :: "svc_op \<Rightarrow> svc_env option" where
  "op_env (Sv_begin q e opts) = Some e"
| "op_env (Sv_answer q e c a) = Some e"
| "op_env _ = None"

text \<open>Nothing outside throws in this step.\<close>

definition calm_op :: "svc_op \<Rightarrow> bool" where
  "calm_op x \<longleftrightarrow> (case op_env x of None \<Rightarrow> True | Some e \<Rightarrow> calm_env e) \<and>
     (case x of Sv_answer q e c a \<Rightarrow> calm_answer a | _ \<Rightarrow> True)"

text \<open>
  A step that runs a call: the local state it starts from has the database of the system, but
  for the leases, the count of calls and audit events.
\<close>

definition call_step :: "svc_deps \<Rightarrow> svc_op \<Rightarrow> svc_system \<Rightarrow> call_ctx \<Rightarrow> bool \<Rightarrow> local \<Rightarrow> flow \<Rightarrow> bool" where
  "call_step deps x s k held l f \<longleftrightarrow> k_deps k = deps \<and> k_opts k \<in> opts_in s \<union> begun x \<and>
     sd_slots (l_db l) = sd_slots (ss_db s) \<and> sd_records (l_db l) = sd_records (ss_db s) \<and>
     (\<exists>xs. l_trace l = sd_trace (ss_db s) @ xs \<and>
        (\<forall>x \<in> set xs. \<not> is_action (snd x) \<and> \<not> is_settled (snd x) \<and> \<not> is_returned (snd x))) \<and>
     steady l (flow_local f) \<and> (\<forall>calm. (calm \<longrightarrow> calm_op x) \<longrightarrow> flow_good calm k f) \<and>
     (\<forall>key. unsafe_class key (k_opts k) \<longrightarrow> dp_idempotency deps \<longrightarrow> l_good key l \<longrightarrow> l_good key (flow_local f))"

definition rejected :: "service_db \<Rightarrow> service_db \<Rightarrow> bool" where
  "rejected d d' \<longleftrightarrow> (\<exists>c r. x_state r = S_failed \<and> map_option oc_kind (x_outcome r) = Some OK_failed \<and>
     sd_slots d' = sd_slots d \<and>
     sd_trace d' = sd_trace d @ [(Some c, Ev_audit ''execution.lease_rejected''), (Some c, Ev_returned r)])"

lemma start_call_step:
  assumes "sound deps s" and "sd_slots d = sd_slots (ss_db s)" and "sd_trace d = sd_trace (ss_db s)"
    and "sd_records d = sd_records (ss_db s)"
  shows "\<exists>k l f. call_step deps (Sv_begin q e opts) s k held l f \<and> start_call deps e c run opts held d p = settle_flow k held f"
proof -
  define p1 where "p1 = p\<lparr>pr_live := AList.update run c (pr_live p),
              pr_flags := AList.update run \<lparr>cf_cancelled = False, cf_reason = None\<rparr> (pr_flags p)\<rparr>"
  define k where "k = \<lparr>k_deps = deps, k_env = e, k_proc = p1, k_call = c, k_opts = opts\<rparr>"
  define l where "l = checkpoint k CP_task_accepted None (audit k ''execution.created''
      \<lparr>l_db = d, l_rec = new_record run opts (e_now e), l_key = None\<rparr>)"
  have l: "x_state (l_rec l) = S_created" "x_outcome (l_rec l) = None" "sd_slots (l_db l) = sd_slots (ss_db s)"
    "sd_records (l_db l) = sd_records (ss_db s)"
    "l_trace l = sd_trace (ss_db s) @ [(Some c, Ev_audit ''execution.created'')]"
    using assms by (simp_all add: l_def prim new_record_def l_trace_def k_def)
  have good: "good_trace deps (l_trace l)" using assms(1) by (simp add: l sound_def)
  have fg: "flow_good calm k (start_body k l)" if "calm \<longrightarrow> calm_op (Sv_begin q e opts)" for calm
    by (rule start_body_good) (use l good that in \<open>simp_all add: k_def calm_op_def\<close>)
  have "call_step deps (Sv_begin q e opts) s k held l (start_body k l)"
    unfolding call_step_def
    using l fg start_body_steady start_body_slots by (simp add: k_def)
  moreover have "start_call deps e c run opts held d p = settle_flow k held (start_body k l)"
    by (simp only: start_call_def Let_def p1_def k_def l_def)
  ultimately show ?thesis by blast
qed

lemma begin_call_cases:
  assumes "sound deps s"
  shows "(\<exists>k held l f. call_step deps (Sv_begin q e opts) s k held l f \<and> begin_call deps kill e opts (ss_db s) p = settle_flow k held f)
     \<or> (rejected (ss_db s) (fst (begin_call deps kill e opts (ss_db s) p)) \<and> snd (begin_call deps kill e opts (ss_db s) p) = p)"
proof -
  define W where "W dp \<longleftrightarrow> (\<exists>k held l f. call_step deps (Sv_begin q e opts) s k held l f \<and> dp = settle_flow k held f) \<or>
    (rejected (ss_db s) (fst dp) \<and> snd dp = p)" for dp
  have rej: "W (reject_call e c (rejected_record run opts t why msg short) d, p)"
    if "sd_slots d = sd_slots (ss_db s)" "sd_trace d = sd_trace (ss_db s)" for c run opts t why msg short d
    unfolding W_def rejected_def using that
    by (intro disjI2 conjI exI[of _ c] exI[of _ "rejected_record run opts t why msg short"])
      (simp_all add: reject_call_def prim rejected_record_def Let_def)
  have start: "W (start_call deps e c run opts held d p)"
    if "sd_slots d = sd_slots (ss_db s)" "sd_trace d = sd_trace (ss_db s)" "sd_records d = sd_records (ss_db s)" for c run held d
    unfolding W_def using start_call_step[OF assms that] by blast
  have "W (begin_call deps kill e opts (ss_db s) p)"
    unfolding begin_call_def Let_def
    by (auto intro!: start rej split: option.split prod.split)
  then show ?thesis by (simp add: W_def)
qed

lemma answer_call_cases:
  assumes s: "sound deps s" and p: "map_of (ss_procs s) q = Some p"
  shows "answer_call deps e c a (ss_db s) p = (ss_db s, p) \<or>
    (\<exists>k held l f. call_step deps (Sv_answer q e c a) s k held l f \<and> answer_call deps e c a (ss_db s) p = settle_flow k held f)"
proof (cases "pr_frames p c")
  case None
  then show ?thesis by (simp add: answer_call_def)
next
  case (Some g)
  define k where "k = \<lparr>k_deps = deps, k_env = e, k_proc = p, k_call = c, k_opts = fr_opts g\<rparr>"
  define l where "l = \<lparr>l_db = ss_db s, l_rec = fr_rec g, l_key = fr_key g\<rparr>"
  have good: "good_trace deps (l_trace l)" using s by (simp add: l_def l_trace_def sound_def)
  have wait: "wait_ok (k_deps k) (set (l_trace l)) (k_call k) (k_opts k) (fr_pc g) (l_rec l)"
    using s p Some by (auto simp: sound_def frames_ok_def k_def l_def l_trace_def)
  show ?thesis
  proof (cases "continue_flow k (fr_pc g) a l")
    case None
    then show ?thesis using Some by (simp add: answer_call_def Let_def k_def l_def)
  next
    case (Some f)
    have fg: "flow_good calm k f" if "calm \<longrightarrow> calm_op (Sv_answer q e c a)" for calm
      by (rule continue_flow_good[OF wait _ Some]) (use good that in \<open>simp_all add: k_def calm_op_def\<close>)
    have "k_opts k \<in> opts_in s" using p \<open>pr_frames p c = Some g\<close> by (auto simp: opts_in_def k_def)
    then have "call_step deps (Sv_answer q e c a) s k (fr_lease g) l f"
      unfolding call_step_def
      using fg continue_flow_steady[OF Some] continue_flow_slots[OF _ _ _ wait Some]
      by (simp add: k_def l_def l_trace_def)
    moreover have "answer_call deps e c a (ss_db s) p = settle_flow k (fr_lease g) f"
      using \<open>pr_frames p c = Some g\<close> Some by (simp add: answer_call_def Let_def k_def[symmetric] l_def[symmetric])
    ultimately show ?thesis by blast
  qed
qed

text \<open>Every step is quiet, rejects a call, or runs one.\<close>

lemma svc_step_cases:
  assumes s: "sound deps s"
  shows "quiet_db (ss_db s) (ss_db (svc_step deps x s)) \<or> rejected (ss_db s) (ss_db (svc_step deps x s)) \<or>
     (\<exists>k held l f. call_step deps x s k held l f \<and> ss_db (svc_step deps x s) = fst (settle_flow k held f))"
proof -
  have quiet: "quiet_db (ss_db s) (ss_db (in_process q f s))" if "\<And>p. quiet_db (ss_db s) (fst (f (ss_db s) p))" for q f
    by (cases rule: in_process_cases[of q f s]) (use that in \<open>auto, metis fst_conv\<close>)
  show ?thesis
  proof (cases x)
    case (Sv_begin q e opts)
    show ?thesis
    proof (cases rule: in_process_cases[of q "begin_call deps (kill_in s) e opts" s])
      case (2 p d' p')
      then show ?thesis using begin_call_cases[OF s, of q e opts "kill_in s" p] Sv_begin by (metis fst_conv svc_step.simps(3))
    qed (use Sv_begin in simp)
  next
    case (Sv_answer q e c a)
    show ?thesis
    proof (cases rule: in_process_cases[of q "answer_call deps e c a" s])
      case (2 p d' p')
      then show ?thesis using answer_call_cases[OF s 2(1), of e c a] Sv_answer
        by (metis Pair_inject fst_conv quiet_refl svc_step.simps(4))
    qed (use Sv_answer in simp)
  next
    case (Sv_callback q e c cb)
    have "quiet_db (ss_db s) (fst (run_callback_op e c cb (ss_db s) p))" for p
      by (auto simp: run_callback_op_def callback_quiet split: option.split)
    then show ?thesis using Sv_callback quiet by simp
  next
    case (Sv_cancel q e run why)
    have "quiet_db (ss_db s) (fst (cancel_call e run why (ss_db s, p)))" for p
      by (metis cancel_quiet prod.exhaust_sel)
    then show ?thesis using Sv_cancel quiet by simp
  next
    case (Sv_interrupt q e run)
    have "quiet_db (ss_db s) (fst (markInterrupted e run (ss_db s, p)))" for p
      by (metis interrupt_quiet prod.exhaust_sel)
    then show ?thesis using Sv_interrupt quiet by simp
  next
    case (Sv_stop q e)
    have "quiet_db (ss_db s) (fst (onStop e (ss_db s, p)))" for p
      by (metis stop_quiet prod.exhaust_sel)
    then show ?thesis using Sv_stop quiet by simp
  next
    case (Sv_persist q e run)
    have "quiet_db (ss_db s) (fst (persist_call e run (ss_db s, p)))" for p
      by (metis persist_quiet prod.exhaust_sel)
    then show ?thesis using Sv_persist quiet by simp
  next
    case (Sv_lease_cleanup q e)
    have "quiet_db d (d\<lparr>sd_leases := tbl\<rparr>)" for d tbl by (rule quiet_same) simp_all
    then show ?thesis using Sv_lease_cleanup quiet by simp
  qed (use quiet resume_quiet startup_quiet in \<open>simp_all add: boot_def\<close>)
qed

text \<open>The options of the calls in flight were given to a call that began.\<close>

lemma settle_flow_frames:
  "pr_frames (snd (settle_flow k held f)) c = Some fr \<Longrightarrow>
     (c \<noteq> k_call k \<and> pr_frames (k_proc k) c = Some fr) \<or> (c = k_call k \<and> fr_opts fr = k_opts k)"
  by (cases f) (auto simp: finish_call_db park_def split: if_splits)

lemma begin_call_frames:
  assumes "pr_frames (snd (begin_call deps kill e opts d p)) c = Some fr"
  shows "pr_frames p c = Some fr \<or> fr_opts fr = opts"
proof -
  have "pr_frames p c = Some fr \<or> fr_opts fr = opts"
    if "pr_frames (snd (start_call deps e c0 run opts held d0 p)) c = Some fr" for c0 run held d0
    using settle_flow_frames[OF that[unfolded start_call_def Let_def]] by auto
  then show ?thesis
    using assms by (auto simp: begin_call_def Let_def split: if_splits option.splits prod.splits)
qed

lemma answer_call_frames:
  assumes "pr_frames (snd (answer_call deps e c0 a d p)) c = Some fr"
  shows "\<exists>c' fr'. pr_frames p c' = Some fr' \<and> fr_opts fr = fr_opts fr'"
proof (cases "pr_frames p c0")
  case None
  then show ?thesis using assms by (auto simp: answer_call_def)
next
  case (Some g)
  then show ?thesis
    using assms by (auto simp: answer_call_def Let_def split: option.splits dest!: settle_flow_frames) blast+
qed

lemma opts_step: "opts_in (svc_step deps x s) \<subseteq> opts_in s \<union> begun x"
proof -
  have gen: "opts_in (in_process q f s) \<subseteq> opts_in s \<union> B"
    if "\<And>p c fr. map_of (ss_procs s) q = Some p \<Longrightarrow> pr_frames (snd (f (ss_db s) p)) c = Some fr \<Longrightarrow> fr_opts fr \<in> opts_in s \<union> B"
    for q f B
  proof (cases rule: in_process_cases[of q f s])
    case (2 p d' p')
    have new: "fr_opts fr \<in> opts_in s \<union> B" if "pr_frames p' c = Some fr" for c fr
      using \<open>\<And>p c fr. map_of (ss_procs s) q = Some p \<Longrightarrow> pr_frames (snd (f (ss_db s) p)) c = Some fr \<Longrightarrow> fr_opts fr \<in> opts_in s \<union> B\<close>[OF 2(1)] that 2(2)
      by simp
    show ?thesis
    proof
      fix opts assume "opts \<in> opts_in (in_process q f s)"
      then obtain fr q2 p2 c where fr: "opts = fr_opts fr" "map_of (ss_procs (in_process q f s)) q2 = Some p2" "pr_frames p2 c = Some fr"
        by (auto simp: opts_in_def)
      show "opts \<in> opts_in s \<union> B"
      proof (cases "q2 = q")
        case True
        then show ?thesis using fr new 2(4) by auto
      next
        case False
        then show ?thesis using fr 2(4) by (auto simp: opts_in_def)
      qed
    qed
  qed simp
  have old: "map_of (ss_procs s) q = Some p \<Longrightarrow> pr_frames p c = Some fr \<Longrightarrow> fr_opts fr \<in> opts_in s" for q p c fr
    by (auto simp: opts_in_def)
  show ?thesis
  proof (cases x)
    case (Sv_begin q e opts)
    have "fr_opts fr \<in> opts_in s \<union> {opts}"
      if "map_of (ss_procs s) q = Some p" "pr_frames (snd (begin_call deps (kill_in s) e opts (ss_db s) p)) c = Some fr" for p c fr
      using begin_call_frames[OF that(2)] old[OF that(1)] by auto
    then show ?thesis using Sv_begin gen[of q "begin_call deps (kill_in s) e opts" "{opts}"] by simp
  next
    case (Sv_answer q e c a)
    have "fr_opts fr \<in> opts_in s" if "map_of (ss_procs s) q = Some p" "pr_frames (snd (answer_call deps e c a (ss_db s) p)) c' = Some fr" for p c' fr
      using answer_call_frames[OF that(2)] old[OF that(1)] by fastforce
    then show ?thesis using Sv_answer gen[of q "answer_call deps e c a" "{}"] by simp
  next
    case (Sv_callback q e c cb)
    have "fr_opts fr \<in> opts_in s" if "map_of (ss_procs s) q = Some p" "pr_frames (snd (run_callback_op e c cb (ss_db s) p)) c' = Some fr" for p c' fr
      using that old by (auto simp: run_callback_op_def split: option.splits if_splits)
    then show ?thesis using Sv_callback gen[of q "run_callback_op e c cb" "{}"] by simp
  next
    case (Sv_cancel q e run why)
    have "pr_frames (snd (cancel_call e run why (d, p))) = pr_frames p" for d p
      by (metis cancel_quiet prod.exhaust_sel)
    then show ?thesis using Sv_cancel gen[of q "\<lambda>d p. cancel_call e run why (d, p)" "{}"] old by simp
  next
    case (Sv_interrupt q e run)
    have "pr_frames (snd (markInterrupted e run (d, p))) = pr_frames p" for d p
      by (metis interrupt_quiet prod.exhaust_sel)
    then show ?thesis using Sv_interrupt gen[of q "\<lambda>d p. markInterrupted e run (d, p)" "{}"] old by simp
  next
    case (Sv_stop q e)
    have "pr_frames (snd (onStop e (d, p))) = pr_frames p" for d p
      by (metis stop_quiet prod.exhaust_sel)
    then show ?thesis using Sv_stop gen[of q "\<lambda>d p. onStop e (d, p)" "{}"] old by simp
  next
    case (Sv_persist q e run)
    have "pr_frames (snd (persist_call e run (d, p))) = pr_frames p" for d p
      by (metis persist_quiet prod.exhaust_sel)
    then show ?thesis using Sv_persist gen[of q "\<lambda>d p. persist_call e run (d, p)" "{}"] old by simp
  next
    case (Sv_boot q inst)
    then show ?thesis by (auto simp: boot_def opts_in_def fresh_process_def split: if_splits)
  next
    case (Sv_crash q)
    then show ?thesis by (auto simp: opts_in_def delete_conv' split: if_splits)
  next
    case (Sv_resume q e run f)
    then show ?thesis using gen[of q "\<lambda>d p. (snd (resumeRecoverable deps e run f d), p)" "{}"] old by simp
  next
    case (Sv_startup q e ws)
    then show ?thesis
      using gen[of q "\<lambda>d p. (snd (startupRecovery deps (kill_in s) e (pr_mgr p) ws d), p)" "{}"] old by simp
  next
    case (Sv_lease_cleanup q e)
    then show ?thesis
      using gen[of q "\<lambda>d p. (d\<lparr>sd_leases := snd (cleanup (e_leaseFaults e) (e_now e) None (sd_leases d))\<rparr>, p)" "{}"] old by simp
  qed
qed

section \<open>No second action under one key\<close>

definition key_fact :: "string \<Rightarrow> svc_system \<Rightarrow> bool" where
  "key_fact key s \<longleftrightarrow> slot_good key (sd_slots (ss_db s)) (sd_trace (ss_db s)) \<and> (\<forall>opts \<in> opts_in s. unsafe_class key opts)"

definition begins_unsafe :: "string \<Rightarrow> svc_op \<Rightarrow> bool" where
  "begins_unsafe key x \<longleftrightarrow> (\<forall>opts \<in> begun x. unsafe_class key opts)"

lemma finish_call_slots:
  "l_good key l \<Longrightarrow> slot_good key (sd_slots (fst (finish_call k held l))) (sd_trace (fst (finish_call k held l)))"
proof -
  assume "l_good key l"
  from silent_good[OF finalize_silent this, of k]
  have "slot_good key (sd_slots (l_db (finalize k l))) (sd_trace (l_db (finalize k l)))"
    by (simp add: l_good_def l_trace_def)
  then show ?thesis by (simp add: finish_call_db slot_good_quiet)
qed

lemma settle_flow_slots:
  assumes "l_good key (flow_local f)" and "flow_good calm k f"
  shows "slot_good key (sd_slots (fst (settle_flow k held f))) (sd_trace (fst (settle_flow k held f)))"
  using assms finish_call_slots top_error_slots
  by (cases f) (auto simp: park_def l_good_def l_trace_def)

interpretation keyed: protected_machine "svc_step deps" "sound deps"
  "\<lambda>x. begins_unsafe key x \<and> dp_idempotency deps" "key_fact key" for deps key
proof unfold_locales
  fix s x
  assume s: "sound deps s" and f: "key_fact key s" and adm: "begins_unsafe key x \<and> dp_idempotency deps"
  have opts: "\<forall>opts \<in> opts_in s \<union> begun x. unsafe_class key opts"
    using f adm by (auto simp: key_fact_def begins_unsafe_def)
  from svc_step_cases[OF s, of x]
  have "slot_good key (sd_slots (ss_db (svc_step deps x s))) (sd_trace (ss_db (svc_step deps x s)))"
  proof (elim disjE exE conjE)
    assume "quiet_db (ss_db s) (ss_db (svc_step deps x s))"
    then show ?thesis using f slot_good_quiet unfolding quiet_db_def key_fact_def by metis
  next
    assume "rejected (ss_db s) (ss_db (svc_step deps x s))"
    then show ?thesis using f by (auto simp: rejected_def key_fact_def slot_good_quiet)
  next
    fix k held l fl
    assume c: "call_step deps x s k held l fl" and eq: "ss_db (svc_step deps x s) = fst (settle_flow k held fl)"
    have "l_good key l"
      using c f slot_good_quiet unfolding call_step_def key_fact_def l_good_def by metis
    then have "l_good key (flow_local fl)" using c opts adm by (auto simp: call_step_def)
    moreover have "flow_good False k fl" using c by (simp add: call_step_def)
    ultimately show ?thesis unfolding eq by (rule settle_flow_slots)
  qed
  then show "key_fact key (svc_step deps x s)"
    using opts opts_step[of deps x s] by (auto simp: key_fact_def)
qed

lemma init_key_fact: "key_fact key svc_init"
  by (simp add: key_fact_def svc_init_def slot_good_def slot_clean_def effects_def state_of_def get_slot_def opts_in_def)

section \<open>Returned records\<close>

definition returned_ok :: "svc_system \<Rightarrow> bool" where
  "returned_ok s \<longleftrightarrow> (\<forall>c r. (c, Ev_returned r) \<in> set (sd_trace (ss_db s)) \<longrightarrow>
     isTerminal (x_state r) \<and> x_outcome r \<noteq> None)"

lemma finalize_terminal:
  "isTerminal (x_state (l_rec l)) \<Longrightarrow> x_outcome (l_rec l) \<noteq> None \<Longrightarrow>
     isTerminal (x_state (l_rec (finalize k l))) \<and> x_outcome (l_rec (finalize k l)) \<noteq> None"
  by (auto simp: finalize_def Let_def downgrade_def prim split: option.split)

lemma top_error_terminal:
  "isTerminal (x_state (l_rec l)) \<Longrightarrow> isTerminal (x_state (l_rec (top_error k e l))) \<and> x_outcome (l_rec (top_error k e l)) \<noteq> None"
  by (simp add: top_error_def Let_def prim)

definition new_events :: "service_db \<Rightarrow> service_db \<Rightarrow> (nat option \<times> svc_event) set" where
  "new_events d d' = set (drop (length (sd_trace d)) (sd_trace d'))"

lemma settle_flow_returned:
  assumes c: "call_step deps x s k held l f" and calm: "calm_op x"
    and new: "(c, Ev_returned r) \<in> set (sd_trace (fst (settle_flow k held f)))" and old: "returned_ok s"
  shows "isTerminal (x_state r) \<and> x_outcome r \<noteq> None"
proof -
  have fg: "flow_good True k f" using c calm by (simp add: call_step_def)
  obtain xs where xs: "l_trace l = sd_trace (ss_db s) @ xs" "\<forall>x \<in> set xs. \<not> is_returned (snd x)"
    using c unfolding call_step_def by blast
  have "steady l (flow_local f)" using c by (simp add: call_step_def)
  then obtain ys where ys: "l_trace (flow_local f) = l_trace l @ ys" "\<forall>x \<in> set ys. \<not> is_returned (snd x)"
    unfolding steady_def by blast
  have flow: "?thesis" if "(c, Ev_returned r) \<in> set (l_trace (flow_local f))"
  proof -
    have "(c, Ev_returned r) \<notin> set xs" "(c, Ev_returned r) \<notin> set ys" using xs(2) ys(2) by force+
    then have "(c, Ev_returned r) \<in> set (sd_trace (ss_db s))" using that xs(1) ys(1) by simp
    then show ?thesis using old unfolding returned_ok_def by blast
  qed
  have fin: "?thesis" if t: "isTerminal (x_state (l_rec a))" "x_outcome (l_rec a) \<noteq> None"
    and eq: "settle_flow k held f = finish_call k held a" and sub: "(c, Ev_returned r) \<in> set (l_trace a) \<Longrightarrow> ?thesis" for a
  proof -
    have "(c, Ev_returned r) \<in> set (l_trace a) \<or> r = l_rec (finalize k a)"
      using new unfolding eq finish_call_db finalize_trace by auto
    then show ?thesis using finalize_terminal[OF t, of k] sub by blast
  qed
  show ?thesis
  proof (cases f)
    case (Raise e a)
    have "(c, Ev_returned r) \<in> set (l_trace (top_error k e a)) \<Longrightarrow> (c, Ev_returned r) \<in> set (l_trace a)"
      using top_error_steady[of a k e] by (auto simp: steady_def dest: bspec)
    then show ?thesis using fin[of "top_error k e a"] flow fg Raise top_error_terminal[of a k e] by simp
  next
    case (Wait pc a)
    then show ?thesis using new flow by (simp add: park_def l_trace_def)
  qed (use fg fin flow in auto)
qed

interpretation returned: protected_machine "svc_step deps" "sound deps" calm_op returned_ok for deps
proof unfold_locales
  fix s x
  assume s: "sound deps s" and f: "returned_ok s" and calm: "calm_op x"
  from svc_step_cases[OF s, of x] show "returned_ok (svc_step deps x s)"
  proof (elim disjE exE conjE)
    assume "quiet_db (ss_db s) (ss_db (svc_step deps x s))"
    then show ?thesis using f by (fastforce simp: quiet_db_def returned_ok_def)
  next
    assume "rejected (ss_db s) (ss_db (svc_step deps x s))"
    then show ?thesis using f by (auto simp: rejected_def returned_ok_def)
  next
    fix k held l fl
    assume "call_step deps x s k held l fl" and "ss_db (svc_step deps x s) = fst (settle_flow k held fl)"
    then show ?thesis using settle_flow_returned[OF _ calm _ f] by (simp add: returned_ok_def)
  qed
qed

section \<open>The properties\<close>

text \<open>C1: in every run of any number of processes of the runtime over one workspace, however calls,
  answers, cancellations, crashes and recovery interleave, an action is started only by a call
  whose budget check has passed before if it has one, whose approval was granted before if its
  capability requires one, and which the trust gate let through before if it asks for it.\<close>

theorem no_action_without_admission:
  assumes "sd_trace (ss_db (svc_run deps xs)) = pre @ (Some c, Ev_action opts n) # post"
  shows "(eo_checkBudget opts \<longrightarrow> (Some c, Ev_budget_ok) \<in> set pre) \<and>
    (capabilityRequiresApproval (eo_capability opts) \<longrightarrow> (\<exists>q. (Some c, Ev_granted q) \<in> set pre)) \<and>
    (eo_trust opts \<and> dp_trust deps \<longrightarrow> (Some c, Ev_trusted) \<in> set pre)"
  using svc_run_sound[of deps xs] assms
  by (simp add: sound_def good_trace_def admitted_def policy_admitted_def)

definition approved_run :: "svc_op list" where
  "approved_run = [Sv_boot 1 ''i'', Sv_begin 1 (demo_env 5 ''r'') (demo_opts ''git'' None False None),
     Sv_answer 1 (demo_env 6 ''r'') 0 (Ans_approval (AP_answer True))]"

theorem no_action_without_admission_witness:
  "(Some 0, Ev_granted ''q'') \<in> set (sd_trace (ss_db (svc_run demo_deps approved_run))) \<and>
   (\<exists>q. (Some 0, Ev_granted q) \<in> set [(Some 0, Ev_audit ''execution.created''),
       (Some 0, Ev_audit ''execution.approval_requested''), (Some 0, Ev_granted ''q'')])"
proof -
  have "sd_trace (ss_db (svc_run demo_deps approved_run)) =
      [(Some 0, Ev_audit ''execution.created''), (Some 0, Ev_audit ''execution.approval_requested''),
       (Some 0, Ev_granted ''q'')] @ (Some 0, Ev_action (demo_opts ''git'' None False None) 1) # []"
    by (simp add: approved_run_def run_eval cong: let_weak_cong)
  from this no_action_without_admission[OF this] show ?thesis by (simp add: run_eval)
qed

text \<open>C2: an effect that is not idempotent happens at most once under its key. Whatever calls of
  whatever processes carry the key, and wherever a process crashes between two steps, the actions
  of all runs of the key number at most one, as long as the idempotency store is wired, every
  call with that key declares a class that is not safe to repeat, and no attempt has been
  recorded as failed without a possible effect (which frees the key on purpose). Actions run in an
  environment by the trust service do not pass the idempotency gate and are not counted.\<close>

theorem unsafe_effect_at_most_once:
  assumes "dp_idempotency deps" and "\<forall>x \<in> set xs. begins_unsafe key x"
    and "\<not> failed_key key (sd_trace (ss_db (svc_run deps xs)))"
  shows "effects key (sd_trace (ss_db (svc_run deps xs))) \<le> 1"
proof -
  have "key_fact key (svc_run deps xs)"
    unfolding svc_run_def using assms(1,2) by (intro keyed.run_fact init_sound init_key_fact) auto
  then show ?thesis using assms(3) by (simp add: key_fact_def slot_good_def slot_clean_def)
qed

definition keyed_run :: "svc_op list" where
  "keyed_run = [Sv_boot 1 ''i'', Sv_begin 1 (demo_env 5 ''r'') (demo_opts ''read'' None False (Some ''k''))]"

theorem unsafe_effect_at_most_once_witness:
  "effects ''k'' (sd_trace (ss_db (svc_run demo_deps keyed_run))) = 1 \<and>
   effects ''k'' (sd_trace (ss_db (svc_run demo_deps keyed_run))) \<le> 1"
proof -
  have tr: "sd_trace (ss_db (svc_run demo_deps keyed_run)) =
      [(Some 0, Ev_audit ''execution.created''), (Some 0, Ev_action (demo_opts ''read'' None False (Some ''k'')) 1)]"
    by (simp add: keyed_run_def run_eval cong: let_weak_cong)
  have calls: "\<forall>x \<in> set keyed_run. begins_unsafe ''k'' x"
    by (simp add: keyed_run_def begins_unsafe_def unsafe_class_def demo_opts_sel)
  have "\<not> failed_key ''k'' (sd_trace (ss_db (svc_run demo_deps keyed_run)))"
    by (simp add: tr failed_key_def)
  from unsafe_effect_at_most_once[OF demo_deps_sel(1) calls this] show ?thesis
    unfolding tr by (simp add: effects_def keyed_effect_def truthy_str_def demo_opts_sel)
qed

text \<open>C3: where nothing outside throws (the approver, the trust service, the lookups), every record
  that a call returns is in a terminal state and has an outcome: whatever the answers, the
  cancellations and the crashes of other processes, no call returns in the middle of its
  lifecycle.\<close>

theorem returned_records_are_terminal:
  assumes "\<forall>x \<in> set xs. calm_op x" and "(c, Ev_returned r) \<in> set (sd_trace (ss_db (svc_run deps xs)))"
  shows "isTerminal (x_state r) \<and> x_outcome r \<noteq> None"
proof -
  have "returned_ok (svc_run deps xs)"
    unfolding svc_run_def using assms(1)
    by (intro returned.run_fact init_sound) (simp_all add: returned_ok_def svc_init_def)
  then show ?thesis using assms(2) by (auto simp: returned_ok_def)
qed

definition denied_run :: "svc_op list" where
  "denied_run = [Sv_boot 1 ''i'', Sv_begin 1 (demo_env 5 ''r'') (demo_opts ''git'' None False None),
     Sv_answer 1 (demo_env 6 ''r'') 0 (Ans_approval (AP_answer False))]"

theorem returned_records_are_terminal_witness:
  "\<exists>r. (Some 0, Ev_returned r) \<in> set (sd_trace (ss_db (svc_run demo_deps denied_run))) \<and>
     isTerminal (x_state r) \<and> x_outcome r \<noteq> None"
proof -
  have "map (\<lambda>x. (fst x, event_sketch (snd x))) (sd_trace (ss_db (svc_run demo_deps denied_run))) =
      [(Some 0, ''audit execution.created''), (Some 0, ''audit execution.approval_requested''),
       (Some 0, ''audit execution.approval_denied''), (Some 0, ''audit execution.outcome''), (Some 0, ''returned denied'')]"
    by (simp add: denied_run_def l_trace_def run_eval cong: let_weak_cong)
  then have "(Some 0, ''returned denied'') \<in> set (map (\<lambda>x. (fst x, event_sketch (snd x))) (sd_trace (ss_db (svc_run demo_deps denied_run))))"
    by simp
  then obtain r where r: "(Some 0, Ev_returned r) \<in> set (sd_trace (ss_db (svc_run demo_deps denied_run)))"
    by (auto elim: event_sketch.elims[OF sym])
  have "\<forall>x \<in> set denied_run. calm_op x"
    by (simp add: denied_run_def calm_op_def calm_env_def calm_answer_def demo_env_sel)
  from returned_records_are_terminal[OF this r] r show ?thesis by blast
qed





end
