(* ===== verification/Spec2Isabelle.thy ===== *)
theory Spec2Isabelle
  imports Approval_Liveness Audit_Evidence Idempotency_Store Workflow_Events Workflow_Lint Workflow_Versions Exec_Recovery Lease_Statements Exec_Retry Exec_Lane Trust_Properties Budget_Governor Service_Properties
begin

text \<open>
  A verification development for XR, a local runtime for language-model agents written in
  TypeScript (\<open>src/src\<close>). XR runs agents that call tools with side effects, so the parts that
  carry its promises are those that decide whether a step may run, whether it may run again,
  who may run it, where, and what it may cost. Those parts are modelled here, each from its
  source file, and the theorems say what a user may rely on.

  \<^bold>\<open>The parts and how they interact.\<close> The workflow engine executes a graph of nodes; what a
  node does (an agent run, a tool call, a timer, a human decision) is done by collaborators.
  A call of the execution service is one execution with a state machine of its own; checkpoints are written
  at its boundaries, a lease says which process owns it, a lane keeps executions with one key
  from running at once, retry classification decides whether a failure may be tried again and
  crash recovery decides what to do with what a dead process left behind. Trust decides from
  the risk tier of an action where it may be placed; an action that needs consent waits for a
  durable approval, and an external effect claims a slot before it is performed. The cost
  governor asks, before every
  step, either the partition ledger (a task that is split between workers) or the reservation
  table of the workspace whether the step may be paid. Decisions leave an entry in the audit log.

  \<^bold>\<open>Shared theories.\<close>
  \<^item> \<open>XR_Prelude\<close>: readings of TypeScript idioms (\<open>??\<close>, \<open>find\<close>, \<open>ORDER BY\<close>), runs of transition
    tables, and the locales that state the contracts of such tables (\<open>gated_region\<close>, \<open>closed_region\<close>,
    \<open>ranked_fsm\<close>, \<open>inv_machine\<close>, \<open>guarded_machine\<close>), interpreted on the tables and machines of the parts.
  \<^item> \<open>JS_Number\<close>: numbers of the accounting code, exact rationals with \<open>NaN\<close> and infinities.

  \<^bold>\<open>Executions\<close> (\<open>src/src/execution\<close>).
  \<^item> \<open>Exec_State_Machine\<close> (\<open>state-machine.ts\<close>, the states of \<open>types.ts\<close>): the transition table,
    the state sets, \<open>transition\<close>. Lemmas: a grant is the only way from the approval wait to
    work, dead ends, runs are bounded by the number of retries.
  \<^item> \<open>Exec_Types\<close> (\<open>types.ts\<close>): identities, actions, trust metadata, JSON values, the record of
    an execution, reduced to the fields the modelled code reads or writes.
  \<^item> \<open>Exec_Lease\<close> (\<open>lease.ts\<close>): \<open>acquire\<close>, \<open>renew\<close>, \<open>release\<close>, \<open>cleanup\<close>, \<open>markStale\<close> over the table of
    leases, each as a call that runs alone. Lemmas: a crashed owner is taken over.
  \<^item> \<open>Lease_Statements\<close> (\<open>lease.ts\<close>): \<open>acquire\<close> again, cut into its SQL statements, which run without
    a transaction and so interleave between processes; run alone they are \<open>acquire\<close>. Lemmas: a
    live holder keeps its lease against every call under way that has not read a row it may
    not trust any more. Then interleavings in which two processes hold one target.
  \<^item> \<open>Exec_Checkpoint\<close> (\<open>checkpoint.ts\<close>): creation, validation, latest checkpoint, pruning.
    Lemmas: what was created is what a resume is based on; pruning keeps the evidence.
  \<^item> \<open>Exec_Recovery\<close> (\<open>recovery.ts\<close>): discovery, classification, resume basis, decisions,
    cancellations, environments. Lemmas: an automatic resume is justified by its checkpoint,
    a durable cancellation blocks it, a step boundary prevents a silent repeat.
  \<^item> \<open>Exec_Retry\<close> (\<open>retry-classification.ts\<close>, \<open>core/provider-abort.ts\<close>): the failure taxonomy,
    backoff, budget and \<open>decideRetry\<close>. Lemmas: a retry only when it is safe, an unknown side
    effect is reconciled.
  \<^item> \<open>Exec_Lane\<close> (\<open>lane.ts\<close>): the queue as a machine whose steps are calls, timers and abort
    signals. Lemmas: mutual exclusion for clients that release once, FIFO, no lost wakeup.

  \<^bold>\<open>The execution service\<close> (\<open>src/src/execution/service.ts\<close>, \<open>repository.ts\<close>).
  \<^item> \<open>Exec_Records\<close>: the full record, its bounds, the table and its queries.
  \<^item> \<open>Exec_Service\<close>, \<open>Exec_Calls\<close>: one call of \<open>execute\<close>, cut at its \<open>await\<close>s (budget, approval,
    trust, the action, the retry decision, the backoff); what runs between two of them is one
    function, and the answers of the collaborators are arguments of the next. The action and
    the audit events leave entries in a trace. \<open>Exec_Startup\<close>: resume and startup recovery.
  \<^item> \<open>Exec_Flow\<close>, \<open>Exec_Effects\<close>: each function, run symbolically: where it waits, what it returns,
    which actions it starts, what it does to the slots and leaves alone.
  \<^item> \<open>Exec_System\<close>: any number of processes over one database; starts, crashes, calls, answers,
    callbacks, cancellation, shutdown, resume and recovery in any order. \<open>Service_Scenarios\<close>:
    concrete calls, evaluated, some of which show defects.
  \<^item> \<open>Service_Properties\<close>: no action without admission, at most one action of an unsafe operation
    under one key, a returned record is terminal, no resume without a verified basis.

  \<^bold>\<open>Workflows\<close> (\<open>src/src/execution/workflow\<close>).
  \<^item> \<open>Workflow_State_Machine\<close> (\<open>state-machine.ts\<close>, \<open>types.ts\<close>): the machines of runs and nodes.
  \<^item> \<open>Workflow_Graph\<close> (\<open>types.ts\<close>, \<open>nodes.ts\<close>): nodes, definitions, closure and \<open>validateGraph\<close>,
    which is shown equivalent to its specification (unique identifiers, no dangling
    references, acyclic). The depth first search has fuel, one more than the number of nodes,
    and \<open>dfs_enough_fuel\<close> shows that more changes nothing.
  \<^item> \<open>Workflow_Engine\<close>, \<open>Workflow_Control\<close> (\<open>engine.ts\<close>): the executors of the node kinds, cut at
    their \<open>await\<close>s; the loop with \<open>MAX_TICKS\<close> (1000, the bound of the source); the control
    verbs; a restart of the process. The state of the engine is the stored row, the run
    objects in memory, which object the \<open>live\<close> map names, and the segments in flight.
  \<^item> \<open>Workflow_Spec\<close>: the abstract run, a step relation with its invariants.
  \<^item> \<open>Workflow_Refinement\<close>, \<open>Workflow_Runs\<close>: the engine implements the abstract run, segment by
    segment, operation by operation, for every interleaving; \<open>executions\<close> counts how often an
    object has executed a node.
  \<^item> \<open>Workflow_Properties\<close>: what follows for the engine, through the locale \<open>kept_by_steps\<close>: no
    approval above a node is bypassed, executions are bounded, a cancelled run is final, completed nodes
    stay completed, an acyclic run makes progress. Then runs that show defects of the code.
  \<^item> \<open>Workflow_Events\<close> (\<open>emitChanges\<close>, \<open>events.ts\<close>): the events mirror the run.
  \<^item> \<open>Workflow_Lint\<close> (\<open>lint.ts\<close>): a clean lint means a sound definition.
  \<^item> \<open>Workflow_Versions\<close> (\<open>versioning.ts\<close>): drafts, publication, integrity, compatibility.

  \<^bold>\<open>Trust\<close> (\<open>src/src/runtime/trust\<close>).
  \<^item> \<open>Trust_Lattice\<close> (\<open>types.ts\<close>, \<open>lattice.ts\<close>): tiers and placements only escalate.
  \<^item> \<open>Trust_Placement\<close> (\<open>policy.ts\<close>): the placement decision is complete and fails closed.
  \<^item> \<open>Trust_Classify\<close> (\<open>classify.ts\<close>): tier and controls from the facts of a request, with the
    tier stated as a specification. \<open>Trust_Authority\<close> (\<open>authority.ts\<close>, \<open>credentials.ts\<close>): grants, the
    registry, the credential broker, its patterns written out with a small matcher.
  \<^item> \<open>Trust_Environment\<close> (\<open>verify.ts\<close>, \<open>environment/manager.ts\<close>, the claims of the backends):
    verification, start and end of a run. \<open>Trust_Service\<close> (\<open>service.ts\<close>): evaluations, cut at
    their \<open>await\<close>s, any number in flight.
  \<^item> \<open>Trust_Properties\<close>: isolated work runs only behind a verified boundary, the tier of a run
    only escalates, no grant outlives its action, secrets that cannot run into a redaction mark
    (\<open>clear_of_mark\<close>) are scrubbed and dropped. Then
    actions that are always refused, limits that do not follow an escalation, leaks.

  \<^bold>\<open>Consent and effects\<close> (\<open>src/src/control\<close>, \<open>src/src/state\<close>).
  \<^item> \<open>Approval_Gate\<close> (\<open>typed-confirm.ts\<close>): the phrases of headless surfaces.
  \<^item> \<open>Approval_Rows\<close> (\<open>workspace-store.ts\<close>, \<open>approval-store.ts\<close>): the table of approvals.
  \<^item> \<open>Approval_Store\<close> (\<open>approval-store.ts\<close>): the calls, the promises with their timers and
    pollers, and the approvers, as steps of any number of processes on one file.
  \<^item> \<open>Approval_Frames\<close>, \<open>Approval_Properties\<close>, \<open>Approval_Liveness\<close>: the well-formedness of a
    world; no approval without a decision on a pending row, decided rows are final, a headless
    Tier-2 action needs a phrase; every promise that is attached once is settled by its timer.
  \<^item> \<open>Idempotency_Store\<close> (\<open>idempotency.ts\<close>): one caller of a slot proceeds, a completed slot
    replays its result.

  \<^bold>\<open>Evidence\<close> (\<open>src/src/state/workspace-store.ts\<close>, \<open>src/src/security\<close>).
  \<^item> \<open>Audit_Chain\<close> (\<open>workspace-store.ts\<close>, \<open>audit-signer.ts\<close>): the hash chain of audit entries,
    redaction, keying and rotation of the signing key, repair; one database, any number of
    processes. SHA-256 and Ed25519 are the parameter \<open>crypto\<close>.
  \<^item> \<open>Audit_Verify\<close> (\<open>audit-verify.ts\<close>, \<open>audit-anchor.ts\<close>, \<open>commands/audit.ts\<close>): the crypto
    verification, anchors, the exit code.
  \<^item> \<open>Audit_Properties\<close>, \<open>Audit_Signing\<close>, \<open>Audit_Evidence\<close>: the chain always replays and no process
    takes it for broken; used in order (processes may come and go, the key changes while one is
    open), the signed log always passes; a head compared with the
    installed key, or an anchor, admits only histories the store really had, up to collisions
    of the hash. Then forged logs that are accepted and honest ones that are refused.

  \<^bold>\<open>Money\<close> (\<open>src/src/cost\<close>, \<open>src/src/state\<close>).
  \<^item> \<open>Budget_Partition\<close> (\<open>repos/partition-repo.ts\<close>): envelopes, cuts, admission, settlement.
    Lemmas: spending stays within the envelopes, the root is the sum of its children, a
    commit settles once.
  \<^item> \<open>Budget_Reservations\<close> (\<open>workspace-store.ts\<close>, \<open>repos/reservation-repo.ts\<close>, \<open>cost/manager.ts\<close>):
    the caps of the workspace. \<open>Budget_Governor\<close> (\<open>cost/governor.ts\<close>): the governor of a task,
    over the locale \<open>partition_admitter\<close> that the partition ledger interprets.

  \<^bold>\<open>Reading the model.\<close> A class with state is a record that its methods take and return; a
  table is the list of its rows in the order of insertion; a thrown error is the left side of
  a sum; an error or remediation text is a constructor with the interpolated values. A
  \<open>Date.now()\<close>, a random identifier, the answer of \<open>process.kill(pid, 0)\<close>, of a collaborator or
  of a hook, hash functions, the calendar and the sort comparator are arguments, so that
  every theorem holds for all of their values. SQL statements that may fail inside a
  \<open>catch\<close> fail when a flag says so. All recursions are total: structural, with a
  \<open>termination\<close> proof, or with the fuel named above. Money is exact: the binary rounding of
  floating point numbers is not modelled, the rounding the code itself does is.

  \<^bold>\<open>Not modelled\<close>, with the reason. Pricing tables and token estimates (data and heuristics;
  they enter the governor as numbers). Spans, metrics, listeners and log lines of the execution
  service (they change nothing); a function between two of its \<open>await\<close>s reads the clock once, and
  within the service a lease is acquired in one step. The adapters that fill in the options of
  a call and the views that format records; the storage and layout of workflows. The
  builder functions of \<open>nodes.ts\<close>. SQLite access and schema migrations. Providers, routing,
  retrieval, ranking and compression (network clients and heuristics). The command lines and
  system calls of the isolation backends, of which only the guarantees they claim are
  modelled, and the filesystem authority that a grant opens. The loop of the agent, the tool registry, daemon, chat bots, terminal and web interfaces, installation,
  configuration and telemetry, the desktop, mobile and cloud applications (input and output).
  Provider health and circuit breaking, the cron and token-bucket parts of the automation and
  the pure parts of security are not modelled either.
\<close>

end
